(* ===== verification/Prelude.thy ===== *)
theory Prelude
  imports Main "HOL-Library.List_Lexorder" "HOL-Library.Char_ord"
begin

text \<open>
  Shared vocabulary of the development: identifiers, instants, the errors a
  handler can raise, the result of a state-changing handler, and the generic
  facts about tables (lists of rows) and strings that every component uses.

  A handler of the server that may raise after it has already written (a
  failed pairing redemption records the failed attempt and then throws) keeps
  its writes, so a result is a pair of the error or value and the new state;
  only \<open>$transaction\<close> blocks roll back, and the definitions say so by returning
  the state from before the block.

  Strings are lists of ASCII code units. JavaScript strings are UTF-16; every
  string the modelled code compares, trims or case-folds is an identifier, a
  code, a user name, an e-mail address or a base64 or hexadecimal text, and on
  ASCII the functions below agree with the built-in ones.
\<close>

named_theorems table_simps
named_theorems guard_simps

section \<open>Types shared by all components\<close>

type_synonym ident = string
type_synonym bytes = "char list"
type_synonym instant = int

datatype http_error =
    Bad_Request string
  | Unauthorized string
  | Challenge string bool
  | Forbidden string
  | Cooldown int
  | Not_Found string
  | Conflict string
  | Stale_Session_Epoch int
  | Unique_Violation
  | Record_Missing
  | Foreign_Key_Violation
  | Server_Error string

section \<open>Tables\<close>

text \<open>
  A table is the list of its rows. A query without \<open>orderBy\<close> may return the rows
  of a table in any order; the theorems hold for every list of rows, hence for
  every such order.
\<close>

definition update_where :: "('r \<Rightarrow> bool) \<Rightarrow> ('r \<Rightarrow> 'r) \<Rightarrow> 'r list \<Rightarrow> 'r list" where
  "update_where p f rs = map (\<lambda>r. if p r then f r else r) rs"

definition delete_where :: "('r \<Rightarrow> bool) \<Rightarrow> 'r list \<Rightarrow> 'r list" where
  "delete_where p rs = filter (\<lambda>r. \<not> p r) rs"

definition max_column :: "('r \<Rightarrow> int) \<Rightarrow> 'r list \<Rightarrow> int option" where
  "max_column k rs = (if rs = [] then None else Some (Max (set (map k rs))))"

definition first_by :: "('r \<Rightarrow> 'k::linorder) \<Rightarrow> 'r list \<Rightarrow> 'r option" where
  "first_by k rs = (case sort_key k rs of [] \<Rightarrow> None | r # _ \<Rightarrow> Some r)"

lemma set_update_where [table_simps]:
  "set (update_where p f rs) = (\<lambda>r. if p r then f r else r) ` set rs"
  by (simp add: update_where_def)

lemma update_where_Nil [simp]: "update_where p f [] = []"
  by (simp add: update_where_def)

lemma update_where_Cons [simp]:
  "update_where p f (r # rs) = (if p r then f r else r) # update_where p f rs"
  by (simp add: update_where_def)

lemma update_where_append [simp]:
  "update_where p f (xs @ ys) = update_where p f xs @ update_where p f ys"
  by (simp add: update_where_def)

lemma length_update_where [simp]: "length (update_where p f rs) = length rs"
  by (simp add: update_where_def)

lemma map_update_where:
  "(\<And>r. p r \<Longrightarrow> k (f r) = k r) \<Longrightarrow> map k (update_where p f rs) = map k rs"
  by (simp add: update_where_def comp_def)

lemma update_where_id: "(\<And>r. r \<in> set rs \<Longrightarrow> \<not> p r) \<Longrightarrow> update_where p f rs = rs"
  by (induction rs) auto

lemma set_delete_where [table_simps]: "set (delete_where p rs) = {r \<in> set rs. \<not> p r}"
  by (auto simp: delete_where_def)

lemma delete_where_Nil [simp]: "delete_where p [] = []"
  by (simp add: delete_where_def)

lemma delete_where_Cons [simp]:
  "delete_where p (r # rs) = (if p r then delete_where p rs else r # delete_where p rs)"
  by (simp add: delete_where_def)

lemma distinct_map_delete_where:
  "distinct (map k rs) \<Longrightarrow> distinct (map k (delete_where p rs))"
  by (simp add: delete_where_def distinct_map_filter)

lemma filter_update_where:
  "(\<And>r. p r \<Longrightarrow> q (f r) = q r) \<Longrightarrow>
     filter q (update_where p f rs) = update_where p f (filter q rs)"
  by (induction rs) auto

lemma filter_update_where_other:
  "(\<And>r. r \<in> set rs \<Longrightarrow> p r \<Longrightarrow> \<not> q r \<and> \<not> q (f r)) \<Longrightarrow> filter q (update_where p f rs) = filter q rs"
  by (induction rs) auto

lemma find_Some_in: "find p rs = Some r \<Longrightarrow> r \<in> set rs \<and> p r"
  by (auto simp: find_Some_iff)

lemma find_None_in: "find p rs = None \<longleftrightarrow> (\<forall>r \<in> set rs. \<not> p r)"
  by (auto simp: find_None_iff)

lemma find_append: "find p (xs @ ys) = (case find p xs of None \<Rightarrow> find p ys | Some r \<Rightarrow> Some r)"
  by (induction xs) auto

lemma find_update_where:
  "(\<And>r. q (f r) = q r) \<Longrightarrow>
     find q (update_where p f rs) = map_option (\<lambda>r. if p r then f r else r) (find q rs)"
  by (induction rs) auto

lemma find_delete_where_key:
  "find (\<lambda>r. k r = v) (delete_where (\<lambda>r. k r = x) rs) = (if v = x then None else find (\<lambda>r. k r = v) rs)"
  by (induction rs) auto

lemma find_key_unique:
  assumes "distinct (map k rs)" and "r \<in> set rs" and "k r = v"
  shows "find (\<lambda>r. k r = v) rs = Some r"
  using assms by (induction rs) auto

lemma distinct_key_eq:
  "distinct (map k rs) \<Longrightarrow> r \<in> set rs \<Longrightarrow> r' \<in> set rs \<Longrightarrow> k r = k r' \<Longrightarrow> r = r'"
  by (auto simp: distinct_map inj_on_def)

lemma max_column_ge: "max_column k rs = Some m \<Longrightarrow> r \<in> set rs \<Longrightarrow> k r \<le> m"
  by (auto simp: max_column_def split: if_splits)

lemma max_column_None [simp]: "max_column k rs = None \<longleftrightarrow> rs = []"
  by (simp add: max_column_def)

lemma max_column_in: "max_column k rs = Some m \<Longrightarrow> m \<in> k ` set rs"
proof -
  assume h: "max_column k rs = Some m"
  then have "rs \<noteq> []" and "m = Max (k ` set rs)"
    by (auto simp: max_column_def split: if_splits)
  then show ?thesis by (metis Max_in finite_imageI finite_set image_is_empty set_empty)
qed

lemma first_by_in: "first_by k rs = Some r \<Longrightarrow> r \<in> set rs"
proof -
  assume "first_by k rs = Some r"
  then obtain ys where "sort_key k rs = r # ys"
    by (auto simp: first_by_def split: list.splits)
  then have "r \<in> set (sort_key k rs)" by simp
  then show ?thesis by simp
qed

lemma first_by_None: "first_by k rs = None \<longleftrightarrow> rs = []"
proof -
  have "sort_key k rs = [] \<longleftrightarrow> rs = []"
    by (metis length_0_conv length_sort)
  then show ?thesis by (auto simp: first_by_def split: list.splits)
qed

lemma first_by_least: "first_by k rs = Some r \<Longrightarrow> x \<in> set rs \<Longrightarrow> k r \<le> k x"
proof -
  assume f: "first_by k rs = Some r" and x: "x \<in> set rs"
  from f obtain ys where s: "sort_key k rs = r # ys"
    by (auto simp: first_by_def split: list.splits)
  have "sorted (map k (sort_key k rs))" by simp
  with s have "\<forall>y \<in> set ys. k r \<le> k y" by simp
  moreover have "x \<in> set (r # ys)" using x s by (metis set_sort)
  ultimately show ?thesis by auto
qed

section \<open>Strings\<close>

definition js_space :: "char \<Rightarrow> bool" where
  "js_space c \<longleftrightarrow> (let n = (of_char c :: nat) in (9 \<le> n \<and> n \<le> 13) \<or> n = 32 \<or> n = 160)"

definition js_trim :: "string \<Rightarrow> string" where
  "js_trim s = rev (dropWhile js_space (rev (dropWhile js_space s)))"

definition lower_char :: "char \<Rightarrow> char" where
  "lower_char c = (let n = (of_char c :: nat) in if 65 \<le> n \<and> n \<le> 90 then char_of (n + 32) else c)"

definition upper_char :: "char \<Rightarrow> char" where
  "upper_char c = (let n = (of_char c :: nat) in if 97 \<le> n \<and> n \<le> 122 then char_of (n - 32) else c)"

definition to_lower :: "string \<Rightarrow> string" where
  "to_lower s = map lower_char s"

definition to_upper :: "string \<Rightarrow> string" where
  "to_upper s = map upper_char s"

text \<open>\<open>s.split(c)\<close> for a one-character separator: never empty, one piece more than separators.\<close>

fun split_on :: "char \<Rightarrow> string \<Rightarrow> string list" where
  "split_on c [] = [[]]"
| "split_on c (x # xs) =
     (if x = c then [] # split_on c xs
      else case split_on c xs of [] \<Rightarrow> [[x]] | p # ps \<Rightarrow> (x # p) # ps)"

lemma split_on_ne [simp]: "split_on c s \<noteq> []"
  by (induction s) (auto split: list.splits)

lemma split_on_absent: "c \<notin> set s \<Longrightarrow> split_on c s = [s]"
  by (induction s) auto

lemma split_on_append: "c \<notin> set p \<Longrightarrow> split_on c (p @ c # s) = p # split_on c s"
  by (induction p) auto

lemma dropWhile_nil_or: "dropWhile p xs = [] \<or> (\<exists>y ys. dropWhile p xs = y # ys \<and> \<not> p y)"
  by (induction xs) auto

lemma js_trim_ends:
  "js_trim s = [] \<or> (\<not> js_space (hd (js_trim s)) \<and> \<not> js_space (last (js_trim s)))"
proof -
  let ?a = "dropWhile js_space s"
  let ?b = "dropWhile js_space (rev ?a)"
  have trim: "js_trim s = rev ?b" by (simp add: js_trim_def)
  show ?thesis
  proof (cases "?b = []")
    case True
    then show ?thesis by (simp add: trim)
  next
    case False
    then have last: "\<not> js_space (last (js_trim s))"
      by (simp add: trim last_rev hd_dropWhile)
    obtain u where u: "rev ?a = u @ ?b"
      by (metis takeWhile_dropWhile_id)
    then have a: "?a = rev ?b @ rev u"
      by (metis rev_append rev_rev_ident)
    have "hd ?a = hd (rev ?b @ rev u)" using a by (rule arg_cong)
    also have "hd (rev ?b @ rev u) = hd (rev ?b)"
      using False by (intro hd_append2) simp
    finally have "hd ?a = hd (rev ?b)" .
    moreover have "?a \<noteq> []" using a False by (metis append_is_Nil_conv rev_is_Nil_conv)
    ultimately have "\<not> js_space (hd (js_trim s))"
      using hd_dropWhile [of js_space s] by (simp add: trim)
    with last show ?thesis by blast
  qed
qed

lemma dropWhile_hd: "xs = [] \<or> \<not> p (hd xs) \<Longrightarrow> dropWhile p xs = xs"
  by (cases xs) auto

lemma js_trim_fixed: "s = [] \<or> (\<not> js_space (hd s) \<and> \<not> js_space (last s)) \<Longrightarrow> js_trim s = s"
  by (auto simp: js_trim_def dropWhile_hd hd_rev)

lemma js_trim_idem [simp]: "js_trim (js_trim s) = js_trim s"
  using js_trim_ends js_trim_fixed by blast

lemma js_trim_Nil [simp]: "js_trim [] = []"
  by (simp add: js_trim_def)

lemma set_js_trim: "set (js_trim s) \<subseteq> set s"
  by (auto simp: js_trim_def dest!: set_dropWhileD)

text \<open>A string is falsy when it is missing or empty.\<close>

definition given :: "string option \<Rightarrow> string option" where
  "given s = (if s = Some '''' then None else s)"

end
