(* ===== verification/World.thy ===== *)
theory World
  imports Prelude
begin

text \<open>
  The state of the server: the tables of \<open>apps/backend/prisma/schema.prisma\<close>
  (one record per model, one field per column the modelled code reads or
  writes), the in-memory connection registry of
  \<open>realtime/connection-registry.service.ts\<close>, the events already written to
  sockets, the requests already sent to the attachment store, the maps and
  timers \<open>auth/auth.service.ts\<close> keeps in memory, the e-mails handed to the
  e-mail service, and the sockets the server has told to disconnect.

  Timestamps are milliseconds, as \<open>Date.getTime()\<close> gives them.
\<close>

section \<open>Enumerations of the schema\<close>

datatype account_status = Acct_Active | Acct_Deleted
datatype user_role = Role_User | Role_Admin | Role_Superadmin
datatype platform = Web | Android
datatype pairing_status = Pc_Active | Pc_Used | Pc_Revoked | Pc_Expired
datatype conv_status = Cv_Active | Cv_Blocked_By_A | Cv_Blocked_By_B | Cv_Deleted
datatype disappear_trigger = Sent | Delivered | Read
datatype message_type = Text_Msg | Image_Msg | File_Msg | System_Msg
datatype storage_provider = Managed | Google_Drive
datatype request_status = Rq_Pending | Rq_Accepted | Rq_Rejected | Rq_Cancelled
datatype security_event_type =
    Ev_New_Device | Ev_New_Pairing | Ev_Pairing_Revoked | Ev_Password_Changed
  | Ev_Session_Revoked | Ev_Suspicious_Login
datatype room_status = Rm_Active | Rm_Closed | Rm_Deleted
datatype join_policy = Open_Join | Approval_Required
datatype member_role = Owner_Role | Admin_Role | Member_Role
datatype join_request_status = Jr_Pending | Jr_Accepted | Jr_Rejected | Jr_Cancelled | Jr_Expired

section \<open>Rows\<close>

record user_row =
  us_id :: ident
  us_username :: string
  us_displayName :: "string option"
  us_status :: account_status
  us_passwordHash :: string
  us_usernameChangedAt :: "instant option"
  us_email :: "string option"
  us_emailVerifiedAt :: "instant option"
  us_role :: user_role
  us_failedLoginCount :: int
  us_lockedUntil :: "instant option"
  us_createdAt :: instant
  us_lastLoginAt :: "instant option"

text \<open>A row with the defaults of the schema in every other column.\<close>

abbreviation plain_user :: "ident \<Rightarrow> string \<Rightarrow> string option \<Rightarrow> account_status \<Rightarrow> user_row" where
  "plain_user i n d s \<equiv>
     \<lparr>us_id = i, us_username = n, us_displayName = d, us_status = s, us_passwordHash = '''',
      us_usernameChangedAt = None, us_email = None, us_emailVerifiedAt = None, us_role = Role_User,
      us_failedLoginCount = 0, us_lockedUntil = None, us_createdAt = 0, us_lastLoginAt = None\<rparr>"

record device_row =
  dv_id :: ident
  dv_userId :: ident
  dv_identityDhPublic :: string
  dv_identitySigningPublic :: string
  dv_signedPrekeyPublic :: string
  dv_signedPrekeySignature :: string
  dv_lastSeenAt :: instant
  dv_revokedAt :: "instant option"
  dv_deviceName :: "string option"
  dv_platform :: platform
  dv_signedPrekeyCreatedAt :: instant
  dv_createdAt :: instant

record prekey_row =
  pk_id :: ident
  pk_deviceId :: ident
  pk_publicKey :: string
  pk_usedAt :: "instant option"

record pairing_row =
  pc_id :: ident
  pc_creatorUserId :: ident
  pc_codeHmac :: string
  pc_codeText :: "string option"
  pc_status :: pairing_status
  pc_expiresAt :: "instant option"
  pc_usedByUserId :: "ident option"
  pc_usedAt :: "instant option"
  pc_failedAttempts :: int
  pc_lockedUntil :: "instant option"
  pc_createdAt :: instant

record conv_row =
  cv_id :: ident
  cv_userAId :: ident
  cv_userBId :: ident
  cv_status :: conv_status
  cv_timerSeconds :: "int option"
  cv_trigger :: "disappear_trigger option"
  cv_createdAt :: instant
  cv_sessionEpoch :: int
  cv_expiresAt :: "instant option"
  cv_temporaryCreator :: "ident option"

record handshake_row =
  hs_conversationId :: ident
  hs_recipientUserId :: ident
  hs_payload :: string
  hs_sessionEpoch :: int

record message_row =
  ms_id :: ident
  ms_conversationId :: ident
  ms_senderId :: ident
  ms_sequenceNumber :: int
  ms_syncVersion :: int
  ms_clientMessageId :: ident
  ms_ciphertext :: bytes
  ms_nonce :: bytes
  ms_messageType :: message_type
  ms_replyToMessageId :: "ident option"
  ms_sentAt :: instant
  ms_deliveredAt :: "instant option"
  ms_readAt :: "instant option"
  ms_editedAt :: "instant option"
  ms_deletedAt :: "instant option"
  ms_disappearAt :: "instant option"

record attachment_row =
  at_id :: ident
  at_messageId :: "ident option"
  at_uploaderId :: ident
  at_conversationId :: ident
  at_driveFileId :: ident
  at_encryptedDek :: "bytes option"
  at_mimeTypeHint :: string
  at_storageProvider :: storage_provider
  at_originalSize :: int
  at_encryptedSize :: int
  at_uploadedAt :: instant

record settings_row =
  st_userId :: ident
  st_readReceiptsEnabled :: bool
  st_typingIndicatorEnabled :: bool
  st_notificationContentVisible :: bool
  st_usernameSearchEnabled :: bool
  st_lastSeenEnabled :: bool
  st_accentColor :: "string option"
  st_appLockEnabled :: bool
  st_appLockTimeoutSeconds :: int
  st_appLockMethod :: "string option"
  st_screenshotProtectionEnabled :: bool
  st_storageProvider :: storage_provider
  st_burnPasswordHash :: "string option"
  st_chatLockPasswordHash :: "string option"
  st_hideChatPasswordHash :: "string option"

record drive_connection_row =
  gd_userId :: ident
  gd_revokedAt :: "instant option"

record request_row =
  rq_id :: ident
  rq_senderId :: ident
  rq_recipientId :: ident
  rq_status :: request_status
  rq_createdAt :: instant

record security_event_row =
  se_userId :: ident
  se_eventType :: security_event_type
  se_subject :: ident

record room_row =
  rm_id :: ident
  rm_name :: string
  rm_ownerId :: ident
  rm_codeHmac :: string
  rm_codeText :: "string option"
  rm_joinPolicy :: join_policy
  rm_maxMembers :: int
  rm_status :: room_status
  rm_keyEpoch :: int
  rm_joinLocked :: bool
  rm_openKeyCiphertext :: "bytes option"
  rm_openKeyNonce :: "bytes option"
  rm_createdAt :: instant
  rm_updatedAt :: instant

record member_row =
  mb_id :: ident
  mb_roomId :: ident
  mb_userId :: ident
  mb_role :: member_role
  mb_joinedAt :: instant

record join_request_row =
  jr_id :: ident
  jr_roomId :: ident
  jr_requesterId :: ident
  jr_status :: join_request_status
  jr_createdAt :: instant
  jr_reviewedAt :: "instant option"
  jr_reviewedById :: "ident option"

record room_message_row =
  rg_id :: ident
  rg_roomId :: ident
  rg_senderId :: ident
  rg_sequenceNumber :: int
  rg_clientMessageId :: ident
  rg_ciphertext :: bytes
  rg_nonce :: bytes
  rg_messageType :: message_type
  rg_keyEpoch :: int
  rg_replyToMessageId :: "ident option"
  rg_sentAt :: instant
  rg_deletedAt :: "instant option"

record key_package_row =
  kp_roomId :: ident
  kp_keyEpoch :: int
  kp_recipientUserId :: ident
  kp_encryptedKey :: bytes
  kp_nonce :: bytes
  kp_senderUserId :: ident

record session_row =
  as_id :: ident
  as_userId :: ident
  as_deviceId :: ident
  as_refreshTokenHash :: string
  as_ipHash :: "string option"
  as_userAgent :: "string option"
  as_createdAt :: instant
  as_expiresAt :: instant
  as_revokedAt :: "instant option"

record verification_row =
  ev_id :: ident
  ev_userId :: ident
  ev_email :: string
  ev_codeHash :: string
  ev_expiresAt :: instant
  ev_consumedAt :: "instant option"
  ev_attempts :: int
  ev_createdAt :: instant

record audit_row =
  al_adminId :: ident
  al_action :: string
  al_targetType :: string
  al_targetId :: "ident option"
  al_details :: "(string \<times> string option) list"
  al_ipAddress :: "string option"
  al_createdAt :: instant

section \<open>Events pushed to clients\<close>

type_synonym user_brief = "ident \<times> string \<times> string option"

datatype push_event =
    Temporary_Chat_Expired ident
  | Temporary_Chat_Expiry_Updated ident instant
  | Conversation_Burned ident
  | New_Message ident ident ident int string string message_type "ident option" instant
  | Delivery_Receipt ident ident instant
  | Read_Receipt ident ident
  | Message_Deleted ident ident
  | Message_Edited ident ident ident int string string instant
  | Request_Received ident "user_brief option" instant
  | Request_Accepted ident ident int "user_brief option"
  | Request_Rejected ident
  | Room_Member_Joined ident "user_brief option" int
  | Room_Member_Left ident "user_brief option" int
  | Room_Member_Removed ident string
  | Room_Join_Request ident ident string "user_brief option" instant
  | Room_Join_Accepted ident string
  | Room_Join_Rejected ident string
  | Room_Message ident ident "user_brief option" int ident string string message_type int "ident option" instant
  | Room_Join_Lock_Changed ident bool
  | Room_Closed ident string
  | Room_Key_Delivered ident int
  | Room_Key_Rotation_Required ident int
  | Room_Updated ident string int join_policy
  | Typing ident bool ident
  | Room_Typing ident bool ident string
  | View_Once_Opened ident ident
  | User_Online ident instant
  | User_Offline ident instant
  | Session_Revoked string

section \<open>The state of the server\<close>

record typing_window =
  tw_count :: int
  tw_windowStart :: instant

text \<open>
  An entry of \<open>recentRotations\<close> (the pair of tokens a rotated refresh token was
  exchanged for) and of \<open>unknownLoginAttempts\<close>, the in-memory maps of
  \<open>auth/auth.service.ts\<close>.
\<close>

record rotation =
  rt_sessionId :: ident
  rt_accessToken :: string
  rt_refreshToken :: string
  rt_expiresAt :: instant

record login_failures =
  lf_count :: int
  lf_lastAttempt :: instant

record world =
  users :: "user_row list"
  devices :: "device_row list"
  prekeys :: "prekey_row list"
  pairing_codes :: "pairing_row list"
  conversations :: "conv_row list"
  pending_handshakes :: "handshake_row list"
  messages :: "message_row list"
  attachments :: "attachment_row list"
  user_settings :: "settings_row list"
  drive_connections :: "drive_connection_row list"
  conversation_requests :: "request_row list"
  security_events :: "security_event_row list"
  rooms :: "room_row list"
  room_members :: "member_row list"
  room_join_requests :: "join_request_row list"
  room_messages :: "room_message_row list"
  room_key_packages :: "key_package_row list"
  connections :: "(ident \<times> ident list) list"
  device_connections :: "(ident \<times> ident list) list"
  typing_windows :: "(ident \<times> typing_window) list"
  emitted :: "(ident \<times> push_event) list"
  blob_deletes :: "(storage_provider \<times> ident \<times> ident) list"
  auth_sessions :: "session_row list"
  email_verifications :: "verification_row list"
  audit_logs :: "audit_row list"
  recent_rotations :: "(string \<times> rotation) list"
  unknown_attempts :: "(string \<times> login_failures) list"
  outbox :: "(string \<times> string) list"
  disconnect_timers :: "(instant \<times> ident) list"
  disconnected :: "ident list"

definition empty_world :: world where
  "empty_world = \<lparr>users = [], devices = [], prekeys = [], pairing_codes = [], conversations = [],
     pending_handshakes = [], messages = [], attachments = [], user_settings = [],
     drive_connections = [], conversation_requests = [], security_events = [], rooms = [],
     room_members = [], room_join_requests = [], room_messages = [], room_key_packages = [],
     connections = [], device_connections = [], typing_windows = [], emitted = [],
     blob_deletes = [], auth_sessions = [], email_verifications = [], audit_logs = [],
     recent_rotations = [], unknown_attempts = [], outbox = [], disconnect_timers = [],
     disconnected = []\<rparr>"

text \<open>
  The result of a handler: the exception it throws or the value it returns,
  and the state it leaves behind.
\<close>

type_synonym 'a res = "(http_error + 'a) \<times> world"

abbreviation fail :: "http_error \<Rightarrow> world \<Rightarrow> 'a res" where
  "fail e w \<equiv> (Inl e, w)"

abbreviation ok :: "'a \<Rightarrow> world \<Rightarrow> 'a res" where
  "ok x w \<equiv> (Inr x, w)"

abbreviation out :: "'a res \<Rightarrow> http_error + 'a" where
  "out r \<equiv> fst r"

abbreviation after :: "'a res \<Rightarrow> world" where
  "after r \<equiv> snd r"

section \<open>Queries every component uses\<close>

definition find_conv :: "ident \<Rightarrow> world \<Rightarrow> conv_row option" where
  "find_conv i w = find (\<lambda>c. cv_id c = i) (conversations w)"

definition find_conv_pair :: "ident \<times> ident \<Rightarrow> world \<Rightarrow> conv_row option" where
  "find_conv_pair p w = find (\<lambda>c. (cv_userAId c, cv_userBId c) = p) (conversations w)"

definition find_user :: "ident \<Rightarrow> world \<Rightarrow> user_row option" where
  "find_user i w = find (\<lambda>u. us_id u = i) (users w)"

definition find_device :: "ident \<Rightarrow> world \<Rightarrow> device_row option" where
  "find_device d w = find (\<lambda>r. dv_id r = d) (devices w)"

definition find_message :: "ident \<Rightarrow> world \<Rightarrow> message_row option" where
  "find_message i w = find (\<lambda>m. ms_id m = i) (messages w)"

definition find_settings :: "ident \<Rightarrow> world \<Rightarrow> settings_row option" where
  "find_settings i w = find (\<lambda>s. st_userId s = i) (user_settings w)"

definition brief :: "user_row \<Rightarrow> user_brief" where
  "brief u = (us_id u, us_username u, us_displayName u)"

definition user_brief_of :: "ident \<Rightarrow> world \<Rightarrow> user_brief option" where
  "user_brief_of i w = map_option brief (find_user i w)"

text \<open>
  \<open>device.findFirst\<close> with \<open>revokedAt: null\<close>, most recently seen first.
\<close>

definition active_device :: "ident \<Rightarrow> world \<Rightarrow> device_row option" where
  "active_device u w =
     first_by (\<lambda>d. - dv_lastSeenAt d)
       (filter (\<lambda>d. dv_userId d = u \<and> dv_revokedAt d = None) (devices w))"

text \<open>
  The canonical order of a pair of user ids (\<open>a < b ? [a, b] : [b, a]\<close>); the
  order of strings is lexicographic on code units, as in JavaScript.
\<close>

definition canonical_pair :: "ident \<Rightarrow> ident \<Rightarrow> ident \<times> ident" where
  "canonical_pair a b = (if a < b then (a, b) else (b, a))"

lemma canonical_pair_commute: "canonical_pair a b = canonical_pair b a"
  by (auto simp: canonical_pair_def)

lemma canonical_pair_ordered: "a \<noteq> b \<Longrightarrow> fst (canonical_pair a b) < snd (canonical_pair a b)"
  by (auto simp: canonical_pair_def)

text \<open>\<open>convo.userAId !== userId && convo.userBId !== userId\<close>, negated.\<close>

definition participant :: "ident \<Rightarrow> conv_row \<Rightarrow> bool" where
  "participant u c \<longleftrightarrow> cv_userAId c = u \<or> cv_userBId c = u"

definition other_party :: "ident \<Rightarrow> conv_row \<Rightarrow> ident" where
  "other_party u c = (if cv_userAId c = u then cv_userBId c else cv_userAId c)"

text \<open>\<open>convo.expiresAt && convo.expiresAt.getTime() <= Date.now()\<close>.\<close>

definition past :: "instant option \<Rightarrow> instant \<Rightarrow> bool" where
  "past t now = (case t of None \<Rightarrow> False | Some e \<Rightarrow> e \<le> now)"

definition set_conv :: "ident \<Rightarrow> (conv_row \<Rightarrow> conv_row) \<Rightarrow> world \<Rightarrow> world" where
  "set_conv i f w = w\<lparr>conversations := update_where (\<lambda>c. cv_id c = i) f (conversations w)\<rparr>"

lemma find_conv_Some: "find_conv i w = Some c \<Longrightarrow> c \<in> set (conversations w) \<and> cv_id c = i"
  by (auto simp: find_conv_def dest: find_Some_in)

lemma find_conv_set_conv:
  "(\<And>c. cv_id (f c) = cv_id c) \<Longrightarrow>
     find_conv j (set_conv i f w) =
       (if i = j then map_option f (find_conv j w) else find_conv j w)"
  by (cases "find_conv j w")
    (auto simp: find_conv_def set_conv_def find_update_where dest!: find_Some_in)

lemma find_message_Some: "find_message i w = Some m \<Longrightarrow> m \<in> set (messages w) \<and> ms_id m = i"
  by (auto simp: find_message_def dest: find_Some_in)

lemma past_simps [simp]: "past None now = False" "past (Some t) now = (t \<le> now)"
  by (simp_all add: past_def)

end
