(* ===== verification/Codec.thy ===== *)
theory Codec
  imports World
begin

text \<open>
  Base64 and hexadecimal as \<open>Buffer\<close> reads and writes them, the cryptographic
  primitives of \<open>node:crypto\<close> as a record of functions the definitions take as
  an argument, and the stored formats built from them: password hashes
  (\<open>domain/password.ts\<close>), sealed pairing codes (\<open>domain/pairingCode.ts\<close>) and
  sealed room codes (\<open>domain/room.ts\<close>).

  \<open>Buffer.from(s, 'base64')\<close> skips characters outside the alphabet and also
  accepts the URL-safe alphabet; \<open>Buffer.from(s, 'hex')\<close> stops at the first pair
  that is not hexadecimal. \<open>timingSafeEqual\<close> on buffers of equal length is
  equality.
\<close>

section \<open>Base64\<close>

text \<open>\<open>ABC..Zabc..z0..9+/\<close>, by position.\<close>

definition b64_char :: "nat \<Rightarrow> char" where
  "b64_char n =
     (if n < 26 then char_of (n + 65)
      else if n < 52 then char_of (n + 71)
      else if n < 62 then char_of (n - 4)
      else if n = 62 then CHR ''+'' else CHR ''/'')"

definition b64_index :: "char \<Rightarrow> nat option" where
  "b64_index c =
     (let n = (of_char c :: nat) in
      if 65 \<le> n \<and> n \<le> 90 then Some (n - 65)
      else if 97 \<le> n \<and> n \<le> 122 then Some (n - 71)
      else if 48 \<le> n \<and> n \<le> 57 then Some (n + 4)
      else if n = 43 \<or> n = 45 then Some 62
      else if n = 47 \<or> n = 95 then Some 63
      else None)"

fun b64_encode :: "bytes \<Rightarrow> string" where
  "b64_encode [] = []"
| "b64_encode [a] =
     (let x = of_char a
      in [b64_char (x div 4), b64_char (x mod 4 * 16), CHR ''='', CHR ''=''])"
| "b64_encode [a, b] =
     (let x = of_char a; y = of_char b
      in [b64_char (x div 4), b64_char (x mod 4 * 16 + y div 16),
          b64_char (y mod 16 * 4), CHR ''=''])"
| "b64_encode (a # b # c # rest) =
     (let x = of_char a; y = of_char b; z = of_char c
      in [b64_char (x div 4), b64_char (x mod 4 * 16 + y div 16),
          b64_char (y mod 16 * 4 + z div 64), b64_char (z mod 64)] @ b64_encode rest)"

fun b64_groups :: "nat list \<Rightarrow> bytes" where
  "b64_groups (p # q # r # s # rest) =
     char_of (p * 4 + q div 16) # char_of (q mod 16 * 16 + r div 4) #
     char_of (r mod 4 * 64 + s) # b64_groups rest"
| "b64_groups [p, q, r] = [char_of (p * 4 + q div 16), char_of (q mod 16 * 16 + r div 4)]"
| "b64_groups [p, q] = [char_of (p * 4 + q div 16)]"
| "b64_groups [p] = []"
| "b64_groups [] = []"

definition b64_decode :: "string \<Rightarrow> bytes" where
  "b64_decode s = b64_groups (List.map_filter b64_index s)"

lemma of_char_lt: "(of_char c :: nat) < 256"
  by (rule nat_of_char_less_256)

lemma of_char_of_small: "n < 256 \<Longrightarrow> (of_char (char_of n) :: nat) = n"
  by simp

lemma b64_index_char: "n < 64 \<Longrightarrow> b64_index (b64_char n) = Some n"
  by (auto simp: b64_char_def b64_index_def of_char_of_small Let_def)

lemma b64_char_range: "n < 64 \<Longrightarrow>
    (of_char (b64_char n) :: nat) \<in> {43, 47} \<union> {48..57} \<union> {65..90} \<union> {97..122}"
  by (auto simp: b64_char_def of_char_of_small)

lemma b64_char_ne: "n < 64 \<Longrightarrow> b64_char n \<noteq> CHR '':'' \<and> b64_char n \<noteq> CHR ''$'' \<and> b64_char n \<noteq> CHR ''.''"
  using b64_char_range [of n] by auto

lemma b64_index_pad: "b64_index (CHR ''='') = None"
  by (simp add: b64_index_def)

lemma digits_split: "b < k \<Longrightarrow> (a * k + b) div k = (a::nat)" "b < k \<Longrightarrow> (a * k + b) mod k = (b::nat)"
  by simp_all

lemma b64_pieces:
  fixes x y z :: nat
  assumes "x < 256" "y < 256" "z < 256"
  shows "x div 4 * 4 + (x mod 4 * 16 + y div 16) div 16 = x"
    and "(x mod 4 * 16 + y div 16) mod 16 * 16 + (y mod 16 * 4 + z div 64) div 4 = y"
    and "(y mod 16 * 4 + z div 64) mod 4 * 64 + z mod 64 = z"
proof -
  have y: "y div 16 < 16" and z: "z div 64 < 4" using assms by auto
  show "x div 4 * 4 + (x mod 4 * 16 + y div 16) div 16 = x"
    by (simp only: digits_split(1) [OF y] div_mult_mod_eq)
  show "(x mod 4 * 16 + y div 16) mod 16 * 16 + (y mod 16 * 4 + z div 64) div 4 = y"
    by (simp only: digits_split(2) [OF y] digits_split(1) [OF z] div_mult_mod_eq)
  show "(y mod 16 * 4 + z div 64) mod 4 * 64 + z mod 64 = z"
    by (simp only: digits_split(2) [OF z] div_mult_mod_eq)
qed

lemma b64_digits:
  fixes x y z :: nat
  assumes "x < 256" "y < 256" "z < 256"
  shows "x div 4 < 64" "x mod 4 * 16 + y div 16 < 64" "y mod 16 * 4 + z div 64 < 64" "z mod 64 < 64"
    "x mod 4 * 16 < 64" "y mod 16 * 4 < 64"
proof -
  have "x mod 4 \<le> 3" "y mod 16 \<le> 15" using mod_less_divisor [of 4 x] mod_less_divisor [of 16 y] by simp_all
  moreover have "y div 16 < 16" "z div 64 < 4" using assms by auto
  ultimately show "x mod 4 * 16 + y div 16 < 64" "y mod 16 * 4 + z div 64 < 64"
    "x mod 4 * 16 < 64" "y mod 16 * 4 < 64" by linarith+
  show "x div 4 < 64" "z mod 64 < 64" using assms by auto
qed

lemmas b64_byte_facts = b64_digits [OF of_char_lt of_char_lt of_char_lt]

lemma b64_group4:
  "b64_groups (of_char a div 4 # (of_char a mod 4 * 16 + of_char b div 16) #
      (of_char b mod 16 * 4 + of_char c div 64) # of_char c mod 64 # r) = a # b # c # b64_groups r"
  by (simp only: b64_groups.simps b64_pieces [OF of_char_lt of_char_lt of_char_lt] char_of_char)

lemma of_char_zero: "(of_char (CHR 0x00) :: nat) = 0"
  by simp

lemma b64_group3:
  "b64_groups [of_char a div 4, of_char a mod 4 * 16 + of_char b div 16, of_char b mod 16 * 4] = [a, b]"
  using b64_pieces(1) [OF of_char_lt of_char_lt of_char_lt, of a b]
    b64_pieces(2) [OF of_char_lt of_char_lt of_char_lt, of a b "CHR 0x00"]
  by (simp only: b64_groups.simps char_of_char of_char_zero add_0_right div_0)

lemma b64_group2: "b64_groups [of_char a div 4, of_char a mod 4 * 16] = [a]"
  using b64_pieces(1) [OF of_char_lt of_char_lt of_char_lt, of a "CHR 0x00"]
  by (simp only: b64_groups.simps char_of_char of_char_zero add_0_right div_0)

lemma b64_roundtrip [simp]: "b64_decode (b64_encode bs) = bs"
proof -
  have "b64_groups (List.map_filter b64_index (b64_encode bs)) = bs"
  proof (induction bs rule: b64_encode.induct)
    case 1
    then show ?case by (simp add: List.map_filter_def)
  next
    case (2 a)
    show ?case using b64_byte_facts(1) [of a] b64_byte_facts(5) [of a] b64_group2
      by (simp add: Let_def List.map_filter_def b64_index_char b64_index_pad del: b64_groups.simps)
  next
    case (3 a b)
    show ?case using b64_byte_facts(1) [of a] b64_byte_facts(2) [of a b] b64_byte_facts(6) [of b] b64_group3
      by (simp add: Let_def List.map_filter_def b64_index_char b64_index_pad del: b64_groups.simps)
  next
    case (4 a b c rest)
    then show ?case using b64_byte_facts(1) [of a] b64_byte_facts(2) [of a b] b64_byte_facts(3) [of b c]
        b64_byte_facts(4) [of c]
      by (simp add: Let_def List.map_filter_def b64_index_char b64_index_pad b64_group4
          del: b64_groups.simps)
  qed
  then show ?thesis by (simp add: b64_decode_def)
qed

lemma b64_encode_empty [simp]: "b64_encode bs = [] \<longleftrightarrow> bs = []"
  by (cases bs rule: b64_encode.cases) (auto simp: Let_def)

lemma b64_encode_chars:
  "c \<in> {CHR '':'', CHR ''$'', CHR ''.''} \<Longrightarrow> c \<notin> set (b64_encode bs)"
proof (induction bs rule: b64_encode.induct)
  case (2 a)
  show ?case using 2 b64_char_ne [OF b64_byte_facts(1) [of a]] b64_char_ne [OF b64_byte_facts(5) [of a]]
    by (auto simp: Let_def)
next
  case (3 a b)
  show ?case using 3 b64_char_ne [OF b64_byte_facts(1) [of a]]
      b64_char_ne [OF b64_byte_facts(2) [of a b]] b64_char_ne [OF b64_byte_facts(6) [of b]]
    by (auto simp: Let_def)
next
  case (4 a b c' rest)
  show ?case using 4 b64_char_ne [OF b64_byte_facts(1) [of a]]
      b64_char_ne [OF b64_byte_facts(2) [of a b]] b64_char_ne [OF b64_byte_facts(3) [of b c']]
      b64_char_ne [OF b64_byte_facts(4) [of c']]
    by (auto simp: Let_def)
qed simp

section \<open>Hexadecimal\<close>

definition hex_digit :: "nat \<Rightarrow> char" where
  "hex_digit n = (if n < 10 then char_of (n + 48) else char_of (n + 87))"

definition hex_value :: "char \<Rightarrow> nat option" where
  "hex_value c =
     (let n = (of_char c :: nat) in
      if 48 \<le> n \<and> n \<le> 57 then Some (n - 48)
      else if 97 \<le> n \<and> n \<le> 102 then Some (n - 87)
      else if 65 \<le> n \<and> n \<le> 70 then Some (n - 55)
      else None)"

fun hex_encode :: "bytes \<Rightarrow> string" where
  "hex_encode [] = []"
| "hex_encode (a # rest) =
     (let x = of_char a in hex_digit (x div 16) # hex_digit (x mod 16) # hex_encode rest)"

fun hex_decode :: "string \<Rightarrow> bytes" where
  "hex_decode (a # b # rest) =
     (case (hex_value a, hex_value b) of
        (Some x, Some y) \<Rightarrow> char_of (x * 16 + y) # hex_decode rest
      | _ \<Rightarrow> [])"
| "hex_decode _ = []"

lemma hex_value_digit: "n < 16 \<Longrightarrow> hex_value (hex_digit n) = Some n"
  by (auto simp: hex_digit_def hex_value_def of_char_of_small Let_def)

lemma hex_roundtrip [simp]: "hex_decode (hex_encode bs) = bs"
proof (induction bs)
  case (Cons a bs)
  have "(of_char a :: nat) div 16 < 16"
    using of_char_lt [of a] by (simp add: less_mult_imp_div_less)
  then show ?case using Cons by (simp add: Let_def hex_value_digit)
qed simp

section \<open>Cryptographic primitives\<close>

text \<open>
  \<open>node:crypto\<close> is native code outside the repository. \<open>hmac_sha256\<close> takes the key
  and the message; \<open>gcm_seal\<close> the key, the nonce and the plaintext and returns
  ciphertext and tag; \<open>gcm_open\<close> the key, nonce, ciphertext and tag and fails when
  the tag does not verify; \<open>scrypt_kdf\<close> the password, the salt, the length and the
  cost parameters, and fails on parameters it does not accept.
\<close>

record crypto =
  hmac_sha256 :: "string \<Rightarrow> string \<Rightarrow> bytes"
  sha256 :: "string \<Rightarrow> bytes"
  gcm_seal :: "bytes \<Rightarrow> bytes \<Rightarrow> string \<Rightarrow> bytes \<times> bytes"
  gcm_open :: "bytes \<Rightarrow> bytes \<Rightarrow> bytes \<Rightarrow> bytes \<Rightarrow> string option"
  scrypt_kdf :: "string \<Rightarrow> bytes \<Rightarrow> nat \<Rightarrow> int \<Rightarrow> int \<Rightarrow> int \<Rightarrow> bytes option"

text \<open>The documented law of AES-GCM: opening what was sealed under the same key and nonce
  returns the plaintext; ciphertext and plaintext have the same length, the tag is 16 bytes.\<close>

definition gcm_correct :: "crypto \<Rightarrow> bool" where
  "gcm_correct C \<longleftrightarrow>
     (\<forall>k iv p. case gcm_seal C k iv p of (ct, tag) \<Rightarrow>
        gcm_open C k iv ct tag = Some p \<and> length ct = length p \<and> length tag = 16)"

section \<open>password.ts\<close>

fun js_digits :: "nat \<Rightarrow> string \<Rightarrow> nat option" where
  "js_digits acc [] = Some acc"
| "js_digits acc (c # cs) =
     (let n = (of_char c :: nat) in
      if 48 \<le> n \<and> n \<le> 57 then js_digits (acc * 10 + (n - 48)) cs else None)"

text \<open>\<open>Number(s)\<close> when it is an integer in decimal notation; other notations, which
  \<open>hashPassword\<close> never writes, count as not an integer.\<close>

definition js_integer :: "string \<Rightarrow> int option" where
  "js_integer s =
     (case js_trim s of
        [] \<Rightarrow> Some 0
      | c # cs \<Rightarrow>
          if c = CHR ''-'' then (if cs = [] then None else map_option (\<lambda>n. - int n) (js_digits 0 cs))
          else if c = CHR ''+'' then (if cs = [] then None else map_option int (js_digits 0 cs))
          else map_option int (js_digits 0 (c # cs)))"

definition key_length :: nat where
  "key_length = 64"

definition hashPassword :: "crypto \<Rightarrow> bytes \<Rightarrow> string \<Rightarrow> http_error + string" where
  "hashPassword C salt password =
     (case scrypt_kdf C password salt key_length (2 ^ 15) 8 1 of
        None \<Rightarrow> Inl (Server_Error ''scrypt'')
      | Some derivedKey \<Rightarrow>
          Inr (''scrypt$32768$8$1$'' @ b64_encode salt @ ''$'' @ b64_encode derivedKey))"

definition verifyPassword :: "crypto \<Rightarrow> string \<Rightarrow> string \<Rightarrow> http_error + bool" where
  "verifyPassword C password stored =
     (case split_on (CHR ''$'') stored of
        [tag, nStr, rStr, pStr, saltB64, hashB64] \<Rightarrow>
          if tag \<noteq> ''scrypt'' then Inr False
          else (case (js_integer nStr, js_integer rStr, js_integer pStr) of
              (Some n, Some r, Some p) \<Rightarrow>
                (let salt = b64_decode saltB64; expected = b64_decode hashB64 in
                 if expected = [] then Inr False
                 else (case scrypt_kdf C password salt (length expected) n r p of
                     None \<Rightarrow> Inl (Server_Error ''scrypt'')
                   | Some derivedKey \<Rightarrow>
                       if length derivedKey \<noteq> length expected then Inr False
                       else Inr (derivedKey = expected)))
            | _ \<Rightarrow> Inr False)
      | _ \<Rightarrow> Inr False)"

datatype password_error = Password_Too_Short | Password_Too_Long

definition validatePassword :: "string \<Rightarrow> password_error option" where
  "validatePassword password =
     (if length password < 8 then Some Password_Too_Short
      else if length password > 256 then Some Password_Too_Long
      else None)"

section \<open>pairingCode.ts and room.ts: sealed codes\<close>

definition normalizePairingCode :: "string \<Rightarrow> string" where
  "normalizePairingCode code = to_upper (js_trim code)"

definition hashPairingCode :: "crypto \<Rightarrow> string \<Rightarrow> string \<Rightarrow> string" where
  "hashPairingCode C code pepper = b64_encode (hmac_sha256 C pepper (normalizePairingCode code))"

definition verifyPairingCode :: "crypto \<Rightarrow> string \<Rightarrow> string \<Rightarrow> string \<Rightarrow> bool" where
  "verifyPairingCode C code pepper storedHmac =
     (let candidate = b64_decode (hashPairingCode C code pepper);
          expected = b64_decode storedHmac
      in if length candidate \<noteq> length expected then False else candidate = expected)"

definition encryptPairingCode :: "crypto \<Rightarrow> bytes \<Rightarrow> string \<Rightarrow> string \<Rightarrow> string" where
  "encryptPairingCode C iv code pepper =
     (case gcm_seal C (sha256 C pepper) iv code of
        (encrypted, tag) \<Rightarrow> b64_encode iv @ '':'' @ b64_encode encrypted @ '':'' @ b64_encode tag)"

definition decryptPairingCode :: "crypto \<Rightarrow> string \<Rightarrow> string \<Rightarrow> string option" where
  "decryptPairingCode C encryptedString pepper =
     (case split_on (CHR '':'') encryptedString of
        [p0, p1, p2] \<Rightarrow>
          if p0 = [] \<or> p1 = [] \<or> p2 = [] then None
          else gcm_open C (sha256 C pepper) (b64_decode p0) (b64_decode p1) (b64_decode p2)
      | _ \<Rightarrow> None)"

definition normalizeRoomCode :: "string \<Rightarrow> string" where
  "normalizeRoomCode code = to_upper (js_trim code)"

definition hashRoomCode :: "crypto \<Rightarrow> string \<Rightarrow> string \<Rightarrow> string" where
  "hashRoomCode C code pepper = hex_encode (hmac_sha256 C pepper (normalizeRoomCode code))"

definition verifyRoomCode :: "crypto \<Rightarrow> string \<Rightarrow> string \<Rightarrow> string \<Rightarrow> bool" where
  "verifyRoomCode C code pepper expectedHmac =
     (let a = hex_decode (hashRoomCode C code pepper); b = hex_decode expectedHmac
      in if length a \<noteq> length b then False else a = b)"

definition encryptRoomCode :: "crypto \<Rightarrow> bytes \<Rightarrow> string \<Rightarrow> string \<Rightarrow> string" where
  "encryptRoomCode C iv code pepper =
     (case gcm_seal C (sha256 C pepper) iv code of
        (ciphertext, tag) \<Rightarrow> b64_encode iv @ '':'' @ b64_encode ciphertext @ '':'' @ b64_encode tag)"

definition decryptRoomCode :: "crypto \<Rightarrow> string \<Rightarrow> string \<Rightarrow> string option" where
  "decryptRoomCode C encrypted pepper =
     (case split_on (CHR '':'') encrypted of
        [ivB64, ctB64, tagB64] \<Rightarrow>
          gcm_open C (sha256 C pepper) (b64_decode ivB64) (b64_decode ctB64) (b64_decode tagB64)
      | _ \<Rightarrow> None)"

text \<open>The codes themselves: one alphabet character per random draw.\<close>

definition pairing_code_alphabet :: string where
  "pairing_code_alphabet = ''0123456789ABCDEFGHIJKLMNOPQRSTUVWXYZ''"

definition room_code_alphabet :: string where
  "room_code_alphabet = ''23456789ABCDEFGHJKLMNPQRSTUVWXYZ''"

text \<open>\<open>randomInt(0, 36)\<close> once per character; the draws are an argument.\<close>

definition generatePairingCode :: "nat list \<Rightarrow> string" where
  "generatePairingCode draws = map (\<lambda>r. pairing_code_alphabet ! r) draws"

definition generateForeverCode :: "nat list \<Rightarrow> string" where
  "generateForeverCode draws = map (\<lambda>r. pairing_code_alphabet ! r) draws"

text \<open>\<open>bytes[i] % ROOM_CODE_ALPHABET.length\<close> for nine random bytes.\<close>

definition generateRoomCode :: "bytes \<Rightarrow> string" where
  "generateRoomCode nine_bytes = map (\<lambda>b. room_code_alphabet ! (of_char b mod 32)) nine_bytes"

definition pairing_code_char :: "char \<Rightarrow> bool" where
  "pairing_code_char c \<longleftrightarrow>
     (let n = (of_char c :: nat) in (65 \<le> n \<and> n \<le> 90) \<or> (48 \<le> n \<and> n \<le> 57))"

definition isValidPairingCode :: "string \<Rightarrow> bool" where
  "isValidPairingCode code =
     (let s = normalizePairingCode code in length s = 6 \<and> list_all pairing_code_char s)"

section \<open>The sealed-code interface\<close>

text \<open>
  Pairing and rooms store a code so that its owner can read it back: sealing
  and then opening under the same pepper returns the code. A stored text
  therefore determines the code it was made from.
\<close>

locale sealed_code =
  fixes seal :: "crypto \<Rightarrow> bytes \<Rightarrow> string \<Rightarrow> string \<Rightarrow> string"
    and unseal :: "crypto \<Rightarrow> string \<Rightarrow> string \<Rightarrow> string option"
  assumes unseal_seal: "gcm_correct C \<Longrightarrow> iv \<noteq> [] \<Longrightarrow> code \<noteq> [] \<Longrightarrow>
    unseal C (seal C iv code pepper) pepper = Some code"
begin

lemma seal_determines_code:
  assumes "gcm_correct C" and "iv \<noteq> []" and "iv' \<noteq> []" and "code \<noteq> []" and "code' \<noteq> []"
    and "seal C iv code pepper = seal C iv' code' pepper"
  shows "code = code'"
  using unseal_seal [of C iv code pepper] unseal_seal [of C iv' code' pepper] assms by simp

lemma seal_never_lost: "gcm_correct C \<Longrightarrow> iv \<noteq> [] \<Longrightarrow> code \<noteq> [] \<Longrightarrow>
    unseal C (seal C iv code pepper) pepper \<noteq> None"
  by (simp add: unseal_seal)

end

lemma split_sealed:
  "split_on (CHR '':'') (b64_encode a @ '':'' @ b64_encode b @ '':'' @ b64_encode c) =
     [b64_encode a, b64_encode b, b64_encode c]"
  using b64_encode_chars [of "CHR '':''"]
  by (simp add: split_on_append split_on_absent)

lemma gcm_correctD:
  "gcm_correct C \<Longrightarrow> gcm_seal C k iv p = (ct, tag) \<Longrightarrow>
     gcm_open C k iv ct tag = Some p \<and> length ct = length p \<and> length tag = 16"
  by (auto simp: gcm_correct_def split: prod.splits)

interpretation pairing_seal: sealed_code encryptPairingCode decryptPairingCode
proof unfold_locales
  fix C :: crypto and iv code pepper :: string
  assume g: "gcm_correct C" and ne: "iv \<noteq> []" "code \<noteq> []"
  obtain ct tag where s: "gcm_seal C (sha256 C pepper) iv code = (ct, tag)" by force
  from gcm_correctD [OF g s] ne have "ct \<noteq> []" "tag \<noteq> []" by auto
  with gcm_correctD [OF g s] ne
  show "decryptPairingCode C (encryptPairingCode C iv code pepper) pepper = Some code"
    by (simp add: decryptPairingCode_def encryptPairingCode_def s split_sealed del: append_Cons append_Nil)
qed

interpretation room_seal: sealed_code encryptRoomCode decryptRoomCode
proof unfold_locales
  fix C :: crypto and iv code pepper :: string
  assume g: "gcm_correct C"
  obtain ct tag where s: "gcm_seal C (sha256 C pepper) iv code = (ct, tag)" by force
  show "decryptRoomCode C (encryptRoomCode C iv code pepper) pepper = Some code"
    using gcm_correctD [OF g s]
    by (simp add: decryptRoomCode_def encryptRoomCode_def s split_sealed del: append_Cons append_Nil)
qed

text \<open>A concrete instance of the primitives, for examples: the cipher is the identity with a
  constant tag, the hash the text itself, the key derivation the password followed by the salt.\<close>

definition plain_crypto :: crypto where
  "plain_crypto =
     \<lparr>hmac_sha256 = (\<lambda>key msg. key @ msg), sha256 = (\<lambda>s. s),
      gcm_seal = (\<lambda>k iv p. (p, replicate 16 (CHR ''t''))),
      gcm_open = (\<lambda>k iv ct tag. if tag = replicate 16 (CHR ''t'') then Some ct else None),
      scrypt_kdf = (\<lambda>pw salt len n r p. Some (pw @ salt))\<rparr>"

lemma plain_crypto_correct: "gcm_correct plain_crypto"
  by (simp add: gcm_correct_def plain_crypto_def)

lemma hashPairingCode_normalize:
  "hashPairingCode C (normalizePairingCode code) pepper = hashPairingCode C code pepper \<longleftrightarrow>
     b64_encode (hmac_sha256 C pepper (normalizePairingCode (normalizePairingCode code))) =
     b64_encode (hmac_sha256 C pepper (normalizePairingCode code))"
  by (simp add: hashPairingCode_def)

lemma upper_char_idem [simp]: "upper_char (upper_char c) = upper_char c"
proof (cases "97 \<le> (of_char c :: nat) \<and> (of_char c :: nat) \<le> 122")
  case True
  then have "(of_char (char_of (of_char c - 32 :: nat)) :: nat) = of_char c - 32"
    using of_char_lt [of c] by (intro of_char_of_small, linarith)
  with True show ?thesis by (auto simp: upper_char_def Let_def)
next
  case False
  then show ?thesis by (auto simp: upper_char_def Let_def)
qed

lemma js_space_upper [simp]: "js_space (upper_char c) = js_space c"
proof (cases "97 \<le> (of_char c :: nat) \<and> (of_char c :: nat) \<le> 122")
  case True
  then have "(of_char (char_of (of_char c - 32 :: nat)) :: nat) = of_char c - 32"
    using of_char_lt [of c] by (intro of_char_of_small, linarith)
  with True show ?thesis by (auto simp: upper_char_def js_space_def Let_def)
next
  case False
  then show ?thesis by (auto simp: upper_char_def Let_def)
qed

lemma js_trim_upper: "js_trim (to_upper s) = to_upper (js_trim s)"
  by (simp add: js_trim_def to_upper_def dropWhile_map comp_def rev_map)

lemma normalizePairingCode_idem [simp]:
  "normalizePairingCode (normalizePairingCode code) = normalizePairingCode code"
  by (simp add: normalizePairingCode_def js_trim_upper) (simp add: to_upper_def comp_def)

lemma verifyPairingCode_iff:
  "verifyPairingCode C code pepper (b64_encode h) \<longleftrightarrow> hmac_sha256 C pepper (normalizePairingCode code) = h"
  by (auto simp: verifyPairingCode_def hashPairingCode_def Let_def)

lemma alphabet_chars: "list_all pairing_code_char pairing_code_alphabet"
  by (simp add: pairing_code_alphabet_def pairing_code_char_def)

lemma pairing_char_fixed: "pairing_code_char c \<Longrightarrow> upper_char c = c \<and> \<not> js_space c"
  by (auto simp: pairing_code_char_def upper_char_def js_space_def Let_def)

lemma normalize_valid_chars: "list_all pairing_code_char s \<Longrightarrow> normalizePairingCode s = s"
proof -
  assume s: "list_all pairing_code_char s"
  then have "js_trim s = s"
    by (intro js_trim_fixed) (auto simp: list_all_iff dest: pairing_char_fixed)
  moreover have "to_upper s = s"
    using s by (simp add: to_upper_def list_all_iff map_idI pairing_char_fixed)
  ultimately show ?thesis by (simp add: normalizePairingCode_def)
qed

section \<open>Properties\<close>

lemma cost_texts:
  "js_trim ''32768'' = ''32768''" "js_trim ''8'' = ''8''" "js_trim ''1'' = ''1''"
  by (simp_all add: js_trim_def js_space_def)

lemma verify_stored:
  assumes "k \<noteq> []"
  shows "verifyPassword C attempt (''scrypt$32768$8$1$'' @ b64_encode salt @ ''$'' @ b64_encode k) =
    (case scrypt_kdf C attempt salt (length k) (2 ^ 15) 8 1 of
       None \<Rightarrow> Inl (Server_Error ''scrypt'') | Some d \<Rightarrow> Inr (d = k))"
proof -
  have sp: "split_on (CHR ''$'') (''scrypt$32768$8$1$'' @ b64_encode salt @ ''$'' @ b64_encode k) =
      [''scrypt'', ''32768'', ''8'', ''1'', b64_encode salt, b64_encode k]"
    using b64_encode_chars [of "CHR ''$''"] by (simp add: split_on_append split_on_absent)
  have "js_integer ''32768'' = Some (2 ^ 15)" "js_integer ''8'' = Some 8" "js_integer ''1'' = Some 1"
    by (simp_all add: js_integer_def cost_texts)
  then show ?thesis using assms
    by (auto simp only: verifyPassword_def sp Let_def b64_roundtrip list.case option.case prod.case
        split: option.splits if_splits)
qed

text \<open>Stored passwords under the concrete primitives.\<close>

definition plain_hash :: "bytes \<Rightarrow> string \<Rightarrow> string" where
  "plain_hash salt pw = ''scrypt$32768$8$1$'' @ b64_encode salt @ ''$'' @ b64_encode (pw @ salt)"

lemma plain_hash_ne [simp]: "plain_hash salt pw \<noteq> []"
  by (simp add: plain_hash_def)

lemma plain_verify [simp]:
  "pw \<noteq> [] \<Longrightarrow> verifyPassword plain_crypto attempt (plain_hash salt pw) = Inr (attempt = pw)"
  unfolding plain_hash_def by (subst verify_stored) (simp_all add: plain_crypto_def)

lemma plain_hashPassword: "hashPassword plain_crypto salt pw = Inr (plain_hash salt pw)"
  by (simp add: hashPassword_def plain_crypto_def plain_hash_def)

text \<open>A password checked against a stored hash is accepted exactly when the key derivation
  gives it the same key as the password the hash was made from; in particular the right
  password is always accepted.\<close>

theorem password_roundtrip:
  assumes "hashPassword C salt password = Inr stored"
    and "\<And>pw. \<exists>k. scrypt_kdf C pw salt key_length (2 ^ 15) 8 1 = Some k \<and> length k = key_length"
  shows "verifyPassword C attempt stored =
    Inr (scrypt_kdf C attempt salt key_length (2 ^ 15) 8 1 =
         scrypt_kdf C password salt key_length (2 ^ 15) 8 1)"
proof -
  from assms(2) [of password] obtain k where
    k: "scrypt_kdf C password salt key_length (2 ^ 15) 8 1 = Some k" and lk: "length k = key_length"
    by blast
  from assms(2) [of attempt] obtain k' where
    k': "scrypt_kdf C attempt salt key_length (2 ^ 15) 8 1 = Some k'" by blast
  from lk have ne: "k \<noteq> []" by (auto simp: key_length_def)
  have st: "stored = ''scrypt$32768$8$1$'' @ b64_encode salt @ ''$'' @ b64_encode k"
    using assms(1) k by (simp add: hashPassword_def)
  show ?thesis unfolding st verify_stored [OF ne] using lk k k' by simp
qed

theorem password_roundtrip_witness:
  "verifyPassword (plain_crypto\<lparr>scrypt_kdf := \<lambda>pw salt len n r p. Some (replicate key_length (hd pw))\<rparr>)
     ''secret'' ''scrypt$32768$8$1$c2FsdA==$'' = Inr False \<and>
   (\<exists>stored. hashPassword (plain_crypto\<lparr>scrypt_kdf := \<lambda>pw salt len n r p. Some (replicate key_length (hd pw))\<rparr>)
        ''salt'' ''secret'' = Inr stored \<and>
      verifyPassword (plain_crypto\<lparr>scrypt_kdf := \<lambda>pw salt len n r p. Some (replicate key_length (hd pw))\<rparr>)
        ''guess'' stored = Inr False)"
proof
  let ?C = "plain_crypto\<lparr>scrypt_kdf := \<lambda>pw salt len n r p. Some (replicate key_length (hd pw))\<rparr>"
  show "verifyPassword ?C ''secret'' ''scrypt$32768$8$1$c2FsdA==$'' = Inr False"
    by (simp add: verifyPassword_def js_integer_def cost_texts b64_decode_def List.map_filter_def)
  obtain stored where s: "hashPassword ?C ''salt'' ''secret'' = Inr stored"
    by (simp add: hashPassword_def)
  have "verifyPassword ?C ''guess'' stored = Inr False"
    using password_roundtrip [OF s, of "''guess''"] by (simp add: key_length_def)
  with s show "\<exists>stored. hashPassword ?C ''salt'' ''secret'' = Inr stored \<and>
      verifyPassword ?C ''guess'' stored = Inr False" by blast
qed

text \<open>A Forever Code or a room code that is stored sealed is read back unchanged, and two
  stored texts that agree come from the same code.\<close>

theorem sealed_code_roundtrip:
  assumes "gcm_correct C" and "iv \<noteq> []" and "code \<noteq> []"
  shows "decryptPairingCode C (encryptPairingCode C iv code pepper) pepper = Some code \<and>
    decryptRoomCode C (encryptRoomCode C iv code pepper) pepper = Some code \<and>
    (iv' \<noteq> [] \<and> code' \<noteq> [] \<and> encryptPairingCode C iv' code' pepper = encryptPairingCode C iv code pepper
       \<longrightarrow> code' = code)"
proof (intro conjI impI)
  show "decryptPairingCode C (encryptPairingCode C iv code pepper) pepper = Some code"
    by (rule pairing_seal.unseal_seal [OF assms])
  show "decryptRoomCode C (encryptRoomCode C iv code pepper) pepper = Some code"
    by (rule room_seal.unseal_seal [OF assms])
  assume h: "iv' \<noteq> [] \<and> code' \<noteq> [] \<and>
    encryptPairingCode C iv' code' pepper = encryptPairingCode C iv code pepper"
  show "code' = code"
    by (rule pairing_seal.seal_determines_code [OF assms(1), where iv = iv' and iv' = iv and pepper = pepper]) (use h assms in simp_all)
qed

theorem sealed_code_roundtrip_witness:
  "decryptPairingCode plain_crypto (encryptPairingCode plain_crypto ''nonce'' ''ABC123'' ''pepper'')
     ''pepper'' = Some ''ABC123''"
  using sealed_code_roundtrip [OF plain_crypto_correct, of "''nonce''" "''ABC123''"] by simp

text \<open>Every generated pairing code of six draws is valid as it stands, is its own normal
  form, and matches its own stored HMAC however the redeemer types its letters' case and
  surrounding blanks.\<close>

theorem generated_code_matches:
  assumes "length draws = 6" and "\<forall>r \<in> set draws. r < 36"
    and "normalizePairingCode typed = generatePairingCode draws"
  shows "isValidPairingCode (generatePairingCode draws) \<and>
    normalizePairingCode (generatePairingCode draws) = generatePairingCode draws \<and>
    verifyPairingCode C typed pepper (hashPairingCode C (generatePairingCode draws) pepper)"
proof -
  have len: "length pairing_code_alphabet = 36" by (simp add: pairing_code_alphabet_def)
  have "list_all pairing_code_char (generatePairingCode draws)"
    using assms(2) alphabet_chars len
    by (auto simp: generatePairingCode_def list_all_iff intro!: nth_mem)
  then have "normalizePairingCode (generatePairingCode draws) = generatePairingCode draws"
    and "isValidPairingCode (generatePairingCode draws)"
    using assms(1) by (simp_all add: normalize_valid_chars isValidPairingCode_def generatePairingCode_def)
  then show ?thesis using assms(3)
    by (simp add: verifyPairingCode_def hashPairingCode_def Let_def)
qed

theorem generated_code_matches_witness:
  "verifyPairingCode plain_crypto '' abc12z '' ''p''
     (hashPairingCode plain_crypto (generatePairingCode [10, 11, 12, 1, 2, 35]) ''p'')"
  using generated_code_matches [of "[10, 11, 12, 1, 2, 35]" "'' abc12z ''"]
  by (simp add: normalizePairingCode_def js_trim_def js_space_def to_upper_def upper_char_def
      generatePairingCode_def pairing_code_alphabet_def char_of_eq_iff)

end
