(* ===== verification/Registry.thy ===== *)
theory Registry
  imports World
begin

text \<open>
  \<open>realtime/connection-registry.service.ts\<close>: the in-memory maps from a user and
  from a device to the set of live sockets, the cap on sockets per user, the
  typing rate limit, and the push operations every other service calls. A
  JavaScript \<open>Map\<close> is an association list without duplicate keys, a \<open>Set\<close> a list
  without duplicates; \<open>socket.emit\<close> appends to the log \<open>emitted\<close>.
\<close>

section \<open>Maps and sets\<close>

definition sockets_in :: "(ident \<times> ident list) list \<Rightarrow> ident \<Rightarrow> ident list" where
  "sockets_in m k = (case map_of m k of None \<Rightarrow> [] | Some ss \<Rightarrow> ss)"

fun assoc_set :: "'k \<Rightarrow> 'v \<Rightarrow> ('k \<times> 'v) list \<Rightarrow> ('k \<times> 'v) list" where
  "assoc_set k v [] = [(k, v)]"
| "assoc_set k v ((k', v') # m) = (if k = k' then (k, v) # m else (k', v') # assoc_set k v m)"

definition set_add :: "ident \<Rightarrow> ident list \<Rightarrow> ident list" where
  "set_add x xs = (if x \<in> set xs then xs else xs @ [x])"

definition set_delete :: "ident \<Rightarrow> ident list \<Rightarrow> ident list" where
  "set_delete x xs = filter (\<lambda>y. y \<noteq> x) xs"

lemma map_of_assoc_set [simp]: "map_of (assoc_set k v m) = (map_of m)(k \<mapsto> v)"
  by (induction m) auto

lemma sockets_in_assoc_set [simp]:
  "sockets_in (assoc_set k v m) j = (if j = k then v else sockets_in m j)"
  by (simp add: sockets_in_def)

section \<open>Registration\<close>

definition max_sockets_per_user :: nat where
  "max_sockets_per_user = 8"

definition register :: "ident \<Rightarrow> ident \<Rightarrow> ident \<Rightarrow> world \<Rightarrow> bool \<times> world" where
  "register userId deviceId socket w =
     (let existing = sockets_in (connections w) userId
      in if length existing \<ge> max_sockets_per_user then (False, w)
         else (True,
           w\<lparr>connections := assoc_set userId (set_add socket existing) (connections w),
             device_connections :=
               assoc_set deviceId (set_add socket (sockets_in (device_connections w) deviceId))
                 (device_connections w)\<rparr>))"

definition unregister :: "ident \<Rightarrow> ident \<Rightarrow> ident \<Rightarrow> world \<Rightarrow> world" where
  "unregister userId deviceId socket w =
     w\<lparr>connections :=
         (case map_of (connections w) userId of None \<Rightarrow> connections w
          | Some ss \<Rightarrow> assoc_set userId (set_delete socket ss) (connections w)),
       device_connections :=
         (case map_of (device_connections w) deviceId of None \<Rightarrow> device_connections w
          | Some ss \<Rightarrow> assoc_set deviceId (set_delete socket ss) (device_connections w))\<rparr>"

section \<open>Typing rate limit\<close>

definition typing_window_ms :: int where
  "typing_window_ms = 10000"

definition typing_max_per_window :: int where
  "typing_max_per_window = 30"

definition allowTyping :: "ident \<Rightarrow> instant \<Rightarrow> world \<Rightarrow> bool \<times> world" where
  "allowTyping userId now w =
     (case map_of (typing_windows w) userId of
        None \<Rightarrow>
          (True, w\<lparr>typing_windows :=
             assoc_set userId \<lparr>tw_count = 1, tw_windowStart = now\<rparr> (typing_windows w)\<rparr>)
      | Some window \<Rightarrow>
          if now - tw_windowStart window > typing_window_ms
          then (True, w\<lparr>typing_windows :=
                  assoc_set userId \<lparr>tw_count = 1, tw_windowStart = now\<rparr> (typing_windows w)\<rparr>)
          else if tw_count window \<ge> typing_max_per_window then (False, w)
          else (True, w\<lparr>typing_windows :=
                  assoc_set userId (window\<lparr>tw_count := tw_count window + 1\<rparr>) (typing_windows w)\<rparr>))"

section \<open>Pushing events\<close>

definition pushToUser :: "ident \<Rightarrow> push_event \<Rightarrow> world \<Rightarrow> bool \<times> world" where
  "pushToUser userId event w =
     (let sockets = sockets_in (connections w) userId
      in if sockets = [] then (False, w)
         else (True, w\<lparr>emitted := emitted w @ map (\<lambda>s. (s, event)) sockets\<rparr>))"

fun pushToUsers :: "ident list \<Rightarrow> push_event \<Rightarrow> world \<Rightarrow> nat \<times> world" where
  "pushToUsers [] event w = (0, w)"
| "pushToUsers (userId # userIds) event w =
     (let (reached, w1) = pushToUser userId event w;
          (deliveredCount, w2) = pushToUsers userIds event w1
      in ((if reached then deliveredCount + 1 else deliveredCount), w2))"

definition pushToDevice :: "ident \<Rightarrow> push_event \<Rightarrow> world \<Rightarrow> bool \<times> world" where
  "pushToDevice deviceId event w =
     (let sockets = sockets_in (device_connections w) deviceId
      in if sockets = [] then (False, w)
         else (True, w\<lparr>emitted := emitted w @ map (\<lambda>s. (s, event)) sockets\<rparr>))"

text \<open>\<open>disconnectDevice\<close> and \<open>disconnectUser\<close> call \<open>disconnect(true)\<close> on each live
  socket; the registry itself is updated by the gateway when each socket reports its
  disconnection.\<close>

definition disconnectDevice :: "ident \<Rightarrow> world \<Rightarrow> world" where
  "disconnectDevice deviceId w =
     w\<lparr>disconnected := disconnected w @ sockets_in (device_connections w) deviceId\<rparr>"

definition disconnectUser :: "ident \<Rightarrow> world \<Rightarrow> world" where
  "disconnectUser userId w =
     w\<lparr>disconnected := disconnected w @ sockets_in (connections w) userId\<rparr>"

definition getConnectionCount :: "ident \<Rightarrow> world \<Rightarrow> nat" where
  "getConnectionCount userId w = length (sockets_in (connections w) userId)"

definition isOnline :: "ident \<Rightarrow> world \<Rightarrow> bool" where
  "isOnline userId w \<longleftrightarrow> length (sockets_in (connections w) userId) > 0"

definition isDeviceOnline :: "ident \<Rightarrow> world \<Rightarrow> bool" where
  "isDeviceOnline deviceId w \<longleftrightarrow> length (sockets_in (device_connections w) deviceId) > 0"

abbreviation push :: "ident \<Rightarrow> push_event \<Rightarrow> world \<Rightarrow> world" where
  "push u e w \<equiv> snd (pushToUser u e w)"

abbreviation push_all :: "ident list \<Rightarrow> push_event \<Rightarrow> world \<Rightarrow> world" where
  "push_all us e w \<equiv> snd (pushToUsers us e w)"

section \<open>The push interface\<close>

text \<open>
  What the services rely on when they push: the event is appended to the log
  once per live socket of the recipient, the answer says whether there was one,
  and nothing else of the state changes.
\<close>

locale push_channel =
  fixes sockets_of :: "world \<Rightarrow> ident \<Rightarrow> ident list"
    and send_to :: "ident \<Rightarrow> push_event \<Rightarrow> world \<Rightarrow> bool \<times> world"
  assumes reached: "fst (send_to r e w) \<longleftrightarrow> sockets_of w r \<noteq> []"
    and logged: "emitted (snd (send_to r e w)) = emitted w @ map (\<lambda>s. (s, e)) (sockets_of w r)"
    and framed: "(snd (send_to r e w))\<lparr>emitted := l\<rparr> = w\<lparr>emitted := l\<rparr>"
    and same_sockets: "sockets_of (w\<lparr>emitted := l\<rparr>) = sockets_of w"
begin

lemma after_send:
  "snd (send_to r e w) = w\<lparr>emitted := emitted w @ map (\<lambda>s. (s, e)) (sockets_of w r)\<rparr>"
proof -
  let ?w = "snd (send_to r e w)"
  have "?w = ?w\<lparr>emitted := emitted ?w\<rparr>" by simp
  also have "\<dots> = w\<lparr>emitted := emitted ?w\<rparr>" by (rule framed)
  finally show ?thesis by (simp only: logged)
qed

lemma not_reached: "\<not> fst (send_to r e w) \<Longrightarrow> snd (send_to r e w) = w"
  by (simp add: reached after_send)

lemma sockets_after [simp]: "sockets_of (snd (send_to r e w)) = sockets_of w"
  by (simp add: after_send same_sockets)

lemma send_again:
  "emitted (snd (send_to r' e' (snd (send_to r e w)))) =
     emitted w @ map (\<lambda>s. (s, e)) (sockets_of w r) @ map (\<lambda>s. (s, e')) (sockets_of w r')"
  by (simp add: logged)

end

interpretation to_user: push_channel "\<lambda>w. sockets_in (connections w)" pushToUser
  by unfold_locales (auto simp: pushToUser_def Let_def)

interpretation to_device: push_channel "\<lambda>w. sockets_in (device_connections w)" pushToDevice
  by unfold_locales (auto simp: pushToDevice_def Let_def)

lemmas push_log = to_user.after_send

lemma push_all_log:
  "push_all us e w =
     w\<lparr>emitted := emitted w @ concat (map (\<lambda>u. map (\<lambda>s. (s, e)) (sockets_in (connections w) u)) us)\<rparr>"
  by (induction us arbitrary: w) (simp_all add: push_log case_prod_beta Let_def)

declare pushToUsers.simps(2) [simp del]

text \<open>Pushing leaves every table alone.\<close>

lemma push_frame [simp]:
  "users (push u e w) = users w" "devices (push u e w) = devices w"
  "prekeys (push u e w) = prekeys w" "pairing_codes (push u e w) = pairing_codes w"
  "conversations (push u e w) = conversations w"
  "pending_handshakes (push u e w) = pending_handshakes w" "messages (push u e w) = messages w"
  "attachments (push u e w) = attachments w" "user_settings (push u e w) = user_settings w"
  "conversation_requests (push u e w) = conversation_requests w"
  "security_events (push u e w) = security_events w"
  "rooms (push u e w) = rooms w" "room_members (push u e w) = room_members w"
  "room_join_requests (push u e w) = room_join_requests w"
  "room_messages (push u e w) = room_messages w"
  "room_key_packages (push u e w) = room_key_packages w"
  "connections (push u e w) = connections w" "device_connections (push u e w) = device_connections w"
  "blob_deletes (push u e w) = blob_deletes w" "auth_sessions (push u e w) = auth_sessions w"
  "email_verifications (push u e w) = email_verifications w" "audit_logs (push u e w) = audit_logs w"
  "recent_rotations (push u e w) = recent_rotations w"
  by (simp_all add: push_log)

lemma push_all_frame [simp]:
  "users (push_all us e w) = users w" "devices (push_all us e w) = devices w"
  "prekeys (push_all us e w) = prekeys w" "pairing_codes (push_all us e w) = pairing_codes w"
  "conversations (push_all us e w) = conversations w"
  "pending_handshakes (push_all us e w) = pending_handshakes w"
  "messages (push_all us e w) = messages w"
  "attachments (push_all us e w) = attachments w" "user_settings (push_all us e w) = user_settings w"
  "conversation_requests (push_all us e w) = conversation_requests w"
  "security_events (push_all us e w) = security_events w"
  "rooms (push_all us e w) = rooms w" "room_members (push_all us e w) = room_members w"
  "room_join_requests (push_all us e w) = room_join_requests w"
  "room_messages (push_all us e w) = room_messages w"
  "room_key_packages (push_all us e w) = room_key_packages w"
  "connections (push_all us e w) = connections w" "device_connections (push_all us e w) = device_connections w"
  "blob_deletes (push_all us e w) = blob_deletes w" "auth_sessions (push_all us e w) = auth_sessions w"
  "email_verifications (push_all us e w) = email_verifications w" "audit_logs (push_all us e w) = audit_logs w"
  "recent_rotations (push_all us e w) = recent_rotations w"
  by (simp_all add: push_all_log)

lemma find_push [simp]:
  "find_conv i (push u e w) = find_conv i w" "find_conv_pair p (push u e w) = find_conv_pair p w"
  "find_user i (push u e w) = find_user i w" "find_message i (push u e w) = find_message i w"
  "find_settings i (push u e w) = find_settings i w"
  "find_conv i (push_all us e w) = find_conv i w" "find_conv_pair p (push_all us e w) = find_conv_pair p w"
  "find_user i (push_all us e w) = find_user i w" "find_message i (push_all us e w) = find_message i w"
  "find_settings i (push_all us e w) = find_settings i w"
  by (simp_all add: find_conv_def find_conv_pair_def find_user_def find_message_def find_settings_def)

section \<open>The registry invariant\<close>

text \<open>No user has more than eight sockets, and no socket is listed twice.\<close>

definition registry_ok :: "world \<Rightarrow> bool" where
  "registry_ok w \<longleftrightarrow>
     (\<forall>u. length (sockets_in (connections w) u) \<le> max_sockets_per_user \<and>
        distinct (sockets_in (connections w) u)) \<and>
     (\<forall>d. distinct (sockets_in (device_connections w) d))"

lemma distinct_set_add [simp]: "distinct (set_add x xs) = distinct xs"
  by (auto simp: set_add_def)

lemma length_set_add: "length (set_add x xs) \<le> Suc (length xs)"
  by (simp add: set_add_def)

lemma register_ok: "registry_ok w \<Longrightarrow> registry_ok (snd (register u d s w))"
  using length_set_add [of s "sockets_in (connections w) u"]
  by (auto simp: registry_ok_def register_def Let_def max_sockets_per_user_def not_le)

lemma sockets_in_unregister:
  "sockets_in (connections (unregister u d s w)) v =
     (if v = u then set_delete s (sockets_in (connections w) u) else sockets_in (connections w) v)"
  "sockets_in (device_connections (unregister u d s w)) e =
     (if e = d then set_delete s (sockets_in (device_connections w) d)
      else sockets_in (device_connections w) e)"
  by (auto simp: unregister_def sockets_in_def set_delete_def split: option.splits)

lemma unregister_ok: "registry_ok w \<Longrightarrow> registry_ok (unregister u d s w)"
  by (auto simp: registry_ok_def sockets_in_unregister set_delete_def
      intro: order_trans [OF length_filter_le])

text \<open>The registry as a sequence of connections and disconnections.\<close>

datatype registry_event = Connect ident ident ident | Disconnect ident ident ident

fun registry_step :: "world \<Rightarrow> registry_event \<Rightarrow> world" where
  "registry_step w (Connect u d s) = snd (register u d s w)"
| "registry_step w (Disconnect u d s) = unregister u d s w"

lemma registry_run_ok: "registry_ok w \<Longrightarrow> registry_ok (foldl registry_step w es)"
proof (induction es arbitrary: w)
  case (Cons e es)
  then show ?case by (cases e) (auto intro: register_ok unregister_ok)
qed simp

fun typing_run :: "ident \<Rightarrow> instant list \<Rightarrow> world \<Rightarrow> bool list \<times> world" where
  "typing_run u [] w = ([], w)"
| "typing_run u (t # ts) w =
     (let (b, w1) = allowTyping u t w; (bs, w2) = typing_run u ts w1 in (b # bs, w2))"

lemma typing_run_in_window:
  assumes "map_of (typing_windows w) u = Some win"
    and "\<forall>t \<in> set ts. t - tw_windowStart win \<le> typing_window_ms"
    and "tw_count win \<le> typing_max_per_window"
  shows "int (length (filter (\<lambda>b. b) (fst (typing_run u ts w)))) =
    min (int (length ts)) (typing_max_per_window - tw_count win)"
  using assms
proof (induction ts arbitrary: w win)
  case Nil
  then show ?case by simp
next
  case (Cons t ts)
  show ?case
  proof (cases "tw_count win \<ge> typing_max_per_window")
    case True
    then have "allowTyping u t w = (False, w)" using Cons.prems by (simp add: allowTyping_def)
    with Cons.IH [OF Cons.prems(1)] Cons.prems True show ?thesis
      by (simp add: case_prod_beta)
  next
    case False
    let ?win = "win\<lparr>tw_count := tw_count win + 1\<rparr>"
    let ?w = "w\<lparr>typing_windows := assoc_set u ?win (typing_windows w)\<rparr>"
    have "allowTyping u t w = (True, ?w)" using Cons.prems False by (simp add: allowTyping_def)
    moreover have "int (length (filter (\<lambda>b. b) (fst (typing_run u ts ?w)))) =
        min (int (length ts)) (typing_max_per_window - tw_count ?win)"
      using Cons.prems False by (intro Cons.IH) auto
    ultimately show ?thesis using False by (simp add: case_prod_beta)
  qed
qed

section \<open>Properties\<close>

text \<open>Whatever sequence of connections and disconnections the server has seen since it
  started, no user has more than eight live sockets and no socket is registered twice; and
  a ninth connection is refused without changing the registry.\<close>

theorem registry_socket_cap:
  assumes "connections w = []" and "device_connections w = []"
  shows "length (sockets_in (connections (foldl registry_step w es)) u) \<le> 8 \<and>
     distinct (sockets_in (connections (foldl registry_step w es)) u) \<and>
     (length (sockets_in (connections (foldl registry_step w es)) u) = 8 \<longrightarrow>
        register u d s (foldl registry_step w es) = (False, foldl registry_step w es))"
proof -
  have "registry_ok w" using assms by (simp add: registry_ok_def sockets_in_def)
  then have "registry_ok (foldl registry_step w es)" by (rule registry_run_ok)
  then show ?thesis
    by (simp add: registry_ok_def max_sockets_per_user_def register_def)
qed

theorem registry_socket_cap_witness:
  "length (sockets_in (connections (foldl registry_step empty_world
      [Connect ''u'' ''d'' ''s1'', Connect ''u'' ''d'' ''s2'', Disconnect ''u'' ''d'' ''s1''])) ''u'') \<le> 8"
  using registry_socket_cap [of empty_world "[Connect ''u'' ''d'' ''s1'', Connect ''u'' ''d'' ''s2'',
    Disconnect ''u'' ''d'' ''s1'']" "''u''"]
  by (simp only: empty_world_def world.simps simp_thms)

text \<open>Of the typing events a user sends within ten seconds of the first one, exactly the
  first thirty are relayed.\<close>

theorem typing_rate_limit:
  assumes "map_of (typing_windows w) u = None" and "\<forall>t \<in> set ts. t - t0 \<le> 10000"
  shows "length (filter (\<lambda>b. b) (fst (typing_run u (t0 # ts) w))) = min (Suc (length ts)) 30"
proof -
  let ?win = "\<lparr>tw_count = 1, tw_windowStart = t0\<rparr>"
  let ?w = "w\<lparr>typing_windows := assoc_set u ?win (typing_windows w)\<rparr>"
  have "allowTyping u t0 w = (True, ?w)" using assms(1) by (simp add: allowTyping_def)
  moreover have "int (length (filter (\<lambda>b. b) (fst (typing_run u ts ?w)))) =
      min (int (length ts)) (typing_max_per_window - tw_count ?win)"
    using assms(2) by (intro typing_run_in_window) (auto simp: typing_window_ms_def typing_max_per_window_def)
  ultimately show ?thesis by (simp add: typing_max_per_window_def case_prod_beta)
qed

theorem typing_rate_limit_witness:
  "length (filter (\<lambda>b. b) (fst (typing_run ''u'' (0 # replicate 40 5000) empty_world))) = 30"
  using typing_rate_limit [of empty_world "''u''" "replicate 40 5000" 0]
  by (simp add: empty_world_def)

end
