(* ===== verification/Attachments.thy ===== *)
theory Attachments
  imports Codec Registry
begin

text \<open>
  Encrypted attachments: \<open>attachments/attachments.service.ts\<close>. The blob stores
  (a managed bucket, or the user's own Drive) are not code of this repository:
  what an upload answers and what a download returns are parameters, and the
  deletions the service asks for are logged in \<open>blob_deletes\<close>; the service
  ignores whether they succeed.
\<close>

section \<open>Operations\<close>

definition max_encrypted_size :: nat where
  "max_encrypted_size = 25 * 1024 * 1024"

definition allowed_mime_hints :: "string list" where
  "allowed_mime_hints = [''image'', ''file'']"

definition orphan_max_age_ms :: int where
  "orphan_max_age_ms = 60 * 60 * 1000"

definition find_attachment :: "ident \<Rightarrow> world \<Rightarrow> attachment_row option" where
  "find_attachment i w = find (\<lambda>a. at_id a = i) (attachments w)"

definition room_member :: "ident \<Rightarrow> ident \<Rightarrow> world \<Rightarrow> member_row option" where
  "room_member roomId userId w =
     find (\<lambda>m. mb_roomId m = roomId \<and> mb_userId m = userId) (room_members w)"

definition find_room :: "ident \<Rightarrow> world \<Rightarrow> room_row option" where
  "find_room i w = find (\<lambda>r. rm_id r = i) (rooms w)"

definition resolveUserStorageProvider :: "ident \<Rightarrow> world \<Rightarrow> storage_provider" where
  "resolveUserStorageProvider userId w =
     (case find_settings userId w of
        Some s \<Rightarrow>
          if st_storageProvider s = Google_Drive
          then (case find (\<lambda>c. gd_userId c = userId) (drive_connections w) of
                  Some conn \<Rightarrow> if gd_revokedAt conn = None then Google_Drive else Managed
                | None \<Rightarrow> Managed)
          else Managed
      | None \<Rightarrow> Managed)"

text \<open>\<open>getStorageProvider(a.storageProvider).delete(a.driveFileId, a.uploaderId)\<close>, its outcome ignored.\<close>

definition delete_blob :: "attachment_row \<Rightarrow> world \<Rightarrow> world" where
  "delete_blob a w =
     w\<lparr>blob_deletes := blob_deletes w @ [(at_storageProvider a, at_driveFileId a, at_uploaderId a)]\<rparr>"

definition drop_attachments :: "(attachment_row \<Rightarrow> bool) \<Rightarrow> world \<Rightarrow> world" where
  "drop_attachments p w = w\<lparr>attachments := delete_where p (attachments w)\<rparr>"

text \<open>
  The orphan sweep reads the candidates once, then deletes them one by one;
  \<open>interf k\<close> is what the other handlers do to the state before the \<open>k\<close>th
  deletion. \<open>busy\<close> is the flag that keeps two sweeps from overlapping.
\<close>

definition orphaned_at :: "instant \<Rightarrow> attachment_row \<Rightarrow> bool" where
  "orphaned_at now a \<longleftrightarrow> at_messageId a = None \<and> at_uploadedAt a \<le> now - orphan_max_age_ms"

fun sweep_orphans :: "(nat \<Rightarrow> world \<Rightarrow> world) \<Rightarrow> nat \<Rightarrow> attachment_row list \<Rightarrow> world \<Rightarrow> world" where
  "sweep_orphans interf k [] w = w"
| "sweep_orphans interf k (a # as) w =
     sweep_orphans interf (Suc k) as
       (drop_attachments (\<lambda>r. at_id r = at_id a \<and> at_messageId r = None)
          (interf k (delete_blob a w)))"

definition cleanupOrphanedAttachments ::
  "(nat \<Rightarrow> world \<Rightarrow> world) \<Rightarrow> bool \<Rightarrow> instant \<Rightarrow> world \<Rightarrow> nat \<times> world" where
  "cleanupOrphanedAttachments interf busy now w =
     (if busy then (0, w)
      else let orphaned = filter (orphaned_at now) (attachments w)
           in (length orphaned, sweep_orphans interf 0 orphaned w))"

text \<open>
  \<open>store\<close> is the provider's upload, called with the provider chosen, the random
  file name, the bytes and the user; \<open>attId\<close> is the id of the new row.
\<close>

definition upload ::
  "(storage_provider \<Rightarrow> ident \<Rightarrow> bytes \<Rightarrow> ident \<Rightarrow> http_error + ident) \<Rightarrow> ident \<Rightarrow> ident \<Rightarrow> instant \<Rightarrow>
     ident \<Rightarrow> ident \<Rightarrow> bytes \<Rightarrow> string \<Rightarrow> int \<Rightarrow> world \<Rightarrow> ident res" where
  "upload store randomFilename attId now userId conversationId encryptedBytes mimeTypeHint originalSize w =
     (let denied =
        (if mimeTypeHint \<notin> set allowed_mime_hints then Some (Bad_Request ''Unsupported attachment type'')
         else if length encryptedBytes > max_encrypted_size then Some (Bad_Request ''File too large'')
         else case find_conv conversationId w of
           Some convo \<Rightarrow>
             if cv_userAId convo \<noteq> userId \<and> cv_userBId convo \<noteq> userId then Some (Forbidden '''')
             else if cv_status convo \<noteq> Cv_Active then Some (Forbidden ''Conversation not available'')
             else if past (cv_expiresAt convo) now then Some (Forbidden ''Conversation has expired'')
             else None
         | None \<Rightarrow>
             (case find_room conversationId w of
                None \<Rightarrow> Some (Forbidden ''Room not available'')
              | Some room \<Rightarrow>
                  if rm_status room \<noteq> Rm_Active then Some (Forbidden ''Room not available'')
                  else if room_member conversationId userId w = None
                       then Some (Forbidden ''Not a member of this room'')
                  else None))
      in case denied of
           Some e \<Rightarrow> fail e w
         | None \<Rightarrow>
             let storageProvider = resolveUserStorageProvider userId w
             in case store storageProvider randomFilename encryptedBytes userId of
                  Inl e \<Rightarrow> fail e w
                | Inr driveFileId \<Rightarrow>
                    ok attId (w\<lparr>attachments := attachments w @
                      [\<lparr>at_id = attId, at_messageId = None, at_uploaderId = userId,
                        at_conversationId = conversationId, at_driveFileId = driveFileId,
                        at_encryptedDek = None, at_mimeTypeHint = mimeTypeHint,
                        at_storageProvider = storageProvider, at_originalSize = originalSize,
                        at_encryptedSize = int (length encryptedBytes), at_uploadedAt = now\<rparr>]\<rparr>))"

definition linkToMessage ::
  "ident \<Rightarrow> ident \<Rightarrow> ident \<Rightarrow> ident \<Rightarrow> bytes option \<Rightarrow> world \<Rightarrow> unit res" where
  "linkToMessage attachmentId messageId conversationId uploaderId encryptedDek w =
     (case find_attachment attachmentId w of
        None \<Rightarrow> fail (Not_Found ''Attachment not found'') w
      | Some a \<Rightarrow>
          if at_uploaderId a \<noteq> uploaderId then fail (Forbidden '''') w
          else if at_conversationId a \<noteq> conversationId then fail (Forbidden '''') w
          else if at_messageId a \<noteq> None then fail (Forbidden ''Attachment already linked to a message'') w
          else ok () (w\<lparr>attachments :=
                 update_where (\<lambda>r. at_id r = attachmentId)
                   (\<lambda>r. r\<lparr>at_messageId := Some messageId, at_encryptedDek := encryptedDek\<rparr>)
                   (attachments w)\<rparr>))"

text \<open>\<open>attachment.message\<close> and \<open>attachment.message?.conversation ?? conversation.findUnique(...)\<close>.\<close>

definition attached_message :: "attachment_row \<Rightarrow> world \<Rightarrow> message_row option" where
  "attached_message a w = (case at_messageId a of None \<Rightarrow> None | Some m \<Rightarrow> find_message m w)"

definition attachment_conv :: "attachment_row \<Rightarrow> world \<Rightarrow> conv_row option" where
  "attachment_conv a w =
     (case (case attached_message a w of None \<Rightarrow> None
              | Some m \<Rightarrow> find_conv (ms_conversationId m) w) of
        Some c \<Rightarrow> Some c
      | None \<Rightarrow> find_conv (at_conversationId a) w)"

text \<open>\<open>fetch\<close> is the provider's download.\<close>

definition download ::
  "(storage_provider \<Rightarrow> ident \<Rightarrow> ident \<Rightarrow> http_error + bytes) \<Rightarrow> instant \<Rightarrow> ident \<Rightarrow> ident \<Rightarrow> world \<Rightarrow>
     http_error + (bytes \<times> string option \<times> string)" where
  "download fetch now userId attachmentId w =
     (case find_attachment attachmentId w of
        None \<Rightarrow> Inl (Not_Found ''Not found'')
      | Some a \<Rightarrow>
          let denied =
            (case attachment_conv a w of
               Some convo \<Rightarrow>
                 if cv_userAId convo \<noteq> userId \<and> cv_userBId convo \<noteq> userId then Some (Forbidden '''')
                 else if past (cv_expiresAt convo) now then Some (Not_Found ''Not found'')
                 else (case attached_message a w of
                         Some m \<Rightarrow> if ms_deletedAt m \<noteq> None then Some (Not_Found ''Not found'') else None
                       | None \<Rightarrow> None)
             | None \<Rightarrow>
                 if room_member (at_conversationId a) userId w = None \<and> at_uploaderId a \<noteq> userId
                 then Some (Forbidden ''Not authorized'') else None)
          in case denied of
               Some e \<Rightarrow> Inl e
             | None \<Rightarrow>
                 (case fetch (at_storageProvider a) (at_driveFileId a) (at_uploaderId a) of
                    Inl e \<Rightarrow> Inl e
                  | Inr blob \<Rightarrow> Inr (blob, map_option b64_encode (at_encryptedDek a), at_mimeTypeHint a)))"

definition purgeDriveFilesForConversation :: "ident \<Rightarrow> world \<Rightarrow> world" where
  "purgeDriveFilesForConversation conversationId w =
     foldl (\<lambda>w a. delete_blob a w) w
       (filter (\<lambda>a. at_conversationId a = conversationId) (attachments w))"

definition deleteForMessage :: "ident \<Rightarrow> world \<Rightarrow> world" where
  "deleteForMessage messageId w =
     (case find (\<lambda>a. at_messageId a = Some messageId) (attachments w) of
        None \<Rightarrow> w
      | Some a \<Rightarrow> drop_attachments (\<lambda>r. at_id r = at_id a) (delete_blob a w))"

definition delete_attachment :: "ident \<Rightarrow> ident \<Rightarrow> world \<Rightarrow> unit res" where
  "delete_attachment userId attachmentId w =
     (case find_attachment attachmentId w of
        None \<Rightarrow> ok () w
      | Some a \<Rightarrow>
          let convo = attachment_conv a w;
              isParticipant = (case convo of None \<Rightarrow> False | Some c \<Rightarrow> participant userId c);
              isUploader = (at_uploaderId a = userId);
              isRoomMember = (convo = None \<and> room_member (at_conversationId a) userId w \<noteq> None)
          in if \<not> isParticipant \<and> \<not> isUploader \<and> \<not> isRoomMember
             then fail (Forbidden ''Not authorized to delete this attachment'') w
             else ok () (drop_attachments (\<lambda>r. at_id r = attachmentId) (delete_blob a w)))"

section \<open>Facts\<close>

lemma delete_blob_frame [simp]:
  "attachments (delete_blob a w) = attachments w" "messages (delete_blob a w) = messages w"
  "conversations (delete_blob a w) = conversations w"
  "pending_handshakes (delete_blob a w) = pending_handshakes w"
  "connections (delete_blob a w) = connections w" "emitted (delete_blob a w) = emitted w"
  by (simp_all add: delete_blob_def)

lemma drop_attachments_frame [simp]:
  "attachments (drop_attachments p w) = delete_where p (attachments w)"
  "messages (drop_attachments p w) = messages w"
  "conversations (drop_attachments p w) = conversations w"
  "blob_deletes (drop_attachments p w) = blob_deletes w"
  "connections (drop_attachments p w) = connections w" "emitted (drop_attachments p w) = emitted w"
  by (simp_all add: drop_attachments_def)

definition blob_of :: "attachment_row \<Rightarrow> storage_provider \<times> ident \<times> ident" where
  "blob_of a = (at_storageProvider a, at_driveFileId a, at_uploaderId a)"

lemma delete_blobs_log:
  "foldl (\<lambda>w a. delete_blob a w) w as = w\<lparr>blob_deletes := blob_deletes w @ map blob_of as\<rparr>"
  by (induction as arbitrary: w) (simp_all add: delete_blob_def blob_of_def)

lemma purge_log:
  "purgeDriveFilesForConversation c w =
     w\<lparr>blob_deletes := blob_deletes w @
       map blob_of (filter (\<lambda>a. at_conversationId a = c) (attachments w))\<rparr>"
  by (simp add: purgeDriveFilesForConversation_def delete_blobs_log)

lemma deleteForMessage_frame [simp]:
  "messages (deleteForMessage m w) = messages w"
  "conversations (deleteForMessage m w) = conversations w"
  "connections (deleteForMessage m w) = connections w" "emitted (deleteForMessage m w) = emitted w"
  by (simp_all add: deleteForMessage_def split: option.splits)

lemma find_attachment_Some:
  "find_attachment i w = Some a \<Longrightarrow> a \<in> set (attachments w) \<and> at_id a = i"
  by (auto simp: find_attachment_def dest: find_Some_in)

text \<open>What a successful upload says of the caller, and the one row it adds.\<close>

lemma upload_cases:
  assumes "upload store fname i t u conv bs mime sz w = ok r w'"
  shows "r = i" "mime \<in> set allowed_mime_hints" "length bs \<le> max_encrypted_size"
    "(\<exists>c. find_conv conv w = Some c \<and> participant u c \<and> cv_status c = Cv_Active \<and> \<not> past (cv_expiresAt c) t)
     \<or> (find_conv conv w = None \<and> (\<exists>rm. find_room conv w = Some rm \<and> rm_status rm = Rm_Active)
        \<and> room_member conv u w \<noteq> None)"
    "\<exists>f. store (resolveUserStorageProvider u w) fname bs u = Inr f \<and>
       w' = w\<lparr>attachments := attachments w @
         [\<lparr>at_id = i, at_messageId = None, at_uploaderId = u, at_conversationId = conv,
           at_driveFileId = f, at_encryptedDek = None, at_mimeTypeHint = mime,
           at_storageProvider = resolveUserStorageProvider u w, at_originalSize = sz,
           at_encryptedSize = int (length bs), at_uploadedAt = t\<rparr>]\<rparr>"
  using assms
  by (auto simp: upload_def Let_def participant_def
      split: if_splits option.splits sum.splits)

lemma sweep_append:
  "sweep_orphans f k (xs @ ys) w = sweep_orphans f (k + length xs) ys (sweep_orphans f k xs w)"
  by (induction xs arbitrary: k w) simp_all

lemma sweep_keeps:
  assumes "\<And>k w. n \<le> k \<Longrightarrow> a \<in> set (attachments w) \<Longrightarrow> a \<in> set (attachments (f k w))"
    and "at_messageId a \<noteq> None"
  shows "n \<le> k \<Longrightarrow> a \<in> set (attachments w) \<Longrightarrow> a \<in> set (attachments (sweep_orphans f k xs w))"
proof (induction xs arbitrary: k w)
  case Nil
  then show ?case by simp
next
  case (Cons x xs)
  have "a \<in> set (attachments (f k (delete_blob x w)))" using assms(1) Cons.prems by simp
  then show ?case using assms(2) Cons.prems by (auto simp: table_simps intro!: Cons.IH)
qed

lemma sweep_alone:
  "sweep_orphans (\<lambda>_ w. w) k xs w =
     w\<lparr>attachments := delete_where (\<lambda>r. at_messageId r = None \<and> at_id r \<in> at_id ` set xs) (attachments w),
       blob_deletes := blob_deletes w @ map blob_of xs\<rparr>"
proof (induction xs arbitrary: k w)
  case Nil
  then show ?case by (simp add: delete_where_def)
next
  case (Cons x xs)
  then show ?case
    by (simp add: delete_blob_def drop_attachments_def blob_of_def delete_where_def)
      (rule arg_cong [where f = "\<lambda>l. w\<lparr>attachments := l, blob_deletes := _\<rparr>"],
       rule filter_cong, auto)
qed

lemma sweep_result:
  assumes "distinct (map at_id (attachments w))"
  shows "snd (cleanupOrphanedAttachments (\<lambda>_ w. w) False now w) =
     w\<lparr>attachments := delete_where (orphaned_at now) (attachments w),
       blob_deletes := blob_deletes w @ map blob_of (filter (orphaned_at now) (attachments w))\<rparr>"
proof -
  have "delete_where (\<lambda>r. at_messageId r = None \<and>
          at_id r \<in> at_id ` set (filter (orphaned_at now) (attachments w))) (attachments w)
        = delete_where (orphaned_at now) (attachments w)"
    unfolding delete_where_def
    by (rule filter_cong) (auto simp: orphaned_at_def dest: distinct_key_eq [OF assms])
  then show ?thesis by (simp add: cleanupOrphanedAttachments_def sweep_alone Let_def)
qed

section \<open>Properties\<close>

text \<open>A small state for the concrete checks: one conversation, one room, one message.\<close>

definition demo_conv :: conv_row where
  "demo_conv = \<lparr>cv_id = ''c'', cv_userAId = ''alice'', cv_userBId = ''bob'', cv_status = Cv_Active,
     cv_timerSeconds = None, cv_trigger = None, cv_createdAt = 0, cv_sessionEpoch = 1,
     cv_expiresAt = None, cv_temporaryCreator = None\<rparr>"

definition demo_message :: message_row where
  "demo_message = \<lparr>ms_id = ''m'', ms_conversationId = ''c'', ms_senderId = ''alice'',
     ms_sequenceNumber = 1, ms_syncVersion = 1, ms_clientMessageId = ''k'', ms_ciphertext = ''x'',
     ms_nonce = ''n'', ms_messageType = Image_Msg, ms_replyToMessageId = None, ms_sentAt = 5,
     ms_deliveredAt = None, ms_readAt = None, ms_editedAt = None, ms_deletedAt = None,
     ms_disappearAt = None\<rparr>"

definition demo_room :: room_row where
  "demo_room = \<lparr>rm_id = ''r'', rm_name = ''Room'', rm_ownerId = ''alice'', rm_codeHmac = ''h'',
     rm_codeText = None, rm_joinPolicy = Open_Join, rm_maxMembers = 5, rm_status = Rm_Active,
     rm_keyEpoch = 1, rm_joinLocked = False, rm_openKeyCiphertext = None, rm_openKeyNonce = None,
     rm_createdAt = 0, rm_updatedAt = 0\<rparr>"

definition demo_world :: world where
  "demo_world = empty_world\<lparr>conversations := [demo_conv], messages := [demo_message],
     rooms := [demo_room],
     room_members := [\<lparr>mb_id = ''mb'', mb_roomId = ''r'', mb_userId = ''alice'', mb_role = Owner_Role,
       mb_joinedAt = 0\<rparr>]\<rparr>"

lemmas demo_defs = demo_world_def demo_conv_def demo_message_def demo_room_def empty_world_def

text \<open>A file uploaded to a conversation and linked by its uploader to a message of that
  conversation is what either participant downloads, with the key and the type hint it was
  stored with, as long as the message is not deleted and the conversation has not expired.\<close>

theorem attachment_roundtrip:
  assumes up: "upload store fname i t u conv bs mime sz w = ok r w1"
    and fresh: "find_attachment i w = None"
    and stored: "\<And>p f. store p fname bs u = Inr f \<Longrightarrow> fetch p f u = Inr bs"
    and same: "attachments w2 = attachments w1"
    and link: "linkToMessage i mid conv u dek w2 = ok () w3"
    and msg: "find_message mid w3 = Some m" "ms_conversationId m = conv" "ms_deletedAt m = None"
    and conv: "find_conv conv w3 = Some c" "participant v c" "\<not> past (cv_expiresAt c) now"
  shows "download fetch now v i w3 = Inr (bs, map_option b64_encode dek, mime)"
proof -
  from upload_cases(5) [OF up] obtain f where
    f: "store (resolveUserStorageProvider u w) fname bs u = Inr f"
    and w1: "attachments w1 = attachments w @
         [\<lparr>at_id = i, at_messageId = None, at_uploaderId = u, at_conversationId = conv,
           at_driveFileId = f, at_encryptedDek = None, at_mimeTypeHint = mime,
           at_storageProvider = resolveUserStorageProvider u w, at_originalSize = sz,
           at_encryptedSize = int (length bs), at_uploadedAt = t\<rparr>]" by auto
  have "attachments w3 = update_where (\<lambda>r. at_id r = i)
          (\<lambda>r. r\<lparr>at_messageId := Some mid, at_encryptedDek := dek\<rparr>) (attachments w2)"
    using link by (auto simp: linkToMessage_def split: option.splits if_splits)
  then obtain a where a: "find_attachment i w3 = Some a" "at_messageId a = Some mid"
      "at_uploaderId a = u" "at_driveFileId a = f" "at_encryptedDek a = dek"
      "at_mimeTypeHint a = mime" "at_storageProvider a = resolveUserStorageProvider u w"
    using fresh by (auto simp: find_attachment_def same w1 find_append find_update_where)
  then show ?thesis
    using msg conv stored [OF f]
    by (simp add: download_def attachment_conv_def attached_message_def participant_def Let_def)
qed

definition demo_store :: "storage_provider \<Rightarrow> ident \<Rightarrow> bytes \<Rightarrow> ident \<Rightarrow> http_error + ident" where
  "demo_store p f bs u = Inr (f @ ''.bin'')"

definition demo_fetch :: "storage_provider \<Rightarrow> ident \<Rightarrow> ident \<Rightarrow> http_error + bytes" where
  "demo_fetch p f u = (if f = ''file.bin'' then Inr ''sealed'' else Inl (Not_Found ''Not found''))"

theorem attachment_roundtrip_witness:
  "download demo_fetch 9 ''bob'' ''a''
     (after (linkToMessage ''a'' ''m'' ''c'' ''alice'' (Some ''dek'')
       (after (upload demo_store ''file'' ''a'' 5 ''alice'' ''c'' ''sealed'' ''image'' 6 demo_world)))) =
   Inr (''sealed'', Some (b64_encode ''dek''), ''image'')"
proof -
  let ?u = "upload demo_store ''file'' ''a'' 5 ''alice'' ''c'' ''sealed'' ''image'' 6 demo_world"
  let ?l = "linkToMessage ''a'' ''m'' ''c'' ''alice'' (Some ''dek'') (after ?u)"
  have u: "?u = ok ''a'' (after ?u)" and l: "?l = ok () (after ?l)"
    by (simp_all add: upload_def linkToMessage_def demo_defs find_conv_def find_attachment_def
        find_settings_def allowed_mime_hints_def max_encrypted_size_def demo_store_def
        resolveUserStorageProvider_def)
  have m: "find_message ''m'' (after ?l) = Some demo_message"
    and c: "find_conv ''c'' (after ?l) = Some demo_conv"
    by (simp_all add: upload_def linkToMessage_def demo_defs find_conv_def find_attachment_def
        find_settings_def allowed_mime_hints_def max_encrypted_size_def demo_store_def
        resolveUserStorageProvider_def find_message_def)
  show ?thesis
    using attachment_roundtrip [OF u _ _ refl l m _ _ c, of demo_fetch "''bob''" 9]
    by (simp add: demo_defs find_attachment_def demo_store_def demo_fetch_def participant_def)
qed

text \<open>The orphan sweep is safe against a send that lands in the middle of it: an
  attachment that another handler has linked to a message before its turn comes is still there
  when the sweep ends, whatever the other handlers do in between, provided they keep it.\<close>

theorem orphan_sweep_spares_linked:
  assumes cand: "filter (orphaned_at now) (attachments w) = xs @ x # ys"
    and linked: "a \<in> set (attachments (interf (length xs) (delete_blob x (sweep_orphans interf 0 xs w))))"
      "at_messageId a \<noteq> None"
    and kept: "\<And>k w. length xs < k \<Longrightarrow> a \<in> set (attachments w) \<Longrightarrow> a \<in> set (attachments (interf k w))"
  shows "a \<in> set (attachments (snd (cleanupOrphanedAttachments interf False now w)))"
proof -
  have "sweep_orphans interf 0 (xs @ x # ys) w =
      sweep_orphans interf (Suc (length xs)) ys
       (drop_attachments (\<lambda>r. at_id r = at_id x \<and> at_messageId r = None)
          (interf (length xs) (delete_blob x (sweep_orphans interf 0 xs w))))"
    by (simp add: sweep_append)
  moreover have "a \<in> set (attachments (sweep_orphans interf (Suc (length xs)) ys
       (drop_attachments (\<lambda>r. at_id r = at_id x \<and> at_messageId r = None)
          (interf (length xs) (delete_blob x (sweep_orphans interf 0 xs w))))))"
    using linked by (intro sweep_keeps [where n = "Suc (length xs)"] kept) (auto simp: table_simps)
  ultimately show ?thesis by (simp add: cleanupOrphanedAttachments_def cand Let_def)
qed

definition demo_upload :: attachment_row where
  "demo_upload = \<lparr>at_id = ''a'', at_messageId = None, at_uploaderId = ''alice'',
     at_conversationId = ''c'', at_driveFileId = ''f'', at_encryptedDek = None,
     at_mimeTypeHint = ''image'', at_storageProvider = Managed, at_originalSize = 1,
     at_encryptedSize = 1, at_uploadedAt = 0\<rparr>"

definition link_race :: "nat \<Rightarrow> world \<Rightarrow> world" where
  "link_race k w = (if k = 0 then after (linkToMessage ''a'' ''m'' ''c'' ''alice'' None w) else w)"

theorem orphan_sweep_spares_linked_witness:
  "demo_upload\<lparr>at_messageId := Some ''m''\<rparr> \<in> set (attachments (snd
     (cleanupOrphanedAttachments link_race False 3600000 (demo_world\<lparr>attachments := [demo_upload]\<rparr>))))"
  using orphan_sweep_spares_linked [where interf = link_race and now = 3600000 and xs = "[]"
      and ys = "[]" and x = demo_upload and a = "demo_upload\<lparr>at_messageId := Some ''m''\<rparr>"
      and w = "demo_world\<lparr>attachments := [demo_upload]\<rparr>"]
  by (simp add: orphaned_at_def orphan_max_age_ms_def demo_upload_def link_race_def
      linkToMessage_def find_attachment_def)

text \<open>A file uploaded to a room never survives an hour: room messages never link an
  attachment, so the orphan sweep removes the row and asks the store to delete the blob.\<close>

theorem room_attachment_is_swept:
  assumes up: "upload store fname i t u room bs mime sz w = ok r w1"
    and room: "find_conv room w = None"
    and ids: "distinct (map at_id (attachments w1))"
    and later: "t + 60 * 60 * 1000 \<le> now"
  shows "find_attachment i (snd (cleanupOrphanedAttachments (\<lambda>_ w. w) False now w1)) = None \<and>
    download fetch now u i (snd (cleanupOrphanedAttachments (\<lambda>_ w. w) False now w1)) =
      Inl (Not_Found ''Not found'')"
proof -
  from upload_cases(5) [OF up] obtain a where a: "attachments w1 = attachments w @ [a]"
    "at_id a = i" "at_messageId a = None" "at_uploadedAt a = t" by auto
  have "find_attachment i (snd (cleanupOrphanedAttachments (\<lambda>_ w. w) False now w1)) = None"
    using a later ids
    by (auto simp: sweep_result find_attachment_def find_None_in table_simps orphaned_at_def
        orphan_max_age_ms_def image_iff)
  then show ?thesis by (simp add: download_def)
qed

theorem room_attachment_is_swept_witness:
  "find_attachment ''a'' (snd (cleanupOrphanedAttachments (\<lambda>_ w. w) False 3600005
     (after (upload demo_store ''file'' ''a'' 5 ''alice'' ''r'' ''sealed'' ''image'' 6 demo_world)))) = None"
proof -
  let ?u = "upload demo_store ''file'' ''a'' 5 ''alice'' ''r'' ''sealed'' ''image'' 6 demo_world"
  have u: "?u = ok ''a'' (after ?u)" and d: "distinct (map at_id (attachments (after ?u)))"
    and c: "find_conv ''r'' demo_world = None"
    by (simp_all add: upload_def demo_defs find_conv_def find_room_def room_member_def
        find_settings_def allowed_mime_hints_def max_encrypted_size_def demo_store_def
        resolveUserStorageProvider_def)
  show ?thesis using room_attachment_is_swept [OF u c d, of 3600005] by simp
qed

text \<open>Only a participant of an active, unexpired conversation, or a member of an active
  room, can upload, and only the two allowed types up to 25 MB; a successful upload adds exactly
  one row, not linked to any message and recorded as the caller's.\<close>

theorem upload_authorised:
  assumes "upload store fname i t u conv bs mime sz w = ok r w'"
  shows "mime \<in> {''image'', ''file''} \<and> length bs \<le> 26214400 \<and>
    ((\<exists>c. find_conv conv w = Some c \<and> participant u c \<and> cv_status c = Cv_Active \<and>
          \<not> past (cv_expiresAt c) t) \<or>
     (find_conv conv w = None \<and> (\<exists>rm. find_room conv w = Some rm \<and> rm_status rm = Rm_Active) \<and>
      room_member conv u w \<noteq> None)) \<and>
    (\<exists>a. attachments w' = attachments w @ [a] \<and> at_id a = i \<and> at_messageId a = None \<and>
         at_uploaderId a = u \<and> at_conversationId a = conv)"
  using upload_cases(2-5) [OF assms]
  by (auto simp: allowed_mime_hints_def max_encrypted_size_def)

theorem upload_authorised_witness:
  "participant ''alice'' demo_conv \<and>
   length (attachments (after (upload demo_store ''file'' ''a'' 5 ''alice'' ''c'' ''sealed''
     ''image'' 6 demo_world))) = 1"
proof -
  let ?u = "upload demo_store ''file'' ''a'' 5 ''alice'' ''c'' ''sealed'' ''image'' 6 demo_world"
  have u: "?u = ok ''a'' (after ?u)" and e: "attachments demo_world = []"
    by (simp_all add: upload_def demo_defs find_conv_def find_settings_def allowed_mime_hints_def
        max_encrypted_size_def demo_store_def resolveUserStorageProvider_def)
  have c: "find_conv ''c'' demo_world = Some demo_conv"
    by (simp add: find_conv_def demo_defs)
  show ?thesis using upload_authorised [OF u] by (auto simp: c e)
qed

end
