(* ===== verification/Policies.thy ===== *)
theory Policies
  imports World
begin

text \<open>
  The pure rules of \<open>apps/backend/src/domain/\<close>: disappearing-message timing,
  duplicate detection and sequence numbers (\<open>messageState.ts\<close>), session epochs
  (\<open>sessionEpoch.ts\<close>), login lockout (\<open>lockout.ts\<close>), pairing-code expiry and
  lockout (\<open>pairingCode.ts\<close>), device recognition (\<open>deviceIdentity.ts\<close>) and the
  user-name cooldown (\<open>username.ts\<close>). Each function takes the clock reading the
  code takes as its default argument \<open>now\<close>.
\<close>

section \<open>messageState.ts\<close>

record disappearing_config =
  dc_timerSeconds :: "int option"
  dc_trigger :: disappear_trigger
  dc_readReceiptsEnabled :: bool

definition resolveDisappearTrigger :: "disappearing_config \<Rightarrow> disappear_trigger" where
  "resolveDisappearTrigger config =
     (if dc_trigger config = Read \<and> \<not> dc_readReceiptsEnabled config then Delivered
      else dc_trigger config)"

definition computeDisappearAt ::
  "disappearing_config \<Rightarrow> instant \<Rightarrow> instant option \<Rightarrow> instant option \<Rightarrow> instant option" where
  "computeDisappearAt config sentAt deliveredAt readAt =
     (case dc_timerSeconds config of
        None \<Rightarrow> None
      | Some secs \<Rightarrow>
          if secs \<le> 0 then None
          else let trigger = resolveDisappearTrigger config;
                   anchor = (case trigger of Sent \<Rightarrow> Some sentAt
                             | Delivered \<Rightarrow> deliveredAt | Read \<Rightarrow> readAt)
               in case anchor of None \<Rightarrow> None | Some t \<Rightarrow> Some (t + secs * 1000))"

definition disappearing_options :: "int option list" where
  "disappearing_options =
     [None, Some 10, Some 30, Some 60, Some (5 * 60), Some (60 * 60), Some (24 * 60 * 60),
      Some (7 * 24 * 60 * 60)]"

record pending_send =
  ps_clientMessageId :: ident
  ps_conversationId :: ident

definition isDuplicateSend :: "ident \<Rightarrow> ident \<Rightarrow> pending_send list \<Rightarrow> bool" where
  "isDuplicateSend clientMessageId conversationId existing =
     list_ex (\<lambda>m. ps_clientMessageId m = clientMessageId \<and> ps_conversationId m = conversationId)
       existing"

definition nextSequenceNumber :: "int \<Rightarrow> int" where
  "nextSequenceNumber currentMax = currentMax + 1"

definition higherCounterValue :: "int option \<Rightarrow> int option \<Rightarrow> int" where
  "higherCounterValue maxSequenceNumber maxSyncVersion =
     (let a = (case maxSequenceNumber of None \<Rightarrow> 0 | Some x \<Rightarrow> x);
          b = (case maxSyncVersion of None \<Rightarrow> 0 | Some x \<Rightarrow> x)
      in if a > b then a else b)"

definition computeSyncGap :: "('m \<Rightarrow> int) \<Rightarrow> int \<Rightarrow> 'm list \<Rightarrow> 'm list" where
  "computeSyncGap sequenceNumber clientLastSeen serverMessages =
     sort_key sequenceNumber (filter (\<lambda>m. sequenceNumber m > clientLastSeen) serverMessages)"

section \<open>sessionEpoch.ts\<close>

definition nextEpoch :: "int \<Rightarrow> int" where
  "nextEpoch currentEpoch = currentEpoch + 1"

definition isStaleEpoch :: "int option \<Rightarrow> int \<Rightarrow> bool" where
  "isStaleEpoch claimedEpoch currentEpoch =
     (case claimedEpoch of None \<Rightarrow> True | Some e \<Rightarrow> e \<noteq> currentEpoch)"

definition isUsableForHandshake :: "conv_status \<Rightarrow> bool" where
  "isUsableForHandshake status \<longleftrightarrow> status = Cv_Active"

section \<open>lockout.ts\<close>

record login_attempt =
  la_failedLoginCount :: int
  la_lockedUntil :: "instant option"

definition lockout_threshold :: int where
  "lockout_threshold = 5"

definition base_lockout_seconds :: int where
  "base_lockout_seconds = 30"

definition isLoginLocked :: "login_attempt \<Rightarrow> instant \<Rightarrow> bool" where
  "isLoginLocked state now = (case la_lockedUntil state of None \<Rightarrow> False | Some t \<Rightarrow> now < t)"

definition recordFailedLogin :: "login_attempt \<Rightarrow> instant \<Rightarrow> login_attempt" where
  "recordFailedLogin state now =
     (let failedLoginCount = la_failedLoginCount state + 1
      in if failedLoginCount < lockout_threshold
         then \<lparr>la_failedLoginCount = failedLoginCount, la_lockedUntil = la_lockedUntil state\<rparr>
         else let timesOverThreshold = failedLoginCount - lockout_threshold + 1;
                  lockoutSeconds =
                    min (base_lockout_seconds * 2 ^ nat (timesOverThreshold - 1)) (24 * 60 * 60)
              in \<lparr>la_failedLoginCount = failedLoginCount,
                  la_lockedUntil = Some (now + lockoutSeconds * 1000)\<rparr>)"

definition clearLoginLockout :: login_attempt where
  "clearLoginLockout = \<lparr>la_failedLoginCount = 0, la_lockedUntil = None\<rparr>"

section \<open>pairingCode.ts: expiry and lockout\<close>

definition computeExpiresAt :: "int option \<Rightarrow> instant \<Rightarrow> instant option" where
  "computeExpiresAt seconds now =
     (case seconds of None \<Rightarrow> None | Some s \<Rightarrow> Some (now + s * 1000))"

definition isExpired :: "instant option \<Rightarrow> instant \<Rightarrow> bool" where
  "isExpired expiresAt now = (case expiresAt of None \<Rightarrow> False | Some t \<Rightarrow> now \<ge> t)"

record pairing_attempt =
  pa_failedAttempts :: int
  pa_lockedUntil :: "instant option"

definition max_attempts_before_lockout :: int where
  "max_attempts_before_lockout = 5"

text \<open>\<open>new Date(8640000000000000)\<close>, the last instant a JavaScript date can hold.\<close>

definition end_of_time :: instant where
  "end_of_time = 8640000000000000"

definition isLockedOut :: "pairing_attempt \<Rightarrow> instant \<Rightarrow> bool" where
  "isLockedOut state now = (case pa_lockedUntil state of None \<Rightarrow> False | Some t \<Rightarrow> now < t)"

definition recordFailedAttempt :: "pairing_attempt \<Rightarrow> pairing_attempt \<times> bool" where
  "recordFailedAttempt state =
     (let failedAttempts = pa_failedAttempts state + 1;
          mustRegenerate = failedAttempts \<ge> max_attempts_before_lockout
      in (\<lparr>pa_failedAttempts = failedAttempts,
           pa_lockedUntil = (if mustRegenerate then Some end_of_time else pa_lockedUntil state)\<rparr>,
          mustRegenerate))"

section \<open>deviceIdentity.ts\<close>

record device_keys =
  dk_id :: ident
  dk_identityDhPublic :: string
  dk_identitySigningPublic :: string

definition findMatchingDevice :: "device_keys list \<Rightarrow> string \<Rightarrow> string \<Rightarrow> device_keys option" where
  "findMatchingDevice existingDevices dhPublic signingPublic =
     find (\<lambda>d. dk_identityDhPublic d = dhPublic \<and> dk_identitySigningPublic d = signingPublic)
       existingDevices"

section \<open>username.ts: change cooldown\<close>

definition username_change_cooldown_ms :: int where
  "username_change_cooldown_ms = 90 * 24 * 60 * 60 * 1000"

definition nextUsernameChangeAllowedAt :: "instant option \<Rightarrow> instant option" where
  "nextUsernameChangeAllowedAt usernameChangedAt =
     (case usernameChangedAt of None \<Rightarrow> None | Some t \<Rightarrow> Some (t + username_change_cooldown_ms))"

definition isUsernameChangeCoolingDown :: "instant option \<Rightarrow> instant \<Rightarrow> bool" where
  "isUsernameChangeCoolingDown usernameChangedAt now =
     (case nextUsernameChangeAllowedAt usernameChangedAt of None \<Rightarrow> False | Some t \<Rightarrow> t > now)"

section \<open>Facts about the counters and epochs\<close>

lemma higherCounterValue_ge:
  "a = Some x \<Longrightarrow> x \<le> higherCounterValue a b" "b = Some y \<Longrightarrow> y \<le> higherCounterValue a b"
  by (simp_all add: higherCounterValue_def Let_def)

lemma higherCounterValue_nonneg: "0 \<le> higherCounterValue a b \<or> (a \<noteq> None \<and> b \<noteq> None)"
  by (auto simp: higherCounterValue_def Let_def split: option.splits)

lemma isStaleEpoch_iff [guard_simps]: "isStaleEpoch e cur = (e \<noteq> Some cur)"
  by (auto simp: isStaleEpoch_def split: option.splits)

lemma isUsableForHandshake_iff [guard_simps]: "isUsableForHandshake s = (s = Cv_Active)"
  by (simp add: isUsableForHandshake_def)

lemma isExpired_past [guard_simps]: "isExpired t now = past t now"
  by (auto simp: isExpired_def past_def split: option.splits)

section \<open>The lockout interface\<close>

text \<open>
  Login lockout and pairing-code lockout are two implementations of one
  contract: a failure raises the count by one, below the threshold it never
  changes who is locked, and at the threshold it locks at the instant of the
  failure. The horizon is the last instant the lock can be measured at.
\<close>

locale attempt_policy =
  fixes failures :: "'s \<Rightarrow> int"
    and locked :: "'s \<Rightarrow> instant \<Rightarrow> bool"
    and fail_at :: "'s \<Rightarrow> instant \<Rightarrow> 's"
    and threshold :: int
    and horizon :: "instant \<Rightarrow> bool"
  assumes failures_fail: "failures (fail_at s t) = failures s + 1"
    and below_keeps: "failures s + 1 < threshold \<Longrightarrow> locked (fail_at s t) now = locked s now"
    and reached_locks: "threshold \<le> failures s + 1 \<Longrightarrow> horizon t \<Longrightarrow> locked (fail_at s t) t"
begin

lemma failures_run: "failures (foldl fail_at s ts) = failures s + int (length ts)"
  by (induction ts arbitrary: s) (auto simp: failures_fail)

lemma run_below: "failures s + int (length ts) < threshold \<Longrightarrow>
    locked (foldl fail_at s ts) now = locked s now"
  by (induction ts arbitrary: s) (auto simp: failures_fail below_keeps)

lemma run_reached:
  "threshold \<le> failures s + int (length ts) + 1 \<Longrightarrow> horizon t \<Longrightarrow>
     locked (foldl fail_at s (ts @ [t])) t"
  by (simp add: failures_run reached_locks)

lemma run_characterises_lock:
  assumes "\<And>u. \<not> locked s u" and "horizon t"
  shows "locked (foldl fail_at s (ts @ [t])) t \<longleftrightarrow> threshold \<le> failures s + int (length ts) + 1"
proof (cases "threshold \<le> failures s + int (length ts) + 1")
  case True
  then show ?thesis using assms(2) run_reached by blast
next
  case False
  then have "failures s + int (length (ts @ [t])) < threshold" by simp
  then have "locked (foldl fail_at s (ts @ [t])) t = locked s t" by (rule run_below)
  then show ?thesis using False assms(1) by simp
qed

end

lemma lockout_seconds_pos:
  "0 \<le> k \<Longrightarrow> 30 \<le> min (base_lockout_seconds * 2 ^ nat k) (24 * 60 * 60 :: int)"
proof -
  have "(1::int) \<le> 2 ^ nat k" by simp
  then have "30 \<le> base_lockout_seconds * 2 ^ nat k" by (simp add: base_lockout_seconds_def)
  then show ?thesis by simp
qed

lemma recordFailedLogin_below:
  "la_failedLoginCount s + 1 < lockout_threshold \<Longrightarrow>
     recordFailedLogin s t = s\<lparr>la_failedLoginCount := la_failedLoginCount s + 1\<rparr>"
  by (simp add: recordFailedLogin_def)

lemma recordFailedLogin_reached:
  "lockout_threshold \<le> la_failedLoginCount s + 1 \<Longrightarrow>
     recordFailedLogin s t =
       \<lparr>la_failedLoginCount = la_failedLoginCount s + 1,
        la_lockedUntil = Some (t +
          min (base_lockout_seconds * 2 ^ nat (la_failedLoginCount s + 1 - lockout_threshold))
            (24 * 60 * 60) * 1000)\<rparr>"
  by (simp add: recordFailedLogin_def Let_def algebra_simps)

interpretation login_lock: attempt_policy la_failedLoginCount isLoginLocked recordFailedLogin
  lockout_threshold "\<lambda>_. True"
proof unfold_locales
  fix s :: login_attempt and t
  show "la_failedLoginCount (recordFailedLogin s t) = la_failedLoginCount s + 1"
    by (simp add: recordFailedLogin_def Let_def)
next
  fix s :: login_attempt and t now
  assume "la_failedLoginCount s + 1 < lockout_threshold"
  then show "isLoginLocked (recordFailedLogin s t) now = isLoginLocked s now"
    by (simp add: recordFailedLogin_below isLoginLocked_def)
next
  fix s :: login_attempt and t
  assume "lockout_threshold \<le> la_failedLoginCount s + 1"
  then show "isLoginLocked (recordFailedLogin s t) t"
    using lockout_seconds_pos [of "la_failedLoginCount s + 1 - lockout_threshold"]
    by (simp add: recordFailedLogin_reached isLoginLocked_def)
qed

interpretation pairing_lock: attempt_policy pa_failedAttempts isLockedOut
  "\<lambda>s _. fst (recordFailedAttempt s)" max_attempts_before_lockout "\<lambda>t. t < end_of_time"
  by unfold_locales (auto simp: recordFailedAttempt_def isLockedOut_def Let_def)

section \<open>Properties\<close>

text \<open>An account that starts with a clean record is locked, at the instant of a failed
  login, exactly when at least five logins in a row have failed; and a pairing code
  is locked exactly when five guesses have failed.\<close>

theorem lockout_after_five_failures:
  assumes "t < end_of_time"
  shows "(isLoginLocked (foldl recordFailedLogin clearLoginLockout (ts @ [t])) t \<longleftrightarrow> 4 \<le> length ts) \<and>
    (isLockedOut (foldl (\<lambda>s _. fst (recordFailedAttempt s))
       \<lparr>pa_failedAttempts = 0, pa_lockedUntil = None\<rparr> (ts @ [t])) t \<longleftrightarrow> 4 \<le> length ts)"
proof
  have "isLoginLocked (foldl recordFailedLogin clearLoginLockout (ts @ [t])) t \<longleftrightarrow>
      lockout_threshold \<le> la_failedLoginCount clearLoginLockout + int (length ts) + 1"
    by (rule login_lock.run_characterises_lock) (simp_all add: isLoginLocked_def clearLoginLockout_def)
  then show "isLoginLocked (foldl recordFailedLogin clearLoginLockout (ts @ [t])) t \<longleftrightarrow> 4 \<le> length ts"
    by (simp add: lockout_threshold_def clearLoginLockout_def)
next
  let ?s = "\<lparr>pa_failedAttempts = 0, pa_lockedUntil = None\<rparr>"
  have "isLockedOut (foldl (\<lambda>s _. fst (recordFailedAttempt s)) ?s (ts @ [t])) t \<longleftrightarrow>
      max_attempts_before_lockout \<le> pa_failedAttempts ?s + int (length ts) + 1"
    using assms by (intro pairing_lock.run_characterises_lock) (simp_all add: isLockedOut_def)
  then show "isLockedOut (foldl (\<lambda>s _. fst (recordFailedAttempt s)) ?s (ts @ [t])) t \<longleftrightarrow> 4 \<le> length ts"
    by (simp add: max_attempts_before_lockout_def)
qed

theorem lockout_after_five_failures_witness:
  "isLoginLocked (foldl recordFailedLogin clearLoginLockout ([1, 2, 3, 4] @ [5])) 5 \<and>
   \<not> isLoginLocked (foldl recordFailedLogin clearLoginLockout ([1, 2, 3] @ [4])) 4"
  using lockout_after_five_failures [of 5 "[1, 2, 3, 4]"] lockout_after_five_failures [of 4 "[1, 2, 3]"]
  by (simp add: end_of_time_def del: foldl_append)

text \<open>The lockout window of the \<open>n\<close>-th failure past the threshold is
  \<open>30 * 2^n\<close> seconds, never less than thirty seconds and never more than a day; one more
  failure at a later instant never unlocks earlier.\<close>

theorem login_lockout_window:
  assumes "lockout_threshold \<le> la_failedLoginCount s + 1" and "t \<le> t'"
  shows "\<exists>secs. la_lockedUntil (recordFailedLogin s t) = Some (t + secs * 1000) \<and>
      30 \<le> secs \<and> secs \<le> 24 * 60 * 60 \<and>
      (\<exists>secs'. la_lockedUntil (recordFailedLogin (recordFailedLogin s t) t') =
          Some (t' + secs' * 1000) \<and> secs' = min (2 * secs) (24 * 60 * 60))"
proof -
  let ?k = "la_failedLoginCount s + 1 - lockout_threshold"
  let ?secs = "min (base_lockout_seconds * 2 ^ nat ?k) (24 * 60 * 60)"
  let ?s1 = "recordFailedLogin s t"
  have s1: "la_lockedUntil ?s1 = Some (t + ?secs * 1000)"
    and n1: "la_failedLoginCount ?s1 = la_failedLoginCount s + 1"
    using assms(1) by (simp_all add: recordFailedLogin_reached)
  have k: "nat (la_failedLoginCount ?s1 + 1 - lockout_threshold) = Suc (nat ?k)"
    using assms(1) n1 by simp
  have "la_lockedUntil (recordFailedLogin ?s1 t') =
      Some (t' + min (base_lockout_seconds * 2 ^ Suc (nat ?k)) (24 * 60 * 60) * 1000)"
    using assms(1) n1 by (subst recordFailedLogin_reached) (simp_all add: k [symmetric])
  moreover have "min (base_lockout_seconds * 2 ^ Suc (nat ?k)) (24 * 60 * 60) =
      min (2 * ?secs) (24 * 60 * 60)"
    by (simp add: min_def)
  moreover have "30 \<le> ?secs" using assms(1) by (intro lockout_seconds_pos) simp
  ultimately show ?thesis using s1 by (intro exI [of _ ?secs]) auto
qed

theorem login_lockout_window_witness:
  "\<exists>secs. la_lockedUntil (recordFailedLogin \<lparr>la_failedLoginCount = 4, la_lockedUntil = None\<rparr> 0) =
     Some (0 + secs * 1000) \<and> 30 \<le> secs"
  using login_lockout_window [of "\<lparr>la_failedLoginCount = 4, la_lockedUntil = None\<rparr>" 0 1]
  by (auto simp: lockout_threshold_def)

end
