(* ===== verification/Validation.thy ===== *)
theory Validation
  imports World
begin

text \<open>
  The input rules of \<open>apps/backend/src/domain/\<close>: user names (\<open>username.ts\<close>), e-mail
  addresses (\<open>email.ts\<close>), room names and sizes (\<open>room.ts\<close>), the private-address
  filter and the entity decoder of link previews (\<open>linkPreview.ts\<close>). A regular
  expression of the source is the recursive matcher it denotes; a validator
  returns the error the source reports, \<open>None\<close> when the value is valid.
\<close>

section \<open>Character classes\<close>

definition in_range :: "nat \<Rightarrow> nat \<Rightarrow> char \<Rightarrow> bool" where
  "in_range lo hi c \<longleftrightarrow> lo \<le> of_char c \<and> of_char c \<le> hi"

definition lower_letter :: "char \<Rightarrow> bool" where
  "lower_letter c = in_range 97 122 c"

definition digit :: "char \<Rightarrow> bool" where
  "digit c = in_range 48 57 c"

definition lower_alnum :: "char \<Rightarrow> bool" where
  "lower_alnum c \<longleftrightarrow> lower_letter c \<or> digit c"

definition alnum :: "char \<Rightarrow> bool" where
  "alnum c \<longleftrightarrow> lower_alnum c \<or> in_range 65 90 c"

text \<open>\<open>value.includes(pattern)\<close>.\<close>

fun has_substring :: "string \<Rightarrow> string \<Rightarrow> bool" where
  "has_substring p [] = (p = [])"
| "has_substring p (x # xs) = (take (length p) (x # xs) = p \<or> has_substring p xs)"

section \<open>username.ts\<close>

datatype username_error =
    Username_Length | Username_At | Username_Spaces | Username_Start | Username_End
  | Username_Underscores | Username_Characters

definition normalizeUsername :: "string \<Rightarrow> string" where
  "normalizeUsername raw = to_lower (js_trim raw)"

text \<open>\<open>/^[a-z][a-z0-9]*(?:_[a-z0-9]+)*$/\<close>: after the first letter, a run of letters and
  digits in which every underscore is followed by a letter or digit.\<close>

fun username_tail :: "string \<Rightarrow> bool" where
  "username_tail [] = True"
| "username_tail (c # cs) =
     (if lower_alnum c then username_tail cs
      else c = CHR ''_'' \<and> (case cs of [] \<Rightarrow> False | d # _ \<Rightarrow> lower_alnum d \<and> username_tail cs))"

definition username_shape :: "string \<Rightarrow> bool" where
  "username_shape s = (case s of [] \<Rightarrow> False | c # cs \<Rightarrow> lower_letter c \<and> username_tail cs)"

definition validateUsername :: "string \<Rightarrow> username_error option" where
  "validateUsername v =
     (if length v < 3 \<or> length v > 30 then Some Username_Length
      else if has_substring ''@'' v then Some Username_At
      else if list_ex js_space v then Some Username_Spaces
      else if \<not> (case v of [] \<Rightarrow> False | c # _ \<Rightarrow> lower_letter c) then Some Username_Start
      else if \<not> (v \<noteq> [] \<and> lower_alnum (last v)) then Some Username_End
      else if has_substring ''__'' v then Some Username_Underscores
      else if \<not> username_shape v then Some Username_Characters
      else None)"

section \<open>email.ts\<close>

datatype email_error =
    Email_Required | Email_Length | Email_Spaces | Email_At | Email_Format | Email_Dots
  | Email_Invalid

definition normalizeEmail :: "string \<Rightarrow> string" where
  "normalizeEmail raw = to_lower (js_trim raw)"

definition email_local_char :: "char \<Rightarrow> bool" where
  "email_local_char c \<longleftrightarrow> alnum c \<or> c \<in> set ''.!#$%&'' \<or> of_char c = (39::nat) \<or>
     c \<in> set ''*+/=?^_`{|}~-''"

text \<open>A label \<open>[a-zA-Z0-9](?:[a-zA-Z0-9-]{0,61}[a-zA-Z0-9])?\<close>.\<close>

definition email_label :: "string \<Rightarrow> bool" where
  "email_label l \<longleftrightarrow> l \<noteq> [] \<and> length l \<le> 63 \<and> alnum (hd l) \<and> alnum (last l) \<and>
     list_all (\<lambda>c. alnum c \<or> c = CHR ''-'') l"

definition email_regex :: "string \<Rightarrow> bool" where
  "email_regex s =
     (case split_on (CHR ''@'') s of
        [localPart, domainPart] \<Rightarrow>
          localPart \<noteq> [] \<and> list_all email_local_char localPart \<and>
          (let labels = split_on (CHR ''.'') domainPart
           in length labels \<ge> 2 \<and> list_all email_label labels)
      | _ \<Rightarrow> False)"

definition validateEmail :: "string \<Rightarrow> email_error option" where
  "validateEmail value =
     (if value = [] then Some Email_Required
      else let trimmed = js_trim value in
        if length trimmed < 5 \<or> length trimmed > 254 then Some Email_Length
        else if list_ex js_space trimmed then Some Email_Spaces
        else if length (filter (\<lambda>c. c = CHR ''@'') trimmed) \<noteq> 1 then Some Email_At
        else (case split_on (CHR ''@'') trimmed of
            localPart # domainPart # _ \<Rightarrow>
              if localPart = [] \<or> domainPart = [] then Some Email_Format
              else if hd localPart = CHR ''.'' \<or> last localPart = CHR ''.'' \<or> has_substring ''..'' localPart
              then Some Email_Dots
              else if \<not> email_regex trimmed then Some Email_Invalid
              else None
          | _ \<Rightarrow> Some Email_Format))"

section \<open>room.ts\<close>

datatype room_name_error = Room_Name_Short | Room_Name_Long | Room_Name_Characters

definition validateRoomName :: "string \<Rightarrow> room_name_error + string" where
  "validateRoomName raw =
     (let normalized = js_trim raw in
      if length normalized < 2 then Inl Room_Name_Short
      else if length normalized > 50 then Inl Room_Name_Long
      else if list_ex (\<lambda>c. (of_char c :: nat) \<le> 31 \<or> (of_char c :: nat) = 127) normalized
      then Inl Room_Name_Characters
      else Inr normalized)"

datatype js_number = Js_Integer int | Js_Not_Integer

datatype room_size_error = Room_Size_Not_Whole | Room_Size_Small | Room_Size_Large

definition validateMaxMembers :: "js_number \<Rightarrow> room_size_error + int" where
  "validateMaxMembers raw =
     (case raw of
        Js_Not_Integer \<Rightarrow> Inl Room_Size_Not_Whole
      | Js_Integer num \<Rightarrow>
          if num < 2 then Inl Room_Size_Small
          else if num > 2000 then Inl Room_Size_Large
          else Inr num)"

section \<open>linkPreview.ts\<close>

text \<open>\<open>parseInt(s, 10)\<close>: leading white space and sign, then the longest run of digits.\<close>

fun digits_value :: "nat \<Rightarrow> string \<Rightarrow> nat" where
  "digits_value acc [] = acc"
| "digits_value acc (c # cs) =
     (if digit c then digits_value (acc * 10 + (of_char c - 48)) cs else acc)"

definition parse_digits :: "string \<Rightarrow> int option" where
  "parse_digits s =
     (case s of [] \<Rightarrow> None | c # _ \<Rightarrow> if digit c then Some (int (digits_value 0 s)) else None)"

definition js_parseInt :: "string \<Rightarrow> int option" where
  "js_parseInt s =
     (case dropWhile js_space s of
        [] \<Rightarrow> None
      | c # cs \<Rightarrow>
          if c = CHR ''-'' then map_option uminus (parse_digits cs)
          else if c = CHR ''+'' then parse_digits cs
          else parse_digits (c # cs))"

definition starts_with :: "string \<Rightarrow> string \<Rightarrow> bool" where
  "starts_with p s \<longleftrightarrow> take (length p) s = p"

definition isPrivateIp :: "string \<Rightarrow> bool" where
  "isPrivateIp ip =
     (if ip = [] then True
      else if ip = ''::1'' \<or> starts_with ''fe80:'' ip \<or> starts_with ''fc00:'' ip \<or> starts_with ''fd00:'' ip
      then True
      else (case map js_parseInt (split_on (CHR ''.'') ip) of
          [Some a, Some b, Some c, Some d] \<Rightarrow>
            if list_ex (\<lambda>p. p < 0 \<or> p > 255) [a, b, c, d] then False
            else if a = 127 then True
            else if a = 10 then True
            else if a = 172 \<and> b \<ge> 16 \<and> b \<le> 31 then True
            else if a = 192 \<and> b = 168 then True
            else if a = 169 \<and> b = 254 then True
            else if a = 0 then True
            else False
        | _ \<Rightarrow> False))"

text \<open>\<open>s.replace(/p/g, r)\<close> for a non-empty literal \<open>p\<close>.\<close>

function replace_all :: "string \<Rightarrow> string \<Rightarrow> string \<Rightarrow> string" where
  "replace_all p r s =
     (case s of [] \<Rightarrow> []
      | c # cs \<Rightarrow>
          if p \<noteq> [] \<and> take (length p) s = p then r @ replace_all p r (drop (length p) s)
          else c # replace_all p r cs)"
  by pat_completeness auto
termination
  by (relation "measure (\<lambda>(p, r, s). length s)") auto

definition decodeHtmlEntities :: "string \<Rightarrow> string" where
  "decodeHtmlEntities s =
     replace_all ''&nbsp;'' '' ''
       (replace_all ''&#39;'' [char_of (39::nat)]
         (replace_all ''&quot;'' [char_of (34::nat)]
           (replace_all ''&gt;'' ''>''
             (replace_all ''&lt;'' ''<''
               (replace_all ''&amp;'' ''&'' s)))))"

declare replace_all.simps [simp del]

section \<open>Facts about the matchers\<close>

lemma has_substring_one: "has_substring [c] s \<longleftrightarrow> c \<in> set s"
  by (induction s) auto

lemma lower_alnum_facts:
  "lower_alnum c \<Longrightarrow> \<not> js_space c \<and> c \<noteq> CHR ''@'' \<and> c \<noteq> CHR ''_''"
  by (auto simp: lower_alnum_def lower_letter_def digit_def in_range_def js_space_def Let_def)

definition username_char :: "char \<Rightarrow> bool" where
  "username_char c \<longleftrightarrow> lower_alnum c \<or> c = CHR ''_''"

lemma username_char_facts: "username_char c \<Longrightarrow> \<not> js_space c \<and> c \<noteq> CHR ''@''"
  by (auto simp: username_char_def dest: lower_alnum_facts) (simp add: js_space_def)

lemma username_tail_iff:
  "username_tail s \<longleftrightarrow>
     list_all username_char s \<and> (s \<noteq> [] \<longrightarrow> lower_alnum (last s)) \<and> \<not> has_substring ''__'' s"
proof (induction s rule: username_tail.induct)
  case 1
  then show ?case by simp
next
  case (2 c cs)
  show ?case
  proof (cases "lower_alnum c")
    case True
    then have "c \<noteq> CHR ''_''" using lower_alnum_facts by blast
    with True 2(1) show ?thesis by (auto simp: username_char_def)
  next
    case False
    show ?thesis
    proof (cases cs)
      case Nil
      then show ?thesis using False by (auto simp: username_char_def)
    next
      case (Cons d ds)
      have "lower_alnum d \<Longrightarrow> d \<noteq> CHR ''_''" using lower_alnum_facts by blast
      with False Cons 2(2) show ?thesis
        by (auto simp: username_char_def split: if_splits)
    qed
  qed
qed

text \<open>The decimal text of a number, and reading it back.\<close>

fun decimal :: "nat \<Rightarrow> string" where
  "decimal n = (if n < 10 then [char_of (n + 48)] else decimal (n div 10) @ [char_of (n mod 10 + 48)])"

declare decimal.simps [simp del]

lemma digit_char: "d < 10 \<Longrightarrow> digit (char_of (d + 48)) \<and> (of_char (char_of (d + 48)) :: nat) = d + 48"
  by (simp add: digit_def in_range_def)

lemma decimal_digits: "list_all digit (decimal n) \<and> decimal n \<noteq> []"
proof (induction n rule: decimal.induct)
  case (1 n)
  then show ?case
    using digit_char [of n] digit_char [of "n mod 10"] by (subst (1 2) decimal.simps) auto
qed

lemma digits_value_snoc:
  "list_all digit xs \<Longrightarrow> digit c \<Longrightarrow>
     digits_value acc (xs @ [c]) = digits_value acc xs * 10 + (of_char c - 48)"
  by (induction xs arbitrary: acc) auto

lemma digits_value_decimal: "digits_value 0 (decimal n) = n"
proof (induction n rule: decimal.induct)
  case (1 n)
  show ?case
  proof (cases "n < 10")
    case True
    then show ?thesis using digit_char [of n] by (subst decimal.simps) simp
  next
    case False
    have d: "digit (char_of (n mod 10 + 48))" "(of_char (char_of (n mod 10 + 48)) :: nat) = n mod 10 + 48"
      using digit_char [of "n mod 10"] by simp_all
    have "decimal n = decimal (n div 10) @ [char_of (n mod 10 + 48)]"
      using False by (subst decimal.simps) simp
    then have "digits_value 0 (decimal n) = digits_value 0 (decimal (n div 10)) * 10 + n mod 10"
      using digits_value_snoc [of "decimal (n div 10)" "char_of (n mod 10 + 48)"] decimal_digits d
      by simp
    then show ?thesis using 1 False by simp
  qed
qed

lemma digit_facts: "digit c \<Longrightarrow> \<not> js_space c \<and> c \<noteq> CHR ''-'' \<and> c \<noteq> CHR ''+'' \<and> c \<noteq> CHR ''.''
    \<and> c \<noteq> CHR '':'' \<and> \<not> lower_letter c"
  by (auto simp: digit_def in_range_def js_space_def Let_def lower_letter_def)

lemma parseInt_decimal: "js_parseInt (decimal n) = Some (int n)"
proof -
  obtain c cs where c: "decimal n = c # cs" using decimal_digits [of n] by (cases "decimal n") auto
  then have "digit c" using decimal_digits [of n] by simp
  then show ?thesis using c digit_facts [of c] digits_value_decimal [of n]
    by (simp add: js_parseInt_def parse_digits_def)
qed

definition dotted :: "nat \<Rightarrow> nat \<Rightarrow> nat \<Rightarrow> nat \<Rightarrow> string" where
  "dotted a b c d = decimal a @ ''.'' @ decimal b @ ''.'' @ decimal c @ ''.'' @ decimal d"

lemma dot_not_in_decimal: "CHR ''.'' \<notin> set (decimal n)"
  using decimal_digits [of n] digit_facts by (auto simp: list_all_iff)

lemma split_dotted:
  "split_on (CHR ''.'') (dotted a b c d) = [decimal a, decimal b, decimal c, decimal d]"
  by (simp add: dotted_def split_on_append split_on_absent dot_not_in_decimal)

lemma dotted_not_ipv6:
  "dotted a b c d \<noteq> [] \<and> dotted a b c d \<noteq> ''::1'' \<and> \<not> starts_with ''fe80:'' (dotted a b c d) \<and>
   \<not> starts_with ''fc00:'' (dotted a b c d) \<and> \<not> starts_with ''fd00:'' (dotted a b c d)"
proof -
  obtain x xs where x: "decimal a = x # xs" using decimal_digits [of a] by (cases "decimal a") auto
  then have "digit x" using decimal_digits [of a] by simp
  then have "x \<noteq> CHR '':'' \<and> x \<noteq> CHR ''f''"
    using digit_facts by (auto simp: digit_def in_range_def)
  then show ?thesis using x by (auto simp: dotted_def starts_with_def)
qed

section \<open>Properties\<close>

text \<open>The user-name validator accepts exactly the names its documentation describes: three
  to thirty characters, only lower-case letters, digits and underscores, starting with a
  letter, ending with a letter or digit, no two underscores in a row.\<close>

theorem username_rules:
  "validateUsername v = None \<longleftrightarrow>
     3 \<le> length v \<and> length v \<le> 30 \<and> list_all username_char v \<and>
     lower_letter (hd v) \<and> lower_alnum (last v) \<and> \<not> has_substring ''__'' v"
proof (cases v)
  case Nil
  then show ?thesis by (simp add: validateUsername_def)
next
  case (Cons c cs)
  have c: "lower_letter c \<Longrightarrow> lower_alnum c \<and> c \<noteq> CHR ''_''"
    using lower_alnum_facts by (auto simp: lower_alnum_def)
  have shape: "lower_letter c \<Longrightarrow> username_shape v \<longleftrightarrow>
      list_all username_char v \<and> lower_alnum (last v) \<and> \<not> has_substring ''__'' v"
    using Cons c by (auto simp: username_shape_def username_tail_iff username_char_def)
  have clean: "list_all username_char v \<Longrightarrow> CHR ''@'' \<notin> set v \<and> \<not> list_ex js_space v"
    using username_char_facts by (auto simp: list_all_iff list_ex_iff)
  show ?thesis
    using Cons shape clean by (auto simp: validateUsername_def has_substring_one not_less)
qed

definition ipv4 :: "nat \<Rightarrow> nat \<Rightarrow> nat \<Rightarrow> nat \<Rightarrow> nat" where
  "ipv4 a b c d = ((a * 256 + b) * 256 + c) * 256 + d"

definition in_cidr :: "nat \<Rightarrow> nat \<times> nat \<Rightarrow> bool" where
  "in_cidr ip block \<longleftrightarrow> ip div 2 ^ (32 - snd block) = fst block div 2 ^ (32 - snd block)"

definition private_blocks :: "(nat \<times> nat) list" where
  "private_blocks =
     [(ipv4 127 0 0 0, 8), (ipv4 10 0 0 0, 8), (ipv4 172 16 0 0, 12), (ipv4 192 168 0 0, 16),
      (ipv4 169 254 0 0, 16), (ipv4 0 0 0 0, 8)]"

lemma digits_eq: "k < m \<Longrightarrow> q < m \<Longrightarrow> a * m + k = p * m + q \<longleftrightarrow> a = p \<and> k = (q::nat)"
proof
  assume m: "k < m" "q < m" and e: "a * m + k = p * m + q"
  have "(a * m + k) div m = a" "(a * m + k) mod m = k" "(p * m + q) div m = p" "(p * m + q) mod m = q"
    using m by simp_all
  with e show "a = p \<and> k = q" by metis
qed simp

lemma ipv4_div:
  assumes "b < 256" "c < 256" "d < 256"
  shows "ipv4 a b c d div 16777216 = a" "ipv4 a b c d div 65536 = a * 256 + b"
    "ipv4 a b c d div 1048576 = a * 16 + b div 16"
proof -
  have 1: "ipv4 a b c d = (a * 256 + b) * 65536 + (c * 256 + d)" by (simp add: ipv4_def)
  have "c * 256 + d < 65536" using assms by linarith
  then show 2: "ipv4 a b c d div 65536 = a * 256 + b" by (simp add: 1)
  have "ipv4 a b c d div 16777216 = ipv4 a b c d div 65536 div 256"
    by (simp add: div_mult2_eq [symmetric])
  then show "ipv4 a b c d div 16777216 = a" using assms by (simp add: 2)
  have "ipv4 a b c d div 1048576 = ipv4 a b c d div 65536 div 16"
    by (simp add: div_mult2_eq [symmetric])
  then show "ipv4 a b c d div 1048576 = a * 16 + b div 16" by (simp add: 2)
qed

text \<open>On every dotted IPv4 address the link-preview filter is the membership test in
  127.0.0.0/8, 10.0.0.0/8, 172.16.0.0/12, 192.168.0.0/16, 169.254.0.0/16 and 0.0.0.0/8.\<close>

theorem private_ipv4_blocks:
  assumes "a < 256" "b < 256" "c < 256" "d < 256"
  shows "isPrivateIp (dotted a b c d) \<longleftrightarrow> list_ex (in_cidr (ipv4 a b c d)) private_blocks"
proof -
  have code: "isPrivateIp (dotted a b c d) \<longleftrightarrow>
      a = 127 \<or> a = 10 \<or> (a = 172 \<and> 16 \<le> b \<and> b \<le> 31) \<or> (a = 192 \<and> b = 168) \<or>
      (a = 169 \<and> b = 254) \<or> a = 0"
    using assms dotted_not_ipv6 [of a b c d]
    by (simp add: isPrivateIp_def split_dotted parseInt_decimal)
  have "a * 16 + b div 16 = 2753 \<longleftrightarrow> a = 172 \<and> 16 \<le> b \<and> b \<le> 31"
  proof -
    have "b div 16 < 16" using assms by auto
    then have "a * 16 + b div 16 = 2753 \<longleftrightarrow> a = 172 \<and> b div 16 = 1"
      using digits_eq [of "b div 16" 16 1 a 172] by simp
    moreover have "b div 16 = 1 \<longleftrightarrow> 16 \<le> b \<and> b \<le> 31" by auto
    ultimately show ?thesis by simp
  qed
  moreover have "a * 256 + b = 49320 \<longleftrightarrow> a = 192 \<and> b = 168" "a * 256 + b = 43518 \<longleftrightarrow> a = 169 \<and> b = 254"
    using digits_eq [of b 256 168 a 192] digits_eq [of b 256 254 a 169] assms by simp_all
  ultimately show ?thesis
    using code by (auto simp: private_blocks_def in_cidr_def ipv4_div [OF assms(2-4)] ipv4_div)
qed

theorem private_ipv4_blocks_witness:
  "isPrivateIp (dotted 172 20 3 4) \<and> \<not> isPrivateIp (dotted 172 32 3 4)"
  using private_ipv4_blocks [of 172 20 3 4] private_ipv4_blocks [of 172 32 3 4]
  by (simp add: private_blocks_def in_cidr_def ipv4_def)

text \<open>The private-address filter lets loopback through when it is written as an IPv4-mapped
  IPv6 address, and unique-local addresses whose first group is not literally fc00 or fd00.\<close>

theorem mapped_loopback_not_private:
  "\<not> isPrivateIp ''::ffff:127.0.0.1'' \<and> \<not> isPrivateIp ''fd12:3456::1'' \<and> isPrivateIp ''127.0.0.1''"
  by (simp add: isPrivateIp_def starts_with_def js_parseInt_def parse_digits_def js_space_def
      digit_def in_range_def)

text \<open>The entity decoder decodes twice: text that was escaped correctly, so that it shows a
  literal entity, comes out as the character the entity names.\<close>

theorem entity_decoder_decodes_twice:
  "decodeHtmlEntities ''&amp;lt;script&amp;gt;'' = ''<script>''"
  by (simp add: decodeHtmlEntities_def replace_all.simps)

end
