(* ===== verification/Conversations.thy ===== *)
theory Conversations
  imports Attachments Policies Validation
begin

text \<open>
  One-to-one conversations: \<open>conversations/conversations.service.ts\<close>. Where a
  handler reads the clock more than once, each reading is an argument of its
  own. Every handler first loads the conversation; one whose expiry has passed
  is destroyed on the way.
\<close>

section \<open>Destroying a conversation\<close>

text \<open>
  The transaction that erases a conversation. Deleting the messages deletes the
  attachments linked to them (\<open>onDelete: Cascade\<close> of \<open>Attachment.message\<close>). Every
  caller has just read the conversation row, so its update finds it.
\<close>

definition destroy_rows :: "ident \<Rightarrow> world \<Rightarrow> world" where
  "destroy_rows cid w =
     w\<lparr>attachments := delete_where
         (\<lambda>a. at_conversationId a = cid \<or>
              list_ex (\<lambda>m. ms_conversationId m = cid \<and> at_messageId a = Some (ms_id m)) (messages w))
         (attachments w),
       messages := delete_where (\<lambda>m. ms_conversationId m = cid) (messages w),
       pending_handshakes := delete_where (\<lambda>h. hs_conversationId h = cid) (pending_handshakes w),
       conversations := update_where (\<lambda>c. cv_id c = cid) (\<lambda>c. c\<lparr>cv_status := Cv_Deleted\<rparr>)
         (conversations w)\<rparr>"

definition internalExpireAndDestroy :: "conv_row \<Rightarrow> world \<Rightarrow> world" where
  "internalExpireAndDestroy convo w =
     (if cv_status convo = Cv_Deleted then w
      else push_all [cv_userAId convo, cv_userBId convo] (Temporary_Chat_Expired (cv_id convo))
             (destroy_rows (cv_id convo) (purgeDriveFilesForConversation (cv_id convo) w)))"

section \<open>Handlers\<close>

definition getOwnedConversation :: "instant \<Rightarrow> ident \<Rightarrow> ident \<Rightarrow> world \<Rightarrow> conv_row res" where
  "getOwnedConversation now userId conversationId w =
     (case find_conv conversationId w of
        None \<Rightarrow> fail (Not_Found ''Not found'') w
      | Some convo \<Rightarrow>
          if cv_userAId convo \<noteq> userId \<and> cv_userBId convo \<noteq> userId
          then fail (Not_Found ''Not found'') w
          else if past (cv_expiresAt convo) now \<and> cv_status convo \<noteq> Cv_Deleted
          then ok (convo\<lparr>cv_status := Cv_Deleted\<rparr>) (internalExpireAndDestroy convo w)
          else ok convo w)"

definition last_seen_enabled :: "ident \<Rightarrow> world \<Rightarrow> bool" where
  "last_seen_enabled u w =
     (case find_settings u w of None \<Rightarrow> True | Some s \<Rightarrow> st_lastSeenEnabled s)"

record conversation_view =
  vw_id :: ident
  vw_userAId :: ident
  vw_userBId :: ident
  vw_status :: conv_status
  vw_timerSeconds :: "int option"
  vw_trigger :: "disappear_trigger option"
  vw_sessionEpoch :: int
  vw_expiresAt :: "instant option"
  vw_isTemporary :: bool
  vw_isCreator :: bool
  vw_temporaryCreator :: "ident option"
  vw_createdAt :: instant
  vw_unreadCount :: nat
  vw_otherUser :: "user_brief option"
  vw_isOnline :: "bool option"
  vw_lastSeenAt :: "instant option"

definition unread_count :: "ident \<Rightarrow> ident \<Rightarrow> world \<Rightarrow> nat" where
  "unread_count userId cid w =
     length (filter (\<lambda>m. ms_conversationId m = cid \<and> ms_senderId m \<noteq> userId \<and>
                         ms_readAt m = None \<and> ms_deletedAt m = None) (messages w))"

definition can_see_last_seen :: "ident \<Rightarrow> ident \<Rightarrow> world \<Rightarrow> bool" where
  "can_see_last_seen userId otherId w \<longleftrightarrow> last_seen_enabled userId w \<and> last_seen_enabled otherId w"

definition view_of :: "ident \<Rightarrow> world \<Rightarrow> conv_row \<Rightarrow> conversation_view" where
  "view_of userId w c =
     (let otherId = other_party userId c;
          canSeeLastSeen = can_see_last_seen userId otherId w
      in \<lparr>vw_id = cv_id c, vw_userAId = cv_userAId c, vw_userBId = cv_userBId c,
          vw_status = cv_status c, vw_timerSeconds = cv_timerSeconds c, vw_trigger = cv_trigger c,
          vw_sessionEpoch = cv_sessionEpoch c, vw_expiresAt = cv_expiresAt c,
          vw_isTemporary = (cv_expiresAt c \<noteq> None),
          vw_isCreator = (cv_temporaryCreator c = Some userId),
          vw_temporaryCreator = cv_temporaryCreator c, vw_createdAt = cv_createdAt c,
          vw_unreadCount = unread_count userId (cv_id c) w,
          vw_otherUser = user_brief_of otherId w,
          vw_isOnline = (if canSeeLastSeen then Some (isOnline otherId w) else None),
          vw_lastSeenAt =
            (if canSeeLastSeen then map_option dv_lastSeenAt (active_device otherId w) else None)\<rparr>)"

definition expired_for :: "ident \<Rightarrow> instant \<Rightarrow> world \<Rightarrow> conv_row list" where
  "expired_for userId now w =
     filter (\<lambda>c. participant userId c \<and> cv_status c \<noteq> Cv_Deleted \<and> past (cv_expiresAt c) now)
       (conversations w)"

text \<open>\<open>ConversationsService.list\<close>, newest conversation first.\<close>

definition list_conversations :: "instant \<Rightarrow> ident \<Rightarrow> world \<Rightarrow> conversation_view list \<times> world" where
  "list_conversations now userId w =
     (let w1 = foldl (\<lambda>w ec. internalExpireAndDestroy ec w) w (expired_for userId now w);
          convos = sort_key (\<lambda>c. - cv_createdAt c)
            (filter (\<lambda>c. participant userId c \<and> cv_status c \<noteq> Cv_Deleted \<and>
                         \<not> past (cv_expiresAt c) now) (conversations w1))
      in (map (view_of userId w1) convos, w1))"

record status_view =
  sv_id :: ident
  sv_status :: conv_status
  sv_sessionEpoch :: int
  sv_expiresAt :: "instant option"
  sv_isTemporary :: bool
  sv_isCreator :: bool
  sv_temporaryCreator :: "ident option"
  sv_isExpired :: bool
  sv_otherUser :: "user_brief option"
  sv_isOnline :: "bool option"
  sv_lastSeenAt :: "instant option"

definition getStatus :: "instant \<Rightarrow> instant \<Rightarrow> ident \<Rightarrow> ident \<Rightarrow> world \<Rightarrow> status_view res" where
  "getStatus now now' userId conversationId w =
     (case getOwnedConversation now userId conversationId w of
        (Inl e, w1) \<Rightarrow> fail e w1
      | (Inr convo, w1) \<Rightarrow>
          let otherId = other_party userId convo;
              canSeeLastSeen = can_see_last_seen userId otherId w1
          in ok \<lparr>sv_id = cv_id convo, sv_status = cv_status convo,
                 sv_sessionEpoch = cv_sessionEpoch convo, sv_expiresAt = cv_expiresAt convo,
                 sv_isTemporary = (cv_expiresAt convo \<noteq> None),
                 sv_isCreator = (cv_temporaryCreator convo = Some userId),
                 sv_temporaryCreator = cv_temporaryCreator convo,
                 sv_isExpired = (cv_status convo = Cv_Deleted \<or> past (cv_expiresAt convo) now'),
                 sv_otherUser = user_brief_of otherId w1,
                 sv_isOnline = (if canSeeLastSeen then Some (isOnline otherId w1) else None),
                 sv_lastSeenAt = (if canSeeLastSeen
                    then map_option dv_lastSeenAt (active_device otherId w1) else None)\<rparr> w1)"

definition block :: "instant \<Rightarrow> ident \<Rightarrow> ident \<Rightarrow> world \<Rightarrow> unit res" where
  "block now userId conversationId w =
     (case getOwnedConversation now userId conversationId w of
        (Inl e, w1) \<Rightarrow> fail e w1
      | (Inr convo, w1) \<Rightarrow>
          let status = (if cv_userAId convo = userId then Cv_Blocked_By_A else Cv_Blocked_By_B)
          in ok () (set_conv conversationId (\<lambda>c. c\<lparr>cv_status := status\<rparr>) w1))"

definition unblock :: "instant \<Rightarrow> ident \<Rightarrow> ident \<Rightarrow> world \<Rightarrow> unit res" where
  "unblock now userId conversationId w =
     (case getOwnedConversation now userId conversationId w of
        (Inl e, w1) \<Rightarrow> fail e w1
      | (Inr convo, w1) \<Rightarrow>
          let blockedByThisUser =
                (cv_userAId convo = userId \<and> cv_status convo = Cv_Blocked_By_A) \<or>
                (cv_userBId convo = userId \<and> cv_status convo = Cv_Blocked_By_B)
          in if \<not> blockedByThisUser then fail (Forbidden ''Only the user who blocked can unblock'') w1
             else ok () (set_conv conversationId (\<lambda>c. c\<lparr>cv_status := Cv_Active\<rparr>) w1))"

definition burn :: "crypto \<Rightarrow> instant \<Rightarrow> ident \<Rightarrow> ident \<Rightarrow> string option \<Rightarrow> world \<Rightarrow> unit res" where
  "burn C now userId conversationId password w =
     (case getOwnedConversation now userId conversationId w of
        (Inl e, w1) \<Rightarrow> fail e w1
      | (Inr convo, w1) \<Rightarrow>
          (case Option.bind (find_settings userId w1) st_burnPasswordHash of
             None \<Rightarrow> fail (Unauthorized ''Burn Password is not configured'') w1
           | Some h \<Rightarrow>
               if h = '''' then fail (Unauthorized ''Burn Password is not configured'') w1
               else case password of
                 None \<Rightarrow> fail (Unauthorized ''Incorrect Burn Password'') w1
               | Some pw \<Rightarrow>
                   if pw = '''' then fail (Unauthorized ''Incorrect Burn Password'') w1
                   else case verifyPassword C pw h of
                     Inl e \<Rightarrow> fail e w1
                   | Inr verified \<Rightarrow>
                       if \<not> verified then fail (Unauthorized ''Incorrect Burn Password'') w1
                       else ok () (push (other_party userId convo) (Conversation_Burned conversationId)
                              (destroy_rows conversationId
                                (purgeDriveFilesForConversation conversationId w1)))))"

definition setDisappearingTimer ::
  "instant \<Rightarrow> ident \<Rightarrow> ident \<Rightarrow> int option \<Rightarrow> disappear_trigger \<Rightarrow> world \<Rightarrow> unit res" where
  "setDisappearingTimer now userId conversationId timerSeconds trigger w =
     (case getOwnedConversation now userId conversationId w of
        (Inl e, w1) \<Rightarrow> fail e w1
      | (Inr _, w1) \<Rightarrow>
          ok () (set_conv conversationId
            (\<lambda>c. c\<lparr>cv_timerSeconds := timerSeconds,
                   cv_trigger := (if timerSeconds = None \<or> timerSeconds = Some 0 then None
                                  else Some trigger)\<rparr>) w1))"

definition max_extension_ms :: int where
  "max_extension_ms = 90 * 24 * 60 * 60 * 1000"

definition extendTemporaryChat ::
  "instant \<Rightarrow> instant \<Rightarrow> instant \<Rightarrow> ident \<Rightarrow> ident \<Rightarrow> js_number \<Rightarrow> world \<Rightarrow> instant res" where
  "extendTemporaryChat now now' now'' userId conversationId durationSeconds w =
     (case getOwnedConversation now userId conversationId w of
        (Inl e, w1) \<Rightarrow> fail e w1
      | (Inr convo, w1) \<Rightarrow>
          if cv_status convo = Cv_Deleted
          then fail (Bad_Request ''Conversation has already expired'') w1
          else case cv_expiresAt convo of
            None \<Rightarrow> fail (Bad_Request ''This conversation is permanent and cannot be extended'') w1
          | Some expiresAt \<Rightarrow>
              if expiresAt \<le> now' then fail (Bad_Request ''Conversation has already expired'') w1
              else if cv_temporaryCreator convo \<noteq> Some userId
              then fail (Forbidden ''Only the creator of the temporary chat can extend its duration'') w1
              else case durationSeconds of
                Js_Not_Integer \<Rightarrow>
                  fail (Bad_Request ''Extension duration must be a positive integer in seconds'') w1
              | Js_Integer d \<Rightarrow>
                  if d \<le> 0
                  then fail (Bad_Request ''Extension duration must be a positive integer in seconds'') w1
                  else let newExpiresAtMs = expiresAt + d * 1000;
                           maxAllowedMs = now'' + max_extension_ms
                       in if newExpiresAtMs > maxAllowedMs
                          then fail (Bad_Request ''Total lifetime cannot exceed 90 days from now'') w1
                          else ok newExpiresAtMs
                            (push_all [cv_userAId convo, cv_userBId convo]
                               (Temporary_Chat_Expiry_Updated conversationId newExpiresAtMs)
                               (set_conv conversationId
                                  (\<lambda>c. c\<lparr>cv_expiresAt := Some newExpiresAtMs\<rparr>) w1)))"

section \<open>The contract of a destroyer\<close>

text \<open>
  Three code paths erase a conversation: the expiry check of this service, the
  expiry path of the message service, and burn. They differ in the event they
  push and in when they apply; the contract they share is that the stored
  content of that conversation is gone, that every blob of it has been handed
  to its store for deletion, and that the rest of the tables is as before.
\<close>

locale destroyer =
  fixes destroy :: "conv_row \<Rightarrow> world \<Rightarrow> world"
    and applies :: "conv_row \<Rightarrow> bool"
  assumes tables: "applies c \<Longrightarrow> \<exists>l.
    destroy c w = (destroy_rows (cv_id c) (purgeDriveFilesForConversation (cv_id c) w))\<lparr>emitted := l\<rparr>"
begin

lemma messages_after: "applies c \<Longrightarrow>
    messages (destroy c w) = delete_where (\<lambda>m. ms_conversationId m = cv_id c) (messages w)"
  using tables [of c w] by (auto simp: destroy_rows_def purge_log)

lemma attachments_after: "applies c \<Longrightarrow> a \<in> set (attachments (destroy c w)) \<Longrightarrow>
    a \<in> set (attachments w) \<and> at_conversationId a \<noteq> cv_id c"
  using tables [of c w] by (auto simp: destroy_rows_def purge_log table_simps)

lemma attachments_kept: "applies c \<Longrightarrow> a \<in> set (attachments w) \<Longrightarrow>
    at_conversationId a \<noteq> cv_id c \<Longrightarrow>
    (\<And>m. m \<in> set (messages w) \<Longrightarrow> ms_conversationId m = cv_id c \<Longrightarrow> at_messageId a \<noteq> Some (ms_id m)) \<Longrightarrow>
    a \<in> set (attachments (destroy c w))"
  using tables [of c w] by (auto simp: destroy_rows_def purge_log table_simps list_ex_iff)

lemma handshakes_after: "applies c \<Longrightarrow> pending_handshakes (destroy c w) =
    delete_where (\<lambda>h. hs_conversationId h = cv_id c) (pending_handshakes w)"
  using tables [of c w] by (auto simp: destroy_rows_def purge_log)

lemma conversations_after: "applies c \<Longrightarrow> conversations (destroy c w) =
    update_where (\<lambda>d. cv_id d = cv_id c) (\<lambda>d. d\<lparr>cv_status := Cv_Deleted\<rparr>) (conversations w)"
  using tables [of c w] by (auto simp: destroy_rows_def purge_log)

lemma blobs_after: "applies c \<Longrightarrow> a \<in> set (attachments w) \<Longrightarrow> at_conversationId a = cv_id c \<Longrightarrow>
    blob_of a \<in> set (blob_deletes (destroy c w))"
  using tables [of c w] by (auto simp: destroy_rows_def purge_log)

lemma find_conv_after: "applies c \<Longrightarrow> find_conv i (destroy c w) =
    map_option (\<lambda>d. if cv_id d = cv_id c then d\<lparr>cv_status := Cv_Deleted\<rparr> else d) (find_conv i w)"
  by (simp add: find_conv_def conversations_after find_update_where)

text \<open>Everything a reader of conversation \<open>c\<close> could still be served is gone.\<close>

lemma erased: "applies c \<Longrightarrow>
    (\<forall>m \<in> set (messages (destroy c w)). ms_conversationId m \<noteq> cv_id c) \<and>
    (\<forall>a \<in> set (attachments (destroy c w)). at_conversationId a \<noteq> cv_id c) \<and>
    (\<forall>h \<in> set (pending_handshakes (destroy c w)). hs_conversationId h \<noteq> cv_id c)"
  by (auto simp: messages_after handshakes_after table_simps dest: attachments_after)

lemma other_messages: "applies c \<Longrightarrow> i \<noteq> cv_id c \<Longrightarrow>
    filter (\<lambda>m. ms_conversationId m = i) (messages (destroy c w)) =
    filter (\<lambda>m. ms_conversationId m = i) (messages w)"
  by (simp add: messages_after delete_where_def) (rule filter_cong, auto)

end

lemma internalExpire_destroys:
  "cv_status c \<noteq> Cv_Deleted \<Longrightarrow> \<exists>l. internalExpireAndDestroy c w =
     (destroy_rows (cv_id c) (purgeDriveFilesForConversation (cv_id c) w))\<lparr>emitted := l\<rparr>"
  by (simp add: internalExpireAndDestroy_def) (intro exI, rule push_all_log)

interpretation expire: destroyer internalExpireAndDestroy "\<lambda>c. cv_status c \<noteq> Cv_Deleted"
  by unfold_locales (rule internalExpire_destroys)

interpretation burning: destroyer
  "\<lambda>c w. push u (Conversation_Burned (cv_id c))
     (destroy_rows (cv_id c) (purgeDriveFilesForConversation (cv_id c) w))" "\<lambda>c. True" for u
  by unfold_locales (intro exI, rule push_log)

section \<open>Facts about the handlers\<close>

lemma getOwned_cases:
  assumes "getOwnedConversation now u cid w = ok c w1"
  shows "\<exists>c0. find_conv cid w = Some c0 \<and> participant u c0 \<and> cv_id c0 = cid \<and>
    ((\<not> past (cv_expiresAt c0) now \<or> cv_status c0 = Cv_Deleted) \<and> c = c0 \<and> w1 = w \<or>
     past (cv_expiresAt c0) now \<and> cv_status c0 \<noteq> Cv_Deleted \<and> c = c0\<lparr>cv_status := Cv_Deleted\<rparr> \<and>
       w1 = internalExpireAndDestroy c0 w)"
  using assms
  by (auto simp: getOwnedConversation_def participant_def split: option.splits if_splits
      dest: find_conv_Some)

lemma getOwned_row:
  assumes "getOwnedConversation now u cid w = ok c w1"
  shows "find_conv cid w1 = Some c" "participant u c" "cv_id c = cid"
  using getOwned_cases [OF assms]
  by (auto simp: expire.find_conv_after participant_def)

lemma getOwned_fails:
  "getOwnedConversation now u cid w = (Inl e, w1) \<Longrightarrow> e = Not_Found ''Not found'' \<and> w1 = w"
  by (auto simp: getOwnedConversation_def split: option.splits if_splits)

lemma getOwned_live:
  "find_conv cid w = Some c \<Longrightarrow> participant u c \<Longrightarrow> \<not> past (cv_expiresAt c) now \<Longrightarrow>
     getOwnedConversation now u cid w = ok c w"
  by (auto simp: getOwnedConversation_def participant_def)

lemma getOwned_deleted:
  "find_conv cid w = Some c \<Longrightarrow> participant u c \<Longrightarrow> cv_status c = Cv_Deleted \<Longrightarrow>
     getOwnedConversation now u cid w = ok c w"
  by (auto simp: getOwnedConversation_def participant_def)

lemma getOwned_stranger:
  "\<not> (\<exists>c. find_conv cid w = Some c \<and> participant u c) \<Longrightarrow>
     getOwnedConversation now u cid w = fail (Not_Found ''Not found'') w"
  by (auto simp: getOwnedConversation_def participant_def split: option.splits)

lemma internalExpire_settings [simp]:
  "find_settings u (internalExpireAndDestroy c w) = find_settings u w"
  "users (internalExpireAndDestroy c w) = users w"
  by (simp_all add: internalExpireAndDestroy_def push_all_log destroy_rows_def purge_log
      find_settings_def)

lemma find_settings_getOwned:
  "find_settings u (after (getOwnedConversation now v cid w)) = find_settings u w"
  by (auto simp: getOwnedConversation_def split: option.splits)

lemma burn_success:
  assumes "burn C now u cid pw w = ok r w'"
  obtains c w1 h p where "getOwnedConversation now u cid w = ok c w1"
    and "w' = push (other_party u c) (Conversation_Burned cid)
               (destroy_rows cid (purgeDriveFilesForConversation cid w1))"
    and "Option.bind (find_settings u w) st_burnPasswordHash = Some h"
    and "pw = Some p" "p \<noteq> ''''" "verifyPassword C p h = Inr True"
proof -
  obtain c w1 where g: "getOwnedConversation now u cid w = ok c w1"
    using assms by (auto simp: burn_def split: prod.splits sum.splits)
  have st: "find_settings u w1 = find_settings u w"
    using find_settings_getOwned [of u now u cid w] g by simp
  from assms show ?thesis
    by (auto simp: burn_def g st split: option.splits sum.splits if_splits intro!: that)
qed

section \<open>Properties\<close>


definition demo_settings :: "ident \<Rightarrow> bool \<Rightarrow> settings_row" where
  "demo_settings u lastSeen = \<lparr>st_userId = u, st_readReceiptsEnabled = True,
     st_typingIndicatorEnabled = True, st_notificationContentVisible = False,
     st_usernameSearchEnabled = True, st_lastSeenEnabled = lastSeen, st_accentColor = None,
     st_appLockEnabled = False, st_appLockTimeoutSeconds = 60, st_appLockMethod = None,
     st_screenshotProtectionEnabled = False, st_storageProvider = Managed,
     st_burnPasswordHash = Some (plain_hash ''salt'' ''boom''), st_chatLockPasswordHash = None,
     st_hideChatPasswordHash = None\<rparr>"

definition demo_burn_world :: world where
  "demo_burn_world = demo_world\<lparr>user_settings := [demo_settings ''alice'' True],
     attachments := [demo_upload]\<rparr>"

lemmas conv_lookup_defs = find_conv_def find_settings_def participant_def other_party_def past_def


text \<open>A temporary chat can be prolonged only by its creator, while it is live, by a whole
  positive number of seconds, and never beyond ninety days from the moment of the call; on
  success the stored expiry is the old one plus exactly that duration and no other conversation
  changes; on failure of any guard no conversation's expiry changes.\<close>

theorem extend_bounded:
  assumes "extendTemporaryChat t t' t'' u cid d w = (res, w')"
  shows "case res of
      Inr e \<Rightarrow> (\<exists>c n old. find_conv cid w = Some c \<and> participant u c \<and>
         cv_temporaryCreator c = Some u \<and> cv_status c \<noteq> Cv_Deleted \<and>
         cv_expiresAt c = Some old \<and> t < old \<and> t' < old \<and> d = Js_Integer n \<and> 0 < n \<and>
         e = old + n * 1000 \<and> e \<le> t'' + 7776000000 \<and>
         conversations w' = update_where (\<lambda>c. cv_id c = cid) (\<lambda>c. c\<lparr>cv_expiresAt := Some e\<rparr>)
           (conversations w))
    | Inl x \<Rightarrow> map cv_expiresAt (conversations w') = map cv_expiresAt (conversations w)"
proof (cases res)
  case (Inl x)
  then have "w' = after (getOwnedConversation t u cid w)"
    using assms by (auto simp: extendTemporaryChat_def Let_def
        split: prod.splits sum.splits option.splits if_splits js_number.splits)
  then show ?thesis using Inl
    by (auto simp: getOwnedConversation_def expire.conversations_after map_update_where
        split: option.splits)
next
  case (Inr e)
  then obtain c w1 where g: "getOwnedConversation t u cid w = ok c w1"
    using assms by (auto simp: extendTemporaryChat_def split: prod.splits sum.splits)
  have live: "cv_status c \<noteq> Cv_Deleted" using assms Inr by (auto simp: extendTemporaryChat_def g)
  then have c: "find_conv cid w = Some c" "participant u c" "\<not> past (cv_expiresAt c) t" "w1 = w"
    using getOwned_cases [OF g] by auto
  with assms Inr live show ?thesis
    by (auto simp: extendTemporaryChat_def g max_extension_ms_def set_conv_def Let_def
        split: option.splits if_splits js_number.splits)
qed

definition demo_temporary :: conv_row where
  "demo_temporary = demo_conv\<lparr>cv_expiresAt := Some 100000, cv_temporaryCreator := Some ''alice''\<rparr>"

definition demo_temporary_world :: world where
  "demo_temporary_world = demo_world\<lparr>conversations := [demo_temporary],
     user_settings := [demo_settings ''alice'' True]\<rparr>"

theorem extend_bounded_witness:
  "out (extendTemporaryChat 1 2 3 ''alice'' ''c'' (Js_Integer 60) demo_temporary_world) = Inr 160000 \<and>
   conversations (after (extendTemporaryChat 1 2 3 ''alice'' ''c'' (Js_Integer 60) demo_temporary_world)) =
     [demo_temporary\<lparr>cv_expiresAt := Some 160000\<rparr>] \<and>
   out (extendTemporaryChat 1 2 3 ''alice'' ''c'' (Js_Integer 7776000) demo_temporary_world) =
     Inl (Bad_Request ''Total lifetime cannot exceed 90 days from now'')"
proof -
  have row: "find_conv ''c'' demo_temporary_world = Some demo_temporary" "participant ''alice'' demo_temporary"
      "\<not> past (cv_expiresAt demo_temporary) 1"
    by (simp_all add: conv_lookup_defs demo_temporary_world_def demo_temporary_def demo_defs)

  have "extendTemporaryChat 1 2 3 ''alice'' ''c'' (Js_Integer 60) demo_temporary_world =
      (Inr 160000, after (extendTemporaryChat 1 2 3 ''alice'' ''c'' (Js_Integer 60) demo_temporary_world))"
    by (simp add: extendTemporaryChat_def getOwned_live [OF row])
      (simp add: demo_temporary_def demo_defs max_extension_ms_def)
  from extend_bounded [OF this]
  have "conversations (after (extendTemporaryChat 1 2 3 ''alice'' ''c'' (Js_Integer 60) demo_temporary_world)) =
     update_where (\<lambda>c. cv_id c = ''c'') (\<lambda>c. c\<lparr>cv_expiresAt := Some 160000\<rparr>)
       (conversations demo_temporary_world)"
    by (simp only: sum.case) blast
  then have "conversations (after (extendTemporaryChat 1 2 3 ''alice'' ''c'' (Js_Integer 60) demo_temporary_world)) =
     [demo_temporary\<lparr>cv_expiresAt := Some 160000\<rparr>]"
    by (simp only:) (simp add: demo_temporary_world_def demo_temporary_def demo_defs)
  moreover have "out (extendTemporaryChat 1 2 3 ''alice'' ''c'' (Js_Integer 60) demo_temporary_world) = Inr 160000"
    "out (extendTemporaryChat 1 2 3 ''alice'' ''c'' (Js_Integer 7776000) demo_temporary_world) =
     Inl (Bad_Request ''Total lifetime cannot exceed 90 days from now'')"
    by (simp_all add: extendTemporaryChat_def getOwned_live [OF row])
      (simp_all add: demo_temporary_def demo_defs max_extension_ms_def)
  ultimately show ?thesis by blast
qed

text \<open>The rule that only the person who blocked can lift the block does not hold: any
  participant, the blocked one included, makes any conversation active again by calling block and
  then unblock, and this also revives a conversation that was burned, with its old session
  epoch.\<close>

theorem block_rule_bypass:
  assumes "find_conv cid w = Some c" and "participant u c"
    and "\<not> past (cv_expiresAt c) t" and "\<not> past (cv_expiresAt c) t'"
  shows "out (block t u cid w) = Inr () \<and>
    out (unblock t' u cid (after (block t u cid w))) = Inr () \<and>
    find_conv cid (after (unblock t' u cid (after (block t u cid w)))) =
      Some (c\<lparr>cv_status := Cv_Active\<rparr>)"
proof -
  let ?s = "if cv_userAId c = u then Cv_Blocked_By_A else Cv_Blocked_By_B"
  have b: "block t u cid w = ok () (set_conv cid (\<lambda>c. c\<lparr>cv_status := ?s\<rparr>) w)"
    by (simp add: block_def getOwned_live [OF assms(1-3)] Let_def)
  have row: "find_conv cid (after (block t u cid w)) = Some (c\<lparr>cv_status := ?s\<rparr>)"
    by (simp add: b find_conv_set_conv assms(1))
  have "getOwnedConversation t' u cid (after (block t u cid w)) =
      ok (c\<lparr>cv_status := ?s\<rparr>) (after (block t u cid w))"
    using assms(2,4) by (intro getOwned_live [OF row]) (simp_all add: participant_def)
  then have "unblock t' u cid (after (block t u cid w)) =
      ok () (set_conv cid (\<lambda>c. c\<lparr>cv_status := Cv_Active\<rparr>) (after (block t u cid w)))"
    using assms(2) by (auto simp: unblock_def Let_def participant_def)
  then show ?thesis using assms(1) by (simp add: b find_conv_set_conv)
qed

theorem block_rule_bypass_witness:
  "(let w1 = after (block 0 ''alice'' ''c'' demo_world);
        w2 = after (block 0 ''bob'' ''c'' w1)
    in out (unblock 0 ''bob'' ''c'' w1) =
         Inl (Forbidden ''Only the user who blocked can unblock'') \<and>
       out (unblock 0 ''bob'' ''c'' w2) = Inr () \<and>
       map_option cv_status (find_conv ''c'' (after (unblock 0 ''bob'' ''c'' w2))) = Some Cv_Active)"
proof -
  let ?w1 = "after (block 0 ''alice'' ''c'' demo_world)"
  have c: "find_conv ''c'' demo_world = Some demo_conv" "participant ''alice'' demo_conv"
      "\<not> past (cv_expiresAt demo_conv) 0"
    by (simp_all add: conv_lookup_defs demo_defs)
  have w1: "?w1 = set_conv ''c'' (\<lambda>c. c\<lparr>cv_status := Cv_Blocked_By_A\<rparr>) demo_world"
    by (simp add: block_def getOwned_live [OF c]) (simp add: demo_defs)
  have c1: "find_conv ''c'' ?w1 = Some (demo_conv\<lparr>cv_status := Cv_Blocked_By_A\<rparr>)"
    by (simp add: w1 find_conv_set_conv c)
  have p: "participant ''bob'' (demo_conv\<lparr>cv_status := Cv_Blocked_By_A\<rparr>)"
      "\<not> past (cv_expiresAt (demo_conv\<lparr>cv_status := Cv_Blocked_By_A\<rparr>)) 0"
    by (simp_all add: conv_lookup_defs demo_defs)
  have "out (unblock 0 ''bob'' ''c'' ?w1) = Inl (Forbidden ''Only the user who blocked can unblock'')"
    by (simp add: unblock_def getOwned_live [OF c1 p]) (simp add: demo_defs)
  then show ?thesis using block_rule_bypass [OF c1 p p(2)] by (simp add: Let_def)
qed

lemma expire_all_conversations:
  "(\<And>c. c \<in> set cs \<Longrightarrow> cv_status c \<noteq> Cv_Deleted) \<Longrightarrow>
     conversations (foldl (\<lambda>w ec. internalExpireAndDestroy ec w) w cs) =
     update_where (\<lambda>d. cv_id d \<in> cv_id ` set cs) (\<lambda>d. d\<lparr>cv_status := Cv_Deleted\<rparr>) (conversations w)"
proof (induction cs arbitrary: w)
  case Nil
  then show ?case by (simp add: update_where_def)
next
  case (Cons c cs)
  have "conversations (foldl (\<lambda>w ec. internalExpireAndDestroy ec w) w (c # cs)) =
      update_where (\<lambda>d. cv_id d \<in> cv_id ` set cs) (\<lambda>d. d\<lparr>cv_status := Cv_Deleted\<rparr>)
        (update_where (\<lambda>d. cv_id d = cv_id c) (\<lambda>d. d\<lparr>cv_status := Cv_Deleted\<rparr>) (conversations w))"
    using Cons.prems by (simp add: Cons.IH expire.conversations_after)
  then show ?case by (auto simp: update_where_def)
qed

lemma expire_all_settings:
  "find_settings u (foldl (\<lambda>w ec. internalExpireAndDestroy ec w) w cs) = find_settings u w"
  by (induction cs arbitrary: w) simp_all

text \<open>The conversation list is exact and keeps last-seen data private: it holds precisely the
  caller's conversations that are neither deleted nor expired, newest first; every expired one of
  theirs is left destroyed; and presence and last-seen time of the other party are shown only
  when both have last-seen enabled.\<close>

theorem list_exact:
  assumes ids: "distinct (map cv_id (conversations w))"
    and run: "list_conversations now u w = (vs, w')"
  shows "map vw_id vs = map cv_id (sort_key (\<lambda>c. - cv_createdAt c)
      (filter (\<lambda>c. participant u c \<and> cv_status c \<noteq> Cv_Deleted \<and> \<not> past (cv_expiresAt c) now)
        (conversations w))) \<and>
    (\<forall>c \<in> set (conversations w'). participant u c \<and> past (cv_expiresAt c) now \<longrightarrow> cv_status c = Cv_Deleted) \<and>
    (\<forall>v \<in> set vs. vw_isOnline v \<noteq> None \<or> vw_lastSeenAt v \<noteq> None \<longrightarrow>
       last_seen_enabled u w \<and>
       last_seen_enabled (if vw_userAId v = u then vw_userBId v else vw_userAId v) w)"
proof -
  let ?w1 = "foldl (\<lambda>w ec. internalExpireAndDestroy ec w) w (expired_for u now w)"
  let ?live = "\<lambda>c. participant u c \<and> cv_status c \<noteq> Cv_Deleted \<and> \<not> past (cv_expiresAt c) now"
  have w': "w' = ?w1" and vs: "vs = map (view_of u ?w1) (sort_key (\<lambda>c. - cv_createdAt c)
      (filter ?live (conversations ?w1)))"
    using run by (auto simp: list_conversations_def Let_def)
  have c1: "conversations ?w1 = update_where (\<lambda>d. cv_id d \<in> cv_id ` set (expired_for u now w))
      (\<lambda>d. d\<lparr>cv_status := Cv_Deleted\<rparr>) (conversations w)"
    by (rule expire_all_conversations) (auto simp: expired_for_def)
  have same: "c \<in> set (expired_for u now w)" if "c \<in> set (conversations w)"
    and "cv_id c \<in> cv_id ` set (expired_for u now w)" for c
    using that distinct_key_eq [OF ids] by (auto simp: expired_for_def)
  have live: "filter ?live (conversations ?w1) = filter ?live (conversations w)"
    unfolding c1
  proof (rule filter_update_where_other)
    fix r
    assume "r \<in> set (conversations w)" "cv_id r \<in> cv_id ` set (expired_for u now w)"
    then have "r \<in> set (expired_for u now w)" by (rule same)
    then show "\<not> ?live r \<and> \<not> ?live (r\<lparr>cv_status := Cv_Deleted\<rparr>)" by (simp add: expired_for_def)
  qed
  have seen: "last_seen_enabled v ?w1 = last_seen_enabled v w" for v
    by (simp add: last_seen_enabled_def expire_all_settings)
  have gone: "cv_status c = Cv_Deleted" if "c \<in> set (conversations ?w1)" "participant u c"
    "past (cv_expiresAt c) now" for c
  proof -
    from that(1) obtain r where r: "r \<in> set (conversations w)"
      and c: "c = (if cv_id r \<in> cv_id ` set (expired_for u now w) then r\<lparr>cv_status := Cv_Deleted\<rparr> else r)"
      unfolding c1 set_update_where by auto
    show ?thesis
    proof (cases "cv_id r \<in> cv_id ` set (expired_for u now w)")
      case True
      then show ?thesis using c by simp
    next
      case False
      then have "r \<notin> set (expired_for u now w)" by blast
      then show ?thesis using False c r that(2,3) by (simp add: expired_for_def)
    qed
  qed
  show ?thesis
    using gone by (auto simp: w' vs live view_of_def Let_def comp_def can_see_last_seen_def seen
        other_party_def split: if_splits)
qed

theorem list_exact_witness:
  "map vw_id (fst (list_conversations 100000 ''alice'' (demo_temporary_world\<lparr>conversations :=
     [demo_temporary, demo_conv\<lparr>cv_id := ''d'', cv_userBId := ''carol''\<rparr>]\<rparr>))) = [''d'']"
proof -
  let ?w = "demo_temporary_world\<lparr>conversations :=
     [demo_temporary, demo_conv\<lparr>cv_id := ''d'', cv_userBId := ''carol''\<rparr>]\<rparr>"
  have "distinct (map cv_id (conversations ?w))"
    by (simp add: demo_temporary_def demo_conv_def)
  from list_exact [OF this surjective_pairing, of 100000 "''alice''"] show ?thesis
    by (simp add: demo_temporary_def demo_conv_def participant_def)
qed

end
