(* ===== verification/Messages.thy ===== *)
theory Messages
  imports Conversations
begin

text \<open>
  Messages of one-to-one conversations: \<open>messages/messages.service.ts\<close>.

  Sequence numbers and sync versions come from one counter per conversation,
  read as a maximum and written later; between the two another request may
  write. The loops that retry on the unique indexes therefore take the
  interference as an argument: \<open>interf (2 * k)\<close> runs before the \<open>k\<close>th read of the
  maximum and \<open>interf (2 * k + 1)\<close> between that read and the write. A handler's
  clock readings are separate arguments.
\<close>

section \<open>The counter and the retry loop\<close>

definition max_sequence_retry_attempts :: nat where
  "max_sequence_retry_attempts = 5"

definition in_conv :: "ident \<Rightarrow> world \<Rightarrow> message_row list" where
  "in_conv cid w = filter (\<lambda>m. ms_conversationId m = cid) (messages w)"

definition next_counter :: "ident \<Rightarrow> world \<Rightarrow> int" where
  "next_counter cid w =
     nextSequenceNumber (higherCounterValue (max_column ms_sequenceNumber (in_conv cid w))
                                            (max_column ms_syncVersion (in_conv cid w)))"

definition find_client_message :: "ident \<Rightarrow> ident \<Rightarrow> world \<Rightarrow> message_row option" where
  "find_client_message cid clientMessageId w =
     find (\<lambda>m. ms_conversationId m = cid \<and> ms_clientMessageId m = clientMessageId) (messages w)"

record send_dto =
  sd_conversationId :: ident
  sd_clientMessageId :: ident
  sd_ciphertext :: string
  sd_iv :: string
  sd_messageType :: message_type
  sd_replyToMessageId :: "ident option"
  sd_attachmentId :: "ident option"
  sd_encryptedDek :: "string option"
  sd_sessionEpoch :: "int option"

definition new_message ::
  "send_dto \<Rightarrow> ident \<Rightarrow> ident \<Rightarrow> instant \<Rightarrow> instant option \<Rightarrow> int \<Rightarrow> message_row" where
  "new_message dto mid userId sentAt disappearAt n =
     \<lparr>ms_id = mid, ms_conversationId = sd_conversationId dto, ms_senderId = userId,
      ms_sequenceNumber = n, ms_syncVersion = n, ms_clientMessageId = sd_clientMessageId dto,
      ms_ciphertext = b64_decode (sd_ciphertext dto), ms_nonce = b64_decode (sd_iv dto),
      ms_messageType = sd_messageType dto, ms_replyToMessageId = sd_replyToMessageId dto,
      ms_sentAt = sentAt, ms_deliveredAt = None, ms_readAt = None, ms_editedAt = None,
      ms_deletedAt = None, ms_disappearAt = disappearAt\<rparr>"

text \<open>The three unique indexes of the message table.\<close>

definition message_clash :: "message_row \<Rightarrow> message_row \<Rightarrow> bool" where
  "message_clash m r \<longleftrightarrow> ms_conversationId r = ms_conversationId m \<and>
     (ms_sequenceNumber r = ms_sequenceNumber m \<or> ms_clientMessageId r = ms_clientMessageId m \<or>
      ms_syncVersion r = ms_syncVersion m)"

datatype created = Deduped message_row | Created message_row

fun create_loop ::
  "nat \<Rightarrow> (nat \<Rightarrow> world \<Rightarrow> world) \<Rightarrow> nat \<Rightarrow> send_dto \<Rightarrow> ident \<Rightarrow> ident \<Rightarrow> instant \<Rightarrow> instant option \<Rightarrow>
     world \<Rightarrow> created res" where
  "create_loop 0 interf k dto mid userId sentAt disappearAt w =
     fail (Conflict ''Could not allocate a message sequence number'') w"
| "create_loop (Suc n) interf k dto mid userId sentAt disappearAt w =
     (let w1 = interf (2 * k) w;
          m = new_message dto mid userId sentAt disappearAt (next_counter (sd_conversationId dto) w1);
          w2 = interf (2 * k + 1) w1
      in if list_ex (message_clash m) (messages w2)
         then (case find_client_message (sd_conversationId dto) (sd_clientMessageId dto) w2 of
                 Some existing \<Rightarrow> ok (Deduped existing) w2
               | None \<Rightarrow> create_loop n interf (Suc k) dto mid userId sentAt disappearAt w2)
         else ok (Created m) (w2\<lparr>messages := messages w2 @ [m]\<rparr>))"

definition createMessageWithRetry ::
  "(nat \<Rightarrow> world \<Rightarrow> world) \<Rightarrow> send_dto \<Rightarrow> ident \<Rightarrow> ident \<Rightarrow> instant \<Rightarrow> instant option \<Rightarrow> world \<Rightarrow> created res" where
  "createMessageWithRetry interf dto mid userId sentAt disappearAt w =
     create_loop max_sequence_retry_attempts interf 0 dto mid userId sentAt disappearAt w"

text \<open>
  The loop of \<open>deleteMessage\<close>, \<open>editMessage\<close> and the expiry sweep: take the next
  counter value and write it with \<open>change\<close>; a conflict is retried until the
  last attempt, which throws it.
\<close>

fun bump_loop ::
  "nat \<Rightarrow> (nat \<Rightarrow> world \<Rightarrow> world) \<Rightarrow> nat \<Rightarrow> ident \<Rightarrow> ident \<Rightarrow> (int \<Rightarrow> message_row \<Rightarrow> message_row) \<Rightarrow>
     world \<Rightarrow> int res" where
  "bump_loop 0 interf k cid mid change w = fail Unique_Violation w"
| "bump_loop (Suc n) interf k cid mid change w =
     (let w1 = interf (2 * k) w;
          v = next_counter cid w1;
          w2 = interf (2 * k + 1) w1
      in case find_message mid w2 of
           None \<Rightarrow> fail Record_Missing w2
         | Some m \<Rightarrow>
             if list_ex (\<lambda>r. ms_id r \<noteq> mid \<and> ms_conversationId r = ms_conversationId m \<and>
                            ms_syncVersion r = v) (messages w2)
             then bump_loop n interf (Suc k) cid mid change w2
             else ok v (w2\<lparr>messages := update_where (\<lambda>r. ms_id r = mid) (change v) (messages w2)\<rparr>))"

definition wipe :: "instant \<Rightarrow> int \<Rightarrow> message_row \<Rightarrow> message_row" where
  "wipe now v m = m\<lparr>ms_deletedAt := Some now, ms_ciphertext := [], ms_nonce := [],
     ms_syncVersion := v\<rparr>"

section \<open>Expiry\<close>

definition expireTemporaryConversation :: "conv_row \<Rightarrow> world \<Rightarrow> world" where
  "expireTemporaryConversation convo w =
     push_all [cv_userAId convo, cv_userBId convo] (Temporary_Chat_Expired (cv_id convo))
       (destroy_rows (cv_id convo) (purgeDriveFilesForConversation (cv_id convo) w))"

definition cleanupExpiredTemporaryChats :: "bool \<Rightarrow> instant \<Rightarrow> world \<Rightarrow> nat \<times> world" where
  "cleanupExpiredTemporaryChats busy now w =
     (if busy then (0, w)
      else let expiredConvos =
             filter (\<lambda>c. past (cv_expiresAt c) now \<and> cv_status c \<noteq> Cv_Deleted) (conversations w)
           in (length expiredConvos,
               foldl (\<lambda>w c. expireTemporaryConversation c w) w expiredConvos))"

definition getActiveConversationOrThrow :: "instant \<Rightarrow> ident \<Rightarrow> ident \<Rightarrow> world \<Rightarrow> conv_row res" where
  "getActiveConversationOrThrow now userId conversationId w =
     (case find_conv conversationId w of
        None \<Rightarrow> fail (Not_Found ''Conversation not found'') w
      | Some convo \<Rightarrow>
          if cv_userAId convo \<noteq> userId \<and> cv_userBId convo \<noteq> userId then fail (Forbidden '''') w
          else if cv_status convo \<noteq> Cv_Active then fail (Forbidden ''Conversation not available'') w
          else if past (cv_expiresAt convo) now
          then fail (Forbidden ''Conversation has expired'') (expireTemporaryConversation convo w)
          else ok convo w)"

section \<open>Delivery\<close>

text \<open>The disappearing timer of a conversation, when the trigger is delivery.\<close>

definition delivered_timer :: "conv_row \<Rightarrow> int option" where
  "delivered_timer convo =
     (case cv_timerSeconds convo of
        None \<Rightarrow> None
      | Some s \<Rightarrow> if s \<noteq> 0 \<and> cv_trigger convo = Some Delivered then Some s else None)"

definition mark_delivered :: "conv_row \<Rightarrow> instant \<Rightarrow> message_row \<Rightarrow> message_row" where
  "mark_delivered convo now m =
     (case delivered_timer convo of
        None \<Rightarrow> m\<lparr>ms_deliveredAt := Some now\<rparr>
      | Some s \<Rightarrow> m\<lparr>ms_deliveredAt := Some now,
            ms_disappearAt := computeDisappearAt
              \<lparr>dc_timerSeconds = Some s, dc_trigger = Delivered, dc_readReceiptsEnabled = True\<rparr>
              now (Some now) None\<rparr>)"

definition markDelivered :: "instant \<Rightarrow> ident \<Rightarrow> conv_row \<Rightarrow> world \<Rightarrow> unit res" where
  "markDelivered now messageId conversation w =
     (if find_message messageId w = None then fail Record_Missing w
      else ok () (w\<lparr>messages := update_where (\<lambda>m. ms_id m = messageId)
                       (mark_delivered conversation now) (messages w)\<rparr>))"

definition read_receipts_enabled :: "ident \<Rightarrow> world \<Rightarrow> bool" where
  "read_receipts_enabled u w =
     (case find_settings u w of None \<Rightarrow> True | Some s \<Rightarrow> st_readReceiptsEnabled s)"

section \<open>send\<close>

datatype send_reply =
    Deduped_Send ident int instant
  | Sent_Message ident int instant bool

definition send_disappearAt :: "conv_row \<Rightarrow> bool \<Rightarrow> instant \<Rightarrow> instant option" where
  "send_disappearAt convo receipts sentAt =
     (case (cv_timerSeconds convo, cv_trigger convo) of
        (Some s, Some trigger) \<Rightarrow>
          if s = 0 then None
          else if resolveDisappearTrigger \<lparr>dc_timerSeconds = Some s, dc_trigger = trigger,
                    dc_readReceiptsEnabled = receipts\<rparr> = Sent
          then computeDisappearAt \<lparr>dc_timerSeconds = Some s, dc_trigger = Sent,
                 dc_readReceiptsEnabled = True\<rparr> sentAt None None
          else None
      | _ \<Rightarrow> None)"

text \<open>
  The clock readings: \<open>t\<close> for the expiry check, \<open>sentAt\<close>, \<open>deliveredAt\<close> inside
  \<open>markDelivered\<close>, and \<open>receiptAt\<close> in the receipt pushed to the sender.
\<close>

definition finish_send ::
  "instant \<Rightarrow> instant \<Rightarrow> ident \<Rightarrow> send_dto \<Rightarrow> conv_row \<Rightarrow> message_row \<Rightarrow> world \<Rightarrow> send_reply res" where
  "finish_send deliveredAt receiptAt userId dto convo m w =
     (let recipientId = other_party userId convo;
          (delivered, w1) = pushToUser recipientId
            (New_Message (ms_id m) (sd_conversationId dto) userId (ms_sequenceNumber m)
               (sd_ciphertext dto) (sd_iv dto) (sd_messageType dto) (sd_replyToMessageId dto)
               (ms_sentAt m)) w
      in if \<not> delivered
         then ok (Sent_Message (ms_id m) (ms_sequenceNumber m) (ms_sentAt m) False) w1
         else case markDelivered deliveredAt (ms_id m) convo w1 of
                (Inl e, w2) \<Rightarrow> fail e w2
              | (Inr _, w2) \<Rightarrow>
                  ok (Sent_Message (ms_id m) (ms_sequenceNumber m) (ms_sentAt m) True)
                     (push userId (Delivery_Receipt (sd_conversationId dto) (ms_id m) receiptAt) w2))"

definition send ::
  "(nat \<Rightarrow> world \<Rightarrow> world) \<Rightarrow> ident \<Rightarrow> instant \<Rightarrow> instant \<Rightarrow> instant \<Rightarrow> instant \<Rightarrow>
     ident \<Rightarrow> send_dto \<Rightarrow> world \<Rightarrow> send_reply res" where
  "send interf mid t sentAt deliveredAt receiptAt userId dto w =
     (case getActiveConversationOrThrow t userId (sd_conversationId dto) w of
        (Inl e, w1) \<Rightarrow> fail e w1
      | (Inr convo, w1) \<Rightarrow>
          if isStaleEpoch (sd_sessionEpoch dto) (cv_sessionEpoch convo)
          then fail (Stale_Session_Epoch (cv_sessionEpoch convo)) w1
          else if (case given (sd_replyToMessageId dto) of None \<Rightarrow> False
                   | Some r \<Rightarrow> \<not> list_ex (\<lambda>m. ms_id m = r \<and> ms_conversationId m = sd_conversationId dto)
                                  (messages w1))
          then fail (Not_Found ''Referenced reply message not found'') w1
          else case find_client_message (sd_conversationId dto) (sd_clientMessageId dto) w1 of
            Some existing \<Rightarrow>
              ok (Deduped_Send (ms_id existing) (ms_sequenceNumber existing) (ms_sentAt existing)) w1
          | None \<Rightarrow>
              let disappearAt =
                    send_disappearAt convo (read_receipts_enabled (other_party userId convo) w1) sentAt
              in case createMessageWithRetry interf dto mid userId sentAt disappearAt w1 of
                (Inl e, w2) \<Rightarrow> fail e w2
              | (Inr (Deduped existing), w2) \<Rightarrow>
                  ok (Deduped_Send (ms_id existing) (ms_sequenceNumber existing) (ms_sentAt existing)) w2
              | (Inr (Created m), w2) \<Rightarrow>
                  (case (case given (sd_attachmentId dto) of
                           None \<Rightarrow> ok () w2
                         | Some a \<Rightarrow> linkToMessage a (ms_id m) (sd_conversationId dto) userId
                             (map_option b64_decode (given (sd_encryptedDek dto))) w2) of
                     (Inl e, w3) \<Rightarrow> fail e w3
                   | (Inr _, w3) \<Rightarrow> finish_send deliveredAt receiptAt userId dto convo m w3))"

section \<open>sync, markRead and statuses\<close>

record sync_item =
  si_id :: ident
  si_senderId :: ident
  si_sequenceNumber :: int
  si_deleted :: bool
  si_ciphertext :: string
  si_iv :: string
  si_messageType :: message_type
  si_replyToMessageId :: "ident option"
  si_sentAt :: instant

definition sync_item_of :: "message_row \<Rightarrow> sync_item" where
  "sync_item_of m =
     \<lparr>si_id = ms_id m, si_senderId = ms_senderId m, si_sequenceNumber = ms_syncVersion m,
      si_deleted = (ms_deletedAt m \<noteq> None), si_ciphertext = b64_encode (ms_ciphertext m),
      si_iv = b64_encode (ms_nonce m), si_messageType = ms_messageType m,
      si_replyToMessageId = ms_replyToMessageId m, si_sentAt = ms_sentAt m\<rparr>"

definition visible :: "instant \<Rightarrow> message_row \<Rightarrow> bool" where
  "visible now m \<longleftrightarrow> \<not> past (ms_disappearAt m) now \<or> ms_deletedAt m \<noteq> None"

definition incoming :: "ident \<Rightarrow> ident \<Rightarrow> instant \<Rightarrow> world \<Rightarrow> message_row list" where
  "incoming userId cid now w =
     filter (\<lambda>m. ms_conversationId m = cid \<and> ms_senderId m \<noteq> userId \<and> visible now m) (messages w)"

definition sync ::
  "instant \<Rightarrow> instant \<Rightarrow> instant \<Rightarrow> ident \<Rightarrow> ident \<Rightarrow> int \<Rightarrow> world \<Rightarrow> sync_item list res" where
  "sync t t' now userId conversationId since w =
     (case getActiveConversationOrThrow t userId conversationId w of
        (Inl e, w1) \<Rightarrow> fail e w1
      | (Inr convo, w1) \<Rightarrow>
          let found = sort_key ms_syncVersion
                (filter (\<lambda>m. ms_syncVersion m > since) (incoming userId conversationId t' w1));
              toMarkDelivered = map ms_id
                (filter (\<lambda>m. ms_deliveredAt m = None \<and> ms_deletedAt m = None) found);
              w2 = (if toMarkDelivered = [] then w1
                    else foldl (\<lambda>w msgId. push (other_party userId convo)
                                  (Delivery_Receipt conversationId msgId now) w)
                           (w1\<lparr>messages := update_where (\<lambda>m. ms_id m \<in> set toMarkDelivered)
                                 (mark_delivered convo now) (messages w1)\<rparr>)
                           toMarkDelivered)
          in ok (map sync_item_of found) w2)"

text \<open>\<open>message.conversation\<close>: the foreign key makes it present for every message.\<close>

definition conversation_of :: "message_row \<Rightarrow> world \<Rightarrow> conv_row option" where
  "conversation_of m w = find_conv (ms_conversationId m) w"

definition read_change :: "conv_row \<Rightarrow> bool \<Rightarrow> instant \<Rightarrow> message_row \<Rightarrow> message_row \<Rightarrow> message_row" where
  "read_change convo receipts now message m =
     (case (cv_timerSeconds convo, cv_trigger convo) of
        (Some s, Some trigger) \<Rightarrow>
          if s \<noteq> 0 \<and> resolveDisappearTrigger \<lparr>dc_timerSeconds = Some s, dc_trigger = trigger,
                    dc_readReceiptsEnabled = receipts\<rparr> = Read
          then m\<lparr>ms_readAt := Some now,
                 ms_disappearAt := computeDisappearAt
                   \<lparr>dc_timerSeconds = Some s, dc_trigger = Read, dc_readReceiptsEnabled = receipts\<rparr>
                   (ms_sentAt message) (ms_deliveredAt message) (Some now)\<rparr>
          else m\<lparr>ms_readAt := Some now\<rparr>
      | _ \<Rightarrow> m\<lparr>ms_readAt := Some now\<rparr>)"

definition markRead :: "instant \<Rightarrow> instant \<Rightarrow> ident \<Rightarrow> ident \<Rightarrow> world \<Rightarrow> unit res" where
  "markRead t now userId messageId w =
     (case find_message messageId w of
        None \<Rightarrow> fail (Not_Found ''Message not found'') w
      | Some message \<Rightarrow>
          if ms_senderId message = userId
          then fail (Bad_Request ''Cannot mark your own message as read'') w
          else case conversation_of message w of
            None \<Rightarrow> fail (Server_Error ''dangling message'') w
          | Some convo \<Rightarrow>
              if cv_userAId convo \<noteq> userId \<and> cv_userBId convo \<noteq> userId then fail (Forbidden '''') w
              else if past (cv_expiresAt convo) t
              then fail (Forbidden ''Conversation has expired'') (expireTemporaryConversation convo w)
              else let receipts = read_receipts_enabled userId w;
                       w1 = w\<lparr>messages := update_where (\<lambda>m. ms_id m = messageId)
                              (read_change convo receipts now message) (messages w)\<rparr>
                   in ok () (if receipts
                             then push (ms_senderId message) (Read_Receipt messageId (cv_id convo)) w1
                             else w1))"

definition getMessageStatuses ::
  "instant \<Rightarrow> ident \<Rightarrow> ident \<Rightarrow> ident list \<Rightarrow> world \<Rightarrow>
     (ident \<times> instant option \<times> instant option) list res" where
  "getMessageStatuses t userId conversationId messageIds w =
     (case getActiveConversationOrThrow t userId conversationId w of
        (Inl e, w1) \<Rightarrow> fail e w1
      | (Inr _, w1) \<Rightarrow>
          ok (map (\<lambda>m. (ms_id m, ms_deliveredAt m, ms_readAt m))
                (take 100 (filter (\<lambda>m. ms_conversationId m = conversationId \<and> ms_senderId m = userId \<and>
                     (messageIds = [] \<or> ms_id m \<in> set messageIds)) (messages w1)))) w1)"

section \<open>Deleting, editing and expiring messages\<close>

definition deleteMessage ::
  "(nat \<Rightarrow> world \<Rightarrow> world) \<Rightarrow> instant \<Rightarrow> instant \<Rightarrow> ident \<Rightarrow> ident \<Rightarrow> world \<Rightarrow> unit res" where
  "deleteMessage interf t now userId messageId w =
     (case find_message messageId w of
        None \<Rightarrow> fail (Not_Found ''Message not found'') w
      | Some message \<Rightarrow>
          if ms_senderId message \<noteq> userId then fail (Not_Found ''Message not found'') w
          else case conversation_of message w of
            None \<Rightarrow> fail (Server_Error ''dangling message'') w
          | Some convo \<Rightarrow>
              if past (cv_expiresAt convo) t
              then fail (Forbidden ''Conversation has expired'') (expireTemporaryConversation convo w)
              else case bump_loop max_sequence_retry_attempts interf 0 (ms_conversationId message)
                          messageId (wipe now) (deleteForMessage messageId w) of
                (Inl e, w1) \<Rightarrow> fail e w1
              | (Inr _, w1) \<Rightarrow>
                  ok () (push (other_party userId convo)
                           (Message_Deleted messageId (ms_conversationId message)) w1))"

definition edit_change :: "string \<Rightarrow> string \<Rightarrow> instant \<Rightarrow> int \<Rightarrow> message_row \<Rightarrow> message_row" where
  "edit_change ciphertext iv now v m =
     m\<lparr>ms_ciphertext := b64_decode ciphertext, ms_nonce := b64_decode iv,
       ms_editedAt := Some now, ms_syncVersion := v\<rparr>"

definition editMessage ::
  "(nat \<Rightarrow> world \<Rightarrow> world) \<Rightarrow> instant \<Rightarrow> instant \<Rightarrow> ident \<Rightarrow> ident \<Rightarrow> string \<Rightarrow> string \<Rightarrow> world \<Rightarrow> unit res" where
  "editMessage interf t now userId messageId ciphertext iv w =
     (case find_message messageId w of
        None \<Rightarrow> fail (Not_Found ''Message not found'') w
      | Some message \<Rightarrow>
          if ms_senderId message \<noteq> userId then fail (Not_Found ''Message not found'') w
          else if ms_deletedAt message \<noteq> None
          then fail (Bad_Request ''Cannot edit a deleted message'') w
          else case conversation_of message w of
            None \<Rightarrow> fail (Server_Error ''dangling message'') w
          | Some convo \<Rightarrow>
              if past (cv_expiresAt convo) t
              then fail (Forbidden ''Conversation has expired'') (expireTemporaryConversation convo w)
              else case bump_loop max_sequence_retry_attempts interf 0 (ms_conversationId message)
                          messageId (edit_change ciphertext iv now) w of
                (Inl e, w1) \<Rightarrow> fail e w1
              | (Inr syncVersion, w1) \<Rightarrow>
                  ok () (push (other_party userId convo)
                           (Message_Edited messageId (ms_conversationId message) userId syncVersion
                              ciphertext iv (ms_sentAt message)) w1))"

text \<open>
  The expiry sweep groups the expired messages by conversation, in the order
  the conversations first appear, and stops at the first exception.
\<close>

fun group_add :: "ident \<Rightarrow> ident \<Rightarrow> (ident \<times> ident list) list \<Rightarrow> (ident \<times> ident list) list" where
  "group_add c i [] = [(c, [i])]"
| "group_add c i ((d, is) # gs) = (if c = d then (d, is @ [i]) # gs else (d, is) # group_add c i gs)"

definition by_conversation :: "message_row list \<Rightarrow> (ident \<times> ident list) list" where
  "by_conversation ms = foldl (\<lambda>gs m. group_add (ms_conversationId m) (ms_id m) gs) [] ms"

fun expire_ids ::
  "(ident \<Rightarrow> nat \<Rightarrow> world \<Rightarrow> world) \<Rightarrow> instant \<Rightarrow> conv_row \<Rightarrow> ident list \<Rightarrow> world \<Rightarrow> unit res" where
  "expire_ids interf now convo [] w = ok () w"
| "expire_ids interf now convo (messageId # rest) w =
     (case bump_loop max_sequence_retry_attempts (interf messageId) 0 (cv_id convo) messageId (wipe now)
             (deleteForMessage messageId w) of
        (Inl e, w1) \<Rightarrow> fail e w1
      | (Inr _, w1) \<Rightarrow>
          expire_ids interf now convo rest
            (push (cv_userBId convo) (Message_Deleted messageId (cv_id convo))
              (push (cv_userAId convo) (Message_Deleted messageId (cv_id convo)) w1)))"

fun expire_groups ::
  "(ident \<Rightarrow> nat \<Rightarrow> world \<Rightarrow> world) \<Rightarrow> instant \<Rightarrow> (ident \<times> ident list) list \<Rightarrow> world \<Rightarrow> unit res" where
  "expire_groups interf now [] w = ok () w"
| "expire_groups interf now ((conversationId, messageIds) # rest) w =
     (case find_conv conversationId w of
        None \<Rightarrow> expire_groups interf now rest w
      | Some convo \<Rightarrow>
          (case expire_ids interf now convo messageIds w of
             (Inl e, w1) \<Rightarrow> fail e w1
           | (Inr _, w1) \<Rightarrow> expire_groups interf now rest w1))"

definition cleanupExpiredMessages ::
  "(ident \<Rightarrow> nat \<Rightarrow> world \<Rightarrow> world) \<Rightarrow> bool \<Rightarrow> instant \<Rightarrow> world \<Rightarrow> nat res" where
  "cleanupExpiredMessages interf busy now w =
     (if busy then ok 0 w
      else let expired = sort_key ms_syncVersion
                 (filter (\<lambda>m. past (ms_disappearAt m) now \<and> ms_deletedAt m = None) (messages w))
           in case expire_groups interf now (by_conversation expired) w of
                (Inl e, w1) \<Rightarrow> fail e w1
              | (Inr _, w1) \<Rightarrow> ok (length expired) w1)"

section \<open>Interfaces\<close>

interpretation temporary: destroyer expireTemporaryConversation "\<lambda>c. True"
  by unfold_locales (simp add: expireTemporaryConversation_def, intro exI, rule push_all_log)

text \<open>
  A table whose rows carry counters of a scope (messages of a conversation,
  messages of a room), and the function that proposes the next value: the value
  is above every counter of the scope. Hence a row written with it right away
  never clashes, and counters taken one after the other increase.
\<close>

locale counter_table =
  fixes rows :: "world \<Rightarrow> 'r list"
    and scope :: "'r \<Rightarrow> ident"
    and counters :: "'r \<Rightarrow> int set"
    and propose :: "ident \<Rightarrow> world \<Rightarrow> int"
  assumes above: "r \<in> set (rows w) \<Longrightarrow> scope r = s \<Longrightarrow> x \<in> counters r \<Longrightarrow> x < propose s w"
begin

lemma unused: "r \<in> set (rows w) \<Longrightarrow> scope r = s \<Longrightarrow> propose s w \<notin> counters r"
  using above by blast

lemma later_larger:
  assumes "r \<in> set (rows w')" and "scope r = s" and "propose s w \<in> counters r"
  shows "propose s w < propose s w'"
  using above [OF assms] .

lemma no_clash: "\<not> list_ex (\<lambda>r. scope r = s \<and> propose s w \<in> counters r) (rows w)"
  using unused by (auto simp: list_ex_iff)

end

lemma next_counter_above:
  assumes "m \<in> set (messages w)" and "ms_conversationId m = cid"
  shows "ms_sequenceNumber m < next_counter cid w" "ms_syncVersion m < next_counter cid w"
proof -
  have m: "m \<in> set (in_conv cid w)" using assms by (simp add: in_conv_def)
  then have ne: "in_conv cid w \<noteq> []" by auto
  then obtain a b where a: "max_column ms_sequenceNumber (in_conv cid w) = Some a"
    and b: "max_column ms_syncVersion (in_conv cid w) = Some b"
    by (metis max_column_None not_Some_eq)
  have "ms_sequenceNumber m \<le> a" "ms_syncVersion m \<le> b"
    using max_column_ge [OF a m] max_column_ge [OF b m] .
  then show "ms_sequenceNumber m < next_counter cid w" "ms_syncVersion m < next_counter cid w"
    using higherCounterValue_ge [where a = "Some a" and b = "Some b"]
    by (force simp: next_counter_def nextSequenceNumber_def a b)+
qed

interpretation message_counter: counter_table messages ms_conversationId
  "\<lambda>m. {ms_sequenceNumber m, ms_syncVersion m}" next_counter
  by unfold_locales (auto dest: next_counter_above)

section \<open>The unique indexes\<close>

definition message_keys :: "message_row \<Rightarrow> ident \<times> int \<times> ident \<times> int" where
  "message_keys m =
     (ms_conversationId m, ms_sequenceNumber m, ms_clientMessageId m, ms_syncVersion m)"

definition messages_ok :: "world \<Rightarrow> bool" where
  "messages_ok w \<longleftrightarrow>
     distinct (map (\<lambda>m. (ms_conversationId m, ms_sequenceNumber m)) (messages w)) \<and>
     distinct (map (\<lambda>m. (ms_conversationId m, ms_clientMessageId m)) (messages w)) \<and>
     distinct (map (\<lambda>m. (ms_conversationId m, ms_syncVersion m)) (messages w))"

lemma messages_ok_same_keys:
  assumes "map message_keys (messages w') = map message_keys (messages w)"
  shows "messages_ok w' = messages_ok w"
proof -
  have "map (f \<circ> message_keys) (messages w') = map (f \<circ> message_keys) (messages w)" for f :: "_ \<Rightarrow> 'a"
    using assms by (metis map_map)
  from this [of "\<lambda>(c, s, k, v). (c, s)"] this [of "\<lambda>(c, s, k, v). (c, k)"]
    this [of "\<lambda>(c, s, k, v). (c, v)"]
  show ?thesis by (simp add: messages_ok_def message_keys_def comp_def)
qed

lemma messages_ok_cong: "messages w' = messages w \<Longrightarrow> messages_ok w' = messages_ok w"
  by (simp add: messages_ok_def)

lemma messages_ok_append:
  "messages_ok w \<Longrightarrow> \<not> list_ex (message_clash m) (messages w) \<Longrightarrow>
     messages_ok (w\<lparr>messages := messages w @ [m]\<rparr>)"
  by (auto simp: messages_ok_def message_clash_def list_ex_iff)

lemma messages_ok_delete:
  "messages_ok w \<Longrightarrow> messages w' = delete_where p (messages w) \<Longrightarrow> messages_ok w'"
  by (simp add: messages_ok_def distinct_map_delete_where)

lemma distinct_update_key:
  assumes "distinct (map k rs)" and "distinct (map i rs)"
    and "\<And>r. r \<in> set rs \<Longrightarrow> i r \<noteq> x \<Longrightarrow> k r \<noteq> v"
    and "\<And>r. r \<in> set rs \<Longrightarrow> i r = x \<Longrightarrow> k (f r) = v"
  shows "distinct (map k (update_where (\<lambda>r. i r = x) f rs))"
  using assms
proof (induction rs)
  case Nil
  then show ?case by simp
next
  case (Cons r rs)
  have tail: "distinct (map k (update_where (\<lambda>r. i r = x) f rs))"
    using Cons by (intro Cons.IH) auto
  show ?case
  proof (cases "i r = x")
    case True
    then have none: "update_where (\<lambda>r. i r = x) f rs = rs"
      using Cons.prems(2) by (intro update_where_id) (auto simp: rev_image_eqI)
    have "k (f r) \<notin> k ` set rs"
      using Cons.prems True by (force simp: image_iff)
    then show ?thesis using Cons.prems(1) True by (simp add: none)
  next
    case False
    have "k r \<notin> k ` set (update_where (\<lambda>r. i r = x) f rs)"
    proof
      assume "k r \<in> k ` set (update_where (\<lambda>r. i r = x) f rs)"
      then obtain y where y: "y \<in> set rs" "k r = k (if i y = x then f y else y)"
        by (auto simp: table_simps)
      then show False using Cons.prems False by (cases "i y = x") auto
    qed
    then show ?thesis using tail False by simp
  qed
qed

definition ids_ok :: "world \<Rightarrow> bool" where
  "ids_ok w \<longleftrightarrow> distinct (map ms_id (messages w))"

text \<open>A change of one message that gives it a new sync version and keeps its other keys.\<close>

definition rekeys :: "(int \<Rightarrow> message_row \<Rightarrow> message_row) \<Rightarrow> bool" where
  "rekeys change \<longleftrightarrow> (\<forall>v m. ms_id (change v m) = ms_id m \<and>
     message_keys (change v m) =
       (ms_conversationId m, ms_sequenceNumber m, ms_clientMessageId m, v))"

lemma rekeys_wipe [simp]: "rekeys (wipe now)"
  by (simp add: rekeys_def wipe_def message_keys_def)

lemma rekeys_edit [simp]: "rekeys (edit_change c iv now)"
  by (simp add: rekeys_def edit_change_def message_keys_def)

lemma rekeysD:
  assumes "rekeys change"
  shows "ms_id (change v m) = ms_id m" "ms_conversationId (change v m) = ms_conversationId m"
    "ms_sequenceNumber (change v m) = ms_sequenceNumber m"
    "ms_clientMessageId (change v m) = ms_clientMessageId m" "ms_syncVersion (change v m) = v"
  using assms by (auto simp: rekeys_def message_keys_def)

lemma messages_ok_rekey:
  assumes ok: "messages_ok w" and ids: "ids_ok w" and ch: "rekeys change"
    and m: "find_message i w = Some m"
    and free: "\<not> list_ex (\<lambda>r. ms_id r \<noteq> i \<and> ms_conversationId r = ms_conversationId m \<and>
                 ms_syncVersion r = v) (messages w)"
  shows "messages_ok (w\<lparr>messages := update_where (\<lambda>r. ms_id r = i) (change v) (messages w)\<rparr>)"
    and "ids_ok (w\<lparr>messages := update_where (\<lambda>r. ms_id r = i) (change v) (messages w)\<rparr>)"
proof -
  note keep = rekeysD [OF ch]
  have "distinct (map (\<lambda>m. (ms_conversationId m, ms_syncVersion m))
      (update_where (\<lambda>r. ms_id r = i) (change v) (messages w)))"
  proof (rule distinct_update_key [where v = "(ms_conversationId m, v)"])
    fix r assume "r \<in> set (messages w)" "ms_id r = i"
    then have "r = m" using distinct_key_eq [OF ids [unfolded ids_ok_def], of r m] find_message_Some [OF m]
      by simp
    then show "(ms_conversationId (change v r), ms_syncVersion (change v r)) = (ms_conversationId m, v)"
      by (simp add: keep)
  qed (use ok ids free in \<open>auto simp: messages_ok_def ids_ok_def list_ex_iff\<close>)
  then show "messages_ok (w\<lparr>messages := update_where (\<lambda>r. ms_id r = i) (change v) (messages w)\<rparr>)"
    using ok by (simp add: messages_ok_def map_update_where keep)
  show "ids_ok (w\<lparr>messages := update_where (\<lambda>r. ms_id r = i) (change v) (messages w)\<rparr>)"
    using ids by (simp add: ids_ok_def map_update_where keep)
qed

lemma find_client_Some:
  "find_client_message cid k w = Some m \<Longrightarrow>
     m \<in> set (messages w) \<and> ms_conversationId m = cid \<and> ms_clientMessageId m = k"
  by (auto simp: find_client_message_def dest: find_Some_in)

text \<open>How the two retry loops end.\<close>

lemma create_loop_step:
  "w1 = interf (2 * k) w \<Longrightarrow> w2 = interf (2 * k + 1) w1 \<Longrightarrow>
   m = new_message dto mid u sentAt da (next_counter (sd_conversationId dto) w1) \<Longrightarrow>
     create_loop (Suc n) interf k dto mid u sentAt da w =
       (if list_ex (message_clash m) (messages w2)
        then (case find_client_message (sd_conversationId dto) (sd_clientMessageId dto) w2 of
                Some existing \<Rightarrow> ok (Deduped existing) w2
              | None \<Rightarrow> create_loop n interf (Suc k) dto mid u sentAt da w2)
        else ok (Created m) (w2\<lparr>messages := messages w2 @ [m]\<rparr>))"
  by (simp only: create_loop.simps Let_def)

lemma bump_loop_step:
  "w1 = interf (2 * k) w \<Longrightarrow> w2 = interf (2 * k + 1) w1 \<Longrightarrow> v = next_counter cid w1 \<Longrightarrow>
     bump_loop (Suc n) interf k cid mid change w =
       (case find_message mid w2 of
          None \<Rightarrow> fail Record_Missing w2
        | Some m \<Rightarrow>
            if list_ex (\<lambda>r. ms_id r \<noteq> mid \<and> ms_conversationId r = ms_conversationId m \<and>
                           ms_syncVersion r = v) (messages w2)
            then bump_loop n interf (Suc k) cid mid change w2
            else ok v (w2\<lparr>messages := update_where (\<lambda>r. ms_id r = mid) (change v) (messages w2)\<rparr>))"
  by (simp only: bump_loop.simps Let_def)

lemma create_loop_inv:
  assumes "\<And>k w. P w \<Longrightarrow> P (interf k w)" and "P w"
  shows "(case create_loop n interf k dto mid u sentAt da w of
      (Inl e, w') \<Rightarrow> P w' \<and> e = Conflict ''Could not allocate a message sequence number''
    | (Inr (Deduped x), w') \<Rightarrow>
        P w' \<and> find_client_message (sd_conversationId dto) (sd_clientMessageId dto) w' = Some x
    | (Inr (Created m), w') \<Rightarrow>
        (\<exists>w1 w2 j. P w1 \<and> P w2 \<and> w2 = interf j w1 \<and>
           m = new_message dto mid u sentAt da (next_counter (sd_conversationId dto) w1) \<and>
           \<not> list_ex (message_clash m) (messages w2) \<and> w' = w2\<lparr>messages := messages w2 @ [m]\<rparr>))"
  using assms(2)
proof (induction n arbitrary: k w)
  case 0
  then show ?case by simp
next
  case (Suc n)
  define w1 where "w1 = interf (2 * k) w"
  define w2 where "w2 = interf (2 * k + 1) w1"
  let ?m = "new_message dto mid u sentAt da (next_counter (sd_conversationId dto) w1)"
  have P: "P w1" "P w2" using Suc.prems assms(1) by (simp_all add: w1_def w2_def)
  show ?case
  proof (cases "list_ex (message_clash ?m) (messages w2)")
    case clash: True
    then show ?thesis
      unfolding create_loop_step [OF w1_def w2_def refl]
      using Suc.IH [OF P(2), of "Suc k"] P(2)
      by (cases "find_client_message (sd_conversationId dto) (sd_clientMessageId dto) w2") simp_all
  next
    case False
    then have "create_loop (Suc n) interf k dto mid u sentAt da w =
        ok (Created ?m) (w2\<lparr>messages := messages w2 @ [?m]\<rparr>)"
      unfolding create_loop_step [OF w1_def w2_def refl] by simp
    then show ?thesis using P False by (simp only: prod.case sum.case created.case) (use w2_def in blast)
  qed
qed

lemma bump_loop_inv:
  assumes "\<And>k w. P w \<Longrightarrow> P (interf k w)" and "P w"
  shows "(case bump_loop n interf k cid mid change w of
      (Inl e, w') \<Rightarrow> P w' \<and> (e = Record_Missing \<or> e = Unique_Violation)
    | (Inr v, w') \<Rightarrow>
        (\<exists>w1 w2 j m. P w1 \<and> P w2 \<and> w2 = interf j w1 \<and> v = next_counter cid w1 \<and>
           find_message mid w2 = Some m \<and>
           \<not> list_ex (\<lambda>r. ms_id r \<noteq> mid \<and> ms_conversationId r = ms_conversationId m \<and>
                           ms_syncVersion r = v) (messages w2) \<and>
           w' = w2\<lparr>messages := update_where (\<lambda>r. ms_id r = mid) (change v) (messages w2)\<rparr>))"
  using assms(2)
proof (induction n arbitrary: k w)
  case 0
  then show ?case by simp
next
  case (Suc n)
  define w1 where "w1 = interf (2 * k) w"
  define w2 where "w2 = interf (2 * k + 1) w1"
  let ?v = "next_counter cid w1"
  have P: "P w1" "P w2" using Suc.prems assms(1) by (simp_all add: w1_def w2_def)
  note step = bump_loop_step [OF w1_def w2_def refl, of n cid mid change]
  show ?case
  proof (cases "find_message mid w2")
    case None
    then show ?thesis unfolding step using P by simp
  next
    case (Some m)
    show ?thesis
    proof (cases "list_ex (\<lambda>r. ms_id r \<noteq> mid \<and> ms_conversationId r = ms_conversationId m \<and>
                   ms_syncVersion r = ?v) (messages w2)")
      case True
      then show ?thesis unfolding step using Suc.IH [OF P(2), of "Suc k"] Some by simp
    next
      case False
      then have "bump_loop (Suc n) interf k cid mid change w =
          ok ?v (w2\<lparr>messages := update_where (\<lambda>r. ms_id r = mid) (change ?v) (messages w2)\<rparr>)"
        unfolding step using Some by simp
      then show ?thesis using P False Some by (simp only: prod.case sum.case) (use w2_def in blast)
    qed
  qed
qed

text \<open>Without interference between read and write, the first attempt succeeds.\<close>

lemma no_new_clash:
  "find_client_message (sd_conversationId dto) (sd_clientMessageId dto) w = None \<Longrightarrow>
     \<not> list_ex (message_clash (new_message dto mid u sentAt da (next_counter (sd_conversationId dto) w)))
         (messages w)"
  by (auto simp: list_ex_iff message_clash_def new_message_def find_client_message_def find_None_in
      dest: next_counter_above)

lemma no_bump_clash:
  "find_message mid w = Some m \<Longrightarrow>
     \<not> list_ex (\<lambda>r. ms_id r \<noteq> mid \<and> ms_conversationId r = ms_conversationId m \<and>
         ms_syncVersion r = next_counter (ms_conversationId m) w) (messages w)"
  by (auto simp: list_ex_iff dest: next_counter_above)

lemma create_loop_alone:
  assumes "find_client_message (sd_conversationId dto) (sd_clientMessageId dto) w = None"
  shows "create_loop (Suc n) (\<lambda>_ w. w) k dto mid u sentAt da w =
    (let m = new_message dto mid u sentAt da (next_counter (sd_conversationId dto) w)
     in ok (Created m) (w\<lparr>messages := messages w @ [m]\<rparr>))"
  using no_new_clash [OF assms] by (simp add: Let_def)

lemma bump_loop_alone:
  "find_message mid w = Some m \<Longrightarrow> cid = ms_conversationId m \<Longrightarrow>
     bump_loop (Suc n) (\<lambda>_ w. w) k cid mid change w =
       ok (next_counter cid w)
         (w\<lparr>messages := update_where (\<lambda>r. ms_id r = mid) (change (next_counter cid w)) (messages w)\<rparr>)"
  using no_bump_clash [of mid w m] by (simp add: Let_def)

section \<open>Facts about the handlers\<close>

lemma getActive_ok:
  "getActiveConversationOrThrow t u cid w = ok c w1 \<Longrightarrow>
     w1 = w \<and> find_conv cid w = Some c \<and> participant u c \<and> cv_status c = Cv_Active \<and>
     \<not> past (cv_expiresAt c) t \<and> cv_id c = cid"
  by (auto simp: getActiveConversationOrThrow_def participant_def split: option.splits if_splits
      dest: find_conv_Some)

lemma getActive_live:
  "find_conv cid w = Some c \<Longrightarrow> participant u c \<Longrightarrow> cv_status c = Cv_Active \<Longrightarrow>
     \<not> past (cv_expiresAt c) t \<Longrightarrow> getActiveConversationOrThrow t u cid w = ok c w"
  by (auto simp: getActiveConversationOrThrow_def participant_def)

text \<open>What delivery bookkeeping never changes.\<close>

definition message_core ::
  "message_row \<Rightarrow> ident \<times> (ident \<times> int \<times> ident \<times> int) \<times> ident \<times> bytes \<times> bytes \<times> instant \<times> instant option" where
  "message_core m = (ms_id m, message_keys m, ms_senderId m, ms_ciphertext m, ms_nonce m,
     ms_sentAt m, ms_deletedAt m)"

lemma mark_delivered_core [simp]: "message_core (mark_delivered c t m) = message_core m"
  by (simp add: mark_delivered_def message_core_def message_keys_def split: option.splits)

lemma read_change_core [simp]: "message_core (read_change c r t m' m) = message_core m"
  by (simp add: read_change_def message_core_def message_keys_def split: option.splits)

lemma core_same:
  assumes "map message_core ms' = map message_core ms"
  shows "map message_keys ms' = map message_keys ms" "map ms_id ms' = map ms_id ms"
proof -
  have "map (f \<circ> message_core) ms' = map (f \<circ> message_core) ms" for f :: "_ \<Rightarrow> 'a"
    using assms by (metis map_map)
  from this [of "\<lambda>(i, k, x). i"] show "map ms_id ms' = map ms_id ms"
    by (simp add: message_core_def comp_def)
  have "map (f \<circ> message_core) ms' = map (f \<circ> message_core) ms" for f :: "_ \<Rightarrow> 'a"
    using assms by (metis map_map)
  from this [of "\<lambda>(i, k, x). k"] show "map message_keys ms' = map message_keys ms"
    by (simp add: message_core_def comp_def)
qed

lemma core_in:
  assumes "map message_core ms' = map message_core ms" and "m \<in> set ms"
  shows "\<exists>m' \<in> set ms'. message_core m' = message_core m"
proof -
  have "message_core m \<in> set (map message_core ms)" using assms(2) by simp
  then have "message_core m \<in> set (map message_core ms')" using assms(1) by simp
  then show ?thesis by auto
qed

lemma markDelivered_core:
  "map message_core (messages (after (markDelivered t i c w))) = map message_core (messages w)"
  "conversations (after (markDelivered t i c w)) = conversations w"
  "attachments (after (markDelivered t i c w)) = attachments w"
  by (simp_all add: markDelivered_def map_update_where)

lemma finish_send_cases:
  assumes "finish_send t t' u dto c m w = (res, w')"
  shows "map message_core (messages w') = map message_core (messages w)"
    and "conversations w' = conversations w"
    and "ms_id m \<in> ms_id ` set (messages w) \<Longrightarrow>
      \<exists>d. res = Inr (Sent_Message (ms_id m) (ms_sequenceNumber m) (ms_sentAt m) d)"
proof -
  let ?e = "New_Message (ms_id m) (sd_conversationId dto) u (ms_sequenceNumber m) (sd_ciphertext dto)
     (sd_iv dto) (sd_messageType dto) (sd_replyToMessageId dto) (ms_sentAt m)"
  let ?w1 = "push (other_party u c) ?e w"
  have w': "w' = ?w1 \<or> w' = after (markDelivered t (ms_id m) c ?w1) \<or>
      w' = push u (Delivery_Receipt (sd_conversationId dto) (ms_id m) t')
             (after (markDelivered t (ms_id m) c ?w1))"
    using assms by (auto simp: finish_send_def Let_def case_prod_beta split: if_splits sum.splits)
  then show "map message_core (messages w') = map message_core (messages w)"
    by (auto simp: markDelivered_core)
  from w' show "conversations w' = conversations w"
    by (auto simp: markDelivered_core)
  assume "ms_id m \<in> ms_id ` set (messages w)"
  then have "find_message (ms_id m) ?w1 \<noteq> None"
    by (auto simp: find_message_def find_None_in)
  then have "out (markDelivered t (ms_id m) c ?w1) = Inr ()" by (simp add: markDelivered_def)
  then show "\<exists>d. res = Inr (Sent_Message (ms_id m) (ms_sequenceNumber m) (ms_sentAt m) d)"
    using assms by (auto simp: finish_send_def Let_def case_prod_beta split: if_splits sum.splits)
qed

lemma linkToMessage_frame [simp]:
  "messages (after (linkToMessage a m c u d w)) = messages w"
  "conversations (after (linkToMessage a m c u d w)) = conversations w"
  by (simp_all add: linkToMessage_def split: option.splits)

lemma send_cases:
  assumes "send interf mid t t1 t2 t3 u dto w = ok (Sent_Message i n at d) w'"
  obtains c m w2 where
    "getActiveConversationOrThrow t u (sd_conversationId dto) w = ok c w"
    "sd_sessionEpoch dto = Some (cv_sessionEpoch c)"
    "find_client_message (sd_conversationId dto) (sd_clientMessageId dto) w = None"
    "createMessageWithRetry interf dto mid u t1
       (send_disappearAt c (read_receipts_enabled (other_party u c) w) t1) w = ok (Created m) w2"
    "i = ms_id m" "n = ms_sequenceNumber m" "at = ms_sentAt m"
    "map message_core (messages w') = map message_core (messages w2)"
    "conversations w' = conversations w2"
proof -
  obtain c where g: "getActiveConversationOrThrow t u (sd_conversationId dto) w = ok c w"
    using assms getActive_ok by (auto simp: send_def split: prod.splits sum.splits)
  let ?da = "send_disappearAt c (read_receipts_enabled (other_party u c) w) t1"
  have ep: "sd_sessionEpoch dto = Some (cv_sessionEpoch c)"
    and nodup: "find_client_message (sd_conversationId dto) (sd_clientMessageId dto) w = None"
    using assms by (auto simp: send_def g isStaleEpoch_iff split: if_splits option.splits)
  obtain m w2 where cr: "createMessageWithRetry interf dto mid u t1 ?da w = ok (Created m) w2"
    using assms by (auto simp: send_def g ep isStaleEpoch_iff nodup Let_def
        split: if_splits option.splits sum.splits prod.splits created.splits)
  obtain w3 where w3: "w3 = w2 \<or> (\<exists>a k. w3 = after (linkToMessage a (ms_id m) (sd_conversationId dto) u k w2))"
    and f: "finish_send t2 t3 u dto c m w3 = ok (Sent_Message i n at d) w'"
    using assms by (auto simp: send_def g ep isStaleEpoch_iff nodup Let_def cr
        split: if_splits option.splits sum.splits prod.splits) (metis snd_conv)+
  have "i = ms_id m \<and> n = ms_sequenceNumber m \<and> at = ms_sentAt m"
    using f by (auto simp: finish_send_def Let_def case_prod_beta split: if_splits sum.splits)
  moreover have "map message_core (messages w') = map message_core (messages w2)"
    and "conversations w' = conversations w2"
    using finish_send_cases(1,2) [OF f] w3 by auto
  ultimately show ?thesis using that g ep nodup cr by blast
qed

section \<open>Properties\<close>

definition reply_ok :: "send_dto \<Rightarrow> world \<Rightarrow> bool" where
  "reply_ok dto w \<longleftrightarrow> (case given (sd_replyToMessageId dto) of None \<Rightarrow> True
     | Some r \<Rightarrow> list_ex (\<lambda>m. ms_id m = r \<and> ms_conversationId m = sd_conversationId dto) (messages w))"

lemma send_guards_passed:
  assumes "getActiveConversationOrThrow t u (sd_conversationId dto) w = ok c w"
    and "sd_sessionEpoch dto = Some (cv_sessionEpoch c)" and "reply_ok dto w"
  shows "send interf mid t t1 t2 t3 u dto w =
    (case find_client_message (sd_conversationId dto) (sd_clientMessageId dto) w of
       Some x \<Rightarrow> ok (Deduped_Send (ms_id x) (ms_sequenceNumber x) (ms_sentAt x)) w
     | None \<Rightarrow>
         (case createMessageWithRetry interf dto mid u t1
                 (send_disappearAt c (read_receipts_enabled (other_party u c) w) t1) w of
            (Inl e, w2) \<Rightarrow> fail e w2
          | (Inr (Deduped x), w2) \<Rightarrow>
              ok (Deduped_Send (ms_id x) (ms_sequenceNumber x) (ms_sentAt x)) w2
          | (Inr (Created m), w2) \<Rightarrow>
              (case (case given (sd_attachmentId dto) of None \<Rightarrow> ok () w2
                     | Some a \<Rightarrow> linkToMessage a (ms_id m) (sd_conversationId dto) u
                         (map_option b64_decode (given (sd_encryptedDek dto))) w2) of
                 (Inl e, w3) \<Rightarrow> fail e w3
               | (Inr _, w3) \<Rightarrow> finish_send t2 t3 u dto c m w3)))"
  using assms by (auto simp: send_def isStaleEpoch_iff Let_def reply_ok_def split: option.splits)

text \<open>A send that carries any session epoch but the current one, or none, is refused with
  the current epoch and changes nothing: ciphertext made for a superseded session cannot be
  written into the conversation.\<close>

theorem stale_epoch_send_rejected:
  assumes "find_conv (sd_conversationId dto) w = Some c" and "participant u c"
    and "cv_status c = Cv_Active" and "\<not> past (cv_expiresAt c) t"
    and "sd_sessionEpoch dto \<noteq> Some (cv_sessionEpoch c)"
  shows "send interf mid t t1 t2 t3 u dto w = fail (Stale_Session_Epoch (cv_sessionEpoch c)) w"
  using assms(5) by (simp add: send_def getActive_live [OF assms(1-4)] isStaleEpoch_iff)

definition demo_dto :: send_dto where
  "demo_dto = \<lparr>sd_conversationId = ''c'', sd_clientMessageId = ''k2'', sd_ciphertext = ''aGk='',
     sd_iv = ''aXY='', sd_messageType = Text_Msg, sd_replyToMessageId = None,
     sd_attachmentId = None, sd_encryptedDek = None, sd_sessionEpoch = Some 1\<rparr>"

lemma demo_active:
  "find_conv ''c'' demo_world = Some demo_conv" "participant ''alice'' demo_conv"
  "participant ''bob'' demo_conv" "cv_status demo_conv = Cv_Active"
  "\<not> past (cv_expiresAt demo_conv) t"
  by (simp_all add: conv_lookup_defs demo_defs)

theorem stale_epoch_send_rejected_witness:
  "send (\<lambda>_ w. w) ''m2'' 0 1 2 3 ''alice'' (demo_dto\<lparr>sd_sessionEpoch := Some 0\<rparr>) demo_world =
     fail (Stale_Session_Epoch 1) demo_world"
  using stale_epoch_send_rejected [of "demo_dto\<lparr>sd_sessionEpoch := Some 0\<rparr>" demo_world demo_conv "''alice''"]
    demo_active by (simp add: demo_dto_def demo_conv_def)


text \<open>A rival sender that wins the race for the first number.\<close>

definition rival :: "nat \<Rightarrow> world \<Rightarrow> world" where
  "rival k w = (if k = 1 then after (create_loop 1 (\<lambda>_ w. w) 0
     (demo_dto\<lparr>sd_clientMessageId := ''other''\<rparr>) ''m9'' ''bob'' 1 None w) else w)"

lemma rival_ok: "messages_ok w \<Longrightarrow> messages_ok (rival k w)"
  using create_loop_inv [where P = messages_ok and interf = "\<lambda>_ w. w" and w = w and n = 1 and k = 0
      and dto = "demo_dto\<lparr>sd_clientMessageId := ''other''\<rparr>" and mid = "''m9''" and u = "''bob''"
      and sentAt = 1 and da = None]
  by (auto simp: rival_def messages_ok_append split: prod.splits sum.splits created.splits)

lemma rival_keeps: "m \<in> set (messages w) \<Longrightarrow> m \<in> set (messages (rival k w))"
  by (auto simp: rival_def Let_def split: option.splits)


lemma created_row:
  assumes "createMessageWithRetry interf dto mid u t1 da w = ok (Created m) w2"
  obtains w1 w2' where "m = new_message dto mid u t1 da (next_counter (sd_conversationId dto) w1)"
    and "\<not> list_ex (message_clash m) (messages w2')" and "w2 = w2'\<lparr>messages := messages w2' @ [m]\<rparr>"
proof -
  have "\<exists>w1 w2' j. True \<and> True \<and> w2' = interf j w1 \<and>
      m = new_message dto mid u t1 da (next_counter (sd_conversationId dto) w1) \<and>
      \<not> list_ex (message_clash m) (messages w2') \<and> w2 = w2'\<lparr>messages := messages w2' @ [m]\<rparr>"
    using create_loop_inv [where P = "\<lambda>_. True" and interf = interf and w = w
      and n = max_sequence_retry_attempts and k = 0 and dto = dto and mid = mid and u = u
      and sentAt = t1 and da = da]
    unfolding assms [unfolded createMessageWithRetry_def] by (simp only: prod.case sum.case created.case)
  then show ?thesis by (elim exE conjE) (rule that)
qed

text \<open>C21. Sending is idempotent: after a send has stored its message, repeating it with the same
  client message id, while the conversation still accepts sends, returns the stored message's id,
  number and time and changes nothing, whatever body the repetition carries.\<close>

theorem send_idempotent:
  assumes first: "send interf mid t t1 t2 t3 u dto w = ok (Sent_Message i n at d) w'"
    and again: "getActiveConversationOrThrow t' u (sd_conversationId dto') w' = ok c w'"
      "sd_sessionEpoch dto' = Some (cv_sessionEpoch c)" "reply_ok dto' w'"
    and same: "sd_conversationId dto' = sd_conversationId dto"
      "sd_clientMessageId dto' = sd_clientMessageId dto"
  shows "send interf' mid' t' t1' t2' t3' u dto' w' = ok (Deduped_Send i n at) w'"
proof -
  let ?c = "sd_conversationId dto" and ?k = "sd_clientMessageId dto"
  obtain m w2 da where cr: "createMessageWithRetry interf dto mid u t1 da w = ok (Created m) w2"
    and i: "i = ms_id m" "n = ms_sequenceNumber m" "at = ms_sentAt m"
    and core: "map message_core (messages w') = map message_core (messages w2)"
    using send_cases [OF first] by metis
  obtain w2' v where m: "m = new_message dto mid u t1 da v"
    and free: "\<not> list_ex (message_clash m) (messages w2')"
    and "w2 = w2'\<lparr>messages := messages w2' @ [m]\<rparr>"
    using created_row [OF cr] by metis
  then have w2: "messages w2 = messages w2' @ [m]" by simp
  have keys: "ms_conversationId m = ?c" "ms_clientMessageId m = ?k" by (simp_all add: m new_message_def)
  have only: "message_core x = message_core m"
    if "x \<in> set (messages w')" "ms_conversationId x = ?c" "ms_clientMessageId x = ?k" for x
  proof -
    from core_in [OF core [symmetric] that(1)] obtain y where
      y: "y \<in> set (messages w2)" "message_core y = message_core x" by metis
    then have "ms_conversationId y = ?c" "ms_clientMessageId y = ?k"
      using that(2,3) by (simp_all add: message_core_def message_keys_def)
    then have "y = m" using y(1) free keys by (auto simp: w2 list_ex_iff message_clash_def)
    then show ?thesis using y(2) by simp
  qed
  have "m \<in> set (messages w2)" by (simp add: w2)
  from core_in [OF core this] obtain m' where "m' \<in> set (messages w')" "message_core m' = message_core m"
    by blast
  then have "find_client_message ?c ?k w' \<noteq> None"
    using keys by (auto simp: find_client_message_def find_None_in message_core_def message_keys_def)
  then obtain x where x: "find_client_message ?c ?k w' = Some x" by blast
  from only find_client_Some [OF x] have "message_core x = message_core m" by blast
  then have "ms_id x = i" "ms_sequenceNumber x = n" "ms_sentAt x = at"
    by (simp_all add: i message_core_def message_keys_def)
  then show ?thesis using send_guards_passed [OF again] x same by simp
qed

text \<open>A send with nobody else writing, on the example state.\<close>

lemma demo_sent:
  "\<exists>w'. send (\<lambda>_ w. w) ''m2'' 0 1 2 3 ''alice'' demo_dto demo_world = ok (Sent_Message ''m2'' 2 1 False) w' \<and>
     conversations w' = [demo_conv] \<and> connections w' = []"
proof -
  let ?da = "send_disappearAt demo_conv (read_receipts_enabled (other_party ''alice'' demo_conv) demo_world) 1"
  let ?m = "new_message demo_dto ''m2'' ''alice'' 1 ?da 2"
  have w: "messages demo_world = [demo_message]" "connections demo_world = []" "conversations demo_world = [demo_conv]"
    by (simp_all add: demo_world_def empty_world_def)
  have nc: "next_counter ''c'' demo_world = 2"
    by (simp add: next_counter_def in_conv_def w max_column_def higherCounterValue_def
        nextSequenceNumber_def demo_message_def)
  have f: "sd_conversationId demo_dto = ''c''" "sd_clientMessageId demo_dto = ''k2''"
      "sd_sessionEpoch demo_dto = Some 1" "given (sd_attachmentId demo_dto) = None" "reply_ok demo_dto demo_world"
    and none: "find_client_message ''c'' ''k2'' demo_world = None"
    by (simp_all add: demo_dto_def given_def reply_ok_def find_client_message_def w demo_message_def)
  have cr: "createMessageWithRetry (\<lambda>_ w. w) demo_dto ''m2'' ''alice'' 1 ?da demo_world =
      ok (Created ?m) (demo_world\<lparr>messages := [demo_message, ?m]\<rparr>)"
    using create_loop_alone [of demo_dto demo_world 4 0 "''m2''" "''alice''" 1 ?da]
    by (simp add: createMessageWithRetry_def max_sequence_retry_attempts_def f none nc w Let_def
        eval_nat_numeral)
  show ?thesis
    using send_guards_passed [of 0 "''alice''" demo_dto demo_world demo_conv "\<lambda>_ w. w" "''m2''" 1 2 3]
    by (simp add: f getActive_live [OF demo_active(1,2,4,5)] none cr)
      (simp add: finish_send_def pushToUser_def sockets_in_def w new_message_def demo_conv_def)
qed

theorem send_idempotent_witness:
  "\<exists>w'. send (\<lambda>_ w. w) ''m2'' 0 1 2 3 ''alice'' demo_dto demo_world = ok (Sent_Message ''m2'' 2 1 False) w' \<and>
     send rival ''m3'' 5 6 7 8 ''alice'' (demo_dto\<lparr>sd_ciphertext := ''eW8=''\<rparr>) w' =
       ok (Deduped_Send ''m2'' 2 1) w'"
proof -
  obtain w' where s: "send (\<lambda>_ w. w) ''m2'' 0 1 2 3 ''alice'' demo_dto demo_world =
      ok (Sent_Message ''m2'' 2 1 False) w'" and c: "conversations w' = [demo_conv]"
    using demo_sent by blast
  let ?d = "demo_dto\<lparr>sd_ciphertext := ''eW8=''\<rparr>"
  have "getActiveConversationOrThrow 5 ''alice'' (sd_conversationId ?d) w' = ok demo_conv w'"
    by (rule getActive_live) (simp_all add: find_conv_def c demo_dto_def demo_conv_def participant_def)
  from send_idempotent [OF s this] s show ?thesis
    by (simp add: demo_dto_def demo_conv_def reply_ok_def given_def)
qed

text \<open>The retry loop is enough: if in at least one of the five attempts no other request
  writes between the read of the maximum and the insert, and no other request uses this client
  message id, the message is stored; a send can fail for lack of a number only when it loses five
  races in a row.\<close>

theorem create_succeeds:
  assumes "k < 5" and quiet: "\<And>w. interf (2 * k + 1) w = w"
    and fresh: "\<And>j w. find_client_message (sd_conversationId dto) (sd_clientMessageId dto) w = None \<Longrightarrow>
      find_client_message (sd_conversationId dto) (sd_clientMessageId dto) (interf j w) = None"
    and "find_client_message (sd_conversationId dto) (sd_clientMessageId dto) w = None"
  shows "\<exists>m w'. createMessageWithRetry interf dto mid u sentAt da w = ok (Created m) w' \<and>
    m \<in> set (messages w') \<and> ms_clientMessageId m = sd_clientMessageId dto"
proof -
  have "\<exists>m w'. create_loop (Suc d + r) interf (k - d) dto mid u sentAt da w = ok (Created m) w' \<and>
      m \<in> set (messages w') \<and> ms_clientMessageId m = sd_clientMessageId dto"
    if "d \<le> k" and "find_client_message (sd_conversationId dto) (sd_clientMessageId dto) w = None" for d r w
    using that
  proof (induction d arbitrary: w)
    case 0
    define w1 where "w1 = interf (2 * (k - 0)) w"
    have n: "find_client_message (sd_conversationId dto) (sd_clientMessageId dto) w1 = None"
      using 0 fresh by (simp add: w1_def)
    have "w1 = interf (2 * (k - 0) + 1) w1" using quiet by simp
    from create_loop_step [OF w1_def this refl, of r dto mid u sentAt da] show ?case
      using no_new_clash [OF n] by (simp add: new_message_def)
  next
    case (Suc d)
    define w1 where "w1 = interf (2 * (k - Suc d)) w"
    define w2 where "w2 = interf (2 * (k - Suc d) + 1) w1"
    let ?m = "new_message dto mid u sentAt da (next_counter (sd_conversationId dto) w1)"
    have n: "find_client_message (sd_conversationId dto) (sd_clientMessageId dto) w2 = None"
      using Suc.prems fresh by (simp add: w1_def w2_def)
    have nxt: "Suc (k - Suc d) = k - d" using Suc.prems by simp
    show ?case
    proof (cases "list_ex (message_clash ?m) (messages w2)")
      case True
      then show ?thesis using Suc.IH [OF _ n] Suc.prems
          create_loop_step [OF w1_def w2_def refl, of "Suc d + r" dto mid u sentAt da]
        by (simp add: n nxt)
    next
      case False
      then show ?thesis
        using create_loop_step [OF w1_def w2_def refl, of "Suc d + r" dto mid u sentAt da]
        by (simp add: new_message_def)
    qed
  qed
  from this [of k w "4 - k"] show ?thesis
    using assms(1,4) by (simp add: createMessageWithRetry_def max_sequence_retry_attempts_def)
qed

theorem create_succeeds_witness:
  "\<exists>m w'. createMessageWithRetry rival demo_dto ''m2'' ''alice'' 1 None demo_world = ok (Created m) w' \<and>
     m \<in> set (messages w') \<and> ms_clientMessageId m = ''k2''"
proof -
  have fresh: "find_client_message ''c'' ''k2'' (rival j w) = None"
    if "find_client_message ''c'' ''k2'' w = None" for j w
    using that by (auto simp: rival_def Let_def find_client_message_def find_append new_message_def
        demo_dto_def split: option.splits)
  have "find_client_message ''c'' ''k2'' demo_world = None"
    by (simp add: find_client_message_def demo_world_def demo_message_def)
  then show ?thesis
    using create_succeeds [of 1 rival demo_dto demo_world "''m2''" "''alice''" 1 None] fresh
    by (simp add: rival_def demo_dto_def)
qed

text \<open>C22. A sync returns exactly what the caller still has to receive: the other party's messages
  of the conversation above the caller's watermark that are live or deleted but not merely
  expired, in strictly increasing counter order, as \<open>computeSyncGap\<close> specifies; it never returns
  the caller's own messages, and it changes no content, counter or deletion mark.\<close>

theorem sync_exact:
  assumes run: "sync t t' now u cid since w = ok items w'" and inv: "messages_ok w"
  shows "items = map sync_item_of (computeSyncGap ms_syncVersion since (incoming u cid t' w)) \<and>
    sorted_wrt (\<lambda>x y. si_sequenceNumber x < si_sequenceNumber y) items \<and>
    set items = sync_item_of ` {m \<in> set (messages w). ms_conversationId m = cid \<and> ms_senderId m \<noteq> u \<and>
      since < ms_syncVersion m \<and> visible t' m} \<and>
    map message_core (messages w') = map message_core (messages w)"
proof -
  obtain c where g: "getActiveConversationOrThrow t u cid w = ok c w"
    using run getActive_ok by (auto simp: sync_def split: prod.splits sum.splits)
  let ?found = "computeSyncGap ms_syncVersion since (incoming u cid t' w)"
  have items: "items = map sync_item_of ?found"
    using run by (auto simp: sync_def g computeSyncGap_def Let_def)
  have inset: "set ?found = {m \<in> set (messages w). ms_conversationId m = cid \<and> ms_senderId m \<noteq> u \<and>
      since < ms_syncVersion m \<and> visible t' m}"
    by (auto simp: computeSyncGap_def incoming_def)
  have "distinct (map (\<lambda>m. (ms_conversationId m, ms_syncVersion m)) ?found)"
    using inv by (simp add: computeSyncGap_def incoming_def messages_ok_def distinct_map_filter
        distinct_map flip: distinct_map) (auto simp: distinct_map inj_on_def)
  then have "distinct (map ms_syncVersion ?found)"
    using inset by (auto simp: distinct_map inj_on_def)
  moreover have "sorted (map ms_syncVersion ?found)" by (simp add: computeSyncGap_def)
  ultimately have "sorted_wrt (<) (map ms_syncVersion ?found)"
    by (simp add: strict_sorted_iff)
  then have sorted: "sorted_wrt (\<lambda>x y. si_sequenceNumber x < si_sequenceNumber y) items"
    by (simp add: items sorted_wrt_map sync_item_of_def)
  have pushes: "messages (foldl (\<lambda>w i. push v (Delivery_Receipt cid i now) w) x is) = messages x" for v x "is"
    by (induction "is" arbitrary: x) simp_all
  have "map message_core (messages w') = map message_core (messages w)"
    using run by (auto simp: sync_def g Let_def pushes map_update_where)
  then show ?thesis using items sorted inset by simp
qed

definition demo_reply :: message_row where
  "demo_reply = demo_message\<lparr>ms_id := ''m0'', ms_senderId := ''bob'', ms_sequenceNumber := 2,
     ms_syncVersion := 2, ms_clientMessageId := ''k0''\<rparr>"

definition demo_chat :: world where
  "demo_chat = demo_world\<lparr>messages := [demo_reply, demo_message]\<rparr>"

lemma demo_chat_active:
  "getActiveConversationOrThrow t ''alice'' ''c'' demo_chat = ok demo_conv demo_chat"
  "getActiveConversationOrThrow t ''bob'' ''c'' demo_chat = ok demo_conv demo_chat"
  using demo_active by (auto intro!: getActive_live simp: find_conv_def demo_chat_def)

theorem sync_exact_witness:
  "\<exists>items w'. sync 0 1 2 ''bob'' ''c'' 0 demo_chat = ok items w' \<and> map si_id items = [''m'']"
proof -
  let ?s = "sync 0 1 2 ''bob'' ''c'' 0 demo_chat"
  have s: "?s = ok (case out ?s of Inr x \<Rightarrow> x | Inl e \<Rightarrow> []) (after ?s)"
    by (simp add: sync_def demo_chat_active Let_def)
  have "messages_ok demo_chat"
    by (simp add: messages_ok_def demo_chat_def demo_reply_def demo_message_def)
  from sync_exact [OF s this] show ?thesis
    by (subst s) (simp add: computeSyncGap_def incoming_def demo_chat_def demo_reply_def
        demo_message_def sync_item_of_def visible_def)
qed

lemma deleteMessage_alone:
  assumes "deleteMessage (\<lambda>_ w. w) t now u mid w = ok r w1" and "find_message mid w = Some m"
  obtains c where "find_conv (ms_conversationId m) w = Some c" "ms_senderId m = u"
    and "w1 = push (other_party u c) (Message_Deleted mid (ms_conversationId m))
      ((deleteForMessage mid w)\<lparr>messages := update_where (\<lambda>r. ms_id r = mid)
         (wipe now (next_counter (ms_conversationId m) w)) (messages w)\<rparr>)"
proof -
  let ?w0 = "deleteForMessage mid w" and ?v = "next_counter (ms_conversationId m) w"
  have f: "find_message mid ?w0 = Some m" "next_counter (ms_conversationId m) ?w0 = ?v"
    using assms(2) by (simp_all add: find_message_def next_counter_def in_conv_def)
  have b: "bump_loop max_sequence_retry_attempts (\<lambda>_ w. w) 0 (ms_conversationId m) mid (wipe now) ?w0 =
      ok ?v (?w0\<lparr>messages := update_where (\<lambda>r. ms_id r = mid) (wipe now ?v) (messages w)\<rparr>)"
    using bump_loop_alone [OF f(1) refl, of 4 0 "wipe now"] f(2)
    by (simp add: max_sequence_retry_attempts_def eval_nat_numeral)
  show ?thesis
    using assms that
    by (auto simp: deleteMessage_def conversation_of_def b split: option.splits if_splits)
qed

text \<open>A deletion reaches a recipient who was offline: whatever watermark the recipient has
  synced to, their next sync contains the deleted message, marked deleted, with empty ciphertext
  and nonce; and no attachment that was linked to the message can be downloaded any more, by
  anyone.\<close>

theorem delete_reaches_recipient:
  assumes del: "deleteMessage (\<lambda>_ w. w) t now u mid w = ok r w1"
    and m: "find_message mid w = Some m" "ms_conversationId m = cid"
    and watermark: "since < next_counter cid w"
    and sync: "sync t1 t2 t3 v cid since w1 = ok items w2" "v \<noteq> u"
  shows "(\<exists>x \<in> set items. si_id x = mid \<and> si_deleted x \<and> si_ciphertext x = '''' \<and> si_iv x = '''') \<and>
    (\<forall>i a. find_attachment i w = Some a \<and> at_messageId a = Some mid \<longrightarrow>
       (\<exists>e. download fetch t4 x i w1 = Inl e))"
proof -
  let ?gone = "wipe now (next_counter cid w) m"
  obtain c where c: "find_conv cid w = Some c" and u: "ms_senderId m = u"
    and w1: "w1 = push (other_party u c) (Message_Deleted mid cid)
      ((deleteForMessage mid w)\<lparr>messages := update_where (\<lambda>r. ms_id r = mid)
         (wipe now (next_counter cid w)) (messages w)\<rparr>)"
    using deleteMessage_alone [OF del m(1)] m(2) by metis
  have gone: "find_message mid w1 = Some ?gone" "find_conv cid w1 = Some c"
    using m c by (auto simp: w1 find_message_def find_conv_def find_update_where wipe_def
        dest: find_Some_in)
  then have row: "?gone \<in> set (messages w1)" by (blast dest: find_message_Some)
  obtain d where g: "getActiveConversationOrThrow t1 v cid w1 = ok d w1"
    using sync getActive_ok by (auto simp: sync_def split: prod.splits sum.splits)
  have items: "items = map sync_item_of (computeSyncGap ms_syncVersion since (incoming v cid t2 w1))"
    using sync by (auto simp: sync_def g computeSyncGap_def Let_def)
  have "?gone \<in> set (computeSyncGap ms_syncVersion since (incoming v cid t2 w1))"
    using row watermark sync(2) u m find_message_Some [OF m(1)]
    by (simp add: computeSyncGap_def incoming_def wipe_def visible_def)
  then have "sync_item_of ?gone \<in> set items" by (simp add: items)
  moreover have "si_id (sync_item_of ?gone) = mid" "si_deleted (sync_item_of ?gone)"
      "si_ciphertext (sync_item_of ?gone) = ''''" "si_iv (sync_item_of ?gone) = ''''"
    using find_message_Some [OF m(1)] by (simp_all add: sync_item_of_def wipe_def)
  moreover have "\<exists>e. download fetch t4 x i w1 = Inl e"
    if a: "find_attachment i w = Some a" "at_messageId a = Some mid" for i a
  proof (cases "find_attachment i w1")
    case None
    then show ?thesis by (simp add: download_def)
  next
    case (Some b)
    obtain a0 where a0: "find (\<lambda>a. at_messageId a = Some mid) (attachments w) = Some a0"
      using a find_attachment_Some [OF a(1)] by (cases "find (\<lambda>a. at_messageId a = Some mid) (attachments w)")
        (auto simp: find_None_iff)
    have "attachments w1 = delete_where (\<lambda>r. at_id r = at_id a0) (attachments w)"
      by (simp add: w1 deleteForMessage_def a0)
    then have "find_attachment i w1 = (if i = at_id a0 then None else find_attachment i w)"
      by (simp add: find_attachment_def find_delete_where_key)
    with Some a(1) have "b = a" by (auto split: if_splits)
    then have "attached_message b w1 = Some ?gone" "attachment_conv b w1 = Some c"
      using a(2) gone m(2) by (simp_all add: attached_message_def attachment_conv_def wipe_def)
    then show ?thesis using Some by (auto simp: download_def Let_def wipe_def)
  qed
  ultimately show ?thesis by blast
qed

theorem delete_reaches_recipient_witness:
  "\<exists>w1 items w2. deleteMessage (\<lambda>_ w. w) 0 9 ''alice'' ''m'' demo_chat = ok () w1 \<and>
     sync 10 11 12 ''bob'' ''c'' 1 w1 = ok items w2 \<and>
     (\<exists>x \<in> set items. si_id x = ''m'' \<and> si_deleted x)"
proof -
  have m: "find_message ''m'' demo_chat = Some demo_message" "ms_conversationId demo_message = ''c''"
    by (simp_all add: find_message_def demo_chat_def demo_reply_def demo_message_def)
  have c: "find_conv ''c'' demo_chat = Some demo_conv" "attachments demo_chat = []" "connections demo_chat = []"
    by (simp_all add: find_conv_def demo_chat_def demo_defs)
  have nc: "(1::int) < next_counter ''c'' demo_chat"
    using next_counter_above(1) [of demo_message demo_chat "''c''"] m
    by (simp add: demo_chat_def demo_message_def)
  let ?d = "deleteMessage (\<lambda>_ w. w) 0 9 ''alice'' ''m'' demo_chat"
  have d: "?d = ok () (after ?d)" and conv: "conversations (after ?d) = [demo_conv]"
    using bump_loop_alone [OF m(1) m(2) [symmetric], of 4 0 "wipe 9"]
    by (simp_all add: deleteMessage_def m conversation_of_def c max_sequence_retry_attempts_def
        eval_nat_numeral deleteForMessage_def demo_message_def)
      (simp_all add: demo_conv_def demo_chat_def demo_world_def)
  let ?s = "sync 10 11 12 ''bob'' ''c'' 1 (after ?d)"
  have "getActiveConversationOrThrow 10 ''bob'' ''c'' (after ?d) = ok demo_conv (after ?d)"
    using demo_active by (intro getActive_live) (simp_all add: find_conv_def conv demo_conv_def)
  then obtain items w2 where s: "?s = ok items w2" by (simp add: sync_def Let_def)
  from delete_reaches_recipient [THEN conjunct1, OF d m nc s]
  have "\<exists>x \<in> set items. si_id x = ''m'' \<and> si_deleted x" by auto
  with d s show ?thesis by blast
qed

text \<open>An edit that races with a deletion restores the deleted content: when the deletion
  lands between the edit's check and its write, the row ends up marked deleted and holding the
  new ciphertext.\<close>

theorem edit_races_delete:
  assumes m: "find_message mid w = Some m" "ms_senderId m = u" "ms_deletedAt m = None"
    and c: "find_conv (ms_conversationId m) w = Some c" "\<not> past (cv_expiresAt c) t" "\<not> past (cv_expiresAt c) t'"
    and race: "interf 0 = (\<lambda>w. after (deleteMessage (\<lambda>_ w. w) t' gone u mid w))" "interf 1 = (\<lambda>w. w)"
  shows "\<exists>w' x. editMessage interf t now u mid ct iv w = ok () w' \<and> find_message mid w' = Some x \<and>
    ms_deletedAt x = Some gone \<and> ms_ciphertext x = b64_decode ct"
proof -
  let ?v = "next_counter (ms_conversationId m) w" and ?w0 = "deleteForMessage mid w"
  have "bump_loop max_sequence_retry_attempts (\<lambda>_ w. w) 0 (ms_conversationId m) mid (wipe gone) ?w0 =
      ok (next_counter (ms_conversationId m) ?w0)
        (?w0\<lparr>messages := update_where (\<lambda>r. ms_id r = mid)
          (wipe gone (next_counter (ms_conversationId m) ?w0)) (messages ?w0)\<rparr>)"
    using bump_loop_alone [of mid ?w0 m _ 4] m(1)
    by (simp add: max_sequence_retry_attempts_def eval_nat_numeral find_message_def)
  then obtain w1 where d: "deleteMessage (\<lambda>_ w. w) t' gone u mid w = ok () w1"
    using m c by (auto simp: deleteMessage_def conversation_of_def)
  from deleteMessage_alone [OF d m(1)] obtain c' where
    w1: "w1 = push (other_party u c') (Message_Deleted mid (ms_conversationId m))
      (?w0\<lparr>messages := update_where (\<lambda>r. ms_id r = mid) (wipe gone ?v) (messages w)\<rparr>)" by metis
  let ?x = "wipe gone ?v m"
  have x: "find_message mid w1 = Some ?x"
    using m(1) find_message_Some [OF m(1)]
    by (auto simp: w1 find_message_def find_update_where wipe_def)
  have xc: "ms_conversationId ?x = ms_conversationId m" by (simp add: wipe_def)
  let ?n = "next_counter (ms_conversationId m) w1"
  have "bump_loop max_sequence_retry_attempts interf 0 (ms_conversationId m) mid (edit_change ct iv now) w =
      ok ?n (w1\<lparr>messages := update_where (\<lambda>r. ms_id r = mid) (edit_change ct iv now ?n) (messages w1)\<rparr>)"
    using no_bump_clash [OF x] bump_loop_step [of w1 interf 0 w w1 ?n "ms_conversationId m" 4 mid
        "edit_change ct iv now"]
    by (simp add: race [simplified] d x xc max_sequence_retry_attempts_def eval_nat_numeral)
  then show ?thesis
    using m c x find_message_Some [OF m(1)]
    by (simp add: editMessage_def conversation_of_def)
      (simp add: find_message_def find_update_where edit_change_def wipe_def)
qed

theorem edit_races_delete_witness:
  "\<exists>w' x. editMessage (\<lambda>k w. if k = 0 then after (deleteMessage (\<lambda>_ w. w) 0 9 ''alice'' ''m'' w) else w)
       0 10 ''alice'' ''m'' ''aGk='' ''aXY='' demo_chat = ok () w' \<and>
     find_message ''m'' w' = Some x \<and> ms_deletedAt x = Some 9 \<and> ms_ciphertext x = b64_decode ''aGk=''"
proof (rule edit_races_delete)
  show "find_message ''m'' demo_chat = Some demo_message"
    by (simp add: find_message_def demo_chat_def demo_reply_def demo_message_def)
  show "find_conv (ms_conversationId demo_message) demo_chat = Some demo_conv"
    by (simp add: find_conv_def demo_chat_def demo_defs)
qed (simp_all add: demo_message_def demo_conv_def)

text \<open>A send that names an attachment which cannot be linked fails, but only after its
  message has been stored: the row stays, nobody is told about it, and a retry is answered as a
  duplicate, so the attachment is never linked.\<close>

theorem failed_link_leaves_message:
  assumes g: "getActiveConversationOrThrow t u (sd_conversationId dto) w = ok c w"
      "sd_sessionEpoch dto = Some (cv_sessionEpoch c)" "reply_ok dto w"
    and new: "find_client_message (sd_conversationId dto) (sd_clientMessageId dto) w = None"
    and att: "given (sd_attachmentId dto) = Some a" "find_attachment a w = None"
  shows "\<exists>w' m. send (\<lambda>_ w. w) mid t t1 t2 t3 u dto w = fail (Not_Found ''Attachment not found'') w' \<and>
    messages w' = messages w @ [m] \<and> ms_id m = mid \<and> emitted w' = emitted w \<and>
    send (\<lambda>_ w. w) mid' t t1' t2' t3' u dto w' = ok (Deduped_Send mid (ms_sequenceNumber m) t1) w'"
proof -
  let ?m = "new_message dto mid u t1 (send_disappearAt c (read_receipts_enabled (other_party u c) w) t1)
      (next_counter (sd_conversationId dto) w)"
  let ?w = "w\<lparr>messages := messages w @ [?m]\<rparr>"
  have cr: "createMessageWithRetry (\<lambda>_ w. w) dto mid u t1
      (send_disappearAt c (read_receipts_enabled (other_party u c) w) t1) w = ok (Created ?m) ?w"
    using create_loop_alone [OF new, of 4 0]
    by (simp add: createMessageWithRetry_def max_sequence_retry_attempts_def eval_nat_numeral Let_def)
  have "find_attachment a ?w = None" using att(2) by (simp add: find_attachment_def)
  then have s: "send (\<lambda>_ w. w) mid t t1 t2 t3 u dto w = fail (Not_Found ''Attachment not found'') ?w"
    using send_guards_passed [OF g, of "\<lambda>_ w. w" mid t1 t2 t3]
    by (simp add: new cr att(1) linkToMessage_def)
  have "getActiveConversationOrThrow t u (sd_conversationId dto) ?w = ok c ?w"
    using getActive_ok [OF g(1)] by (intro getActive_live) (simp_all add: find_conv_def)
  moreover have "reply_ok dto ?w" using g(3) by (auto simp: reply_ok_def split: option.splits)
  moreover have "find_client_message (sd_conversationId dto) (sd_clientMessageId dto) ?w = Some ?m"
    using new by (simp add: find_client_message_def find_append) (simp add: new_message_def)
  ultimately have "send (\<lambda>_ w. w) mid' t t1' t2' t3' u dto ?w =
      ok (Deduped_Send (ms_id ?m) (ms_sequenceNumber ?m) (ms_sentAt ?m)) ?w"
    using g(2) send_guards_passed [of t u dto ?w c "\<lambda>_ w. w" mid' t1' t2' t3'] by simp
  then show ?thesis using s
    by (intro exI [of _ ?w] exI [of _ ?m]) (simp add: new_message_def)
qed

theorem failed_link_leaves_message_witness:
  "\<exists>w' m. send (\<lambda>_ w. w) ''m2'' 0 1 2 3 ''alice'' (demo_dto\<lparr>sd_attachmentId := Some ''a''\<rparr>) demo_world =
       fail (Not_Found ''Attachment not found'') w' \<and> messages w' = messages demo_world @ [m] \<and>
     ms_id m = ''m2'' \<and> emitted w' = emitted demo_world \<and>
     send (\<lambda>_ w. w) ''m3'' 0 4 5 6 ''alice'' (demo_dto\<lparr>sd_attachmentId := Some ''a''\<rparr>) w' =
       ok (Deduped_Send ''m2'' (ms_sequenceNumber m) 1) w'"
proof (rule failed_link_leaves_message)
  show "getActiveConversationOrThrow 0 ''alice'' (sd_conversationId (demo_dto\<lparr>sd_attachmentId := Some ''a''\<rparr>))
      demo_world = ok demo_conv demo_world"
    using demo_active by (intro getActive_live) (simp_all add: demo_dto_def)
qed (simp_all add: demo_dto_def reply_ok_def given_def demo_conv_def find_client_message_def
      find_attachment_def demo_world_def demo_message_def empty_world_def)

lemma find_settings_cong: "user_settings w' = user_settings w \<Longrightarrow> find_settings u w' = find_settings u w"
  by (simp add: find_settings_def)

lemma foldl_push_frame [simp]:
  "messages (foldl (\<lambda>w i. push v (f i) w) x is) = messages x"
  "conversations (foldl (\<lambda>w i. push v (f i) w) x is) = conversations x"
  "user_settings (foldl (\<lambda>w i. push v (f i) w) x is) = user_settings x"
  by (induction "is" arbitrary: x) simp_all

lemma find_message_foldl_push [simp]:
  "find_message j (foldl (\<lambda>w i. push v (f i) w) x is) = find_message j x"
  by (simp add: find_message_def)

lemma mark_delivered_no_timer:
  "delivered_timer c = None \<Longrightarrow> mark_delivered c t m = m\<lparr>ms_deliveredAt := Some t\<rparr>"
  by (simp add: mark_delivered_def)

lemma finish_send_no_timer:
  assumes "delivered_timer c = None" and "finish_send t t' u dto c m w = (res, w')"
    and "find_message (ms_id m) w = Some x"
  shows "\<exists>d. find_message (ms_id m) w' = Some (x\<lparr>ms_deliveredAt := d\<rparr>)"
    and "user_settings w' = user_settings w"
proof -
  let ?w1 = "push (other_party u c) (New_Message (ms_id m) (sd_conversationId dto) u (ms_sequenceNumber m)
     (sd_ciphertext dto) (sd_iv dto) (sd_messageType dto) (sd_replyToMessageId dto) (ms_sentAt m)) w"
  have w': "w' = ?w1 \<or> w' = after (markDelivered t (ms_id m) c ?w1) \<or>
      w' = push u (Delivery_Receipt (sd_conversationId dto) (ms_id m) t')
             (after (markDelivered t (ms_id m) c ?w1))"
    using assms(2) by (auto simp: finish_send_def Let_def case_prod_beta split: if_splits sum.splits)
  have "find_message (ms_id m) (after (markDelivered t (ms_id m) c ?w1)) = Some (x\<lparr>ms_deliveredAt := Some t\<rparr>)"
    using assms(1,3) find_message_Some [OF assms(3)]
    by (simp add: markDelivered_def find_message_def find_update_where mark_delivered_no_timer)
  moreover have "x = x\<lparr>ms_deliveredAt := ms_deliveredAt x\<rparr>" by simp
  ultimately show "\<exists>d. find_message (ms_id m) w' = Some (x\<lparr>ms_deliveredAt := d\<rparr>)"
    using w' assms(3) by (auto intro: exI [of _ "ms_deliveredAt x"])
  show "user_settings w' = user_settings w" using w' by (auto simp: markDelivered_def)
qed

lemma finish_send_ok:
  "ms_id m \<in> ms_id ` set (messages w) \<Longrightarrow>
     \<exists>d w'. finish_send t t' u dto c m w = ok (Sent_Message (ms_id m) (ms_sequenceNumber m) (ms_sentAt m) d) w'"
  using finish_send_cases(3) [OF surjective_pairing, of m w t t' u dto c] by (metis surjective_pairing)

definition undelivered :: "ident \<Rightarrow> ident \<Rightarrow> instant \<Rightarrow> int \<Rightarrow> world \<Rightarrow> ident list" where
  "undelivered u cid t since w = map ms_id (filter (\<lambda>m. ms_deliveredAt m = None \<and> ms_deletedAt m = None)
     (sort_key ms_syncVersion (filter (\<lambda>m. ms_syncVersion m > since) (incoming u cid t w))))"

lemma sync_effect:
  assumes "getActiveConversationOrThrow t u cid w = ok c w"
  shows "\<exists>items w'. sync t t' now u cid since w = ok items w' \<and>
    messages w' = update_where (\<lambda>m. ms_id m \<in> set (undelivered u cid t' since w))
      (mark_delivered c now) (messages w) \<and>
    conversations w' = conversations w \<and> user_settings w' = user_settings w"
proof (cases "undelivered u cid t' since w = []")
  case True
  then show ?thesis by (simp add: sync_def assms Let_def undelivered_def update_where_id)
next
  case False
  then show ?thesis by (simp add: sync_def assms Let_def undelivered_def)
qed

text \<open>A disappearing timer that starts on read never starts when the reader has read receipts
  off: the rule says such a timer falls back to delivery, but a message that is sent, synced by
  its recipient and marked read by them is left delivered, read, and without an expiry.\<close>

theorem read_timer_never_starts:
  assumes g: "getActiveConversationOrThrow t u (sd_conversationId dto) w = ok c w"
      "sd_sessionEpoch dto = Some (cv_sessionEpoch c)" "reply_ok dto w"
      "find_client_message (sd_conversationId dto) (sd_clientMessageId dto) w = None"
      "given (sd_attachmentId dto) = None"
    and fresh: "mid \<notin> ms_id ` set (messages w)"
    and timer: "cv_timerSeconds c = Some s" "s \<noteq> 0" "cv_trigger c = Some Read"
    and reader: "v = other_party u c" "v \<noteq> u" "\<not> read_receipts_enabled v w"
    and time: "\<not> past (cv_expiresAt c) t4" "\<not> past (cv_expiresAt c) t7"
    and watermark: "since < next_counter (sd_conversationId dto) w"
  shows "\<exists>d w1 items w2 w3 x.
    send (\<lambda>_ w. w) mid t t1 t2 t3 u dto w =
      ok (Sent_Message mid (next_counter (sd_conversationId dto) w) t1 d) w1 \<and>
    sync t4 t5 t6 v (sd_conversationId dto) since w1 = ok items w2 \<and>
    markRead t7 t8 v mid w2 = ok () w3 \<and>
    find_message mid w3 = Some x \<and> ms_readAt x = Some t8 \<and> ms_deliveredAt x \<noteq> None \<and>
    ms_disappearAt x = None \<and>
    resolveDisappearTrigger \<lparr>dc_timerSeconds = Some s, dc_trigger = Read,
      dc_readReceiptsEnabled = read_receipts_enabled v w\<rparr> = Delivered"
proof -
  let ?c = "sd_conversationId dto"
  have no: "delivered_timer c = None" by (simp add: delivered_timer_def timer)
  have c: "find_conv ?c w = Some c" "participant u c" "cv_status c = Cv_Active" "cv_id c = ?c"
    using getActive_ok [OF g(1)] by auto
  have pv: "participant v c" using reader(1,2) c(2) by (auto simp: participant_def other_party_def)
  have da: "send_disappearAt c (read_receipts_enabled (other_party u c) w) t1 = None"
    using reader(1,3) by (simp add: send_disappearAt_def timer resolveDisappearTrigger_def)
  let ?m = "new_message dto mid u t1 None (next_counter ?c w)"
  let ?w = "w\<lparr>messages := messages w @ [?m]\<rparr>"
  have m: "find_message (ms_id ?m) ?w = Some ?m" "ms_id ?m = mid"
    using fresh by (auto simp: find_message_def find_append find_None_iff new_message_def
        split: option.splits dest!: find_Some_in)
  have cr: "createMessageWithRetry (\<lambda>_ w. w) dto mid u t1 None w = ok (Created ?m) ?w"
    using create_loop_alone [OF g(4), of 4 0]
    by (simp add: createMessageWithRetry_def max_sequence_retry_attempts_def eval_nat_numeral Let_def)
  obtain d w1 where f: "finish_send t2 t3 u dto c ?m ?w =
      ok (Sent_Message mid (next_counter ?c w) t1 d) w1"
    using finish_send_ok [of ?m ?w t2 t3 u dto c] by (auto simp: new_message_def)
  have s1: "send (\<lambda>_ w. w) mid t t1 t2 t3 u dto w = ok (Sent_Message mid (next_counter ?c w) t1 d) w1"
    using send_guards_passed [OF g(1-3), of "\<lambda>_ w. w" mid t1 t2 t3] by (simp add: g(4,5) da cr f)
  obtain d1 where x1: "find_message mid w1 = Some (?m\<lparr>ms_deliveredAt := d1\<rparr>)"
    using finish_send_no_timer(1) [OF no f m(1)] m(2) by auto
  have w1: "conversations w1 = conversations w" "user_settings w1 = user_settings w"
    using finish_send_cases(2) [OF f] finish_send_no_timer(2) [OF no f m(1)] by simp_all
  have g1: "getActiveConversationOrThrow t4 v ?c w1 = ok c w1"
    using c pv time(1) by (intro getActive_live) (simp_all add: find_conv_def w1)
  let ?ids = "undelivered v ?c t5 since w1"
  obtain items w2 where s2: "sync t4 t5 t6 v ?c since w1 = ok items w2"
    and w2: "messages w2 = update_where (\<lambda>m. ms_id m \<in> set ?ids) (mark_delivered c t6) (messages w1)"
      "conversations w2 = conversations w1" "user_settings w2 = user_settings w1"
    using sync_effect [OF g1] by blast
  let ?x = "?m\<lparr>ms_deliveredAt := d1\<rparr>"
  have "?x \<in> set (messages w1)" using find_message_Some [OF x1] by simp
  then have "d1 = None \<longrightarrow> mid \<in> set ?ids"
    using watermark reader(2)
    by (simp add: undelivered_def, intro impI image_eqI [of _ _ ?x])
      (simp_all add: incoming_def new_message_def visible_def)
  moreover have "find_message mid w2 = map_option (\<lambda>m. if ms_id m \<in> set ?ids then mark_delivered c t6 m else m)
      (find_message mid w1)"
    unfolding find_message_def w2 by (rule find_update_where) (simp add: mark_delivered_no_timer [OF no])
  then have "find_message mid w2 = Some (if mid \<in> set ?ids then ?m\<lparr>ms_deliveredAt := Some t6\<rparr> else ?x)"
    using m(2) by (simp add: x1 mark_delivered_no_timer [OF no])
  ultimately have "find_message mid w2 =
      Some (?m\<lparr>ms_deliveredAt := (if mid \<in> set ?ids then Some t6 else d1)\<rparr>) \<and>
      (if mid \<in> set ?ids then Some t6 else d1) \<noteq> None" by (cases d1) simp_all
  then obtain d2 where x2: "find_message mid w2 = Some (?m\<lparr>ms_deliveredAt := d2\<rparr>)" "d2 \<noteq> None"
    by blast
  have rr: "\<not> read_receipts_enabled v w2"
    using reader(3) find_settings_cong [of w2 w] by (simp add: read_receipts_enabled_def w2 w1)
  have conv: "conversation_of (?m\<lparr>ms_deliveredAt := d2\<rparr>) w2 = Some c"
    using c(1) by (simp add: conversation_of_def find_conv_def w2 w1 new_message_def)
  let ?w3 = "w2\<lparr>messages := update_where (\<lambda>m. ms_id m = mid)
      (read_change c False t8 (?m\<lparr>ms_deliveredAt := d2\<rparr>)) (messages w2)\<rparr>"
  have s3: "markRead t7 t8 v mid w2 = ok () ?w3"
    using pv time(2) reader(2) rr
    by (simp add: markRead_def x2 conv participant_def) (simp add: new_message_def)
  have ch: "read_change c False t8 (?m\<lparr>ms_deliveredAt := d2\<rparr>) m = m\<lparr>ms_readAt := Some t8\<rparr>" for m
    by (simp add: read_change_def timer resolveDisappearTrigger_def)
  have "find_message mid ?w3 = map_option (\<lambda>m. if ms_id m = mid then m\<lparr>ms_readAt := Some t8\<rparr> else m)
      (find_message mid w2)"
    by (simp add: find_message_def ch find_update_where cong: if_cong)
  then have x3: "find_message mid ?w3 = Some (?m\<lparr>ms_deliveredAt := d2, ms_readAt := Some t8\<rparr>)"
    using m(2) by (simp add: x2(1))
  show ?thesis
    by (intro exI conjI, rule s1, rule s2, rule s3, rule x3)
      (use x2(2) reader(3) in \<open>simp_all add: new_message_def resolveDisappearTrigger_def\<close>)
qed

definition demo_read_timer :: world where
  "demo_read_timer = demo_world\<lparr>
     conversations := [demo_conv\<lparr>cv_timerSeconds := Some 30, cv_trigger := Some Read\<rparr>],
     user_settings := [(demo_settings ''bob'' True)\<lparr>st_readReceiptsEnabled := False\<rparr>]\<rparr>"

theorem read_timer_never_starts_witness:
  "\<exists>d w1 items w2 w3 x n.
     send (\<lambda>_ w. w) ''m2'' 0 1 2 3 ''alice'' demo_dto demo_read_timer = ok (Sent_Message ''m2'' n 1 d) w1 \<and>
     sync 4 5 6 ''bob'' ''c'' 0 w1 = ok items w2 \<and> markRead 7 8 ''bob'' ''m2'' w2 = ok () w3 \<and>
     find_message ''m2'' w3 = Some x \<and> ms_readAt x = Some 8 \<and> ms_disappearAt x = None"
proof -
  let ?c = "demo_conv\<lparr>cv_timerSeconds := Some 30, cv_trigger := Some Read\<rparr>"
  have c: "sd_conversationId demo_dto = ''c''" by (simp add: demo_dto_def)
  have g: "getActiveConversationOrThrow 0 ''alice'' (sd_conversationId demo_dto) demo_read_timer =
      ok ?c demo_read_timer"
    by (rule getActive_live) (simp_all add: c find_conv_def demo_read_timer_def demo_conv_def participant_def)
  have msgs: "messages demo_read_timer = [demo_message]"
    by (simp add: demo_read_timer_def demo_world_def)
  have nc: "(0::int) < next_counter ''c'' demo_read_timer"
    using next_counter_above(1) [of demo_message demo_read_timer "''c''"]
    by (simp add: msgs demo_message_def)
  have "\<exists>d w1 items w2 w3 x.
     send (\<lambda>_ w. w) ''m2'' 0 1 2 3 ''alice'' demo_dto demo_read_timer =
       ok (Sent_Message ''m2'' (next_counter (sd_conversationId demo_dto) demo_read_timer) 1 d) w1 \<and>
     sync 4 5 6 ''bob'' (sd_conversationId demo_dto) 0 w1 = ok items w2 \<and>
     markRead 7 8 ''bob'' ''m2'' w2 = ok () w3 \<and>
     find_message ''m2'' w3 = Some x \<and> ms_readAt x = Some 8 \<and> ms_deliveredAt x \<noteq> None \<and>
     ms_disappearAt x = None \<and>
     resolveDisappearTrigger \<lparr>dc_timerSeconds = Some 30, dc_trigger = Read,
       dc_readReceiptsEnabled = read_receipts_enabled ''bob'' demo_read_timer\<rparr> = Delivered"
    by (rule read_timer_never_starts [OF g])
      (use nc in \<open>simp_all add: c msgs demo_dto_def reply_ok_def given_def find_client_message_def
         demo_message_def demo_conv_def other_party_def read_receipts_enabled_def find_settings_def
         demo_read_timer_def demo_settings_def demo_world_def\<close>)
  then show ?thesis unfolding c by blast
qed

end
