(* ===== verification/Pairing.thy ===== *)
theory Pairing
  imports Messages
begin

text \<open>
  Pairing codes and the handshakes that follow a redemption:
  \<open>pairing/pairing.service.ts\<close> and \<open>handshake/handshake.service.ts\<close>.

  Random draws and nonces are arguments, one per attempt of a loop. The table
  constraints (one row per HMAC and status, one active forever code per
  creator) are checked at every write as the database checks them; a write that
  would break one throws \<open>Unique_Violation\<close> and changes nothing. Where a handler
  reads first and writes later, the interference of other requests in between
  is an argument.
\<close>

section \<open>The table of codes\<close>

definition forever_active :: "pairing_row \<Rightarrow> bool" where
  "forever_active r \<longleftrightarrow> pc_expiresAt r = None \<and> pc_status r = Pc_Active"

definition codes_ok :: "pairing_row list \<Rightarrow> bool" where
  "codes_ok rs \<longleftrightarrow> distinct (map (\<lambda>r. (pc_codeHmac r, pc_status r)) rs) \<and>
     distinct (map pc_creatorUserId (filter forever_active rs))"

definition commit_codes :: "pairing_row list \<Rightarrow> world \<Rightarrow> unit res" where
  "commit_codes rs w =
     (if codes_ok rs then ok () (w\<lparr>pairing_codes := rs\<rparr>) else fail Unique_Violation w)"

definition update_code :: "ident \<Rightarrow> (pairing_row \<Rightarrow> pairing_row) \<Rightarrow> world \<Rightarrow> unit res" where
  "update_code i f w =
     (if find (\<lambda>r. pc_id r = i) (pairing_codes w) = None then fail Record_Missing w
      else commit_codes (update_where (\<lambda>r. pc_id r = i) f (pairing_codes w)) w)"

definition new_code :: "ident \<Rightarrow> ident \<Rightarrow> string \<Rightarrow> string \<Rightarrow> instant option \<Rightarrow> instant \<Rightarrow> pairing_row" where
  "new_code pid userId codeHmac codeText expiresAt now =
     \<lparr>pc_id = pid, pc_creatorUserId = userId, pc_codeHmac = codeHmac, pc_codeText = Some codeText,
      pc_status = Pc_Active, pc_expiresAt = expiresAt, pc_usedByUserId = None, pc_usedAt = None,
      pc_failedAttempts = 0, pc_lockedUntil = None, pc_createdAt = now\<rparr>"

definition create_code :: "pairing_row \<Rightarrow> world \<Rightarrow> unit res" where
  "create_code r w = commit_codes (pairing_codes w @ [r]) w"

definition my_forever_code :: "ident \<Rightarrow> world \<Rightarrow> pairing_row option" where
  "my_forever_code userId w =
     find (\<lambda>r. pc_creatorUserId r = userId \<and> forever_active r) (pairing_codes w)"

definition active_with_hmac :: "string \<Rightarrow> world \<Rightarrow> pairing_row option" where
  "active_with_hmac h w = find (\<lambda>r. pc_codeHmac r = h \<and> pc_status r = Pc_Active) (pairing_codes w)"

section \<open>create\<close>

text \<open>The three shapes of \<open>durationSeconds\<close>: \<open>null\<close>, missing, a number.\<close>

datatype duration = Forever | Unspecified | Seconds int

type_synonym created_code = "ident \<times> string \<times> instant option"

text \<open>The readable code of a row: \<open>codeText\<close> when it is there and decrypts to a non-empty code.\<close>

definition readable_code :: "crypto \<Rightarrow> string \<Rightarrow> pairing_row \<Rightarrow> string option" where
  "readable_code C pepper r =
     (case given (pc_codeText r) of None \<Rightarrow> None | Some t \<Rightarrow> given (decryptPairingCode C t pepper))"

definition max_code_collision_retry_attempts :: nat where
  "max_code_collision_retry_attempts = 5"

fun forever_loop ::
  "crypto \<Rightarrow> string \<Rightarrow> (nat \<Rightarrow> world \<Rightarrow> world) \<Rightarrow> (nat \<Rightarrow> nat list) \<Rightarrow> (nat \<Rightarrow> bytes) \<Rightarrow>
     nat list \<Rightarrow> bytes \<Rightarrow> ident \<Rightarrow> instant \<Rightarrow> nat \<Rightarrow> nat \<Rightarrow> ident \<Rightarrow> world \<Rightarrow> created_code res" where
  "forever_loop C pepper interf draws ivs heal heal_iv pid now 0 k userId w =
     fail (Server_Error ''Could not generate a unique Forever Code'') w"
| "forever_loop C pepper interf draws ivs heal heal_iv pid now (Suc n) k userId w =
     (let code = generateForeverCode (draws k);
          w0 = interf k w
      in case create_code (new_code pid userId (hashPairingCode C code pepper)
                (encryptPairingCode C (ivs k) code pepper) None now) w0 of
           (Inr _, w1) \<Rightarrow> ok (pid, code, None) w1
         | (Inl e, w1) \<Rightarrow>
             if e \<noteq> Unique_Violation then fail e w1
             else case my_forever_code userId w1 of
               Some concurrent \<Rightarrow>
                 (case readable_code C pepper concurrent of
                    Some dec \<Rightarrow> ok (pc_id concurrent, dec, None) w1
                  | None \<Rightarrow>
                      let healedCode = generateForeverCode heal
                      in case update_code (pc_id concurrent)
                             (\<lambda>r. r\<lparr>pc_codeHmac := hashPairingCode C healedCode pepper,
                                    pc_codeText := Some (encryptPairingCode C heal_iv healedCode pepper)\<rparr>) w1 of
                           (Inl e', w2) \<Rightarrow> fail e' w2
                         | (Inr _, w2) \<Rightarrow> ok (pc_id concurrent, healedCode, None) w2)
             | None \<Rightarrow>
                 if n > 0
                 then forever_loop C pepper interf draws ivs heal heal_iv pid now n (Suc k) userId w1
                 else fail e w1)"

fun timed_loop ::
  "crypto \<Rightarrow> string \<Rightarrow> (nat \<Rightarrow> world \<Rightarrow> world) \<Rightarrow> (nat \<Rightarrow> nat list) \<Rightarrow> (nat \<Rightarrow> bytes) \<Rightarrow> ident \<Rightarrow> instant \<Rightarrow>
     instant option \<Rightarrow> nat \<Rightarrow> nat \<Rightarrow> ident \<Rightarrow> world \<Rightarrow> created_code res" where
  "timed_loop C pepper interf draws ivs pid now expiresAt 0 k userId w =
     fail (Server_Error ''Could not generate a unique pairing code'') w"
| "timed_loop C pepper interf draws ivs pid now expiresAt (Suc n) k userId w =
     (let code = generatePairingCode (draws k);
          w0 = interf k w
      in case create_code (new_code pid userId (hashPairingCode C code pepper)
                (encryptPairingCode C (ivs k) code pepper) expiresAt now) w0 of
           (Inr _, w1) \<Rightarrow> ok (pid, code, expiresAt) w1
         | (Inl e, w1) \<Rightarrow>
             if e = Unique_Violation \<and> n > 0
             then timed_loop C pepper interf draws ivs pid now expiresAt n (Suc k) userId w1
             else fail e w1)"

definition custom_code ::
  "crypto \<Rightarrow> string \<Rightarrow> bytes \<Rightarrow> ident \<Rightarrow> instant \<Rightarrow> ident \<Rightarrow> string \<Rightarrow> world \<Rightarrow> created_code res" where
  "custom_code C pepper iv pid now userId customCode w =
     (let clean = normalizePairingCode customCode
      in if \<not> isValidPairingCode clean
         then fail (Bad_Request ''Forever Code must be exactly 6 alphanumeric characters'') w
         else let codeHmac = hashPairingCode C clean pepper;
                  taken = (case active_with_hmac codeHmac w of None \<Rightarrow> False
                           | Some r \<Rightarrow> pc_creatorUserId r \<noteq> userId)
              in if taken then fail (Conflict ''This 6-character code is already taken'') w
                 else case my_forever_code userId w of
                   Some existing \<Rightarrow>
                     (case update_code (pc_id existing)
                            (\<lambda>r. r\<lparr>pc_codeHmac := codeHmac,
                                   pc_codeText := Some (encryptPairingCode C iv clean pepper),
                                   pc_failedAttempts := 0, pc_lockedUntil := None\<rparr>) w of
                        (Inl e, w1) \<Rightarrow> fail e w1
                      | (Inr _, w1) \<Rightarrow> ok (pc_id existing, clean, None) w1)
                 | None \<Rightarrow>
                     (case create_code (new_code pid userId codeHmac
                              (encryptPairingCode C iv clean pepper) None now) w of
                        (Inl e, w1) \<Rightarrow> fail e w1
                      | (Inr _, w1) \<Rightarrow> ok (pid, clean, None) w1))"

definition create ::
  "crypto \<Rightarrow> string \<Rightarrow> (nat \<Rightarrow> world \<Rightarrow> world) \<Rightarrow> (nat \<Rightarrow> nat list) \<Rightarrow> (nat \<Rightarrow> bytes) \<Rightarrow> nat list \<Rightarrow> bytes \<Rightarrow>
     ident \<Rightarrow> instant \<Rightarrow> ident \<Rightarrow> duration \<Rightarrow> string option \<Rightarrow> world \<Rightarrow> created_code res" where
  "create C pepper interf draws ivs heal heal_iv pid now userId durationSeconds customCode w =
     (case durationSeconds of
        Forever \<Rightarrow>
          if (case customCode of None \<Rightarrow> False | Some c \<Rightarrow> js_trim c \<noteq> '''')
          then custom_code C pepper (ivs 0) pid now userId (the customCode) w
          else (case my_forever_code userId w of
                  Some existing \<Rightarrow>
                    (case readable_code C pepper existing of
                       Some code \<Rightarrow> ok (pc_id existing, code, None) w
                     | None \<Rightarrow>
                         let code = generateForeverCode heal
                         in case update_code (pc_id existing)
                                (\<lambda>r. r\<lparr>pc_codeHmac := hashPairingCode C code pepper,
                                       pc_codeText := Some (encryptPairingCode C heal_iv code pepper),
                                       pc_failedAttempts := 0, pc_lockedUntil := None\<rparr>) w of
                              (Inl e, w1) \<Rightarrow> fail e w1
                            | (Inr _, w1) \<Rightarrow> ok (pc_id existing, code, None) w1)
                | None \<Rightarrow>
                    forever_loop C pepper interf draws ivs heal heal_iv pid now
                      max_code_collision_retry_attempts 0 userId w)
      | Unspecified \<Rightarrow>
          timed_loop C pepper interf draws ivs pid now (computeExpiresAt None now)
            max_code_collision_retry_attempts 0 userId w
      | Seconds s \<Rightarrow>
          timed_loop C pepper interf draws ivs pid now (computeExpiresAt (Some s) now)
            max_code_collision_retry_attempts 0 userId w)"

section \<open>Availability, the active code, revocation\<close>

definition checkCodeAvailability :: "crypto \<Rightarrow> string \<Rightarrow> ident \<Rightarrow> string \<Rightarrow> world \<Rightarrow> bool \<times> string option" where
  "checkCodeAvailability C pepper userId rawCode w =
     (if rawCode = '''' then (False, Some ''Code must be 6 alphanumeric characters'')
      else let clean = normalizePairingCode rawCode
           in if \<not> isValidPairingCode clean
              then (False, Some ''Code must be exactly 6 alphanumeric characters'')
              else case active_with_hmac (hashPairingCode C clean pepper) w of
                Some existing \<Rightarrow>
                  if pc_creatorUserId existing \<noteq> userId
                  then (False, Some ''Code is already in use by another user'') else (True, None)
              | None \<Rightarrow> (True, None))"

record forever_info =
  fi_code :: "string option"
  fi_createdAt :: "instant option"
  fi_previousCode :: "string option"
  fi_isPreviousAvailable :: "bool option"

definition getActiveForeverCode ::
  "crypto \<Rightarrow> string \<Rightarrow> nat list \<Rightarrow> bytes \<Rightarrow> ident \<Rightarrow> world \<Rightarrow> forever_info \<times> world" where
  "getActiveForeverCode C pepper heal heal_iv userId w =
     (case my_forever_code userId w of
        Some r \<Rightarrow>
          (case readable_code C pepper r of
             Some code \<Rightarrow>
               (\<lparr>fi_code = Some code, fi_createdAt = Some (pc_createdAt r), fi_previousCode = None,
                 fi_isPreviousAvailable = None\<rparr>, w)
           | None \<Rightarrow>
               let code = generateForeverCode heal
               in case update_code (pc_id r)
                      (\<lambda>r. r\<lparr>pc_codeHmac := hashPairingCode C code pepper,
                             pc_codeText := Some (encryptPairingCode C heal_iv code pepper)\<rparr>) w of
                    (Inr _, w1) \<Rightarrow>
                      (\<lparr>fi_code = Some code, fi_createdAt = Some (pc_createdAt r), fi_previousCode = None,
                        fi_isPreviousAvailable = None\<rparr>, w1)
                  | (Inl _, w1) \<Rightarrow>
                      (\<lparr>fi_code = None, fi_createdAt = None, fi_previousCode = None,
                        fi_isPreviousAvailable = None\<rparr>, w1))
      | None \<Rightarrow>
          (case first_by (\<lambda>r. - pc_createdAt r)
                  (filter (\<lambda>r. pc_creatorUserId r = userId \<and> pc_expiresAt r = None \<and>
                               pc_status r = Pc_Revoked) (pairing_codes w)) of
             None \<Rightarrow> (\<lparr>fi_code = None, fi_createdAt = None, fi_previousCode = None,
                       fi_isPreviousAvailable = None\<rparr>, w)
           | Some lastRevoked \<Rightarrow>
               (case readable_code C pepper lastRevoked of
                  None \<Rightarrow> (\<lparr>fi_code = None, fi_createdAt = None, fi_previousCode = None,
                            fi_isPreviousAvailable = None\<rparr>, w)
                | Some prevCode \<Rightarrow>
                    (\<lparr>fi_code = None, fi_createdAt = None, fi_previousCode = Some prevCode,
                      fi_isPreviousAvailable =
                        Some (fst (checkCodeAvailability C pepper userId prevCode w))\<rparr>, w))))"

definition log_event :: "ident \<Rightarrow> security_event_type \<Rightarrow> ident \<Rightarrow> world \<Rightarrow> world" where
  "log_event userId ev subject w =
     w\<lparr>security_events := security_events w @
        [\<lparr>se_userId = userId, se_eventType = ev, se_subject = subject\<rparr>]\<rparr>"

definition revokeActiveForeverCode :: "ident \<Rightarrow> world \<Rightarrow> unit res" where
  "revokeActiveForeverCode userId w =
     (let mine = (\<lambda>r. pc_creatorUserId r = userId \<and> forever_active r);
          records = filter mine (pairing_codes w)
      in if records = [] then ok () w
         else case commit_codes (update_where mine (\<lambda>r. r\<lparr>pc_status := Pc_Revoked\<rparr>) (pairing_codes w)) w of
                (Inl e, w1) \<Rightarrow> fail e w1
              | (Inr _, w1) \<Rightarrow>
                  ok () (foldl (\<lambda>w r. log_event userId Ev_Pairing_Revoked (pc_id r) w) w1 records))"

definition revoke :: "ident \<Rightarrow> ident \<Rightarrow> world \<Rightarrow> unit res" where
  "revoke userId pairingId w =
     (case find (\<lambda>r. pc_id r = pairingId) (pairing_codes w) of
        None \<Rightarrow> fail (Not_Found ''Not found'') w
      | Some r \<Rightarrow>
          if pc_creatorUserId r \<noteq> userId then fail (Not_Found ''Not found'') w
          else case update_code pairingId (\<lambda>r. r\<lparr>pc_status := Pc_Revoked\<rparr>) w of
                 (Inl e, w1) \<Rightarrow> fail e w1
               | (Inr _, w1) \<Rightarrow> ok () (log_event userId Ev_Pairing_Revoked pairingId w1))"

section \<open>redeem\<close>

record redeem_reply =
  rr_conversationId :: ident
  rr_sessionEpoch :: int
  rr_expiresAt :: "instant option"
  rr_isTemporary :: bool
  rr_identityDhPublic :: string
  rr_identitySigningPublic :: string
  rr_signedPrekeyPublic :: string
  rr_signedPrekeySignature :: string
  rr_oneTimePrekeyPublic :: "string option"
  rr_otherUser :: user_brief

definition generic_error :: http_error where
  "generic_error = Bad_Request ''Invalid or expired code''"

text \<open>A wrong code counts against every active code.\<close>

definition count_failure :: "pairing_row \<Rightarrow> pairing_row" where
  "count_failure r =
     (let result = fst (recordFailedAttempt
        \<lparr>pa_failedAttempts = pc_failedAttempts r, pa_lockedUntil = pc_lockedUntil r\<rparr>)
      in r\<lparr>pc_failedAttempts := pa_failedAttempts result, pc_lockedUntil := pa_lockedUntil result\<rparr>)"

text \<open>Writing the conversation of the pair inside the transaction.\<close>

definition pair_conversation ::
  "ident \<Rightarrow> instant \<Rightarrow> pairing_row \<Rightarrow> ident \<Rightarrow> world \<Rightarrow> conv_row res" where
  "pair_conversation newId now m redeemerUserId w =
     (let isForeverCode = (pc_expiresAt m = None);
          (userAId, userBId) = canonical_pair (pc_creatorUserId m) redeemerUserId;
          expiresAt = (if isForeverCode then None else pc_expiresAt m);
          temporaryCreator = (if isForeverCode then None else Some (pc_creatorUserId m))
      in case find_conv_pair (userAId, userBId) w of
           None \<Rightarrow>
             (let c = \<lparr>cv_id = newId, cv_userAId = userAId, cv_userBId = userBId,
                       cv_status = Cv_Active, cv_timerSeconds = None, cv_trigger = None,
                       cv_createdAt = now, cv_sessionEpoch = 1, cv_expiresAt = expiresAt,
                       cv_temporaryCreator = temporaryCreator\<rparr>
              in ok c (w\<lparr>conversations := conversations w @ [c]\<rparr>))
         | Some existing \<Rightarrow>
             if cv_status existing = Cv_Blocked_By_A \<or> cv_status existing = Cv_Blocked_By_B
             then fail generic_error w
             else (let f = (\<lambda>c. c\<lparr>cv_status := Cv_Active, cv_timerSeconds := None, cv_trigger := None,
                               cv_sessionEpoch := cv_sessionEpoch c + 1, cv_expiresAt := expiresAt,
                               cv_temporaryCreator := temporaryCreator\<rparr>)
                   in ok (f existing) (set_conv (cv_id existing) f w)))"

definition take_prekey :: "ident \<Rightarrow> instant \<Rightarrow> world \<Rightarrow> prekey_row option \<times> world" where
  "take_prekey deviceId now w =
     (case find (\<lambda>p. pk_deviceId p = deviceId \<and> pk_usedAt p = None) (prekeys w) of
        None \<Rightarrow> (None, w)
      | Some p \<Rightarrow> (Some p, w\<lparr>prekeys := update_where (\<lambda>q. pk_id q = pk_id p)
                                 (\<lambda>q. q\<lparr>pk_usedAt := Some now\<rparr>) (prekeys w)\<rparr>))"

definition consume_code :: "ident \<Rightarrow> instant \<Rightarrow> pairing_row \<Rightarrow> world \<Rightarrow> unit res" where
  "consume_code redeemerUserId now m w =
     (if pc_expiresAt m \<noteq> None
      then (let target = (\<lambda>r. pc_id r = pc_id m \<and> pc_status r = Pc_Active)
            in if \<not> list_ex target (pairing_codes w) then fail generic_error w
               else commit_codes (update_where target
                      (\<lambda>r. r\<lparr>pc_status := Pc_Used, pc_usedByUserId := Some redeemerUserId,
                             pc_usedAt := Some now\<rparr>) (pairing_codes w)) w)
      else update_code (pc_id m)
             (\<lambda>r. r\<lparr>pc_usedByUserId := Some redeemerUserId, pc_usedAt := Some now\<rparr>) w)"

text \<open>
  The transaction rolls back as a whole: its failure leaves the state it
  started from. \<open>interf\<close> runs between the checks and the transaction; \<open>lockAt\<close> and \<open>expAt\<close>
  are the clock readings of the lock and expiry checks, \<open>now\<close> the one of the
  transaction.
\<close>

definition redeem_transaction ::
  "ident \<Rightarrow> instant \<Rightarrow> ident \<Rightarrow> pairing_row \<Rightarrow> device_row \<Rightarrow> world \<Rightarrow>
     (conv_row \<times> prekey_row option \<times> user_brief option) res" where
  "redeem_transaction newId now redeemerUserId m creatorDevice w =
     (case consume_code redeemerUserId now m w of
        (Inl e, _) \<Rightarrow> fail e w
      | (Inr _, w1) \<Rightarrow>
          (case pair_conversation newId now m redeemerUserId w1 of
             (Inl e, _) \<Rightarrow> fail e w
           | (Inr conversation, w2) \<Rightarrow>
               (let (oneTimePrekey, w3) = take_prekey (dv_id creatorDevice) now w2
                in ok (conversation, oneTimePrekey, user_brief_of (pc_creatorUserId m) w3) w3)))"

definition redeem ::
  "crypto \<Rightarrow> string \<Rightarrow> (world \<Rightarrow> world) \<Rightarrow> ident \<Rightarrow> instant \<Rightarrow> instant \<Rightarrow> instant \<Rightarrow> ident \<Rightarrow> string \<Rightarrow>
     world \<Rightarrow> redeem_reply res" where
  "redeem C pepper interf newId lockAt expAt now redeemerUserId code w =
     (let normalizedCode = normalizePairingCode code
      in case find (\<lambda>c. pc_status c = Pc_Active \<and> verifyPairingCode C normalizedCode pepper (pc_codeHmac c))
                (pairing_codes w) of
           None \<Rightarrow> fail generic_error
                     (w\<lparr>pairing_codes :=
                          update_where (\<lambda>c. pc_status c = Pc_Active) count_failure (pairing_codes w)\<rparr>)
         | Some m \<Rightarrow>
             if isLockedOut \<lparr>pa_failedAttempts = pc_failedAttempts m, pa_lockedUntil = pc_lockedUntil m\<rparr> lockAt
             then fail generic_error w
             else if isExpired (pc_expiresAt m) expAt
             then (case update_code (pc_id m) (\<lambda>r. r\<lparr>pc_status := Pc_Expired\<rparr>) w of
                     (Inl e, w1) \<Rightarrow> fail e w1
                   | (Inr _, w1) \<Rightarrow> fail generic_error w1)
             else if pc_creatorUserId m = redeemerUserId
             then fail (Bad_Request ''Cannot pair with yourself'') w
             else case active_device (pc_creatorUserId m) w of
               None \<Rightarrow> fail generic_error w
             | Some creatorDevice \<Rightarrow>
                 (case redeem_transaction newId now redeemerUserId m creatorDevice (interf w) of
                    (Inl e, w1) \<Rightarrow> fail e w1
                  | (Inr (conversation, oneTimePrekey, creatorUser), w1) \<Rightarrow>
                      ok \<lparr>rr_conversationId = cv_id conversation,
                          rr_sessionEpoch = cv_sessionEpoch conversation,
                          rr_expiresAt = cv_expiresAt conversation,
                          rr_isTemporary = (cv_expiresAt conversation \<noteq> None),
                          rr_identityDhPublic = dv_identityDhPublic creatorDevice,
                          rr_identitySigningPublic = dv_identitySigningPublic creatorDevice,
                          rr_signedPrekeyPublic = dv_signedPrekeyPublic creatorDevice,
                          rr_signedPrekeySignature = dv_signedPrekeySignature creatorDevice,
                          rr_oneTimePrekeyPublic = map_option pk_publicKey oneTimePrekey,
                          rr_otherUser = (case creatorUser of Some b \<Rightarrow> b
                             | None \<Rightarrow> (pc_creatorUserId m, '''', None))\<rparr>
                         (log_event redeemerUserId Ev_New_Pairing (cv_id conversation)
                           (log_event (pc_creatorUserId m) Ev_New_Pairing (cv_id conversation) w1))))"

section \<open>Handshakes\<close>

definition unusable :: "conv_row \<Rightarrow> instant \<Rightarrow> bool" where
  "unusable convo now \<longleftrightarrow> \<not> isUsableForHandshake (cv_status convo) \<or> past (cv_expiresAt convo) now"

definition find_handshake :: "ident \<Rightarrow> world \<Rightarrow> handshake_row option" where
  "find_handshake cid w = find (\<lambda>h. hs_conversationId h = cid) (pending_handshakes w)"

definition store_handshake ::
  "instant \<Rightarrow> ident \<Rightarrow> ident \<Rightarrow> string \<Rightarrow> int option \<Rightarrow> world \<Rightarrow> unit res" where
  "store_handshake now userId conversationId handshakeMessage sessionEpoch w =
     (case find_conv conversationId w of
        None \<Rightarrow> fail (Not_Found ''Conversation not found'') w
      | Some convo \<Rightarrow>
          if cv_userAId convo \<noteq> userId \<and> cv_userBId convo \<noteq> userId then fail (Forbidden '''') w
          else if unusable convo now then fail (Forbidden ''Conversation not available'') w
          else if isStaleEpoch sessionEpoch (cv_sessionEpoch convo)
          then fail (Conflict ''This pairing has been superseded'') w
          else (let row = \<lparr>hs_conversationId = conversationId,
                           hs_recipientUserId = other_party userId convo,
                           hs_payload = handshakeMessage, hs_sessionEpoch = cv_sessionEpoch convo\<rparr>
                in ok () (w\<lparr>pending_handshakes :=
                     (if find_handshake conversationId w = None
                      then pending_handshakes w @ [row]
                      else update_where (\<lambda>h. hs_conversationId h = conversationId) (\<lambda>h. row)
                             (pending_handshakes w))\<rparr>)))"

definition fetch_handshake :: "instant \<Rightarrow> ident \<Rightarrow> ident \<Rightarrow> world \<Rightarrow> http_error + (string \<times> int)" where
  "fetch_handshake now userId conversationId w =
     (case find_conv conversationId w of
        None \<Rightarrow> Inl (Not_Found ''No pending handshake'')
      | Some convo \<Rightarrow>
          if unusable convo now then Inl (Not_Found ''No pending handshake'')
          else case find_handshake conversationId w of
            None \<Rightarrow> Inl (Not_Found ''No pending handshake'')
          | Some pending \<Rightarrow>
              if hs_recipientUserId pending \<noteq> userId then Inl (Not_Found ''No pending handshake'')
              else if isStaleEpoch (Some (hs_sessionEpoch pending)) (cv_sessionEpoch convo)
              then Inl (Not_Found ''No pending handshake'')
              else Inr (hs_payload pending, hs_sessionEpoch pending))"

section \<open>Facts\<close>

lemma commit_codes_cases:
  "commit_codes rs w = (res, w') \<Longrightarrow>
     (res = Inr () \<and> codes_ok rs \<and> w' = w\<lparr>pairing_codes := rs\<rparr>) \<or>
     (res = Inl Unique_Violation \<and> \<not> codes_ok rs \<and> w' = w)"
  by (auto simp: commit_codes_def split: if_splits)

lemma update_code_cases:
  "update_code i f w = (res, w') \<Longrightarrow>
     (res = Inr () \<and> w' = w\<lparr>pairing_codes := update_where (\<lambda>r. pc_id r = i) f (pairing_codes w)\<rparr> \<and>
        codes_ok (pairing_codes w')) \<or>
     ((res = Inl Unique_Violation \<or> res = Inl Record_Missing) \<and> w' = w)"
  by (auto simp: update_code_def split: if_splits dest!: commit_codes_cases)

text \<open>The stored HMACs are base64 texts as \<open>hashPairingCode\<close> writes them.\<close>

definition hmacs_ok :: "world \<Rightarrow> bool" where
  "hmacs_ok w \<longleftrightarrow> (\<forall>r \<in> set (pairing_codes w). b64_encode (b64_decode (pc_codeHmac r)) = pc_codeHmac r)"

definition matches :: "crypto \<Rightarrow> string \<Rightarrow> string \<Rightarrow> pairing_row \<Rightarrow> bool" where
  "matches C pepper code c \<longleftrightarrow>
     pc_status c = Pc_Active \<and> verifyPairingCode C (normalizePairingCode code) pepper (pc_codeHmac c)"

lemma matches_hmac:
  "b64_encode (b64_decode (pc_codeHmac c)) = pc_codeHmac c \<Longrightarrow>
     matches C pepper code c \<longleftrightarrow> pc_status c = Pc_Active \<and> pc_codeHmac c = hashPairingCode C code pepper"
  by (auto simp: matches_def verifyPairingCode_def hashPairingCode_def Let_def)

lemma redeem_match:
  "redeem C pepper interf newId lockAt expAt now u code w =
    (case find (matches C pepper code) (pairing_codes w) of
       None \<Rightarrow> fail generic_error
                 (w\<lparr>pairing_codes := update_where (\<lambda>c. pc_status c = Pc_Active) count_failure (pairing_codes w)\<rparr>)
     | Some m \<Rightarrow>
         if isLockedOut \<lparr>pa_failedAttempts = pc_failedAttempts m, pa_lockedUntil = pc_lockedUntil m\<rparr> lockAt
         then fail generic_error w
         else if isExpired (pc_expiresAt m) expAt
         then (case update_code (pc_id m) (\<lambda>r. r\<lparr>pc_status := Pc_Expired\<rparr>) w of
                 (Inl e, w1) \<Rightarrow> fail e w1
               | (Inr _, w1) \<Rightarrow> fail generic_error w1)
         else if pc_creatorUserId m = u then fail (Bad_Request ''Cannot pair with yourself'') w
         else case active_device (pc_creatorUserId m) w of
           None \<Rightarrow> fail generic_error w
         | Some d \<Rightarrow>
             (case redeem_transaction newId now u m d (interf w) of
                (Inl e, w1) \<Rightarrow> fail e w1
              | (Inr (c, k, b), w1) \<Rightarrow>
                  ok \<lparr>rr_conversationId = cv_id c, rr_sessionEpoch = cv_sessionEpoch c,
                      rr_expiresAt = cv_expiresAt c, rr_isTemporary = (cv_expiresAt c \<noteq> None),
                      rr_identityDhPublic = dv_identityDhPublic d,
                      rr_identitySigningPublic = dv_identitySigningPublic d,
                      rr_signedPrekeyPublic = dv_signedPrekeyPublic d,
                      rr_signedPrekeySignature = dv_signedPrekeySignature d,
                      rr_oneTimePrekeyPublic = map_option pk_publicKey k,
                      rr_otherUser = (case b of Some b \<Rightarrow> b | None \<Rightarrow> (pc_creatorUserId m, '''', None))\<rparr>
                     (log_event u Ev_New_Pairing (cv_id c)
                       (log_event (pc_creatorUserId m) Ev_New_Pairing (cv_id c) w1))))"
proof -
  have "(\<lambda>c. pc_status c = Pc_Active \<and> verifyPairingCode C (normalizePairingCode code) pepper (pc_codeHmac c))
      = matches C pepper code" by (rule ext) (simp add: matches_def)
  then show ?thesis unfolding redeem_def Let_def by (simp only:)
qed

lemma log_event_frame [simp]:
  "conversations (log_event u e s w) = conversations w"
  "pairing_codes (log_event u e s w) = pairing_codes w"
  "pending_handshakes (log_event u e s w) = pending_handshakes w"
  "messages (log_event u e s w) = messages w"
  by (simp_all add: log_event_def)

lemma take_prekey_frame [simp]:
  "conversations (snd (take_prekey d now w)) = conversations w"
  "pairing_codes (snd (take_prekey d now w)) = pairing_codes w"
  "pending_handshakes (snd (take_prekey d now w)) = pending_handshakes w"
  "messages (snd (take_prekey d now w)) = messages w"
  by (simp_all add: take_prekey_def split: option.splits)

lemma consume_frame:
  assumes "consume_code u now m w = (res, w')"
  shows "conversations w' = conversations w" "pending_handshakes w' = pending_handshakes w"
    "messages w' = messages w" "prekeys w' = prekeys w"
  using assms
  by (auto simp: consume_code_def Let_def split: if_splits dest!: commit_codes_cases update_code_cases)

text \<open>What a successful redemption did.\<close>

lemma redeem_success:
  assumes "redeem C pepper interf newId lockAt expAt now u code w = ok r w'"
  obtains m d c w1 w2 where "find (matches C pepper code) (pairing_codes w) = Some m"
    "\<not> isLockedOut \<lparr>pa_failedAttempts = pc_failedAttempts m, pa_lockedUntil = pc_lockedUntil m\<rparr> lockAt"
    "\<not> isExpired (pc_expiresAt m) expAt" "pc_creatorUserId m \<noteq> u"
    "active_device (pc_creatorUserId m) w = Some d"
    "consume_code u now m (interf w) = ok () w1" "pair_conversation newId now m u w1 = ok c w2"
    "rr_conversationId r = cv_id c" "rr_sessionEpoch r = cv_sessionEpoch c"
    "rr_expiresAt r = cv_expiresAt c" "conversations w' = conversations w2"
    "pairing_codes w' = pairing_codes w2" "pending_handshakes w' = pending_handshakes w2"
    "messages w' = messages w2"
proof -
  obtain m where m: "find (matches C pepper code) (pairing_codes w) = Some m"
    using assms by (auto simp: redeem_match split: option.splits)
  have guards: "\<not> isLockedOut \<lparr>pa_failedAttempts = pc_failedAttempts m, pa_lockedUntil = pc_lockedUntil m\<rparr> lockAt"
    "\<not> isExpired (pc_expiresAt m) expAt" "pc_creatorUserId m \<noteq> u"
    using assms by (auto simp: redeem_match m split: if_splits sum.splits prod.splits)
  obtain d where d: "active_device (pc_creatorUserId m) w = Some d"
    using assms guards by (auto simp: redeem_match m split: option.splits)
  obtain c k b w3 where t: "redeem_transaction newId now u m d (interf w) = ok (c, k, b) w3"
    and r: "rr_conversationId r = cv_id c" "rr_sessionEpoch r = cv_sessionEpoch c"
      "rr_expiresAt r = cv_expiresAt c"
    and w': "w' = log_event u Ev_New_Pairing (cv_id c) (log_event (pc_creatorUserId m) Ev_New_Pairing (cv_id c) w3)"
    using assms guards by (auto simp: redeem_match m d split: sum.splits prod.splits)
  obtain x1 w1 where c1: "consume_code u now m (interf w) = (x1, w1)" by (rule prod.exhaust)
  obtain x2 w2 where c2: "pair_conversation newId now m u w1 = (x2, w2)" by (rule prod.exhaust)
  have "x1 = Inr ()" "x2 = Inr c" "w3 = snd (take_prekey (dv_id d) now w2)"
    using t by (auto simp: redeem_transaction_def c1 c2 Let_def case_prod_beta split: sum.splits)
  then show ?thesis using that m guards d r w' c1 c2 by simp
qed

section \<open>Properties\<close>

lemma consume_timed:
  assumes "consume_code u now m w = ok () w1" and "pc_expiresAt m \<noteq> None"
  shows "pairing_codes w1 = update_where (\<lambda>r. pc_id r = pc_id m \<and> pc_status r = Pc_Active)
      (\<lambda>r. r\<lparr>pc_status := Pc_Used, pc_usedByUserId := Some u, pc_usedAt := Some now\<rparr>) (pairing_codes w)"
    and "codes_ok (pairing_codes w1)"
  using assms by (auto simp: consume_code_def Let_def split: if_splits dest!: commit_codes_cases)

lemma pair_conversation_codes:
  "pair_conversation newId now m u w = (res, w') \<Longrightarrow> pairing_codes w' = pairing_codes w \<and>
     pending_handshakes w' = pending_handshakes w \<and> messages w' = messages w"
  by (auto simp: pair_conversation_def Let_def case_prod_beta set_conv_def split: option.splits if_splits)

lemma codes_ok_active_unique:
  assumes "codes_ok rs" "r \<in> set rs" "s \<in> set rs" "pc_codeHmac r = pc_codeHmac s" "pc_status r = pc_status s"
  shows "r = s"
  using distinct_key_eq [of "\<lambda>r. (pc_codeHmac r, pc_status r)" rs r s] assms
  by (simp add: codes_ok_def)

text \<open>C23. A timed code is good for one redemption only: once it has been redeemed, anyone who
  gives it again is refused and no conversation changes; and a second redeemer whose checks had
  already passed before the first one committed is refused by the transaction itself.\<close>

theorem redeem_single_use:
  assumes first: "redeem C pepper (\<lambda>w. w) newId lockAt expAt now u code w = ok r w1"
    and match: "find (matches C pepper code) (pairing_codes w) = Some m" "pc_expiresAt m \<noteq> None"
    and table: "codes_ok (pairing_codes w)" "hmacs_ok w" "distinct (map pc_id (pairing_codes w))"
  shows "(\<exists>w2. redeem C pepper (\<lambda>w. w) newId' lockAt' expAt' now' v code w1 = fail generic_error w2 \<and>
      conversations w2 = conversations w1) \<and>
    (\<exists>e. out (redeem C pepper (\<lambda>_. w1) newId' lockAt' expAt' now' v code w) = Inl e)"
proof -
  let ?spent = "\<lambda>r. r\<lparr>pc_status := Pc_Used, pc_usedByUserId := Some u, pc_usedAt := Some now\<rparr>"
  obtain wc c wd where "consume_code u now m w = ok () wc"
    and pc: "pair_conversation newId now m u wc = ok c wd" and w1: "pairing_codes w1 = pairing_codes wd"
    using redeem_success [OF first] match(1) by (metis option.inject)
  note used = consume_timed [OF this(1) match(2)]
  have codes: "pairing_codes w1 = update_where (\<lambda>r. pc_id r = pc_id m \<and> pc_status r = Pc_Active) ?spent
      (pairing_codes w)"
    using used(1) pair_conversation_codes [OF pc] w1 by simp
  have m: "m \<in> set (pairing_codes w)" "matches C pepper code m"
    using find_Some_in [OF match(1)] by blast+
  have other: "x = m" if "x \<in> set (pairing_codes w)" "matches C pepper code x" for x
    using that m table by (intro codes_ok_active_unique [OF table(1)]) (auto simp: hmacs_ok_def matches_hmac)
  have none: "find (matches C pepper code) (pairing_codes w1) = None"
    unfolding find_None_in codes set_update_where
    using other m(2) by (auto simp: matches_def)
  have gone: "\<not> list_ex (\<lambda>r. pc_id r = pc_id m \<and> pc_status r = Pc_Active) (pairing_codes w1)"
    by (auto simp: codes list_ex_iff table_simps)
  have "\<exists>w2. redeem C pepper (\<lambda>w. w) newId' lockAt' expAt' now' v code w1 = fail generic_error w2 \<and>
      conversations w2 = conversations w1"
    by (simp add: redeem_match none)
  moreover have "redeem_transaction newId' now' v m d w1 = fail generic_error w1" for d
    using gone match(2) by (simp add: redeem_transaction_def consume_code_def)
  then have "\<exists>e. out (redeem C pepper (\<lambda>_. w1) newId' lockAt' expAt' now' v code w) = Inl e"
    by (auto simp: redeem_match match(1) split: option.splits sum.splits prod.splits)
  ultimately show ?thesis by blast
qed

text \<open>A state with one timed code of Alice, matching the text ABC123, and her device.\<close>

definition demo_code :: pairing_row where
  "demo_code = new_code ''p'' ''alice'' (hashPairingCode plain_crypto ''ABC123'' ''pep'') ''x'' (Some 1000) 0"

definition demo_device :: device_row where
  "demo_device = \<lparr>dv_id = ''d'', dv_userId = ''alice'', dv_identityDhPublic = ''dh'',
     dv_identitySigningPublic = ''sig'', dv_signedPrekeyPublic = ''spk'',
     dv_signedPrekeySignature = ''sps'', dv_lastSeenAt = 0, dv_revokedAt = None,
       dv_deviceName = None, dv_platform = Web, dv_signedPrekeyCreatedAt = 0, dv_createdAt = 0\<rparr>"

definition demo_pairing :: "handshake_row list \<Rightarrow> world" where
  "demo_pairing hs = demo_world\<lparr>pending_handshakes := hs, pairing_codes := [demo_code], devices := [demo_device]\<rparr>"

lemma demo_pairing_facts:
  "codes_ok (pairing_codes (demo_pairing hs))" "hmacs_ok (demo_pairing hs)"
  "distinct (map pc_id (pairing_codes (demo_pairing hs)))"
  "find (matches plain_crypto ''pep'' ''ABC123'') (pairing_codes (demo_pairing hs)) = Some demo_code"
  "pc_expiresAt demo_code = Some 1000" "active_device ''alice'' (demo_pairing hs) = Some demo_device"
  "pc_creatorUserId demo_code = ''alice''" "pc_lockedUntil demo_code = None"
proof -
  show h: "hmacs_ok (demo_pairing hs)"
    by (simp add: hmacs_ok_def demo_pairing_def demo_code_def new_code_def hashPairingCode_def)
  have "matches plain_crypto ''pep'' ''ABC123'' demo_code"
    by (subst matches_hmac) (simp_all add: demo_code_def new_code_def hashPairingCode_def)
  then show "find (matches plain_crypto ''pep'' ''ABC123'') (pairing_codes (demo_pairing hs)) = Some demo_code"
    by (simp add: demo_pairing_def)
qed (simp_all add: codes_ok_def demo_pairing_def demo_code_def new_code_def active_device_def
       demo_device_def first_by_def)

lemma demo_redeem:
  "\<exists>r w1. redeem plain_crypto ''pep'' (\<lambda>w. w) ''n'' 1 2 3 ''bob'' ''ABC123'' (demo_pairing hs) = ok r w1 \<and>
     rr_sessionEpoch r = 2 \<and> rr_conversationId r = ''c''"
proof -
  have cp: "canonical_pair ''alice'' ''bob'' = (''alice'', ''bob'')"
    by (simp add: canonical_pair_def)
  have c: "find_conv_pair (''alice'', ''bob'') w = Some demo_conv" if "conversations w = [demo_conv]" for w
    by (simp add: find_conv_pair_def that demo_conv_def)
  have d: "conversations (demo_pairing hs) = [demo_conv]" by (simp add: demo_pairing_def demo_world_def)
  have "\<exists>w1. consume_code ''bob'' 3 demo_code (demo_pairing hs) = ok () w1 \<and> conversations w1 = [demo_conv]"
    by (simp add: consume_code_def demo_pairing_facts Let_def commit_codes_def)
      (simp add: demo_pairing_def demo_code_def new_code_def codes_ok_def forever_active_def demo_world_def)
  then obtain w1 where w1: "consume_code ''bob'' 3 demo_code (demo_pairing hs) = ok () w1"
    "conversations w1 = [demo_conv]" by blast
  show ?thesis
    by (simp add: redeem_match demo_pairing_facts isLockedOut_def isExpired_def redeem_transaction_def w1
        pair_conversation_def cp c Let_def case_prod_beta)
      (simp add: demo_conv_def)
qed

theorem redeem_single_use_witness:
  "\<exists>r w1 w2. redeem plain_crypto ''pep'' (\<lambda>w. w) ''n'' 1 2 3 ''bob'' ''ABC123'' (demo_pairing []) = ok r w1 \<and>
     redeem plain_crypto ''pep'' (\<lambda>w. w) ''n'' 4 5 6 ''carol'' ''ABC123'' w1 = fail generic_error w2"
  using demo_redeem redeem_single_use [OF _ demo_pairing_facts(4) _ demo_pairing_facts(1-3)]
    demo_pairing_facts(5) by (metis option.distinct(1))


definition demo_handshake :: handshake_row where
  "demo_handshake = \<lparr>hs_conversationId = ''c'', hs_recipientUserId = ''bob'',
     hs_payload = ''old'', hs_sessionEpoch = 1\<rparr>"


lemma count_failure_fields [simp]:
  "pc_id (count_failure r) = pc_id r" "pc_status (count_failure r) = pc_status r"
  "pc_codeHmac (count_failure r) = pc_codeHmac r"
  "pc_failedAttempts (count_failure r) = pc_failedAttempts r + 1"
  by (simp_all add: count_failure_def recordFailedAttempt_def Let_def)

lemma count_failure_locks:
  "4 \<le> pc_failedAttempts r \<Longrightarrow> pc_lockedUntil (count_failure r) = Some end_of_time"
  by (simp add: count_failure_def recordFailedAttempt_def Let_def max_attempts_before_lockout_def)

lemma matches_count_failure [simp]: "matches C pepper code (count_failure r) = matches C pepper code r"
  by (simp add: matches_def)

text \<open>One wrong guess: the redeemer and the code typed.\<close>

definition guess :: "crypto \<Rightarrow> string \<Rightarrow> instant \<Rightarrow> world \<Rightarrow> ident \<times> string \<Rightarrow> world" where
  "guess C pepper t w g = after (redeem C pepper (\<lambda>w. w) [] t t t (fst g) (snd g) w)"

lemma wrong_guess:
  assumes "\<And>r. r \<in> set (pairing_codes w) \<Longrightarrow> \<not> matches C pepper (snd g) r"
  shows "guess C pepper t w g = w\<lparr>pairing_codes :=
    update_where (\<lambda>c. pc_status c = Pc_Active) count_failure (pairing_codes w)\<rparr>"
proof -
  have "find (matches C pepper (snd g)) (pairing_codes w) = None"
    using assms by (simp add: find_None_in)
  then show ?thesis by (simp add: guess_def redeem_match)
qed

lemma wrong_guesses:
  assumes "\<And>g r. g \<in> set gs \<Longrightarrow> r \<in> set (pairing_codes w) \<Longrightarrow> \<not> matches C pepper (snd g) r"
  shows "foldl (guess C pepper t) w gs = w\<lparr>pairing_codes :=
    update_where (\<lambda>c. pc_status c = Pc_Active) (count_failure ^^ length gs) (pairing_codes w)\<rparr>"
  using assms
proof (induction gs arbitrary: w)
  case Nil
  then show ?case by (simp add: update_where_def)
next
  case (Cons g gs)
  let ?w = "w\<lparr>pairing_codes := update_where (\<lambda>c. pc_status c = Pc_Active) count_failure (pairing_codes w)\<rparr>"
  have one: "guess C pepper t w g = ?w" by (rule wrong_guess) (use Cons.prems in auto)
  have "foldl (guess C pepper t) ?w gs = ?w\<lparr>pairing_codes :=
      update_where (\<lambda>c. pc_status c = Pc_Active) (count_failure ^^ length gs) (pairing_codes ?w)\<rparr>"
  proof (rule Cons.IH)
    fix h r
    assume h: "h \<in> set gs" and "r \<in> set (pairing_codes ?w)"
    then obtain x where "x \<in> set (pairing_codes w)" "r = (if pc_status x = Pc_Active then count_failure x else x)"
      by (auto simp: table_simps)
    moreover from this(1) have "\<not> matches C pepper (snd h) x" using h by (intro Cons.prems) simp_all
    ultimately show "\<not> matches C pepper (snd h) r" by simp
  qed
  then show ?case
    by (simp add: one update_where_def comp_def funpow_swap1)
qed

lemma count_failure_pow:
  "pc_status ((count_failure ^^ n) r) = pc_status r"
  "matches C pepper code ((count_failure ^^ n) r) = matches C pepper code r"
  "pc_failedAttempts ((count_failure ^^ n) r) = pc_failedAttempts r + int n"
  by (induction n) simp_all

text \<open>Five wrong guesses, by anyone, at any codes, lock every pairing code of every user that
  was active at the time until the end of time: from then on nobody can redeem any of them, not
  even with the right code.\<close>

theorem five_wrong_guesses_lock_all:
  assumes wrong: "\<And>g r. g \<in> set gs \<Longrightarrow> r \<in> set (pairing_codes w) \<Longrightarrow> \<not> matches C pepper (snd g) r"
    and five: "length gs = 5" and counts: "\<And>r. r \<in> set (pairing_codes w) \<Longrightarrow> 0 \<le> pc_failedAttempts r"
    and time: "lockAt < end_of_time"
  shows "\<exists>w'. redeem C pepper interf newId lockAt expAt now u code (foldl (guess C pepper t) w gs) =
    fail generic_error w'"
proof -
  let ?w = "foldl (guess C pepper t) w gs"
  have codes: "pairing_codes ?w = update_where (\<lambda>c. pc_status c = Pc_Active) (count_failure ^^ 5) (pairing_codes w)"
    using wrong_guesses [OF wrong] five by simp
  show ?thesis
  proof (cases "find (matches C pepper code) (pairing_codes ?w)")
    case None
    then show ?thesis by (simp add: redeem_match)
  next
    case (Some m)
    then obtain r where r: "r \<in> set (pairing_codes w)"
      and m: "m = (if pc_status r = Pc_Active then (count_failure ^^ 5) r else r)" "matches C pepper code m"
      by (auto simp: codes table_simps dest!: find_Some_in)
    then have "m = count_failure ((count_failure ^^ 4) r)"
      by (auto simp: matches_def eval_nat_numeral split: if_splits)
    moreover have "4 \<le> pc_failedAttempts ((count_failure ^^ 4) r)"
      using counts [OF r] by (simp add: count_failure_pow)
    ultimately have "pc_lockedUntil m = Some end_of_time" by (simp add: count_failure_locks)
    then show ?thesis using Some time by (simp add: redeem_match isLockedOut_def)
  qed
qed

theorem five_wrong_guesses_lock_all_witness:
  "\<exists>w'. redeem plain_crypto ''pep'' (\<lambda>w. w) ''n'' 1 2 3 ''bob'' ''ABC123''
     (foldl (guess plain_crypto ''pep'' 0) (demo_pairing []) (replicate 5 (''mallory'', ''ZZZZZZ''))) =
     fail generic_error w'"
proof (rule five_wrong_guesses_lock_all)
  fix g :: "ident \<times> string" and r
  assume "g \<in> set (replicate 5 (''mallory'', ''ZZZZZZ''))" and r: "r \<in> set (pairing_codes (demo_pairing []))"
  then have g: "g = (''mallory'', ''ZZZZZZ'')" by simp
  have n: "normalizePairingCode ''ZZZZZZ'' = ''ZZZZZZ''" "normalizePairingCode ''ABC123'' = ''ABC123''"
    by (rule normalize_valid_chars, simp add: pairing_code_char_def)+
  have "hashPairingCode plain_crypto ''ZZZZZZ'' ''pep'' \<noteq> hashPairingCode plain_crypto ''ABC123'' ''pep''"
  proof
    assume "hashPairingCode plain_crypto ''ZZZZZZ'' ''pep'' = hashPairingCode plain_crypto ''ABC123'' ''pep''"
    then have "b64_decode (hashPairingCode plain_crypto ''ZZZZZZ'' ''pep'') =
        b64_decode (hashPairingCode plain_crypto ''ABC123'' ''pep'')" by (rule arg_cong)
    then show False by (simp only: hashPairingCode_def n b64_roundtrip) (simp add: plain_crypto_def)
  qed
  moreover have d: "r = demo_code" using r by (simp add: demo_pairing_def)
  have "b64_encode (b64_decode (pc_codeHmac demo_code)) = pc_codeHmac demo_code"
    using demo_pairing_facts(2) [of "[]"] r d unfolding hmacs_ok_def by blast
  from matches_hmac [OF this, of plain_crypto "''pep''" "''ZZZZZZ''"]
  have "matches plain_crypto ''pep'' ''ZZZZZZ'' demo_code \<Longrightarrow>
      hashPairingCode plain_crypto ''ABC123'' ''pep'' = hashPairingCode plain_crypto ''ZZZZZZ'' ''pep''"
    by (simp add: demo_code_def new_code_def)
  ultimately show "\<not> matches plain_crypto ''pep'' (snd g) r"
    by (auto simp: g d)
qed (auto simp: demo_pairing_def demo_code_def new_code_def end_of_time_def)

lemma create_code_ok:
  "create_code r w = (Inr x, w') \<Longrightarrow> 
     w' = w\<lparr>pairing_codes := pairing_codes w @ [r]\<rparr> \<and> codes_ok (pairing_codes w @ [r])"
  by (auto simp: create_code_def dest: commit_codes_cases)

lemma create_code_fails:
  "create_code r w = (Inl e, w') \<Longrightarrow> e = Unique_Violation \<and> w' = w"
  by (auto simp: create_code_def dest: commit_codes_cases)

lemma timed_loop_result:
  assumes "timed_loop C pepper (\<lambda>_ w. w) draws ivs pid now expiresAt n k u w = ok x w'"
  shows "\<exists>j. x = (pid, generatePairingCode (draws j), expiresAt) \<and>
    w' = w\<lparr>pairing_codes := pairing_codes w @ [new_code pid u
       (hashPairingCode C (generatePairingCode (draws j)) pepper)
       (encryptPairingCode C (ivs j) (generatePairingCode (draws j)) pepper) expiresAt now]\<rparr> \<and>
    codes_ok (pairing_codes w')"
  using assms
proof (induction n arbitrary: k)
  case 0
  then show ?case by simp
next
  case (Suc n)
  obtain y w1 where c: "create_code (new_code pid u
       (hashPairingCode C (generatePairingCode (draws k)) pepper)
       (encryptPairingCode C (ivs k) (generatePairingCode (draws k)) pepper) expiresAt now) w = (y, w1)"
    by (rule prod.exhaust)
  show ?case
  proof (cases y)
    case (Inl e)
    from create_code_fails [OF c [unfolded Inl]] have "e = Unique_Violation" "w1 = w" by simp_all
    then have "timed_loop C pepper (\<lambda>_ w. w) draws ivs pid now expiresAt n (Suc k) u w = ok x w'"
      using Suc.prems by (simp add: Let_def c Inl split: if_splits)
    then show ?thesis by (rule Suc.IH)
  next
    case (Inr z)
    from create_code_ok [OF c [unfolded Inr]] show ?thesis
      using Suc.prems by (intro exI [of _ k]) (auto simp: Let_def c Inr)
  qed
qed

text \<open>A fresh timed code works: until it expires, anyone but its creator who types it, in any
  letter case, is paired with the creator. Two people who never talked before get a new active
  conversation at epoch one that expires with the code and that the creator may prolong.\<close>

theorem created_code_redeemable:
  assumes made: "create C pepper (\<lambda>_ w. w) draws ivs heal heal_iv pid made u (Seconds s) custom w =
      ok (i, code, expiresAt) w1"
    and hm: "hmacs_ok w" and typed: "normalizePairingCode typed = normalizePairingCode code"
    and time: "expAt < made + s * 1000" and people: "v \<noteq> u" "active_device u w1 = Some d"
    and strangers: "find_conv_pair (canonical_pair u v) w1 = None"
    and fresh: "\<And>r. r \<in> set (pairing_codes w) \<Longrightarrow> pc_id r \<noteq> pid"
    and spendable: "\<And>r. r \<in> set (pairing_codes w1) \<Longrightarrow> pc_codeHmac r = hashPairingCode C code pepper \<Longrightarrow>
      pc_status r \<noteq> Pc_Used"
  shows "\<exists>r w2 c. redeem C pepper (\<lambda>w. w) newId lockAt expAt now v typed w1 = ok r w2 \<and>
    find_conv_pair (canonical_pair u v) w2 = Some c \<and> cv_id c = newId \<and> rr_conversationId r = newId \<and>
    cv_status c = Cv_Active \<and> cv_sessionEpoch c = 1 \<and> rr_sessionEpoch r = 1 \<and>
    cv_expiresAt c = Some (made + s * 1000) \<and> cv_temporaryCreator c = Some u \<and>
    participant u c \<and> participant v c"
proof -
  obtain j where x: "code = generatePairingCode (draws j)" "expiresAt = Some (made + s * 1000)"
    and w1: "pairing_codes w1 = pairing_codes w @ [new_code pid u (hashPairingCode C code pepper)
       (encryptPairingCode C (ivs j) code pepper) (Some (made + s * 1000)) made]"
    and ok1: "codes_ok (pairing_codes w1)"
    using timed_loop_result [OF made [unfolded create_def duration.case]]
    by (elim exE conjE) (simp add: computeExpiresAt_def)
  let ?m = "new_code pid u (hashPairingCode C code pepper) (encryptPairingCode C (ivs j) code pepper)
      (Some (made + s * 1000)) made"
  have hash: "hashPairingCode C typed pepper = hashPairingCode C code pepper"
    by (simp add: hashPairingCode_def typed)
  have canon: "b64_encode (b64_decode (pc_codeHmac r)) = pc_codeHmac r" if "r \<in> set (pairing_codes w1)" for r
    using that hm by (auto simp: w1 hmacs_ok_def new_code_def hashPairingCode_def)
  have m1: "?m \<in> set (pairing_codes w1)" by (simp add: w1)
  have m2: "matches C pepper typed ?m"
    unfolding matches_hmac [OF canon [OF m1]] by (simp add: new_code_def hash)
  note m = m1 m2
  have only: "r = ?m" if "r \<in> set (pairing_codes w1)" "matches C pepper typed r" for r
    using that m canon by (intro codes_ok_active_unique [OF ok1]) (auto simp: matches_hmac)
  have match: "find (matches C pepper typed) (pairing_codes w1) = Some ?m"
  proof (cases "find (matches C pepper typed) (pairing_codes w1)")
    case None
    then show ?thesis using m unfolding find_None_in by blast
  next
    case (Some r)
    then show ?thesis using only find_Some_in [OF Some] by blast
  qed
  let ?used = "\<lambda>r. r\<lparr>pc_status := Pc_Used, pc_usedByUserId := Some v, pc_usedAt := Some now\<rparr>"
  let ?target = "\<lambda>r. pc_id r = pid \<and> pc_status r = Pc_Active"
  have rest: "update_where ?target ?used (pairing_codes w) = pairing_codes w"
    using fresh by (intro update_where_id) auto
  have "(hashPairingCode C code pepper, Pc_Used) \<notin> (\<lambda>r. (pc_codeHmac r, pc_status r)) ` set (pairing_codes w)"
    using spendable by (force simp: w1)
  then have "codes_ok (pairing_codes w @ [?used ?m])"
    using ok1 by (simp add: w1 codes_ok_def new_code_def forever_active_def)
  then have consume: "consume_code v now ?m w1 = ok () (w1\<lparr>pairing_codes := pairing_codes w @ [?used ?m]\<rparr>)"
    by (simp add: consume_code_def Let_def w1 rest commit_codes_def)
      (simp add: new_code_def rest commit_codes_def)
  define c where "c = \<lparr>cv_id = newId, cv_userAId = fst (canonical_pair u v),
      cv_userBId = snd (canonical_pair u v), cv_status = Cv_Active, cv_timerSeconds = None,
      cv_trigger = None, cv_createdAt = now, cv_sessionEpoch = 1,
      cv_expiresAt = Some (made + s * 1000), cv_temporaryCreator = Some u\<rparr>"
  define wc where "wc = w1\<lparr>pairing_codes := pairing_codes w @ [?used ?m]\<rparr>"
  have none: "find_conv_pair (canonical_pair u v) wc = None" "conversations wc = conversations w1"
    using strangers by (simp_all add: find_conv_pair_def wc_def)
  have pair: "pair_conversation newId now ?m v wc = ok c (wc\<lparr>conversations := conversations w1 @ [c]\<rparr>)"
    using none by (simp add: pair_conversation_def case_prod_beta c_def) (simp add: new_code_def Let_def)
  let ?w3 = "snd (take_prekey (dv_id d) now (wc\<lparr>conversations := conversations w1 @ [c]\<rparr>))"
  have "redeem_transaction newId now v ?m d w1 =
      ok (c, fst (take_prekey (dv_id d) now (wc\<lparr>conversations := conversations w1 @ [c]\<rparr>)),
          user_brief_of u ?w3) ?w3"
    using pair by (simp add: redeem_transaction_def consume wc_def [symmetric] case_prod_beta Let_def)
      (simp add: new_code_def)
  moreover have "\<not> isLockedOut \<lparr>pa_failedAttempts = pc_failedAttempts ?m, pa_lockedUntil = pc_lockedUntil ?m\<rparr> lockAt"
    "\<not> isExpired (pc_expiresAt ?m) expAt" "pc_creatorUserId ?m = u"
    using time by (simp_all add: new_code_def isLockedOut_def isExpired_def)
  moreover have "find_conv_pair (canonical_pair u v) w2 = Some c" if "conversations w2 = conversations w1 @ [c]" for w2
    using strangers by (simp add: find_conv_pair_def that find_append) (simp add: c_def)
  moreover have "participant u c" "participant v c"
    by (auto simp: c_def participant_def canonical_pair_def)
  ultimately show ?thesis
    using people by (simp add: redeem_match match) (simp add: c_def)
qed

theorem created_code_redeemable_witness:
  "\<exists>i code e w1 r w2. create plain_crypto ''pep'' (\<lambda>_ w. w) (\<lambda>_. [1, 2, 3, 4, 5, 6]) (\<lambda>_. ''iv'') [] ''iv''
       ''p'' 0 ''alice'' (Seconds 60) None (demo_world\<lparr>conversations := [], devices := [demo_device]\<rparr>) =
       ok (i, code, e) w1 \<and>
     redeem plain_crypto ''pep'' (\<lambda>w. w) ''n'' 1 2 3 ''bob'' code w1 = ok r w2 \<and>
     rr_conversationId r = ''n''"
proof -
  let ?w = "demo_world\<lparr>conversations := [], devices := [demo_device]\<rparr>"
  let ?h = "hashPairingCode plain_crypto (generatePairingCode [1, 2, 3, 4, 5, 6]) ''pep''"
  let ?r = "new_code ''p'' ''alice'' ?h
      (encryptPairingCode plain_crypto ''iv'' (generatePairingCode [1, 2, 3, 4, 5, 6]) ''pep'')
      (Some 60000) 0"
  have e: "pairing_codes ?w = []" by (simp add: demo_world_def empty_world_def)
  have "create plain_crypto ''pep'' (\<lambda>_ w. w) (\<lambda>_. [1, 2, 3, 4, 5, 6]) (\<lambda>_. ''iv'') [] ''iv''
       ''p'' 0 ''alice'' (Seconds 60) None ?w =
      ok (''p'', generatePairingCode [1, 2, 3, 4, 5, 6], Some 60000) (?w\<lparr>pairing_codes := [?r]\<rparr>)"
    by (simp add: create_def max_code_collision_retry_attempts_def eval_nat_numeral create_code_def
        commit_codes_def e codes_ok_def computeExpiresAt_def Let_def)
  note made = this
  have d: "active_device ''alice'' (?w\<lparr>pairing_codes := [?r]\<rparr>) = Some demo_device"
    by (simp add: active_device_def first_by_def demo_device_def)
  show ?thesis
    using created_code_redeemable [OF made _ refl _ _ d, where expAt = 2 and v = "''bob''" and newId = "''n''"
        and lockAt = 1 and now = 3] made
    by (auto simp: hmacs_ok_def e find_conv_pair_def new_code_def)
qed

text \<open>A handshake stored by one party of a usable conversation at its current epoch is what
  the other party fetches, together with that epoch, any number of times; the sender cannot
  fetch it, and a store at any other epoch is refused and changes nothing.\<close>

theorem handshake_roundtrip:
  assumes c: "find_conv cid w = Some c" "participant u c" "other_party u c \<noteq> u"
    and usable: "cv_status c = Cv_Active" "\<not> past (cv_expiresAt c) t" "\<not> past (cv_expiresAt c) t'"
  shows "(\<exists>w'. store_handshake t u cid payload (Some (cv_sessionEpoch c)) w = ok () w' \<and>
      fetch_handshake t' (other_party u c) cid w' = Inr (payload, cv_sessionEpoch c) \<and>
      fetch_handshake t' u cid w' = Inl (Not_Found ''No pending handshake'')) \<and>
    (\<forall>e. e \<noteq> Some (cv_sessionEpoch c) \<longrightarrow>
      store_handshake t u cid payload e w = fail (Conflict ''This pairing has been superseded'') w)"
proof -
  have ok: "\<not> unusable c t" "\<not> unusable c t'" using usable by (simp_all add: unusable_def guard_simps)
  have p: "\<not> (cv_userAId c \<noteq> u \<and> cv_userBId c \<noteq> u)" using c(2) by (auto simp: participant_def)
  let ?row = "\<lparr>hs_conversationId = cid, hs_recipientUserId = other_party u c, hs_payload = payload,
      hs_sessionEpoch = cv_sessionEpoch c\<rparr>"
  let ?hs = "if find_handshake cid w = None then pending_handshakes w @ [?row]
      else update_where (\<lambda>h. hs_conversationId h = cid) (\<lambda>h. ?row) (pending_handshakes w)"
  let ?w' = "w\<lparr>pending_handshakes := ?hs\<rparr>"
  have stored: "find_handshake cid ?w' = Some ?row"
  proof (cases "find_handshake cid w")
    case None
    then show ?thesis by (simp add: find_handshake_def find_append)
  next
    case (Some h)
    have "find (\<lambda>h. hs_conversationId h = cid) (update_where (\<lambda>h. hs_conversationId h = cid) (\<lambda>h. ?row) hs) = Some ?row"
      if "find (\<lambda>h. hs_conversationId h = cid) hs = Some h" for hs
      using that by (induction hs) (auto split: if_splits)
    then show ?thesis using Some by (simp add: find_handshake_def)
  qed
  have row: "find_conv cid ?w' = Some c" using c(1) by (simp add: find_conv_def)
  have "store_handshake t u cid payload (Some (cv_sessionEpoch c)) w = ok () ?w'"
    using p by (simp add: store_handshake_def c(1) ok guard_simps Let_def)
  moreover have "fetch_handshake t' (other_party u c) cid ?w' = Inr (payload, cv_sessionEpoch c)"
    by (simp add: fetch_handshake_def row ok stored guard_simps)
  moreover have "fetch_handshake t' u cid ?w' = Inl (Not_Found ''No pending handshake'')"
    using c(3) by (simp add: fetch_handshake_def row ok stored)
  moreover have "store_handshake t u cid payload e w = fail (Conflict ''This pairing has been superseded'') w"
    if "e \<noteq> Some (cv_sessionEpoch c)" for e
    using p that by (simp add: store_handshake_def c(1) ok guard_simps)
  ultimately show ?thesis by blast
qed

theorem handshake_roundtrip_witness:
  "\<exists>w'. store_handshake 0 ''alice'' ''c'' ''hello'' (Some 1) demo_world = ok () w' \<and>
     fetch_handshake 1 ''bob'' ''c'' w' = Inr (''hello'', 1)"
  using handshake_roundtrip [where t = 0 and t' = 1, OF demo_active(1,2) _ demo_active(4,5,5),
      where payload = "''hello''"]
  by (auto simp: demo_conv_def other_party_def)

text \<open>Choosing a custom forever code again after having revoked it makes it irrevocable: the
  table already holds a revoked row with that code, so revoking fails with a constraint violation
  and the code stays active.\<close>

theorem reused_code_irrevocable:
  assumes old: "r0 \<in> set (pairing_codes w)" "pc_status r0 = Pc_Revoked"
      "pc_codeHmac r0 = hashPairingCode C (normalizePairingCode custom) pepper"
    and none: "my_forever_code u w = None" and nonblank: "js_trim custom \<noteq> ''''"
    and again: "create C pepper interf draws ivs heal heal_iv pid now u Forever (Some custom) w = ok x w1"
  shows "revokeActiveForeverCode u w1 = fail Unique_Violation w1"
proof -
  let ?h = "hashPairingCode C (normalizePairingCode custom) pepper"
  let ?r = "new_code pid u ?h (encryptPairingCode C (ivs 0) (normalizePairingCode custom) pepper) None now"
  have "w1 = w\<lparr>pairing_codes := pairing_codes w @ [?r]\<rparr>"
    using again nonblank none
    by (auto simp: create_def custom_code_def Let_def split: if_splits option.splits sum.splits prod.splits
        dest!: create_code_ok)
  then have codes: "pairing_codes w1 = pairing_codes w @ [?r]" by simp
  let ?mine = "\<lambda>r. pc_creatorUserId r = u \<and> forever_active r"
  have rest: "update_where ?mine (\<lambda>r. r\<lparr>pc_status := Pc_Revoked\<rparr>) (pairing_codes w) = pairing_codes w"
    using none by (intro update_where_id) (auto simp: my_forever_code_def find_None_in)
  have "(?h, Pc_Revoked) \<in> (\<lambda>r. (pc_codeHmac r, pc_status r)) ` set (pairing_codes w)"
    using old by force
  then have "\<not> codes_ok (update_where ?mine (\<lambda>r. r\<lparr>pc_status := Pc_Revoked\<rparr>) (pairing_codes w1))"
    by (simp add: codes rest codes_ok_def) (simp add: new_code_def forever_active_def)
  moreover have "filter ?mine (pairing_codes w1) \<noteq> []"
    by (simp add: codes) (simp add: new_code_def forever_active_def)
  ultimately show ?thesis by (simp add: revokeActiveForeverCode_def commit_codes_def Let_def)
qed

theorem reused_code_irrevocable_witness:
  "\<exists>x w1. create plain_crypto ''pep'' (\<lambda>_ w. w) (\<lambda>_. []) (\<lambda>_. ''iv'') [] ''iv'' ''q'' 5 ''alice'' Forever
       (Some ''ABC123'')
       (demo_world\<lparr>pairing_codes := [demo_code\<lparr>pc_status := Pc_Revoked, pc_expiresAt := None\<rparr>]\<rparr>) = ok x w1 \<and>
     revokeActiveForeverCode ''alice'' w1 = fail Unique_Violation w1"
proof -
  let ?w = "demo_world\<lparr>pairing_codes := [demo_code\<lparr>pc_status := Pc_Revoked, pc_expiresAt := None\<rparr>]\<rparr>"
  have n: "normalizePairingCode ''ABC123'' = ''ABC123''"
    by (rule normalize_valid_chars) (simp add: pairing_code_char_def)
  then have v: "isValidPairingCode ''ABC123''" "js_trim ''ABC123'' \<noteq> ''''"
    by (simp_all add: isValidPairingCode_def pairing_code_char_def js_trim_def js_space_def)
  have none: "my_forever_code ''alice'' ?w = None" "active_with_hmac h ?w = None" for h
    by (simp_all add: my_forever_code_def active_with_hmac_def forever_active_def)
  have h: "pc_codeHmac demo_code = hashPairingCode plain_crypto ''ABC123'' ''pep''" "pc_creatorUserId demo_code = ''alice''"
    by (simp_all add: demo_code_def new_code_def)
  obtain x w1 where made: "create plain_crypto ''pep'' (\<lambda>_ w. w) (\<lambda>_. []) (\<lambda>_. ''iv'') [] ''iv'' ''q'' 5 ''alice''
      Forever (Some ''ABC123'') ?w = ok x w1"
    by (simp add: create_def custom_code_def n v none Let_def create_code_def commit_codes_def)
      (simp add: codes_ok_def h new_code_def forever_active_def)
  show ?thesis
    using reused_code_irrevocable [OF _ _ _ none(1) v(2) made, of "demo_code\<lparr>pc_status := Pc_Revoked, pc_expiresAt := None\<rparr>"] made
    by (cases x) (auto simp: h n)
qed

end
