(* ===== verification/Requests.thy ===== *)
theory Requests
  imports Pairing
begin

text \<open>
  Finding people and asking them for a conversation:
  \<open>conversation-requests/conversation-requests.service.ts\<close>, \<open>users/users.service.ts\<close>.
  Both promise not to tell an unknown name, a deleted account, an account that
  opted out of search and a blocked relation apart. Where a handler reads and
  later writes, \<open>interf\<close> is what other requests do in between.
\<close>

section \<open>Looking up people\<close>

definition find_username :: "string \<Rightarrow> world \<Rightarrow> user_row option" where
  "find_username n w = find (\<lambda>u. us_username u = n) (users w)"

definition search_enabled :: "ident \<Rightarrow> world \<Rightarrow> bool" where
  "search_enabled u w = (case find_settings u w of None \<Rightarrow> True | Some s \<Rightarrow> st_usernameSearchEnabled s)"

definition blocked_status :: "conv_row option \<Rightarrow> bool" where
  "blocked_status c = (case c of None \<Rightarrow> False
     | Some c \<Rightarrow> cv_status c = Cv_Blocked_By_A \<or> cv_status c = Cv_Blocked_By_B)"

text \<open>The answer of a search: the public user, and whether it is the caller.\<close>

type_synonym search_result = "((string \<times> string option) \<times> bool) option"

definition searchByUsername :: "ident \<Rightarrow> string \<Rightarrow> world \<Rightarrow> search_result" where
  "searchByUsername requesterUserId username w =
     (case find_username username w of
        None \<Rightarrow> None
      | Some target \<Rightarrow>
          if us_status target \<noteq> Acct_Active then None
          else if us_id target = requesterUserId
          then Some ((us_username target, us_displayName target), True)
          else if \<not> search_enabled (us_id target) w then None
          else if blocked_status (find_conv_pair (canonical_pair requesterUserId (us_id target)) w)
          then None
          else Some ((us_username target, us_displayName target), False))"

section \<open>Conversation requests\<close>

definition find_request :: "ident \<Rightarrow> world \<Rightarrow> request_row option" where
  "find_request i w = find (\<lambda>r. rq_id r = i) (conversation_requests w)"

definition pending_between :: "ident \<Rightarrow> ident \<Rightarrow> request_row \<Rightarrow> bool" where
  "pending_between s r q \<longleftrightarrow> rq_senderId q = s \<and> rq_recipientId q = r \<and> rq_status q = Rq_Pending"

definition set_request_status :: "ident \<Rightarrow> request_status \<Rightarrow> world \<Rightarrow> world" where
  "set_request_status i s w = w\<lparr>conversation_requests :=
     update_where (\<lambda>r. rq_id r = i) (\<lambda>r. r\<lparr>rq_status := s\<rparr>) (conversation_requests w)\<rparr>"

text \<open>\<open>unavailable\<close> is the one answer for every target that must not be revealed.\<close>

definition unavailable :: http_error where
  "unavailable = Not_Found ''User not found or unavailable''"

definition sendRequest ::
  "(world \<Rightarrow> world) \<Rightarrow> ident \<Rightarrow> instant \<Rightarrow> ident \<Rightarrow> string option \<Rightarrow> string option \<Rightarrow> world \<Rightarrow>
     (ident \<times> user_brief) res" where
  "sendRequest interf newId now senderId targetUsername recipientUsername w =
     (case (case given targetUsername of Some t \<Rightarrow> Some t | None \<Rightarrow> given recipientUsername) of
        None \<Rightarrow> fail (Bad_Request ''Target username is required'') w
      | Some rawTarget \<Rightarrow>
          (case find_username (normalizeUsername rawTarget) w of
             None \<Rightarrow> fail unavailable w
           | Some target \<Rightarrow>
               if us_status target \<noteq> Acct_Active then fail unavailable w
               else if us_id target = senderId
               then fail (Bad_Request ''You cannot send a conversation request to yourself'') w
               else if \<not> search_enabled (us_id target) w then fail unavailable w
               else let existingConv = find_conv_pair (canonical_pair senderId (us_id target)) w
               in if blocked_status existingConv then fail unavailable w
               else if map_option cv_status existingConv = Some Cv_Active
               then fail (Bad_Request ''You already have an active conversation with this user'') w
               else if list_ex (pending_between senderId (us_id target)) (conversation_requests w)
               then fail (Conflict ''A conversation request to this user is already pending'') w
               else let w1 = interf w
               in if list_ex (pending_between senderId (us_id target)) (conversation_requests w1)
                  then fail Unique_Violation w1
                  else let w2 = w1\<lparr>conversation_requests := conversation_requests w1 @
                         [\<lparr>rq_id = newId, rq_senderId = senderId, rq_recipientId = us_id target,
                           rq_status = Rq_Pending, rq_createdAt = now\<rparr>]\<rparr>
                       in ok (newId, brief target)
                            (push (us_id target)
                               (Request_Received newId (user_brief_of senderId w2) now) w2)))"

definition listPending ::
  "ident \<Rightarrow> world \<Rightarrow> (ident \<times> user_brief option \<times> instant) list \<times> (ident \<times> user_brief option \<times> instant) list" where
  "listPending userId w =
     (let newest = sort_key (\<lambda>r. - rq_createdAt r);
          mine = (\<lambda>p. newest (filter (\<lambda>r. p r = userId \<and> rq_status r = Rq_Pending) (conversation_requests w)))
      in (map (\<lambda>r. (rq_id r, user_brief_of (rq_senderId r) w, rq_createdAt r)) (mine rq_recipientId),
          map (\<lambda>r. (rq_id r, user_brief_of (rq_recipientId r) w, rq_createdAt r)) (mine rq_senderId)))"

record accept_reply =
  ar_conversationId :: ident
  ar_sessionEpoch :: int
  ar_bundle :: "(device_row \<times> string option) option"

definition accept_conversation :: "ident \<Rightarrow> instant \<Rightarrow> ident \<times> ident \<Rightarrow> world \<Rightarrow> conv_row \<times> world" where
  "accept_conversation newId now pair w =
     (case find_conv_pair pair w of
        Some existingConv \<Rightarrow>
          let f = (\<lambda>c. c\<lparr>cv_status := Cv_Active, cv_sessionEpoch := cv_sessionEpoch c + 1\<rparr>)
          in (f existingConv, set_conv (cv_id existingConv) f w)
      | None \<Rightarrow>
          let c = \<lparr>cv_id = newId, cv_userAId = fst pair, cv_userBId = snd pair, cv_status = Cv_Active,
                   cv_timerSeconds = None, cv_trigger = None, cv_createdAt = now, cv_sessionEpoch = 1,
                   cv_expiresAt = None, cv_temporaryCreator = None\<rparr>
          in (c, w\<lparr>conversations := conversations w @ [c]\<rparr>))"

definition acceptRequest ::
  "(world \<Rightarrow> world) \<Rightarrow> ident \<Rightarrow> instant \<Rightarrow> ident \<Rightarrow> ident \<Rightarrow> world \<Rightarrow> accept_reply res" where
  "acceptRequest interf newId now userId requestId w =
     (case find_request requestId w of
        None \<Rightarrow> fail (Not_Found ''Request not found'') w
      | Some req \<Rightarrow>
          if rq_recipientId req \<noteq> userId
          then fail (Forbidden ''You cannot accept a request addressed to someone else'') w
          else if rq_status req \<noteq> Rq_Pending
          then fail (Bad_Request ''This conversation request is no longer active'') w
          else let w1 = interf w
          in if find_request requestId w1 = None then fail Record_Missing w1
          else let (conv, w2) = accept_conversation newId now (canonical_pair (rq_senderId req) userId)
                     (set_request_status requestId Rq_Accepted w1);
                   senderDevice = active_device (rq_senderId req) w2;
                   (prekey, w3) = (case senderDevice of None \<Rightarrow> (None, w2)
                     | Some d \<Rightarrow> take_prekey (dv_id d) now w2)
               in ok \<lparr>ar_conversationId = cv_id conv, ar_sessionEpoch = cv_sessionEpoch conv,
                      ar_bundle = map_option (\<lambda>d. (d, map_option pk_publicKey prekey)) senderDevice\<rparr>
                     (push (rq_senderId req)
                        (Request_Accepted requestId (cv_id conv) (cv_sessionEpoch conv)
                           (user_brief_of userId w)) w3))"

definition rejectRequest :: "ident \<Rightarrow> ident \<Rightarrow> world \<Rightarrow> unit res" where
  "rejectRequest userId requestId w =
     (case find_request requestId w of
        None \<Rightarrow> fail (Not_Found ''Request not found'') w
      | Some req \<Rightarrow>
          if rq_recipientId req \<noteq> userId
          then fail (Forbidden ''You cannot reject a request addressed to someone else'') w
          else if rq_status req \<noteq> Rq_Pending
          then fail (Bad_Request ''This conversation request is no longer active'') w
          else ok () (push (rq_senderId req) (Request_Rejected requestId)
                        (set_request_status requestId Rq_Rejected w)))"

definition cancelRequest :: "ident \<Rightarrow> ident \<Rightarrow> world \<Rightarrow> unit res" where
  "cancelRequest userId requestId w =
     (case find_request requestId w of
        None \<Rightarrow> fail (Not_Found ''Request not found'') w
      | Some req \<Rightarrow>
          if rq_senderId req \<noteq> userId
          then fail (Forbidden ''You cannot cancel a request you did not send'') w
          else if rq_status req \<noteq> Rq_Pending
          then fail (Bad_Request ''This conversation request is no longer active'') w
          else ok () (set_request_status requestId Rq_Cancelled w))"

section \<open>Facts\<close>

lemma find_request_set [simp]:
  "find_request i (set_request_status j s w) =
     map_option (\<lambda>r. if rq_id r = j then r\<lparr>rq_status := s\<rparr> else r) (find_request i w)"
  by (simp add: find_request_def set_request_status_def find_update_where)

lemma set_request_frame [simp]:
  "conversations (set_request_status j s w) = conversations w"
  "users (set_request_status j s w) = users w" "messages (set_request_status j s w) = messages w"
  by (simp_all add: set_request_status_def)

lemma find_request_push [simp]: "find_request i (push u e w) = find_request i w"
  by (simp add: find_request_def)

lemma take_prekey_requests [simp]:
  "conversation_requests (snd (take_prekey d now w)) = conversation_requests w"
  by (simp add: take_prekey_def split: option.splits)

lemma accept_conversation_requests [simp]:
  "conversation_requests (snd (accept_conversation i now p w)) = conversation_requests w"
  by (simp add: accept_conversation_def set_conv_def Let_def split: option.splits)

lemma accept_success:
  assumes "acceptRequest interf newId now u i w = ok r w'"
  obtains req d where "find_request i w = Some req" "rq_recipientId req = u" "rq_status req = Rq_Pending"
    "find_request i (interf w) \<noteq> None"
    "ar_conversationId r = cv_id (fst (accept_conversation newId now (canonical_pair (rq_senderId req) u)
        (set_request_status i Rq_Accepted (interf w))))"
    "ar_sessionEpoch r = cv_sessionEpoch (fst (accept_conversation newId now (canonical_pair (rq_senderId req) u)
        (set_request_status i Rq_Accepted (interf w))))"
    "conversations w' = conversations (snd (accept_conversation newId now (canonical_pair (rq_senderId req) u)
        (set_request_status i Rq_Accepted (interf w))))"
    "conversation_requests w' = conversation_requests (set_request_status i Rq_Accepted (interf w))"
proof -
  obtain req where req: "find_request i w = Some req"
    using assms by (auto simp: acceptRequest_def split: option.splits)
  have g: "rq_recipientId req = u" "rq_status req = Rq_Pending" "find_request i (interf w) \<noteq> None"
    using assms by (auto simp: acceptRequest_def req Let_def split: if_splits)
  let ?p = "accept_conversation newId now (canonical_pair (rq_senderId req) u)
        (set_request_status i Rq_Accepted (interf w))"
  have "ar_conversationId r = cv_id (fst ?p) \<and> ar_sessionEpoch r = cv_sessionEpoch (fst ?p) \<and>
      conversations w' = conversations (snd ?p) \<and> conversation_requests w' = conversation_requests (snd ?p)"
    using assms g by (auto simp: acceptRequest_def req Let_def case_prod_beta split: option.splits)
  then show ?thesis using that req g by simp
qed

section \<open>Requests as a state machine\<close>

datatype request_op =
    Op_Send ident instant ident "string option" "string option"
  | Op_Accept ident instant ident ident
  | Op_Reject ident ident
  | Op_Cancel ident ident

inductive request_step :: "world \<Rightarrow> request_op \<Rightarrow> world \<Rightarrow> bool" where
  send: "request_step w (Op_Send i t s a b) (after (sendRequest (\<lambda>w. w) i t s a b w))"
    if "find_request i w = None"
| accept: "request_step w (Op_Accept n t u i) (after (acceptRequest (\<lambda>w. w) n t u i w))"
| reject: "request_step w (Op_Reject u i) (after (rejectRequest u i w))"
| cancel: "request_step w (Op_Cancel u i) (after (cancelRequest u i w))"

inductive request_run :: "world \<Rightarrow> world \<Rightarrow> bool" where
  stop: "request_run w w"
| step: "request_run w w''" if "request_step w op w'" "request_run w' w''"


text \<open>The only change a step makes to a request that exists: from pending to decided.\<close>

lemma sendRequest_keeps:
  "find_request j w = Some q \<Longrightarrow> find_request j (after (sendRequest (\<lambda>w. w) i t s a b w)) = Some q"
  by (auto simp: sendRequest_def Let_def find_request_def find_append split: option.splits)

lemma acceptRequest_keeps:
  assumes q: "find_request j w = Some q" and "rq_status q \<noteq> Rq_Pending"
  shows "find_request j (after (acceptRequest (\<lambda>w. w) n t u i w)) = Some q"
proof (cases "out (acceptRequest (\<lambda>w. w) n t u i w)")
  case (Inl e)
  then have "after (acceptRequest (\<lambda>w. w) n t u i w) = w"
    by (auto simp: acceptRequest_def Let_def case_prod_beta split: option.splits if_splits)
  then show ?thesis using q by simp
next
  case (Inr r)
  then have "acceptRequest (\<lambda>w. w) n t u i w = ok r (after (acceptRequest (\<lambda>w. w) n t u i w))"
    by (metis prod.collapse)
  then obtain req where req: "find_request i w = Some req" "rq_status req = Rq_Pending"
    and rows: "conversation_requests (after (acceptRequest (\<lambda>w. w) n t u i w)) =
      conversation_requests (set_request_status i Rq_Accepted w)"
    by (elim accept_success) auto
  have "j \<noteq> i" using req assms by auto
  moreover have "rq_id q = j" using q by (auto simp: find_request_def dest: find_Some_in)
  ultimately have "find_request j (set_request_status i Rq_Accepted w) = Some q" using q by simp
  then show ?thesis using rows by (simp add: find_request_def)
qed

lemma decided_step:
  assumes "request_step w op w'" and q: "find_request j w = Some q" and d: "rq_status q \<noteq> Rq_Pending"
  shows "find_request j w' = Some q"
  using assms(1)
proof (cases rule: request_step.cases)
  case (send i t s a b)
  then show ?thesis using sendRequest_keeps [OF q] by simp
next
  case (accept n t u i)
  then show ?thesis using acceptRequest_keeps [OF q d] by simp
next
  case (reject u i)
  have "rq_id q = j" using q by (auto simp: find_request_def dest: find_Some_in)
  then show ?thesis using reject q d by (auto simp: rejectRequest_def split: option.splits)
next
  case (cancel u i)
  have "rq_id q = j" using q by (auto simp: find_request_def dest: find_Some_in)
  then show ?thesis using cancel q d by (auto simp: cancelRequest_def split: option.splits)
qed

section \<open>Properties\<close>

text \<open>A decided conversation request stays decided: once a request is accepted, rejected or
  cancelled, no later sequence of sends, accepts, rejections and cancellations changes it.\<close>

theorem decided_request_is_final:
  assumes "request_run w w'" and "find_request j w = Some q" and "rq_status q \<noteq> Rq_Pending"
  shows "find_request j w' = Some q"
  using assms(1,2)
proof (induction rule: request_run.induct)
  case (stop w)
  then show ?case .
next
  case (step w op w' w'')
  then show ?case using decided_step [OF step.hyps(1) step.prems assms(3)] by blast
qed

definition demo_request :: request_row where
  "demo_request = \<lparr>rq_id = ''q'', rq_senderId = ''alice'', rq_recipientId = ''bob'',
     rq_status = Rq_Pending, rq_createdAt = 0\<rparr>"

definition demo_requests :: "request_status \<Rightarrow> conv_row list \<Rightarrow> world" where
  "demo_requests s cs = demo_world\<lparr>conversations := cs,
     conversation_requests := [demo_request\<lparr>rq_status := s\<rparr>]\<rparr>"

theorem decided_request_is_final_witness:
  "find_request ''q'' (after (acceptRequest (\<lambda>w. w) ''n'' 5 ''bob'' ''q''
     (after (cancelRequest ''alice'' ''q'' (demo_requests Rq_Rejected []))))) =
   Some (demo_request\<lparr>rq_status := Rq_Rejected\<rparr>)"
proof (rule decided_request_is_final)
  show "request_run (demo_requests Rq_Rejected [])
     (after (acceptRequest (\<lambda>w. w) ''n'' 5 ''bob'' ''q'' (after (cancelRequest ''alice'' ''q'' (demo_requests Rq_Rejected [])))))"
    by (rule request_run.step [OF request_step.cancel request_run.step [OF request_step.accept request_run.stop]])
qed (simp_all add: find_request_def demo_requests_def demo_request_def)



text \<open>Accepting a request ignores the state of an existing conversation: it becomes active
  even when one party has blocked the other, and an expired temporary chat keeps its past expiry,
  so the first message sent into it finds it expired and destroys it again.\<close>

theorem accept_ignores_block_and_expiry:
  assumes req: "find_request i w = Some q" "rq_recipientId q = u" "rq_status q = Rq_Pending"
    and conv: "find_conv_pair (canonical_pair (rq_senderId q) u) w = Some c"
    and ids: "distinct (map cv_id (conversations w))"
  shows "\<exists>r w' d. acceptRequest (\<lambda>w. w) newId now u i w = ok r w' \<and>
    find_conv (cv_id c) w' = Some d \<and> cv_status d = Cv_Active \<and> cv_expiresAt d = cv_expiresAt c \<and>
    (past (cv_expiresAt c) t \<longrightarrow>
       (\<forall>dto. sd_conversationId dto = cv_id c \<longrightarrow>
          out (send interf mid t t1 t2 t3 u dto w') = Inl (Forbidden ''Conversation has expired'')))"
proof -
  let ?f = "\<lambda>c. c\<lparr>cv_status := Cv_Active, cv_sessionEpoch := cv_sessionEpoch c + 1\<rparr>"
  let ?w1 = "set_request_status i Rq_Accepted w"
  have ac: "accept_conversation newId now (canonical_pair (rq_senderId q) u) ?w1 =
      (?f c, set_conv (cv_id c) ?f ?w1)"
    using conv by (simp add: accept_conversation_def find_conv_pair_def Let_def)
  obtain r w' where run: "acceptRequest (\<lambda>w. w) newId now u i w = ok r w'"
    using req by (simp add: acceptRequest_def Let_def case_prod_beta)
  then have convs: "conversations w' = conversations (set_conv (cv_id c) ?f ?w1)"
    using req ac by (elim accept_success) simp
  have mem: "c \<in> set (conversations w)" "(cv_userAId c, cv_userBId c) = canonical_pair (rq_senderId q) u"
    using conv by (auto simp: find_conv_pair_def dest: find_Some_in)
  then have "find_conv (cv_id c) ?w1 = Some c"
    unfolding find_conv_def by (simp add: find_key_unique [OF ids])
  then have d: "find_conv (cv_id c) w' = Some (?f c)"
    using find_conv_set_conv [of ?f "cv_id c" "cv_id c" ?w1] by (simp add: find_conv_def convs)
  have p: "\<not> (cv_userAId c \<noteq> u \<and> cv_userBId c \<noteq> u)"
    using mem(2) by (auto simp: canonical_pair_def split: if_splits)
  have "out (send interf mid t t1 t2 t3 u dto w') = Inl (Forbidden ''Conversation has expired'')"
    if "past (cv_expiresAt c) t" "sd_conversationId dto = cv_id c" for dto
    using that p by (simp add: send_def getActiveConversationOrThrow_def d)
  with run d show ?thesis by auto
qed

theorem accept_ignores_block_and_expiry_witness:
  "\<exists>r w' d. acceptRequest (\<lambda>w. w) ''n'' 5 ''bob'' ''q''
       (demo_requests Rq_Pending [demo_conv\<lparr>cv_status := Cv_Blocked_By_A\<rparr>]) = ok r w' \<and>
     find_conv ''c'' w' = Some d \<and> cv_status d = Cv_Active"
proof -
  let ?w = "demo_requests Rq_Pending [demo_conv\<lparr>cv_status := Cv_Blocked_By_A\<rparr>]"
  have q: "find_request ''q'' ?w = Some demo_request" "rq_recipientId demo_request = ''bob''"
      "rq_status demo_request = Rq_Pending"
    by (simp_all add: find_request_def demo_requests_def demo_request_def)
  have c: "find_conv_pair (canonical_pair (rq_senderId demo_request) ''bob'') ?w =
      Some (demo_conv\<lparr>cv_status := Cv_Blocked_By_A\<rparr>)" "distinct (map cv_id (conversations ?w))"
    by (simp_all add: demo_request_def canonical_pair_def find_conv_pair_def demo_requests_def demo_conv_def)
  show ?thesis
    using accept_ignores_block_and_expiry [OF q c, of "''n''" 5] by (auto simp: demo_conv_def)
qed

text \<open>Accepting races with cancelling: a cancellation that lands after the check of an accept
  is reported as a success, and yet the conversation is opened and the request ends accepted.\<close>

theorem accept_races_cancel:
  assumes req: "find_request i w = Some q" "rq_recipientId q = u" "rq_status q = Rq_Pending"
  shows "out (cancelRequest (rq_senderId q) i w) = Inr () \<and>
    (\<exists>r w'. acceptRequest (\<lambda>w. after (cancelRequest (rq_senderId q) i w)) newId now u i w = ok r w' \<and>
       map_option rq_status (find_request i w') = Some Rq_Accepted)"
proof -
  let ?w1 = "set_request_status i Rq_Cancelled w"
  have c: "cancelRequest (rq_senderId q) i w = ok () ?w1"
    using req by (simp add: cancelRequest_def)
  have i: "rq_id q = i" using req by (auto simp: find_request_def dest: find_Some_in)
  obtain r w' where run: "acceptRequest (\<lambda>w. after (cancelRequest (rq_senderId q) i w)) newId now u i w = ok r w'"
    using req by (simp add: acceptRequest_def c Let_def case_prod_beta)
  then have "conversation_requests w' = conversation_requests (set_request_status i Rq_Accepted ?w1)"
    using c by (elim accept_success) simp
  then have "find_request i w' = find_request i (set_request_status i Rq_Accepted ?w1)"
    by (simp add: find_request_def)
  then show ?thesis using c run req i by simp
qed

theorem accept_races_cancel_witness:
  "\<exists>r w'. acceptRequest (\<lambda>w. after (cancelRequest ''alice'' ''q'' w)) ''n'' 5 ''bob'' ''q''
     (demo_requests Rq_Pending []) = ok r w' \<and> map_option rq_status (find_request ''q'' w') = Some Rq_Accepted"
  using accept_races_cancel [of "''q''" "demo_requests Rq_Pending []" demo_request "''bob''" "''n''" 5]
  by (simp add: find_request_def demo_requests_def demo_request_def)

end
