(* ===== verification/Settings.thy ===== *)
theory Settings
  imports Messages
begin

text \<open>
  Account settings and the three feature passwords (burn, chat lock, hide
  chat): \<open>settings/settings.service.ts\<close>. The burn password set here is the one
  \<open>burn\<close> and \<open>deleteRoom\<close> demand.
\<close>

section \<open>Reading and updating\<close>

definition default_settings :: "ident \<Rightarrow> settings_row" where
  "default_settings userId = \<lparr>st_userId = userId, st_readReceiptsEnabled = True,
     st_typingIndicatorEnabled = True, st_notificationContentVisible = False,
     st_usernameSearchEnabled = True, st_lastSeenEnabled = True, st_accentColor = None,
     st_appLockEnabled = False, st_appLockTimeoutSeconds = 60, st_appLockMethod = None,
     st_screenshotProtectionEnabled = False, st_storageProvider = Managed,
     st_burnPasswordHash = None, st_chatLockPasswordHash = None, st_hideChatPasswordHash = None\<rparr>"

text \<open>A row without its three hashes, and whether each of them is set.\<close>

definition public_settings :: "settings_row \<Rightarrow> settings_row \<times> bool \<times> bool \<times> bool" where
  "public_settings s =
     (s\<lparr>st_burnPasswordHash := None, st_chatLockPasswordHash := None, st_hideChatPasswordHash := None\<rparr>,
      given (st_burnPasswordHash s) \<noteq> None, given (st_chatLockPasswordHash s) \<noteq> None,
      given (st_hideChatPasswordHash s) \<noteq> None)"

definition get_settings :: "ident \<Rightarrow> world \<Rightarrow> (settings_row \<times> bool \<times> bool \<times> bool) \<times> world" where
  "get_settings userId w =
     (case find_settings userId w of
        Some s \<Rightarrow> (public_settings s, w)
      | None \<Rightarrow> let s = default_settings userId
                in (public_settings s, w\<lparr>user_settings := user_settings w @ [s]\<rparr>))"

text \<open>\<open>UpdateSettingsInput\<close>: a field left out is \<open>None\<close>; the two nullable ones have \<open>Some None\<close>.\<close>

record settings_input =
  ui_readReceiptsEnabled :: "bool option"
  ui_typingIndicatorEnabled :: "bool option"
  ui_notificationContentVisible :: "bool option"
  ui_accentColor :: "string option option"
  ui_appLockEnabled :: "bool option"
  ui_appLockTimeoutSeconds :: "int option"
  ui_appLockMethod :: "string option option"
  ui_screenshotProtectionEnabled :: "bool option"
  ui_usernameSearchEnabled :: "bool option"
  ui_lastSeenEnabled :: "bool option"

definition allowed_accent_colors :: "string option list" where
  "allowed_accent_colors = [None, Some ''#3B82F6'', Some ''#8B5CF6'', Some ''#EC4899'',
     Some ''#F59E0B'', Some ''#14B8A6'']"

definition keep :: "'a option \<Rightarrow> 'a \<Rightarrow> 'a" where
  "keep new old = (case new of None \<Rightarrow> old | Some x \<Rightarrow> x)"

definition apply_input :: "settings_input \<Rightarrow> settings_row \<Rightarrow> settings_row" where
  "apply_input i s = s\<lparr>
     st_readReceiptsEnabled := keep (ui_readReceiptsEnabled i) (st_readReceiptsEnabled s),
     st_typingIndicatorEnabled := keep (ui_typingIndicatorEnabled i) (st_typingIndicatorEnabled s),
     st_notificationContentVisible :=
       keep (ui_notificationContentVisible i) (st_notificationContentVisible s),
     st_usernameSearchEnabled := keep (ui_usernameSearchEnabled i) (st_usernameSearchEnabled s),
     st_lastSeenEnabled := keep (ui_lastSeenEnabled i) (st_lastSeenEnabled s),
     st_accentColor := keep (ui_accentColor i) (st_accentColor s),
     st_appLockEnabled := keep (ui_appLockEnabled i) (st_appLockEnabled s),
     st_appLockTimeoutSeconds := keep (ui_appLockTimeoutSeconds i) (st_appLockTimeoutSeconds s),
     st_appLockMethod := keep (ui_appLockMethod i) (st_appLockMethod s),
     st_screenshotProtectionEnabled :=
       keep (ui_screenshotProtectionEnabled i) (st_screenshotProtectionEnabled s)\<rparr>"

definition set_settings :: "ident \<Rightarrow> (settings_row \<Rightarrow> settings_row) \<Rightarrow> world \<Rightarrow> world" where
  "set_settings userId f w =
     w\<lparr>user_settings := update_where (\<lambda>s. st_userId s = userId) f (user_settings w)\<rparr>"

definition update_settings ::
  "ident \<Rightarrow> settings_input \<Rightarrow> world \<Rightarrow> (settings_row \<times> bool \<times> bool \<times> bool) res" where
  "update_settings userId input w =
     (if (case ui_accentColor input of None \<Rightarrow> False | Some c \<Rightarrow> c \<notin> set allowed_accent_colors)
      then fail (Bad_Request ''Unsupported accent color'') w
      else let w1 = set_settings userId (apply_input input) (snd (get_settings userId w))
           in case find_settings userId w1 of
                None \<Rightarrow> fail Record_Missing w1
              | Some s \<Rightarrow> ok (public_settings s) w1)"

section \<open>Feature passwords\<close>

datatype feature = Burn_Feature | Lock_Feature | Hide_Feature

fun feature_hash :: "feature \<Rightarrow> settings_row \<Rightarrow> string option" where
  "feature_hash Burn_Feature s = given (st_burnPasswordHash s)"
| "feature_hash Lock_Feature s = given (st_chatLockPasswordHash s)"
| "feature_hash Hide_Feature s = given (st_hideChatPasswordHash s)"

fun set_feature_hash :: "feature \<Rightarrow> string option \<Rightarrow> settings_row \<Rightarrow> settings_row" where
  "set_feature_hash Burn_Feature h s = s\<lparr>st_burnPasswordHash := h\<rparr>"
| "set_feature_hash Lock_Feature h s = s\<lparr>st_chatLockPasswordHash := h\<rparr>"
| "set_feature_hash Hide_Feature h s = s\<lparr>st_hideChatPasswordHash := h\<rparr>"

definition configured :: "feature \<Rightarrow> ident \<Rightarrow> world \<Rightarrow> string option" where
  "configured f userId w = Option.bind (find_settings userId w) (feature_hash f)"

definition setFeaturePassword ::
  "crypto \<Rightarrow> bytes \<Rightarrow> ident \<Rightarrow> feature \<Rightarrow> string \<Rightarrow> string option \<Rightarrow> world \<Rightarrow> feature res" where
  "setFeaturePassword C salt userId f newPassword currentPassword w =
     (if length newPassword < 4 then fail (Bad_Request ''Password must be at least 4 characters'') w
      else if length newPassword > 256 then fail (Bad_Request ''Password must be at most 256 characters'') w
      else let store = (case hashPassword C salt newPassword of
             Inl e \<Rightarrow> fail e w
           | Inr h \<Rightarrow>
               ok f (if find_settings userId w = None
                     then w\<lparr>user_settings := user_settings w @
                            [set_feature_hash f (Some h) (default_settings userId)]\<rparr>
                     else set_settings userId (set_feature_hash f (Some h)) w))
      in case configured f userId w of
           None \<Rightarrow> store
         | Some old \<Rightarrow>
             (case given currentPassword of
                None \<Rightarrow> fail (Unauthorized ''Current password required to change feature password'') w
              | Some cur \<Rightarrow>
                  (case verifyPassword C cur old of
                     Inl e \<Rightarrow> fail e w
                   | Inr verified \<Rightarrow>
                       if \<not> verified then fail (Unauthorized ''Incorrect current password'') w
                       else store)))"

definition verifyFeaturePassword ::
  "crypto \<Rightarrow> ident \<Rightarrow> feature \<Rightarrow> string \<Rightarrow> world \<Rightarrow> http_error + unit" where
  "verifyFeaturePassword C userId f password w =
     (if password = '''' then Inl (Bad_Request ''Password required'')
      else case configured f userId w of
        None \<Rightarrow> Inl (Bad_Request ''Password not configured for this feature'')
      | Some h \<Rightarrow>
          (case verifyPassword C password h of
             Inl e \<Rightarrow> Inl e
           | Inr valid \<Rightarrow> if valid then Inr () else Inl (Unauthorized ''Incorrect password'')))"

definition removeFeaturePassword ::
  "crypto \<Rightarrow> ident \<Rightarrow> feature \<Rightarrow> string \<Rightarrow> world \<Rightarrow> unit res" where
  "removeFeaturePassword C userId f currentPassword w =
     (case configured f userId w of
        None \<Rightarrow> ok () w
      | Some h \<Rightarrow>
          (case verifyPassword C currentPassword h of
             Inl e \<Rightarrow> fail e w
           | Inr verified \<Rightarrow>
               if \<not> verified then fail (Unauthorized ''Incorrect current password'') w
               else ok () (set_settings userId (set_feature_hash f None) w)))"

section \<open>Facts\<close>

lemma find_settings_set:
  assumes "\<And>s. st_userId (f s) = st_userId s"
  shows "find_settings u (set_settings v f w) =
    map_option (\<lambda>s. if st_userId s = v then f s else s) (find_settings u w)"
  unfolding find_settings_def set_settings_def by (simp add: find_update_where assms)

lemma set_feature_hash_user [simp]: "st_userId (set_feature_hash f h s) = st_userId s"
  by (cases f) simp_all

lemma feature_hash_set:
  "feature_hash g (set_feature_hash f h s) = (if g = f then given h else feature_hash g s)"
  by (cases f; cases g) simp_all

lemma configured_set:
  "find_settings u w \<noteq> None \<Longrightarrow> configured g u (set_settings u (set_feature_hash f h) w) =
     (if g = f then given h else configured g u w)"
proof -
  assume "find_settings u w \<noteq> None"
  then obtain s where s: "find_settings u w = Some s" by blast
  then have "st_userId s = u" by (auto simp: find_settings_def dest: find_Some_in)
  then show ?thesis by (simp add: configured_def find_settings_set feature_hash_set s)
qed

lemma configured_new:
  "find_settings u w = None \<Longrightarrow>
     configured g u (w\<lparr>user_settings := user_settings w @ [set_feature_hash f h (default_settings u)]\<rparr>) =
     (if g = f then given h else None) \<and> configured g u w = None"
  by (auto simp: configured_def find_settings_def find_append feature_hash_set default_settings_def)
    (cases g; simp add: given_def)

lemma setFeaturePassword_ok:
  assumes "setFeaturePassword C salt u f new cur w = ok r w'"
  shows "\<exists>h. hashPassword C salt new = Inr h \<and>
    (\<forall>g. configured g u w' = (if g = f then given (Some h) else configured g u w)) \<and>
    (\<forall>old. configured f u w = Some old \<longrightarrow> (\<exists>c. cur = Some c \<and> verifyPassword C c old = Inr True))"
proof -
  obtain h where h: "hashPassword C salt new = Inr h"
    using assms by (auto simp: setFeaturePassword_def Let_def split: if_splits option.splits sum.splits)
  have w': "w' = (if find_settings u w = None
                     then w\<lparr>user_settings := user_settings w @
                            [set_feature_hash f (Some h) (default_settings u)]\<rparr>
                     else set_settings u (set_feature_hash f (Some h)) w)"
    using assms h by (auto simp: setFeaturePassword_def Let_def split: if_splits option.splits sum.splits)
  have "\<exists>c. cur = Some c \<and> verifyPassword C c old = Inr True" if "configured f u w = Some old" for old
    using assms that by (auto simp: setFeaturePassword_def Let_def given_def split: if_splits option.splits sum.splits)
  moreover have "configured g u w' = (if g = f then given (Some h) else configured g u w)" for g
  proof (cases "find_settings u w = None")
    case True
    then show ?thesis using configured_new [of u w g f "Some h"] by (simp add: w')
  next
    case False
    then show ?thesis by (simp only: w' if_False configured_set [OF False])
  qed
  ultimately show ?thesis using h by blast
qed

lemma hashPassword_nonempty: "hashPassword C salt pw = Inr h \<Longrightarrow> given (Some h) = Some h"
  by (auto simp: hashPassword_def given_def split: option.splits)

section \<open>Properties\<close>

text \<open>A feature password that has been set is the one that is accepted: checking an attempt
  succeeds exactly when the key derivation gives it the key of the password that was set, the two
  other feature passwords are as before, and replacing it without a current password is refused
  and changes nothing.\<close>

theorem feature_password_lifecycle:
  assumes run: "setFeaturePassword C salt u f new cur w = ok r w'"
    and kdf: "\<And>pw. \<exists>k. scrypt_kdf C pw salt key_length (2 ^ 15) 8 1 = Some k \<and> length k = key_length"
    and attempt: "attempt \<noteq> ''''"
  shows "(verifyFeaturePassword C u f attempt w' = Inr () \<longleftrightarrow>
      scrypt_kdf C attempt salt key_length (2 ^ 15) 8 1 = scrypt_kdf C new salt key_length (2 ^ 15) 8 1) \<and>
    (\<forall>g. g \<noteq> f \<longrightarrow> configured g u w' = configured g u w) \<and>
    (\<forall>salt' new'. 4 \<le> length new' \<and> length new' \<le> 256 \<longrightarrow>
      setFeaturePassword C salt' u f new' None w' =
        fail (Unauthorized ''Current password required to change feature password'') w')"
proof -
  obtain h where h: "hashPassword C salt new = Inr h"
    and conf: "\<And>g. configured g u w' = (if g = f then given (Some h) else configured g u w)"
    using setFeaturePassword_ok [OF run] by (elim exE conjE) (rule that, auto)
  have mine: "configured f u w' = Some h" using conf [of f] hashPassword_nonempty [OF h] by simp
  obtain k k' where k: "scrypt_kdf C new salt key_length (2 ^ 15) 8 1 = Some k" "length k = key_length"
    and k': "scrypt_kdf C attempt salt key_length (2 ^ 15) 8 1 = Some k'"
    using kdf [of new] kdf [of attempt] by blast
  have ne: "k \<noteq> []" using k(2) by (auto simp: key_length_def)
  have st: "h = ''scrypt$32768$8$1$'' @ b64_encode salt @ ''$'' @ b64_encode k"
    using h k(1) by (simp add: hashPassword_def)
  have "verifyPassword C attempt h = Inr (k' = k)"
    unfolding st verify_stored [OF ne] using k(2) k' by simp
  then have "verifyFeaturePassword C u f attempt w' = Inr () \<longleftrightarrow>
      scrypt_kdf C attempt salt key_length (2 ^ 15) 8 1 = scrypt_kdf C new salt key_length (2 ^ 15) 8 1"
    using attempt k k' by (simp add: verifyFeaturePassword_def mine)
  moreover have "setFeaturePassword C salt' u f new' None w' =
        fail (Unauthorized ''Current password required to change feature password'') w'"
    if "4 \<le> length new'" "length new' \<le> 256" for salt' new'
    using that by (simp add: setFeaturePassword_def mine given_def Let_def)
  ultimately show ?thesis using conf by simp
qed

theorem feature_password_lifecycle_witness:
  "let C = plain_crypto\<lparr>scrypt_kdf := \<lambda>pw salt len n r p. Some (replicate key_length (hd pw))\<rparr>
   in \<exists>r w'. setFeaturePassword C ''salt'' ''alice'' Burn_Feature ''boom'' None demo_world = ok r w' \<and>
        verifyFeaturePassword C ''alice'' Burn_Feature ''boom'' w' = Inr () \<and>
        verifyFeaturePassword C ''alice'' Burn_Feature ''wrong'' w' \<noteq> Inr ()"
proof -
  let ?C = "plain_crypto\<lparr>scrypt_kdf := \<lambda>pw salt len n r p. Some (replicate key_length (hd pw))\<rparr>"
  obtain w' where s: "setFeaturePassword ?C ''salt'' ''alice'' Burn_Feature ''boom'' None demo_world =
      ok Burn_Feature w'"
    by (simp add: setFeaturePassword_def configured_def find_settings_def demo_world_def empty_world_def
        hashPassword_def Let_def)
  have "verifyFeaturePassword ?C ''alice'' Burn_Feature ''boom'' w' = Inr ()"
    "verifyFeaturePassword ?C ''alice'' Burn_Feature ''wrong'' w' \<noteq> Inr ()"
    using feature_password_lifecycle [OF s, of "''boom''"] feature_password_lifecycle [OF s, of "''wrong''"]
    by (simp_all add: key_length_def)
  then show ?thesis using s by (auto simp: Let_def)
qed

end
