(* ===== verification/Rooms.thy ===== *)
theory Rooms
  imports Settings Validation
begin

text \<open>
  Group rooms: \<open>rooms/rooms.service.ts\<close>. A room has one owner, a capacity, a join
  policy and a join lock; its members exchange messages encrypted under a room
  key that is handed out in key packages, one per epoch and recipient.

  Ids, codes, salts and clock readings are arguments. Where a handler checks
  something and writes later outside one transaction, \<open>interf\<close> is what other
  requests do in between. The relation to a user (\<open>include: { user }\<close>) is
  \<open>user_brief_of\<close>; the foreign keys make it present.
\<close>

section \<open>Rows and queries\<close>

definition members_of :: "ident \<Rightarrow> world \<Rightarrow> member_row list" where
  "members_of roomId w = filter (\<lambda>m. mb_roomId m = roomId) (room_members w)"

definition member_ids :: "ident \<Rightarrow> world \<Rightarrow> ident list" where
  "member_ids roomId w = map mb_userId (members_of roomId w)"

definition member_count :: "ident \<Rightarrow> world \<Rightarrow> int" where
  "member_count roomId w = int (length (members_of roomId w))"

text \<open>\<open>room.update\<close>: the schema stamps \<open>updatedAt\<close>.\<close>

definition set_room :: "ident \<Rightarrow> instant \<Rightarrow> (room_row \<Rightarrow> room_row) \<Rightarrow> world \<Rightarrow> world" where
  "set_room i now f w =
     w\<lparr>rooms := update_where (\<lambda>r. rm_id r = i) (\<lambda>r. (f r)\<lparr>rm_updatedAt := now\<rparr>) (rooms w)\<rparr>"

definition active_room :: "ident \<Rightarrow> world \<Rightarrow> room_row option" where
  "active_room i w =
     (case find_room i w of
        None \<Rightarrow> None
      | Some r \<Rightarrow> if rm_status r = Rm_Active then Some r else None)"

text \<open>The unique index on room and user.\<close>

definition add_member :: "ident \<Rightarrow> ident \<Rightarrow> ident \<Rightarrow> member_role \<Rightarrow> instant \<Rightarrow> world \<Rightarrow> unit res" where
  "add_member mid roomId userId role now w =
     (if room_member roomId userId w \<noteq> None then fail Unique_Violation w
      else ok () (w\<lparr>room_members := room_members w @
             [\<lparr>mb_id = mid, mb_roomId = roomId, mb_userId = userId, mb_role = role,
               mb_joinedAt = now\<rparr>]\<rparr>))"

definition find_join_request :: "ident \<Rightarrow> world \<Rightarrow> join_request_row option" where
  "find_join_request i w = find (\<lambda>r. jr_id r = i) (room_join_requests w)"

definition review :: "join_request_status \<Rightarrow> instant \<Rightarrow> ident \<Rightarrow> join_request_row \<Rightarrow> join_request_row" where
  "review s now by r = r\<lparr>jr_status := s, jr_reviewedAt := Some now, jr_reviewedById := Some by\<rparr>"

definition same_package :: "ident \<Rightarrow> int \<Rightarrow> ident \<Rightarrow> key_package_row \<Rightarrow> bool" where
  "same_package roomId epoch recipient p \<longleftrightarrow>
     kp_roomId p = roomId \<and> kp_keyEpoch p = epoch \<and> kp_recipientUserId p = recipient"

definition find_package :: "ident \<Rightarrow> int \<Rightarrow> ident \<Rightarrow> world \<Rightarrow> key_package_row option" where
  "find_package roomId epoch recipient w =
     find (same_package roomId epoch recipient) (room_key_packages w)"

definition upsert_package ::
  "ident \<Rightarrow> int \<Rightarrow> ident \<Rightarrow> bytes \<Rightarrow> bytes \<Rightarrow> ident \<Rightarrow> world \<Rightarrow> world" where
  "upsert_package roomId epoch recipient key nonce sender w =
     (if find_package roomId epoch recipient w = None
      then w\<lparr>room_key_packages := room_key_packages w @
             [\<lparr>kp_roomId = roomId, kp_keyEpoch = epoch, kp_recipientUserId = recipient,
               kp_encryptedKey = key, kp_nonce = nonce, kp_senderUserId = sender\<rparr>]\<rparr>
      else w\<lparr>room_key_packages := update_where (same_package roomId epoch recipient)
             (\<lambda>p. p\<lparr>kp_encryptedKey := key, kp_nonce := nonce, kp_senderUserId := sender\<rparr>)
             (room_key_packages w)\<rparr>)"

section \<open>create\<close>

fun room_name_text :: "room_name_error \<Rightarrow> string" where
  "room_name_text Room_Name_Short = ''Room name must be at least 2 characters''"
| "room_name_text Room_Name_Long = ''Room name must not exceed 50 characters''"
| "room_name_text Room_Name_Characters = ''Room name contains invalid characters''"

fun room_size_text :: "room_size_error \<Rightarrow> string" where
  "room_size_text Room_Size_Not_Whole = ''Maximum members must be a whole number''"
| "room_size_text Room_Size_Small = ''Maximum members must be at least 2''"
| "room_size_text Room_Size_Large = ''Maximum members cannot exceed 2000''"

record create_room_dto =
  cr_name :: string
  cr_maxMembers :: js_number
  cr_joinPolicy :: join_policy
  cr_openKeyCiphertext :: "string option"
  cr_openKeyNonce :: "string option"

text \<open>The reply: the room as stored, and the code in the clear.\<close>

definition max_room_code_attempts :: nat where
  "max_room_code_attempts = 5"

definition new_room ::
  "ident \<Rightarrow> string \<Rightarrow> ident \<Rightarrow> string \<Rightarrow> string \<Rightarrow> int \<Rightarrow> instant \<Rightarrow> create_room_dto \<Rightarrow> room_row" where
  "new_room rid name owner codeHmac codeText maxMembers now dto =
     \<lparr>rm_id = rid, rm_name = name, rm_ownerId = owner, rm_codeHmac = codeHmac,
      rm_codeText = Some codeText, rm_joinPolicy = cr_joinPolicy dto, rm_maxMembers = maxMembers,
      rm_status = Rm_Active, rm_keyEpoch = 1, rm_joinLocked = False,
      rm_openKeyCiphertext = map_option b64_decode (given (cr_openKeyCiphertext dto)),
      rm_openKeyNonce = map_option b64_decode (given (cr_openKeyNonce dto)),
      rm_createdAt = now, rm_updatedAt = now\<rparr>"

fun create_room_loop ::
  "crypto \<Rightarrow> string \<Rightarrow> (nat \<Rightarrow> bytes) \<Rightarrow> (nat \<Rightarrow> bytes) \<Rightarrow> ident \<Rightarrow> ident \<Rightarrow> instant \<Rightarrow>
     nat \<Rightarrow> nat \<Rightarrow> ident \<Rightarrow> string \<Rightarrow> int \<Rightarrow> create_room_dto \<Rightarrow> world \<Rightarrow> (room_row \<times> string) res" where
  "create_room_loop C pepper draws ivs rid mid now 0 k userId name maxMembers dto w =
     fail (Bad_Request ''Could not generate a unique room code. Please try again.'') w"
| "create_room_loop C pepper draws ivs rid mid now (Suc n) k userId name maxMembers dto w =
     (let code = generateRoomCode (draws k);
          room = new_room rid name userId (hashRoomCode C code pepper)
                   (encryptRoomCode C (ivs k) code pepper) maxMembers now dto
      in if list_ex (\<lambda>r. rm_codeHmac r = rm_codeHmac room) (rooms w)
         then create_room_loop C pepper draws ivs rid mid now n (Suc k) userId name maxMembers dto w
         else case add_member mid rid userId Owner_Role now (w\<lparr>rooms := rooms w @ [room]\<rparr>) of
                (Inr _, w1) \<Rightarrow> ok (room, code) w1
              | (Inl e, w1) \<Rightarrow>
                  create_room_loop C pepper draws ivs rid mid now n (Suc k) userId name maxMembers dto w)"

definition create_room ::
  "crypto \<Rightarrow> string \<Rightarrow> (nat \<Rightarrow> bytes) \<Rightarrow> (nat \<Rightarrow> bytes) \<Rightarrow> ident \<Rightarrow> ident \<Rightarrow> instant \<Rightarrow>
     ident \<Rightarrow> create_room_dto \<Rightarrow> world \<Rightarrow> (room_row \<times> string) res" where
  "create_room C pepper draws ivs rid mid now userId dto w =
     (case validateRoomName (cr_name dto) of
        Inl e \<Rightarrow> fail (Bad_Request (room_name_text e)) w
      | Inr name \<Rightarrow>
          (case validateMaxMembers (cr_maxMembers dto) of
             Inl e \<Rightarrow> fail (Bad_Request (room_size_text e)) w
           | Inr maxMembers \<Rightarrow>
               create_room_loop C pepper draws ivs rid mid now max_room_code_attempts 0
                 userId name maxMembers dto w))"

section \<open>Reading rooms\<close>

record room_summary =
  rs_room :: room_row
  rs_memberCount :: int
  rs_role :: member_role
  rs_owner :: "user_brief option"
  rs_lastMessage :: "(ident \<times> instant \<times> message_type \<times> ident) option"

definition room_summary_of :: "ident \<Rightarrow> world \<Rightarrow> room_row \<Rightarrow> room_summary" where
  "room_summary_of userId w r =
     \<lparr>rs_room = r, rs_memberCount = member_count (rm_id r) w,
      rs_role = (case room_member (rm_id r) userId w of None \<Rightarrow> Member_Role | Some m \<Rightarrow> mb_role m),
      rs_owner = user_brief_of (rm_ownerId r) w,
      rs_lastMessage = map_option (\<lambda>m. (rg_id m, rg_sentAt m, rg_messageType m, rg_clientMessageId m))
        (first_by (\<lambda>m. - rg_sequenceNumber m)
           (filter (\<lambda>m. rg_roomId m = rm_id r) (room_messages w)))\<rparr>"

definition listUserRooms :: "ident \<Rightarrow> world \<Rightarrow> room_summary list" where
  "listUserRooms userId w =
     map (room_summary_of userId w)
       (sort_key (\<lambda>r. - rm_updatedAt r)
          (filter (\<lambda>r. rm_status r = Rm_Active \<and> room_member (rm_id r) userId w \<noteq> None) (rooms w)))"

type_synonym member_view = "member_row \<times> user_brief option"

definition member_view_of :: "world \<Rightarrow> member_row \<Rightarrow> member_view" where
  "member_view_of w m = (m, user_brief_of (mb_userId m) w)"

record room_view =
  rv_room :: room_row
  rv_memberCount :: int
  rv_role :: member_role
  rv_code :: "string option"
  rv_openKeyCiphertext :: "string option"
  rv_openKeyNonce :: "string option"
  rv_owner :: "user_brief option"
  rv_members :: "member_view list"

definition getRoom :: "crypto \<Rightarrow> string \<Rightarrow> ident \<Rightarrow> ident \<Rightarrow> world \<Rightarrow> http_error + room_view" where
  "getRoom C pepper userId roomId w =
     (case find_room roomId w of
        None \<Rightarrow> Inl (Not_Found ''Room not found'')
      | Some room \<Rightarrow>
          if rm_status room = Rm_Deleted then Inl (Not_Found ''Room not found'')
          else case room_member roomId userId w of
            None \<Rightarrow> Inl (Forbidden ''You are not a member of this room'')
          | Some mine \<Rightarrow>
              Inr \<lparr>rv_room = room, rv_memberCount = member_count roomId w, rv_role = mb_role mine,
                   rv_code = (case given (rm_codeText room) of None \<Rightarrow> None
                              | Some t \<Rightarrow> decryptRoomCode C t pepper),
                   rv_openKeyCiphertext = map_option b64_encode (rm_openKeyCiphertext room),
                   rv_openKeyNonce = map_option b64_encode (rm_openKeyNonce room),
                   rv_owner = user_brief_of (rm_ownerId room) w,
                   rv_members = map (member_view_of w)
                     (take 50 (sort_key mb_joinedAt (members_of roomId w)))\<rparr>)"

record member_page =
  mp_members :: "member_view list"
  mp_total :: int
  mp_page :: int
  mp_limit :: int
  mp_totalPages :: int

definition getMembers :: "ident \<Rightarrow> ident \<Rightarrow> int \<Rightarrow> int \<Rightarrow> world \<Rightarrow> http_error + member_page" where
  "getMembers userId roomId page limit w =
     (if room_member roomId userId w = None
      then Inl (Forbidden ''You are not a member of this room'')
      else let safeLimit = min (max limit 1) 100;
               safePage = max page 1;
               skip = (safePage - 1) * safeLimit;
               total = member_count roomId w
      in Inr \<lparr>mp_members = map (member_view_of w)
                (take (nat safeLimit) (drop (nat skip) (sort_key mb_joinedAt (members_of roomId w)))),
              mp_total = total, mp_page = safePage, mp_limit = safeLimit,
              mp_totalPages = (total + safeLimit - 1) div safeLimit\<rparr>)"

section \<open>Joining\<close>

datatype join_reply =
    Already_Member ident string "string option" "string option"
  | Joined ident string "string option" "string option"
  | Join_Pending ident string
  | Request_Sent ident string

definition joinByCode ::
  "crypto \<Rightarrow> string \<Rightarrow> (world \<Rightarrow> world) \<Rightarrow> ident \<Rightarrow> instant \<Rightarrow> ident \<Rightarrow> string \<Rightarrow> world \<Rightarrow> join_reply res" where
  "joinByCode C pepper interf newId now userId code w =
     (let codeHmac = hashRoomCode C (normalizeRoomCode code) pepper
      in case find (\<lambda>r. rm_codeHmac r = codeHmac) (rooms w) of
           None \<Rightarrow> fail (Bad_Request ''Invalid room code'') w
         | Some room \<Rightarrow>
             let rid = rm_id room;
                 openKey = map_option b64_encode (rm_openKeyCiphertext room);
                 openNonce = map_option b64_encode (rm_openKeyNonce room)
             in if rm_status room \<noteq> Rm_Active then fail (Bad_Request ''Invalid room code'') w
             else if userId \<in> set (member_ids rid w)
             then ok (Already_Member rid (rm_name room) openKey openNonce) w
             else if rm_joinLocked room
             then fail (Forbidden ''The room owner has stopped accepting new members'') w
             else if member_count rid w \<ge> rm_maxMembers room then fail (Bad_Request ''Room is full'') w
             else let w1 = interf w
             in if rm_joinPolicy room = Open_Join
             then (if member_count rid w1 \<ge> rm_maxMembers room
                   then fail (Bad_Request ''Room is full'') w1
                   else case add_member newId rid userId Member_Role now w1 of
                     (Inl e, w2) \<Rightarrow> fail e w2
                   | (Inr _, w2) \<Rightarrow>
                       ok (Joined rid (rm_name room) openKey openNonce)
                         (push_all (member_ids rid w)
                            (Room_Member_Joined rid (user_brief_of userId w2) (member_count rid w + 1)) w2))
             else if list_ex (\<lambda>q. jr_roomId q = rid \<and> jr_requesterId q = userId \<and> jr_status q = Jr_Pending)
                       (room_join_requests w1)
             then ok (Join_Pending rid (rm_name room)) w1
             else let w2 = w1\<lparr>room_join_requests := room_join_requests w1 @
                         [\<lparr>jr_id = newId, jr_roomId = rid, jr_requesterId = userId,
                           jr_status = Jr_Pending, jr_createdAt = now, jr_reviewedAt = None,
                           jr_reviewedById = None\<rparr>]\<rparr>
             in ok (Request_Sent rid (rm_name room))
                  (push (rm_ownerId room)
                     (Room_Join_Request newId rid (rm_name room) (user_brief_of userId w2) now) w2))"

record pending_view =
  pv_request :: join_request_row
  pv_requester :: "user_brief option"
  pv_identityDhPublic :: "string option"

definition getPendingRequests :: "ident \<Rightarrow> ident \<Rightarrow> world \<Rightarrow> http_error + pending_view list" where
  "getPendingRequests userId roomId w =
     (case active_room roomId w of
        None \<Rightarrow> Inl (Not_Found ''Room not found'')
      | Some room \<Rightarrow>
          if rm_ownerId room \<noteq> userId
          then Inl (Forbidden ''Only the room owner can view join requests'')
          else Inr (map (\<lambda>q. \<lparr>pv_request = q, pv_requester = user_brief_of (jr_requesterId q) w,
                              pv_identityDhPublic =
                                map_option dv_identityDhPublic (active_device (jr_requesterId q) w)\<rparr>)
                      (sort_key jr_createdAt
                         (filter (\<lambda>q. jr_roomId q = roomId \<and> jr_status q = Jr_Pending)
                            (room_join_requests w)))))"

text \<open>The guards \<open>acceptRequest\<close> and \<open>rejectRequest\<close> share; \<open>verb\<close> is the word in the error.\<close>

definition reviewable ::
  "string \<Rightarrow> ident \<Rightarrow> ident \<Rightarrow> ident \<Rightarrow> world \<Rightarrow> http_error + room_row \<times> join_request_row" where
  "reviewable verb ownerId roomId requestId w =
     (case active_room roomId w of
        None \<Rightarrow> Inl (Not_Found ''Room not found'')
      | Some room \<Rightarrow>
          if rm_ownerId room \<noteq> ownerId
          then Inl (Forbidden (''Only the room owner can '' @ verb @ '' join requests''))
          else case find_join_request requestId w of
            None \<Rightarrow> Inl (Not_Found ''Request not found'')
          | Some req \<Rightarrow>
              if jr_roomId req \<noteq> roomId then Inl (Not_Found ''Request not found'')
              else if jr_status req \<noteq> Jr_Pending
              then Inl (Bad_Request ''This join request is no longer active'')
              else Inr (room, req))"

definition set_join_request :: "ident \<Rightarrow> (join_request_row \<Rightarrow> join_request_row) \<Rightarrow> world \<Rightarrow> world" where
  "set_join_request i f w =
     w\<lparr>room_join_requests := update_where (\<lambda>q. jr_id q = i) f (room_join_requests w)\<rparr>"

text \<open>The body of the transaction, after its guards: the new members and whom to tell.\<close>

definition accept_joiner ::
  "ident \<Rightarrow> instant \<Rightarrow> ident \<Rightarrow> string option \<Rightarrow> string option \<Rightarrow> room_row \<Rightarrow> join_request_row \<Rightarrow>
     world \<Rightarrow> world" where
  "accept_joiner newId now ownerId encryptedKey nonce room req w =
     (let w1 = set_join_request (jr_id req) (review Jr_Accepted now ownerId) w;
          w2 = (if room_member (rm_id room) (jr_requesterId req) w1 = None
                then snd (add_member newId (rm_id room) (jr_requesterId req) Member_Role now w1) else w1)
      in case (given encryptedKey, given nonce) of
           (Some k, Some n) \<Rightarrow>
             upsert_package (rm_id room) (rm_keyEpoch room) (jr_requesterId req) (b64_decode k)
               (b64_decode n) ownerId w2
         | _ \<Rightarrow> w2)"

definition acceptJoin ::
  "ident \<Rightarrow> instant \<Rightarrow> ident \<Rightarrow> ident \<Rightarrow> ident \<Rightarrow> string option \<Rightarrow> string option \<Rightarrow> world \<Rightarrow>
     (int \<times> user_brief option) res" where
  "acceptJoin newId now ownerId roomId requestId encryptedKey nonce w =
     (case reviewable ''accept'' ownerId roomId requestId w of
        Inl e \<Rightarrow> fail e w
      | Inr (room, req) \<Rightarrow>
          let count = member_count roomId w
          in if count \<ge> rm_maxMembers room then fail (Bad_Request ''Room is full'') w
          else let w1 = accept_joiner newId now ownerId encryptedKey nonce room req w;
                   requester = user_brief_of (jr_requesterId req) w1;
                   w2 = push (jr_requesterId req) (Room_Join_Accepted roomId (rm_name room)) w1
          in ok (count + 1, requester)
               (push_all (member_ids roomId w1) (Room_Member_Joined roomId requester (count + 1)) w2))"

definition rejectJoin :: "instant \<Rightarrow> ident \<Rightarrow> ident \<Rightarrow> ident \<Rightarrow> world \<Rightarrow> unit res" where
  "rejectJoin now ownerId roomId requestId w =
     (case reviewable ''reject'' ownerId roomId requestId w of
        Inl e \<Rightarrow> fail e w
      | Inr (room, req) \<Rightarrow>
          ok () (push (jr_requesterId req) (Room_Join_Rejected roomId (rm_name room))
                   (set_join_request requestId (review Jr_Rejected now ownerId) w)))"

section \<open>Messages\<close>

record room_message_view =
  rw_id :: ident
  rw_sender :: "user_brief option"
  rw_sequenceNumber :: int
  rw_clientMessageId :: ident
  rw_ciphertext :: string
  rw_iv :: string
  rw_messageType :: message_type
  rw_keyEpoch :: int
  rw_replyToMessageId :: "ident option"
  rw_sentAt :: instant

definition room_message_view_of :: "world \<Rightarrow> room_message_row \<Rightarrow> room_message_view" where
  "room_message_view_of w m =
     \<lparr>rw_id = rg_id m, rw_sender = user_brief_of (rg_senderId m) w,
      rw_sequenceNumber = rg_sequenceNumber m, rw_clientMessageId = rg_clientMessageId m,
      rw_ciphertext = b64_encode (rg_ciphertext m), rw_iv = b64_encode (rg_nonce m),
      rw_messageType = rg_messageType m, rw_keyEpoch = rg_keyEpoch m,
      rw_replyToMessageId = rg_replyToMessageId m, rw_sentAt = rg_sentAt m\<rparr>"

definition in_room :: "ident \<Rightarrow> world \<Rightarrow> room_message_row list" where
  "in_room roomId w = filter (\<lambda>m. rg_roomId m = roomId) (room_messages w)"

text \<open>\<open>limit\<close> is 100 when the query does not give one.\<close>

definition list_room_messages ::
  "ident \<Rightarrow> ident \<Rightarrow> nat \<Rightarrow> world \<Rightarrow> http_error + room_message_view list" where
  "list_room_messages userId roomId limit w =
     (if room_member roomId userId w = None
      then Inl (Forbidden ''You are not a member of this room'')
      else Inr (map (room_message_view_of w)
             (take limit (sort_key rg_sequenceNumber
                (filter (\<lambda>m. rg_deletedAt m = None) (in_room roomId w))))))"

record room_send_dto =
  rd_clientMessageId :: ident
  rd_ciphertext :: string
  rd_iv :: string
  rd_messageType :: "message_type option"
  rd_replyToMessageId :: "ident option"
  rd_keyEpoch :: "int option"

definition next_room_sequence :: "ident \<Rightarrow> world \<Rightarrow> int" where
  "next_room_sequence roomId w =
     (case max_column rg_sequenceNumber (in_room roomId w) of None \<Rightarrow> 0 | Some x \<Rightarrow> x) + 1"

definition new_room_message ::
  "room_row \<Rightarrow> room_send_dto \<Rightarrow> ident \<Rightarrow> ident \<Rightarrow> instant \<Rightarrow> int \<Rightarrow> room_message_row" where
  "new_room_message room dto mid userId sentAt n =
     \<lparr>rg_id = mid, rg_roomId = rm_id room, rg_senderId = userId, rg_sequenceNumber = n,
      rg_clientMessageId = rd_clientMessageId dto, rg_ciphertext = b64_decode (rd_ciphertext dto),
      rg_nonce = b64_decode (rd_iv dto),
      rg_messageType = (case rd_messageType dto of None \<Rightarrow> Text_Msg | Some t \<Rightarrow> t),
      rg_keyEpoch = (case rd_keyEpoch dto of None \<Rightarrow> rm_keyEpoch room | Some e \<Rightarrow> e),
      rg_replyToMessageId = rd_replyToMessageId dto, rg_sentAt = sentAt, rg_deletedAt = None\<rparr>"

definition room_message_clash :: "room_message_row \<Rightarrow> room_message_row \<Rightarrow> bool" where
  "room_message_clash m r \<longleftrightarrow> rg_roomId r = rg_roomId m \<and>
     (rg_sequenceNumber r = rg_sequenceNumber m \<or> rg_clientMessageId r = rg_clientMessageId m)"

definition find_room_message :: "ident \<Rightarrow> ident \<Rightarrow> world \<Rightarrow> room_message_row option" where
  "find_room_message roomId clientMessageId w =
     find (\<lambda>m. rg_roomId m = roomId \<and> rg_clientMessageId m = clientMessageId) (room_messages w)"

definition broadcast_message ::
  "room_send_dto \<Rightarrow> room_message_row \<Rightarrow> world \<Rightarrow> world" where
  "broadcast_message dto m w =
     push_all (member_ids (rg_roomId m) w)
       (Room_Message (rg_id m) (rg_roomId m) (user_brief_of (rg_senderId m) w) (rg_sequenceNumber m)
          (rg_clientMessageId m) (rd_ciphertext dto) (rd_iv dto) (rg_messageType m) (rg_keyEpoch m)
          (rg_replyToMessageId m) (rg_sentAt m)) w"

text \<open>As for conversations, \<open>interf (2 * k)\<close> runs before the \<open>k\<close>th read of the maximum and
  \<open>interf (2 * k + 1)\<close> between that read and the insert.\<close>

fun room_send_loop ::
  "nat \<Rightarrow> (nat \<Rightarrow> world \<Rightarrow> world) \<Rightarrow> nat \<Rightarrow> ident \<Rightarrow> instant \<Rightarrow> ident \<Rightarrow> room_row \<Rightarrow> room_send_dto \<Rightarrow>
     world \<Rightarrow> (ident \<times> int \<times> instant) res" where
  "room_send_loop 0 interf k mid sentAt userId room dto w =
     fail (Bad_Request ''Could not send message. Please retry.'') w"
| "room_send_loop (Suc n) interf k mid sentAt userId room dto w =
     (let w1 = interf (2 * k) w;
          m = new_room_message room dto mid userId sentAt (next_room_sequence (rm_id room) w1);
          w2 = interf (2 * k + 1) w1
      in if list_ex (room_message_clash m) (room_messages w2)
         then (case find_room_message (rm_id room) (rd_clientMessageId dto) w2 of
                 Some x \<Rightarrow> ok (rg_id x, rg_sequenceNumber x, rg_sentAt x) w2
               | None \<Rightarrow> room_send_loop n interf (Suc k) mid sentAt userId room dto w2)
         else ok (mid, rg_sequenceNumber m, sentAt)
                (broadcast_message dto m (w2\<lparr>room_messages := room_messages w2 @ [m]\<rparr>)))"

definition max_message_retry_attempts :: nat where
  "max_message_retry_attempts = 5"

definition send_room_message ::
  "(nat \<Rightarrow> world \<Rightarrow> world) \<Rightarrow> ident \<Rightarrow> instant \<Rightarrow> ident \<Rightarrow> ident \<Rightarrow> room_send_dto \<Rightarrow> world \<Rightarrow>
     (ident \<times> int \<times> instant) res" where
  "send_room_message interf mid sentAt userId roomId dto w =
     (if room_member roomId userId w = None
      then fail (Forbidden ''You are not a member of this room'') w
      else case active_room roomId w of
        None \<Rightarrow> fail (Not_Found ''Room is no longer active'') w
      | Some room \<Rightarrow>
          room_send_loop max_message_retry_attempts interf 0 mid sentAt userId room dto w)"

section \<open>Leaving, locking, deleting\<close>

definition drop_member :: "ident \<Rightarrow> world \<Rightarrow> world" where
  "drop_member memberId w = w\<lparr>room_members := delete_where (\<lambda>m. mb_id m = memberId) (room_members w)\<rparr>"

definition leaveRoom :: "ident \<Rightarrow> ident \<Rightarrow> world \<Rightarrow> unit res" where
  "leaveRoom userId roomId w =
     (case room_member roomId userId w of
        None \<Rightarrow> fail (Not_Found ''Membership not found'') w
      | Some m \<Rightarrow>
          if mb_role m = Owner_Role
          then fail (Bad_Request ''Room owner cannot leave the room. Delete or close the room instead.'') w
          else let w1 = drop_member (mb_id m) w
          in ok () (push_all (member_ids roomId w1)
                      (Room_Member_Left roomId (user_brief_of userId w1) (member_count roomId w1)) w1))"

text \<open>The guard of every handler only the owner of an active room may call.\<close>

definition owned_room :: "string \<Rightarrow> ident \<Rightarrow> ident \<Rightarrow> world \<Rightarrow> http_error + room_row" where
  "owned_room what ownerId roomId w =
     (case active_room roomId w of
        None \<Rightarrow> Inl (Not_Found ''Room not found'')
      | Some room \<Rightarrow>
          if rm_ownerId room \<noteq> ownerId
          then Inl (Forbidden (''Only the room owner can '' @ what)) else Inr room)"

definition setJoinLocked :: "instant \<Rightarrow> ident \<Rightarrow> ident \<Rightarrow> bool \<Rightarrow> world \<Rightarrow> (ident \<times> bool) res" where
  "setJoinLocked now ownerId roomId lock w =
     (case owned_room ''change the join lock'' ownerId roomId w of
        Inl e \<Rightarrow> fail e w
      | Inr room \<Rightarrow>
          ok (roomId, lock)
            (push_all (member_ids roomId w) (Room_Join_Lock_Changed roomId lock)
               (set_room roomId now (\<lambda>r. r\<lparr>rm_joinLocked := lock\<rparr>) w)))"

definition deleteRoom ::
  "crypto \<Rightarrow> instant \<Rightarrow> ident \<Rightarrow> ident \<Rightarrow> string option \<Rightarrow> world \<Rightarrow> unit res" where
  "deleteRoom C now ownerId roomId password w =
     (case owned_room ''delete the room'' ownerId roomId w of
        Inl e \<Rightarrow> fail e w
      | Inr room \<Rightarrow>
          (case Option.bind (find_settings ownerId w) (\<lambda>s. given (st_burnPasswordHash s)) of
             None \<Rightarrow> fail (Unauthorized ''Burn Password is not configured. Please set a Burn Password first.'') w
           | Some h \<Rightarrow>
               (case (case given password of None \<Rightarrow> Inr False | Some p \<Rightarrow> verifyPassword C p h) of
                  Inl e \<Rightarrow> fail e w
                | Inr valid \<Rightarrow>
                    if \<not> valid then fail (Unauthorized ''Incorrect Burn Password'') w
                    else let w1 = set_room roomId now (\<lambda>r. r\<lparr>rm_status := Rm_Deleted\<rparr>) w;
                             w2 = w1\<lparr>room_join_requests :=
                               update_where (\<lambda>q. jr_roomId q = roomId \<and> jr_status q = Jr_Pending)
                                 (\<lambda>q. q\<lparr>jr_status := Jr_Cancelled\<rparr>) (room_join_requests w1)\<rparr>
                    in ok () (push_all (member_ids roomId w) (Room_Closed roomId (rm_name room)) w2))))"

section \<open>Key packages\<close>

record store_key_dto =
  sk_recipientUserId :: ident
  sk_encryptedKey :: string
  sk_nonce :: string
  sk_keyEpoch :: "int option"

definition storeKeyPackage :: "ident \<Rightarrow> ident \<Rightarrow> store_key_dto \<Rightarrow> world \<Rightarrow> unit res" where
  "storeKeyPackage userId roomId dto w =
     (if room_member roomId userId w = None
      then fail (Forbidden ''You are not a member of this room'') w
      else case active_room roomId w of
        None \<Rightarrow> fail (Not_Found ''Room not found'') w
      | Some room \<Rightarrow>
          let keyEpoch = (case sk_keyEpoch dto of None \<Rightarrow> rm_keyEpoch room | Some e \<Rightarrow> e)
          in ok () (push (sk_recipientUserId dto) (Room_Key_Delivered roomId keyEpoch)
               (upsert_package roomId keyEpoch (sk_recipientUserId dto) (b64_decode (sk_encryptedKey dto))
                  (b64_decode (sk_nonce dto)) userId w)))"

record key_package_view =
  kv_roomId :: ident
  kv_keyEpoch :: int
  kv_encryptedKey :: string
  kv_nonce :: string
  kv_sender :: "user_brief option"
  kv_senderDh :: "string option"

definition getKeyPackage ::
  "ident \<Rightarrow> ident \<Rightarrow> int option \<Rightarrow> world \<Rightarrow> http_error + key_package_view option" where
  "getKeyPackage userId roomId keyEpoch w =
     (if room_member roomId userId w = None
      then Inl (Forbidden ''You are not a member of this room'')
      else case find_room roomId w of
        None \<Rightarrow> Inl (Not_Found ''Room not found'')
      | Some room \<Rightarrow>
          let epoch = (case keyEpoch of None \<Rightarrow> rm_keyEpoch room | Some e \<Rightarrow> e)
          in Inr (map_option (\<lambda>p.
               \<lparr>kv_roomId = kp_roomId p, kv_keyEpoch = kp_keyEpoch p,
                kv_encryptedKey = b64_encode (kp_encryptedKey p), kv_nonce = b64_encode (kp_nonce p),
                kv_sender = user_brief_of (kp_senderUserId p) w,
                kv_senderDh = map_option dv_identityDhPublic (active_device (kp_senderUserId p) w)\<rparr>)
              (find_package roomId epoch userId w)))"

section \<open>The owner's changes\<close>

record update_room_dto =
  up_name :: "string option"
  up_maxMembers :: "js_number option"
  up_joinPolicy :: "join_policy option"
  up_openKeyCiphertext :: "string option"
  up_openKeyNonce :: "string option"

text \<open>The two validated fields: \<open>Inr None\<close> when the request leaves the field out.\<close>

definition new_name :: "update_room_dto \<Rightarrow> http_error + string option" where
  "new_name dto =
     (case up_name dto of
        None \<Rightarrow> Inr None
      | Some raw \<Rightarrow>
          (case validateRoomName raw of
             Inl e \<Rightarrow> Inl (Bad_Request (room_name_text e))
           | Inr name \<Rightarrow> Inr (Some name)))"

definition new_capacity :: "ident \<Rightarrow> update_room_dto \<Rightarrow> world \<Rightarrow> http_error + int option" where
  "new_capacity roomId dto w =
     (case up_maxMembers dto of
        None \<Rightarrow> Inr None
      | Some raw \<Rightarrow>
          (case validateMaxMembers raw of
             Inl e \<Rightarrow> Inl (Bad_Request (room_size_text e))
           | Inr n \<Rightarrow>
               if n < member_count roomId w
               then Inl (Bad_Request (''Cannot reduce maximum members below current member count ('' @
                      decimal (nat (member_count roomId w)) @ '')''))
               else Inr (Some n)))"

definition apply_update ::
  "update_room_dto \<Rightarrow> string option \<Rightarrow> int option \<Rightarrow> room_row \<Rightarrow> room_row" where
  "apply_update dto name capacity r =
     (let r1 = r\<lparr>rm_name := (case name of None \<Rightarrow> rm_name r | Some n \<Rightarrow> n),
                rm_maxMembers := (case capacity of None \<Rightarrow> rm_maxMembers r | Some n \<Rightarrow> n),
                rm_joinPolicy := (case up_joinPolicy dto of None \<Rightarrow> rm_joinPolicy r | Some p \<Rightarrow> p)\<rparr>
      in case (given (up_openKeyCiphertext dto), given (up_openKeyNonce dto)) of
           (Some k, Some n) \<Rightarrow> r1\<lparr>rm_openKeyCiphertext := Some (b64_decode k),
                                 rm_openKeyNonce := Some (b64_decode n)\<rparr>
         | _ \<Rightarrow> r1)"

definition updateRoom ::
  "(world \<Rightarrow> world) \<Rightarrow> instant \<Rightarrow> ident \<Rightarrow> ident \<Rightarrow> update_room_dto \<Rightarrow> world \<Rightarrow>
     (string \<times> int \<times> join_policy) res" where
  "updateRoom interf now ownerId roomId dto w =
     (case owned_room ''update room settings'' ownerId roomId w of
        Inl e \<Rightarrow> fail e w
      | Inr _ \<Rightarrow>
          (case new_name dto of
             Inl e \<Rightarrow> fail e w
           | Inr name \<Rightarrow>
               (case new_capacity roomId dto w of
                  Inl e \<Rightarrow> fail e w
                | Inr capacity \<Rightarrow>
                    let w1 = set_room roomId now (apply_update dto name capacity) (interf w)
                    in case find_room roomId w1 of
                         None \<Rightarrow> fail Record_Missing w1
                       | Some r \<Rightarrow>
                           ok (rm_name r, rm_maxMembers r, rm_joinPolicy r)
                             (push_all (member_ids roomId w1)
                                (Room_Updated roomId (rm_name r) (rm_maxMembers r) (rm_joinPolicy r)) w1))))"

definition removeMember :: "instant \<Rightarrow> ident \<Rightarrow> ident \<Rightarrow> ident \<Rightarrow> world \<Rightarrow> int res" where
  "removeMember now ownerId roomId targetUserId w =
     (case owned_room ''remove members'' ownerId roomId w of
        Inl e \<Rightarrow> fail e w
      | Inr room \<Rightarrow>
          if targetUserId = ownerId
          then fail (Bad_Request ''Room owner cannot be removed. Close or delete the room instead.'') w
          else case room_member roomId targetUserId w of
            None \<Rightarrow> fail (Not_Found ''Member not found'') w
          | Some m \<Rightarrow>
              let w1 = set_room roomId now (\<lambda>r. r\<lparr>rm_keyEpoch := rm_keyEpoch r + 1\<rparr>)
                         (drop_member (mb_id m) w);
                  newKeyEpoch = rm_keyEpoch room + 1;
                  remaining = member_ids roomId w1;
                  w2 = push targetUserId (Room_Member_Removed roomId (rm_name room)) w1;
                  w3 = push_all remaining
                         (Room_Member_Left roomId (user_brief_of targetUserId w) (member_count roomId w1)) w2
              in ok newKeyEpoch (push_all remaining (Room_Key_Rotation_Required roomId newKeyEpoch) w3))"

text \<open>
  \<open>contains q s\<close> is the database's case-insensitive substring match. The query
  without \<open>orderBy\<close> returns the first twenty matches in table order.
\<close>

definition blocked_pair :: "ident \<Rightarrow> ident \<Rightarrow> world \<Rightarrow> bool" where
  "blocked_pair a b w =
     (case find_conv_pair (canonical_pair a b) w of
        None \<Rightarrow> False
      | Some c \<Rightarrow> cv_status c = Cv_Blocked_By_A \<or> cv_status c = Cv_Blocked_By_B)"

definition searchUsersForRoom ::
  "(string \<Rightarrow> string \<Rightarrow> bool) \<Rightarrow> ident \<Rightarrow> ident \<Rightarrow> string \<Rightarrow> world \<Rightarrow>
     http_error + (user_brief \<times> bool) list" where
  "searchUsersForRoom contains ownerId roomId rawQuery w =
     (case owned_room ''search users to add'' ownerId roomId w of
        Inl e \<Rightarrow> Inl e
      | Inr _ \<Rightarrow>
          let query = js_trim rawQuery
          in if length query < 2 then Inl (Bad_Request ''Search query must be at least 2 characters'')
          else if length query > 50 then Inl (Bad_Request ''Search query must be at most 50 characters'')
          else let candidates = take 20 (filter (\<lambda>u. us_id u \<noteq> ownerId \<and> us_status u = Acct_Active \<and>
                     (contains query (us_username u) \<or>
                      (case us_displayName u of None \<Rightarrow> False | Some d \<Rightarrow> contains query d))) (users w))
          in Inr (map (\<lambda>u. (brief u, us_id u \<in> set (member_ids roomId w)))
                 (take 10 (filter (\<lambda>u. \<not> blocked_pair (us_id u) ownerId w) candidates))))"

definition addMemberByOwner ::
  "(world \<Rightarrow> world) \<Rightarrow> ident \<Rightarrow> instant \<Rightarrow> ident \<Rightarrow> ident \<Rightarrow> ident \<Rightarrow> world \<Rightarrow> int res" where
  "addMemberByOwner interf newId now ownerId roomId targetUserId w =
     (case owned_room ''add members'' ownerId roomId w of
        Inl e \<Rightarrow> fail e w
      | Inr room \<Rightarrow>
          if targetUserId = ownerId then fail (Bad_Request ''Room owner is already a member'') w
          else case find_user targetUserId w of
            None \<Rightarrow> fail (Not_Found ''User not found'') w
          | Some target \<Rightarrow>
              if us_status target \<noteq> Acct_Active then fail (Not_Found ''User not found'') w
              else if blocked_pair targetUserId ownerId w
              then fail (Bad_Request ''Cannot add this user to the room'') w
              else if room_member roomId targetUserId w \<noteq> None
              then fail (Conflict ''User is already a member of this room'') w
              else let count = member_count roomId w
              in if count \<ge> rm_maxMembers room
              then fail (Bad_Request ''Room is at maximum member capacity'') w
              else let w0 = interf w
              in case add_member newId roomId targetUserId Member_Role now w0 of
                   (Inl e, w1) \<Rightarrow> fail e w1
                 | (Inr _, w1) \<Rightarrow>
                     let w2 = w1\<lparr>room_join_requests :=
                           update_where (\<lambda>q. jr_roomId q = roomId \<and> jr_requesterId q = targetUserId \<and>
                                            jr_status q = Jr_Pending)
                             (review Jr_Accepted now ownerId) (room_join_requests w1)\<rparr>;
                         w3 = push targetUserId (Room_Join_Accepted roomId (rm_name room)) w2
                     in ok (count + 1)
                          (push_all (member_ids roomId w3)
                             (Room_Member_Joined roomId (user_brief_of targetUserId w3) (count + 1)) w3))"

section \<open>The invariant of rooms and members\<close>

text \<open>
  Ids, codes and memberships are unique, every member belongs to a room, the
  owner of a room, and nobody else, is a member with the owner's role, and no
  room holds more members than its capacity.
\<close>

definition member_key :: "member_row \<Rightarrow> ident \<times> ident" where
  "member_key m = (mb_roomId m, mb_userId m)"

definition room_size :: "ident \<Rightarrow> member_row list \<Rightarrow> int" where
  "room_size i ms = int (length (filter (\<lambda>m. mb_roomId m = i) ms))"

definition room_fits :: "member_row list \<Rightarrow> room_row \<Rightarrow> bool" where
  "room_fits ms r \<longleftrightarrow> room_size (rm_id r) ms \<le> rm_maxMembers r \<and>
     (rm_id r, rm_ownerId r) \<in> member_key ` set ms"

definition member_fits :: "room_row list \<Rightarrow> member_row \<Rightarrow> bool" where
  "member_fits rs m \<longleftrightarrow> (\<exists>r \<in> set rs. rm_id r = mb_roomId m \<and>
     (mb_role m = Owner_Role \<longleftrightarrow> mb_userId m = rm_ownerId r))"

definition rooms_inv :: "room_row list \<Rightarrow> member_row list \<Rightarrow> bool" where
  "rooms_inv rs ms \<longleftrightarrow> distinct (map rm_id rs) \<and> distinct (map rm_codeHmac rs) \<and>
     distinct (map mb_id ms) \<and> distinct (map member_key ms) \<and>
     (\<forall>r \<in> set rs. room_fits ms r) \<and> (\<forall>m \<in> set ms. member_fits rs m)"

definition rooms_ok :: "world \<Rightarrow> bool" where
  "rooms_ok w \<longleftrightarrow> rooms_inv (rooms w) (room_members w)"

text \<open>What a change of a row may not touch.\<close>

definition room_core :: "room_row \<Rightarrow> ident \<times> string \<times> ident" where
  "room_core r = (rm_id r, rm_codeHmac r, rm_ownerId r)"

lemma room_size_count: "member_count i w = room_size i (room_members w)"
  by (simp add: member_count_def members_of_def room_size_def)

lemma room_size_append [simp]:
  "room_size i (ms @ [m]) = (if mb_roomId m = i then room_size i ms + 1 else room_size i ms)"
  by (simp add: room_size_def)

lemma room_size_delete: "room_size i (delete_where p ms) \<le> room_size i ms"
proof -
  have "length (filter (\<lambda>m. mb_roomId m = i) (delete_where p ms)) \<le> length (filter (\<lambda>m. mb_roomId m = i) ms)"
    by (induction ms) simp_all
  then show ?thesis by (simp add: room_size_def)
qed

lemma room_member_key: "room_member i u w = None \<longleftrightarrow> (i, u) \<notin> member_key ` set (room_members w)"
  by (auto simp: room_member_def find_None_in member_key_def)

lemma room_member_Some:
  "room_member i u w = Some m \<Longrightarrow> m \<in> set (room_members w) \<and> mb_roomId m = i \<and> mb_userId m = u"
  by (auto simp: room_member_def dest: find_Some_in)

lemma find_room_Some: "find_room i w = Some r \<Longrightarrow> r \<in> set (rooms w) \<and> rm_id r = i"
  by (auto simp: find_room_def dest: find_Some_in)

lemma rooms_invI:
  assumes "distinct (map rm_id rs)" "distinct (map rm_codeHmac rs)" "distinct (map mb_id ms)"
    "distinct (map member_key ms)" "\<And>r. r \<in> set rs \<Longrightarrow> room_fits ms r"
    "\<And>m. m \<in> set ms \<Longrightarrow> member_fits rs m"
  shows "rooms_inv rs ms"
  using assms by (simp add: rooms_inv_def)

lemma rooms_invD:
  assumes "rooms_inv rs ms"
  shows "distinct (map rm_id rs)" "distinct (map rm_codeHmac rs)" "distinct (map mb_id ms)"
    "distinct (map member_key ms)" "\<And>r. r \<in> set rs \<Longrightarrow> room_fits ms r"
    "\<And>m. m \<in> set ms \<Longrightarrow> member_fits rs m"
  using assms by (simp_all add: rooms_inv_def)

lemma one_room: "rooms_inv rs ms \<Longrightarrow> r \<in> set rs \<Longrightarrow> r' \<in> set rs \<Longrightarrow> rm_id r' = rm_id r \<Longrightarrow> r' = r"
  using rooms_invD(1) distinct_key_eq [of rm_id rs] by blast

lemma one_member: "rooms_inv rs ms \<Longrightarrow> m \<in> set ms \<Longrightarrow> m' \<in> set ms \<Longrightarrow> mb_id m' = mb_id m \<Longrightarrow> m' = m"
  using rooms_invD(3) distinct_key_eq [of mb_id ms] by blast

lemma rooms_inv_update:
  assumes inv: "rooms_inv rs ms"
    and core: "\<And>r. r \<in> set rs \<Longrightarrow> p r \<Longrightarrow> room_core (f r) = room_core r"
    and cap: "\<And>r. r \<in> set rs \<Longrightarrow> p r \<Longrightarrow> room_size (rm_id r) ms \<le> rm_maxMembers (f r)"
  shows "rooms_inv (update_where p f rs) ms"
proof (rule rooms_invI)
  let ?g = "\<lambda>r. if p r then f r else r"
  have c: "rm_id (?g r) = rm_id r \<and> rm_codeHmac (?g r) = rm_codeHmac r \<and> rm_ownerId (?g r) = rm_ownerId r"
    if "r \<in> set rs" for r
    using core that by (simp add: room_core_def)
  show "distinct (map rm_id (update_where p f rs))" "distinct (map rm_codeHmac (update_where p f rs))"
    using rooms_invD(1,2) [OF inv] c by (simp_all add: update_where_def comp_def cong: map_cong)
  show "room_fits ms r" if r: "r \<in> set (update_where p f rs)" for r
  proof -
    obtain x where x: "x \<in> set rs" "r = ?g x" using r unfolding set_update_where by (elim imageE) (rule that)
    show ?thesis using rooms_invD(5) [OF inv x(1)] c [OF x(1)] cap [OF x(1)]
      unfolding x(2) room_fits_def by auto
  qed
  show "member_fits (update_where p f rs) m" if m: "m \<in> set ms" for m
  proof -
    obtain x where x: "x \<in> set rs" "rm_id x = mb_roomId m" "mb_role m = Owner_Role \<longleftrightarrow> mb_userId m = rm_ownerId x"
      using rooms_invD(6) [OF inv m] by (auto simp: member_fits_def)
    have "?g x \<in> set (update_where p f rs)" using x(1) by (auto simp: table_simps)
    then show ?thesis using x c [OF x(1)] unfolding member_fits_def by (intro bexI [of _ "?g x"]) auto
  qed
qed (use rooms_invD [OF inv] in simp_all)

lemma rooms_inv_add:
  assumes inv: "rooms_inv rs ms" and r: "r \<in> set rs" "mb_roomId m = rm_id r"
    and room: "room_size (rm_id r) ms < rm_maxMembers r"
    and new: "member_key m \<notin> member_key ` set ms" "mb_id m \<notin> mb_id ` set ms"
    and role: "mb_role m = Member_Role"
  shows "rooms_inv rs (ms @ [m])"
proof (rule rooms_invI)
  have "(rm_id r, rm_ownerId r) \<in> member_key ` set ms"
    using rooms_invD(5) [OF inv r(1)] by (simp add: room_fits_def)
  then have other: "mb_userId m \<noteq> rm_ownerId r" using new(1) r(2) by (auto simp: member_key_def)
  show "room_fits (ms @ [m]) r'" if "r' \<in> set rs" for r'
  proof (cases "r' = r")
    case True
    then show ?thesis using rooms_invD(5) [OF inv r(1)] room r(2) by (simp add: room_fits_def)
  next
    case False
    then have "mb_roomId m \<noteq> rm_id r'" using one_room [OF inv r(1) that] r(2) by auto
    then show ?thesis using rooms_invD(5) [OF inv that] by (simp add: room_fits_def)
  qed
  show "member_fits rs x" if "x \<in> set (ms @ [m])" for x
  proof (cases "x = m")
    case True
    then show ?thesis using r other role unfolding member_fits_def by (intro bexI [of _ r]) simp_all
  next
    case False
    then show ?thesis using rooms_invD(6) [OF inv] that by simp
  qed
qed (use rooms_invD [OF inv] new in simp_all)

lemma rooms_inv_drop:
  assumes inv: "rooms_inv rs ms" and m: "m \<in> set ms" "mb_role m \<noteq> Owner_Role"
  shows "rooms_inv rs (delete_where (\<lambda>x. mb_id x = mb_id m) ms)"
proof (rule rooms_invI)
  let ?ms = "delete_where (\<lambda>x. mb_id x = mb_id m) ms"
  show "room_fits ?ms r" if r: "r \<in> set rs" for r
  proof -
    obtain x where x: "x \<in> set ms" "mb_roomId x = rm_id r" "mb_userId x = rm_ownerId r"
      using rooms_invD(5) [OF inv r] by (auto simp: room_fits_def member_key_def)
    obtain r' where r': "r' \<in> set rs" "rm_id r' = mb_roomId x"
        "mb_role x = Owner_Role \<longleftrightarrow> mb_userId x = rm_ownerId r'"
      using rooms_invD(6) [OF inv x(1)] by (auto simp: member_fits_def)
    have "x \<noteq> m" using one_room [OF inv r r'(1)] r' x m(2) by auto
    then have "x \<in> set ?ms" using one_member [OF inv m(1) x(1)] x(1) by (auto simp: table_simps)
    then show ?thesis
      using x rooms_invD(5) [OF inv r] room_size_delete [of "rm_id r" "\<lambda>x. mb_id x = mb_id m" ms]
      by (auto simp: room_fits_def member_key_def intro!: rev_image_eqI)
  qed
  show "member_fits rs x" if "x \<in> set ?ms" for x
    using rooms_invD(6) [OF inv] that by (simp add: table_simps)
qed (use rooms_invD [OF inv] in \<open>simp_all add: distinct_map_delete_where\<close>)

lemma rooms_inv_new:
  assumes inv: "rooms_inv rs ms" and fresh: "rm_id r \<notin> rm_id ` set rs" "mb_id m \<notin> mb_id ` set ms"
    "rm_codeHmac r \<notin> rm_codeHmac ` set rs"
    and m: "mb_roomId m = rm_id r" "mb_userId m = rm_ownerId r" "mb_role m = Owner_Role"
    and cap: "1 \<le> rm_maxMembers r"
  shows "rooms_inv (rs @ [r]) (ms @ [m])"
proof (rule rooms_invI)
  have none: "mb_roomId x \<noteq> rm_id r" if "x \<in> set ms" for x
    using rooms_invD(6) [OF inv that] fresh(1) unfolding member_fits_def by (metis image_eqI)
  then have size0: "room_size (rm_id r) ms = 0" by (auto simp: room_size_def filter_empty_conv)
  show "distinct (map member_key (ms @ [m]))"
    using rooms_invD(4) [OF inv] none m(1) by (force simp: member_key_def)
  show "room_fits (ms @ [m]) x" if "x \<in> set (rs @ [r])" for x
  proof (cases "x = r")
    case True
    then show ?thesis using m cap size0 by (simp add: room_fits_def member_key_def)
  next
    case False
    then have x: "x \<in> set rs" using that by simp
    then have "rm_id x \<noteq> rm_id r" using fresh(1) by (metis image_eqI)
    then show ?thesis using rooms_invD(5) [OF inv x] m(1) by (simp add: room_fits_def)
  qed
  show "member_fits (rs @ [r]) x" if "x \<in> set (ms @ [m])" for x
  proof (cases "x = m")
    case True
    then show ?thesis using m unfolding member_fits_def by (intro bexI [of _ r]) simp_all
  next
    case False
    then have "member_fits rs x" using rooms_invD(6) [OF inv] that by simp
    then show ?thesis by (auto simp: member_fits_def)
  qed
qed (use rooms_invD [OF inv] fresh in simp_all)

section \<open>What each handler does to rooms and members\<close>

lemma find_room_key:
  "rooms_inv (rooms w) ms \<Longrightarrow> r \<in> set (rooms w) \<Longrightarrow> find_room (rm_id r) w = Some r"
  unfolding find_room_def by (rule find_key_unique) (auto dest: rooms_invD)

lemma active_room_Some:
  "active_room i w = Some r \<longleftrightarrow> find_room i w = Some r \<and> rm_status r = Rm_Active"
  by (auto simp: active_room_def split: option.splits)

lemma owned_room_Inr:
  "owned_room what u i w = Inr r \<longleftrightarrow> find_room i w = Some r \<and> rm_status r = Rm_Active \<and> rm_ownerId r = u"
  by (auto simp: owned_room_def active_room_def split: option.splits)

lemma reviewable_Inr:
  assumes "reviewable verb u i q w = Inr (r, req)"
  shows "find_room i w = Some r" "rm_status r = Rm_Active" "rm_ownerId r = u"
    "find_join_request q w = Some req" "jr_roomId req = i" "jr_status req = Jr_Pending"
  using assms by (auto simp: reviewable_def active_room_Some split: option.splits if_splits)

lemma set_room_frame [simp]:
  "room_members (set_room i now f w) = room_members w"
  "room_messages (set_room i now f w) = room_messages w"
  "room_key_packages (set_room i now f w) = room_key_packages w"
  "users (set_room i now f w) = users w" "user_settings (set_room i now f w) = user_settings w"
  "room_join_requests (set_room i now f w) = room_join_requests w"
  by (simp_all add: set_room_def)

lemma room_lists_frame [simp]:
  "rooms (set_join_request q g w) = rooms w" "room_members (set_join_request q g w) = room_members w"
  "rooms (upsert_package i e u k n s w) = rooms w"
  "room_members (upsert_package i e u k n s w) = room_members w"
  "rooms (drop_member m w) = rooms w"
  "room_members (drop_member m w) = delete_where (\<lambda>x. mb_id x = m) (room_members w)"
  "room_messages (drop_member m w) = room_messages w"
  "room_key_packages (drop_member m w) = room_key_packages w"
  "rooms (broadcast_message dto x w) = rooms w"
  "room_members (broadcast_message dto x w) = room_members w"
  "room_messages (broadcast_message dto x w) = room_messages w"
  "room_key_packages (broadcast_message dto x w) = room_key_packages w"
  by (simp_all add: set_join_request_def upsert_package_def drop_member_def broadcast_message_def)

lemma member_queries_frame:
  assumes "room_members w' = room_members w"
  shows "room_member i u w' = room_member i u w" "members_of i w' = members_of i w"
    "member_ids i w' = member_ids i w" "member_count i w' = member_count i w"
  using assms by (simp_all add: room_member_def members_of_def member_ids_def member_count_def)

lemma add_member_result:
  assumes "room_member i u w = None"
  shows "add_member mid i u role now w = ok () (w\<lparr>room_members := room_members w @
     [\<lparr>mb_id = mid, mb_roomId = i, mb_userId = u, mb_role = role, mb_joinedAt = now\<rparr>]\<rparr>)"
  using assms by (simp add: add_member_def)

lemma add_member_ok:
  assumes "rooms_ok w" and "find_room i w = Some r" and "member_count i w < rm_maxMembers r"
    and "room_member i u w = None" and "mid \<notin> mb_id ` set (room_members w)"
  shows "rooms_ok (after (add_member mid i u Member_Role now w))"
proof -
  let ?m = "\<lparr>mb_id = mid, mb_roomId = i, mb_userId = u, mb_role = Member_Role, mb_joinedAt = now\<rparr>"
  have r: "r \<in> set (rooms w)" "rm_id r = i" using find_room_Some [OF assms(2)] by simp_all
  have "rooms_inv (rooms w) (room_members w @ [?m])"
  proof (rule rooms_inv_add [OF _ r(1)])
    show "rooms_inv (rooms w) (room_members w)" using assms(1) by (simp add: rooms_ok_def)
    show "room_size (rm_id r) (room_members w) < rm_maxMembers r"
      using assms(3) r(2) by (simp add: room_size_count)
    show "member_key ?m \<notin> member_key ` set (room_members w)"
      using assms(4) unfolding room_member_key by (simp add: member_key_def)
  qed (use assms(5) r in simp_all)
  then show ?thesis by (simp add: add_member_result [OF assms(4)] rooms_ok_def)
qed

lemma rooms_ok_cong: "rooms w' = rooms w \<Longrightarrow> room_members w' = room_members w \<Longrightarrow> rooms_ok w' = rooms_ok w"
  by (simp add: rooms_ok_def)

lemma rooms_ok_set_room:
  assumes "rooms_ok w" and "\<And>r. room_core (f r) = room_core r"
    and "\<And>r. r \<in> set (rooms w) \<Longrightarrow> rm_id r = i \<Longrightarrow> member_count i w \<le> rm_maxMembers (f r)"
  shows "rooms_ok (set_room i now f w)"
  unfolding rooms_ok_def set_room_frame
  using assms unfolding rooms_ok_def set_room_def
  by (auto intro!: rooms_inv_update simp: room_core_def room_size_count)

lemma rooms_ok_drop:
  "rooms_ok w \<Longrightarrow> room_member i u w = Some m \<Longrightarrow> mb_role m \<noteq> Owner_Role \<Longrightarrow> rooms_ok (drop_member (mb_id m) w)"
  unfolding rooms_ok_def room_lists_frame by (rule rooms_inv_drop) (auto dest: room_member_Some)

lemma rooms_ok_cap:
  assumes "rooms_ok w" and "r \<in> set (rooms w)"
  shows "member_count (rm_id r) w \<le> rm_maxMembers r"
  using assms rooms_invD(5) by (auto simp: rooms_ok_def room_fits_def room_size_count)

definition owner_member :: "ident \<Rightarrow> ident \<Rightarrow> ident \<Rightarrow> instant \<Rightarrow> member_row" where
  "owner_member mid rid userId now =
     \<lparr>mb_id = mid, mb_roomId = rid, mb_userId = userId, mb_role = Owner_Role, mb_joinedAt = now\<rparr>"

lemma create_loop_result:
  assumes "room_member rid userId w = None"
  shows "(\<exists>e. create_room_loop C pepper draws ivs rid mid now n k userId name cap dto w = fail e w) \<or>
    (\<exists>j. let code = generateRoomCode (draws j);
         room = new_room rid name userId (hashRoomCode C code pepper)
                  (encryptRoomCode C (ivs j) code pepper) cap now dto
       in rm_codeHmac room \<notin> rm_codeHmac ` set (rooms w) \<and>
          create_room_loop C pepper draws ivs rid mid now n k userId name cap dto w =
            ok (room, code) (w\<lparr>rooms := rooms w @ [room],
                               room_members := room_members w @ [owner_member mid rid userId now]\<rparr>))"
proof (induction n arbitrary: k)
  case 0
  then show ?case by simp
next
  case (Suc n)
  let ?room = "new_room rid name userId (hashRoomCode C (generateRoomCode (draws k)) pepper)
      (encryptRoomCode C (ivs k) (generateRoomCode (draws k)) pepper) cap now dto"
  have none: "room_member rid userId (w\<lparr>rooms := rooms w @ [?room]\<rparr>) = None"
    using assms by (simp add: room_member_def)
  show ?case
  proof (cases "list_ex (\<lambda>r. rm_codeHmac r = rm_codeHmac ?room) (rooms w)")
    case True
    then show ?thesis using Suc.IH [of "Suc k"] by (simp add: Let_def)
  next
    case False
    then have "rm_codeHmac ?room \<notin> rm_codeHmac ` set (rooms w)" by (auto simp: list_ex_iff)
    moreover have "create_room_loop C pepper draws ivs rid mid now (Suc n) k userId name cap dto w =
        ok (?room, generateRoomCode (draws k)) (w\<lparr>rooms := rooms w @ [?room],
          room_members := room_members w @ [owner_member mid rid userId now]\<rparr>)"
      using False by (simp add: Let_def add_member_result [OF none] owner_member_def)
    ultimately show ?thesis unfolding Let_def by blast
  qed
qed

lemma new_room_simps [simp]:
  "rm_id (new_room i n u h t c now d) = i" "rm_ownerId (new_room i n u h t c now d) = u"
  "rm_maxMembers (new_room i n u h t c now d) = c" "rm_codeHmac (new_room i n u h t c now d) = h"
  "rm_status (new_room i n u h t c now d) = Rm_Active" "rm_keyEpoch (new_room i n u h t c now d) = 1"
  "rm_joinLocked (new_room i n u h t c now d) = False"
  by (simp_all add: new_room_def)

lemma validateMaxMembers_range: "validateMaxMembers n = Inr m \<Longrightarrow> 2 \<le> m \<and> m \<le> 2000"
  by (auto simp: validateMaxMembers_def split: js_number.splits if_splits)

lemma create_room_ok:
  assumes ok: "rooms_ok w" and fresh: "rid \<notin> rm_id ` set (rooms w)" "mid \<notin> mb_id ` set (room_members w)"
  shows "(\<exists>e. create_room C pepper draws ivs rid mid now u dto w = fail e w) \<or>
    (\<exists>room code. create_room C pepper draws ivs rid mid now u dto w = ok (room, code)
        (w\<lparr>rooms := rooms w @ [room], room_members := room_members w @ [owner_member mid rid u now]\<rparr>) \<and>
      rm_id room = rid \<and> rm_ownerId room = u \<and> rm_status room = Rm_Active \<and> 2 \<le> rm_maxMembers room \<and>
      rooms_ok (after (create_room C pepper draws ivs rid mid now u dto w)))"
proof -
  have "(rid, u) \<notin> member_key ` set (room_members w)"
  proof
    assume "(rid, u) \<in> member_key ` set (room_members w)"
    then obtain m where "m \<in> set (room_members w)" "mb_roomId m = rid" by (auto simp: member_key_def)
    then have "rid \<in> rm_id ` set (rooms w)"
      using ok rooms_invD(6) unfolding rooms_ok_def member_fits_def by (metis image_eqI)
    with fresh(1) show False by simp
  qed
  then have none: "room_member rid u w = None" by (simp add: room_member_key)
  show ?thesis
  proof (cases "\<exists>e. create_room C pepper draws ivs rid mid now u dto w = fail e w")
    case False
    then obtain name cap where v: "validateRoomName (cr_name dto) = Inr name"
        "validateMaxMembers (cr_maxMembers dto) = Inr cap"
      by (auto simp: create_room_def split: sum.splits)
    let ?loop = "create_room_loop C pepper draws ivs rid mid now max_room_code_attempts 0 u name cap dto w"
    have run: "create_room C pepper draws ivs rid mid now u dto w = ?loop" by (simp add: create_room_def v)
    obtain j where j: "let code = generateRoomCode (draws j);
         room = new_room rid name u (hashRoomCode C code pepper)
                  (encryptRoomCode C (ivs j) code pepper) cap now dto
       in rm_codeHmac room \<notin> rm_codeHmac ` set (rooms w) \<and>
          ?loop = ok (room, code) (w\<lparr>rooms := rooms w @ [room],
                               room_members := room_members w @ [owner_member mid rid u now]\<rparr>)"
      using create_loop_result [OF none] False unfolding run by metis
    define code where "code = generateRoomCode (draws j)"
    define room where "room = new_room rid name u (hashRoomCode C code pepper)
                  (encryptRoomCode C (ivs j) code pepper) cap now dto"
    have new: "rm_codeHmac room \<notin> rm_codeHmac ` set (rooms w)"
      and res: "?loop = ok (room, code) (w\<lparr>rooms := rooms w @ [room],
           room_members := room_members w @ [owner_member mid rid u now]\<rparr>)"
      using j unfolding Let_def code_def [symmetric] room_def [symmetric] by simp_all
    have cap: "2 \<le> cap" using validateMaxMembers_range [OF v(2)] by simp
    have "rooms_inv (rooms w @ [room]) (room_members w @ [owner_member mid rid u now])"
      using ok fresh new cap by (intro rooms_inv_new) (simp_all add: rooms_ok_def room_def owner_member_def)
    then show ?thesis unfolding run res using cap by (simp add: rooms_ok_def room_def)
  qed simp
qed

section \<open>Steps\<close>

text \<open>
  How the rooms may develop: a row keeps its id, code and owner, its key epoch
  never drops, and once it is no longer active it never changes again.
\<close>

definition room_evolves :: "world \<Rightarrow> world \<Rightarrow> bool" where
  "room_evolves w w' \<longleftrightarrow> (\<forall>r \<in> set (rooms w). \<exists>r' \<in> set (rooms w'). room_core r' = room_core r \<and>
     rm_keyEpoch r \<le> rm_keyEpoch r' \<and> (rm_status r \<noteq> Rm_Active \<longrightarrow> r' = r))"

definition rooms_good :: "world \<Rightarrow> world \<Rightarrow> bool" where
  "rooms_good w w' \<longleftrightarrow> rooms_ok w' \<and> room_evolves w w'"

lemma room_evolves_refl: "rooms w' = rooms w \<Longrightarrow> room_evolves w w'"
  unfolding room_evolves_def by force

lemma room_evolves_trans:
  assumes "room_evolves w1 w2" and "room_evolves w2 w3"
  shows "room_evolves w1 w3"
  unfolding room_evolves_def
proof
  fix r assume "r \<in> set (rooms w1)"
  then obtain s where s: "s \<in> set (rooms w2)" "room_core s = room_core r" "rm_keyEpoch r \<le> rm_keyEpoch s"
      "rm_status r \<noteq> Rm_Active \<longrightarrow> s = r"
    using assms(1) unfolding room_evolves_def by blast
  then obtain t where t: "t \<in> set (rooms w3)" "room_core t = room_core s" "rm_keyEpoch s \<le> rm_keyEpoch t"
      "rm_status s \<noteq> Rm_Active \<longrightarrow> t = s"
    using assms(2) unfolding room_evolves_def by blast
  show "\<exists>r' \<in> set (rooms w3). room_core r' = room_core r \<and> rm_keyEpoch r \<le> rm_keyEpoch r' \<and>
      (rm_status r \<noteq> Rm_Active \<longrightarrow> r' = r)"
    using s t by (intro bexI [of _ t]) auto
qed

lemma good_same: "rooms_ok w \<Longrightarrow> rooms w' = rooms w \<Longrightarrow> room_members w' = room_members w \<Longrightarrow> rooms_good w w'"
  by (simp add: rooms_good_def room_evolves_refl rooms_ok_def)

lemma good_after: "rooms_good w w1 \<Longrightarrow> rooms w2 = rooms w1 \<Longrightarrow> room_members w2 = room_members w1 \<Longrightarrow> rooms_good w w2"
  by (simp add: rooms_good_def rooms_ok_def room_evolves_def)

lemma good_members: "rooms_ok w' \<Longrightarrow> rooms w' = rooms w \<Longrightarrow> rooms_good w w'"
  by (simp add: rooms_good_def room_evolves_refl)

lemma good_set_room:
  assumes ok: "rooms_ok w" and r: "find_room i w = Some r" "rm_status r = Rm_Active"
    and core: "\<And>r. room_core (f r) = room_core r" and epoch: "\<And>r. rm_keyEpoch r \<le> rm_keyEpoch (f r)"
    and cap: "member_count i w \<le> rm_maxMembers (f r)"
  shows "rooms_good w (set_room i now f w)"
proof -
  have only: "x = r" if "x \<in> set (rooms w)" "rm_id x = i" for x
    using find_room_Some [OF r(1)] that one_room [of "rooms w" "room_members w"] ok
    by (auto simp: rooms_ok_def)
  have "rooms_ok (set_room i now f w)"
    using ok core by (rule rooms_ok_set_room) (use only cap in auto)
  moreover have "room_evolves w (set_room i now f w)"
    unfolding room_evolves_def
  proof
    fix x assume x: "x \<in> set (rooms w)"
    let ?x = "if rm_id x = i then (f x)\<lparr>rm_updatedAt := now\<rparr> else x"
    have "?x \<in> set (rooms (set_room i now f w))" using x by (auto simp: set_room_def table_simps)
    moreover have "room_core ?x = room_core x" using core [of x] by (simp add: room_core_def)
    moreover have "rm_status x \<noteq> Rm_Active \<longrightarrow> ?x = x" using only [OF x] r(2) by auto
    ultimately show "\<exists>r' \<in> set (rooms (set_room i now f w)). room_core r' = room_core x \<and>
        rm_keyEpoch x \<le> rm_keyEpoch r' \<and> (rm_status x \<noteq> Rm_Active \<longrightarrow> r' = x)"
      using epoch [of x] by (intro bexI [of _ ?x]) auto
  qed
  ultimately show ?thesis by (simp add: rooms_good_def)
qed

lemma create_room_good:
  assumes "rooms_ok w" "rid \<notin> rm_id ` set (rooms w)" "mid \<notin> mb_id ` set (room_members w)"
  shows "rooms_good w (after (create_room C pepper draws ivs rid mid now u dto w))"
  using create_room_ok [OF assms, of C pepper draws ivs now u dto]
proof (elim disjE exE conjE)
  fix e assume "create_room C pepper draws ivs rid mid now u dto w = fail e w"
  then show ?thesis using assms(1) by (simp add: good_same)
next
  fix room code
  assume "create_room C pepper draws ivs rid mid now u dto w = ok (room, code)
        (w\<lparr>rooms := rooms w @ [room], room_members := room_members w @ [owner_member mid rid u now]\<rparr>)"
    and "rooms_ok (after (create_room C pepper draws ivs rid mid now u dto w))"
  then show ?thesis by (auto simp: rooms_good_def room_evolves_def)
qed

lemma joinByCode_good:
  assumes ok: "rooms_ok w" and fresh: "mid \<notin> mb_id ` set (room_members w)"
  shows "rooms_good w (after (joinByCode C pepper (\<lambda>w. w) mid now u code w))"
proof (cases "find (\<lambda>r. rm_codeHmac r = hashRoomCode C (normalizeRoomCode code) pepper) (rooms w)")
  case None
  then show ?thesis using ok by (simp add: joinByCode_def Let_def good_same)
next
  case (Some r)
  have r: "find_room (rm_id r) w = Some r"
    using find_Some_in [OF Some] ok find_room_key by (auto simp: rooms_ok_def)
  show ?thesis
  proof (cases "rm_status r = Rm_Active \<and> u \<notin> set (member_ids (rm_id r) w) \<and> \<not> rm_joinLocked r \<and>
      member_count (rm_id r) w < rm_maxMembers r \<and> rm_joinPolicy r = Open_Join")
    case True
    then have none: "room_member (rm_id r) u w = None"
      by (auto simp: member_ids_def members_of_def room_member_def find_None_in)
    let ?w = "after (add_member mid (rm_id r) u Member_Role now w)"
    have "rooms_ok ?w" using add_member_ok [OF ok r _ none fresh] True by simp
    then have "rooms_good w ?w" by (rule good_members) (simp add: add_member_result [OF none])
    then show ?thesis
      by (rule good_after) (use True in \<open>simp_all add: joinByCode_def Some Let_def add_member_result [OF none]\<close>)
  next
    case False
    then show ?thesis using ok
      by (auto simp: joinByCode_def Some Let_def intro!: good_same)
  qed
qed

lemma acceptJoin_good:
  assumes ok: "rooms_ok w" and fresh: "mid \<notin> mb_id ` set (room_members w)"
  shows "rooms_good w (after (acceptJoin mid now u i q k n w))"
proof (cases "reviewable ''accept'' u i q w")
  case (Inl e)
  then show ?thesis using ok by (simp add: acceptJoin_def good_same)
next
  case (Inr p)
  obtain r req where p: "p = (r, req)" by fastforce
  note g = reviewable_Inr [OF Inr [unfolded p]]
  have i: "rm_id r = i" using find_room_Some [OF g(1)] by simp
  show ?thesis
  proof (cases "member_count i w < rm_maxMembers r")
    case False
    then show ?thesis using ok by (simp add: acceptJoin_def Inr p Let_def good_same)
  next
    case True
    let ?w1 = "set_join_request (jr_id req) (review Jr_Accepted now u) w"
    let ?w2 = "if room_member i (jr_requesterId req) ?w1 = None
        then snd (add_member mid i (jr_requesterId req) Member_Role now ?w1) else ?w1"
    have same: "rooms ?w1 = rooms w" "room_members ?w1 = room_members w" by simp_all
    have f: "find_room i ?w1 = Some r" using g(1) by (simp add: find_room_def)
    have "rooms_ok ?w2"
      using add_member_ok [OF _ f, of "jr_requesterId req" mid now] ok True fresh same
      by (auto simp: rooms_ok_cong [OF same] member_queries_frame [OF same(2)])
    then have good: "rooms_good w ?w2"
      by (rule good_members) (simp add: add_member_def)
    have aj: "accept_joiner mid now u k n r req w = (case (given k, given n) of
        (Some a, Some b) \<Rightarrow> upsert_package i (rm_keyEpoch r) (jr_requesterId req) (b64_decode a)
             (b64_decode b) u ?w2
      | _ \<Rightarrow> ?w2)"
      by (simp only: accept_joiner_def Let_def i)
    have "rooms (accept_joiner mid now u k n r req w) = rooms ?w2 \<and>
      room_members (accept_joiner mid now u k n r req w) = room_members ?w2"
      unfolding aj by (cases "given k"; cases "given n") (simp_all only: option.case prod.case room_lists_frame)
    then show ?thesis using True by (intro good_after [OF good]) (simp_all add: acceptJoin_def Inr p Let_def)
  qed
qed

lemma rejectJoin_good: "rooms_ok w \<Longrightarrow> rooms_good w (after (rejectJoin now u i q w))"
  by (auto simp: rejectJoin_def intro!: good_same split: sum.splits)

lemma room_send_loop_good:
  "rooms_ok w \<Longrightarrow> rooms_good w (after (room_send_loop n (\<lambda>_ w. w) k mid t u r dto w))"
  by (induction n arbitrary: k) (auto simp: Let_def intro!: good_same split: option.splits)

lemma send_room_message_good:
  "rooms_ok w \<Longrightarrow> rooms_good w (after (send_room_message (\<lambda>_ w. w) mid t u i dto w))"
  by (auto simp: send_room_message_def good_same room_send_loop_good split: option.splits)

lemma leaveRoom_good: "rooms_ok w \<Longrightarrow> rooms_good w (after (leaveRoom u i w))"
proof (cases "room_member i u w")
  case (Some m)
  assume ok: "rooms_ok w"
  show ?thesis
  proof (cases "mb_role m = Owner_Role")
    case False
    then have "rooms_good w (drop_member (mb_id m) w)"
      using rooms_ok_drop [OF ok Some] by (intro good_members) simp_all
    then show ?thesis using False by (elim good_after) (simp_all add: leaveRoom_def Some Let_def)
  qed (simp add: leaveRoom_def Some good_same ok)
qed (simp add: leaveRoom_def good_same)

lemma setJoinLocked_good: "rooms_ok w \<Longrightarrow> rooms_good w (after (setJoinLocked now u i b w))"
proof (cases "owned_room ''change the join lock'' u i w")
  case (Inr r)
  assume ok: "rooms_ok w"
  note g = Inr [unfolded owned_room_Inr]
  have "rooms_good w (set_room i now (\<lambda>r. r\<lparr>rm_joinLocked := b\<rparr>) w)"
    using good_set_room [OF ok, of i r] g rooms_ok_cap [OF ok, of r] find_room_Some [of i w r]
    by (simp add: room_core_def)
  then show ?thesis by (elim good_after) (simp_all add: setJoinLocked_def Inr)
qed (simp add: setJoinLocked_def good_same)

lemma deleteRoom_good: "rooms_ok w \<Longrightarrow> rooms_good w (after (deleteRoom C now u i pw w))"
proof (cases "owned_room ''delete the room'' u i w")
  case (Inr r)
  assume ok: "rooms_ok w"
  note g = Inr [unfolded owned_room_Inr]
  have del: "rooms_good w (set_room i now (\<lambda>r. r\<lparr>rm_status := Rm_Deleted\<rparr>) w)"
    using good_set_room [OF ok, of i r] g rooms_ok_cap [OF ok, of r] find_room_Some [of i w r]
    by (simp add: room_core_def)
  show ?thesis
    unfolding deleteRoom_def Inr
    by (auto simp: Let_def good_same [OF ok] intro!: good_after [OF del] split: option.splits sum.splits)
qed (simp add: deleteRoom_def good_same)

lemma storeKeyPackage_good: "rooms_ok w \<Longrightarrow> rooms_good w (after (storeKeyPackage u i dto w))"
  by (auto simp: storeKeyPackage_def Let_def intro!: good_same split: option.splits)

lemma new_capacity_fits:
  assumes "new_capacity i dto w = Inr (Some n)"
  shows "member_count i w \<le> n"
  using assms by (auto simp: new_capacity_def split: option.splits sum.splits if_splits)

lemma apply_update_core [simp]:
  "room_core (apply_update dto name cap r) = room_core r"
  "rm_keyEpoch (apply_update dto name cap r) = rm_keyEpoch r"
  "rm_maxMembers (apply_update dto name cap r) = (case cap of None \<Rightarrow> rm_maxMembers r | Some n \<Rightarrow> n)"
  "rm_status (apply_update dto name cap r) = rm_status r"
  by (simp_all add: apply_update_def Let_def room_core_def split: option.splits)

lemma updateRoom_good: "rooms_ok w \<Longrightarrow> rooms_good w (after (updateRoom (\<lambda>w. w) now u i dto w))"
proof (cases "owned_room ''update room settings'' u i w")
  case (Inr r)
  assume ok: "rooms_ok w"
  note g = Inr [unfolded owned_room_Inr]
  show ?thesis
  proof (cases "\<exists>name cap. new_name dto = Inr name \<and> new_capacity i dto w = Inr cap")
    case True
    then obtain name cap where v: "new_name dto = Inr name" "new_capacity i dto w = Inr cap" by blast
    have "member_count i w \<le> rm_maxMembers (apply_update dto name cap r)"
      using new_capacity_fits [of i dto w] v(2) rooms_ok_cap [OF ok, of r] find_room_Some [of i w r] g
      by (auto split: option.splits)
    then have "rooms_good w (set_room i now (apply_update dto name cap) w)"
      using good_set_room [OF ok, of i r "apply_update dto name cap"] g by simp
    then show ?thesis
      by (elim good_after) (simp_all add: updateRoom_def Inr v Let_def split: option.splits)
  next
    case False
    then show ?thesis unfolding updateRoom_def Inr using ok by (auto simp: good_same split: sum.splits)
  qed
qed (simp add: updateRoom_def good_same)

lemma drop_member_rooms_ok_room:
  "find_room i (drop_member m w) = find_room i w"
  by (simp add: find_room_def)

lemma removeMember_good: "rooms_ok w \<Longrightarrow> rooms_good w (after (removeMember now u i v w))"
proof (cases "owned_room ''remove members'' u i w")
  case (Inr r)
  assume ok: "rooms_ok w"
  note g = Inr [unfolded owned_room_Inr]
  show ?thesis
  proof (cases "v \<noteq> u \<and> room_member i v w \<noteq> None")
    case True
    then obtain m where m: "room_member i v w = Some m" by blast
    have "mb_role m \<noteq> Owner_Role"
    proof
      assume o: "mb_role m = Owner_Role"
      have m': "m \<in> set (room_members w)" "mb_roomId m = i" "mb_userId m = v"
        using room_member_Some [OF m] by simp_all
      then obtain x where "x \<in> set (rooms w)" "rm_id x = i" "v = rm_ownerId x"
        using ok rooms_invD(6) [OF _ m'(1)] o by (auto simp: rooms_ok_def member_fits_def)
      then have "v = u" using g find_room_Some [of i w r] one_room [of "rooms w" "room_members w" r x] ok
        by (auto simp: rooms_ok_def)
      then show False using True by simp
    qed
    then have d: "rooms_ok (drop_member (mb_id m) w)" using rooms_ok_drop [OF ok m] by simp
    have "rooms_good (drop_member (mb_id m) w)
        (set_room i now (\<lambda>r. r\<lparr>rm_keyEpoch := rm_keyEpoch r + 1\<rparr>) (drop_member (mb_id m) w))"
      using good_set_room [OF d, of i r] g rooms_ok_cap [OF d, of r] find_room_Some [of i w r]
      by (simp add: room_core_def drop_member_rooms_ok_room)
    then have "rooms_good w
        (set_room i now (\<lambda>r. r\<lparr>rm_keyEpoch := rm_keyEpoch r + 1\<rparr>) (drop_member (mb_id m) w))"
      by (simp add: rooms_good_def room_evolves_def)
    then show ?thesis using True by (elim good_after) (simp_all add: removeMember_def Inr m Let_def)
  qed (use ok in \<open>auto simp: removeMember_def Inr good_same\<close>)
qed (simp add: removeMember_def good_same)

lemma addMember_good:
  assumes ok: "rooms_ok w" and fresh: "mid \<notin> mb_id ` set (room_members w)"
  shows "rooms_good w (after (addMemberByOwner (\<lambda>w. w) mid now u i v w))"
proof (cases "owned_room ''add members'' u i w")
  case (Inr r)
  note g = Inr [unfolded owned_room_Inr]
  show ?thesis
  proof (cases "member_count i w < rm_maxMembers r \<and> room_member i v w = None")
    case True
    let ?w = "after (add_member mid i v Member_Role now w)"
    have "rooms_ok ?w" using add_member_ok [OF ok _ _ _ fresh] g True by simp
    then have good: "rooms_good w ?w" using True by (intro good_members) (simp_all add: add_member_result)
    show ?thesis unfolding addMemberByOwner_def Inr using True
      by (auto simp: Let_def good_same [OF ok] add_member_result intro!: good_after [OF good] split: option.splits)
  next
    case False
    then show ?thesis unfolding addMemberByOwner_def Inr
      by (auto simp: Let_def good_same [OF ok] split: option.splits)
  qed
qed (simp add: addMemberByOwner_def good_same ok)

lemma find_delete_where: "find q (delete_where p rs) = find (\<lambda>r. q r \<and> \<not> p r) rs"
  by (induction rs) auto

section \<open>Room messages\<close>

lemma next_room_sequence_above:
  assumes "m \<in> set (room_messages w)" and "rg_roomId m = i"
  shows "rg_sequenceNumber m < next_room_sequence i w"
proof -
  have m: "m \<in> set (in_room i w)" using assms by (simp add: in_room_def)
  then obtain a where a: "max_column rg_sequenceNumber (in_room i w) = Some a"
    by (metis max_column_None not_Some_eq empty_iff list.set(1))
  show ?thesis using max_column_ge [OF a m] by (simp add: next_room_sequence_def a)
qed

interpretation room_counter: counter_table room_messages rg_roomId "\<lambda>m. {rg_sequenceNumber m}"
  next_room_sequence
  by unfold_locales (auto dest: next_room_sequence_above)

definition room_messages_ok :: "world \<Rightarrow> bool" where
  "room_messages_ok w \<longleftrightarrow>
     distinct (map (\<lambda>m. (rg_roomId m, rg_sequenceNumber m)) (room_messages w)) \<and>
     distinct (map (\<lambda>m. (rg_roomId m, rg_clientMessageId m)) (room_messages w))"

lemma room_messages_ok_append:
  "room_messages_ok w \<Longrightarrow> \<not> list_ex (room_message_clash m) (room_messages w) \<Longrightarrow>
     room_messages_ok (w\<lparr>room_messages := room_messages w @ [m]\<rparr>)"
  by (auto simp: room_messages_ok_def room_message_clash_def list_ex_iff)

lemma find_room_message_Some:
  "find_room_message i k w = Some m \<Longrightarrow>
     m \<in> set (room_messages w) \<and> rg_roomId m = i \<and> rg_clientMessageId m = k"
  by (auto simp: find_room_message_def dest: find_Some_in)

lemma new_room_message_simps [simp]:
  "rg_roomId (new_room_message r d mid u t n) = rm_id r" "rg_sequenceNumber (new_room_message r d mid u t n) = n"
  "rg_clientMessageId (new_room_message r d mid u t n) = rd_clientMessageId d"
  "rg_id (new_room_message r d mid u t n) = mid" "rg_sentAt (new_room_message r d mid u t n) = t"
  "rg_deletedAt (new_room_message r d mid u t n) = None" "rg_senderId (new_room_message r d mid u t n) = u"
  by (simp_all add: new_room_message_def)

lemma room_loop_step:
  assumes "w1 = interf (2 * k) w" and "w2 = interf (2 * k + 1) w1"
    and "m = new_room_message r dto mid u t (next_room_sequence (rm_id r) w1)"
  shows "room_send_loop (Suc n) interf k mid t u r dto w =
     (if list_ex (room_message_clash m) (room_messages w2)
      then (case find_room_message (rm_id r) (rd_clientMessageId dto) w2 of
              Some x \<Rightarrow> ok (rg_id x, rg_sequenceNumber x, rg_sentAt x) w2
            | None \<Rightarrow> room_send_loop n interf (Suc k) mid t u r dto w2)
      else ok (mid, rg_sequenceNumber m, t)
             (broadcast_message dto m (w2\<lparr>room_messages := room_messages w2 @ [m]\<rparr>)))"
  unfolding room_send_loop.simps Let_def assms by (rule refl)

declare room_send_loop.simps(2) [simp del]

text \<open>The three ways the loop can end, for any interference that keeps the indexes.\<close>

lemma room_loop_inv:
  assumes keep: "\<And>k w. room_messages_ok w \<Longrightarrow> room_messages_ok (interf k w)" and "room_messages_ok w"
  shows "room_messages_ok (after (room_send_loop n interf k mid t u r dto w)) \<and>
    (case out (room_send_loop n interf k mid t u r dto w) of
       Inl e \<Rightarrow> e = Bad_Request ''Could not send message. Please retry.''
     | Inr (i, s, at) \<Rightarrow>
         (\<exists>x. find_room_message (rm_id r) (rd_clientMessageId dto)
                (after (room_send_loop n interf k mid t u r dto w)) = Some x \<and>
              i = rg_id x \<and> s = rg_sequenceNumber x \<and> at = rg_sentAt x))"
  using assms(2)
proof (induction n arbitrary: k w)
  case 0
  then show ?case by simp
next
  case (Suc n)
  define w1 where "w1 = interf (2 * k) w"
  define w2 where "w2 = interf (2 * k + 1) w1"
  define m where "m = new_room_message r dto mid u t (next_room_sequence (rm_id r) w1)"
  have ok2: "room_messages_ok w2" using Suc.prems keep by (simp add: w1_def w2_def)
  note step = room_loop_step [OF w1_def w2_def m_def, of n]
  show ?case
  proof (cases "list_ex (room_message_clash m) (room_messages w2)")
    case True
    show ?thesis
    proof (cases "find_room_message (rm_id r) (rd_clientMessageId dto) w2")
      case None
      then have "room_send_loop (Suc n) interf k mid t u r dto w =
          room_send_loop n interf (Suc k) mid t u r dto w2"
        by (simp add: step True)
      then show ?thesis using Suc.IH [OF ok2, of "Suc k"] by (simp only:)
    next
      case (Some x)
      then have "room_send_loop (Suc n) interf k mid t u r dto w =
          ok (rg_id x, rg_sequenceNumber x, rg_sentAt x) w2"
        by (simp add: step True)
      then show ?thesis using ok2 Some by simp
    qed
  next
    case False
    let ?w = "broadcast_message dto m (w2\<lparr>room_messages := room_messages w2 @ [m]\<rparr>)"
    have "find_room_message (rm_id r) (rd_clientMessageId dto) w2 = None"
    proof (rule ccontr)
      assume "find_room_message (rm_id r) (rd_clientMessageId dto) w2 \<noteq> None"
      then obtain x where "find_room_message (rm_id r) (rd_clientMessageId dto) w2 = Some x" by blast
      from find_room_message_Some [OF this] False show False
        by (auto simp: list_ex_iff room_message_clash_def m_def)
    qed
    then have "find_room_message (rm_id r) (rd_clientMessageId dto) ?w = Some m"
      by (simp add: find_room_message_def find_append m_def)
    moreover have "room_messages_ok ?w"
      using room_messages_ok_append [OF ok2 False] by (simp add: room_messages_ok_def)
    moreover have "room_send_loop (Suc n) interf k mid t u r dto w = ok (rg_id m, rg_sequenceNumber m, rg_sentAt m) ?w"
      by (simp only: step False if_False) (simp add: m_def)
    ultimately show ?thesis by simp
  qed
qed

section \<open>Runs\<close>

text \<open>One request on a room, with the ids it creates fresh.\<close>

inductive room_step :: "crypto \<Rightarrow> string \<Rightarrow> world \<Rightarrow> world \<Rightarrow> bool" for C pepper where
  step_create: "rid \<notin> rm_id ` set (rooms w) \<Longrightarrow> mid \<notin> mb_id ` set (room_members w) \<Longrightarrow>
     room_step C pepper w (after (create_room C pepper draws ivs rid mid now u dto w))"
| step_join: "mid \<notin> mb_id ` set (room_members w) \<Longrightarrow>
     room_step C pepper w (after (joinByCode C pepper (\<lambda>w. w) mid now u code w))"
| step_accept: "mid \<notin> mb_id ` set (room_members w) \<Longrightarrow>
     room_step C pepper w (after (acceptJoin mid now u i q k n w))"
| step_reject: "room_step C pepper w (after (rejectJoin now u i q w))"
| step_send: "room_step C pepper w (after (send_room_message (\<lambda>_ w. w) mid t u i sdto w))"
| step_leave: "room_step C pepper w (after (leaveRoom u i w))"
| step_lock: "room_step C pepper w (after (setJoinLocked now u i b w))"
| step_delete: "room_step C pepper w (after (deleteRoom C now u i pw w))"
| step_key: "room_step C pepper w (after (storeKeyPackage u i kdto w))"
| step_update: "room_step C pepper w (after (updateRoom (\<lambda>w. w) now u i udto w))"
| step_remove: "room_step C pepper w (after (removeMember now u i v w))"
| step_add: "mid \<notin> mb_id ` set (room_members w) \<Longrightarrow>
     room_step C pepper w (after (addMemberByOwner (\<lambda>w. w) mid now u i v w))"

inductive room_run :: "crypto \<Rightarrow> string \<Rightarrow> world \<Rightarrow> world \<Rightarrow> bool" for C pepper where
  run_refl: "room_run C pepper w w"
| run_step: "room_run C pepper w w1 \<Longrightarrow> room_step C pepper w1 w2 \<Longrightarrow> room_run C pepper w w2"

lemmas room_good_rules = create_room_good joinByCode_good acceptJoin_good rejectJoin_good
  send_room_message_good leaveRoom_good setJoinLocked_good deleteRoom_good storeKeyPackage_good
  updateRoom_good removeMember_good addMember_good

lemma room_step_good: "room_step C pepper w w' \<Longrightarrow> rooms_ok w \<Longrightarrow> rooms_good w w'"
  by (induction rule: room_step.induct) (simp_all add: room_good_rules)

section \<open>Properties\<close>

text \<open>C25. Whatever requests are made of the rooms, one after the other: ids, room codes and
  memberships stay unique, the owner of a room and nobody else is its member with the owner's
  role, no room holds more members than its capacity; a room keeps its owner and code for ever,
  its key epoch never drops, and a room that is not active any more never changes again.\<close>

theorem room_membership_invariant:
  assumes "room_run C pepper w w'" and "rooms_ok w"
  shows "rooms_ok w' \<and> (\<forall>r \<in> set (rooms w'). member_count (rm_id r) w' \<le> rm_maxMembers r \<and>
      room_member (rm_id r) (rm_ownerId r) w' \<noteq> None) \<and>
    (\<forall>r \<in> set (rooms w). \<exists>r' \<in> set (rooms w'). room_core r' = room_core r \<and>
      rm_keyEpoch r \<le> rm_keyEpoch r' \<and> (rm_status r \<noteq> Rm_Active \<longrightarrow> r' = r))"
proof -
  have good: "rooms_ok w' \<and> room_evolves w w'" using assms
  proof (induction rule: room_run.induct)
    case (run_refl w)
    then show ?case by (simp add: room_evolves_refl)
  next
    case (run_step w w1 w2)
    then show ?case using room_step_good room_evolves_trans unfolding rooms_good_def by blast
  qed
  then have "\<forall>r \<in> set (rooms w'). member_count (rm_id r) w' \<le> rm_maxMembers r \<and>
      room_member (rm_id r) (rm_ownerId r) w' \<noteq> None"
    using rooms_ok_cap [of w'] rooms_invD(5) [of "rooms w'" "room_members w'"]
    by (auto simp: room_member_key rooms_ok_def room_fits_def)
  then show ?thesis using good by (simp add: room_evolves_def)
qed

text \<open>Two users, and a room of one with the other waiting outside.\<close>

definition demo_users :: "user_row list" where
  "demo_users = [plain_user ''alice'' ''alice'' None Acct_Active,
     plain_user ''bob'' ''bob'' None Acct_Active]"

definition pair_room :: world where
  "pair_room = demo_world\<lparr>users := demo_users, room_members := room_members demo_world @
     [\<lparr>mb_id = ''mc'', mb_roomId = ''r'', mb_userId = ''bob'', mb_role = Member_Role, mb_joinedAt = 1\<rparr>]\<rparr>"

lemmas pair_defs = pair_room_def demo_users_def demo_defs

lemma pair_room_ok: "rooms_ok pair_room"
  by (simp add: rooms_ok_def rooms_inv_def room_fits_def member_fits_def room_size_def member_key_def pair_defs)

theorem room_membership_invariant_witness:
  "rooms_ok (after (removeMember 9 ''alice'' ''r'' ''bob'' pair_room))"
proof -
  have "room_run plain_crypto ''p'' pair_room (after (removeMember 9 ''alice'' ''r'' ''bob'' pair_room))"
    by (rule run_step [OF run_refl step_remove])
  from room_membership_invariant [OF this pair_room_ok] show ?thesis by simp
qed

text \<open>C26. A removed member is locked out: after a removal the target has no membership and can
  neither read, nor write, nor fetch or store keys in the room, everybody else is a member as
  before, and the room's key epoch is the next one, which is the epoch the reply announces.\<close>

theorem removed_member_locked_out:
  assumes run: "removeMember now u i v w = ok e w'" and inv: "rooms_ok w"
  shows "room_member i v w' = None \<and> (\<forall>x. x \<noteq> v \<longrightarrow> room_member i x w' = room_member i x w) \<and>
    map_option rm_keyEpoch (find_room i w') = Some e \<and>
    map_option (\<lambda>r. rm_keyEpoch r + 1) (find_room i w) = Some e \<and>
    list_room_messages v i n w' = Inl (Forbidden ''You are not a member of this room'') \<and>
    getKeyPackage v i k w' = Inl (Forbidden ''You are not a member of this room'') \<and>
    storeKeyPackage v i kdto w' = fail (Forbidden ''You are not a member of this room'') w' \<and>
    send_room_message interf mid t v i sdto w' = fail (Forbidden ''You are not a member of this room'') w'"
proof -
  obtain r m where r: "find_room i w = Some r" "rm_status r = Rm_Active" and m: "room_member i v w = Some m"
    and e: "e = rm_keyEpoch r + 1"
    and w': "room_members w' = delete_where (\<lambda>x. mb_id x = mb_id m) (room_members w)"
      "rooms w' = rooms (set_room i now (\<lambda>r. r\<lparr>rm_keyEpoch := rm_keyEpoch r + 1\<rparr>) w)"
    using run by (auto simp: removeMember_def Let_def owned_room_Inr set_room_def
        split: sum.splits if_splits option.splits)
  have keys: "distinct (map member_key (room_members w))" and ids: "distinct (map mb_id (room_members w))"
    using inv rooms_invD by (auto simp: rooms_ok_def)
  note m' = room_member_Some [OF m]
  have members: "room_member i x w' = (if x = v then None else room_member i x w)" for x
  proof -
    have "room_member i x w' = find (\<lambda>y. (mb_roomId y = i \<and> mb_userId y = x) \<and> mb_id y \<noteq> mb_id m) (room_members w)"
      unfolding room_member_def w' by (rule find_delete_where)
    also have "\<dots> = (if x = v then None else room_member i x w)"
    proof (cases "x = v")
      case True
      then have "y = m" if "y \<in> set (room_members w)" "mb_roomId y = i \<and> mb_userId y = x" for y
        using m' that distinct_key_eq [OF keys, of y m] by (simp add: member_key_def)
      then show ?thesis using True by (auto simp: find_None_in)
    next
      case False
      then have "((mb_roomId y = i \<and> mb_userId y = x) \<and> mb_id y \<noteq> mb_id m) = (mb_roomId y = i \<and> mb_userId y = x)"
        if "y \<in> set (room_members w)" for y
        using m' that distinct_key_eq [OF ids, of y m] by auto
      then show ?thesis using False unfolding room_member_def by (auto intro: find_cong)
    qed
    finally show ?thesis .
  qed
  have "find_room i w' = Some (r\<lparr>rm_keyEpoch := rm_keyEpoch r + 1, rm_updatedAt := now\<rparr>)"
    using r find_room_Some [OF r(1)] by (simp add: find_room_def w' set_room_def find_update_where)
  then show ?thesis
    by (simp add: members e r list_room_messages_def getKeyPackage_def storeKeyPackage_def
        send_room_message_def)
qed

theorem removed_member_locked_out_witness:
  "\<exists>e w'. removeMember 9 ''alice'' ''r'' ''bob'' pair_room = ok e w' \<and> e = 2 \<and>
     room_member ''r'' ''bob'' w' = None \<and> room_member ''r'' ''alice'' w' \<noteq> None"
proof -
  have "out (removeMember 9 ''alice'' ''r'' ''bob'' pair_room) = Inr 2"
    by (simp add: removeMember_def owned_room_def active_room_def find_room_def room_member_def pair_defs Let_def)
  then obtain w' where run: "removeMember 9 ''alice'' ''r'' ''bob'' pair_room = ok 2 w'"
    by (metis prod.collapse)
  have "room_member ''r'' ''alice'' pair_room \<noteq> None" by (simp add: room_member_def pair_defs)
  then show ?thesis using removed_member_locked_out [OF run pair_room_ok] run by simp
qed

text \<open>Only the owner governs a room: for anybody else, every request that would lock, rename,
  resize or delete it, add or remove a member, decide or list its join requests is refused, and
  none of them changes anything.\<close>

theorem only_owner_governs:
  assumes "find_room i w = Some r" and "rm_ownerId r \<noteq> u"
  shows "isl (out (setJoinLocked now u i b w)) \<and> after (setJoinLocked now u i b w) = w \<and>
    isl (out (deleteRoom C now u i pw w)) \<and> after (deleteRoom C now u i pw w) = w \<and>
    isl (out (updateRoom interf now u i dto w)) \<and> after (updateRoom interf now u i dto w) = w \<and>
    isl (out (removeMember now u i v w)) \<and> after (removeMember now u i v w) = w \<and>
    isl (out (addMemberByOwner interf mid now u i v w)) \<and> after (addMemberByOwner interf mid now u i v w) = w \<and>
    isl (out (acceptJoin mid now u i q k n w)) \<and> after (acceptJoin mid now u i q k n w) = w \<and>
    isl (out (rejectJoin now u i q w)) \<and> after (rejectJoin now u i q w) = w \<and>
    isl (getPendingRequests u i w) \<and> isl (searchUsersForRoom contains u i query w)"
proof -
  have e: "\<exists>e. owned_room what u i w = Inl e" "\<exists>e. reviewable what u i q w = Inl e"
    "\<exists>e. getPendingRequests u i w = Inl e" for what
    using assms by (cases "rm_status r"; simp add: owned_room_def reviewable_def active_room_def getPendingRequests_def)+
  show ?thesis
    using e(1) [of "''change the join lock''"] e(1) [of "''delete the room''"]
      e(1) [of "''update room settings''"] e(1) [of "''remove members''"] e(1) [of "''add members''"]
      e(1) [of "''search users to add''"] e(2) [of "''accept''"] e(2) [of "''reject''"] e(3)
    by (auto simp: setJoinLocked_def deleteRoom_def updateRoom_def removeMember_def addMemberByOwner_def
        acceptJoin_def rejectJoin_def searchUsersForRoom_def)
qed

theorem only_owner_governs_witness:
  "after (removeMember 9 ''bob'' ''r'' ''alice'' pair_room) = pair_room \<and>
   after (setJoinLocked 9 ''bob'' ''r'' True pair_room) = pair_room"
proof -
  have "find_room ''r'' pair_room = Some demo_room" by (simp add: find_room_def pair_defs)
  from only_owner_governs [OF this, of "''bob''"] show ?thesis by (simp add: demo_room_def)
qed



lemma insort_key_snoc: "k x \<le> k m \<Longrightarrow> insort_key k x (ys @ [m]) = insort_key k x ys @ [m]"
  by (induction ys) auto

lemma sort_key_snoc:
  assumes "\<And>x. x \<in> set xs \<Longrightarrow> k x \<le> k m"
  shows "sort_key k (xs @ [m]) = sort_key k xs @ [m]"
  using assms by (induction xs) (simp_all add: insort_key_snoc)

lemma quiet_loop:
  assumes "find_room_message (rm_id r) (rd_clientMessageId dto) w = None"
  shows "room_send_loop (Suc n) (\<lambda>_ w. w) k mid t u r dto w =
    (let m = new_room_message r dto mid u t (next_room_sequence (rm_id r) w)
     in ok (mid, rg_sequenceNumber m, t)
          (broadcast_message dto m (w\<lparr>room_messages := room_messages w @ [m]\<rparr>)))"
proof -
  let ?m = "new_room_message r dto mid u t (next_room_sequence (rm_id r) w)"
  have "\<not> list_ex (room_message_clash ?m) (room_messages w)"
    using assms
    by (auto simp: list_ex_iff room_message_clash_def find_room_message_def find_None_in
        dest: next_room_sequence_above)
  then show ?thesis using room_loop_step [of w "\<lambda>_ w. w" k w w _ r dto mid u t] by (simp add: Let_def)
qed

lemma dedup_loop:
  assumes "find_room_message (rm_id r) (rd_clientMessageId dto) w = Some x"
  shows "room_send_loop (Suc n) (\<lambda>_ w. w) k mid t u r dto w = ok (rg_id x, rg_sequenceNumber x, rg_sentAt x) w"
proof -
  let ?m = "new_room_message r dto mid u t (next_room_sequence (rm_id r) w)"
  have "list_ex (room_message_clash ?m) (room_messages w)"
    using find_room_message_Some [OF assms] by (auto simp: list_ex_iff room_message_clash_def)
  then show ?thesis using assms room_loop_step [of w "\<lambda>_ w. w" k w w _ r dto mid u t] by simp
qed

lemma room_send_returns:
  assumes "room_member i u w \<noteq> None" and "find_room i w = Some r" and "rm_status r = Rm_Active"
  shows "\<exists>reply w'. send_room_message (\<lambda>_ w. w) mid t u i dto w = ok reply w'"
proof -
  obtain n where "max_message_retry_attempts = Suc n" by (simp add: max_message_retry_attempts_def)
  then have run: "send_room_message (\<lambda>_ w. w) mid t u i dto w =
      room_send_loop (Suc n) (\<lambda>_ w. w) 0 mid t u r dto w"
    using assms by (auto simp: send_room_message_def active_room_def)
  show ?thesis unfolding run
    by (cases "find_room_message (rm_id r) (rd_clientMessageId dto) w")
      (simp_all add: quiet_loop dedup_loop Let_def)
qed

text \<open>A member of an active room can always send: a message with a client id the room has not
  seen is stored once, with a number above every number of the room, and pushed to every live
  socket of every member; repeating a client id returns the message stored under it and changes
  nothing.\<close>

theorem room_send_exact:
  assumes "room_member i u w \<noteq> None" and r: "find_room i w = Some r" "rm_status r = Rm_Active"
  shows "(case find_room_message i (rd_clientMessageId dto) w of
      Some x \<Rightarrow> send_room_message (\<lambda>_ w. w) mid t u i dto w = ok (rg_id x, rg_sequenceNumber x, rg_sentAt x) w
    | None \<Rightarrow> \<exists>m w'. send_room_message (\<lambda>_ w. w) mid t u i dto w = ok (mid, rg_sequenceNumber m, t) w' \<and>
        room_messages w' = room_messages w @ [m] \<and> rg_id m = mid \<and> rg_roomId m = i \<and> rg_senderId m = u \<and>
        rg_clientMessageId m = rd_clientMessageId dto \<and> rg_ciphertext m = b64_decode (rd_ciphertext dto) \<and>
        (\<forall>x \<in> set (room_messages w). rg_roomId x = i \<longrightarrow> rg_sequenceNumber x < rg_sequenceNumber m) \<and>
        (\<exists>e. emitted w' = emitted w @ concat (map (\<lambda>v. map (\<lambda>s. (s, e)) (sockets_in (connections w) v))
                                               (member_ids i w))))"
proof -
  have i: "rm_id r = i" using find_room_Some [OF r(1)] by simp
  obtain n where "max_message_retry_attempts = Suc n" by (simp add: max_message_retry_attempts_def)
  then have run: "send_room_message (\<lambda>_ w. w) mid t u i dto w =
      room_send_loop (Suc n) (\<lambda>_ w. w) 0 mid t u r dto w"
    using assms by (auto simp: send_room_message_def active_room_def)
  show ?thesis
  proof (cases "find_room_message i (rd_clientMessageId dto) w")
    case (Some x)
    then show ?thesis unfolding run using dedup_loop [of r dto w x] i by simp
  next
    case None
    define m where "m = new_room_message r dto mid u t (next_room_sequence i w)"
    let ?w = "w\<lparr>room_messages := room_messages w @ [m]\<rparr>"
    have "send_room_message (\<lambda>_ w. w) mid t u i dto w = ok (mid, rg_sequenceNumber m, t) (broadcast_message dto m ?w)"
      unfolding run using quiet_loop [of r dto w] None i by (simp add: Let_def m_def)
    moreover have "\<exists>e. emitted (broadcast_message dto m ?w) = emitted w @
        concat (map (\<lambda>v. map (\<lambda>s. (s, e)) (sockets_in (connections w) v)) (member_ids i w))"
      using i by (simp add: broadcast_message_def push_all_log m_def member_ids_def members_of_def) blast
    moreover have "rg_ciphertext m = b64_decode (rd_ciphertext dto)" by (simp add: m_def new_room_message_def)
    ultimately show ?thesis
      unfolding None option.case using i next_room_sequence_above [of _ w i]
      by (intro exI [of _ m] exI [of _ "broadcast_message dto m ?w"]) (simp add: m_def)
  qed
qed

definition demo_room_dto :: room_send_dto where
  "demo_room_dto = \<lparr>rd_clientMessageId = ''k1'', rd_ciphertext = ''QQ=='', rd_iv = ''QQ=='',
     rd_messageType = None, rd_replyToMessageId = None, rd_keyEpoch = None\<rparr>"

theorem room_send_exact_witness:
  "\<exists>s w'. send_room_message (\<lambda>_ w. w) ''n'' 7 ''bob'' ''r'' demo_room_dto pair_room = ok (''n'', s, 7) w' \<and>
     length (room_messages w') = 1"
proof -
  have "room_member ''r'' ''bob'' pair_room \<noteq> None" "find_room ''r'' pair_room = Some demo_room"
    "rm_status demo_room = Rm_Active" "find_room_message ''r'' ''k1'' pair_room = None"
    by (simp_all add: room_member_def find_room_def find_room_message_def pair_defs)
  then show ?thesis
    using room_send_exact [where i = "''r''" and u = "''bob''" and w = pair_room and r = demo_room and dto = demo_room_dto
        and mid = "''n''" and t = 7]
    by (auto simp: demo_room_dto_def pair_defs)
qed

text \<open>The history a room serves stops growing: once a room holds a hundred live messages, the
  listing with the default limit of 100 (the only one the web client asks for) is the same before
  and after every further message, so nobody who opens the room sees it.\<close>

theorem room_history_stops:
  assumes sent: "send_room_message (\<lambda>_ w. w) mid t u i dto w = ok reply w'"
    and full: "100 \<le> length (filter (\<lambda>m. rg_deletedAt m = None) (in_room i w))"
  shows "list_room_messages v i 100 w' = list_room_messages v i 100 w"
proof -
  obtain y r where g: "room_member i u w = Some y" "find_room i w = Some r" "rm_status r = Rm_Active"
    using sent by (auto simp: send_room_message_def active_room_Some split: if_splits option.splits)
  have i: "rm_id r = i" using find_room_Some [OF g(2)] by simp
  obtain n where "max_message_retry_attempts = Suc n" by (simp add: max_message_retry_attempts_def)
  then have run: "room_send_loop (Suc n) (\<lambda>_ w. w) 0 mid t u r dto w = ok reply w'"
    using sent g by (simp add: send_room_message_def active_room_def)
  show ?thesis
  proof (cases "find_room_message (rm_id r) (rd_clientMessageId dto) w")
    case (Some x)
    then show ?thesis using run dedup_loop [OF Some] by simp
  next
    case None
    define m where "m = new_room_message r dto mid u t (next_room_sequence (rm_id r) w)"
    let ?live = "filter (\<lambda>m. rg_deletedAt m = None) (in_room i w)"
    have w': "w' = broadcast_message dto m (w\<lparr>room_messages := room_messages w @ [m]\<rparr>)"
      using run quiet_loop [OF None] by (simp add: Let_def m_def)
    have live: "filter (\<lambda>m. rg_deletedAt m = None) (in_room i w') = ?live @ [m]"
      by (simp add: w' in_room_def i m_def)
    have "rg_sequenceNumber x \<le> rg_sequenceNumber m" if "x \<in> set ?live" for x
      using that next_room_sequence_above [of x w i] i by (simp add: m_def in_room_def)
    then have "sort_key rg_sequenceNumber (?live @ [m]) = sort_key rg_sequenceNumber ?live @ [m]"
      by (rule sort_key_snoc)
    moreover have "room_message_view_of w' = room_message_view_of w"
      by (rule ext) (simp add: room_message_view_of_def w' broadcast_message_def user_brief_of_def find_user_def)
    moreover have "room_member i v w' = room_member i v w" by (simp add: w' room_member_def)
    ultimately show ?thesis
      using full by (simp add: list_room_messages_def live)
  qed
qed

definition busy_room :: world where
  "busy_room = pair_room\<lparr>room_messages := map (\<lambda>n. \<lparr>rg_id = replicate n CHR ''i'', rg_roomId = ''r'',
     rg_senderId = ''alice'', rg_sequenceNumber = int n, rg_clientMessageId = replicate n CHR ''c'',
     rg_ciphertext = [], rg_nonce = [], rg_messageType = Text_Msg, rg_keyEpoch = 1,
     rg_replyToMessageId = None, rg_sentAt = 0, rg_deletedAt = None\<rparr>) [0..<100]\<rparr>"

theorem room_history_stops_witness:
  "\<exists>reply w'. send_room_message (\<lambda>_ w. w) ''n'' 7 ''bob'' ''r'' demo_room_dto busy_room = ok reply w' \<and>
     list_room_messages ''bob'' ''r'' 100 w' = list_room_messages ''bob'' ''r'' 100 busy_room"
proof -
  have g: "room_member ''r'' ''bob'' busy_room \<noteq> None" "find_room ''r'' busy_room = Some demo_room"
    "rm_status demo_room = Rm_Active"
    by (simp_all add: room_member_def find_room_def busy_room_def pair_defs)
  obtain reply w' where run: "send_room_message (\<lambda>_ w. w) ''n'' 7 ''bob'' ''r'' demo_room_dto busy_room = ok reply w'"
    using room_send_returns [OF g] by blast
  have "100 \<le> length (filter (\<lambda>m. rg_deletedAt m = None) (in_room ''r'' busy_room))"
    by (simp add: in_room_def busy_room_def comp_def)
  from room_history_stops [OF run this] run show ?thesis by blast
qed

text \<open>Deleting a room, which asks for the owner's burn password, erases nothing: its messages and
  key packages stay in the database, and every member still lists the messages and fetches the
  keys exactly as before, although the room itself is reported as not found.\<close>

theorem deleted_room_still_served:
  assumes "deleteRoom C now u i pw w = ok x w'"
  shows "(\<exists>e. getRoom C pepper v i w' = Inl e) \<and> room_messages w' = room_messages w \<and>
    room_key_packages w' = room_key_packages w \<and>
    list_room_messages v i n w' = list_room_messages v i n w \<and>
    getKeyPackage v i k w' = getKeyPackage v i k w"
proof -
  obtain r where r: "find_room i w = Some r"
    and w': "rooms w' = rooms (set_room i now (\<lambda>r. r\<lparr>rm_status := Rm_Deleted\<rparr>) w)"
      "room_members w' = room_members w" "room_messages w' = room_messages w"
      "room_key_packages w' = room_key_packages w" "users w' = users w" "devices w' = devices w"
    using assms by (auto simp: deleteRoom_def Let_def owned_room_Inr set_room_def
        split: sum.splits if_splits option.splits)
  have f: "find_room i w' = Some (r\<lparr>rm_status := Rm_Deleted, rm_updatedAt := now\<rparr>)"
    using r find_room_Some [OF r] by (simp add: find_room_def w' set_room_def find_update_where)
  have same: "room_member i v w' = room_member i v w" "find_package j e v w' = find_package j e v w"
    "user_brief_of y w' = user_brief_of y w" "active_device y w' = active_device y w" for j e y
    by (simp_all add: room_member_def find_package_def user_brief_of_def find_user_def active_device_def w')
  have "room_message_view_of w' = room_message_view_of w"
    by (rule ext) (simp add: room_message_view_of_def same)
  then show ?thesis
    by (cases k) (simp_all add: getRoom_def f list_room_messages_def getKeyPackage_def same in_room_def w' r)
qed

theorem deleted_room_still_served_witness:
  "\<exists>w'. deleteRoom plain_crypto 9 ''alice'' ''r'' (Some ''boom'') (pair_room\<lparr>user_settings :=
        [(default_settings ''alice'')\<lparr>st_burnPasswordHash := Some (plain_hash ''s'' ''boom'')\<rparr>]\<rparr>) = ok () w' \<and>
     list_room_messages ''bob'' ''r'' 100 w' = Inr [] \<and> (\<exists>e. getRoom plain_crypto ''p'' ''bob'' ''r'' w' = Inl e)"
proof -
  let ?w = "pair_room\<lparr>user_settings :=
        [(default_settings ''alice'')\<lparr>st_burnPasswordHash := Some (plain_hash ''s'' ''boom'')\<rparr>]\<rparr>"
  have "out (deleteRoom plain_crypto 9 ''alice'' ''r'' (Some ''boom'') ?w) = Inr ()"
    by (simp add: deleteRoom_def owned_room_def active_room_def find_room_def find_settings_def given_def
        default_settings_def pair_defs Let_def)
  then obtain w' where run: "deleteRoom plain_crypto 9 ''alice'' ''r'' (Some ''boom'') ?w = ok () w'"
    by (metis prod.collapse)
  have "list_room_messages ''bob'' ''r'' 100 ?w = Inr []"
    by (simp add: list_room_messages_def room_member_def in_room_def pair_defs)
  then show ?thesis using deleted_room_still_served [OF run] run by metis
qed

lemma add_member_effect:
  assumes own: "owned_room ''add members'' u i w = Inr r"
    and target: "find_user v w = Some x" "us_status x = Acct_Active" "v \<noteq> u" "\<not> blocked_pair v u w"
    and room: "room_member i v w = None" "member_count i w < rm_maxMembers r"
    and still: "room_member i v (interf w) = None"
  shows "\<exists>w'. addMemberByOwner interf mid now u i v w = ok (member_count i w + 1) w' \<and>
    rooms w' = rooms (interf w) \<and>
    room_members w' = room_members (interf w) @ [\<lparr>mb_id = mid, mb_roomId = i, mb_userId = v,
        mb_role = Member_Role, mb_joinedAt = now\<rparr>]"
  using assms by (simp add: addMemberByOwner_def Let_def add_member_result)

text \<open>The capacity is checked before the insert and outside its transaction: when the owner adds
  two people at once to a room with one free place, both additions succeed, both report a room that
  is exactly full, and the room ends with one member more than its capacity.\<close>

theorem capacity_race:
  assumes own: "owned_room ''add members'' u i w = Inr r"
    and one: "member_count i w + 1 = rm_maxMembers r"
    and a: "find_user a w = Some xa" "us_status xa = Acct_Active" "a \<noteq> u" "\<not> blocked_pair a u w"
      "room_member i a w = None"
    and b: "find_user b w = Some xb" "us_status xb = Acct_Active" "b \<noteq> u" "\<not> blocked_pair b u w"
      "room_member i b w = None"
    and two: "a \<noteq> b"
  shows "\<exists>wb w'. addMemberByOwner (\<lambda>w. w) ib now u i b w = ok (rm_maxMembers r) wb \<and>
    addMemberByOwner (\<lambda>w. after (addMemberByOwner (\<lambda>w. w) ib now u i b w)) ia now u i a w =
      ok (rm_maxMembers r) w' \<and>
    member_count i w' = rm_maxMembers r + 1"
proof -
  have cap: "member_count i w < rm_maxMembers r" using one by simp
  obtain wb where wb: "addMemberByOwner (\<lambda>w. w) ib now u i b w = ok (member_count i w + 1) wb"
    and mb: "room_members wb = room_members w @ [\<lparr>mb_id = ib, mb_roomId = i, mb_userId = b,
        mb_role = Member_Role, mb_joinedAt = now\<rparr>]"
    using add_member_effect [OF own b(1,2,3,4,5) cap, of "\<lambda>w. w" ib now] b(5) by blast
  have "room_member i a wb = None" using a(5) two by (simp add: room_member_def mb find_append)
  then obtain w' where w': "addMemberByOwner (\<lambda>w. after (addMemberByOwner (\<lambda>w. w) ib now u i b w)) ia now u i a w =
      ok (member_count i w + 1) w'"
    and ma: "room_members w' = room_members wb @ [\<lparr>mb_id = ia, mb_roomId = i, mb_userId = a,
        mb_role = Member_Role, mb_joinedAt = now\<rparr>]"
    using add_member_effect [OF own a(1,2,3,4,5) cap,
        of "\<lambda>w. after (addMemberByOwner (\<lambda>w. w) ib now u i b w)" ia now] wb by auto
  have "member_count i w' = rm_maxMembers r + 1"
    using one by (simp add: member_count_def members_of_def ma mb)
  then show ?thesis using wb w' one by auto
qed

theorem capacity_race_witness:
  "\<exists>w'. addMemberByOwner (\<lambda>w. after (addMemberByOwner (\<lambda>w. w) ''m2'' 3 ''alice'' ''r'' ''bob'' w)) ''m3'' 3 ''alice'' ''r'' ''carol''
        (demo_world\<lparr>rooms := [demo_room\<lparr>rm_maxMembers := 2\<rparr>], users := demo_users @
           [plain_user ''carol'' ''carol'' None Acct_Active],
           conversations := []\<rparr>) = ok 2 w' \<and>
     member_count ''r'' w' = 3"
proof -
  let ?w = "demo_world\<lparr>rooms := [demo_room\<lparr>rm_maxMembers := 2\<rparr>], users := demo_users @
           [plain_user ''carol'' ''carol'' None Acct_Active],
           conversations := []\<rparr>"
  have "owned_room ''add members'' ''alice'' ''r'' ?w = Inr (demo_room\<lparr>rm_maxMembers := 2\<rparr>)"
    "member_count ''r'' ?w + 1 = rm_maxMembers (demo_room\<lparr>rm_maxMembers := 2\<rparr>)"
    "\<not> blocked_pair ''carol'' ''alice'' ?w" "\<not> blocked_pair ''bob'' ''alice'' ?w"
    "room_member ''r'' ''carol'' ?w = None" "room_member ''r'' ''bob'' ?w = None"
    by (simp_all add: owned_room_def active_room_def find_room_def member_count_def members_of_def
        blocked_pair_def find_conv_pair_def room_member_def pair_defs)
  note f = this
  have u: "find_user ''carol'' ?w = Some (plain_user ''carol'' ''carol'' None Acct_Active)"
    "find_user ''bob'' ?w = Some (plain_user ''bob'' ''bob'' None Acct_Active)"
    by (simp_all add: find_user_def pair_defs)
  show ?thesis
    using capacity_race [OF f(1) f(2) u(1) _ _ f(3) f(5) u(2) _ _ f(4) f(6), of "''m2''" 3 "''m3''"]
    by (auto simp: demo_room_def)
qed

text \<open>Any member of a room can replace anybody's key package: whatever package the owner, or the
  recipient's peer, stored for a recipient and an epoch, current or past, a member's own overwrites
  it and is what the recipient fetches from then on.\<close>

theorem any_member_replaces_keys:
  assumes member: "room_member i v w \<noteq> None" and r: "find_room i w = Some r" "rm_status r = Rm_Active"
    and victim: "room_member i (sk_recipientUserId dto) w \<noteq> None" and e: "sk_keyEpoch dto = Some e"
  shows "\<exists>w' p. storeKeyPackage v i dto w = ok () w' \<and>
    find_package i e (sk_recipientUserId dto) w' = Some p \<and> kp_senderUserId p = v \<and>
    getKeyPackage (sk_recipientUserId dto) i (Some e) w' = Inr (Some
      \<lparr>kv_roomId = i, kv_keyEpoch = e, kv_encryptedKey = b64_encode (b64_decode (sk_encryptedKey dto)),
       kv_nonce = b64_encode (b64_decode (sk_nonce dto)), kv_sender = user_brief_of v w,
       kv_senderDh = map_option dv_identityDhPublic (active_device v w)\<rparr>)"
proof -
  let ?x = "sk_recipientUserId dto"
  let ?p = "\<lparr>kp_roomId = i, kp_keyEpoch = e, kp_recipientUserId = ?x,
      kp_encryptedKey = b64_decode (sk_encryptedKey dto), kp_nonce = b64_decode (sk_nonce dto), kp_senderUserId = v\<rparr>"
  let ?w1 = "upsert_package i e ?x (b64_decode (sk_encryptedKey dto)) (b64_decode (sk_nonce dto)) v w"
  let ?w' = "push ?x (Room_Key_Delivered i e) ?w1"
  have run: "storeKeyPackage v i dto w = ok () ?w'"
    using member r e by (auto simp: storeKeyPackage_def active_room_def)
  have "find_package i e ?x ?w1 = Some ?p"
  proof (cases "find_package i e ?x w")
    case None
    then show ?thesis by (simp add: upsert_package_def find_package_def find_append same_package_def)
  next
    case (Some q)
    then have "same_package i e ?x q" by (auto simp: find_package_def dest: find_Some_in)
    then show ?thesis using Some
      by (simp add: upsert_package_def find_package_def find_update_where same_package_def)
  qed
  then have f: "find_package i e ?x ?w' = Some ?p" by (simp add: find_package_def)
  have "room_member i ?x ?w' = room_member i ?x w" "find_room i ?w' = find_room i w"
    "user_brief_of v ?w' = user_brief_of v w" "active_device v ?w' = active_device v w"
    by (simp_all add: room_member_def find_room_def user_brief_of_def find_user_def active_device_def
        upsert_package_def)
  then have "getKeyPackage ?x i (Some e) ?w' = Inr (Some
      \<lparr>kv_roomId = i, kv_keyEpoch = e, kv_encryptedKey = b64_encode (b64_decode (sk_encryptedKey dto)),
       kv_nonce = b64_encode (b64_decode (sk_nonce dto)), kv_sender = user_brief_of v w,
       kv_senderDh = map_option dv_identityDhPublic (active_device v w)\<rparr>)"
    using victim r(1) f by (auto simp: getKeyPackage_def)
  then show ?thesis using run f by auto
qed

theorem any_member_replaces_keys_witness:
  "\<exists>w'. storeKeyPackage ''bob'' ''r'' \<lparr>sk_recipientUserId = ''alice'', sk_encryptedKey = ''QQ=='', sk_nonce = ''QQ=='',
       sk_keyEpoch = Some 1\<rparr> (after (storeKeyPackage ''alice'' ''r'' \<lparr>sk_recipientUserId = ''alice'',
       sk_encryptedKey = ''Qg=='', sk_nonce = ''Qg=='', sk_keyEpoch = None\<rparr> pair_room)) = ok () w' \<and>
     (\<exists>p. find_package ''r'' 1 ''alice'' w' = Some p \<and> kp_senderUserId p = ''bob'')"
proof -
  let ?w = "after (storeKeyPackage ''alice'' ''r'' \<lparr>sk_recipientUserId = ''alice'',
       sk_encryptedKey = ''Qg=='', sk_nonce = ''Qg=='', sk_keyEpoch = None\<rparr> pair_room)"
  have "room_member ''r'' ''bob'' ?w \<noteq> None" "find_room ''r'' ?w = Some demo_room" "rm_status demo_room = Rm_Active"
    "room_member ''r'' ''alice'' ?w \<noteq> None"
    by (simp_all add: storeKeyPackage_def active_room_def find_room_def room_member_def pair_defs Let_def)
  from any_member_replaces_keys [OF this(1-3), of "\<lparr>sk_recipientUserId = ''alice'', sk_encryptedKey = ''QQ=='',
      sk_nonce = ''QQ=='', sk_keyEpoch = Some 1\<rparr>" 1] this(4)
  show ?thesis by auto
qed

text \<open>Leaving, unlike removal, keeps the key epoch: the room key the leaver knows stays current.\<close>

lemma leave_keeps_key_epoch:
  "leaveRoom u i w = ok x w' \<Longrightarrow> rooms w' = rooms w \<and> room_key_packages w' = room_key_packages w"
  by (auto simp: leaveRoom_def Let_def split: option.splits if_splits)

text \<open>Whatever other requests do in between, as long as they keep the two unique indexes of the
  message table: sending to a room keeps them, a reply names a message that is stored in that room
  under the caller's client id, and the only failure after the guards is the loss of every retry.\<close>

theorem room_send_races:
  assumes keep: "\<And>k w. room_messages_ok w \<Longrightarrow> room_messages_ok (interf k w)" and "room_messages_ok w"
    and "room_member i u w \<noteq> None" and "active_room i w \<noteq> None"
  shows "room_messages_ok (after (send_room_message interf mid t u i dto w)) \<and>
    (case out (send_room_message interf mid t u i dto w) of
       Inl e \<Rightarrow> e = Bad_Request ''Could not send message. Please retry.''
     | Inr (j, s, at) \<Rightarrow>
         (\<exists>x. find_room_message i (rd_clientMessageId dto)
                (after (send_room_message interf mid t u i dto w)) = Some x \<and>
              j = rg_id x \<and> s = rg_sequenceNumber x \<and> at = rg_sentAt x))"
proof -
  obtain r where r: "active_room i w = Some r" using assms(4) by blast
  have i: "rm_id r = i" using r find_room_Some by (auto simp: active_room_Some)
  have run: "send_room_message interf mid t u i dto w =
      room_send_loop max_message_retry_attempts interf 0 mid t u r dto w"
    using assms(3) r by (auto simp: send_room_message_def)
  show ?thesis unfolding run using room_loop_inv [of interf, OF keep assms(2)] i by blast
qed

text \<open>Another member whose message lands between the read and the insert of the first attempt.\<close>

definition room_rival :: "nat \<Rightarrow> world \<Rightarrow> world" where
  "room_rival k w = (if k = 1 then after (send_room_message (\<lambda>_ w. w) ''other'' 6 ''alice'' ''r''
      (demo_room_dto\<lparr>rd_clientMessageId := ''k9''\<rparr>) w) else w)"

theorem room_send_races_witness:
  "room_messages_ok (after (send_room_message room_rival ''n'' 7 ''bob'' ''r'' demo_room_dto pair_room))"
proof -
  have keep: "room_messages_ok (room_rival k w)" if "room_messages_ok w" for k w
  proof (cases "room_member ''r'' ''alice'' w \<noteq> None \<and> active_room ''r'' w \<noteq> None")
    case True
    then obtain r where r: "active_room ''r'' w = Some r" by blast
    show ?thesis
      using that True r room_loop_inv [of "\<lambda>_ w. w" w max_message_retry_attempts 0 "''other''" 6 "''alice''" r
          "demo_room_dto\<lparr>rd_clientMessageId := ''k9''\<rparr>"]
      by (auto simp: room_rival_def send_room_message_def)
  next
    case False
    then show ?thesis using that by (auto simp: room_rival_def send_room_message_def)
  qed
  have "room_messages_ok pair_room" "room_member ''r'' ''bob'' pair_room \<noteq> None" "active_room ''r'' pair_room \<noteq> None"
    by (simp_all add: room_messages_ok_def room_member_def active_room_def find_room_def pair_defs)
  from room_send_races [of room_rival, OF keep this] show ?thesis by blast
qed

end
