(* ===== verification/Gateway.thy ===== *)
theory Gateway
  imports Conversations
begin

text \<open>
  The socket gateway: \<open>realtime/realtime.gateway.ts\<close>. A connection is admitted with
  the payload of its access token, joins the connection registry, and is
  announced to the user's conversation partners when it is the first; losing the
  last one is announced too. The relays for typing and view-once events are the
  handlers below.

  The payload that \<open>verifyAccessToken\<close> returns is an argument (\<open>None\<close> for a token it
  rejects); the body of an event is an argument in its validated form, since a
  malformed one is dropped before anything else. \<open>interf\<close> is what other requests
  do while the handler waits for the database between the revocation check and
  the registration. A socket whose handler has not yet stored its user receives
  no event from the handlers, so the relays take the stored data.
\<close>

section \<open>Connecting and disconnecting\<close>

record socket_data =
  sk_userId :: ident
  sk_deviceId :: ident
  sk_username :: string

definition touchLastSeen :: "ident \<Rightarrow> instant \<Rightarrow> world \<Rightarrow> world" where
  "touchLastSeen deviceId now w =
     w\<lparr>devices := update_where (\<lambda>d. dv_id d = deviceId) (\<lambda>d. d\<lparr>dv_lastSeenAt := now\<rparr>) (devices w)\<rparr>"

definition partners :: "ident \<Rightarrow> world \<Rightarrow> ident list" where
  "partners userId w =
     map (other_party userId)
       (filter (\<lambda>c. participant userId c \<and> cv_status c = Cv_Active) (conversations w))"

definition broadcastPresence :: "ident \<Rightarrow> push_event \<Rightarrow> world \<Rightarrow> world" where
  "broadcastPresence userId event w = foldl (\<lambda>w p. push p event w) w (partners userId w)"

text \<open>The result: what is stored on the socket, whether it stays connected, and the state.\<close>

definition handleConnection ::
  "(world \<Rightarrow> world) \<Rightarrow> (ident \<times> ident) option \<Rightarrow> ident \<Rightarrow> instant \<Rightarrow> instant \<Rightarrow> world \<Rightarrow>
     socket_data option \<times> bool \<times> world" where
  "handleConnection interf payload socket seenAt now w =
     (case payload of
        None \<Rightarrow> (None, False, w)
      | Some (userId, deviceId) \<Rightarrow>
          (case find_device deviceId w of
             None \<Rightarrow> (None, False, w)
           | Some device \<Rightarrow>
               if dv_revokedAt device \<noteq> None then (None, False, w)
               else let w1 = interf w;
                        data = \<lparr>sk_userId = userId, sk_deviceId = deviceId,
                          sk_username = (case find_user userId w1 of None \<Rightarrow> '''' | Some u \<Rightarrow> us_username u)\<rparr>;
                        (accepted, w2) = register userId deviceId socket w1
               in if \<not> accepted then (Some data, False, w2)
                  else let w3 = touchLastSeen deviceId seenAt w2
                  in (Some data, True,
                      if getConnectionCount userId w3 = 1
                      then broadcastPresence userId (User_Online userId now) w3 else w3)))"

definition handleDisconnect ::
  "socket_data option \<Rightarrow> ident \<Rightarrow> instant \<Rightarrow> instant \<Rightarrow> world \<Rightarrow> world" where
  "handleDisconnect data socket seenAt now w =
     (case data of
        None \<Rightarrow> w
      | Some d \<Rightarrow>
          let userId = sk_userId d;
              w1 = (if userId \<noteq> '''' \<and> sk_deviceId d \<noteq> ''''
                    then unregister userId (sk_deviceId d) socket w else w);
              w2 = (if sk_deviceId d \<noteq> '''' \<and> \<not> isDeviceOnline (sk_deviceId d) w1
                    then touchLastSeen (sk_deviceId d) seenAt w1 else w1)
          in if userId \<noteq> '''' \<and> \<not> isOnline userId w2
             then broadcastPresence userId (User_Offline userId now) w2 else w2)"

definition onHeartbeat :: "socket_data \<Rightarrow> instant \<Rightarrow> world \<Rightarrow> world" where
  "onHeartbeat d now w = (if sk_deviceId d \<noteq> '''' then touchLastSeen (sk_deviceId d) now w else w)"

section \<open>Relays\<close>

definition typing_enabled :: "ident \<Rightarrow> world \<Rightarrow> bool" where
  "typing_enabled userId w =
     (case find_settings userId w of None \<Rightarrow> True | Some s \<Rightarrow> st_typingIndicatorEnabled s)"

definition onTyping :: "socket_data \<Rightarrow> ident \<Rightarrow> bool \<Rightarrow> instant \<Rightarrow> world \<Rightarrow> world" where
  "onTyping d conversationId isTyping now w =
     (let userId = sk_userId d; (allowed, w1) = allowTyping userId now w
      in if \<not> allowed then w1
         else if \<not> typing_enabled userId w1 then w1
         else case find_conv conversationId w1 of
           None \<Rightarrow> w1
         | Some convo \<Rightarrow>
             if cv_userAId convo \<noteq> userId \<and> cv_userBId convo \<noteq> userId then w1
             else push (other_party userId convo) (Typing conversationId isTyping userId) w1)"

definition typer_name :: "socket_data \<Rightarrow> world \<Rightarrow> string" where
  "typer_name d w =
     (if sk_username d \<noteq> '''' then sk_username d
      else case find_user (sk_userId d) w of None \<Rightarrow> '''' | Some u \<Rightarrow> us_username u)"

definition onRoomTyping :: "socket_data \<Rightarrow> ident \<Rightarrow> bool \<Rightarrow> instant \<Rightarrow> world \<Rightarrow> world" where
  "onRoomTyping d roomId isTyping now w =
     (let userId = sk_userId d; (allowed, w1) = allowTyping userId now w
      in if \<not> allowed then w1
         else if \<not> typing_enabled userId w1 then w1
         else if room_member roomId userId w1 = None then w1
         else foldl (\<lambda>w m. if mb_userId m = userId then w
                           else push (mb_userId m) (Room_Typing roomId isTyping userId (typer_name d w1)) w)
                w1 (filter (\<lambda>m. mb_roomId m = roomId) (room_members w1)))"

definition onViewOnceOpened :: "socket_data \<Rightarrow> ident \<Rightarrow> ident \<Rightarrow> world \<Rightarrow> world" where
  "onViewOnceOpened d conversationId messageId w =
     (case find_conv conversationId w of
        None \<Rightarrow> w
      | Some convo \<Rightarrow>
          if cv_userAId convo \<noteq> sk_userId d \<and> cv_userBId convo \<noteq> sk_userId d then w
          else push (other_party (sk_userId d) convo) (View_Once_Opened conversationId messageId) w)"

section \<open>Facts\<close>

lemma push_sequence:
  "foldl (\<lambda>w p. push p e w) w ps =
     w\<lparr>emitted := emitted w @ concat (map (\<lambda>p. map (\<lambda>s. (s, e)) (sockets_in (connections w) p)) ps)\<rparr>"
  by (induction ps arbitrary: w) (simp_all add: push_log)

lemma broadcast_log:
  "broadcastPresence u e w =
     w\<lparr>emitted := emitted w @ concat (map (\<lambda>p. map (\<lambda>s. (s, e)) (sockets_in (connections w) p)) (partners u w))\<rparr>"
  by (simp add: broadcastPresence_def push_sequence)

lemma touch_frame [simp]:
  "connections (touchLastSeen d t w) = connections w"
  "device_connections (touchLastSeen d t w) = device_connections w"
  "emitted (touchLastSeen d t w) = emitted w" "conversations (touchLastSeen d t w) = conversations w"
  "users (touchLastSeen d t w) = users w" "messages (touchLastSeen d t w) = messages w"
  "partners u (touchLastSeen d t w) = partners u w"
  by (simp_all add: touchLastSeen_def partners_def)

lemma allow_frame:
  "allowTyping u t w = (b, w') \<Longrightarrow> w'\<lparr>typing_windows := x\<rparr> = w\<lparr>typing_windows := x\<rparr>"
  by (auto simp: allowTyping_def Let_def split: option.splits if_splits)

text \<open>What a rate-limit decision changes is its own window.\<close>

lemma allow_keeps:
  assumes "allowTyping u t w = (b, w')"
  shows "emitted w' = emitted w" "connections w' = connections w" "conversations w' = conversations w"
    "user_settings w' = user_settings w" "room_members w' = room_members w" "messages w' = messages w"
    "find_conv c w' = find_conv c w" "find_settings v w' = find_settings v w"
    "room_member r v w' = room_member r v w"
  using assms by (auto simp: allowTyping_def find_conv_def find_settings_def room_member_def
      split: option.splits if_splits)

lemma sockets_register:
  assumes "s \<notin> set (sockets_in (connections w) u)" and "length (sockets_in (connections w) u) < 8"
  shows "fst (register u d s w)"
    "sockets_in (connections (snd (register u d s w))) v =
       (if v = u then sockets_in (connections w) u @ [s] else sockets_in (connections w) v)"
    "emitted (snd (register u d s w)) = emitted w" "conversations (snd (register u d s w)) = conversations w"
  using assms by (simp_all add: register_def Let_def max_sockets_per_user_def set_add_def)

lemma set_delete_last: "s \<notin> set xs \<Longrightarrow> set_delete s (xs @ [s]) = xs"
  by (auto simp: set_delete_def filter_id_conv)

lemma unregister_frame [simp]:
  "emitted (unregister u d s w) = emitted w" "conversations (unregister u d s w) = conversations w"
  "user_settings (unregister u d s w) = user_settings w"
  by (simp_all add: unregister_def)

text \<open>The events a presence change of \<open>u\<close> writes: one per live socket of every partner.\<close>

definition announcement :: "ident \<Rightarrow> push_event \<Rightarrow> world \<Rightarrow> (ident \<times> push_event) list" where
  "announcement u e w =
     concat (map (\<lambda>p. map (\<lambda>s. (s, e)) (sockets_in (connections w) p)) (partners u w))"

lemma disconnect_effect:
  assumes "sk_userId d \<noteq> ''''" and "sk_deviceId d \<noteq> ''''"
  shows "connections (handleDisconnect (Some d) s t n w) =
      connections (unregister (sk_userId d) (sk_deviceId d) s w)"
    "conversations (handleDisconnect (Some d) s t n w) = conversations w"
    "emitted (handleDisconnect (Some d) s t n w) = emitted w @
      (if set_delete s (sockets_in (connections w) (sk_userId d)) = []
       then announcement (sk_userId d) (User_Offline (sk_userId d) n)
              (unregister (sk_userId d) (sk_deviceId d) s w) else [])"
  using assms
  by (simp_all add: handleDisconnect_def Let_def broadcast_log isOnline_def sockets_in_unregister
      announcement_def partners_def touchLastSeen_def)

section \<open>Properties\<close>

text \<open>Presence is announced on the edges only: the first socket of a user tells every live socket
  of every active partner that the user is online, closing the last one tells them that the user is
  offline, and a further socket that opens and closes in between is silent; after it closes the
  registry holds the sockets it held before.\<close>

theorem presence_on_edges:
  assumes dev: "find_device d w = Some r" "dv_revokedAt r = None"
    and new: "s \<notin> set (sockets_in (connections w) u)" "length (sockets_in (connections w) u) < 8"
    and ids: "u \<noteq> ''''" "d \<noteq> ''''"
  shows "\<exists>data w1. handleConnection (\<lambda>w. w) (Some (u, d)) s t n w = (Some data, True, w1) \<and>
    sk_userId data = u \<and> sk_deviceId data = d \<and>
    sockets_in (connections w1) u = sockets_in (connections w) u @ [s] \<and>
    emitted w1 = emitted w @ (if sockets_in (connections w) u = []
                              then announcement u (User_Online u n) w1 else []) \<and>
    (let w2 = handleDisconnect (Some data) s t' n' w1
     in (\<forall>v. sockets_in (connections w2) v = sockets_in (connections w) v) \<and>
        emitted w2 = emitted w1 @ (if sockets_in (connections w) u = []
                                   then announcement u (User_Offline u n') w2 else []))"
proof -
  let ?w1 = "touchLastSeen d t (snd (register u d s w))"
  define data where "data = \<lparr>sk_userId = u, sk_deviceId = d,
      sk_username = (case find_user u w of None \<Rightarrow> '''' | Some x \<Rightarrow> us_username x)\<rparr>"
  define w1 where "w1 = (if getConnectionCount u ?w1 = 1
      then broadcastPresence u (User_Online u n) ?w1 else ?w1)"
  note reg = sockets_register [OF new]
  have run: "handleConnection (\<lambda>w. w) (Some (u, d)) s t n w = (Some data, True, w1)"
    using dev reg(1) by (simp add: handleConnection_def Let_def data_def w1_def case_prod_beta)
  have count: "getConnectionCount u ?w1 = 1 \<longleftrightarrow> sockets_in (connections w) u = []"
    by (simp add: getConnectionCount_def reg(2))
  have conn: "connections w1 = connections ?w1" "conversations w1 = conversations w"
    by (simp_all add: w1_def broadcast_log reg(4))
  have sockets: "sockets_in (connections w1) v =
      (if v = u then sockets_in (connections w) u @ [s] else sockets_in (connections w) v)" for v
    using reg(2) by (simp add: conn)
  have e1: "emitted w1 = emitted w @ (if sockets_in (connections w) u = []
      then announcement u (User_Online u n) w1 else [])"
    unfolding w1_def count by (simp add: broadcast_log announcement_def reg partners_def)
  let ?w2 = "handleDisconnect (Some data) s t' n' w1"
  have d: "sk_userId data = u" "sk_deviceId data = d" by (simp_all add: data_def)
  have ne: "sk_userId data \<noteq> ''''" "sk_deviceId data \<noteq> ''''" using ids by (simp_all add: d)
  note dis = disconnect_effect [OF ne, unfolded d, of s t' n' w1]
  have restored: "sockets_in (connections ?w2) v = sockets_in (connections w) v" for v
    using new(1) by (simp add: dis(1) sockets_in_unregister sockets set_delete_last)
  have "emitted ?w2 = emitted w1 @ (if sockets_in (connections w) u = []
      then announcement u (User_Offline u n') ?w2 else [])"
    using new(1) by (simp add: dis(3) sockets set_delete_last announcement_def partners_def dis(1,2))
  then show ?thesis
    unfolding Let_def using run d sockets [of u] e1 restored
    by (intro exI [of _ data] exI [of _ w1]) simp
qed

definition online_world :: world where
  "online_world = demo_world\<lparr>connections := [(''bob'', [''sb''])],
     devices := [\<lparr>dv_id = ''da'', dv_userId = ''alice'', dv_identityDhPublic = '''', dv_identitySigningPublic = '''',
       dv_signedPrekeyPublic = '''', dv_signedPrekeySignature = '''', dv_lastSeenAt = 0, dv_revokedAt = None,
       dv_deviceName = None, dv_platform = Web, dv_signedPrekeyCreatedAt = 0, dv_createdAt = 0\<rparr>]\<rparr>"

theorem presence_on_edges_witness:
  "\<exists>data w1. handleConnection (\<lambda>w. w) (Some (''alice'', ''da'')) ''sa'' 1 1 online_world = (Some data, True, w1) \<and>
     sockets_in (connections w1) ''alice'' = [''sa''] \<and>
     emitted w1 = announcement ''alice'' (User_Online ''alice'' 1) w1 \<and>
     sockets_in (connections (handleDisconnect (Some data) ''sa'' 2 2 w1)) ''alice'' = []"
proof -
  obtain r where dev: "find_device ''da'' online_world = Some r" "dv_revokedAt r = None"
    by (simp add: find_device_def online_world_def)
  have conv: "sockets_in (connections online_world) ''alice'' = []" "emitted online_world = []"
    by (simp_all add: online_world_def sockets_in_def demo_defs)
  show ?thesis
    using presence_on_edges [OF dev, where u = "''alice''" and s = "''sa''" and t = 1 and n = 1 and t' = 2 and n' = 2]
    unfolding Let_def by (auto simp: conv)
qed

text \<open>Hiding the last-seen time does not hide it: when a user who disabled it closes the last
  socket, the exact moment is pushed to every live socket of every active partner, to the same
  people for whom the conversation status withholds both presence and last-seen time.\<close>

theorem presence_ignores_last_seen:
  assumes hidden: "\<not> last_seen_enabled (sk_userId d) w"
    and c: "c \<in> set (conversations w)" "participant (sk_userId d) c" "cv_status c = Cv_Active"
    and other: "other_party (sk_userId d) c \<noteq> sk_userId d"
      "x \<in> set (sockets_in (connections w) (other_party (sk_userId d) c))"
    and last: "sockets_in (connections w) (sk_userId d) = [s]"
    and ids: "sk_userId d \<noteq> ''''" "sk_deviceId d \<noteq> ''''"
  shows "(x, User_Offline (sk_userId d) n) \<in> set (emitted (handleDisconnect (Some d) s t n w)) \<and>
    \<not> can_see_last_seen (other_party (sk_userId d) c) (sk_userId d) w"
proof -
  have "other_party (sk_userId d) c \<in> set (partners (sk_userId d) (unregister (sk_userId d) (sk_deviceId d) s w))"
    using c by (auto simp: partners_def)
  moreover have "x \<in> set (sockets_in (connections (unregister (sk_userId d) (sk_deviceId d) s w))
      (other_party (sk_userId d) c))"
    using other by (simp add: sockets_in_unregister)
  ultimately have "(x, User_Offline (sk_userId d) n) \<in> set (announcement (sk_userId d)
      (User_Offline (sk_userId d) n) (unregister (sk_userId d) (sk_deviceId d) s w))"
    unfolding announcement_def by auto
  then show ?thesis
    using hidden last by (simp add: disconnect_effect [OF ids] set_delete_def can_see_last_seen_def)
qed

definition alice_data :: socket_data where
  "alice_data = \<lparr>sk_userId = ''alice'', sk_deviceId = ''da'', sk_username = ''alice''\<rparr>"

theorem presence_ignores_last_seen_witness:
  "(''sb'', User_Offline ''alice'' 7) \<in> set (emitted (handleDisconnect (Some alice_data) ''sa'' 7 7
     (online_world\<lparr>connections := [(''alice'', [''sa'']), (''bob'', [''sb''])],
        user_settings := [demo_settings ''alice'' False]\<rparr>)))"
proof -
  let ?w = "online_world\<lparr>connections := [(''alice'', [''sa'']), (''bob'', [''sb''])],
        user_settings := [demo_settings ''alice'' False]\<rparr>"
  have "\<not> last_seen_enabled ''alice'' ?w" "demo_conv \<in> set (conversations ?w)"
    "participant ''alice'' demo_conv" "cv_status demo_conv = Cv_Active" "other_party ''alice'' demo_conv = ''bob''"
    "sockets_in (connections ?w) ''alice'' = [''sa'']" "sockets_in (connections ?w) ''bob'' = [''sb'']"
    by (simp_all add: last_seen_enabled_def find_settings_def online_world_def sockets_in_def participant_def
        other_party_def demo_settings_def demo_defs)
  then show ?thesis
    using presence_ignores_last_seen [where d = alice_data and w = ?w and c = demo_conv and x = "''sb''"
        and s = "''sa''" and n = 7 and t = 7]
    by (simp add: alice_data_def)
qed

text \<open>Typing events stay private: whatever a client sends, the relay changes no table, and every
  event it writes is the caller's own typing notice, for a conversation the caller takes part in,
  to a live socket of the other party; a caller who switched the indicator off writes none.\<close>

theorem typing_goes_to_partner:
  "conversations (onTyping d cid b t w) = conversations w \<and> messages (onTyping d cid b t w) = messages w \<and>
   (\<exists>es. emitted (onTyping d cid b t w) = emitted w @ es \<and>
     (\<forall>(x, e) \<in> set es. e = Typing cid b (sk_userId d) \<and> typing_enabled (sk_userId d) w \<and>
        (\<exists>c. find_conv cid w = Some c \<and> participant (sk_userId d) c \<and>
           x \<in> set (sockets_in (connections w) (other_party (sk_userId d) c)))))"
proof -
  obtain ok1 w1 where a: "allowTyping (sk_userId d) t w = (ok1, w1)" by fastforce
  note k = allow_keeps [OF a]
  have te: "typing_enabled (sk_userId d) w1 = typing_enabled (sk_userId d) w"
    by (simp add: typing_enabled_def k)
  show ?thesis
  proof (cases "ok1 \<and> typing_enabled (sk_userId d) w \<and>
      (\<exists>c. find_conv cid w = Some c \<and> participant (sk_userId d) c)")
    case True
    then obtain c where c: "find_conv cid w = Some c" "participant (sk_userId d) c" by blast
    have "onTyping d cid b t w = push (other_party (sk_userId d) c) (Typing cid b (sk_userId d)) w1"
      using True c by (auto simp: onTyping_def a Let_def te k participant_def)
    then show ?thesis using True c by (auto simp: push_log k)
  next
    case False
    then have "onTyping d cid b t w = w1"
      by (auto simp: onTyping_def a Let_def te k participant_def split: option.splits)
    then show ?thesis by (simp add: k)
  qed
qed

theorem typing_goes_to_partner_witness:
  "conversations (onTyping alice_data ''c'' True 5 online_world) = conversations online_world \<and>
   fst ` set (emitted (onTyping alice_data ''c'' True 5 online_world)) \<subseteq> {''sb''}"
proof -
  have w: "emitted online_world = []" "find_conv ''c'' online_world = Some demo_conv"
    "other_party ''alice'' demo_conv = ''bob''" "sockets_in (connections online_world) ''bob'' = [''sb'']"
    by (simp_all add: online_world_def find_conv_def other_party_def sockets_in_def demo_defs)
  have "fst ` set (emitted (onTyping alice_data ''c'' True 5 online_world)) \<subseteq> {''sb''}"
    using typing_goes_to_partner [of alice_data "''c''" True 5 online_world]
    by (auto simp: w alice_data_def)
  then show ?thesis
    using typing_goes_to_partner [of alice_data "''c''" True 5 online_world] by simp
qed

text \<open>Blocking does not stop the relays: in a conversation that one party has blocked, and where
  no message can be sent any more, the blocked party's typing notices and view-once notices still
  reach every live socket of the one who blocked.\<close>

theorem relays_ignore_block:
  assumes c: "find_conv cid w = Some c" "participant (sk_userId d) c" "cv_status c \<noteq> Cv_Active"
    and rate: "fst (allowTyping (sk_userId d) t w)" and "typing_enabled (sk_userId d) w"
    and x: "x \<in> set (sockets_in (connections w) (other_party (sk_userId d) c))"
  shows "(x, Typing cid b (sk_userId d)) \<in> set (emitted (onTyping d cid b t w)) \<and>
    (x, View_Once_Opened cid m) \<in> set (emitted (onViewOnceOpened d cid m w))"
proof -
  obtain w1 where a: "allowTyping (sk_userId d) t w = (True, w1)"
    using rate by (cases "allowTyping (sk_userId d) t w") simp
  note k = allow_keeps [OF a]
  have "onTyping d cid b t w = push (other_party (sk_userId d) c) (Typing cid b (sk_userId d)) w1"
    using assms by (auto simp: onTyping_def a Let_def typing_enabled_def k participant_def)
  moreover have "onViewOnceOpened d cid m w = push (other_party (sk_userId d) c) (View_Once_Opened cid m) w"
    using c by (auto simp: onViewOnceOpened_def participant_def)
  ultimately show ?thesis using x by (auto simp: push_log k)
qed

theorem relays_ignore_block_witness:
  "(''sa'', Typing ''c'' True ''bob'') \<in> set (emitted (onTyping \<lparr>sk_userId = ''bob'', sk_deviceId = ''db'',
     sk_username = ''bob''\<rparr> ''c'' True 5 (demo_world\<lparr>connections := [(''alice'', [''sa''])],
       conversations := [demo_conv\<lparr>cv_status := Cv_Blocked_By_A\<rparr>]\<rparr>)))"
proof -
  let ?w = "demo_world\<lparr>connections := [(''alice'', [''sa''])],
       conversations := [demo_conv\<lparr>cv_status := Cv_Blocked_By_A\<rparr>]\<rparr>"
  let ?d = "\<lparr>sk_userId = ''bob'', sk_deviceId = ''db'', sk_username = ''bob''\<rparr>"
  have "find_conv ''c'' ?w = Some (demo_conv\<lparr>cv_status := Cv_Blocked_By_A\<rparr>)"
    "participant ''bob'' (demo_conv\<lparr>cv_status := Cv_Blocked_By_A\<rparr>)"
    "other_party ''bob'' (demo_conv\<lparr>cv_status := Cv_Blocked_By_A\<rparr>) = ''alice''"
    "fst (allowTyping ''bob'' 5 ?w)" "typing_enabled ''bob'' ?w"
    "sockets_in (connections ?w) ''alice'' = [''sa'']"
    by (simp_all add: find_conv_def participant_def other_party_def allowTyping_def typing_enabled_def
        find_settings_def sockets_in_def demo_defs)
  then show ?thesis
    using relays_ignore_block [where d = ?d and w = ?w and c = "demo_conv\<lparr>cv_status := Cv_Blocked_By_A\<rparr>"
        and cid = "''c''" and x = "''sa''" and t = 5]
    by simp
qed

end
