(* ===== verification/Tokens.thy ===== *)
theory Tokens
  imports Codec Validation
begin

text \<open>
  Signed tokens. The first part is the JSON the tokens carry: \<open>JSON.stringify\<close> on
  the flat objects the server signs, and \<open>JSON.parse\<close>. The second is
  \<open>domain/tokens.ts\<close> (access tokens, refresh tokens and their hashes), the third
  \<open>domain/oauthState.ts\<close> (the state parameter of the OAuth redirects with its
  set of consumed nonces).

  A JSON number is kept exactly, as mantissa and power of ten, where JavaScript
  rounds it to a double; the numbers the server writes are integers below
  \<open>2^53\<close>, which a double holds exactly. An escape above \<open>\u00ff\<close> denotes no
  character of the model's strings and is rejected by the parser here; the
  parser only ever runs on a text whose signature has been checked.
\<close>

section \<open>JSON\<close>

datatype json =
    JNull
  | JBool bool
  | JNum int int
  | JStr string
  | JArr "json list"
  | JObj "(string \<times> json) list"

definition quote_char :: char where
  "quote_char = CHR 0x22"

definition backslash :: char where
  "backslash = CHR 0x5C"

definition json_escape :: "char \<Rightarrow> string" where
  "json_escape c =
     (let n = (of_char c :: nat) in
      if c = quote_char \<or> c = backslash then [backslash, c]
      else if n = 8 then [backslash, CHR ''b'']
      else if n = 9 then [backslash, CHR ''t'']
      else if n = 10 then [backslash, CHR ''n'']
      else if n = 12 then [backslash, CHR ''f'']
      else if n = 13 then [backslash, CHR ''r'']
      else if n < 32 then [backslash, CHR ''u'', CHR ''0'', CHR ''0'', hex_digit (n div 16), hex_digit (n mod 16)]
      else [c])"

definition json_quote :: "string \<Rightarrow> string" where
  "json_quote s = quote_char # concat (map json_escape s) @ [quote_char]"

definition int_text :: "int \<Rightarrow> string" where
  "int_text i = (if i < 0 then CHR ''-'' # decimal (nat (- i)) else decimal (nat i))"

text \<open>\<open>JSON.stringify\<close> of an object whose values have the given texts.\<close>

fun members_text :: "(string \<times> string) list \<Rightarrow> string" where
  "members_text [] = []"
| "members_text [(k, v)] = json_quote k @ '':'' @ v"
| "members_text ((k, v) # m # ms) = json_quote k @ '':'' @ v @ '','' @ members_text (m # ms)"

definition object_text :: "(string \<times> string) list \<Rightarrow> string" where
  "object_text ms = ''{'' @ members_text ms @ ''}''"

definition json_space :: "char \<Rightarrow> bool" where
  "json_space c \<longleftrightarrow> (of_char c :: nat) \<in> {9, 10, 13, 32}"

abbreviation skip_space :: "string \<Rightarrow> string" where
  "skip_space s \<equiv> dropWhile json_space s"

definition with_char :: "char \<Rightarrow> (string \<times> string) option \<Rightarrow> (string \<times> string) option" where
  "with_char c r = map_option (\<lambda>(s, rest). (c # s, rest)) r"

definition hex4 :: "char \<Rightarrow> char \<Rightarrow> char \<Rightarrow> char \<Rightarrow> nat option" where
  "hex4 a b c d =
     (case (hex_value a, hex_value b, hex_value c, hex_value d) of
        (Some p, Some q, Some r, Some s) \<Rightarrow> Some (((p * 16 + q) * 16 + r) * 16 + s)
      | _ \<Rightarrow> None)"

definition simple_escape :: "char \<Rightarrow> char option" where
  "simple_escape e =
     (if e = quote_char \<or> e = backslash \<or> e = CHR ''/'' then Some e
      else if e = CHR ''b'' then Some (char_of (8::nat))
      else if e = CHR ''t'' then Some (char_of (9::nat))
      else if e = CHR ''n'' then Some (char_of (10::nat))
      else if e = CHR ''f'' then Some (char_of (12::nat))
      else if e = CHR ''r'' then Some (char_of (13::nat))
      else None)"

text \<open>The characters of a string literal, after its opening quote.\<close>

fun json_chars :: "string \<Rightarrow> (string \<times> string) option" where
  "json_chars [] = None"
| "json_chars [c] = (if c = quote_char then Some ([], []) else None)"
| "json_chars (c # e # cs) =
     (if c = quote_char then Some ([], e # cs)
      else if c = backslash
      then (if e = CHR ''u''
            then (case cs of
                a # b # d # f # rest \<Rightarrow>
                  (case hex4 a b d f of
                     None \<Rightarrow> None
                   | Some n \<Rightarrow> if n < 256 then with_char (char_of n) (json_chars rest) else None)
              | _ \<Rightarrow> None)
            else (case simple_escape e of None \<Rightarrow> None | Some x \<Rightarrow> with_char x (json_chars cs)))
      else if (of_char c :: nat) < 32 then None
      else with_char c (json_chars (e # cs)))"

definition json_digits :: "string \<Rightarrow> (string \<times> string) option" where
  "json_digits s = (let ds = takeWhile digit s in if ds = [] then None else Some (ds, dropWhile digit s))"

definition json_fraction :: "string \<Rightarrow> (string \<times> string) option" where
  "json_fraction s =
     (case s of c # cs \<Rightarrow> if c = CHR ''.'' then json_digits cs else Some ([], s) | [] \<Rightarrow> Some ([], s))"

definition json_exponent :: "string \<Rightarrow> (int \<times> string) option" where
  "json_exponent s =
     (case s of
        [] \<Rightarrow> Some (0, s)
      | c # cs \<Rightarrow>
          if c = CHR ''e'' \<or> c = CHR ''E''
          then (case cs of
              [] \<Rightarrow> None
            | d # ds \<Rightarrow>
                if d = CHR ''-''
                then map_option (\<lambda>(xs, rest). (- int (digits_value 0 xs), rest)) (json_digits ds)
                else map_option (\<lambda>(xs, rest). (int (digits_value 0 xs), rest))
                       (json_digits (if d = CHR ''+'' then ds else cs)))
          else Some (0, s))"

definition json_number :: "string \<Rightarrow> (json \<times> string) option" where
  "json_number s =
     (let neg = (s \<noteq> [] \<and> hd s = CHR ''-'');
          body = (if neg then List.tl s else s)
      in case json_digits body of
           None \<Rightarrow> None
         | Some (ds, s1) \<Rightarrow>
             if hd ds = CHR ''0'' \<and> length ds > 1 then None
             else case json_fraction s1 of
               None \<Rightarrow> None
             | Some (fs, s2) \<Rightarrow>
                 (case json_exponent s2 of
                    None \<Rightarrow> None
                  | Some (x, s3) \<Rightarrow>
                      let m = int (digits_value 0 (ds @ fs))
                      in Some (JNum (if neg then - m else m) (x - int (length fs)), s3)))"

text \<open>
  A value, the members of an object after its opening brace, and the elements
  of an array after its opening bracket. Each call consumes a character, so
  the length of the text bounds the depth of the calls.
\<close>

fun json_value :: "nat \<Rightarrow> string \<Rightarrow> (json \<times> string) option"
  and json_members :: "nat \<Rightarrow> string \<Rightarrow> ((string \<times> json) list \<times> string) option"
  and json_elements :: "nat \<Rightarrow> string \<Rightarrow> (json list \<times> string) option" where
  "json_value 0 s = None"
| "json_value (Suc n) s =
     (case skip_space s of
        [] \<Rightarrow> None
      | c # cs \<Rightarrow>
          if c = CHR ''{''
          then (case skip_space cs of
              [] \<Rightarrow> None
            | d # ds \<Rightarrow>
                if d = CHR ''}'' then Some (JObj [], ds)
                else map_option (\<lambda>(ms, rest). (JObj ms, rest)) (json_members n (d # ds)))
          else if c = CHR ''[''
          then (case skip_space cs of
              [] \<Rightarrow> None
            | d # ds \<Rightarrow>
                if d = CHR '']'' then Some (JArr [], ds)
                else map_option (\<lambda>(xs, rest). (JArr xs, rest)) (json_elements n (d # ds)))
          else if c = quote_char
          then map_option (\<lambda>(t, rest). (JStr t, rest)) (json_chars cs)
          else if starts_with ''true'' (c # cs) then Some (JBool True, drop 4 (c # cs))
          else if starts_with ''false'' (c # cs) then Some (JBool False, drop 5 (c # cs))
          else if starts_with ''null'' (c # cs) then Some (JNull, drop 4 (c # cs))
          else json_number (c # cs))"
| "json_members 0 s = None"
| "json_members (Suc n) s =
     (case skip_space s of
        [] \<Rightarrow> None
      | c # cs \<Rightarrow>
          if c \<noteq> quote_char then None
          else case json_chars cs of
            None \<Rightarrow> None
          | Some (k, s1) \<Rightarrow>
              (case skip_space s1 of
                 [] \<Rightarrow> None
               | d # ds \<Rightarrow>
                   if d \<noteq> CHR '':'' then None
                   else case json_value n ds of
                     None \<Rightarrow> None
                   | Some (v, s2) \<Rightarrow>
                       (case skip_space s2 of
                          [] \<Rightarrow> None
                        | x # xs \<Rightarrow>
                            if x = CHR ''}'' then Some ([(k, v)], xs)
                            else if x = CHR '',''
                            then map_option (\<lambda>(ms, rest). ((k, v) # ms, rest)) (json_members n xs)
                            else None)))"
| "json_elements 0 s = None"
| "json_elements (Suc n) s =
     (case json_value n s of
        None \<Rightarrow> None
      | Some (v, s2) \<Rightarrow>
          (case skip_space s2 of
             [] \<Rightarrow> None
           | x # xs \<Rightarrow>
               if x = CHR '']'' then Some ([v], xs)
               else if x = CHR '',''
               then map_option (\<lambda>(vs, rest). (v # vs, rest)) (json_elements n xs)
               else None))"

definition json_parse :: "string \<Rightarrow> json option" where
  "json_parse s =
     (case json_value (2 * length s + 2) s of
        None \<Rightarrow> None
      | Some (v, rest) \<Rightarrow> if skip_space rest = [] then Some v else None)"

text \<open>Property access: the last of several equal keys counts; \<open>None\<close> is \<open>undefined\<close>.\<close>

definition json_field :: "string \<Rightarrow> json \<Rightarrow> json option" where
  "json_field k v = (case v of JObj ms \<Rightarrow> map_of (rev ms) k | _ \<Rightarrow> None)"

definition truthy :: "json option \<Rightarrow> bool" where
  "truthy v =
     (case v of
        None \<Rightarrow> False
      | Some JNull \<Rightarrow> False
      | Some (JBool b) \<Rightarrow> b
      | Some (JNum m e) \<Rightarrow> m \<noteq> 0
      | Some (JStr s) \<Rightarrow> s \<noteq> []
      | Some _ \<Rightarrow> True)"

text \<open>\<open>a >= m * 10^e\<close> and \<open>a > m * 10^e\<close> for an integer \<open>a\<close>.\<close>

definition num_le :: "int \<Rightarrow> int \<Rightarrow> int \<Rightarrow> bool" where
  "num_le m e a \<longleftrightarrow> (if e \<ge> 0 then m * 10 ^ nat e \<le> a else m \<le> a * 10 ^ nat (- e))"

definition num_less :: "int \<Rightarrow> int \<Rightarrow> int \<Rightarrow> bool" where
  "num_less m e a \<longleftrightarrow> (if e \<ge> 0 then m * 10 ^ nat e < a else m < a * 10 ^ nat (- e))"


section \<open>Facts about the parser\<close>

named_theorems consumed

lemma map_option_pair_Some:
  "map_option (\<lambda>(a, r). (f a, r)) p = Some (b, rest) \<longleftrightarrow> (\<exists>a. p = Some (a, rest) \<and> b = f a)"
  by (cases p) auto

lemma with_char_Some: "with_char c r = Some (s, rest) \<longleftrightarrow> (\<exists>t. r = Some (t, rest) \<and> s = c # t)"
  by (cases r) (auto simp: with_char_def)

lemma length_skip_space: "skip_space s = c # cs \<Longrightarrow> length cs < length s"
  using length_dropWhile_le [of json_space s] by simp

lemma json_chars_consumed [consumed]: "json_chars s = Some (t, rest) \<Longrightarrow> length rest < length s"
proof (induction s arbitrary: t rest rule: json_chars.induct)
  case (3 c e cs)
  show ?case
    using 3(4) 3(1) 3(2) 3(3)
    by (auto simp: with_char_Some split: if_splits list.splits option.splits)
      (fastforce dest: less_SucI less_trans_Suc)+
qed (auto split: if_splits)

lemma json_digits_Some:
  "json_digits s = Some (ds, rest) \<Longrightarrow> ds \<noteq> [] \<and> s = ds @ rest"
  by (auto simp: json_digits_def Let_def split: if_splits)

lemma json_digits_length: "json_digits s = Some (ds, rest) \<Longrightarrow> length rest < length s"
  using json_digits_Some [of s ds rest] by (cases ds) auto

lemma json_number_consumed [consumed]: "json_number s = Some (v, rest) \<Longrightarrow> length rest < length s"
proof -
  have frac: "length r \<le> length t" if "json_fraction t = Some (fs, r)" for t fs r
    using that by (auto simp: json_fraction_def split: list.splits if_splits dest!: json_digits_Some)
  have expo: "length r \<le> length t" if "json_exponent t = Some (x, r)" for t x r
    using that
    by (auto simp: json_exponent_def split: list.splits if_splits dest!: json_digits_length)
  assume "json_number s = Some (v, rest)"
  then obtain ds s1 fs s2 x where
    d: "json_digits (if s \<noteq> [] \<and> hd s = CHR ''-'' then List.tl s else s) = Some (ds, s1)"
    and f: "json_fraction s1 = Some (fs, s2)" and e: "json_exponent s2 = Some (x, rest)"
    by (auto simp: json_number_def Let_def split: option.splits if_splits)
  define body where "body = (if s \<noteq> [] \<and> hd s = CHR ''-'' then List.tl s else s)"
  have b: "length body \<le> length s" by (simp add: body_def)
  note d = d [folded body_def]
  from json_digits_Some [OF d] have "length s1 < length body" by (cases ds) auto
  with b frac [OF f] expo [OF e] show ?thesis by linarith
qed

lemma json_consumed:
  "json_value n s = Some (v, rest) \<Longrightarrow> length rest < length s"
  "json_members n s = Some (ms, rest) \<Longrightarrow> length rest < length s"
  "json_elements n s = Some (vs, rest) \<Longrightarrow> length rest < length s"
proof (induction n s and n s and n s arbitrary: v rest and ms rest and vs rest
    rule: json_value_json_members_json_elements.induct)
  case (2 n s)
  from 2(3) obtain c cs where s: "skip_space s = c # cs"
    by (auto split: list.splits)
  note cs = length_skip_space [OF s]
  have c: "length (c # cs) \<le> length s" using cs by simp
  show ?case
  proof (cases "c = CHR ''{'' \<or> c = CHR ''[''")
    case True
    show ?thesis
    proof (cases "skip_space cs")
      case Nil
      have "json_value (Suc n) s = None" using True by (simp only: json_value.simps s Nil list.case) auto
      then show ?thesis using 2(3) by simp
    next
      case (Cons d ds)
      show ?thesis
        using 2(1) [OF s _ Cons] 2(2) [OF s _ _ Cons] 2(3) s True Cons cs length_skip_space [OF Cons]
        by (auto simp: map_option_pair_Some split: if_splits)
    qed
  next
    case False
    then show ?thesis using 2(3) s cs
      by (auto simp: map_option_pair_Some split: if_splits dest!: consumed)
  qed
next
  case (4 n s)
  from 4(3) obtain cs k s1 ds v s2 x xs where s: "skip_space s = quote_char # cs"
    and k: "json_chars cs = Some (k, s1)" and s1: "skip_space s1 = CHR '':'' # ds"
    and v: "json_value n ds = Some (v, s2)" and s2: "skip_space s2 = x # xs"
    and x: "x = CHR ''}'' \<and> rest = xs \<or> x = CHR '','' \<and> (\<exists>ms. json_members n xs = Some (ms, rest))"
    by (auto simp: map_option_pair_Some split: list.splits if_splits option.splits)
  note l = length_skip_space [OF s] length_skip_space [OF s1] length_skip_space [OF s2]
    json_chars_consumed [OF k]
  have "length s2 < length ds" using 4(1) [OF s _ k _ s1 _ v] by simp
  moreover have "length rest \<le> length xs"
    using x 4(2) [OF s _ k refl s1 _ v refl s2] by auto
  ultimately show ?case using l by linarith
next
  case (6 n s)
  from 6(3) obtain v s2 x xs where v: "json_value n s = Some (v, s2)" and s2: "skip_space s2 = x # xs"
    and x: "x = CHR '']'' \<and> rest = xs \<or> x = CHR '','' \<and> (\<exists>vs. json_elements n xs = Some (vs, rest))"
    by (auto simp: map_option_pair_Some split: list.splits if_splits option.splits)
  have "length s2 < length s" using 6(1) [OF v] by simp
  moreover have "length rest \<le> length xs" using x 6(2) [OF v refl s2] by auto
  ultimately show ?case using length_skip_space [OF s2] by linarith
qed simp_all

text \<open>The fuel of \<open>json_parse\<close> is enough: more of it gives the same result.\<close>

lemma json_fuel_step:
  "2 * length s + 2 \<le> n \<Longrightarrow> json_value (Suc n) s = json_value n s"
  "2 * length s + 3 \<le> n \<Longrightarrow> json_members (Suc n) s = json_members n s"
  "2 * length s + 3 \<le> n \<Longrightarrow> json_elements (Suc n) s = json_elements n s"
proof (induction n s and n s and n s rule: json_value_json_members_json_elements.induct)
  case (2 n s)
  show ?case
  proof (cases "skip_space s")
    case (Cons c cs)
    note s = Cons
    show ?thesis
    proof (cases "c = CHR ''{'' \<or> c = CHR ''[''")
      case False
      then show ?thesis by (simp only: json_value.simps s list.case) simp
    next
      case True
      show ?thesis
      proof (cases "skip_space cs")
        case (Cons d ds)
        have "2 * length (d # ds) + 3 \<le> n"
          using 2(3) length_skip_space [OF s] length_skip_space [OF Cons] by simp
        then show ?thesis using True 2(1) [OF s _ Cons] 2(2) [OF s _ _ Cons]
          by (simp only: json_value.simps s Cons list.case) (auto split: if_splits)
      next
        case Nil
        show ?thesis by (simp only: json_value.simps s Nil list.case)
      qed
    qed
  qed (simp only: json_value.simps list.case)
next
  case (4 n s)
  note step = json_members.simps(2) [of n s] json_members.simps(2) [of "Suc n" s]
  show ?case
  proof (cases "skip_space s")
    case (Cons c cs)
    note s = Cons
    show ?thesis
    proof (cases "c = quote_char \<and> json_chars cs \<noteq> None")
      case True
      then obtain k s1 where k: "json_chars cs = Some (k, s1)" by force
      have k': "\<not> c \<noteq> quote_char" using True by simp
      show ?thesis
      proof (cases "skip_space s1")
        case (Cons d ds)
        note s1 = Cons
        have l: "2 * length ds + 2 < n"
          using 4(3) length_skip_space [OF s] length_skip_space [OF s1] json_chars_consumed [OF k] by simp
        show ?thesis
        proof (cases "d = CHR '':'' \<and> json_value n ds \<noteq> None")
          case True
          then obtain v s2 where v: "json_value n ds = Some (v, s2)" and d: "\<not> d \<noteq> CHR '':''" by force
          have v': "json_value (Suc n) ds = Some (v, s2)"
            using 4(1) [OF s k' k refl s1 d] l v by simp
          show ?thesis
          proof (cases "skip_space s2")
            case (Cons x xs)
            have "2 * length xs + 3 \<le> n"
              using l length_skip_space [OF Cons] json_consumed(1) [OF v] by simp
            then have "x = CHR '','' \<Longrightarrow> json_members (Suc n) xs = json_members n xs"
              using 4(2) [OF s k' k refl s1 d v refl Cons] by simp
            then show ?thesis using True k'
              by (simp only: step s k s1 v v' Cons list.case option.case prod.case) auto
          qed (use True k' in \<open>simp only: step s k s1 v v' list.case option.case prod.case\<close>)
        next
          case False
          show ?thesis
          proof (cases "d = CHR '':''")
            case True
            then have v: "json_value n ds = None" using False by (cases "json_value n ds") auto
            moreover have "json_value (Suc n) ds = None"
              using 4(1) [OF s k' k refl s1] True l v by simp
            ultimately show ?thesis
              by (simp only: step s k s1 list.case option.case prod.case)
          qed (use k' in \<open>simp only: step s k s1 list.case option.case prod.case\<close>, auto)
        qed
      qed (simp only: step s k list.case option.case prod.case)
    next
      case False
      then show ?thesis by (cases "json_chars cs") (auto simp: step s simp del: json_members.simps)
    qed
  qed (simp only: step list.case)
next
  case (6 n s)
  note step = json_elements.simps(2) [of n s] json_elements.simps(2) [of "Suc n" s]
  show ?case
  proof (cases "json_value n s")
    case None
    moreover have "json_value (Suc n) s = None" using 6(1, 3) None by simp
    ultimately show ?thesis by (simp only: step option.case)
  next
    case (Some p)
    then obtain v s2 where v: "json_value n s = Some (v, s2)" by (cases p) simp
    have v': "json_value (Suc n) s = Some (v, s2)" using 6(1, 3) v by simp
    show ?thesis
    proof (cases "skip_space s2")
      case (Cons x xs)
      have "2 * length xs + 3 \<le> n"
        using 6(3) length_skip_space [OF Cons] json_consumed(1) [OF v] by simp
      then have "x = CHR '','' \<Longrightarrow> json_elements (Suc n) xs = json_elements n xs"
        using 6(2) [OF v refl Cons] by simp
      then show ?thesis by (simp only: step v v' Cons list.case option.case prod.case) auto
    qed (simp only: step v v' list.case option.case prod.case)
  qed
qed simp_all

lemma json_fuel_more: "2 * length s + 2 \<le> n \<Longrightarrow> json_value n s = json_value (2 * length s + 2) s"
proof (induction n)
  case (Suc n)
  then show ?case using json_fuel_step(1) [of s n] by (cases "2 * length s + 2 = Suc n") auto
qed simp

declare json_value.simps [simp del] json_members.simps [simp del] json_elements.simps [simp del]

section \<open>Reading back what was written\<close>

lemma quote_not_space: "\<not> json_space quote_char" "quote_char \<noteq> CHR ''{''" "quote_char \<noteq> CHR ''[''"
  by (simp_all add: json_space_def quote_char_def)

lemma skip_space_hd: "\<not> json_space c \<Longrightarrow> skip_space (c # cs) = c # cs"
  by simp

lemma json_chars_plain:
  "c \<noteq> quote_char \<Longrightarrow> c \<noteq> backslash \<Longrightarrow> \<not> (of_char c :: nat) < 32 \<Longrightarrow>
     json_chars (c # t) = with_char c (json_chars t)"
  by (cases t) (auto simp: with_char_def)

lemma json_chars_end: "json_chars (quote_char # t) = Some ([], t)"
  by (cases t) simp_all

lemma char_of_of_char: "(of_char c :: nat) = n \<Longrightarrow> char_of n = c"
  by auto

lemma hex4_low: "n < 32 \<Longrightarrow> hex4 (CHR ''0'') (CHR ''0'') (hex_digit (n div 16)) (hex_digit (n mod 16)) = Some n"
proof -
  have z: "hex_value (CHR ''0'') = Some 0" by (simp add: hex_value_def)
  assume "n < 32"
  then have "n div 16 < 16" by simp
  then show ?thesis by (simp add: hex4_def z hex_value_digit)
qed

lemma json_chars_escape:
  "json_chars (json_escape c @ t) = with_char c (json_chars t)"
proof -
  let ?n = "of_char c :: nat"
  have bq: "backslash \<noteq> quote_char" by (simp add: backslash_def quote_char_def)
  have ne: "CHR ''b'' \<noteq> quote_char" "CHR ''b'' \<noteq> backslash" "CHR ''t'' \<noteq> quote_char" "CHR ''t'' \<noteq> backslash"
    "CHR ''n'' \<noteq> quote_char" "CHR ''n'' \<noteq> backslash" "CHR ''f'' \<noteq> quote_char" "CHR ''f'' \<noteq> backslash"
    "CHR ''r'' \<noteq> quote_char" "CHR ''r'' \<noteq> backslash" "CHR ''u'' \<noteq> quote_char" "CHR ''u'' \<noteq> backslash"
    by (simp_all add: backslash_def quote_char_def)
  have esc: "json_chars (backslash # e # t) =
      (case simple_escape e of None \<Rightarrow> None | Some x \<Rightarrow> with_char x (json_chars t))" if "e \<noteq> CHR ''u''" for e
    using bq that by simp
  consider "c = quote_char \<or> c = backslash" | "?n = 8" | "?n = 9" | "?n = 10" | "?n = 12" | "?n = 13"
    | "c \<noteq> quote_char" "c \<noteq> backslash" "?n < 32" "?n \<notin> {8, 9, 10, 12, 13}"
    | "c \<noteq> quote_char" "c \<noteq> backslash" "\<not> ?n < 32" by auto
  then show ?thesis
  proof cases
    case 1
    then have "c \<noteq> CHR ''u''" using ne by auto
    then show ?thesis using 1 esc [of c] by (auto simp: json_escape_def simple_escape_def Let_def)
  next
    case 7
    have "char_of ?n = c" by simp
    then show ?thesis using 7 bq ne hex4_low [of ?n] by (simp add: json_escape_def Let_def)
  next
    case 8
    then show ?thesis using json_chars_plain [of c t] by (auto simp: json_escape_def Let_def)
  qed (use esc ne char_of_of_char [of c] in
    \<open>force simp: json_escape_def simple_escape_def Let_def quote_char_def backslash_def\<close>)+
qed

lemma json_chars_quoted:
  "json_chars (concat (map json_escape s) @ quote_char # t) = Some (s, t)"
  by (induction s) (simp_all add: json_chars_end json_chars_escape with_char_def)

text \<open>A text that reads as a value wherever a member of an object ends.\<close>

definition reads_as :: "string \<Rightarrow> json \<Rightarrow> bool" where
  "reads_as t v \<longleftrightarrow>
     (\<forall>n rest. n > 0 \<and> rest \<noteq> [] \<and> hd rest \<in> {CHR '','', CHR ''}''} \<longrightarrow>
        json_value n (t @ rest) = Some (v, rest))"

lemma reads_as_quote: "reads_as (json_quote s) (JStr s)"
  unfolding reads_as_def
proof (intro allI impI)
  fix n :: nat and rest :: string
  assume "n > 0 \<and> rest \<noteq> [] \<and> hd rest \<in> {CHR '','', CHR ''}''}"
  then show "json_value n (json_quote s @ rest) = Some (JStr s, rest)"
    using json_chars_quoted [of s rest] quote_not_space
    by (cases n) (simp_all add: json_quote_def json_value.simps)
qed

lemma takeWhile_digits:
  "list_all digit ds \<Longrightarrow> rest = [] \<or> \<not> digit (hd rest) \<Longrightarrow>
     takeWhile digit (ds @ rest) = ds \<and> dropWhile digit (ds @ rest) = rest"
  by (induction ds) (cases rest; simp)+

lemma decimal_no_leading_zero: "hd (decimal n) = CHR ''0'' \<Longrightarrow> length (decimal n) = 1"
proof (induction n rule: decimal.induct)
  case (1 n)
  show ?case
  proof (cases "n < 10")
    case True
    then show ?thesis by (subst decimal.simps) simp
  next
    case False
    then have d: "decimal n = decimal (n div 10) @ [char_of (n mod 10 + 48)]" by (subst decimal.simps) simp
    have ne: "decimal (n div 10) \<noteq> []" using decimal_digits by simp
    then have "length (decimal (n div 10)) = 1" and h: "hd (decimal (n div 10)) = CHR ''0''"
      using 1 False d by auto
    then have "decimal (n div 10) = [CHR ''0'']" by (cases "decimal (n div 10)") auto
    then have "digits_value 0 (decimal (n div 10)) = 0" by (simp add: digit_def in_range_def)
    then show ?thesis using False by (simp only: digits_value_decimal)
  qed
qed

lemma json_number_decimal:
  assumes "rest \<noteq> []" and "hd rest \<in> {CHR '','', CHR ''}''}"
  shows "json_number (decimal n @ rest) = Some (JNum (int n) 0, rest) \<and>
    json_number (CHR ''-'' # decimal n @ rest) = Some (JNum (- int n) 0, rest)"
proof -
  obtain c cs where r: "rest = c # cs" using assms(1) by (cases rest) auto
  then have c: "c = CHR '','' \<or> c = CHR ''}''" using assms(2) by simp
  then have nd: "\<not> digit c" by (auto simp: digit_def in_range_def)
  obtain d ds where d: "decimal n = d # ds" and dd: "digit d" using decimal_digits [of n] by (cases "decimal n") auto
  have "json_digits (decimal n @ rest) = Some (decimal n, rest)"
    using takeWhile_digits [of "decimal n" rest] decimal_digits [of n] nd r
    by (simp add: json_digits_def Let_def)
  moreover have "\<not> (hd (decimal n) = CHR ''0'' \<and> length (decimal n) > 1)"
    using decimal_no_leading_zero [of n] by auto
  moreover have "hd (decimal n @ rest) \<noteq> CHR ''-''" using d dd digit_facts [of d] by simp
  moreover have "json_fraction rest = Some ([], rest)" using r c by (auto simp: json_fraction_def)
  moreover have "json_exponent rest = Some (0, rest)" using r c by (auto simp: json_exponent_def)
  ultimately show ?thesis by (simp add: json_number_def digits_value_decimal)
qed

lemma reads_as_number: "reads_as (int_text i) (JNum i 0)"
  unfolding reads_as_def
proof (intro allI impI)
  fix k :: nat and rest :: string
  assume a: "k > 0 \<and> rest \<noteq> [] \<and> hd rest \<in> {CHR '','', CHR ''}''}"
  define n where "n = nat \<bar>i\<bar>"
  have i: "int_text i = (if i < 0 then CHR ''-'' # decimal n else decimal n)"
    "i = (if i < 0 then - int n else int n)" by (auto simp: n_def int_text_def)
  obtain d ds where d: "decimal n = d # ds" and dd: "digit d" using decimal_digits [of n] by (cases "decimal n") auto
  have ne: "\<not> json_space d" "d \<noteq> CHR ''{''" "d \<noteq> CHR ''[''" "d \<noteq> quote_char" "d \<noteq> CHR ''t''"
    "d \<noteq> CHR ''f''" "d \<noteq> CHR ''n''"
    using dd by (auto simp: digit_def in_range_def json_space_def quote_char_def)
  obtain j where "k = Suc j" using a by (cases k) auto
  then show "json_value k (int_text i @ rest) = Some (JNum i 0, rest)"
    using ne json_number_decimal [of rest n] a d i
    by (cases "i < 0") (auto simp: json_value.simps starts_with_def json_space_def quote_char_def)
qed

lemma json_members_text:
  assumes "ms \<noteq> []" and "length ms \<le> n" and "\<And>k t v. (k, t, v) \<in> set ms \<Longrightarrow> reads_as t v"
  shows "json_members (Suc n) (members_text (map (\<lambda>(k, t, v). (k, t)) ms) @ ''}'' @ rest) =
    Some (map (\<lambda>(k, t, v). (k, v)) ms, rest)"
  using assms
proof (induction ms arbitrary: n)
  case (Cons m ms)
  obtain k t v where m: "m = (k, t, v)" by (cases m) auto
  have tv: "reads_as t v" using Cons(4) m by auto
  obtain j where n: "n = Suc j" using Cons(3) by (cases n) auto
  have colon: "\<not> json_space (CHR '':'')" "\<not> json_space (CHR '','')" "\<not> json_space (CHR ''}'')"
    by (simp_all add: json_space_def)
  note key = json_chars_quoted [of k]
  have r: "\<And>k t v. (k, t, v) \<in> set ms \<Longrightarrow> reads_as t v" using Cons.prems(3) by auto
  show ?case
  proof (cases ms)
    case Nil
    have "json_value n (t @ ''}'' @ rest) = Some (v, ''}'' @ rest)"
      using tv n by (simp add: reads_as_def)
    then show ?thesis
      using Nil m key quote_not_space colon by (simp add: json_members.simps json_quote_def)
  next
    case (Cons m' ms')
    have "json_value n (t @ '','' @ members_text (map (\<lambda>(k, t, v). (k, t)) ms) @ ''}'' @ rest) =
        Some (v, '','' @ members_text (map (\<lambda>(k, t, v). (k, t)) ms) @ ''}'' @ rest)"
      using tv n by (simp add: reads_as_def)
    moreover have "json_members n (members_text (map (\<lambda>(k, t, v). (k, t)) ms) @ ''}'' @ rest) =
        Some (map (\<lambda>(k, t, v). (k, v)) ms, rest)"
      using Cons.IH [where n = j, OF _ _ r] Cons.prems(2) n Cons by simp
    ultimately show ?thesis
      using m key quote_not_space colon Cons
      by (cases m') (simp add: json_members.simps(2) [of n] json_quote_def)
  qed
qed simp

lemma json_parse_object:
  assumes "ms \<noteq> []" and "length ms \<le> length (object_text (map (\<lambda>(k, t, v). (k, t)) ms))"
    and "\<And>k t v. (k, t, v) \<in> set ms \<Longrightarrow> reads_as t v"
  shows "json_parse (object_text (map (\<lambda>(k, t, v). (k, t)) ms)) = Some (JObj (map (\<lambda>(k, t, v). (k, v)) ms))"
proof -
  let ?t = "members_text (map (\<lambda>(k, t, v). (k, t)) ms)"
  obtain c cs where c: "?t = c # cs" "c = quote_char"
    using assms(1) by (cases ms rule: remdups_adj.cases) (auto simp: json_quote_def)
  let ?s = "object_text (map (\<lambda>(k, t, v). (k, t)) ms)"
  have "json_members (2 * length ?s + 1) (?t @ ''}'' @ []) = Some (map (\<lambda>(k, t, v). (k, v)) ms, [])"
    using json_members_text [where n = "2 * length ?s" and rest = "[]", OF assms(1) _ assms(3)] assms(2) by simp
  moreover have "\<not> json_space (CHR ''{'')" "quote_char \<noteq> CHR ''}''" by (simp_all add: json_space_def quote_char_def)
  ultimately show ?thesis
    using c quote_not_space by (simp add: json_parse_def object_text_def json_value.simps)
qed

section \<open>tokens.ts\<close>

text \<open>\<open>toString('base64url')\<close>: the URL-safe alphabet, without padding.\<close>

definition b64url :: "bytes \<Rightarrow> string" where
  "b64url bs =
     map (\<lambda>c. if c = CHR ''+'' then CHR ''-'' else if c = CHR ''/'' then CHR ''_'' else c)
       (filter (\<lambda>c. c \<noteq> CHR ''='') (b64_encode bs))"

record token_payload =
  tp_userId :: ident
  tp_deviceId :: ident
  tp_exp :: int

definition payload_text :: "ident \<Rightarrow> ident \<Rightarrow> int \<Rightarrow> string" where
  "payload_text userId deviceId expiry =
     object_text [(''userId'', json_quote userId), (''deviceId'', json_quote deviceId),
                  (''exp'', int_text expiry)]"

definition issueAccessToken :: "crypto \<Rightarrow> ident \<Rightarrow> ident \<Rightarrow> string \<Rightarrow> int \<Rightarrow> instant \<Rightarrow> string" where
  "issueAccessToken C userId deviceId secret ttlSeconds now =
     (let body = b64url (payload_text userId deviceId (now div 1000 + ttlSeconds))
      in body @ ''.'' @ b64url (hmac_sha256 C secret body))"

text \<open>
  A token is accepted only when it has two parts, the second is the MAC of the
  first, and the first is a JSON object with a numeric expiry in the future and
  string ids. The expiry of an issued token is an integer; any other accepted
  number is kept by its integer part, which no caller reads.
\<close>

definition verifyAccessToken :: "crypto \<Rightarrow> string \<Rightarrow> string \<Rightarrow> instant \<Rightarrow> token_payload option" where
  "verifyAccessToken C token secret now =
     (case split_on (CHR ''.'') token of
        [body, signature] \<Rightarrow>
          let sigBuf = b64_decode signature; expectedBuf = hmac_sha256 C secret body
          in if length sigBuf \<noteq> length expectedBuf \<or> sigBuf \<noteq> expectedBuf then None
             else (case json_parse (b64_decode body) of
                 None \<Rightarrow> None
               | Some payload \<Rightarrow>
                   (case json_field ''exp'' payload of
                      Some (JNum m e) \<Rightarrow>
                        if num_le (m * 1000) e now then None
                        else (case (json_field ''userId'' payload, json_field ''deviceId'' payload) of
                            (Some (JStr u), Some (JStr d)) \<Rightarrow>
                              Some \<lparr>tp_userId = u, tp_deviceId = d,
                                    tp_exp = (if e \<ge> 0 then m * 10 ^ nat e else m div 10 ^ nat (- e))\<rparr>
                          | _ \<Rightarrow> None)
                    | _ \<Rightarrow> None))
      | _ \<Rightarrow> None)"

text \<open>\<open>randomBytes(32)\<close> is an argument.\<close>

definition generateRefreshToken :: "bytes \<Rightarrow> string" where
  "generateRefreshToken random = b64url random"

definition hashRefreshToken :: "crypto \<Rightarrow> string \<Rightarrow> string" where
  "hashRefreshToken C token = b64_encode (sha256 C token)"

definition hashIp :: "crypto \<Rightarrow> string \<Rightarrow> string" where
  "hashIp C ip = b64_encode (sha256 C ip)"

section \<open>oauthState.ts\<close>

definition state_ttl_ms :: int where
  "state_ttl_ms = 10 * 60 * 1000"

definition state_text :: "string \<Rightarrow> int \<Rightarrow> string \<Rightarrow> string" where
  "state_text userId expiry nonce =
     object_text [(''userId'', json_quote userId), (''exp'', int_text expiry), (''nonce'', json_quote nonce)]"

definition signOAuthState :: "crypto \<Rightarrow> bytes \<Rightarrow> string \<Rightarrow> string \<Rightarrow> int \<Rightarrow> instant \<Rightarrow> string" where
  "signOAuthState C random userId secret ttlMs now =
     (let payloadB64 = b64url (state_text userId (now + ttlMs) (hex_encode random))
      in payloadB64 @ ''.'' @ b64url (hmac_sha256 C secret payloadB64))"

text \<open>
  \<open>Date.now() > payload.exp\<close> for a value that need not be a number: a number is
  compared; \<open>true\<close> counts as 1; a string counts as the number it denotes, and
  any other string, an object or an array as \<open>NaN\<close> or as a number no signed
  state carries, for which the comparison is false.
\<close>

definition past_expiry :: "json option \<Rightarrow> instant \<Rightarrow> bool" where
  "past_expiry v now =
     (case v of
        Some (JNum m e) \<Rightarrow> num_less m e now
      | Some (JBool b) \<Rightarrow> now > (if b then 1 else 0)
      | Some (JStr s) \<Rightarrow> (case js_integer s of Some n \<Rightarrow> now > n | None \<Rightarrow> False)
      | _ \<Rightarrow> False)"

text \<open>The nonces are a JavaScript \<open>Set\<close>; those a signed state carries are strings.\<close>

definition max_consumed_nonces :: nat where
  "max_consumed_nonces = 5000"

definition consume_nonce :: "json \<Rightarrow> json list \<Rightarrow> json list" where
  "consume_nonce nonce consumed =
     (let consumed' = consumed @ [nonce]
      in if length consumed' > max_consumed_nonces then [] else consumed')"

definition verifyOAuthState ::
  "crypto \<Rightarrow> string \<Rightarrow> string \<Rightarrow> instant \<Rightarrow> json list \<Rightarrow> (string + json) \<times> json list" where
  "verifyOAuthState C state secret now consumed =
     (if state = [] then (Inl ''Missing or invalid OAuth state parameter'', consumed)
      else case split_on (CHR ''.'') state of
        [payloadB64, signature] \<Rightarrow>
          if payloadB64 = [] \<or> signature = []
          then (Inl ''Invalid OAuth state parameter format'', consumed)
          else if signature \<noteq> b64url (hmac_sha256 C secret payloadB64)
          then (Inl ''Invalid OAuth state signature'', consumed)
          else (case json_parse (b64_decode payloadB64) of
              None \<Rightarrow> (Inl ''Malformed OAuth state payload'', consumed)
            | Some payload \<Rightarrow>
                (case (json_field ''userId'' payload, json_field ''nonce'' payload) of
                   (Some userId, Some nonce) \<Rightarrow>
                     if \<not> truthy (Some userId) \<or> \<not> truthy (json_field ''exp'' payload) \<or> \<not> truthy (Some nonce)
                     then (Inl ''Incomplete OAuth state payload'', consumed)
                     else if past_expiry (json_field ''exp'' payload) now
                     then (Inl ''OAuth state has expired. Please try connecting again.'', consumed)
                     else if nonce \<in> set consumed
                     then (Inl ''OAuth state has already been used'', consumed)
                     else (Inr userId, consume_nonce nonce consumed)
                 | _ \<Rightarrow> (Inl ''Incomplete OAuth state payload'', consumed)))
      | _ \<Rightarrow> (Inl ''Invalid OAuth state parameter format'', consumed))"

section \<open>What the tokens guarantee\<close>

lemma b64url_index: "List.map_filter b64_index (b64url bs) = List.map_filter b64_index (b64_encode bs)"
proof -
  have "List.map_filter b64_index
      (map (\<lambda>c. if c = CHR ''+'' then CHR ''-'' else if c = CHR ''/'' then CHR ''_'' else c)
        (filter (\<lambda>c. c \<noteq> CHR ''='') xs)) = List.map_filter b64_index xs" for xs
    by (induction xs) (auto simp: List.map_filter_def b64_index_def)
  then show ?thesis by (simp only: b64url_def)
qed

lemma b64url_roundtrip [simp]: "b64_decode (b64url bs) = bs"
  using b64_roundtrip [of bs] by (simp only: b64_decode_def b64url_index)

lemma b64url_no_dot: "CHR ''.'' \<notin> set (b64url bs)"
  using b64_encode_chars [of "CHR ''.''" bs] by (auto simp: b64url_def)

lemma split_token: "split_on (CHR ''.'') (b64url a @ ''.'' @ b64url b) = [b64url a, b64url b]"
  using b64url_no_dot by (simp add: split_on_append split_on_absent)

lemma members_text_length: "length ms \<le> length (members_text ms)"
  by (induction ms rule: members_text.induct) (auto simp: json_quote_def)

lemma parse_payload:
  "json_parse (payload_text u d x) = Some (JObj [(''userId'', JStr u), (''deviceId'', JStr d), (''exp'', JNum x 0)])"
proof -
  let ?ms = "[(''userId'', json_quote u, JStr u), (''deviceId'', json_quote d, JStr d),
      (''exp'', int_text x, JNum x 0)]"
  have "reads_as t v" if "(k, t, v) \<in> set ?ms" for k t v
    using that by (auto simp: reads_as_quote reads_as_number)
  then have "json_parse (object_text (map (\<lambda>(k, t, v). (k, t)) ?ms)) =
      Some (JObj (map (\<lambda>(k, t, v). (k, v)) ?ms))"
    by (intro json_parse_object) (auto simp: object_text_def json_quote_def)
  then show ?thesis by (simp add: payload_text_def)
qed

lemma parse_state:
  "json_parse (state_text u x n) = Some (JObj [(''userId'', JStr u), (''exp'', JNum x 0), (''nonce'', JStr n)])"
proof -
  let ?ms = "[(''userId'', json_quote u, JStr u), (''exp'', int_text x, JNum x 0),
      (''nonce'', json_quote n, JStr n)]"
  have "reads_as t v" if "(k, t, v) \<in> set ?ms" for k t v
    using that by (auto simp: reads_as_quote reads_as_number)
  then have "json_parse (object_text (map (\<lambda>(k, t, v). (k, t)) ?ms)) =
      Some (JObj (map (\<lambda>(k, t, v). (k, v)) ?ms))"
    by (intro json_parse_object) (auto simp: object_text_def json_quote_def)
  then show ?thesis by (simp add: state_text_def)
qed

lemma verify_issued:
  "verifyAccessToken C (issueAccessToken C u d secret ttl t) secret now =
     (if now < (t div 1000 + ttl) * 1000
      then Some \<lparr>tp_userId = u, tp_deviceId = d, tp_exp = t div 1000 + ttl\<rparr> else None)"
  using split_token [of "payload_text u d (t div 1000 + ttl)"]
  by (simp add: verifyAccessToken_def issueAccessToken_def Let_def parse_payload json_field_def num_le_def)

text \<open>
  An access token the server issues is accepted under the same secret, with
  exactly the user and device it was issued for, until the second its lifetime
  ends, and never after; this holds for ids with any characters.
\<close>

theorem access_token_roundtrip:
  "verifyAccessToken C (issueAccessToken C u d secret ttl t) secret now =
     (if now < (t div 1000 + ttl) * 1000
      then Some \<lparr>tp_userId = u, tp_deviceId = d, tp_exp = t div 1000 + ttl\<rparr> else None)"
  by (rule verify_issued)

lemma split_two: "split_on c s = [a, b] \<Longrightarrow> s = a @ c # b \<and> c \<notin> set a \<and> c \<notin> set b"
proof (induction s arbitrary: a)
  case (Cons x s)
  have one: "split_on c t = [b] \<Longrightarrow> t = b \<and> c \<notin> set b" for t b
    by (induction t arbitrary: b) (auto split: if_splits list.splits)
  show ?case
  proof (cases "x = c")
    case True
    then show ?thesis using Cons(2) one [of s b] by auto
  next
    case False
    then obtain a' where "split_on c s = [a', b]" "a = x # a'"
      using Cons(2) by (auto split: list.splits)
    then show ?thesis using Cons(1) False by auto
  qed
qed simp

text \<open>
  Only what the holder of the secret signed is accepted: an accepted token is
  a body and a signature separated by one dot, the signature is the MAC of the
  body under the secret, the body is a JSON object naming the user and the
  device, and its expiry is in the future.
\<close>

theorem accepted_token_is_signed:
  assumes "verifyAccessToken C token secret now = Some p"
  shows "\<exists>body signature m e payload. token = body @ ''.'' @ signature \<and>
    b64_decode signature = hmac_sha256 C secret body \<and> json_parse (b64_decode body) = Some payload \<and>
    json_field ''userId'' payload = Some (JStr (tp_userId p)) \<and>
    json_field ''deviceId'' payload = Some (JStr (tp_deviceId p)) \<and>
    json_field ''exp'' payload = Some (JNum m e) \<and> \<not> num_le (m * 1000) e now"
proof -
  from assms obtain body signature where s: "split_on (CHR ''.'') token = [body, signature]"
    by (auto simp: verifyAccessToken_def split: list.splits)
  from assms obtain m e payload where "b64_decode signature = hmac_sha256 C secret body"
    "json_parse (b64_decode body) = Some payload"
    "json_field ''userId'' payload = Some (JStr (tp_userId p))"
    "json_field ''deviceId'' payload = Some (JStr (tp_deviceId p))"
    "json_field ''exp'' payload = Some (JNum m e)" "\<not> num_le (m * 1000) e now"
    by (auto simp: verifyAccessToken_def s Let_def split: option.splits json.splits if_splits)
  moreover have "token = body @ ''.'' @ signature" using split_two [OF s] by simp
  ultimately show ?thesis by blast
qed

text \<open>Witness on an issued token.\<close>

definition echo_crypto :: crypto where
  "echo_crypto = \<lparr>hmac_sha256 = \<lambda>k m. k @ m, sha256 = \<lambda>s. s, gcm_seal = \<lambda>k iv p. (p, replicate 16 (CHR ''0'')),
     gcm_open = \<lambda>k iv c t. if t = replicate 16 (CHR ''0'') then Some c else None,
     scrypt_kdf = \<lambda>pw salt n N r p. Some (take n (pw @ salt @ replicate n (CHR ''x'')))\<rparr>"

lemma accepted_token_is_signed_witness:
  "\<exists>body signature. issueAccessToken echo_crypto ''u'' ''d'' ''k'' 900 0 = body @ ''.'' @ signature \<and>
    b64_decode signature = ''k'' @ body"
proof -
  have "verifyAccessToken echo_crypto (issueAccessToken echo_crypto ''u'' ''d'' ''k'' 900 0) ''k'' 0 =
      Some \<lparr>tp_userId = ''u'', tp_deviceId = ''d'', tp_exp = 900\<rparr>"
    by (simp add: verify_issued)
  from accepted_token_is_signed [OF this] show ?thesis by (auto simp: echo_crypto_def)
qed

lemma b64url_empty: "b64url bs = [] \<Longrightarrow> bs = []"
  using b64url_roundtrip [of bs] by (simp add: b64_decode_def List.map_filter_def)

lemma state_text_url: "b64url (state_text u x n) \<noteq> []"
  using b64url_empty [of "state_text u x n"] by (auto simp: state_text_def object_text_def)

lemma hex_encode_empty [simp]: "hex_encode r = [] \<longleftrightarrow> r = []"
  by (cases r) (simp_all add: Let_def)

lemma verify_signed_state:
  assumes "u \<noteq> []" and "r \<noteq> []" and "hmac_sha256 C secret (b64url (state_text u (t + ttl) (hex_encode r))) \<noteq> []"
    and "t + ttl \<noteq> 0"
  shows "verifyOAuthState C (signOAuthState C r u secret ttl t) secret now consumed =
    (if now > t + ttl then (Inl ''OAuth state has expired. Please try connecting again.'', consumed)
     else if JStr (hex_encode r) \<in> set consumed then (Inl ''OAuth state has already been used'', consumed)
     else (Inr (JStr u), consume_nonce (JStr (hex_encode r)) consumed))"
proof -
  let ?b = "b64url (state_text u (t + ttl) (hex_encode r))"
  have sig: "b64url (hmac_sha256 C secret ?b) \<noteq> []" using assms(3) b64url_empty by blast
  show ?thesis
    using split_token [of "state_text u (t + ttl) (hex_encode r)"] sig state_text_url assms
    by (simp add: verifyOAuthState_def signOAuthState_def Let_def parse_state json_field_def truthy_def
        past_expiry_def num_less_def)
qed

text \<open>
  A state the server signed is accepted once, within its lifetime, and
  returns the text it was signed for; a second presentation is refused for as
  long as the set of consumed nonces is not emptied. Emptying happens when the
  set grows past 5000 nonces, and from then on a state that is still within its
  lifetime is accepted a second time.
\<close>

theorem oauth_state_single_use:
  assumes "u \<noteq> []" and "r \<noteq> []" and "t + ttl \<noteq> 0" and "now \<le> t + ttl" and "now' \<le> t + ttl"
    and mac: "\<And>m. hmac_sha256 C secret m \<noteq> []"
    and fresh: "JStr (hex_encode r) \<notin> set consumed"
  defines "state \<equiv> signOAuthState C r u secret ttl t"
  defines "consumed' \<equiv> snd (verifyOAuthState C state secret now consumed)"
  shows "fst (verifyOAuthState C state secret now consumed) = Inr (JStr u) \<and>
    fst (verifyOAuthState C state secret now' consumed') =
      (if length consumed < 5000 then Inl ''OAuth state has already been used'' else Inr (JStr u))"
  using assms(1-5) mac fresh
  by (simp add: state_def consumed'_def verify_signed_state consume_nonce_def max_consumed_nonces_def Let_def)

lemma oauth_state_single_use_witness:
  "fst (verifyOAuthState echo_crypto (signOAuthState echo_crypto ''r'' ''u'' ''k'' 600000 0) ''k'' 5 []) =
     Inr (JStr ''u'')"
  using oauth_state_single_use [of "''u''" "''r''" 0 600000 5 6 echo_crypto "''k''" "[]"]
  by (simp add: echo_crypto_def)



end
