(* ===== verification/Accounts.thy ===== *)
theory Accounts
  imports Tokens Requests Settings Pairing
begin

text \<open>
  Accounts: registration, the e-mail challenge, user names, passwords and
  account deletion of \<open>auth/auth.service.ts\<close>, with \<open>auth/turnstile.service.ts\<close>,
  \<open>email/email.service.ts\<close> and the verification codes of \<open>domain/email.ts\<close>.
  Logging in and the sessions are in the theory Sessions.

  The random values a handler draws (row ids, salts, codes, tokens) are an
  argument, and so is the answer of Cloudflare's verification service. One
  reading of the clock stands for the readings a handler takes in succession.
  The parameter \<open>interf\<close> is what other requests do between two statements of
  a handler that suspends between them.
\<close>

section \<open>Configuration and draws\<close>

record auth_config =
  ac_accessTokenSecret :: string
  ac_adminEmails :: "string list"
  ac_turnstileSecretKey :: "string option"
  ac_production :: bool
  ac_smtpHost :: "string option"

record draws =
  fr_userId :: ident
  fr_challengeId :: ident
  fr_deviceId :: ident
  fr_prekeyId :: "nat \<Rightarrow> ident"
  fr_sessionId :: ident
  fr_salt :: bytes
  fr_code :: nat
  fr_token :: bytes

record device_dto =
  dd_identityDhPublic :: string
  dd_identitySigningPublic :: string
  dd_signedPrekeyPublic :: string
  dd_signedPrekeySignature :: string
  dd_oneTimePrekeysPublic :: "string list"
  dd_deviceName :: "string option"
  dd_platform :: string

record request_context =
  rc_userAgent :: "string option"
  rc_ip :: "string option"

section \<open>turnstile.service.ts\<close>

datatype siteverify_reply =
    Network_Failure
  | Http_Error
  | Verdict bool "string list"

type_synonym siteverify = "string \<Rightarrow> string \<Rightarrow> string option \<Rightarrow> siteverify_reply"

definition security_unavailable :: string where
  "security_unavailable = ''Security verification unavailable. Please try again in a few moments.''"

definition verifyToken ::
  "auth_config \<Rightarrow> siteverify \<Rightarrow> string option \<Rightarrow> string option \<Rightarrow> http_error option" where
  "verifyToken cfg check token remoteIp =
     (case given (ac_turnstileSecretKey cfg) of
        None \<Rightarrow>
          if \<not> ac_production cfg then None
          else Some (Bad_Request ''Security verification is not configured on this server.'')
      | Some secretKey \<Rightarrow>
          (case token of
             None \<Rightarrow> Some (Bad_Request ''Security verification required. Please complete the challenge.'')
           | Some t \<Rightarrow>
               if js_trim t = []
               then Some (Bad_Request ''Security verification required. Please complete the challenge.'')
               else (case check secretKey (js_trim t) (given remoteIp) of
                   Network_Failure \<Rightarrow> Some (Bad_Request security_unavailable)
                 | Http_Error \<Rightarrow> Some (Bad_Request security_unavailable)
                 | Verdict success errorCodes \<Rightarrow>
                     if success then None
                     else if ''timeout-or-duplicate'' \<in> set errorCodes
                     then Some (Bad_Request ''Security verification expired. Please complete the challenge again.'')
                     else Some (Bad_Request ''Security verification failed. Please try again.''))))"

section \<open>email.service.ts and the verification code\<close>

text \<open>
  With an SMTP host configured the service logs and returns; in production
  without one it throws, which the callers catch and log; otherwise it prints
  the code on the console, the only case in which the code leaves the server.
\<close>

definition sendVerificationEmail :: "auth_config \<Rightarrow> string \<Rightarrow> string \<Rightarrow> world \<Rightarrow> world" where
  "sendVerificationEmail cfg toEmail code w =
     (if given (ac_smtpHost cfg) \<noteq> None then w
      else if ac_production cfg then w
      else w\<lparr>outbox := outbox w @ [(toEmail, code)]\<rparr>)"

text \<open>\<open>randomInt(100000, 1000000).toString()\<close>, the draw counted from 0.\<close>

definition generateVerificationCode :: "nat \<Rightarrow> string" where
  "generateVerificationCode draw = decimal (100000 + draw mod 900000)"

definition hashVerificationCode :: "crypto \<Rightarrow> string \<Rightarrow> string" where
  "hashVerificationCode C code = hex_encode (sha256 C (js_trim code))"

definition verifyVerificationCode :: "crypto \<Rightarrow> string \<Rightarrow> string \<Rightarrow> bool" where
  "verifyVerificationCode C inputCode storedHash =
     (let inputBuf = hex_decode (hashVerificationCode C inputCode);
          storedBuf = hex_decode storedHash
      in if length inputBuf \<noteq> length storedBuf then False else inputBuf = storedBuf)"

section \<open>Helpers of auth.service.ts\<close>

definition set_user :: "ident \<Rightarrow> (user_row \<Rightarrow> user_row) \<Rightarrow> world \<Rightarrow> world" where
  "set_user i f w = w\<lparr>users := update_where (\<lambda>u. us_id u = i) f (users w)\<rparr>"

definition find_email :: "string \<Rightarrow> world \<Rightarrow> user_row option" where
  "find_email e w = find (\<lambda>u. us_email u = Some e) (users w)"

definition platform_of :: "string \<Rightarrow> platform" where
  "platform_of p = (if p = ''android'' then Android else Web)"

definition new_prekeys :: "(nat \<Rightarrow> ident) \<Rightarrow> ident \<Rightarrow> string list \<Rightarrow> prekey_row list" where
  "new_prekeys pkId deviceId keys =
     map (\<lambda>(i, k). \<lparr>pk_id = pkId i, pk_deviceId = deviceId, pk_publicKey = k, pk_usedAt = None\<rparr>)
       (enumerate 0 keys)"

definition device_keys_of :: "ident \<Rightarrow> world \<Rightarrow> device_keys list" where
  "device_keys_of userId w =
     map (\<lambda>d. \<lparr>dk_id = dv_id d, dk_identityDhPublic = dv_identityDhPublic d,
               dk_identitySigningPublic = dv_identitySigningPublic d\<rparr>)
       (filter (\<lambda>d. dv_userId d = userId) (devices w))"

definition reactivate :: "instant \<Rightarrow> device_dto \<Rightarrow> device_row \<Rightarrow> device_row" where
  "reactivate now dto d =
     d\<lparr>dv_deviceName := (case dd_deviceName dto of None \<Rightarrow> dv_deviceName d | Some n \<Rightarrow> Some n),
       dv_platform := platform_of (dd_platform dto),
       dv_signedPrekeyPublic := dd_signedPrekeyPublic dto,
       dv_signedPrekeySignature := dd_signedPrekeySignature dto,
       dv_signedPrekeyCreatedAt := now, dv_lastSeenAt := now, dv_revokedAt := None\<rparr>"

definition new_device :: "ident \<Rightarrow> ident \<Rightarrow> instant \<Rightarrow> device_dto \<Rightarrow> device_row" where
  "new_device i userId now dto =
     \<lparr>dv_id = i, dv_userId = userId, dv_identityDhPublic = dd_identityDhPublic dto,
      dv_identitySigningPublic = dd_identitySigningPublic dto,
      dv_signedPrekeyPublic = dd_signedPrekeyPublic dto,
      dv_signedPrekeySignature = dd_signedPrekeySignature dto, dv_lastSeenAt = now,
      dv_revokedAt = None, dv_deviceName = dd_deviceName dto,
      dv_platform = platform_of (dd_platform dto), dv_signedPrekeyCreatedAt = now,
      dv_createdAt = now\<rparr>"

definition findOrCreateDevice ::
  "draws \<Rightarrow> instant \<Rightarrow> ident \<Rightarrow> device_dto \<Rightarrow> world \<Rightarrow> (ident \<times> bool) \<times> world" where
  "findOrCreateDevice fr now userId dto w =
     (case findMatchingDevice (device_keys_of userId w) (dd_identityDhPublic dto)
             (dd_identitySigningPublic dto) of
        Some m \<Rightarrow>
          ((dk_id m, False),
           w\<lparr>devices := update_where (\<lambda>d. dv_id d = dk_id m) (reactivate now dto) (devices w),
             prekeys := prekeys w @ new_prekeys (fr_prekeyId fr) (dk_id m) (dd_oneTimePrekeysPublic dto)\<rparr>)
      | None \<Rightarrow>
          ((fr_deviceId fr, True),
           w\<lparr>devices := devices w @ [new_device (fr_deviceId fr) userId now dto],
             prekeys := prekeys w @
               new_prekeys (fr_prekeyId fr) (fr_deviceId fr) (dd_oneTimePrekeysPublic dto)\<rparr>))"

definition access_token_ttl_seconds :: int where
  "access_token_ttl_seconds = 15 * 60"

definition refresh_token_ttl_ms :: int where
  "refresh_token_ttl_ms = 30 * 24 * 60 * 60 * 1000"

definition issueSession ::
  "crypto \<Rightarrow> auth_config \<Rightarrow> draws \<Rightarrow> instant \<Rightarrow> ident \<Rightarrow> ident \<Rightarrow> request_context \<Rightarrow> world \<Rightarrow>
     (string \<times> string) \<times> world" where
  "issueSession C cfg fr now userId deviceId ctx w =
     (let old = (\<lambda>s. as_userId s = userId \<and> as_deviceId s = deviceId \<and> as_revokedAt s = None);
          revoked = update_where old (\<lambda>s. s\<lparr>as_revokedAt := Some now\<rparr>) (auth_sessions w);
          accessToken = issueAccessToken C userId deviceId (ac_accessTokenSecret cfg)
                          access_token_ttl_seconds now;
          refreshToken = generateRefreshToken (fr_token fr)
      in ((accessToken, refreshToken),
          w\<lparr>auth_sessions := revoked @
              [\<lparr>as_id = fr_sessionId fr, as_userId = userId, as_deviceId = deviceId,
                as_refreshTokenHash = hashRefreshToken C refreshToken,
                as_ipHash = map_option (hashIp C) (given (rc_ip ctx)),
                as_userAgent = map_option (take 500) (rc_userAgent ctx),
                as_createdAt = now, as_expiresAt = now + refresh_token_ttl_ms,
                as_revokedAt = None\<rparr>]\<rparr>))"

text \<open>Registration and both kinds of login end by registering the device and opening a session.\<close>

definition open_session ::
  "crypto \<Rightarrow> auth_config \<Rightarrow> draws \<Rightarrow> instant \<Rightarrow> ident \<Rightarrow> device_dto \<Rightarrow> request_context \<Rightarrow> world \<Rightarrow>
     ((ident \<times> bool) \<times> (string \<times> string)) \<times> world" where
  "open_session C cfg fr now userId dto ctx w =
     (let (device, w1) = findOrCreateDevice fr now userId dto w;
          (tokens, w2) = issueSession C cfg fr now userId (fst device) ctx w1
      in ((device, tokens), w2))"

definition device_label :: "device_dto \<Rightarrow> string" where
  "device_label dto = (case dd_deviceName dto of None \<Rightarrow> '''' | Some n \<Rightarrow> n)"

definition is_admin_email :: "auth_config \<Rightarrow> string \<Rightarrow> bool" where
  "is_admin_email cfg email \<longleftrightarrow> email \<noteq> [] \<and> to_lower email \<in> set (ac_adminEmails cfg)"

definition challenge_lifetime_ms :: int where
  "challenge_lifetime_ms = 15 * 60 * 1000"

text \<open>A challenge: the row, and the e-mail that carries its code.\<close>

definition open_challenge ::
  "crypto \<Rightarrow> auth_config \<Rightarrow> draws \<Rightarrow> instant \<Rightarrow> ident \<Rightarrow> string \<Rightarrow> world \<Rightarrow> world" where
  "open_challenge C cfg fr now userId email w =
     (let code = generateVerificationCode (fr_code fr)
      in sendVerificationEmail cfg email code
           (w\<lparr>email_verifications := email_verifications w @
                [\<lparr>ev_id = fr_challengeId fr, ev_userId = userId, ev_email = email,
                  ev_codeHash = hashVerificationCode C code,
                  ev_expiresAt = now + challenge_lifetime_ms, ev_consumedAt = None, ev_attempts = 0,
                  ev_createdAt = now\<rparr>]\<rparr>))"

text \<open>\<open>updateMany\<close> over the pending challenges of a user.\<close>

definition consume_challenges :: "ident \<Rightarrow> instant \<Rightarrow> world \<Rightarrow> world" where
  "consume_challenges userId now w =
     w\<lparr>email_verifications :=
         update_where (\<lambda>c. ev_userId c = userId \<and> ev_consumedAt c = None)
           (\<lambda>c. c\<lparr>ev_consumedAt := Some now\<rparr>) (email_verifications w)\<rparr>"

section \<open>Registration\<close>

record register_dto =
  re_device :: device_dto
  re_password :: string
  re_username :: string
  re_email :: "string option"
  re_turnstileToken :: "string option"

record register_reply =
  ry_userId :: ident
  ry_username :: string
  ry_email :: "string option"
  ry_role :: user_role
  ry_emailVerified :: bool
  ry_deviceId :: ident
  ry_accessToken :: string
  ry_refreshToken :: string

definition new_user ::
  "ident \<Rightarrow> string \<Rightarrow> string \<Rightarrow> string \<Rightarrow> user_role \<Rightarrow> instant option \<Rightarrow> instant \<Rightarrow> user_row" where
  "new_user i passwordHash username email role verifiedAt now =
     \<lparr>us_id = i, us_username = username, us_displayName = None, us_status = Acct_Active,
      us_passwordHash = passwordHash, us_usernameChangedAt = None, us_email = Some email,
      us_emailVerifiedAt = verifiedAt, us_role = role, us_failedLoginCount = 0,
      us_lockedUntil = None, us_createdAt = now, us_lastLoginAt = None\<rparr>"

text \<open>
  \<open>user.create\<close>: the unique indexes on the user name and on the e-mail are
  checked in the order the migrations created them.
\<close>

definition create_user :: "user_row \<Rightarrow> world \<Rightarrow> unit res" where
  "create_user u w =
     (if find_username (us_username u) w \<noteq> None then fail (Conflict ''That username is already taken'') w
      else if find_email (the (us_email u)) w \<noteq> None
      then fail (Conflict ''That email is already registered'') w
      else ok () (w\<lparr>users := users w @ [u]\<rparr>))"

definition register_account ::
  "crypto \<Rightarrow> auth_config \<Rightarrow> siteverify \<Rightarrow> (world \<Rightarrow> world) \<Rightarrow> draws \<Rightarrow> instant \<Rightarrow> register_dto \<Rightarrow>
     request_context \<Rightarrow> world \<Rightarrow> register_reply res" where
  "register_account C cfg check interf fr now dto ctx w =
     (case verifyToken cfg check (re_turnstileToken dto) (rc_ip ctx) of
        Some e \<Rightarrow> fail e w
      | None \<Rightarrow>
          (case hashPassword C (fr_salt fr) (re_password dto) of
             Inl e \<Rightarrow> fail e w
           | Inr passwordHash \<Rightarrow>
               let username = normalizeUsername (re_username dto) in
               if (case re_email dto of None \<Rightarrow> True | Some e \<Rightarrow> js_trim e = [])
               then fail (Bad_Request ''Email is required for registration'') w
               else let email = normalizeEmail (the (re_email dto));
                        role = (if is_admin_email cfg email then Role_Superadmin else Role_User);
                        user = new_user (fr_userId fr) passwordHash username email role None now
               in (case create_user user (interf w) of
                     (Inl e, w1) \<Rightarrow> fail e w1
                   | (Inr _, w1) \<Rightarrow>
                       (let w2 = open_challenge C cfg fr now (us_id user) email w1;
                            (opened, w3) = open_session C cfg fr now (us_id user) (re_device dto) ctx w2;
                            w4 = log_event (us_id user) Ev_New_Device (device_label (re_device dto)) w3
                        in ok \<lparr>ry_userId = us_id user, ry_username = username, ry_email = Some email,
                               ry_role = role, ry_emailVerified = False, ry_deviceId = fst (fst opened),
                               ry_accessToken = fst (snd opened), ry_refreshToken = snd (snd opened)\<rparr> w4))))"

section \<open>The e-mail challenge\<close>

definition latest_by :: "(verification_row \<Rightarrow> bool) \<Rightarrow> world \<Rightarrow> verification_row option" where
  "latest_by p w = first_by (\<lambda>c. - ev_createdAt c) (filter p (email_verifications w))"

definition set_challenge ::
  "ident \<Rightarrow> (verification_row \<Rightarrow> verification_row) \<Rightarrow> world \<Rightarrow> unit res" where
  "set_challenge i f w =
     (if \<not> list_ex (\<lambda>c. ev_id c = i) (email_verifications w) then fail Record_Missing w
      else ok () (w\<lparr>email_verifications :=
             update_where (\<lambda>c. ev_id c = i) f (email_verifications w)\<rparr>))"

definition verifyEmail ::
  "crypto \<Rightarrow> (world \<Rightarrow> world) \<Rightarrow> instant \<Rightarrow> string \<Rightarrow> string \<Rightarrow> world \<Rightarrow> unit res" where
  "verifyEmail C interf now rawEmail code w =
     (let email = normalizeEmail rawEmail
      in case latest_by (\<lambda>c. ev_email c = email \<and> ev_consumedAt c = None) w of
           None \<Rightarrow> fail (Bad_Request ''Invalid or expired verification code'') w
         | Some challenge \<Rightarrow>
             if ev_expiresAt challenge < now
             then fail (Bad_Request ''Verification code has expired. Please request a new code.'') w
             else if ev_attempts challenge \<ge> 5
             then fail (Bad_Request ''Too many failed attempts. Please request a new code.'') w
             else let w1 = interf w
             in if \<not> verifyVerificationCode C code (ev_codeHash challenge)
             then (case set_challenge (ev_id challenge) (\<lambda>c. c\<lparr>ev_attempts := ev_attempts c + 1\<rparr>) w1 of
                     (Inl e, w2) \<Rightarrow> fail e w2
                   | (Inr _, w2) \<Rightarrow> fail (Bad_Request ''Invalid or expired verification code'') w2)
             else (case set_challenge (ev_id challenge) (\<lambda>c. c\<lparr>ev_consumedAt := Some now\<rparr>) w1 of
                     (Inl e, w2) \<Rightarrow> fail e w1
                   | (Inr _, w2) \<Rightarrow>
                       if find_user (ev_userId challenge) w2 = None then fail Record_Missing w1
                       else ok () (set_user (ev_userId challenge) (\<lambda>u. u\<lparr>us_emailVerifiedAt := Some now\<rparr>) w2)))"

definition resend_cooldown_ms :: int where
  "resend_cooldown_ms = 60000"

definition wait_message :: "int \<Rightarrow> string" where
  "wait_message elapsed =
     ''Please wait '' @ int_text ((resend_cooldown_ms - elapsed + 999) div 1000) @
     '' seconds before requesting another code.''"

definition resendVerification ::
  "crypto \<Rightarrow> auth_config \<Rightarrow> draws \<Rightarrow> instant \<Rightarrow> string \<Rightarrow> world \<Rightarrow> unit res" where
  "resendVerification C cfg fr now rawEmail w =
     (let email = normalizeEmail rawEmail
      in case find_email email w of
           None \<Rightarrow> ok () w
         | Some user \<Rightarrow>
             if us_emailVerifiedAt user \<noteq> None then ok () w
             else (case latest_by (\<lambda>c. ev_userId c = us_id user) w of
                 Some latest \<Rightarrow>
                   if now - ev_createdAt latest < resend_cooldown_ms
                   then fail (Bad_Request (wait_message (now - ev_createdAt latest))) w
                   else ok () (open_challenge C cfg fr now (us_id user) email
                          (consume_challenges (us_id user) now w))
               | None \<Rightarrow> ok () (open_challenge C cfg fr now (us_id user) email
                          (consume_challenges (us_id user) now w))))"

definition addEmail ::
  "crypto \<Rightarrow> auth_config \<Rightarrow> draws \<Rightarrow> instant \<Rightarrow> ident \<Rightarrow> string \<Rightarrow> world \<Rightarrow> string res" where
  "addEmail C cfg fr now userId rawEmail w =
     (let email = normalizeEmail rawEmail
      in if (case find_email email w of None \<Rightarrow> False | Some e \<Rightarrow> us_id e \<noteq> userId)
         then fail (Conflict ''That email is already registered'') w
         else if find_user userId w = None then fail Record_Missing w
         else ok email (open_challenge C cfg fr now userId email
                (consume_challenges userId now
                  (set_user userId (\<lambda>u. u\<lparr>us_email := Some email, us_emailVerifiedAt := None\<rparr>) w))))"

section \<open>User names and passwords\<close>

definition checkUsernameAvailability :: "string \<Rightarrow> world \<Rightarrow> bool" where
  "checkUsernameAvailability rawUsername w \<longleftrightarrow> find_username (normalizeUsername rawUsername) w = None"

definition write_username :: "instant \<Rightarrow> ident \<Rightarrow> string \<Rightarrow> world \<Rightarrow> (string \<times> instant) res" where
  "write_username now userId newUsername w =
     (if find_user userId w = None then fail Record_Missing w
      else if list_ex (\<lambda>u. us_username u = newUsername \<and> us_id u \<noteq> userId) (users w)
      then fail (Conflict ''That username is already taken'') w
      else ok (newUsername, now + username_change_cooldown_ms)
             (set_user userId
               (\<lambda>u. u\<lparr>us_username := newUsername, us_usernameChangedAt := Some now\<rparr>) w))"

definition changeUsername ::
  "(world \<Rightarrow> world) \<Rightarrow> instant \<Rightarrow> ident \<Rightarrow> string \<Rightarrow> world \<Rightarrow> (string \<times> instant) res" where
  "changeUsername interf now userId rawNewUsername w =
     (case find_user userId w of
        None \<Rightarrow> fail (Unauthorized '''') w
      | Some user \<Rightarrow>
          let newUsername = normalizeUsername rawNewUsername
          in if newUsername = us_username user
             then fail (Conflict ''That is already your username.'') w
             else (case nextUsernameChangeAllowedAt (us_usernameChangedAt user) of
                 Some nextAllowed \<Rightarrow>
                   if nextAllowed > now then fail (Cooldown nextAllowed) w
                   else write_username now userId newUsername (interf w)
               | None \<Rightarrow> write_username now userId newUsername (interf w)))"

definition password_matches :: "crypto \<Rightarrow> user_row option \<Rightarrow> string \<Rightarrow> http_error + bool" where
  "password_matches C user password =
     (case user of None \<Rightarrow> Inr False | Some u \<Rightarrow> verifyPassword C password (us_passwordHash u))"

definition changePassword ::
  "crypto \<Rightarrow> bytes \<Rightarrow> ident \<Rightarrow> string \<Rightarrow> string \<Rightarrow> world \<Rightarrow> unit res" where
  "changePassword C salt userId currentPassword newPassword w =
     (case password_matches C (find_user userId w) currentPassword of
        Inl e \<Rightarrow> fail e w
      | Inr matched \<Rightarrow>
          if \<not> matched then fail (Unauthorized ''Current password is incorrect'') w
          else (case hashPassword C salt newPassword of
              Inl e \<Rightarrow> fail e w
            | Inr passwordHash \<Rightarrow>
                ok () (set_user userId (\<lambda>u. u\<lparr>us_passwordHash := passwordHash\<rparr>) w)))"

definition verifyUserPassword :: "crypto \<Rightarrow> ident \<Rightarrow> string \<Rightarrow> world \<Rightarrow> http_error + bool" where
  "verifyUserPassword C userId passwordGuess w =
     (case find_user userId w of
        None \<Rightarrow> Inr False
      | Some user \<Rightarrow>
          if us_passwordHash user = [] then Inr False
          else verifyPassword C passwordGuess (us_passwordHash user))"

record me_reply =
  me_userId :: ident
  me_username :: string
  me_email :: "string option"
  me_emailVerified :: bool
  me_role :: user_role
  me_status :: account_status
  me_nextUsernameChangeAllowedAt :: "instant option"
  me_deviceId :: ident

definition getMe :: "ident \<Rightarrow> ident \<Rightarrow> world \<Rightarrow> http_error + me_reply" where
  "getMe userId deviceId w =
     (case find_user userId w of
        None \<Rightarrow> Inl (Unauthorized ''Account not found or inactive'')
      | Some user \<Rightarrow>
          if us_status user = Acct_Deleted then Inl (Unauthorized ''Account not found or inactive'')
          else Inr \<lparr>me_userId = us_id user, me_username = us_username user, me_email = us_email user,
                    me_emailVerified = (us_emailVerifiedAt user \<noteq> None), me_role = us_role user,
                    me_status = us_status user,
                    me_nextUsernameChangeAllowedAt =
                      nextUsernameChangeAllowedAt (us_usernameChangedAt user),
                    me_deviceId = deviceId\<rparr>)"

section \<open>Account deletion\<close>

text \<open>
  What the foreign keys of the schema remove with a user row: the rows that
  refer to it, and the rows that refer to a removed conversation, message,
  device or room. \<open>usedByUserId\<close> and \<open>reviewedById\<close> are set to null.
\<close>

definition cascade_conversations :: "ident \<Rightarrow> world \<Rightarrow> world" where
  "cascade_conversations userId w =
     (let gone = map cv_id (filter (participant userId) (conversations w));
          gone_messages = map ms_id (filter (\<lambda>m. ms_conversationId m \<in> set gone) (messages w))
      in w\<lparr>conversations := delete_where (participant userId) (conversations w),
           pending_handshakes :=
             delete_where (\<lambda>h. hs_conversationId h \<in> set gone) (pending_handshakes w),
           messages := delete_where (\<lambda>m. ms_conversationId m \<in> set gone) (messages w),
           attachments :=
             delete_where (\<lambda>a. case at_messageId a of None \<Rightarrow> False | Some m \<Rightarrow> m \<in> set gone_messages)
               (attachments w)\<rparr>)"

definition cascade_rooms :: "ident \<Rightarrow> world \<Rightarrow> world" where
  "cascade_rooms userId w =
     (let gone = map rm_id (filter (\<lambda>r. rm_ownerId r = userId) (rooms w))
      in w\<lparr>rooms := delete_where (\<lambda>r. rm_ownerId r = userId) (rooms w),
           room_members :=
             delete_where (\<lambda>m. mb_roomId m \<in> set gone \<or> mb_userId m = userId) (room_members w),
           room_join_requests :=
             update_where (\<lambda>q. jr_reviewedById q = Some userId) (\<lambda>q. q\<lparr>jr_reviewedById := None\<rparr>)
               (delete_where (\<lambda>q. jr_roomId q \<in> set gone \<or> jr_requesterId q = userId)
                 (room_join_requests w)),
           room_messages :=
             delete_where (\<lambda>m. rg_roomId m \<in> set gone \<or> rg_senderId m = userId) (room_messages w),
           room_key_packages :=
             delete_where (\<lambda>k. kp_roomId k \<in> set gone \<or> kp_recipientUserId k = userId \<or>
                               kp_senderUserId k = userId) (room_key_packages w)\<rparr>)"

definition cascade_account :: "ident \<Rightarrow> world \<Rightarrow> world" where
  "cascade_account userId w =
     (let gone = map dv_id (filter (\<lambda>d. dv_userId d = userId) (devices w))
      in w\<lparr>users := delete_where (\<lambda>u. us_id u = userId) (users w),
           devices := delete_where (\<lambda>d. dv_userId d = userId) (devices w),
           prekeys := delete_where (\<lambda>k. pk_deviceId k \<in> set gone) (prekeys w),
           auth_sessions :=
             delete_where (\<lambda>s. as_userId s = userId \<or> as_deviceId s \<in> set gone) (auth_sessions w),
           pairing_codes :=
             update_where (\<lambda>c. pc_usedByUserId c = Some userId) (\<lambda>c. c\<lparr>pc_usedByUserId := None\<rparr>)
               (delete_where (\<lambda>c. pc_creatorUserId c = userId) (pairing_codes w)),
           user_settings := delete_where (\<lambda>s. st_userId s = userId) (user_settings w),
           drive_connections := delete_where (\<lambda>g. gd_userId g = userId) (drive_connections w),
           conversation_requests :=
             delete_where (\<lambda>q. rq_senderId q = userId \<or> rq_recipientId q = userId)
               (conversation_requests w),
           security_events := delete_where (\<lambda>e. se_userId e = userId) (security_events w),
           email_verifications := delete_where (\<lambda>c. ev_userId c = userId) (email_verifications w),
           audit_logs := delete_where (\<lambda>l. al_adminId l = userId) (audit_logs w)\<rparr>)"

text \<open>
  \<open>user.delete\<close>: \<open>messages.senderId\<close> is \<open>ON DELETE RESTRICT\<close>, and its check runs
  after the cascade through the conversations, whose constraint is older.
\<close>

definition delete_user :: "ident \<Rightarrow> world \<Rightarrow> unit res" where
  "delete_user userId w =
     (let w1 = cascade_account userId (cascade_rooms userId (cascade_conversations userId w))
      in if find_user userId w = None then fail Record_Missing w
         else if list_ex (\<lambda>m. ms_senderId m = userId) (messages w1) then fail Foreign_Key_Violation w
         else ok () w1)"

definition deleteAccount :: "crypto \<Rightarrow> ident \<Rightarrow> string \<Rightarrow> world \<Rightarrow> unit res" where
  "deleteAccount C userId password w =
     (case password_matches C (find_user userId w) password of
        Inl e \<Rightarrow> fail e w
      | Inr matched \<Rightarrow>
          if \<not> matched then fail (Unauthorized ''Invalid credentials'') w
          else let w1 = foldl (\<lambda>w convo. push (other_party userId convo) (Conversation_Burned (cv_id convo)) w)
                          w (filter (participant userId) (conversations w))
          in delete_user userId (disconnectUser userId w1))"

end
