(* ===== verification/Sessions.thy ===== *)
theory Sessions
  imports Accounts
begin

text \<open>
  Logging in and the sessions of \<open>auth/auth.service.ts\<close>: the challenge for
  unknown identifiers, \<open>login\<close>, the rotation of refresh tokens with its grace
  window, \<open>logout\<close>, the list and the revocation of sessions, and the guard of
  \<open>auth/access-token.guard.ts\<close>. A JavaScript \<open>Map\<close> is an association list.
\<close>

section \<open>Unknown identifiers\<close>

definition attempt_window_ms :: int where
  "attempt_window_ms = 15 * 60 * 1000"

definition map_delete :: "'k \<Rightarrow> ('k \<times> 'v) list \<Rightarrow> ('k \<times> 'v) list" where
  "map_delete k m = filter (\<lambda>(k', _). k' \<noteq> k) m"

definition isUnknownIdentifierChallenged :: "instant \<Rightarrow> string \<Rightarrow> world \<Rightarrow> bool \<times> world" where
  "isUnknownIdentifierChallenged now identifier w =
     (case map_of (unknown_attempts w) identifier of
        None \<Rightarrow> (False, w)
      | Some entry \<Rightarrow>
          if now - lf_lastAttempt entry > attempt_window_ms
          then (False, w\<lparr>unknown_attempts := map_delete identifier (unknown_attempts w)\<rparr>)
          else (lf_count entry \<ge> 3, w))"

definition recordUnknownIdentifierFailedAttempt :: "instant \<Rightarrow> string \<Rightarrow> world \<Rightarrow> bool \<times> world" where
  "recordUnknownIdentifierFailedAttempt now identifier w =
     (let kept = (if length (unknown_attempts w) > 2000
                  then filter (\<lambda>(_, v). \<not> now - lf_lastAttempt v > attempt_window_ms) (unknown_attempts w)
                  else unknown_attempts w);
          count = (case map_of kept identifier of
                     None \<Rightarrow> 1
                   | Some entry \<Rightarrow> if now - lf_lastAttempt entry < attempt_window_ms then lf_count entry + 1 else 1)
      in (count \<ge> 3,
          w\<lparr>unknown_attempts := assoc_set identifier \<lparr>lf_count = count, lf_lastAttempt = now\<rparr> kept\<rparr>))"

definition clearUnknownIdentifier :: "string \<Rightarrow> world \<Rightarrow> world" where
  "clearUnknownIdentifier identifier w =
     w\<lparr>unknown_attempts := map_delete identifier (unknown_attempts w)\<rparr>"

section \<open>login\<close>

record login_dto =
  lg_device :: device_dto
  lg_identifier :: "string option"
  lg_userId :: "string option"
  lg_password :: string
  lg_turnstileToken :: "string option"

record login_reply =
  lr_userId :: ident
  lr_username :: string
  lr_email :: "string option"
  lr_role :: user_role
  lr_nextUsernameChangeAllowedAt :: "instant option"
  lr_deviceId :: ident
  lr_appLockEnabled :: bool
  lr_appLockTimeoutSeconds :: int
  lr_accessToken :: string
  lr_refreshToken :: string

definition login_state :: "user_row \<Rightarrow> login_attempt" where
  "login_state u = \<lparr>la_failedLoginCount = us_failedLoginCount u, la_lockedUntil = us_lockedUntil u\<rparr>"

definition set_login_state :: "login_attempt \<Rightarrow> user_row \<Rightarrow> user_row" where
  "set_login_state s u = u\<lparr>us_failedLoginCount := la_failedLoginCount s, us_lockedUntil := la_lockedUntil s\<rparr>"

definition find_login_user :: "string \<Rightarrow> world \<Rightarrow> user_row option" where
  "find_login_user rawId w =
     find (\<lambda>u. us_username u = to_lower rawId \<or> us_email u = Some (to_lower rawId) \<or> us_id u = rawId)
       (users w)"

definition raw_identifier :: "login_dto \<Rightarrow> string" where
  "raw_identifier dto =
     js_trim (case lg_identifier dto of Some i \<Rightarrow> i
       | None \<Rightarrow> (case lg_userId dto of Some i \<Rightarrow> i | None \<Rightarrow> ''''))"

text \<open>The challenge: too many failures on the account, or on the unknown identifier.\<close>

definition challenge_due :: "instant \<Rightarrow> string \<Rightarrow> user_row option \<Rightarrow> world \<Rightarrow> bool \<times> world" where
  "challenge_due now normalized user w =
     (if (case user of None \<Rightarrow> False | Some u \<Rightarrow> us_failedLoginCount u \<ge> 3) then (True, w)
      else isUnknownIdentifierChallenged now normalized w)"

text \<open>
  The failed attempt is written from the row read before the password was
  checked; the check suspends.
\<close>

definition login_failed :: "instant \<Rightarrow> string \<Rightarrow> user_row option \<Rightarrow> world \<Rightarrow> login_reply res" where
  "login_failed now normalized user w =
     (case user of
        None \<Rightarrow>
          (let (requiresChallenge, w1) = recordUnknownIdentifierFailedAttempt now normalized w
           in fail (Challenge ''Invalid credentials'' requiresChallenge) w1)
      | Some u \<Rightarrow>
          if find_user (us_id u) w = None then fail Record_Missing w
          else (let next = recordFailedLogin (login_state u) now;
               w1 = set_user (us_id u) (set_login_state next) w;
               w2 = (if la_lockedUntil next \<noteq> None
                     then log_event (us_id u) Ev_Suspicious_Login ''lockout_triggered'' w1 else w1)
           in fail (Challenge ''Invalid credentials'' (la_failedLoginCount next \<ge> 3)) w2))"

definition app_lock_of :: "ident \<Rightarrow> world \<Rightarrow> bool \<times> int" where
  "app_lock_of userId w =
     (case find_settings userId w of
        None \<Rightarrow> (False, 60)
      | Some s \<Rightarrow> (st_appLockEnabled s, st_appLockTimeoutSeconds s))"

text \<open>A configured administrator address raises an ordinary account to superadmin.\<close>

definition promote :: "auth_config \<Rightarrow> user_row \<Rightarrow> world \<Rightarrow> user_role \<times> world" where
  "promote cfg user w =
     (if (case us_email user of None \<Rightarrow> False | Some e \<Rightarrow> is_admin_email cfg e) \<and> us_role user = Role_User
      then (Role_Superadmin, set_user (us_id user) (\<lambda>u. u\<lparr>us_role := Role_Superadmin\<rparr>) w)
      else (us_role user, w))"

definition login_succeeded ::
  "crypto \<Rightarrow> auth_config \<Rightarrow> draws \<Rightarrow> instant \<Rightarrow> login_dto \<Rightarrow> request_context \<Rightarrow> user_row \<Rightarrow> world \<Rightarrow>
     login_reply res" where
  "login_succeeded C cfg fr now dto ctx user w =
     (if find_user (us_id user) w = None then fail Record_Missing w
      else let w1 = set_user (us_id user)
                 (\<lambda>u. (set_login_state clearLoginLockout u)\<lparr>us_lastLoginAt := Some now\<rparr>) w;
          (opened, w3) = open_session C cfg fr now (us_id user) (lg_device dto) ctx w1;
          w4 = (if snd (fst opened)
                then log_event (us_id user) Ev_New_Device (device_label (lg_device dto)) w3 else w3);
          (appLockEnabled, appLockTimeoutSeconds) = app_lock_of (us_id user) w4;
          (userRole, w5) = promote cfg user w4
      in ok \<lparr>lr_userId = us_id user, lr_username = us_username user, lr_email = us_email user,
             lr_role = userRole,
             lr_nextUsernameChangeAllowedAt = nextUsernameChangeAllowedAt (us_usernameChangedAt user),
             lr_deviceId = fst (fst opened), lr_appLockEnabled = appLockEnabled,
             lr_appLockTimeoutSeconds = appLockTimeoutSeconds, lr_accessToken = fst (snd opened),
             lr_refreshToken = snd (snd opened)\<rparr> w5)"

definition unverified_email :: "string \<Rightarrow> user_row \<Rightarrow> bool" where
  "unverified_email rawId user \<longleftrightarrow>
     (CHR ''@'' \<in> set rawId \<or> (case us_email user of None \<Rightarrow> False
        | Some e \<Rightarrow> e \<noteq> [] \<and> to_lower e = to_lower rawId)) \<and> us_emailVerifiedAt user = None"

definition login ::
  "crypto \<Rightarrow> auth_config \<Rightarrow> siteverify \<Rightarrow> string \<Rightarrow> (world \<Rightarrow> world) \<Rightarrow> draws \<Rightarrow> instant \<Rightarrow>
     login_dto \<Rightarrow> request_context \<Rightarrow> world \<Rightarrow> login_reply res" where
  "login C cfg check dummyHash interf fr now dto ctx w =
     (let rawId = raw_identifier dto; normalized = to_lower rawId
      in if rawId = [] then fail (Unauthorized ''Invalid credentials'') w
         else let user = find_login_user rawId w;
                  (isChallenged, w1) = challenge_due now normalized user w
         in if isChallenged \<and> given (lg_turnstileToken dto) = None
         then fail (Challenge ''Security verification required. Please complete the challenge.'' True) w1
         else case (if isChallenged then verifyToken cfg check (lg_turnstileToken dto) (rc_ip ctx) else None) of
           Some e \<Rightarrow> fail e w1
         | None \<Rightarrow>
             (case verifyPassword C (lg_password dto)
                     (case user of None \<Rightarrow> dummyHash | Some u \<Rightarrow> us_passwordHash u) of
                Inl e \<Rightarrow> fail e w1
              | Inr passwordOk \<Rightarrow>
                  let w2 = interf w1
                  in if (case user of None \<Rightarrow> False | Some u \<Rightarrow> isLoginLocked (login_state u) now)
                     then fail (Unauthorized ''Invalid credentials'') w2
                     else (case user of
                         None \<Rightarrow> login_failed now normalized user w2
                       | Some u \<Rightarrow>
                           if \<not> passwordOk then login_failed now normalized user w2
                           else let w3 = clearUnknownIdentifier normalized w2
                           in if unverified_email rawId u
                           then fail (Unauthorized ''Please verify your email before signing in.'') w3
                           else login_succeeded C cfg fr now dto ctx u w3)))"

section \<open>Refresh\<close>

definition find_session :: "ident \<Rightarrow> world \<Rightarrow> session_row option" where
  "find_session i w = find (\<lambda>s. as_id s = i) (auth_sessions w)"

definition session_expired :: http_error where
  "session_expired = Unauthorized ''Session expired or revoked''"

text \<open>The device and the account a session needs to be usable.\<close>

definition session_backed :: "session_row \<Rightarrow> world \<Rightarrow> bool" where
  "session_backed s w \<longleftrightarrow>
     (case find_device (as_deviceId s) w of
        None \<Rightarrow> False
      | Some d \<Rightarrow> dv_revokedAt d = None \<and> dv_userId d = as_userId s) \<and>
     find_user (as_userId s) w \<noteq> None"

definition drop_expired_rotations :: "instant \<Rightarrow> world \<Rightarrow> world" where
  "drop_expired_rotations now w =
     w\<lparr>recent_rotations := filter (\<lambda>(_, v). rt_expiresAt v > now) (recent_rotations w)\<rparr>"

definition grace_ms :: int where
  "grace_ms = 30000"

text \<open>The cached pair of a token rotated within the grace window, while its session is usable.\<close>

definition cached_rotation :: "string \<Rightarrow> instant \<Rightarrow> world \<Rightarrow> rotation option" where
  "cached_rotation tokenHash now w =
     (case map_of (recent_rotations w) tokenHash of
        None \<Rightarrow> None
      | Some r \<Rightarrow>
          if rt_expiresAt r > now \<and>
             (case find_session (rt_sessionId r) w of
                None \<Rightarrow> False
              | Some s \<Rightarrow> as_revokedAt s = None \<and> as_expiresAt s > now \<and> session_backed s w)
          then Some r else None)"

definition live_session :: "string \<Rightarrow> instant \<Rightarrow> world \<Rightarrow> session_row option" where
  "live_session tokenHash now w =
     find (\<lambda>s. as_refreshTokenHash s = tokenHash \<and> as_revokedAt s = None \<and> as_expiresAt s > now)
       (auth_sessions w)"

text \<open>
  \<open>interf\<close> runs between reading the session and the conditional update that
  rotates it; \<open>later\<close> is the clock after that update.
\<close>

definition rotate ::
  "crypto \<Rightarrow> auth_config \<Rightarrow> (world \<Rightarrow> world) \<Rightarrow> bytes \<Rightarrow> instant \<Rightarrow> instant \<Rightarrow> string \<Rightarrow> session_row \<Rightarrow>
     world \<Rightarrow> (string \<times> string) res" where
  "rotate C cfg interf random now later tokenHash session w =
     (let newRefreshToken = generateRefreshToken random;
          w1 = interf w;
          target = (\<lambda>s. as_id s = as_id session \<and> as_refreshTokenHash s = tokenHash)
      in if \<not> list_ex target (auth_sessions w1)
         then (case map_of (recent_rotations w1) tokenHash of
             Some r \<Rightarrow>
               if rt_expiresAt r > later then ok (rt_accessToken r, rt_refreshToken r) w1
               else fail session_expired w1
           | None \<Rightarrow> fail session_expired w1)
         else let accessToken = issueAccessToken C (as_userId session) (as_deviceId session)
                                  (ac_accessTokenSecret cfg) access_token_ttl_seconds later
         in ok (accessToken, newRefreshToken)
              (w1\<lparr>auth_sessions := update_where target
                    (\<lambda>s. s\<lparr>as_refreshTokenHash := hashRefreshToken C newRefreshToken,
                          as_expiresAt := now + refresh_token_ttl_ms\<rparr>) (auth_sessions w1),
                 recent_rotations := assoc_set tokenHash
                    \<lparr>rt_sessionId = as_id session, rt_accessToken = accessToken,
                     rt_refreshToken = newRefreshToken, rt_expiresAt = later + grace_ms\<rparr>
                    (recent_rotations w1)\<rparr>))"

definition refresh ::
  "crypto \<Rightarrow> auth_config \<Rightarrow> (world \<Rightarrow> world) \<Rightarrow> bytes \<Rightarrow> instant \<Rightarrow> instant \<Rightarrow> string \<Rightarrow> world \<Rightarrow>
     (string \<times> string) res" where
  "refresh C cfg interf random now later refreshToken w =
     (if length (js_trim refreshToken) < 32 then fail session_expired w
      else let tokenHash = hashRefreshToken C refreshToken;
               w1 = drop_expired_rotations now w
      in case cached_rotation tokenHash now w1 of
           Some r \<Rightarrow> ok (rt_accessToken r, rt_refreshToken r) w1
         | None \<Rightarrow>
             let w2 = w1\<lparr>recent_rotations := map_delete tokenHash (recent_rotations w1)\<rparr>
             in case live_session tokenHash now w2 of
               None \<Rightarrow> fail session_expired w2
             | Some session \<Rightarrow>
                 if \<not> session_backed session w2 then fail session_expired w2
                 else rotate C cfg interf random now later tokenHash session w2)"

section \<open>Logging out and revoking\<close>

definition drop_rotations_of :: "ident \<Rightarrow> world \<Rightarrow> world" where
  "drop_rotations_of sessionId w =
     w\<lparr>recent_rotations := filter (\<lambda>(_, v). rt_sessionId v \<noteq> sessionId) (recent_rotations w)\<rparr>"

definition logout :: "crypto \<Rightarrow> instant \<Rightarrow> string \<Rightarrow> world \<Rightarrow> world" where
  "logout C now refreshToken w =
     (if refreshToken = [] then w
      else let tokenHash = hashRefreshToken C refreshToken;
               w1 = w\<lparr>recent_rotations := map_delete tokenHash (recent_rotations w)\<rparr>;
               w2 = (case find (\<lambda>s. as_refreshTokenHash s = tokenHash) (auth_sessions w) of
                       None \<Rightarrow> w1
                     | Some session \<Rightarrow> drop_rotations_of (as_id session) w1)
      in w2\<lparr>auth_sessions := update_where (\<lambda>s. as_refreshTokenHash s = tokenHash)
              (\<lambda>s. s\<lparr>as_revokedAt := Some now\<rparr>) (auth_sessions w2)\<rparr>)"

record session_view =
  sv_id :: ident
  sv_deviceId :: ident
  sv_deviceName :: "string option"
  sv_platform :: platform
  sv_userAgent :: "string option"
  sv_createdAt :: instant
  sv_lastSeenAt :: instant
  sv_isCurrentDevice :: bool
  sv_online :: bool

fun first_per_device :: "ident list \<Rightarrow> session_row list \<Rightarrow> session_row list" where
  "first_per_device seen [] = []"
| "first_per_device seen (s # ss) =
     (if as_deviceId s \<in> set seen then first_per_device seen ss
      else s # first_per_device (as_deviceId s # seen) ss)"

definition session_view_of :: "ident \<Rightarrow> world \<Rightarrow> session_row \<Rightarrow> session_view option" where
  "session_view_of currentDeviceId w s =
     map_option (\<lambda>d. \<lparr>sv_id = as_id s, sv_deviceId = as_deviceId s, sv_deviceName = dv_deviceName d,
         sv_platform = dv_platform d, sv_userAgent = as_userAgent s, sv_createdAt = as_createdAt s,
         sv_lastSeenAt = dv_lastSeenAt d, sv_isCurrentDevice = (as_deviceId s = currentDeviceId),
         sv_online = isDeviceOnline (as_deviceId s) w\<rparr>)
       (find_device (as_deviceId s) w)"

text \<open>The device of a session exists: its foreign key cascades.\<close>

definition listSessions :: "ident \<Rightarrow> ident \<Rightarrow> world \<Rightarrow> session_view list" where
  "listSessions userId currentDeviceId w =
     List.map_filter (session_view_of currentDeviceId w)
       (first_per_device []
         (sort_key (\<lambda>s. - as_createdAt s)
           (filter (\<lambda>s. as_userId s = userId \<and> as_revokedAt s = None) (auth_sessions w))))"

definition disconnect_delay_ms :: int where
  "disconnect_delay_ms = 250"

definition revokeSessionAndDisconnect :: "instant \<Rightarrow> ident \<Rightarrow> ident \<Rightarrow> string \<Rightarrow> world \<Rightarrow> world" where
  "revokeSessionAndDisconnect now sessionId deviceId reason w =
     (let w1 = drop_rotations_of sessionId w;
          w2 = w1\<lparr>auth_sessions := update_where (\<lambda>s. as_id s = sessionId)
                    (\<lambda>s. s\<lparr>as_revokedAt := Some now\<rparr>) (auth_sessions w1)\<rparr>;
          w3 = w2\<lparr>devices := update_where (\<lambda>d. dv_id d = deviceId)
                    (\<lambda>d. d\<lparr>dv_revokedAt := Some now\<rparr>) (devices w2)\<rparr>;
          w4 = snd (pushToDevice deviceId (Session_Revoked reason) w3)
      in w4\<lparr>disconnect_timers := disconnect_timers w4 @ [(now + disconnect_delay_ms, deviceId)]\<rparr>)"

text \<open>The timers that are due close the sockets the device has by then.\<close>

definition fire_disconnect_timers :: "instant \<Rightarrow> world \<Rightarrow> world" where
  "fire_disconnect_timers now w =
     foldl (\<lambda>w (t, deviceId). disconnectDevice deviceId w)
       (w\<lparr>disconnect_timers := filter (\<lambda>(t, _). t > now) (disconnect_timers w)\<rparr>)
       (filter (\<lambda>(t, _). t \<le> now) (disconnect_timers w))"

definition revokeSession :: "instant \<Rightarrow> ident \<Rightarrow> ident \<Rightarrow> world \<Rightarrow> unit res" where
  "revokeSession now userId sessionId w =
     (case find_session sessionId w of
        None \<Rightarrow> fail (Not_Found ''Session not found'') w
      | Some session \<Rightarrow>
          if as_userId session \<noteq> userId then fail (Not_Found ''Session not found'') w
          else if as_revokedAt session \<noteq> None then ok () w
          else ok () (log_event userId Ev_Session_Revoked sessionId
                 (revokeSessionAndDisconnect now sessionId (as_deviceId session) ''revoked_by_user'' w)))"

definition other_sessions :: "ident \<Rightarrow> ident \<Rightarrow> world \<Rightarrow> session_row list" where
  "other_sessions userId currentDeviceId w =
     filter (\<lambda>s. as_userId s = userId \<and> as_revokedAt s = None \<and> as_deviceId s \<noteq> currentDeviceId)
       (auth_sessions w)"

definition revokeOtherSessions :: "instant \<Rightarrow> ident \<Rightarrow> ident \<Rightarrow> world \<Rightarrow> nat \<times> world" where
  "revokeOtherSessions now userId currentDeviceId w =
     (let others = other_sessions userId currentDeviceId w;
          w1 = foldl (\<lambda>w s. revokeSessionAndDisconnect now (as_id s) (as_deviceId s) ''revoked_by_user'' w)
                 w others
      in (length others,
          if others = [] then w1 else log_event userId Ev_Session_Revoked ''revoke_others'' w1))"

section \<open>access-token.guard.ts\<close>

definition canActivate :: "crypto \<Rightarrow> auth_config \<Rightarrow> instant \<Rightarrow> string option \<Rightarrow> world \<Rightarrow>
    http_error + (ident \<times> ident)" where
  "canActivate C cfg now header w =
     (case header of
        None \<Rightarrow> Inl (Unauthorized '''')
      | Some h \<Rightarrow>
          if \<not> starts_with ''Bearer '' h then Inl (Unauthorized '''')
          else case verifyAccessToken C (drop 7 h) (ac_accessTokenSecret cfg) now of
            None \<Rightarrow> Inl (Unauthorized '''')
          | Some payload \<Rightarrow>
              (case find_device (tp_deviceId payload) w of
                 None \<Rightarrow> Inl (Unauthorized '''')
               | Some device \<Rightarrow>
                   if dv_revokedAt device \<noteq> None then Inl (Unauthorized '''')
                   else Inr (tp_userId payload, tp_deviceId payload)))"

section \<open>The invariant of accounts, devices and sessions\<close>

text \<open>
  Ids are unique; no two accounts share a user name or an e-mail; a device
  belongs to an account, and a session to a device of its own user; and a user
  has at most one session that is not revoked on a device.
\<close>

definition user_key :: "user_row \<Rightarrow> ident \<times> string \<times> string option" where
  "user_key u = (us_id u, us_username u, us_email u)"

definition emails :: "user_row list \<Rightarrow> string option list" where
  "emails us = filter (\<lambda>e. e \<noteq> None) (map us_email us)"

definition users_inv :: "user_row list \<Rightarrow> bool" where
  "users_inv us \<longleftrightarrow> distinct (map us_id us) \<and> distinct (map us_username us) \<and> distinct (emails us)"

definition devices_inv :: "ident set \<Rightarrow> device_row list \<Rightarrow> bool" where
  "devices_inv ids ds \<longleftrightarrow> distinct (map dv_id ds) \<and> dv_userId ` set ds \<subseteq> ids"

definition device_owner :: "device_row \<Rightarrow> ident \<times> ident" where
  "device_owner d = (dv_id d, dv_userId d)"

definition session_owner :: "session_row \<Rightarrow> ident \<times> ident" where
  "session_owner s = (as_deviceId s, as_userId s)"

definition live :: "session_row \<Rightarrow> bool" where
  "live s \<longleftrightarrow> as_revokedAt s = None"

definition sessions_inv :: "(ident \<times> ident) set \<Rightarrow> session_row list \<Rightarrow> bool" where
  "sessions_inv owners ss \<longleftrightarrow> distinct (map as_id ss) \<and> session_owner ` set ss \<subseteq> owners \<and>
     distinct (map session_owner (filter live ss))"

definition auth_ok :: "world \<Rightarrow> bool" where
  "auth_ok w \<longleftrightarrow> users_inv (users w) \<and> devices_inv (us_id ` set (users w)) (devices w) \<and>
     sessions_inv (device_owner ` set (devices w)) (auth_sessions w)"

lemma distinct_user_update:
  assumes "distinct (map k us)" and "distinct (filter P (map h us))"
    and "\<And>u v. u \<in> set us \<Longrightarrow> v \<in> set us \<Longrightarrow> k u = i \<Longrightarrow> k v \<noteq> i \<Longrightarrow> P (h (f u)) \<Longrightarrow> h (f u) \<noteq> h v"
  shows "distinct (filter P (map h (update_where (\<lambda>u. k u = i) f us)))"
  using assms
proof (induction us)
  case (Cons r rs)
  have ih: "distinct (filter P (map h (update_where (\<lambda>u. k u = i) f rs)))"
    using Cons.IH Cons.prems by (auto split: if_splits)
  show ?case
  proof (cases "k r = i")
    case True
    then have same: "update_where (\<lambda>u. k u = i) f rs = rs"
      using Cons.prems(1) by (intro update_where_id) (auto simp: image_iff)
    have "h (f r) \<notin> h ` set rs" if "P (h (f r))"
    proof
      assume "h (f r) \<in> h ` set rs"
      then obtain v where v: "v \<in> set rs" "h (f r) = h v" by auto
      then have "k v \<noteq> i" using Cons.prems(1) True by (auto simp: image_iff)
      then show False using Cons.prems(3) [of r v] True that v by simp
    qed
    then show ?thesis using ih True same by auto
  next
    case False
    have "h r \<notin> set (filter P (map h (update_where (\<lambda>u. k u = i) f rs)))" if "P (h r)"
    proof
      assume "h r \<in> set (filter P (map h (update_where (\<lambda>u. k u = i) f rs)))"
      then obtain v where v: "v \<in> set rs" "h r = h (if k v = i then f v else v)"
        by (auto simp: set_update_where)
      then show False
        using Cons.prems(2) Cons.prems(3) [of v r] False that
        by (cases "k v = i") auto
    qed
    then show ?thesis using ih False by auto
  qed
qed simp

lemma users_inv_update:
  assumes "\<And>u. user_key (f u) = user_key u" and "users_inv us"
  shows "users_inv (update_where p f us)"
proof -
  have "us_id (f u) = us_id u" "us_username (f u) = us_username u" "us_email (f u) = us_email u" for u
    using assms(1) [of u] by (simp_all add: user_key_def)
  then show ?thesis using assms(2) by (simp add: users_inv_def emails_def map_update_where)
qed

lemma ids_update: "(\<And>u. us_id (f u) = us_id u) \<Longrightarrow> us_id ` set (update_where p f us) = us_id ` set us"
  by (metis map_update_where set_map)

lemma users_inv_add:
  assumes "users_inv us" and "us_id u \<notin> us_id ` set us" and "us_username u \<notin> us_username ` set us"
    and "us_email u \<notin> us_email ` set us"
  shows "users_inv (us @ [u])"
  using assms by (auto simp: users_inv_def emails_def)

lemma distinct_filter_map_eq:
  "distinct (filter P (map h us)) \<Longrightarrow> u \<in> set us \<Longrightarrow> v \<in> set us \<Longrightarrow> h u = h v \<Longrightarrow> P (h u) \<Longrightarrow> u = v"
  by (induction us) (auto split: if_splits simp: image_iff)

lemma distinct_emails_eq:
  "users_inv us \<Longrightarrow> u \<in> set us \<Longrightarrow> v \<in> set us \<Longrightarrow> us_email u = Some e \<Longrightarrow> us_email v = Some e \<Longrightarrow> u = v"
  using distinct_filter_map_eq [of "\<lambda>e. e \<noteq> None" us_email us u v] by (simp add: users_inv_def emails_def)

lemma users_inv_set:
  assumes "users_inv us" and "\<And>u. us_id (f u) = us_id u"
    and "\<And>u v. u \<in> set us \<Longrightarrow> v \<in> set us \<Longrightarrow> us_id u = i \<Longrightarrow> us_id v \<noteq> i \<Longrightarrow> us_username (f u) \<noteq> us_username v"
    and "\<And>u v. u \<in> set us \<Longrightarrow> v \<in> set us \<Longrightarrow> us_id u = i \<Longrightarrow> us_id v \<noteq> i \<Longrightarrow> us_email (f u) \<noteq> None \<Longrightarrow>
      us_email (f u) \<noteq> us_email v"
  shows "users_inv (update_where (\<lambda>u. us_id u = i) f us)"
proof -
  have d: "distinct (map us_id us)" and n: "distinct (map us_username us)" and e: "distinct (emails us)"
    using assms(1) by (auto simp: users_inv_def)
  have "distinct (map us_username (update_where (\<lambda>u. us_id u = i) f us))"
    using distinct_user_update [of us_id us "\<lambda>x. True" us_username i f] d n assms(3) by simp
  moreover have "distinct (emails (update_where (\<lambda>u. us_id u = i) f us))"
    unfolding emails_def by (rule distinct_user_update [OF d]) (use e assms(4) in \<open>auto simp: emails_def\<close>)
  ultimately show ?thesis using d assms(2) by (simp add: users_inv_def map_update_where)
qed

lemma distinct_filter_map_delete:
  "distinct (filter q (map h us)) \<Longrightarrow> distinct (filter q (map h (delete_where p us)))"
  by (induction us) (auto simp: table_simps)

lemma users_inv_delete: "users_inv us \<Longrightarrow> users_inv (delete_where p us)"
  by (simp add: users_inv_def emails_def distinct_map_delete_where distinct_filter_map_delete)

lemma devices_inv_mono: "devices_inv ids ds \<Longrightarrow> ids \<subseteq> ids' \<Longrightarrow> devices_inv ids' ds"
  by (auto simp: devices_inv_def)

lemma sessions_inv_mono: "sessions_inv os ss \<Longrightarrow> os \<subseteq> os' \<Longrightarrow> sessions_inv os' ss"
  by (auto simp: sessions_inv_def)

text \<open>Sessions: revoking some, rotating one, opening one.\<close>

lemma sessions_inv_revoke:
  assumes "sessions_inv owners ss" and "\<And>s. as_id (f s) = as_id s" and "\<And>s. session_owner (f s) = session_owner s"
    and "\<And>s. live (f s) \<Longrightarrow> live s"
  shows "sessions_inv owners (update_where p f ss)"
proof -
  have "session_owner ` set (update_where p f ss) = session_owner ` set ss"
    using assms(3) by (metis map_update_where set_map)
  moreover have "distinct (map session_owner (filter live (update_where p f ss)))"
    if "distinct (map session_owner (filter live ss))" for ss
    using that
  proof (induction ss)
    case (Cons s ss)
    have sub: "session_owner ` set (filter live (update_where p f ss)) \<subseteq> session_owner ` set (filter live ss)"
      using assms(3, 4) by (fastforce simp: set_update_where split: if_splits)
    show ?case using Cons sub assms(3) [of s] assms(4) [of s] by (auto split: if_splits)
  qed simp
  ultimately show ?thesis using assms(1, 2) by (simp add: sessions_inv_def map_update_where)
qed

lemma sessions_inv_open:
  assumes "sessions_inv owners ss" and "as_id s \<notin> as_id ` set ss" and "session_owner s \<in> owners"
    and "\<And>x. x \<in> set ss \<Longrightarrow> live x \<Longrightarrow> session_owner x \<noteq> session_owner s"
  shows "sessions_inv owners (ss @ [s])"
proof -
  have "session_owner s \<notin> session_owner ` set (filter live ss)" using assms(4) by force
  then show ?thesis using assms(1-3) by (simp add: sessions_inv_def)
qed

text \<open>The operations leave the invariant alone, or keep it.\<close>

named_theorems auth_frame

lemma challenge_frame [auth_frame]:
  "users (open_challenge C cfg fr t u e w) = users w" "devices (open_challenge C cfg fr t u e w) = devices w"
  "auth_sessions (open_challenge C cfg fr t u e w) = auth_sessions w"
  "users (consume_challenges u t w) = users w" "devices (consume_challenges u t w) = devices w"
  "auth_sessions (consume_challenges u t w) = auth_sessions w"
  "users (log_event u ev x w) = users w" "devices (log_event u ev x w) = devices w"
  "auth_sessions (log_event u ev x w) = auth_sessions w"
  by (simp_all add: open_challenge_def consume_challenges_def sendVerificationEmail_def log_event_def Let_def)

lemma set_user_frame [auth_frame]:
  "devices (set_user i f w) = devices w" "auth_sessions (set_user i f w) = auth_sessions w"
  by (simp_all add: set_user_def)

lemma find_user_cong: "users w' = users w \<Longrightarrow> find_user i w' = find_user i w"
  by (simp add: find_user_def)

lemma find_user_frame [auth_frame]:
  "find_user i (open_challenge C cfg fr t u e w) = find_user i w"
  "find_user i (consume_challenges u t w) = find_user i w" "find_user i (log_event u ev x w) = find_user i w"
  by (rule find_user_cong; simp only: auth_frame)+

lemma find_user_set_user: "(\<And>u. us_id (f u) = us_id u) \<Longrightarrow> find_user i (set_user j f w) = None \<longleftrightarrow> find_user i w = None"
  by (simp add: find_user_def set_user_def find_update_where)

lemma auth_ok_cong:
  "users w' = users w \<Longrightarrow> devices w' = devices w \<Longrightarrow> auth_sessions w' = auth_sessions w \<Longrightarrow>
     auth_ok w' = auth_ok w"
  by (simp add: auth_ok_def)

lemma auth_ok_frame [auth_frame]:
  "auth_ok (open_challenge C cfg fr t u e w) = auth_ok w" "auth_ok (consume_challenges u t w) = auth_ok w"
  "auth_ok (log_event u ev x w) = auth_ok w"
  by (rule auth_ok_cong; simp only: auth_frame)+

lemma auth_ok_set_user:
  "(\<And>u. user_key (f u) = user_key u) \<Longrightarrow> auth_ok w \<Longrightarrow> auth_ok (set_user i f w)"
  by (simp add: auth_ok_def set_user_def users_inv_update ids_update user_key_def)

definition fresh_draws :: "draws \<Rightarrow> world \<Rightarrow> bool" where
  "fresh_draws fr w \<longleftrightarrow> fr_userId fr \<notin> us_id ` set (users w) \<and> fr_deviceId fr \<notin> dv_id ` set (devices w) \<and>
     fr_sessionId fr \<notin> as_id ` set (auth_sessions w)"

lemma fresh_frame [auth_frame]:
  "fresh_draws fr (open_challenge C cfg fr' t u e w) = fresh_draws fr w"
  "fresh_draws fr (consume_challenges u t w) = fresh_draws fr w"
  "fresh_draws fr (log_event u ev x w) = fresh_draws fr w"
  by (simp_all add: fresh_draws_def auth_frame)

lemma fresh_set_user: "(\<And>u. us_id (f u) = us_id u) \<Longrightarrow> fresh_draws fr (set_user i f w) = fresh_draws fr w"
  by (simp add: fresh_draws_def set_user_def ids_update)

lemma find_user_in: "find_user i w \<noteq> None \<longleftrightarrow> i \<in> us_id ` set (users w)"
  by (auto simp: find_user_def find_None_iff image_iff)

lemma matching_device:
  "findMatchingDevice (device_keys_of u w) dh sg = Some m \<Longrightarrow>
     (dk_id m, u) \<in> device_owner ` set (devices w)"
  unfolding findMatchingDevice_def
proof (drule find_Some_in, elim conjE)
  assume "m \<in> set (device_keys_of u w)"
  then obtain x where "x \<in> set (devices w)" "dk_id m = dv_id x" "dv_userId x = u"
    by (auto simp: device_keys_of_def)
  then show ?thesis by (force simp: device_owner_def)
qed

lemma findOrCreateDevice_ok:
  assumes "findOrCreateDevice fr now u dto w = ((d, new), w')" and "auth_ok w" and "find_user u w \<noteq> None"
    and "fr_deviceId fr \<notin> dv_id ` set (devices w)"
  shows "auth_ok w' \<and> (d, u) \<in> device_owner ` set (devices w') \<and> users w' = users w \<and>
    auth_sessions w' = auth_sessions w"
proof (cases "findMatchingDevice (device_keys_of u w) (dd_identityDhPublic dto) (dd_identitySigningPublic dto)")
  case None
  then have w': "w' = w\<lparr>devices := devices w @ [new_device (fr_deviceId fr) u now dto],
      prekeys := prekeys w @ new_prekeys (fr_prekeyId fr) (fr_deviceId fr) (dd_oneTimePrekeysPublic dto)\<rparr>"
    and d: "d = fr_deviceId fr" using assms(1) by (auto simp: findOrCreateDevice_def)
  have "u \<in> us_id ` set (users w)" using assms(3) find_user_in by blast
  then show ?thesis using assms(2, 4)
    by (auto simp: w' d auth_ok_def devices_inv_def new_device_def device_owner_def sessions_inv_def)
next
  case (Some m)
  let ?ds = "update_where (\<lambda>d. dv_id d = dk_id m) (reactivate now dto) (devices w)"
  have w': "users w' = users w" "auth_sessions w' = auth_sessions w" "devices w' = ?ds" and d: "d = dk_id m"
    using assms(1) Some by (auto simp: findOrCreateDevice_def)
  have "map device_owner ?ds = map device_owner (devices w)" "map dv_id ?ds = map dv_id (devices w)"
    "map dv_userId ?ds = map dv_userId (devices w)"
    by (simp_all add: map_update_where device_owner_def reactivate_def split: option.split)
  then have "device_owner ` set ?ds = device_owner ` set (devices w)" "distinct (map dv_id ?ds) = distinct (map dv_id (devices w))"
    "dv_userId ` set ?ds = dv_userId ` set (devices w)" by (metis set_map)+
  then show ?thesis using assms(2) w' d matching_device [OF Some]
    by (simp add: auth_ok_def devices_inv_def)
qed

lemma issueSession_ok:
  assumes "issueSession C cfg fr now u d ctx w = (tokens, w')" and "auth_ok w"
    and "(d, u) \<in> device_owner ` set (devices w)" and "fr_sessionId fr \<notin> as_id ` set (auth_sessions w)"
  shows "auth_ok w' \<and> users w' = users w \<and> devices w' = devices w"
proof -
  let ?old = "\<lambda>s. as_userId s = u \<and> as_deviceId s = d \<and> as_revokedAt s = None"
  let ?ss = "update_where ?old (\<lambda>s. s\<lparr>as_revokedAt := Some now\<rparr>) (auth_sessions w)"
  obtain s where w': "users w' = users w" "devices w' = devices w" "auth_sessions w' = ?ss @ [s]"
    and s: "as_id s = fr_sessionId fr" "session_owner s = (d, u)"
    using assms(1) by (auto simp: issueSession_def Let_def session_owner_def)
  have "sessions_inv (device_owner ` set (devices w)) ?ss"
    using assms(2) by (intro sessions_inv_revoke) (auto simp: auth_ok_def session_owner_def live_def)
  moreover have "map as_id ?ss = map as_id (auth_sessions w)" by (simp add: map_update_where)
  then have "as_id ` set ?ss = as_id ` set (auth_sessions w)" by (metis set_map)
  moreover have "session_owner x \<noteq> session_owner s" if "x \<in> set ?ss" "live x" for x
  proof -
    obtain y where "x = (if ?old y then y\<lparr>as_revokedAt := Some now\<rparr> else y)"
      using \<open>x \<in> set ?ss\<close> unfolding set_update_where by blast
    then show ?thesis using \<open>live x\<close> s(2)
      by (cases "?old y") (simp add: live_def, force simp: session_owner_def live_def)
  qed
  ultimately have "sessions_inv (device_owner ` set (devices w)) (?ss @ [s])"
    using assms(3, 4) s by (intro sessions_inv_open) auto
  then show ?thesis using assms(2) w' by (simp add: auth_ok_def)
qed

text \<open>Other requests in between keep the invariant and draw other ids.\<close>

definition polite :: "draws \<Rightarrow> (world \<Rightarrow> world) \<Rightarrow> bool" where
  "polite fr interf \<longleftrightarrow> (\<forall>w. auth_ok w \<longrightarrow> auth_ok (interf w)) \<and>
     (\<forall>w. fresh_draws fr w \<longrightarrow> fresh_draws fr (interf w))"

lemma polite_id [simp]: "polite fr (\<lambda>w. w)"
  by (simp add: polite_def)

lemma open_session_ok:
  assumes "auth_ok w" and "fr_deviceId fr \<notin> dv_id ` set (devices w)"
    and "fr_sessionId fr \<notin> as_id ` set (auth_sessions w)" and "find_user u w \<noteq> None"
  shows "auth_ok (snd (open_session C cfg fr now u dto ctx w)) \<and>
    users (snd (open_session C cfg fr now u dto ctx w)) = users w"
proof -
  obtain d new w1 tokens w2 where f: "findOrCreateDevice fr now u dto w = ((d, new), w1)"
    and i: "issueSession C cfg fr now u d ctx w1 = (tokens, w2)"
    by (metis surj_pair)
  then have "snd (open_session C cfg fr now u dto ctx w) = w2" by (simp add: open_session_def)
  moreover from findOrCreateDevice_ok [OF f assms(1,4,2)]
  have "auth_ok w1" "(d, u) \<in> device_owner ` set (devices w1)" "users w1 = users w"
    "auth_sessions w1 = auth_sessions w" by simp_all
  ultimately show ?thesis using issueSession_ok [OF i] assms(3) by simp
qed

lemma create_user_ok:
  assumes "create_user u w = ok x w'" and "auth_ok w" and "us_id u \<notin> us_id ` set (users w)"
    and "us_email u = Some e"
  shows "auth_ok w' \<and> find_user (us_id u) w' \<noteq> None \<and> devices w' = devices w \<and>
    auth_sessions w' = auth_sessions w"
proof -
  from assms(1, 4) have w': "w' = w\<lparr>users := users w @ [u]\<rparr>"
    and n: "find_username (us_username u) w = None" and e: "find_email e w = None"
    by (auto simp: create_user_def split: if_splits)
  have "users_inv (users w @ [u])"
    using assms(2-4) n e by (intro users_inv_add) (auto simp: auth_ok_def find_username_def find_email_def find_None_iff)
  moreover have "devices_inv (us_id ` set (users w @ [u])) (devices w)"
    using assms(2) by (auto simp: auth_ok_def devices_inv_def)
  moreover have "find_user (us_id u) w' \<noteq> None" unfolding find_user_in by (simp add: w')
  ultimately show ?thesis using assms(2) by (auto simp: auth_ok_def w')
qed

lemma new_user_columns [simp]:
  "us_id (new_user i h n e r v t) = i" "us_email (new_user i h n e r v t) = Some e"
  by (simp_all add: new_user_def)

lemma register_cases:
  obtains "after (register_account C cfg check interf fr now dto ctx w) \<in> {w, interf w}"
  | h name email role w1 x where
    "create_user (new_user (fr_userId fr) h name email role None now) (interf w) = ok x w1"
    "after (register_account C cfg check interf fr now dto ctx w) =
       log_event (fr_userId fr) Ev_New_Device (device_label (re_device dto))
         (snd (open_session C cfg fr now (fr_userId fr) (re_device dto) ctx
           (open_challenge C cfg fr now (fr_userId fr) email w1)))"
proof -
  define email role where "email = normalizeEmail (the (re_email dto))"
    and "role = (if is_admin_email cfg email then Role_Superadmin else Role_User)"
  define user where "user = (\<lambda>h. new_user (fr_userId fr) h (normalizeUsername (re_username dto)) email role None now)"
  note eq = email_def [symmetric] role_def [symmetric]
  show thesis
  proof (cases "verifyToken cfg check (re_turnstileToken dto) (rc_ip ctx)")
    case None
    show thesis
    proof (cases "hashPassword C (fr_salt fr) (re_password dto)")
      case (Inr h)
      show thesis
      proof (cases "(case re_email dto of None \<Rightarrow> True | Some e \<Rightarrow> js_trim e = [])")
        case False
        obtain r w1 where c: "create_user (user h) (interf w) = (r, w1)" by fastforce
        then show thesis
        proof (cases r)
          case (Inl e)
          then have "w1 = interf w" using c by (auto simp: create_user_def split: if_splits)
          then show thesis using None Inr False c Inl
            by (intro that(1)) (simp add: register_account_def Let_def eq user_def)
        next
          case (Inr x)
          then show thesis using None \<open>hashPassword _ _ _ = _\<close> False c
            by (intro that(2) [of h "normalizeUsername (re_username dto)" email role x w1])
              (simp_all add: register_account_def Let_def eq user_def case_prod_beta)
        qed
      qed (use None Inr in \<open>simp add: register_account_def Let_def that(1)\<close>)
    qed (use None in \<open>simp add: register_account_def that(1)\<close>)
  qed (simp add: register_account_def that(1))
qed

lemma register_account_ok:
  assumes "auth_ok w" and "fresh_draws fr w" and "polite fr interf"
  shows "auth_ok (after (register_account C cfg check interf fr now dto ctx w))"
proof (rule register_cases [of C cfg check interf fr now dto ctx w])
  assume "after (register_account C cfg check interf fr now dto ctx w) \<in> {w, interf w}"
  then show ?thesis using assms by (auto simp: polite_def)
next
  fix h name email role w1 x
  assume c: "create_user (new_user (fr_userId fr) h name email role None now) (interf w) = ok x w1"
    and a: "after (register_account C cfg check interf fr now dto ctx w) =
       log_event (fr_userId fr) Ev_New_Device (device_label (re_device dto))
         (snd (open_session C cfg fr now (fr_userId fr) (re_device dto) ctx
           (open_challenge C cfg fr now (fr_userId fr) email w1)))"
  have w: "auth_ok (interf w)" "fresh_draws fr (interf w)" using assms by (auto simp: polite_def)
  from create_user_ok [OF c w(1)] w(2)
  have "auth_ok w1" "find_user (fr_userId fr) w1 \<noteq> None" "devices w1 = devices (interf w)"
    "auth_sessions w1 = auth_sessions (interf w)" by (auto simp: fresh_draws_def)
  then show ?thesis
    using open_session_ok [of "open_challenge C cfg fr now (fr_userId fr) email w1" fr "fr_userId fr"] w(2)
    by (simp add: a auth_frame fresh_draws_def)
qed

lemma verifyEmail_ok:
  assumes "auth_ok w" and "\<And>w. auth_ok w \<Longrightarrow> auth_ok (interf w)"
  shows "auth_ok (after (verifyEmail C interf now email code w))"
proof -
  have set: "auth_ok (w'\<lparr>email_verifications := x\<rparr>) = auth_ok w'" for w' x
    by (rule auth_ok_cong) simp_all
  have user: "auth_ok (set_user i (us_emailVerifiedAt_update f) w') " if "auth_ok w'" for i f w'
    by (rule auth_ok_set_user [OF _ that]) (simp add: user_key_def)
  show ?thesis using assms
    by (auto simp: verifyEmail_def set_challenge_def Let_def set user split: option.splits)
qed

lemma resendVerification_ok: "auth_ok w \<Longrightarrow> auth_ok (after (resendVerification C cfg fr now email w))"
  by (auto simp: resendVerification_def Let_def auth_frame split: option.splits)

lemma addEmail_ok:
  assumes "auth_ok w"
  shows "auth_ok (after (addEmail C cfg fr now u rawEmail w))"
proof -
  define email where "email = normalizeEmail rawEmail"
  let ?f = "\<lambda>x. x\<lparr>us_email := Some email, us_emailVerifiedAt := None\<rparr>"
  consider "after (addEmail C cfg fr now u rawEmail w) = w"
    | "after (addEmail C cfg fr now u rawEmail w) =
        open_challenge C cfg fr now u email (consume_challenges u now (set_user u ?f w))"
      "\<And>e. find_email email w = Some e \<Longrightarrow> us_id e = u"
    unfolding addEmail_def Let_def email_def [symmetric]
    by (cases "find_email email w"; cases "find_user u w"; cases "\<exists>e. find_email email w = Some e \<and> us_id e \<noteq> u")
      simp_all
  then show ?thesis
  proof cases
    case 2
    have i: "users_inv (users w)" using assms by (simp add: auth_ok_def)
    have "us_email v \<noteq> Some email" if v: "v \<in> set (users w)" "us_id v \<noteq> u" for v
    proof
      assume ve: "us_email v = Some email"
      then obtain e where e: "find_email email w = Some e" using v(1)
        by (cases "find_email email w") (auto simp: find_email_def find_None_iff)
      then have "e \<in> set (users w)" "us_email e = Some email" by (auto simp: find_email_def dest: find_Some_in)
      then have "e = v" using distinct_emails_eq [OF i _ v(1) _ ve] by blast
      then show False using 2(2) [OF e] v(2) by simp
    qed
    note other = this
    have "users_inv (update_where (\<lambda>x. us_id x = u) ?f (users w))"
    proof (rule users_inv_set [OF i])
      fix a v
      assume a: "a \<in> set (users w)" "v \<in> set (users w)" "us_id a = u" "us_id v \<noteq> u"
      have "distinct (map us_username (users w))" using i by (simp add: users_inv_def)
      then show "us_username (?f a) \<noteq> us_username v" using distinct_key_eq a by fastforce
      show "us_email (?f a) \<noteq> us_email v" using other [OF a(2,4)] by force
    qed simp
    then have "auth_ok (set_user u ?f w)" using assms by (simp add: auth_ok_def set_user_def ids_update)
    then show ?thesis by (simp add: 2(1) auth_frame)
  qed (use assms in simp)
qed

lemma changeUsername_ok:
  assumes "auth_ok w" and "\<And>w. auth_ok w \<Longrightarrow> auth_ok (interf w)"
  shows "auth_ok (after (changeUsername interf now u name w))"
proof -
  have written: "auth_ok (after (write_username now u n w'))" if "auth_ok w'" for n w'
  proof (cases "find_user u w' = None \<or> list_ex (\<lambda>x. us_username x = n \<and> us_id x \<noteq> u) (users w')")
    case False
    let ?f = "\<lambda>x. x\<lparr>us_username := n, us_usernameChangedAt := Some now\<rparr>"
    have i: "users_inv (users w')" using that by (simp add: auth_ok_def)
    have "users_inv (update_where (\<lambda>x. us_id x = u) ?f (users w'))"
    proof (rule users_inv_set [OF i])
      fix a v
      assume a: "a \<in> set (users w')" "v \<in> set (users w')" "us_id a = u" "us_id v \<noteq> u"
      then show "us_username (?f a) \<noteq> us_username v" using False by (auto simp: list_ex_iff)
      show "us_email (?f a) \<noteq> us_email v" if "us_email (?f a) \<noteq> None"
        using distinct_emails_eq [OF i a(1,2)] a(3,4) that by fastforce
    qed simp
    then show ?thesis using that False by (simp add: write_username_def auth_ok_def set_user_def ids_update)
  qed (auto simp: write_username_def that)
  show ?thesis using assms written
    by (auto simp: changeUsername_def Let_def split: option.splits)
qed

lemma changePassword_ok:
  "auth_ok w \<Longrightarrow> auth_ok (after (changePassword C salt u cur new w))"
  by (auto simp: changePassword_def user_key_def intro!: auth_ok_set_user split: sum.splits)

lemma auth_ok_maps [auth_frame]:
  "auth_ok (w\<lparr>unknown_attempts := m\<rparr>) = auth_ok w" "auth_ok (w\<lparr>recent_rotations := r\<rparr>) = auth_ok w"
  "fresh_draws fr (w\<lparr>unknown_attempts := m\<rparr>) = fresh_draws fr w"
  "fresh_draws fr (w\<lparr>recent_rotations := r\<rparr>) = fresh_draws fr w"
  by (simp_all add: auth_ok_def fresh_draws_def)

lemma user_key_login [simp]:
  "user_key (set_login_state s u) = user_key u" "us_id (set_login_state s u) = us_id u"
  "user_key (u\<lparr>us_lastLoginAt := x\<rparr>) = user_key u" "user_key (u\<lparr>us_role := y\<rparr>) = user_key u"
  by (simp_all add: user_key_def set_login_state_def)

lemma challenge_due_ok:
  "auth_ok (snd (challenge_due now n u w)) = auth_ok w"
  "fresh_draws fr (snd (challenge_due now n u w)) = fresh_draws fr w"
  by (auto simp: challenge_due_def isUnknownIdentifierChallenged_def auth_frame split: option.splits)

lemma login_failed_ok: "auth_ok w \<Longrightarrow> auth_ok (after (login_failed now n u w))"
  by (auto simp: login_failed_def recordUnknownIdentifierFailedAttempt_def Let_def auth_frame
      intro!: auth_ok_set_user split: option.splits)

lemma promote_ok: "auth_ok w \<Longrightarrow> auth_ok (snd (promote cfg u w))"
  by (auto simp: promote_def intro!: auth_ok_set_user)

lemma login_succeeded_ok:
  assumes "auth_ok w" and "fresh_draws fr w"
  shows "auth_ok (after (login_succeeded C cfg fr now dto ctx u w))"
proof (cases "find_user (us_id u) w = None")
  case False
  define w1 where "w1 = set_user (us_id u)
      (\<lambda>u. (set_login_state clearLoginLockout u)\<lparr>us_lastLoginAt := Some now\<rparr>) w"
  have "auth_ok w1" unfolding w1_def using assms(1) by (intro auth_ok_set_user) simp_all
  moreover have "fresh_draws fr w1" unfolding w1_def using assms(2) by (subst fresh_set_user) simp_all
  moreover have "find_user (us_id u) w1 \<noteq> None" unfolding w1_def using False by (subst find_user_set_user) simp_all
  ultimately have "auth_ok (snd (open_session C cfg fr now (us_id u) (lg_device dto) ctx w1))"
    using open_session_ok [of w1 fr "us_id u"] by (simp add: fresh_draws_def)
  then show ?thesis using False
    by (auto simp: login_succeeded_def w1_def [symmetric] Let_def case_prod_beta promote_ok auth_frame)
qed (use assms in \<open>simp add: login_succeeded_def\<close>)

lemma login_ok:
  assumes "auth_ok w" and "fresh_draws fr w" and "polite fr interf"
  shows "auth_ok (after (login C cfg check dummy interf fr now dto ctx w))"
proof -
  define w1 where "w1 = snd (challenge_due now (to_lower (raw_identifier dto)) (find_login_user (raw_identifier dto) w) w)"
  have w1: "auth_ok w1" "fresh_draws fr w1" using assms by (simp_all add: w1_def challenge_due_ok)
  then have w2: "auth_ok (interf w1)" "fresh_draws fr (interf w1)" using assms(3) by (auto simp: polite_def)
  have w3: "auth_ok (clearUnknownIdentifier n (interf w1))" "fresh_draws fr (clearUnknownIdentifier n (interf w1))" for n
    using w2 by (simp_all add: clearUnknownIdentifier_def auth_frame)
  show ?thesis
    unfolding login_def Let_def case_prod_beta w1_def [symmetric]
    using assms(1) w1(1) w2(1) w3 login_failed_ok [OF w2(1)] login_succeeded_ok [OF w3]
    by (auto split: option.split sum.split)
qed

lemma sessions_update_ok:
  assumes "auth_ok w" and "\<And>s. as_id (f s) = as_id s" and "\<And>s. session_owner (f s) = session_owner s"
    and "\<And>s. live (f s) \<Longrightarrow> live s"
  shows "auth_ok (w\<lparr>auth_sessions := update_where p f (auth_sessions w)\<rparr>)"
  using assms sessions_inv_revoke [of _ "auth_sessions w" f p] by (simp add: auth_ok_def)

lemma refresh_ok:
  assumes "auth_ok w" and "\<And>w. auth_ok w \<Longrightarrow> auth_ok (interf w)"
  shows "auth_ok (after (refresh C cfg interf random now later token w))"
proof -
  have rotate: "auth_ok (after (rotate C cfg interf random now later h s w'))" if w': "auth_ok w'" for h s w'
  proof -
    have "auth_ok (interf w'\<lparr>auth_sessions := update_where (\<lambda>s'. as_id s' = as_id s \<and> as_refreshTokenHash s' = h)
        (\<lambda>s. s\<lparr>as_refreshTokenHash := x, as_expiresAt := y\<rparr>) (auth_sessions (interf w'))\<rparr>)" for x y
      using assms(2) [OF w'] by (intro sessions_update_ok) (auto simp: session_owner_def live_def)
    from this [THEN auth_ok_maps(2) [THEN iffD2]] show ?thesis using assms(2) [OF w']
      by (auto simp: rotate_def Let_def split: option.splits)
  qed
  show ?thesis using assms(1) rotate
    by (auto simp: refresh_def Let_def drop_expired_rotations_def auth_frame split: option.splits)
qed

lemma revoke_where_ok:
  assumes "auth_ok w"
  shows "auth_ok (w\<lparr>recent_rotations := r,
    auth_sessions := update_where p (\<lambda>s. s\<lparr>as_revokedAt := Some now\<rparr>) (auth_sessions w)\<rparr>)"
proof -
  have "auth_ok (w\<lparr>recent_rotations := r\<rparr>)" using assms by (simp add: auth_frame)
  from sessions_update_ok [OF this, of "\<lambda>s. s\<lparr>as_revokedAt := Some now\<rparr>" p] show ?thesis
    by (simp add: session_owner_def live_def)
qed

lemma logout_ok: "auth_ok w \<Longrightarrow> auth_ok (logout C now token w)"
  by (auto simp: logout_def Let_def drop_rotations_of_def revoke_where_ok split: option.splits)

lemma device_update_ok:
  assumes "auth_ok w" and "\<And>d. device_owner (f d) = device_owner d"
  shows "auth_ok (w\<lparr>devices := update_where p f (devices w)\<rparr>)"
proof -
  have "dv_id (f d) = dv_id d" "dv_userId (f d) = dv_userId d" for d
    using assms(2) [of d] by (simp_all add: device_owner_def)
  then have "map dv_id (update_where p f (devices w)) = map dv_id (devices w)"
    "map dv_userId (update_where p f (devices w)) = map dv_userId (devices w)"
    "map device_owner (update_where p f (devices w)) = map device_owner (devices w)"
    using assms(2) by (simp_all add: map_update_where)
  then have "dv_userId ` set (update_where p f (devices w)) = dv_userId ` set (devices w)"
    "device_owner ` set (update_where p f (devices w)) = device_owner ` set (devices w)"
    "distinct (map dv_id (update_where p f (devices w))) = distinct (map dv_id (devices w))"
    by (metis set_map)+
  then show ?thesis using assms(1) by (simp add: auth_ok_def devices_inv_def)
qed

lemma revoke_one_ok: "auth_ok w \<Longrightarrow> auth_ok (revokeSessionAndDisconnect now i d reason w)"
proof -
  assume w: "auth_ok w"
  have push: "auth_ok ((snd (pushToDevice d e w'))\<lparr>disconnect_timers := x\<rparr>) = auth_ok w'" for e w' x
    by (rule auth_ok_cong) (simp_all add: to_device.after_send)
  have "auth_ok (drop_rotations_of i w\<lparr>auth_sessions := update_where (\<lambda>s. as_id s = i)
      (\<lambda>s. s\<lparr>as_revokedAt := Some now\<rparr>) (auth_sessions (drop_rotations_of i w))\<rparr>)"
    using w by (intro sessions_update_ok) (auto simp: drop_rotations_of_def auth_frame session_owner_def live_def)
  from device_update_ok [OF this, of "\<lambda>d. d\<lparr>dv_revokedAt := Some now\<rparr>" "\<lambda>x. dv_id x = d"]
  show ?thesis by (simp add: revokeSessionAndDisconnect_def Let_def push device_owner_def)
qed

lemma revokeSession_ok: "auth_ok w \<Longrightarrow> auth_ok (after (revokeSession now u i w))"
  by (auto simp: revokeSession_def auth_frame revoke_one_ok split: option.splits)

lemma revokeOtherSessions_ok:
  assumes "auth_ok w"
  shows "auth_ok (snd (revokeOtherSessions now u d w))"
proof -
  have "auth_ok w \<Longrightarrow> auth_ok (foldl (\<lambda>w s. revokeSessionAndDisconnect now (as_id s) (as_deviceId s) r w) w ss)" for w r ss
    by (induction ss arbitrary: w) (simp_all add: revoke_one_ok)
  from this [OF assms] have "auth_ok (foldl (\<lambda>w s. revokeSessionAndDisconnect now (as_id s) (as_deviceId s)
      ''revoked_by_user'' w) w (other_sessions u d w))" .
  then show ?thesis by (simp add: revokeOtherSessions_def Let_def auth_frame assms)
qed

lemma distinct_map_filter_mono: "distinct (map k rs) \<Longrightarrow> distinct (map k (filter p (filter q rs)))"
  by (simp add: distinct_map_filter)

lemma sessions_inv_delete:
  assumes "sessions_inv owners ss" and "\<And>s. s \<in> set ss \<Longrightarrow> \<not> p s \<Longrightarrow> session_owner s \<in> owners'"
  shows "sessions_inv owners' (delete_where p ss)"
proof -
  have "filter live (delete_where p ss) = filter (\<lambda>s. \<not> p s) (filter live ss)"
    by (simp add: delete_where_def conj_commute)
  moreover have "distinct (map session_owner (filter (\<lambda>s. \<not> p s) (filter live ss)))"
    by (rule distinct_map_filter) (use assms(1) in \<open>simp add: sessions_inv_def\<close>)
  ultimately have "distinct (map session_owner (filter live (delete_where p ss)))" by (simp only:)
  then show ?thesis using assms
    by (auto simp: sessions_inv_def distinct_map_delete_where table_simps)
qed

lemma cascade_account_ok:
  assumes "auth_ok w"
  shows "auth_ok (cascade_account u w)"
proof -
  let ?gone = "set (map dv_id (filter (\<lambda>d. dv_userId d = u) (devices w)))"
  let ?w = "cascade_account u w"
  have w': "users ?w = delete_where (\<lambda>x. us_id x = u) (users w)"
    "devices ?w = delete_where (\<lambda>d. dv_userId d = u) (devices w)"
    "auth_sessions ?w = delete_where (\<lambda>s. as_userId s = u \<or> as_deviceId s \<in> ?gone) (auth_sessions w)"
    by (simp_all add: cascade_account_def Let_def)
  have "users_inv (users ?w)" using assms by (simp add: auth_ok_def w' users_inv_delete)
  moreover have "devices_inv (us_id ` set (users ?w)) (devices ?w)"
    using assms by (force simp: auth_ok_def devices_inv_def w' distinct_map_delete_where table_simps)
  moreover have "sessions_inv (device_owner ` set (devices ?w)) (auth_sessions ?w)"
    unfolding w'(3)
  proof (rule sessions_inv_delete)
    show "sessions_inv (device_owner ` set (devices w)) (auth_sessions w)" using assms by (simp add: auth_ok_def)
    fix s assume s: "s \<in> set (auth_sessions w)" "\<not> (as_userId s = u \<or> as_deviceId s \<in> ?gone)"
    then obtain d where "d \<in> set (devices w)" "device_owner d = session_owner s"
      using assms by (fastforce simp: auth_ok_def sessions_inv_def)
    then show "session_owner s \<in> device_owner ` set (devices ?w)"
      using s(2) by (auto simp: w' table_simps device_owner_def session_owner_def intro!: image_eqI [of _ _ d])
  qed
  ultimately show ?thesis by (simp add: auth_ok_def)
qed

lemma deleteAccount_ok: "auth_ok w \<Longrightarrow> auth_ok (after (deleteAccount C u pw w))"
proof -
  assume w: "auth_ok w"
  have burned: "auth_ok (foldl (\<lambda>w convo. push (other_party u convo) (Conversation_Burned (cv_id convo)) w) w cs) = auth_ok w"
    for w cs by (rule auth_ok_cong; induction cs arbitrary: w) simp_all
  have "auth_ok (disconnectUser u w') = auth_ok w'" "auth_ok (cascade_rooms u w') = auth_ok w'"
    "auth_ok (cascade_conversations u w') = auth_ok w'" for w'
    by (rule auth_ok_cong; simp add: disconnectUser_def cascade_rooms_def cascade_conversations_def Let_def)+
  then show ?thesis using w
    by (auto simp: deleteAccount_def delete_user_def Let_def burned cascade_account_ok split: sum.split)
qed

section \<open>Steps of the account and session handlers\<close>

inductive auth_step :: "crypto \<Rightarrow> auth_config \<Rightarrow> siteverify \<Rightarrow> string \<Rightarrow> world \<Rightarrow> world \<Rightarrow> bool"
  for C cfg check dummy where
  step_register: "fresh_draws fr w \<Longrightarrow> polite fr interf \<Longrightarrow>
    auth_step C cfg check dummy w (after (register_account C cfg check interf fr now rdto ctx w))"
| step_verify: "polite fr interf \<Longrightarrow> auth_step C cfg check dummy w (after (verifyEmail C interf now email code w))"
| step_resend: "auth_step C cfg check dummy w (after (resendVerification C cfg fr now email w))"
| step_add_email: "auth_step C cfg check dummy w (after (addEmail C cfg fr now u email w))"
| step_username: "polite fr interf \<Longrightarrow> auth_step C cfg check dummy w (after (changeUsername interf now u name w))"
| step_password: "auth_step C cfg check dummy w (after (changePassword C salt u cur pw w))"
| step_delete: "auth_step C cfg check dummy w (after (deleteAccount C u pw w))"
| step_login: "fresh_draws fr w \<Longrightarrow> polite fr interf \<Longrightarrow>
    auth_step C cfg check dummy w (after (login C cfg check dummy interf fr now ldto ctx w))"
| step_refresh: "polite fr interf \<Longrightarrow>
    auth_step C cfg check dummy w (after (refresh C cfg interf random now later token w))"
| step_logout: "auth_step C cfg check dummy w (logout C now token w)"
| step_revoke: "auth_step C cfg check dummy w (after (revokeSession now u i w))"
| step_revoke_others: "auth_step C cfg check dummy w (snd (revokeOtherSessions now u d w))"

inductive auth_run :: "crypto \<Rightarrow> auth_config \<Rightarrow> siteverify \<Rightarrow> string \<Rightarrow> world \<Rightarrow> world \<Rightarrow> bool"
  for C cfg check dummy where
  run_refl: "auth_run C cfg check dummy w w"
| run_step: "auth_run C cfg check dummy w w1 \<Longrightarrow> auth_step C cfg check dummy w1 w2 \<Longrightarrow>
    auth_run C cfg check dummy w w2"

lemma auth_step_ok: "auth_step C cfg check dummy w w' \<Longrightarrow> auth_ok w \<Longrightarrow> auth_ok w'"
proof (induction rule: auth_step.induct)
  case (step_verify fr interf w now email code)
  then show ?case by (intro verifyEmail_ok) (auto simp: polite_def)
next
  case (step_username fr interf w now u name)
  then show ?case by (intro changeUsername_ok) (auto simp: polite_def)
next
  case (step_refresh fr interf w random now later token)
  then show ?case by (intro refresh_ok) (auto simp: polite_def)
qed (simp_all add: register_account_ok resendVerification_ok addEmail_ok changePassword_ok deleteAccount_ok
    login_ok logout_ok revokeSession_ok revokeOtherSessions_ok)

lemma auth_run_ok: "auth_run C cfg check dummy w w' \<Longrightarrow> auth_ok w \<Longrightarrow> auth_ok w'"
  by (induction rule: auth_run.induct) (auto dest: auth_step_ok)


end
