(* ===== verification/GoogleAuth.thy ===== *)
theory GoogleAuth
  imports Sessions
begin

text \<open>
  Signing in with Google: \<open>auth/google-auth.service.ts\<close> (the signed state of the
  redirect, the verification of the id token, the single-use tickets) and
  \<open>loginOrRegisterGoogleUser\<close> of \<open>auth/auth.service.ts\<close>. What Google's client
  library answers is an argument: \<open>None\<close> where it throws.
\<close>

section \<open>encodeURIComponent\<close>

text \<open>On ASCII; an escape of a byte above 127 is not the encoding of an ASCII text and is rejected.\<close>

definition upper_hex :: "nat \<Rightarrow> char" where
  "upper_hex n = (if n < 10 then char_of (n + 48) else char_of (n + 55))"

definition uri_unreserved :: "char \<Rightarrow> bool" where
  "uri_unreserved c \<longleftrightarrow>
     (let n = (of_char c :: nat) in (48 \<le> n \<and> n \<le> 57) \<or> (65 \<le> n \<and> n \<le> 90) \<or> (97 \<le> n \<and> n \<le> 122)) \<or>
     c \<in> set ''-_.!~*()'' \<or> c = CHR 0x27"

fun encodeURIComponent :: "string \<Rightarrow> string" where
  "encodeURIComponent [] = []"
| "encodeURIComponent (c # cs) =
     (if uri_unreserved c then c # encodeURIComponent cs
      else CHR ''%'' # upper_hex (of_char c div 16) # upper_hex (of_char c mod 16) # encodeURIComponent cs)"

fun decodeURIComponent :: "string \<Rightarrow> string option" where
  "decodeURIComponent [] = Some []"
| "decodeURIComponent (c # cs) =
     (if c \<noteq> CHR ''%'' then map_option (\<lambda>r. c # r) (decodeURIComponent cs)
      else case cs of
        a # b # rest \<Rightarrow>
          (case (hex_value a, hex_value b) of
             (Some x, Some y) \<Rightarrow>
               if x * 16 + y < 128 then map_option (\<lambda>r. char_of (x * 16 + y) # r) (decodeURIComponent rest)
               else None
           | _ \<Rightarrow> None)
      | _ \<Rightarrow> None)"

section \<open>google-auth.service.ts\<close>

record google_config =
  gc_clientId :: "string option"
  gc_secret :: string

record google_profile =
  gp_sub :: string
  gp_email :: string
  gp_name :: "string option"

record google_payload =
  gy_sub :: "string option"
  gy_email :: "string option"
  gy_email_verified :: bool
  gy_name :: "string option"

record google_state =
  gs_consumedNonces :: "json list"
  gs_tickets :: "(ident \<times> google_profile \<times> instant) list"

definition isConfigured :: "google_config \<Rightarrow> bool" where
  "isConfigured cfg \<longleftrightarrow> given (gc_clientId cfg) \<noteq> None"

definition not_configured :: http_error where
  "not_configured = Bad_Request ''Google authentication is not configured on this server.''"

text \<open>The state parameter of the redirect; the rest of the URL is built by the client library.\<close>

definition generateAuthUrl ::
  "crypto \<Rightarrow> google_config \<Rightarrow> bytes \<Rightarrow> instant \<Rightarrow> string \<Rightarrow> string option \<Rightarrow> http_error + string" where
  "generateAuthUrl C cfg random now action returnTo =
     (if \<not> isConfigured cfg then Inl not_configured
      else Inr (signOAuthState C random
             (''auth:'' @ action @ '':'' @ encodeURIComponent (case returnTo of None \<Rightarrow> '''' | Some r \<Rightarrow> r))
             (gc_secret cfg) state_ttl_ms now))"

definition verifyIdToken ::
  "google_config \<Rightarrow> (string \<Rightarrow> string \<Rightarrow> google_payload option option) \<Rightarrow> string \<Rightarrow> http_error + google_profile" where
  "verifyIdToken cfg library idToken =
     (case given (gc_clientId cfg) of
        None \<Rightarrow> Inl not_configured
      | Some audience \<Rightarrow>
          (case library audience idToken of
             None \<Rightarrow> Inl (Bad_Request ''Invalid or expired Google credential'')
           | Some None \<Rightarrow> Inl (Bad_Request ''Invalid Google token: missing required email or subject'')
           | Some (Some payload) \<Rightarrow>
               (case (given (gy_email payload), given (gy_sub payload)) of
                  (Some email, Some sub) \<Rightarrow>
                    if \<not> gy_email_verified payload then Inl (Bad_Request ''Google email is not verified'')
                    else Inr \<lparr>gp_sub = sub, gp_email = email, gp_name = gy_name payload\<rparr>
                | _ \<Rightarrow> Inl (Bad_Request ''Invalid Google token: missing required email or subject''))))"

definition ticket_ttl_ms :: int where
  "ticket_ttl_ms = 5 * 60 * 1000"

definition cleanupExpiredTickets :: "instant \<Rightarrow> google_state \<Rightarrow> google_state" where
  "cleanupExpiredTickets now g =
     g\<lparr>gs_tickets := filter (\<lambda>(_, _, expiresAt). \<not> now > expiresAt) (gs_tickets g)\<rparr>"

definition createTicket :: "ident \<Rightarrow> instant \<Rightarrow> google_profile \<Rightarrow> google_state \<Rightarrow> ident \<times> google_state" where
  "createTicket ticketId now profile g =
     (let g1 = cleanupExpiredTickets now g
      in (ticketId, g1\<lparr>gs_tickets := assoc_set ticketId (profile, now + ticket_ttl_ms) (gs_tickets g1)\<rparr>))"

definition consumeTicket :: "instant \<Rightarrow> ident \<Rightarrow> google_state \<Rightarrow> (http_error + google_profile) \<times> google_state" where
  "consumeTicket now ticketId g =
     (let g1 = cleanupExpiredTickets now g
      in case map_of (gs_tickets g1) ticketId of
           None \<Rightarrow> (Inl (Bad_Request ''Invalid or expired Google authentication ticket. Please try again.''), g1)
         | Some (profile, expiresAt) \<Rightarrow>
             let g2 = g1\<lparr>gs_tickets := map_delete ticketId (gs_tickets g1)\<rparr>
             in if now > expiresAt
                then (Inl (Bad_Request ''Google authentication ticket has expired. Please try again.''), g2)
                else (Inr profile, g2))"

text \<open>The action and the return path inside a verified state.\<close>

definition parse_state_content :: "json \<Rightarrow> string + (string \<times> string option)" where
  "parse_state_content v =
     (case v of
        JStr content \<Rightarrow>
          (case split_on (CHR '':'') content of
             _ # action # rest \<Rightarrow>
               let a = (if action = [] then ''login'' else action)
               in (case rest of
                     [] \<Rightarrow> Inr (a, None)
                   | r # _ \<Rightarrow>
                       if r = [] then Inr (a, None)
                       else (case decodeURIComponent r of
                           None \<Rightarrow> Inl ''URI malformed''
                         | Some d \<Rightarrow> Inr (a, Some d)))
           | _ \<Rightarrow> Inr (''login'', None))
      | _ \<Rightarrow> Inl ''stateContent.split is not a function'')"

definition handleCallback ::
  "crypto \<Rightarrow> google_config \<Rightarrow> (string \<Rightarrow> string option option) \<Rightarrow>
     (string \<Rightarrow> string \<Rightarrow> google_payload option option) \<Rightarrow> ident \<Rightarrow> instant \<Rightarrow> string \<Rightarrow> string \<Rightarrow> google_state \<Rightarrow>
     (http_error + (ident \<times> string \<times> string option)) \<times> google_state" where
  "handleCallback C cfg exchange library ticketId now code state g =
     (case verifyOAuthState C state (gc_secret cfg) now (gs_consumedNonces g) of
        (Inl message, nonces) \<Rightarrow> (Inl (Bad_Request message), g\<lparr>gs_consumedNonces := nonces\<rparr>)
      | (Inr content, nonces) \<Rightarrow>
          let g1 = g\<lparr>gs_consumedNonces := nonces\<rparr>
          in case parse_state_content content of
               Inl message \<Rightarrow> (Inl (Bad_Request message), g1)
             | Inr (action, returnTo) \<Rightarrow>
                 if \<not> isConfigured cfg then (Inl not_configured, g1)
                 else (case exchange code of
                     None \<Rightarrow> (Inl (Bad_Request ''Failed to exchange authorization code with Google''), g1)
                   | Some idToken \<Rightarrow>
                       (case given idToken of
                          None \<Rightarrow> (Inl (Bad_Request ''No ID token returned by Google''), g1)
                        | Some t \<Rightarrow>
                            (case verifyIdToken cfg library t of
                               Inl e \<Rightarrow> (Inl e, g1)
                             | Inr profile \<Rightarrow>
                                 (let (ticket, g2) = createTicket ticketId now profile g1
                                  in (Inr (ticket, action, returnTo), g2))))))"

section \<open>loginOrRegisterGoogleUser\<close>

record google_dto =
  gd_device :: device_dto
  gd_username :: "string option"

record google_reply =
  gl_userId :: ident
  gl_username :: string
  gl_email :: "string option"
  gl_role :: user_role
  gl_deviceId :: ident
  gl_isNewUser :: bool
  gl_autoGeneratedUsername :: bool
  gl_nextUsernameChangeAllowedAt :: "instant option"
  gl_appLock :: "(bool \<times> int) option"
  gl_accessToken :: string
  gl_refreshToken :: string

definition word_char :: "char \<Rightarrow> bool" where
  "word_char c \<longleftrightarrow>
     (let n = (of_char c :: nat) in (48 \<le> n \<and> n \<le> 57) \<or> (65 \<le> n \<and> n \<le> 90) \<or> (97 \<le> n \<and> n \<le> 122)) \<or>
     c = CHR ''_''"

definition ascii_letter :: "char \<Rightarrow> bool" where
  "ascii_letter c \<longleftrightarrow> (let n = (of_char c :: nat) in (65 \<le> n \<and> n \<le> 90) \<or> (97 \<le> n \<and> n \<le> 122))"

definition strip_underscores :: "string \<Rightarrow> string" where
  "strip_underscores s = rev (dropWhile (\<lambda>c. c = CHR ''_'') (rev (dropWhile (\<lambda>c. c = CHR ''_'') s)))"

definition base_name :: "string \<Rightarrow> string" where
  "base_name email =
     (let local = takeWhile (\<lambda>c. c \<noteq> CHR ''@'') email;
          rawPrefix = (if local \<noteq> [] \<and> CHR ''@'' \<in> set email then local else email);
          cleanPrefix = take 10 (strip_underscores (filter word_char rawPrefix))
      in if length cleanPrefix \<ge> 3 \<and> ascii_letter (hd cleanPrefix) then to_lower cleanPrefix else ''user'')"

text \<open>
  Up to ten random suffixes, then a random name. Only the reply for an account
  that existed carries the two app-lock columns.
\<close>

fun suffix_loop :: "nat \<Rightarrow> (nat \<Rightarrow> nat) \<Rightarrow> nat \<Rightarrow> string \<Rightarrow> world \<Rightarrow> string option" where
  "suffix_loop 0 draw k baseName w = None"
| "suffix_loop (Suc n) draw k baseName w =
     (let candidate = take 15 baseName @ ''_'' @ decimal (1000 + draw k mod 9000)
      in if find_username candidate w = None then Some candidate
         else suffix_loop n draw (Suc k) baseName w)"

definition generated_username :: "(nat \<Rightarrow> nat) \<Rightarrow> bytes \<Rightarrow> string \<Rightarrow> world \<Rightarrow> string" where
  "generated_username draw random email w =
     (let baseName = base_name email
      in if find_username baseName w = None then baseName
         else (case suffix_loop 10 draw 0 baseName w of
             Some candidate \<Rightarrow> candidate
           | None \<Rightarrow> ''u_'' @ hex_encode random))"

definition wanted_username :: "string option \<Rightarrow> world \<Rightarrow> string option" where
  "wanted_username username w =
     (case given username of
        None \<Rightarrow> None
      | Some u \<Rightarrow>
          let candidate = normalizeUsername u
          in if validateUsername candidate = None \<and> find_username candidate w = None then Some candidate
             else None)"

text \<open>\<open>user.create\<close> is not guarded here: a violated unique index is an internal error.\<close>

definition insert_user :: "user_row \<Rightarrow> world \<Rightarrow> unit res" where
  "insert_user u w =
     (if find_username (us_username u) w \<noteq> None \<or> find_email (the (us_email u)) w \<noteq> None
      then fail Unique_Violation w else ok () (w\<lparr>users := users w @ [u]\<rparr>))"

definition confirm_email :: "instant \<Rightarrow> user_row \<Rightarrow> world \<Rightarrow> world" where
  "confirm_email now user w =
     (if us_emailVerifiedAt user = None
      then consume_challenges (us_id user) now
             (set_user (us_id user)
               (\<lambda>u. (set_login_state clearLoginLockout u)\<lparr>us_emailVerifiedAt := Some now,
                      us_lastLoginAt := Some now\<rparr>) w)
      else set_user (us_id user)
             (\<lambda>u. (set_login_state clearLoginLockout u)\<lparr>us_lastLoginAt := Some now\<rparr>) w)"

definition google_existing ::
  "crypto \<Rightarrow> auth_config \<Rightarrow> draws \<Rightarrow> instant \<Rightarrow> google_dto \<Rightarrow> request_context \<Rightarrow> user_row \<Rightarrow> world \<Rightarrow>
     google_reply res" where
  "google_existing C cfg fr now dto ctx user w =
     (let w1 = confirm_email now user w;
          (opened, w2) = open_session C cfg fr now (us_id user) (gd_device dto) ctx w1;
          w3 = log_event (us_id user) Ev_New_Device (device_label (gd_device dto)) w2;
          (role, w4) = promote cfg user w3
      in ok \<lparr>gl_userId = us_id user, gl_username = us_username user, gl_email = us_email user,
             gl_role = role, gl_deviceId = fst (fst opened), gl_isNewUser = False,
             gl_autoGeneratedUsername = False,
             gl_nextUsernameChangeAllowedAt = nextUsernameChangeAllowedAt (us_usernameChangedAt user),
             gl_appLock = Some (app_lock_of (us_id user) w3), gl_accessToken = fst (snd opened),
             gl_refreshToken = snd (snd opened)\<rparr> w4)"

definition google_new ::
  "crypto \<Rightarrow> auth_config \<Rightarrow> (world \<Rightarrow> world) \<Rightarrow> draws \<Rightarrow> (nat \<Rightarrow> nat) \<Rightarrow> bytes \<Rightarrow> string \<Rightarrow> instant \<Rightarrow>
     string \<Rightarrow> google_dto \<Rightarrow> request_context \<Rightarrow> world \<Rightarrow> google_reply res" where
  "google_new C cfg interf fr draw random randomPassword now email dto ctx w =
     (let wanted = wanted_username (gd_username dto) w;
          username = (case wanted of Some u \<Rightarrow> u | None \<Rightarrow> generated_username draw random email w)
      in case hashPassword C (fr_salt fr) randomPassword of
           Inl e \<Rightarrow> fail e w
         | Inr passwordHash \<Rightarrow>
             let role = (if is_admin_email cfg email then Role_Superadmin else Role_User);
                 user = new_user (fr_userId fr) passwordHash username email role (Some now) now
             in (case insert_user user (interf w) of
                   (Inl e, w1) \<Rightarrow> fail e w1
                 | (Inr _, w1) \<Rightarrow>
                     (let (opened, w2) = open_session C cfg fr now (us_id user) (gd_device dto) ctx w1;
                          w3 = log_event (us_id user) Ev_New_Device (device_label (gd_device dto)) w2
                      in ok \<lparr>gl_userId = us_id user, gl_username = username, gl_email = Some email,
                             gl_role = role, gl_deviceId = fst (fst opened), gl_isNewUser = True,
                             gl_autoGeneratedUsername = (wanted = None),
                             gl_nextUsernameChangeAllowedAt = None, gl_appLock = None,
                             gl_accessToken = fst (snd opened), gl_refreshToken = snd (snd opened)\<rparr> w3)))"

definition loginOrRegisterGoogleUser ::
  "crypto \<Rightarrow> auth_config \<Rightarrow> (world \<Rightarrow> world) \<Rightarrow> draws \<Rightarrow> (nat \<Rightarrow> nat) \<Rightarrow> bytes \<Rightarrow> string \<Rightarrow> instant \<Rightarrow>
     google_profile \<Rightarrow> google_dto \<Rightarrow> request_context \<Rightarrow> world \<Rightarrow> google_reply res" where
  "loginOrRegisterGoogleUser C cfg interf fr draw random randomPassword now profile dto ctx w =
     (let email = normalizeEmail (gp_email profile)
      in case find_email email w of
           Some user \<Rightarrow> google_existing C cfg fr now dto ctx user w
         | None \<Rightarrow> google_new C cfg interf fr draw random randomPassword now email dto ctx w)"

section \<open>What the redirect guarantees\<close>

lemma hex_value_upper: "n < 16 \<Longrightarrow> hex_value (upper_hex n) = Some n"
  by (auto simp: upper_hex_def hex_value_def of_char_of_small Let_def)

definition ascii :: "string \<Rightarrow> bool" where
  "ascii s \<longleftrightarrow> list_all (\<lambda>c. (of_char c :: nat) < 128) s"

lemma percent_reserved: "\<not> uri_unreserved (CHR ''%'')"
  by (simp add: uri_unreserved_def Let_def)

lemma decode_encode_uri: "ascii s \<Longrightarrow> decodeURIComponent (encodeURIComponent s) = Some s"
proof (induction s)
  case (Cons c cs)
  have c: "(of_char c :: nat) < 128" and cs: "ascii cs" using Cons.prems by (auto simp: ascii_def)
  show ?case
  proof (cases "uri_unreserved c")
    case True
    then have "c \<noteq> CHR ''%''" using percent_reserved by auto
    then show ?thesis using True Cons.IH [OF cs] by simp
  next
    case False
    have "(of_char c :: nat) div 16 < 16" using c by simp
    then show ?thesis using False Cons.IH [OF cs] c by (simp add: hex_value_upper)
  qed
qed simp

lemma encode_uri_no_colon: "CHR '':'' \<notin> set (encodeURIComponent s)"
proof (induction s)
  case (Cons c cs)
  have "upper_hex n \<noteq> CHR '':''" if "n < 16" for n
  proof
    assume "upper_hex n = CHR '':''"
    then have "(of_char (upper_hex n) :: nat) = 58" by simp
    then show False using that by (auto simp: upper_hex_def of_char_of_small split: if_splits)
  qed
  then have "CHR '':'' \<noteq> upper_hex n" if "n < 16" for n using that by metis
  moreover have "(of_char c :: nat) div 16 < 16" using of_char_lt [of c] by (simp add: less_mult_imp_div_less)
  moreover have "\<not> uri_unreserved (CHR '':'')" by (simp add: uri_unreserved_def Let_def)
  ultimately show ?case using Cons by auto
qed simp

lemma encode_uri_empty: "encodeURIComponent s = [] \<longleftrightarrow> s = []"
  by (cases s) auto

lemma parse_own_state:
  assumes "action \<noteq> []" and "CHR '':'' \<notin> set action" and "ascii r"
  shows "parse_state_content (JStr (''auth:'' @ action @ '':'' @ encodeURIComponent r)) =
    Inr (action, if r = [] then None else Some r)"
proof -
  have "split_on (CHR '':'') (''auth'' @ CHR '':'' # (action @ CHR '':'' # encodeURIComponent r)) =
      [''auth'', action, encodeURIComponent r]"
    using assms(2) encode_uri_no_colon [of r]
    by (subst split_on_append, simp) (simp add: split_on_append split_on_absent)
  then show ?thesis using assms(1) decode_encode_uri [OF assms(3)] encode_uri_empty [of r]
    by (simp add: parse_state_content_def Let_def)
qed

text \<open>
  The redirect comes back to where it left: a callback with the state the
  server signed, within ten minutes and for the first time, exchanges the code,
  takes the verified profile, hands out a ticket for it and returns the action
  and the return path the flow was started with; the ticket is good for one
  sign-in within five minutes.
\<close>

theorem google_callback_roundtrip:
  assumes url: "generateAuthUrl C cfg random t action (Some r) = Inr state"
    and texts: "action \<noteq> []" "CHR '':'' \<notin> set action" "ascii r" "random \<noteq> []"
    and time: "0 < t" "t \<le> now" "now \<le> t + state_ttl_ms" "now \<le> later"
    and mac: "\<And>m. hmac_sha256 C (gc_secret cfg) m \<noteq> []"
    and new: "JStr (hex_encode random) \<notin> set (gs_consumedNonces g)" "i \<notin> fst ` set (gs_tickets g)"
    and exchange: "exchange code = Some (Some idToken)" "verifyIdToken cfg library idToken = Inr profile" "idToken \<noteq> []"
  shows "\<exists>g'. handleCallback C cfg exchange library i now code state g =
      (Inr (i, action, if r = [] then None else Some r), g') \<and>
    fst (consumeTicket later i g') = (if later \<le> now + ticket_ttl_ms then Inr profile
      else Inl (Bad_Request ''Invalid or expired Google authentication ticket. Please try again.'')) \<and>
    (\<exists>e. fst (consumeTicket again i (snd (consumeTicket later i g'))) = Inl e)"
proof -
  let ?content = "''auth:'' @ action @ '':'' @ encodeURIComponent r"
  have conf: "isConfigured cfg" and state: "state = signOAuthState C random ?content (gc_secret cfg) state_ttl_ms t"
    using url by (auto simp: generateAuthUrl_def split: if_splits)
  have v: "verifyOAuthState C state (gc_secret cfg) now (gs_consumedNonces g) =
      (Inr (JStr ?content), consume_nonce (JStr (hex_encode random)) (gs_consumedNonces g))"
    unfolding state by (subst verify_signed_state) (use texts time mac new in \<open>auto simp: state_ttl_ms_def\<close>)
  define g1 where "g1 = g\<lparr>gs_consumedNonces := consume_nonce (JStr (hex_encode random)) (gs_consumedNonces g)\<rparr>"
  define g2 where "g2 = snd (createTicket i now profile g1)"
  have cb: "handleCallback C cfg exchange library i now code state g =
      (Inr (i, action, if r = [] then None else Some r), g2)"
    using exchange conf parse_own_state [OF texts(1-3)]
    by (simp add: handleCallback_def v g1_def [symmetric] g2_def given_def createTicket_def Let_def)
  have set: "assoc_set k v m = m @ [(k, v)]" if "k \<notin> fst ` set m" for k v and m :: "(ident \<times> google_profile \<times> instant) list"
    using that by (induction m) auto
  have "i \<notin> fst ` set (gs_tickets (cleanupExpiredTickets now g1))"
    using new(2) by (auto simp: cleanupExpiredTickets_def g1_def)
  note fresh = this
  have tick: "gs_tickets g2 = gs_tickets (cleanupExpiredTickets now g1) @ [(i, profile, now + ticket_ttl_ms)]"
    by (simp add: g2_def createTicket_def Let_def set [OF fresh])
  have none: "map_of (filter p (gs_tickets (cleanupExpiredTickets now g1))) i = None" for p
    using fresh by (force simp: map_of_eq_None_iff)
  have tick2: "map_of (gs_tickets (cleanupExpiredTickets later g2)) i =
      (if later \<le> now + ticket_ttl_ms then Some (profile, now + ticket_ttl_ms) else None)"
    using none by (simp add: cleanupExpiredTickets_def [of later] tick map_add_def)
  have first: "fst (consumeTicket later i g2) = (if later \<le> now + ticket_ttl_ms then Inr profile
      else Inl (Bad_Request ''Invalid or expired Google authentication ticket. Please try again.''))"
    using tick2 by (simp add: consumeTicket_def Let_def)
  have gone: "i \<notin> fst ` set (gs_tickets (snd (consumeTicket later i g2)))"
  proof (cases "later \<le> now + ticket_ttl_ms")
    case True
    then show ?thesis using tick2 by (auto simp: consumeTicket_def Let_def map_delete_def)
  next
    case False
    then have n: "map_of (gs_tickets (cleanupExpiredTickets later g2)) i = None" using tick2 by simp
    then have "snd (consumeTicket later i g2) = cleanupExpiredTickets later g2"
      by (simp add: consumeTicket_def Let_def)
    then show ?thesis using n by (simp add: map_of_eq_None_iff)
  qed
  have "map_of (gs_tickets (cleanupExpiredTickets again (snd (consumeTicket later i g2)))) i = None"
    using gone by (force simp: map_of_eq_None_iff cleanupExpiredTickets_def)
  then have "\<exists>e. fst (consumeTicket again i (snd (consumeTicket later i g2))) = Inl e"
    by (simp add: consumeTicket_def [of again] Let_def)
  then show ?thesis using cb first by blast
qed

definition demo_google :: google_config where
  "demo_google = \<lparr>gc_clientId = Some ''app'', gc_secret = ''k''\<rparr>"

definition demo_payload :: google_payload where
  "demo_payload = \<lparr>gy_sub = Some ''9'', gy_email = Some ''a@b.c'', gy_email_verified = True, gy_name = None\<rparr>"

lemma google_callback_roundtrip_witness:
  "\<exists>state g'. handleCallback echo_crypto demo_google (\<lambda>_. Some (Some ''t'')) (\<lambda>_ _. Some (Some demo_payload)) ''i'' 5
      ''c'' state \<lparr>gs_consumedNonces = [], gs_tickets = []\<rparr> = (Inr (''i'', ''login'', Some ''/chat''), g')"
proof -
  define g :: google_state where "g = \<lparr>gs_consumedNonces = [], gs_tickets = []\<rparr>"
  obtain state where "generateAuthUrl echo_crypto demo_google ''r'' 1 ''login'' (Some ''/chat'') = Inr state"
    by (simp add: generateAuthUrl_def isConfigured_def demo_google_def given_def)
  from google_callback_roundtrip [OF this, where g = g and now = 5 and later = 6 and again = 7 and i = "''i''"
      and exchange = "\<lambda>_. Some (Some ''t'')" and code = "''c''" and idToken = "''t''"
      and library = "\<lambda>_ _. Some (Some demo_payload)"
      and profile = "\<lparr>gp_sub = ''9'', gp_email = ''a@b.c'', gp_name = None\<rparr>"]
  show ?thesis
    by (auto simp: g_def ascii_def state_ttl_ms_def echo_crypto_def demo_google_def verifyIdToken_def given_def
        demo_payload_def)
qed

section \<open>Signing in\<close>

lemma confirm_email_ok:
  assumes "auth_ok w" and "fresh_draws fr w" and "find_user (us_id u) w \<noteq> None"
  shows "auth_ok (confirm_email now u w) \<and> fresh_draws fr (confirm_email now u w) \<and>
    find_user (us_id u) (confirm_email now u w) \<noteq> None"
proof -
  let ?f = "\<lambda>u. (set_login_state clearLoginLockout u)\<lparr>us_emailVerifiedAt := Some now, us_lastLoginAt := Some now\<rparr>"
  let ?g = "\<lambda>u. (set_login_state clearLoginLockout u)\<lparr>us_lastLoginAt := Some now\<rparr>"
  have k: "user_key (?f x) = user_key x" "us_id (?f x) = us_id x" "user_key (?g x) = user_key x" "us_id (?g x) = us_id x" for x
    by (simp_all add: user_key_def set_login_state_def)
  have "auth_ok (set_user (us_id u) ?f w)" "auth_ok (set_user (us_id u) ?g w)"
    using auth_ok_set_user [of ?f w "us_id u"] auth_ok_set_user [of ?g w "us_id u"] k assms(1) by blast+
  moreover have "fresh_draws fr (set_user (us_id u) ?f w)" "fresh_draws fr (set_user (us_id u) ?g w)"
    using fresh_set_user [of ?f] fresh_set_user [of ?g] k assms(2) by blast+
  moreover have "find_user (us_id u) (set_user (us_id u) ?f w) \<noteq> None" "find_user (us_id u) (set_user (us_id u) ?g w) \<noteq> None"
    using find_user_set_user [of ?f "us_id u" "us_id u" w] find_user_set_user [of ?g "us_id u" "us_id u" w] k assms(3)
    by simp_all
  ultimately show ?thesis by (simp add: confirm_email_def auth_frame)
qed

lemma insert_user_ok:
  assumes "insert_user u w = ok x w'" and "auth_ok w" and "us_id u \<notin> us_id ` set (users w)"
    and "us_email u = Some e"
  shows "auth_ok w' \<and> find_user (us_id u) w' \<noteq> None \<and> devices w' = devices w \<and>
    auth_sessions w' = auth_sessions w"
proof -
  have "create_user u w = ok x w'" using assms(1) by (auto simp: insert_user_def create_user_def split: if_splits)
  then show ?thesis by (rule create_user_ok [OF _ assms(2-4)])
qed

lemma google_login_ok:
  assumes "auth_ok w" and "fresh_draws fr w" and "polite fr interf"
  shows "auth_ok (after (loginOrRegisterGoogleUser C cfg interf fr draw random rp now profile dto ctx w))"
proof (cases "find_email (normalizeEmail (gp_email profile)) w")
  case (Some u)
  then have "u \<in> set (users w)" by (auto simp: find_email_def dest: find_Some_in)
  then have "find_user (us_id u) w \<noteq> None" unfolding find_user_in by simp
  from confirm_email_ok [OF assms(1,2) this, of now]
  have "auth_ok (snd (open_session C cfg fr now (us_id u) (gd_device dto) ctx (confirm_email now u w)))"
    using open_session_ok [of "confirm_email now u w" fr "us_id u"] by (simp add: fresh_draws_def)
  then show ?thesis using Some
    by (simp add: loginOrRegisterGoogleUser_def google_existing_def Let_def case_prod_beta promote_ok auth_frame)
next
  case None
  let ?email = "normalizeEmail (gp_email profile)"
  have w: "auth_ok (interf w)" "fresh_draws fr (interf w)" using assms by (auto simp: polite_def)
  have new: "auth_ok (snd (open_session C cfg fr now (us_id u) (gd_device dto) ctx w1))"
    if "insert_user u (interf w) = ok x w1" "us_id u = fr_userId fr" "us_email u = Some e" for u w1 x e
    using insert_user_ok [OF that(1) w(1) _ that(3)] that(2) w(2)
      open_session_ok [of w1 fr "us_id u"] by (auto simp: fresh_draws_def)
  have old: "auth_ok w1" if "insert_user u (interf w) = fail e w1" for u e w1
    using that w by (auto simp: insert_user_def split: if_splits)
  define user where "user h = new_user (fr_userId fr) h
      (case wanted_username (gd_username dto) w of Some n \<Rightarrow> n | None \<Rightarrow> generated_username draw random ?email w)
      ?email (if is_admin_email cfg ?email then Role_Superadmin else Role_User) (Some now) now" for h
  have user: "us_id (user h) = fr_userId fr" "us_email (user h) = Some ?email" for h
    by (simp_all add: user_def new_user_def)
  show ?thesis
  proof (cases "hashPassword C (fr_salt fr) rp")
    case (Inl e)
    then show ?thesis using None assms(1)
      by (simp add: loginOrRegisterGoogleUser_def google_new_def Let_def)
  next
    case (Inr h)
    obtain r w1 where i: "insert_user (user h) (interf w) = (r, w1)" by fastforce
    show ?thesis
    proof (cases r)
      case (Inl e)
      then show ?thesis using None Inr i old [of "user h" e w1]
        by (simp add: loginOrRegisterGoogleUser_def google_new_def Let_def user_def [symmetric])
    next
      case (Inr x)
      then show ?thesis using None \<open>hashPassword C (fr_salt fr) rp = Inr h\<close> i new [OF _ user] user
        by (simp add: loginOrRegisterGoogleUser_def google_new_def Let_def user_def [symmetric]
            case_prod_beta auth_frame)
    qed
  qed
qed

text \<open>
  Linking a Google identity to an account that was registered with the same
  address and never verified keeps its password and its other sessions: whoever
  registered the address first stays signed in to the account of its owner.
\<close>

lemma google_link_keeps_password:
  assumes "find_email (normalizeEmail (gp_email profile)) w = Some u" and "distinct (map us_id (users w))"
  shows "\<exists>r w'. loginOrRegisterGoogleUser C cfg interf fr draw random rp now profile dto ctx w = ok r w' \<and>
    gl_userId r = us_id u \<and> map us_passwordHash (users w') = map us_passwordHash (users w)"
proof -
  have p: "map us_passwordHash (users (snd (promote cfg u w'))) = map us_passwordHash (users w')" for w'
    by (simp add: promote_def set_user_def map_update_where)
  have c: "map us_passwordHash (users (confirm_email now u w)) = map us_passwordHash (users w)"
    by (simp add: confirm_email_def set_user_def consume_challenges_def map_update_where set_login_state_def)
  have o: "users (snd (open_session C cfg fr now i d ctx w')) = users w'" for i d w'
    by (simp add: open_session_def case_prod_beta issueSession_def findOrCreateDevice_def Let_def split: option.split)
  show ?thesis using assms(1)
    by (simp add: loginOrRegisterGoogleUser_def google_existing_def Let_def case_prod_beta p o c auth_frame)
qed

text \<open>A generated user name can break the rules that a chosen one must keep.\<close>

lemma generated_name_breaks_rules:
  "generated_username (\<lambda>_. 0) [] ''ab__c@x.y'' empty_world = ''ab__c'' \<and>
   validateUsername ''ab__c'' = Some Username_Underscores"
  by code_simp

end
