(* ===== verification/Access.thy ===== *)
theory Access
  imports Sessions
begin

text \<open>
  What the account and session handlers of the theories Accounts and Sessions
  promise: when a login succeeds, what a refresh needs and returns, what a
  revocation cuts off, how an e-mail code is spent, and what the deletion of an
  account leaves behind; and the races and gaps the code has there.
\<close>

section \<open>Logging in\<close>

definition may_log_in ::
  "crypto \<Rightarrow> auth_config \<Rightarrow> siteverify \<Rightarrow> (world \<Rightarrow> world) \<Rightarrow> instant \<Rightarrow> login_dto \<Rightarrow>
     request_context \<Rightarrow> world \<Rightarrow> user_row \<Rightarrow> bool" where
  "may_log_in C cfg check interf now dto ctx w u \<longleftrightarrow>
     (let rawId = raw_identifier dto; due = challenge_due now (to_lower rawId) (Some u) w
      in rawId \<noteq> [] \<and> find_login_user rawId w = Some u \<and>
         (\<not> fst due \<or> (given (lg_turnstileToken dto) \<noteq> None \<and>
            verifyToken cfg check (lg_turnstileToken dto) (rc_ip ctx) = None)) \<and>
         verifyPassword C (lg_password dto) (us_passwordHash u) = Inr True \<and>
         \<not> isLoginLocked (login_state u) now \<and> \<not> unverified_email rawId u \<and>
         find_user (us_id u) (interf (snd due)) \<noteq> None)"

lemma open_session_opens:
  "\<exists>s \<in> set (auth_sessions (snd (open_session C cfg fr now u dto ctx w))).
     as_userId s = u \<and> as_id s = fr_sessionId fr \<and> as_revokedAt s = None \<and>
     as_deviceId s = fst (fst (fst (open_session C cfg fr now u dto ctx w))) \<and>
     as_expiresAt s = now + refresh_token_ttl_ms \<and>
     as_refreshTokenHash s = hashRefreshToken C (snd (snd (fst (open_session C cfg fr now u dto ctx w))))"
  by (auto simp: open_session_def issueSession_def case_prod_beta Let_def)

lemma login_succeeded_reply:
  assumes "find_user (us_id u) w \<noteq> None"
  shows "\<exists>r w'. login_succeeded C cfg fr now dto ctx u w = ok r w' \<and> lr_userId r = us_id u \<and>
    (\<exists>s \<in> set (auth_sessions w'). as_userId s = us_id u \<and> as_deviceId s = lr_deviceId r \<and>
       as_revokedAt s = None \<and> as_expiresAt s = now + refresh_token_ttl_ms \<and>
       as_refreshTokenHash s = hashRefreshToken C (lr_refreshToken r))"
proof -
  define w1 where "w1 = set_user (us_id u)
      (\<lambda>u. (set_login_state clearLoginLockout u)\<lparr>us_lastLoginAt := Some now\<rparr>) w"
  have p: "auth_sessions (snd (promote cfg u w')) = auth_sessions w'" for w'
    by (simp add: promote_def auth_frame)
  show ?thesis
    using assms open_session_opens [of C cfg fr now "us_id u" "lg_device dto" ctx w1]
    by (auto simp: login_succeeded_def w1_def [symmetric] Let_def case_prod_beta p auth_frame)
qed

lemma login_failed_fails: "\<exists>e. out (login_failed now n u w) = Inl e"
  by (auto simp: login_failed_def Let_def case_prod_beta split: option.split)

lemma login_challenged:
  assumes "raw_identifier dto \<noteq> []"
    and "fst (challenge_due now (to_lower (raw_identifier dto)) (find_login_user (raw_identifier dto) w) w)"
    and "given (lg_turnstileToken dto) = None \<or> verifyToken cfg check (lg_turnstileToken dto) (rc_ip ctx) \<noteq> None"
  shows "\<exists>e. out (login C cfg check dummy interf fr now dto ctx w) = Inl e"
  using assms by (auto simp: login_def Let_def case_prod_beta)

definition unchallenged ::
  "auth_config \<Rightarrow> siteverify \<Rightarrow> instant \<Rightarrow> login_dto \<Rightarrow> request_context \<Rightarrow> world \<Rightarrow> bool" where
  "unchallenged cfg check now dto ctx w \<longleftrightarrow>
     \<not> fst (challenge_due now (to_lower (raw_identifier dto)) (find_login_user (raw_identifier dto) w) w) \<or>
     (given (lg_turnstileToken dto) \<noteq> None \<and> verifyToken cfg check (lg_turnstileToken dto) (rc_ip ctx) = None)"

lemma login_unchallenged:
  assumes "raw_identifier dto \<noteq> []" and "unchallenged cfg check now dto ctx w"
  shows "login C cfg check dummy interf fr now dto ctx w =
    (let n = to_lower (raw_identifier dto); user = find_login_user (raw_identifier dto) w;
         w1 = snd (challenge_due now n user w)
     in case verifyPassword C (lg_password dto) (case user of None \<Rightarrow> dummy | Some u \<Rightarrow> us_passwordHash u) of
          Inl e \<Rightarrow> fail e w1
        | Inr b \<Rightarrow>
            if (case user of None \<Rightarrow> False | Some u \<Rightarrow> isLoginLocked (login_state u) now)
            then fail (Unauthorized ''Invalid credentials'') (interf w1)
            else (case user of
                None \<Rightarrow> login_failed now n user (interf w1)
              | Some u \<Rightarrow>
                  if \<not> b then login_failed now n user (interf w1)
                  else if unverified_email (raw_identifier dto) u
                  then fail (Unauthorized ''Please verify your email before signing in.'')
                         (clearUnknownIdentifier n (interf w1))
                  else login_succeeded C cfg fr now dto ctx u (clearUnknownIdentifier n (interf w1))))"
proof (cases "fst (challenge_due now (to_lower (raw_identifier dto)) (find_login_user (raw_identifier dto) w) w)")
  case True
  then obtain t where "given (lg_turnstileToken dto) = Some t"
    "verifyToken cfg check (lg_turnstileToken dto) (rc_ip ctx) = None"
    using assms(2) by (auto simp: unchallenged_def)
  then show ?thesis using assms(1) True
    by (cases "find_login_user (raw_identifier dto) w") (simp_all add: login_def Let_def case_prod_beta split: sum.split)
next
  case False
  then show ?thesis using assms(1)
    by (cases "find_login_user (raw_identifier dto) w") (simp_all add: login_def Let_def case_prod_beta split: sum.split)
qed

lemma login_allowed:
  assumes "may_log_in C cfg check interf now dto ctx w u"
  shows "login C cfg check dummy interf fr now dto ctx w =
    login_succeeded C cfg fr now dto ctx u
      (clearUnknownIdentifier (to_lower (raw_identifier dto))
        (interf (snd (challenge_due now (to_lower (raw_identifier dto)) (Some u) w))))"
proof -
  have "unchallenged cfg check now dto ctx w" "raw_identifier dto \<noteq> []"
    using assms by (auto simp: may_log_in_def unchallenged_def Let_def)
  then show ?thesis using assms by (simp add: login_unchallenged may_log_in_def Let_def)
qed

lemma login_needs:
  assumes "login C cfg check dummy interf fr now dto ctx w = ok r w'"
  shows "\<exists>u. may_log_in C cfg check interf now dto ctx w u"
proof -
  let ?id = "raw_identifier dto"
  have id: "?id \<noteq> []" using assms by (auto simp: login_def Let_def)
  have c: "unchallenged cfg check now dto ctx w"
    using login_challenged [OF id, of now w cfg check ctx C dummy interf fr] assms
    by (cases "given (lg_turnstileToken dto)"; cases "verifyToken cfg check (lg_turnstileToken dto) (rc_ip ctx)")
      (auto simp: unchallenged_def)
  note l = login_unchallenged [OF id c, of C dummy interf fr, unfolded assms Let_def]
  show ?thesis
  proof (cases "find_login_user ?id w")
    case None
    with l show ?thesis using login_failed_fails [of now "to_lower ?id" None]
      by (auto split: sum.splits) (metis fst_conv Inl_Inr_False)
  next
    case (Some u)
    with l login_failed_fails [of now "to_lower ?id" "Some u"]
    have "verifyPassword C (lg_password dto) (us_passwordHash u) = Inr True"
      "\<not> isLoginLocked (login_state u) now" "\<not> unverified_email ?id u"
      "find_user (us_id u) (clearUnknownIdentifier (to_lower ?id)
        (interf (snd (challenge_due now (to_lower ?id) (Some u) w)))) \<noteq> None"
      by (auto simp: login_succeeded_def split: sum.splits if_splits) (metis fst_conv Inl_Inr_False)+
    then show ?thesis using id Some c
      by (auto simp: may_log_in_def Let_def clearUnknownIdentifier_def find_user_def unchallenged_def)
  qed
qed


section \<open>The lock\<close>

lemma recordFailedLogin_locks:
  assumes "la_failedLoginCount s \<ge> 4" and "t < now + 30000"
  shows "isLoginLocked (recordFailedLogin s now) t"
proof -
  let ?k = "nat (la_failedLoginCount s - 4)"
  have "(1::int) \<le> 2 ^ ?k" by simp
  then have "30 * 1000 \<le> min (30 * 2 ^ ?k) (86400 :: int) * 1000" by simp
  then have "t < now + min (30 * 2 ^ ?k) 86400 * 1000" using assms(2) by linarith
  then show ?thesis using assms(1)
    by (simp add: isLoginLocked_def recordFailedLogin_def Let_def lockout_threshold_def base_lockout_seconds_def)
qed

lemma locked_login_fails:
  assumes "find_login_user (raw_identifier dto) w = Some u" and "isLoginLocked (login_state u) now"
  shows "\<exists>e. out (login C cfg check dummy (\<lambda>w. w) fr now dto ctx w) = Inl e \<and>
    auth_sessions (after (login C cfg check dummy (\<lambda>w. w) fr now dto ctx w)) = auth_sessions w"
proof (cases "raw_identifier dto = []")
  case False
  have s: "auth_sessions (snd (challenge_due now n x w)) = auth_sessions w" for n x
    by (auto simp: challenge_due_def isUnknownIdentifierChallenged_def split: option.split)
  show ?thesis
  proof (cases "unchallenged cfg check now dto ctx w")
    case True
    then show ?thesis using False assms
      by (simp add: login_unchallenged Let_def s split: sum.split)
  next
    case un: False
    then have due: "fst (challenge_due now (to_lower (raw_identifier dto)) (Some u) w)"
      by (simp add: unchallenged_def assms)
    show ?thesis
      using un False assms due
      by (cases "given (lg_turnstileToken dto)"; cases "verifyToken cfg check (lg_turnstileToken dto) (rc_ip ctx)")
        (auto simp: unchallenged_def login_def Let_def case_prod_beta s)
  qed
qed (simp add: login_def)


text \<open>
  The count is written from the row read before the password check, so two
  attempts whose checks overlap are counted once.
\<close>

lemma overlapping_failures_count_once:
  assumes u: "find_login_user (raw_identifier dto) w = Some u" "raw_identifier dto \<noteq> []"
    and few: "us_failedLoginCount u < 3" "us_lockedUntil u = None"
    and "unknown_attempts w = []" and wrong: "verifyPassword C (lg_password dto) (us_passwordHash u) = Inr False"
    and ids: "distinct (map us_id (users w))"
    and one_def: "one = (\<lambda>w. after (login C cfg check dummy (\<lambda>w. w) fr now dto ctx w))"
  shows "map_option us_failedLoginCount (find_user (us_id u)
    (after (login C cfg check dummy one fr now dto ctx w))) = Some (us_failedLoginCount u + 1)"
proof -
  let ?st = "recordFailedLogin (login_state u) now"
  let ?n = "to_lower (raw_identifier dto)"
  have due: "challenge_due now ?n (Some u) w = (False, w)"
    using few assms(5) by (simp add: challenge_due_def isUnknownIdentifierChallenged_def)
  have pass: "unchallenged cfg check now dto ctx w" using u due by (simp add: unchallenged_def)
  have unlocked: "\<not> isLoginLocked (login_state u) now" using few by (simp add: isLoginLocked_def login_state_def)
  have login: "login C cfg check dummy g fr now dto ctx w = login_failed now ?n (Some u) (g w)" for g
    using u pass unlocked wrong by (simp add: login_unchallenged Let_def due)
  have uin: "u \<in> set (users w)" using u(1) by (auto simp: find_login_user_def dest: find_Some_in)
  have few': "la_lockedUntil ?st = None" "la_failedLoginCount ?st = us_failedLoginCount u + 1"
    using few by (auto simp: recordFailedLogin_def Let_def lockout_threshold_def login_state_def)
  have f: "find_user (us_id u) w = Some u"
    unfolding find_user_def using find_key_unique [OF ids uin] by simp
  have failed: "after (login_failed now ?n (Some u) w') = set_user (us_id u) (set_login_state ?st) w'"
    if "find_user (us_id u) w' \<noteq> None" for w'
    using that few' by (auto simp: login_failed_def Let_def)
  have g: "find_user (us_id u) (set_user (us_id u) (set_login_state ?st) w') =
      map_option (set_login_state ?st) (find_user (us_id u) w')" for w'
    by (cases "find_user (us_id u) w'")
      (auto simp: find_user_def set_user_def find_update_where dest: find_Some_in)
  have o: "one w = set_user (us_id u) (set_login_state ?st) w"
    using failed [of w] f by (simp add: one_def login)
  have "find_user (us_id u) (one w) \<noteq> None" by (simp add: o g f)
  from failed [OF this] show ?thesis
    by (simp add: login o g f) (simp add: set_login_state_def few')
qed

section \<open>Refreshing\<close>

lemma drop_expired_frame [simp]:
  "auth_sessions (drop_expired_rotations now w) = auth_sessions w"
  "find_session i (drop_expired_rotations now w) = find_session i w"
  "session_backed s (drop_expired_rotations now w) = session_backed s w"
  by (simp_all add: drop_expired_rotations_def find_session_def session_backed_def find_device_def find_user_def)

lemma rotations_frame [simp]:
  "live_session h now (w\<lparr>recent_rotations := r\<rparr>) = live_session h now w"
  "session_backed s (w\<lparr>recent_rotations := r\<rparr>) = session_backed s w"
  by (simp_all add: live_session_def session_backed_def find_device_def find_user_def)

lemma live_session_drop [simp]: "live_session h now (drop_expired_rotations now' w) = live_session h now w"
  by (simp add: live_session_def)

lemma refresh_cases:
  assumes "refresh C cfg interf random now later token w = ok r w'"
  obtains (cached) rot s where "(hashRefreshToken C token, rot) \<in> set (recent_rotations w)" "rt_expiresAt rot > now"
      "find_session (rt_sessionId rot) w = Some s" "as_revokedAt s = None" "as_expiresAt s > now"
      "session_backed s w" "r = (rt_accessToken rot, rt_refreshToken rot)"
  | (rotated) s where "live_session (hashRefreshToken C token) now w = Some s" "session_backed s w"
proof -
  let ?h = "hashRefreshToken C token" and ?w = "drop_expired_rotations now w"
  have long: "\<not> length (js_trim token) < 32" using assms by (auto simp: refresh_def)
  show thesis
  proof (cases "cached_rotation ?h now ?w")
    case (Some rot)
    then have m: "map_of (recent_rotations ?w) ?h = Some rot"
      by (auto simp: cached_rotation_def split: option.splits if_splits)
    then have "(?h, rot) \<in> set (recent_rotations w)"
      by (auto simp: drop_expired_rotations_def dest: map_of_SomeD)
    moreover obtain s where "rt_expiresAt rot > now" "find_session (rt_sessionId rot) w = Some s"
      "as_revokedAt s = None" "as_expiresAt s > now" "session_backed s w"
      using Some by (auto simp: cached_rotation_def split: option.splits if_splits)
    moreover have "r = (rt_accessToken rot, rt_refreshToken rot)"
      using assms long Some by (auto simp: refresh_def Let_def)
    ultimately show thesis by (rule cached)
  next
    case None
    then show thesis using assms long rotated
      by (auto simp: refresh_def Let_def split: option.splits if_splits)
  qed
qed

text \<open>
  A token refreshes only through a session that is neither revoked nor expired,
  whose device is not revoked and whose account exists.
\<close>

lemma refresh_needs_live_session:
  assumes "refresh C cfg interf random now later token w = ok r w'"
  shows "\<exists>s \<in> set (auth_sessions w). as_revokedAt s = None \<and> as_expiresAt s > now \<and> session_backed s w \<and>
    (as_refreshTokenHash s = hashRefreshToken C token \<or>
     (\<exists>rot. (hashRefreshToken C token, rot) \<in> set (recent_rotations w) \<and> rt_sessionId rot = as_id s \<and>
        now < rt_expiresAt rot))"
  using assms
proof (cases rule: refresh_cases)
  case (cached rot s)
  then have "s \<in> set (auth_sessions w)" "as_id s = rt_sessionId rot"
    by (auto simp: find_session_def dest: find_Some_in)
  with cached show ?thesis by (intro bexI [of _ s]) auto
next
  case (rotated s)
  then have "s \<in> set (auth_sessions w) \<and> as_refreshTokenHash s = hashRefreshToken C token \<and>
      as_revokedAt s = None \<and> as_expiresAt s > now"
    by (auto simp: live_session_def dest: find_Some_in)
  with rotated show ?thesis by (intro bexI [of _ s]) auto
qed

definition rotate_session :: "crypto \<Rightarrow> string \<Rightarrow> instant \<Rightarrow> session_row \<Rightarrow> session_row" where
  "rotate_session C newToken now s =
     s\<lparr>as_refreshTokenHash := hashRefreshToken C newToken, as_expiresAt := now + refresh_token_ttl_ms\<rparr>"

lemma refresh_rotates:
  fixes random :: bytes and C :: crypto and cfg :: auth_config and later :: instant and s :: session_row
  assumes long: "length (js_trim token) \<ge> 32"
    and s: "s \<in> set (auth_sessions w)" "as_refreshTokenHash s = hashRefreshToken C token"
      "as_revokedAt s = None" "as_expiresAt s > now" "session_backed s w"
    and alone: "\<And>x. x \<in> set (auth_sessions w) \<Longrightarrow> as_refreshTokenHash x = hashRefreshToken C token \<Longrightarrow> x = s"
    and unrotated: "hashRefreshToken C token \<notin> fst ` set (recent_rotations w)"
  defines "newToken \<equiv> generateRefreshToken random"
    and "access \<equiv> issueAccessToken C (as_userId s) (as_deviceId s) (ac_accessTokenSecret cfg)
      access_token_ttl_seconds later"
  shows "\<exists>w'. refresh C cfg (\<lambda>w. w) random now later token w = ok (access, newToken) w' \<and>
    auth_sessions w' = update_where (\<lambda>x. as_id x = as_id s \<and> as_refreshTokenHash x = hashRefreshToken C token)
      (rotate_session C newToken now) (auth_sessions w) \<and>
    users w' = users w \<and> devices w' = devices w \<and>
    recent_rotations w' = filter (\<lambda>(_, v). rt_expiresAt v > now) (recent_rotations w) @
      [(hashRefreshToken C token, \<lparr>rt_sessionId = as_id s, rt_accessToken = access,
         rt_refreshToken = newToken, rt_expiresAt = later + grace_ms\<rparr>)]"
proof -
  let ?h = "hashRefreshToken C token" and ?w = "drop_expired_rotations now w"
  have none: "?h \<notin> fst ` set (recent_rotations ?w)" using unrotated by (auto simp: drop_expired_rotations_def)
  then have m: "map_of (recent_rotations ?w) ?h = None" by (simp add: map_of_eq_None_iff)
  have del: "map_delete ?h (recent_rotations ?w) = recent_rotations ?w"
    using none unfolding map_delete_def by (intro filter_True) force
  have set: "assoc_set k v r = r @ [(k, v)]" if "k \<notin> fst ` set r" for k and v :: rotation and r
    using that by (induction r) auto
  have "live_session ?h now w = Some s"
  proof -
    have "live_session ?h now w \<noteq> None" using s by (auto simp: live_session_def find_None_iff)
    then obtain x where x: "live_session ?h now w = Some x" by auto
    then have "x = s" using alone by (auto simp: live_session_def dest!: find_Some_in)
    then show ?thesis using x by simp
  qed
  moreover have "list_ex (\<lambda>x. as_id x = as_id s \<and> as_refreshTokenHash x = ?h) (auth_sessions w)"
    using s by (auto simp: list_ex_iff)
  ultimately show ?thesis
    using long s(5) m none
    by (simp add: refresh_def Let_def cached_rotation_def del rotate_def set newToken_def access_def
        rotate_session_def [abs_def])
      (simp add: drop_expired_rotations_def)
qed

lemma live_session_hash: "live_session h now w = Some s \<Longrightarrow> s \<in> set (auth_sessions w) \<and> as_refreshTokenHash s = h"
  by (auto simp: live_session_def dest: find_Some_in)

text \<open>
  C31. A refresh rotates the token: the session keeps its id, user and device, its
  hash becomes that of the new token and its expiry moves thirty days on. The old
  token then returns the same pair for the thirty seconds of the grace window,
  so that concurrent tabs agree, and is refused from the end of the window on;
  the new token refreshes in turn.
\<close>

theorem refresh_rotation:
  assumes long: "length (js_trim token) \<ge> 32" "length (js_trim (generateRefreshToken random)) \<ge> 32"
    and s: "s \<in> set (auth_sessions w)" "as_refreshTokenHash s = hashRefreshToken C token"
      "as_revokedAt s = None" "as_expiresAt s > now" "session_backed s w"
    and ids: "distinct (map as_id (auth_sessions w))"
    and alone: "\<And>x. x \<in> set (auth_sessions w) \<Longrightarrow> as_refreshTokenHash x = hashRefreshToken C token \<Longrightarrow> x = s"
    and fresh: "\<And>x. x \<in> set (auth_sessions w) \<Longrightarrow>
        as_refreshTokenHash x \<noteq> hashRefreshToken C (generateRefreshToken random)"
      "hashRefreshToken C (generateRefreshToken random) \<notin> fst ` set (recent_rotations w)"
      "hashRefreshToken C token \<notin> fst ` set (recent_rotations w)"
    and r: "refresh C cfg (\<lambda>w. w) random now now token w = ok (access, newToken) w1"
    and again: "now \<le> t" "t < now + refresh_token_ttl_ms"
  shows "newToken = generateRefreshToken random \<and>
    verifyAccessToken C access (ac_accessTokenSecret cfg) now =
      Some \<lparr>tp_userId = as_userId s, tp_deviceId = as_deviceId s, tp_exp = now div 1000 + 900\<rparr> \<and>
    out (refresh C cfg g random2 t t2 token w1) =
      (if t < now + 30000 then Inr (access, newToken) else Inl session_expired) \<and>
    (\<exists>pair w2. refresh C cfg (\<lambda>w. w) random3 t t3 newToken w1 = ok pair w2)"
proof -
  let ?h = "hashRefreshToken C token" and ?new = "generateRefreshToken random"
  let ?hn = "hashRefreshToken C ?new"
  let ?f = "update_where (\<lambda>x. as_id x = as_id s \<and> as_refreshTokenHash x = ?h) (rotate_session C ?new now)"
  let ?acc = "issueAccessToken C (as_userId s) (as_deviceId s) (ac_accessTokenSecret cfg) access_token_ttl_seconds now"
  from refresh_rotates [OF long(1) s alone fresh(3), where cfg = cfg and random = random and later = now] r
  have acc: "access = ?acc" "newToken = ?new" and w1: "auth_sessions w1 = ?f (auth_sessions w)"
    "users w1 = users w" "devices w1 = devices w"
    and rot: "recent_rotations w1 = filter (\<lambda>(_, v). rt_expiresAt v > now) (recent_rotations w) @
      [(?h, \<lparr>rt_sessionId = as_id s, rt_accessToken = ?acc, rt_refreshToken = ?new, rt_expiresAt = now + grace_ms\<rparr>)]"
    by auto
  have ne: "?hn \<noteq> ?h" using fresh(1) [OF s(1)] s(2) by simp
  define s' where "s' = rotate_session C ?new now s"
  have s': "as_id s' = as_id s" "as_revokedAt s' = None" "as_expiresAt s' = now + refresh_token_ttl_ms"
    "as_refreshTokenHash s' = ?hn" by (simp_all add: s'_def rotate_session_def s)
  have s'in: "s' \<in> set (auth_sessions w1)" using s(1,2) by (force simp: w1 s'_def set_update_where)
  have only: "x = s'" if "x \<in> set (auth_sessions w1)" "as_refreshTokenHash x \<in> {?h, ?hn}" for x
    using that alone fresh(1) ne
    by (auto simp: w1 set_update_where s'_def rotate_session_def split: if_splits)
  have backed: "session_backed s' w1"
  proof -
    have "as_deviceId s' = as_deviceId s" "as_userId s' = as_userId s" by (simp_all add: s'_def rotate_session_def)
    then show ?thesis using s(5)
      by (simp only: session_backed_def find_device_def find_user_def w1 simp_thms)
  qed
  have "distinct (map as_id (auth_sessions w1))" using ids by (simp add: w1 map_update_where rotate_session_def)
  then have find: "find_session (as_id s) w1 = Some s'"
    unfolding find_session_def using find_key_unique s'in s'(1) by metis
  have verify: "verifyAccessToken C access (ac_accessTokenSecret cfg) now =
      Some \<lparr>tp_userId = as_userId s, tp_deviceId = as_deviceId s, tp_exp = now div 1000 + 900\<rparr>"
    using verify_issued [of C "as_userId s" "as_deviceId s" "ac_accessTokenSecret cfg" 900 now now]
    by (simp add: acc access_token_ttl_seconds_def)
  have dead: "live_session ?h t w1 = None"
  proof (rule ccontr)
    assume "live_session ?h t w1 \<noteq> None"
    then obtain x where "live_session ?h t w1 = Some x" by auto
    from live_session_hash [OF this] only [of x] s'(4) ne show False by auto
  qed
  have old: "out (refresh C cfg g random2 t t2 token w1) =
      (if t < now + 30000 then Inr (access, newToken) else Inl session_expired)"
  proof (cases "t < now + 30000")
    case True
    have "map_of (recent_rotations (drop_expired_rotations t w1)) ?h =
        Some \<lparr>rt_sessionId = as_id s, rt_accessToken = ?acc, rt_refreshToken = ?new, rt_expiresAt = now + grace_ms\<rparr>"
      using True fresh(3) by (auto simp: drop_expired_rotations_def rot grace_ms_def map_add_def
        split: option.splits dest!: map_of_SomeD) (force simp: image_iff)
    then have "cached_rotation ?h t (drop_expired_rotations t w1) =
        Some \<lparr>rt_sessionId = as_id s, rt_accessToken = ?acc, rt_refreshToken = ?new, rt_expiresAt = now + grace_ms\<rparr>"
      using True find s' backed again by (simp add: cached_rotation_def grace_ms_def)
    then show ?thesis using long True acc by (simp add: refresh_def Let_def)
  next
    case False
    then have "?h \<notin> fst ` set (recent_rotations (drop_expired_rotations t w1))"
      using fresh(3) by (auto simp: drop_expired_rotations_def rot grace_ms_def)
    then have "map_of (recent_rotations (drop_expired_rotations t w1)) ?h = None" by (simp add: map_of_eq_None_iff)
    then show ?thesis using False long dead by (simp add: refresh_def Let_def cached_rotation_def)
  qed
  have "?hn \<notin> fst ` set (recent_rotations w1)" using fresh(2) ne by (auto simp: rot)
  from refresh_rotates [OF long(2) s'in s'(4,2) _ backed only this, where now = t and random = random3 and
      cfg = cfg and later = t3] s'(3) again acc
  have "\<exists>pair w2. refresh C cfg (\<lambda>w. w) random3 t t3 newToken w1 = ok pair w2" by auto
  then show ?thesis using acc verify old by simp
qed

section \<open>Revoking\<close>

lemma revoke_one_frame:
  "auth_sessions (revokeSessionAndDisconnect now i d reason w) =
     update_where (\<lambda>s. as_id s = i) (\<lambda>s. s\<lparr>as_revokedAt := Some now\<rparr>) (auth_sessions w)"
  "devices (revokeSessionAndDisconnect now i d reason w) =
     update_where (\<lambda>x. dv_id x = d) (\<lambda>x. x\<lparr>dv_revokedAt := Some now\<rparr>) (devices w)"
  "users (revokeSessionAndDisconnect now i d reason w) = users w"
  "recent_rotations (revokeSessionAndDisconnect now i d reason w) =
     filter (\<lambda>(_, v). rt_sessionId v \<noteq> i) (recent_rotations w)"
  "disconnect_timers (revokeSessionAndDisconnect now i d reason w) =
     disconnect_timers w @ [(now + disconnect_delay_ms, d)]"
  "emitted (revokeSessionAndDisconnect now i d reason w) =
     emitted w @ map (\<lambda>s. (s, Session_Revoked reason)) (sockets_in (device_connections w) d)"
  by (simp_all add: revokeSessionAndDisconnect_def Let_def to_device.after_send drop_rotations_of_def)

lemma event_row_frame [simp]:
  "auth_sessions (log_event u ev x w) = auth_sessions w" "devices (log_event u ev x w) = devices w"
  "users (log_event u ev x w) = users w" "recent_rotations (log_event u ev x w) = recent_rotations w"
  "disconnect_timers (log_event u ev x w) = disconnect_timers w" "emitted (log_event u ev x w) = emitted w"
  by (simp_all add: log_event_def)

text \<open>A refresh needs a session or a cached pair under its hash; a guard needs the device.\<close>

lemma refresh_dead:
  assumes "\<And>s. s \<in> set (auth_sessions w) \<Longrightarrow> as_refreshTokenHash s = hashRefreshToken C token \<Longrightarrow> as_revokedAt s \<noteq> None"
    and "\<And>r s. (hashRefreshToken C token, r) \<in> set (recent_rotations w) \<Longrightarrow>
      s \<in> set (auth_sessions w) \<Longrightarrow> as_id s = rt_sessionId r \<Longrightarrow> as_revokedAt s \<noteq> None"
  shows "\<exists>e. out (refresh C cfg interf random now later token w) = Inl e"
proof (cases "refresh C cfg interf random now later token w")
  case (Pair a w')
  then show ?thesis
  proof (cases a)
    case (Inr r)
    from refresh_needs_live_session [OF Pair [unfolded Inr]] assms show ?thesis by metis
  qed simp
qed

lemma guard_needs_device:
  assumes "canActivate C cfg now (Some h) w = Inr (u, d)"
  shows "\<exists>x \<in> set (devices w). dv_id x = d \<and> dv_revokedAt x = None"
  using assms
  by (auto simp: canActivate_def find_device_def split: if_splits option.splits dest!: find_Some_in)

text \<open>
  C32. Revoking a session takes effect at once. The device is told and its sockets
  are closed a quarter of a second later; every refresh token of the session,
  the rotated ones of the grace window included, is refused; every access token
  of its device is refused; and no other session or device changes.
\<close>

theorem revocation_is_immediate:
  assumes revoke: "revokeSession now u sid w = ok () w1"
    and s: "find_session sid w = Some s" "as_revokedAt s = None"
    and token: "\<And>x. x \<in> set (auth_sessions w) \<Longrightarrow> as_refreshTokenHash x = hashRefreshToken C token \<Longrightarrow> as_id x = sid"
      "\<And>r. (hashRefreshToken C token, r) \<in> set (recent_rotations w) \<Longrightarrow> rt_sessionId r = sid"
  shows "as_userId s = u \<and>
    (\<exists>e. out (refresh C cfg interf random t t2 token w1) = Inl e) \<and>
    (\<forall>h v. canActivate C cfg t (Some h) w1 \<noteq> Inr (v, as_deviceId s)) \<and>
    filter (\<lambda>x. as_id x \<noteq> sid) (auth_sessions w1) = filter (\<lambda>x. as_id x \<noteq> sid) (auth_sessions w) \<and>
    filter (\<lambda>x. dv_id x \<noteq> as_deviceId s) (devices w1) = filter (\<lambda>x. dv_id x \<noteq> as_deviceId s) (devices w) \<and>
    (now + 250, as_deviceId s) \<in> set (disconnect_timers w1) \<and>
    emitted w1 = emitted w @ map (\<lambda>x. (x, Session_Revoked ''revoked_by_user''))
      (sockets_in (device_connections w) (as_deviceId s))"
proof -
  have u: "as_userId s = u" and w1: "w1 = log_event u Ev_Session_Revoked sid
      (revokeSessionAndDisconnect now sid (as_deviceId s) ''revoked_by_user'' w)"
    using revoke s by (auto simp: revokeSession_def split: if_splits)
  note frame = w1 event_row_frame revoke_one_frame
  have "\<exists>e. out (refresh C cfg interf random t t2 token w1) = Inl e"
  proof (rule refresh_dead)
    fix x assume x: "x \<in> set (auth_sessions w1)" "as_refreshTokenHash x = hashRefreshToken C token"
    from x(1) obtain y where y: "y \<in> set (auth_sessions w)"
      "x = (if as_id y = sid then y\<lparr>as_revokedAt := Some now\<rparr> else y)"
      unfolding frame set_update_where by blast
    with x(2) have "as_refreshTokenHash y = hashRefreshToken C token" by (simp split: if_splits)
    with token(1) [OF y(1)] y(2) show "as_revokedAt x \<noteq> None" by simp
  next
    fix r x assume "(hashRefreshToken C token, r) \<in> set (recent_rotations w1)"
    then have "(hashRefreshToken C token, r) \<in> set (recent_rotations w)" "rt_sessionId r \<noteq> sid"
      by (simp_all add: frame)
    then show "as_revokedAt x \<noteq> None" using token(2) by blast
  qed
  moreover have "canActivate C cfg t (Some h) w1 \<noteq> Inr (v, as_deviceId s)" for h v
    using guard_needs_device [of C cfg t h w1 v "as_deviceId s"] by (auto simp: frame set_update_where split: if_splits)
  moreover have "filter (\<lambda>x. as_id x \<noteq> sid) (auth_sessions w1) = filter (\<lambda>x. as_id x \<noteq> sid) (auth_sessions w)"
    by (simp add: frame filter_update_where_other)
  moreover have "filter (\<lambda>x. dv_id x \<noteq> as_deviceId s) (devices w1) = filter (\<lambda>x. dv_id x \<noteq> as_deviceId s) (devices w)"
    by (simp add: frame filter_update_where_other)
  ultimately show ?thesis using u by (auto simp: frame disconnect_delay_ms_def)
qed

lemma revoke_fold_frame:
  fixes ss :: "session_row list" and now :: instant and r :: string
  defines "f \<equiv> foldl (\<lambda>w s. revokeSessionAndDisconnect now (as_id s) (as_deviceId s) r w)"
  shows "auth_sessions (f w ss) = update_where (\<lambda>s. as_id s \<in> as_id ` set ss)
      (\<lambda>s. s\<lparr>as_revokedAt := Some now\<rparr>) (auth_sessions w) \<and>
    devices (f w ss) = update_where (\<lambda>d. dv_id d \<in> as_deviceId ` set ss)
      (\<lambda>d. d\<lparr>dv_revokedAt := Some now\<rparr>) (devices w) \<and> users (f w ss) = users w"
proof (induction ss arbitrary: w)
  case (Cons s ss)
  have m: "update_where p (\<lambda>s. s\<lparr>as_revokedAt := Some now\<rparr>) (update_where q (\<lambda>s. s\<lparr>as_revokedAt := Some now\<rparr>) xs) =
      update_where (\<lambda>s. q s \<or> p s) (\<lambda>s. s\<lparr>as_revokedAt := Some now\<rparr>) xs"
    if "\<And>s. p (s\<lparr>as_revokedAt := Some now\<rparr>) = p s" for p q xs
    using that by (induction xs) auto
  have n: "update_where p (\<lambda>s. s\<lparr>dv_revokedAt := Some now\<rparr>) (update_where q (\<lambda>s. s\<lparr>dv_revokedAt := Some now\<rparr>) xs) =
      update_where (\<lambda>s. q s \<or> p s) (\<lambda>s. s\<lparr>dv_revokedAt := Some now\<rparr>) xs"
    if "\<And>s. p (s\<lparr>dv_revokedAt := Some now\<rparr>) = p s" for p q xs
    using that by (induction xs) auto
  show ?case using Cons [of "revokeSessionAndDisconnect now (as_id s) (as_deviceId s) r w"]
    by (simp add: f_def revoke_one_frame m n)
qed (simp add: f_def update_where_def)

text \<open>
  Logging out everywhere else keeps the current device: afterwards the sessions
  of the user that are not revoked are those on the current device, unchanged;
  the answer counts the others; their devices are revoked and no other session
  or device of anyone is touched.
\<close>

theorem revoke_others_keeps_current:
  assumes ok: "auth_ok w"
  shows "fst (revokeOtherSessions now u d w) =
      length (filter (\<lambda>s. as_userId s = u \<and> as_revokedAt s = None \<and> as_deviceId s \<noteq> d) (auth_sessions w)) \<and>
    filter (\<lambda>s. as_userId s = u \<and> as_revokedAt s = None) (auth_sessions (snd (revokeOtherSessions now u d w))) =
      filter (\<lambda>s. as_userId s = u \<and> as_revokedAt s = None \<and> as_deviceId s = d) (auth_sessions w) \<and>
    filter (\<lambda>s. as_userId s \<noteq> u \<or> as_deviceId s = d) (auth_sessions (snd (revokeOtherSessions now u d w))) =
      filter (\<lambda>s. as_userId s \<noteq> u \<or> as_deviceId s = d) (auth_sessions w) \<and>
    filter (\<lambda>x. dv_userId x \<noteq> u \<or> dv_id x = d) (devices (snd (revokeOtherSessions now u d w))) =
      filter (\<lambda>x. dv_userId x \<noteq> u \<or> dv_id x = d) (devices w) \<and>
    (\<forall>s \<in> set (auth_sessions w). as_userId s = u \<and> as_revokedAt s = None \<and> as_deviceId s \<noteq> d \<longrightarrow>
       (\<forall>x \<in> set (devices (snd (revokeOtherSessions now u d w))). dv_id x = as_deviceId s \<longrightarrow> dv_revokedAt x \<noteq> None))"
proof -
  let ?others = "other_sessions u d w"
  let ?w = "snd (revokeOtherSessions now u d w)"
  have fr: "auth_sessions ?w = update_where (\<lambda>s. as_id s \<in> as_id ` set ?others)
      (\<lambda>s. s\<lparr>as_revokedAt := Some now\<rparr>) (auth_sessions w)"
    "devices ?w = update_where (\<lambda>x. dv_id x \<in> as_deviceId ` set ?others)
      (\<lambda>x. x\<lparr>dv_revokedAt := Some now\<rparr>) (devices w)"
    using revoke_fold_frame [of now "''revoked_by_user''" w ?others]
    by (simp_all add: revokeOtherSessions_def Let_def update_where_id)
  have inv: "devices_inv (us_id ` set (users w)) (devices w)"
    and si: "sessions_inv (device_owner ` set (devices w)) (auth_sessions w)"
    using ok by (auto simp: auth_ok_def)
  have ids: "distinct (map as_id (auth_sessions w))" using si by (simp add: sessions_inv_def)
  have mem: "(as_id s \<in> as_id ` set ?others) = (as_userId s = u \<and> as_revokedAt s = None \<and> as_deviceId s \<noteq> d)"
    if s: "s \<in> set (auth_sessions w)" for s
  proof
    assume "as_id s \<in> as_id ` set ?others"
    then obtain x where x: "x \<in> set ?others" "as_id s = as_id x" by blast
    then have "x = s" using distinct_key_eq [OF ids s, of x] by (simp add: other_sessions_def)
    then show "as_userId s = u \<and> as_revokedAt s = None \<and> as_deviceId s \<noteq> d"
      using x(1) by (simp add: other_sessions_def)
  next
    assume "as_userId s = u \<and> as_revokedAt s = None \<and> as_deviceId s \<noteq> d"
    then have "s \<in> set ?others" using s by (simp add: other_sessions_def)
    then show "as_id s \<in> as_id ` set ?others" by (rule imageI)
  qed
  have o: "\<And>s. s \<in> set ?others \<Longrightarrow> as_userId s = u \<and> as_revokedAt s = None \<and> as_deviceId s \<noteq> d"
    by (auto simp: other_sessions_def)
  have g: "filter p (update_where q f xs) = filter p' xs"
    if "\<And>x. x \<in> set xs \<Longrightarrow> (if q x then \<not> p (f x) \<and> \<not> p' x else p x = p' x)" for p p' q f and xs :: "'a list"
    using that by (induction xs) auto
  have "filter (\<lambda>s. as_userId s = u \<and> as_revokedAt s = None) (auth_sessions ?w) =
      filter (\<lambda>s. as_userId s = u \<and> as_revokedAt s = None \<and> as_deviceId s = d) (auth_sessions w)"
    unfolding fr(1) by (rule g) (auto simp: mem)
  moreover have "filter (\<lambda>s. as_userId s \<noteq> u \<or> as_deviceId s = d) (auth_sessions ?w) =
      filter (\<lambda>s. as_userId s \<noteq> u \<or> as_deviceId s = d) (auth_sessions w)"
    unfolding fr(1) by (rule g) (auto simp: mem)
  moreover have "filter (\<lambda>x. dv_userId x \<noteq> u \<or> dv_id x = d) (devices ?w) =
      filter (\<lambda>x. dv_userId x \<noteq> u \<or> dv_id x = d) (devices w)"
    unfolding fr(2)
  proof (rule g)
    fix x assume x: "x \<in> set (devices w)"
    have "dv_userId x = u \<and> dv_id x \<noteq> d" if "dv_id x \<in> as_deviceId ` set ?others"
    proof -
      from that obtain s where s: "s \<in> set (auth_sessions w)" "s \<in> set ?others" "dv_id x = as_deviceId s"
        by (auto simp: other_sessions_def)
      have "session_owner s \<in> device_owner ` set (devices w)" using si s(1) by (auto simp: sessions_inv_def)
      then obtain y where y: "y \<in> set (devices w)" "dv_id y = as_deviceId s" "dv_userId y = as_userId s"
        by (auto simp: session_owner_def device_owner_def)
      then have "y = x" using inv x s(3) by (auto simp: devices_inv_def dest: distinct_key_eq)
      then show ?thesis using y s(3) o [OF s(2)] by simp
    qed
    then show "if dv_id x \<in> as_deviceId ` set ?others
        then \<not> (dv_userId (x\<lparr>dv_revokedAt := Some now\<rparr>) \<noteq> u \<or> dv_id (x\<lparr>dv_revokedAt := Some now\<rparr>) = d) \<and>
          \<not> (dv_userId x \<noteq> u \<or> dv_id x = d)
        else (dv_userId x \<noteq> u \<or> dv_id x = d) = (dv_userId x \<noteq> u \<or> dv_id x = d)" by simp
  qed
  moreover have "dv_revokedAt x \<noteq> None"
    if "s \<in> set (auth_sessions w)" "as_userId s = u" "as_revokedAt s = None" "as_deviceId s \<noteq> d"
      "x \<in> set (devices ?w)" "dv_id x = as_deviceId s" for s x
  proof -
    have "as_deviceId s \<in> as_deviceId ` set ?others" using that by (auto simp: other_sessions_def)
    then show ?thesis using that(5,6) by (auto simp: fr(2) set_update_where split: if_splits)
  qed
  ultimately show ?thesis
    by (auto simp: revokeOtherSessions_def Let_def other_sessions_def)
qed

section \<open>E-mail codes\<close>

definition pending :: "string \<Rightarrow> verification_row \<Rightarrow> bool" where
  "pending email c \<longleftrightarrow> ev_email c = email \<and> ev_consumedAt c = None"

text \<open>Guesses at the code of one address, one request after the other.\<close>

fun guess_codes :: "crypto \<Rightarrow> instant \<Rightarrow> string \<Rightarrow> string list \<Rightarrow> world \<Rightarrow> world" where
  "guess_codes C now email [] w = w"
| "guess_codes C now email (g # gs) w = guess_codes C now email gs (after (verifyEmail C (\<lambda>w. w) now email g w))"

lemma hex_decode_hash: "hex_decode (hashVerificationCode C x) = sha256 C (js_trim x)"
  by (simp add: hashVerificationCode_def)

lemma verifyVerificationCode_iff:
  "verifyVerificationCode C x h \<longleftrightarrow> sha256 C (js_trim x) = hex_decode h"
  by (auto simp: verifyVerificationCode_def hex_decode_hash Let_def)

text \<open>The only pending challenge of the address.\<close>

definition only_challenge :: "string \<Rightarrow> verification_row \<Rightarrow> world \<Rightarrow> bool" where
  "only_challenge email c w \<longleftrightarrow> filter (pending email) (email_verifications w) = [c] \<and>
     distinct (map ev_id (email_verifications w))"

lemma only_challenge_latest:
  "only_challenge email c w \<Longrightarrow> latest_by (\<lambda>c. ev_email c = email \<and> ev_consumedAt c = None) w = Some c"
  by (simp add: only_challenge_def latest_by_def first_by_def pending_def [abs_def])

lemma only_challenge_in:
  "only_challenge email c w \<Longrightarrow> c \<in> set (email_verifications w) \<and> pending email c"
proof -
  assume "only_challenge email c w"
  then have "filter (pending email) (email_verifications w) = [c]" by (simp add: only_challenge_def)
  then have "c \<in> set (filter (pending email) (email_verifications w))" by (simp only: list.set) simp
  then show ?thesis by simp
qed

lemma filter_update_key:
  assumes "distinct (map k xs)" and "filter p xs = [c]" and "k c = i"
    and "\<And>x. k (f x) = k x" and "p (f c)"
  shows "filter p (update_where (\<lambda>x. k x = i) f xs) = [f c]"
  using assms(1,2)
proof (induction xs)
  case (Cons x xs)
  show ?case
  proof (cases "p x")
    case True
    then have x: "x = c" and none: "filter p xs = []" using Cons.prems(2) by auto
    have "update_where (\<lambda>x. k x = i) f xs = xs"
      using Cons.prems(1) x assms(3) by (intro update_where_id) (auto simp: image_iff)
    then show ?thesis using x none assms(3,5) by simp
  next
    case False
    then have f: "filter p xs = [c]" using Cons.prems(2) by simp
    then have "c \<in> set (filter p xs)" by (simp only: list.set) simp
    then have "c \<in> set xs" by simp
    then have "k x \<noteq> i" using Cons.prems(1) assms(3) by (auto simp: image_iff)
    then show ?thesis using Cons.IH Cons.prems(1) f False by simp
  qed
qed simp

lemma wrong_code:
  assumes c: "only_challenge (normalizeEmail email) c w" and "\<not> ev_expiresAt c < now"
    and wrong: "sha256 C (js_trim g) \<noteq> hex_decode (ev_codeHash c)"
  shows "\<exists>e w'. verifyEmail C (\<lambda>w. w) now email g w = fail e w' \<and>
    only_challenge (normalizeEmail email)
      (if ev_attempts c < 5 then c\<lparr>ev_attempts := ev_attempts c + 1\<rparr> else c) w' \<and> users w' = users w"
proof (cases "ev_attempts c < 5")
  case True
  let ?f = "\<lambda>c. c\<lparr>ev_attempts := ev_attempts c + 1\<rparr>"
  have cin: "c \<in> set (email_verifications w)" "pending (normalizeEmail email) c" using only_challenge_in [OF c] by auto
  have ex: "list_ex (\<lambda>x. ev_id x = ev_id c) (email_verifications w)" using cin(1) by (auto simp: list_ex_iff)
  let ?w = "w\<lparr>email_verifications := update_where (\<lambda>x. ev_id x = ev_id c) ?f (email_verifications w)\<rparr>"
  have "filter (pending (normalizeEmail email)) (email_verifications ?w) = [?f c]"
    using c cin(2) by (simp add: only_challenge_def filter_update_key pending_def)
  then have "only_challenge (normalizeEmail email) (?f c) ?w"
    using c by (simp add: only_challenge_def map_update_where)
  then show ?thesis using True ex assms(2) wrong
    by (simp add: verifyEmail_def Let_def only_challenge_latest [OF c] set_challenge_def
        verifyVerificationCode_iff)
next
  case False
  then show ?thesis using assms(2) c
    by (simp add: verifyEmail_def Let_def only_challenge_latest [OF c])
qed

lemma wrong_codes:
  assumes "only_challenge (normalizeEmail email) c w" and "\<not> ev_expiresAt c < now" and "0 \<le> ev_attempts c"
    and "\<And>g. g \<in> set gs \<Longrightarrow> sha256 C (js_trim g) \<noteq> hex_decode (ev_codeHash c)"
  shows "\<exists>n. only_challenge (normalizeEmail email) (c\<lparr>ev_attempts := n\<rparr>) (guess_codes C now email gs w) \<and>
    min (ev_attempts c + int (length gs)) 5 \<le> n \<and> users (guess_codes C now email gs w) = users w"
  using assms
proof (induction gs arbitrary: c w)
  case Nil
  have "c\<lparr>ev_attempts := ev_attempts c\<rparr> = c" by simp
  then show ?case using Nil(1) by (intro exI [of _ "ev_attempts c"]) simp
next
  case (Cons g gs)
  define c' where "c' = (if ev_attempts c < 5 then c\<lparr>ev_attempts := ev_attempts c + 1\<rparr> else c)"
  obtain e w' where w': "verifyEmail C (\<lambda>w. w) now email g w = fail e w'"
    "only_challenge (normalizeEmail email) c' w'" "users w' = users w"
    using wrong_code [OF Cons.prems(1,2), of C g] Cons.prems(4) [of g] by (auto simp: c'_def)
  have c': "ev_expiresAt c' = ev_expiresAt c" "ev_codeHash c' = ev_codeHash c"
    "ev_attempts c' = (if ev_attempts c < 5 then ev_attempts c + 1 else ev_attempts c)"
    "\<And>n. c'\<lparr>ev_attempts := n\<rparr> = c\<lparr>ev_attempts := n\<rparr>" by (simp_all add: c'_def)
  have "\<exists>n. only_challenge (normalizeEmail email) (c'\<lparr>ev_attempts := n\<rparr>) (guess_codes C now email gs w') \<and>
    min (ev_attempts c' + int (length gs)) 5 \<le> n \<and> users (guess_codes C now email gs w') = users w'"
    using Cons.IH [OF w'(2)] Cons.prems c' by auto
  then show ?case using w' c' by (auto simp: min_def split: if_splits)
qed

text \<open>
  C34. A code can be guessed at five times: after five wrong guesses at the only
  pending challenge of an address, nothing verifies that address, the right code
  included; and a code that verifies is spent, so that it verifies nothing again.
\<close>

theorem email_code_guesses_bounded:
  assumes c: "only_challenge (normalizeEmail email) c w" and t: "\<not> ev_expiresAt c < now" and "0 \<le> ev_attempts c"
    and wrong: "\<And>g. g \<in> set gs \<Longrightarrow> sha256 C (js_trim g) \<noteq> hex_decode (ev_codeHash c)"
  shows "(length gs \<ge> 5 \<longrightarrow> (\<exists>e. out (verifyEmail C interf now email code (guess_codes C now email gs w)) = Inl e)) \<and>
    users (guess_codes C now email gs w) = users w \<and>
    (\<forall>w'. verifyEmail C (\<lambda>w. w) now email code w = ok () w' \<longrightarrow>
       sha256 C (js_trim code) = hex_decode (ev_codeHash c) \<and>
       (\<exists>e. out (verifyEmail C interf now email code w') = Inl e) \<and>
       users w' = update_where (\<lambda>u. us_id u = ev_userId c) (\<lambda>u. u\<lparr>us_emailVerifiedAt := Some now\<rparr>) (users w))"
proof -
  obtain n where n: "only_challenge (normalizeEmail email) (c\<lparr>ev_attempts := n\<rparr>) (guess_codes C now email gs w)"
    "min (ev_attempts c + int (length gs)) 5 \<le> n" and us: "users (guess_codes C now email gs w) = users w"
    using wrong_codes [OF c t assms(3) wrong] by auto
  have five: "\<exists>e. out (verifyEmail C interf now email code (guess_codes C now email gs w)) = Inl e" if "length gs \<ge> 5"
  proof -
    have "n \<ge> 5" using n(2) that assms(3) by (auto simp: min_def split: if_splits)
    then show ?thesis using t by (simp add: verifyEmail_def Let_def only_challenge_latest [OF n(1)])
  qed
  have spent: "sha256 C (js_trim code) = hex_decode (ev_codeHash c) \<and>
      (\<exists>e. out (verifyEmail C interf now email code w') = Inl e) \<and>
      users w' = update_where (\<lambda>u. us_id u = ev_userId c) (\<lambda>u. u\<lparr>us_emailVerifiedAt := Some now\<rparr>) (users w)"
    if ok: "verifyEmail C (\<lambda>w. w) now email code w = ok () w'" for w'
  proof -
    let ?f = "\<lambda>c. c\<lparr>ev_consumedAt := Some now\<rparr>"
    have code: "sha256 C (js_trim code) = hex_decode (ev_codeHash c)"
      and w': "w' = set_user (ev_userId c) (\<lambda>u. u\<lparr>us_emailVerifiedAt := Some now\<rparr>)
        (w\<lparr>email_verifications := update_where (\<lambda>x. ev_id x = ev_id c) ?f (email_verifications w)\<rparr>)"
      using ok by (auto simp: verifyEmail_def Let_def only_challenge_latest [OF c] set_challenge_def
          verifyVerificationCode_iff split: if_splits sum.splits prod.splits)
    have "filter (pending (normalizeEmail email)) (email_verifications w') = []"
    proof -
      have "x = c" if "x \<in> set (email_verifications w)" "pending (normalizeEmail email) x" for x
      proof -
        have "x \<in> set (filter (pending (normalizeEmail email)) (email_verifications w))" using that by simp
        moreover have "filter (pending (normalizeEmail email)) (email_verifications w) = [c]"
          using c by (simp add: only_challenge_def)
        ultimately have "x \<in> set [c]" by (simp only:)
        then show ?thesis by simp
      qed
      then show ?thesis
        by (fastforce simp: w' set_user_def filter_empty_conv set_update_where pending_def)
    qed
    then have "latest_by (\<lambda>c. ev_email c = normalizeEmail email \<and> ev_consumedAt c = None) w' = None"
      by (simp add: latest_by_def first_by_def pending_def [abs_def])
    then show ?thesis using code w' by (simp add: verifyEmail_def Let_def set_user_def)
  qed
  show ?thesis using five us spent by blast
qed

section \<open>Account deletion\<close>

text \<open>A row of some table names the user.\<close>

definition mentions :: "ident \<Rightarrow> world \<Rightarrow> bool" where
  "mentions u w \<longleftrightarrow>
     list_ex (\<lambda>x. us_id x = u) (users w) \<or> list_ex (\<lambda>d. dv_userId d = u) (devices w) \<or>
     list_ex (\<lambda>s. as_userId s = u) (auth_sessions w) \<or>
     list_ex (\<lambda>c. pc_creatorUserId c = u \<or> pc_usedByUserId c = Some u) (pairing_codes w) \<or>
     list_ex (\<lambda>c. cv_userAId c = u \<or> cv_userBId c = u) (conversations w) \<or>
     list_ex (\<lambda>m. ms_senderId m = u) (messages w) \<or> list_ex (\<lambda>s. st_userId s = u) (user_settings w) \<or>
     list_ex (\<lambda>g. gd_userId g = u) (drive_connections w) \<or>
     list_ex (\<lambda>q. rq_senderId q = u \<or> rq_recipientId q = u) (conversation_requests w) \<or>
     list_ex (\<lambda>e. se_userId e = u) (security_events w) \<or>
     list_ex (\<lambda>c. ev_userId c = u) (email_verifications w) \<or> list_ex (\<lambda>r. rm_ownerId r = u) (rooms w) \<or>
     list_ex (\<lambda>m. mb_userId m = u) (room_members w) \<or>
     list_ex (\<lambda>q. jr_requesterId q = u \<or> jr_reviewedById q = Some u) (room_join_requests w) \<or>
     list_ex (\<lambda>m. rg_senderId m = u) (room_messages w) \<or>
     list_ex (\<lambda>k. kp_recipientUserId k = u \<or> kp_senderUserId k = u) (room_key_packages w) \<or>
     list_ex (\<lambda>l. al_adminId l = u) (audit_logs w)"

lemma list_ex_delete: "list_ex p (delete_where q xs) \<longleftrightarrow> (\<exists>x \<in> set xs. \<not> q x \<and> p x)"
  by (auto simp: list_ex_iff table_simps)

lemma list_ex_update: "list_ex p (update_where q f xs) \<longleftrightarrow> (\<exists>x \<in> set xs. p (if q x then f x else x))"
  by (auto simp: list_ex_iff set_update_where)

lemma cascade_forgets:
  assumes "\<not> list_ex (\<lambda>m. ms_senderId m = u) (messages (cascade_conversations u w))"
  shows "\<not> mentions u (cascade_account u (cascade_rooms u (cascade_conversations u w)))"
  using assms
  by (simp add: mentions_def cascade_account_def cascade_rooms_def cascade_conversations_def Let_def
      list_ex_delete list_ex_update participant_def)
    (auto simp: table_simps)

lemma burned_fold:
  "\<exists>l. foldl (\<lambda>w convo. push (other_party u convo) (Conversation_Burned (cv_id convo)) w) w cs =
    w\<lparr>emitted := emitted w @ l\<rparr> \<and>
   (\<forall>c \<in> set cs. \<forall>s \<in> set (sockets_in (connections w) (other_party u c)).
      (s, Conversation_Burned (cv_id c)) \<in> set l)"
proof (induction cs arbitrary: w)
  case Nil
  show ?case by (rule exI [of _ "[]"]) simp
next
  case (Cons c cs)
  define w1 where "w1 = push (other_party u c) (Conversation_Burned (cv_id c)) w"
  have w1: "w1 = w\<lparr>emitted := emitted w @
      map (\<lambda>s. (s, Conversation_Burned (cv_id c))) (sockets_in (connections w) (other_party u c))\<rparr>"
    by (simp add: w1_def push_log)
  obtain l where l: "foldl (\<lambda>w convo. push (other_party u convo) (Conversation_Burned (cv_id convo)) w) w1 cs =
      w1\<lparr>emitted := emitted w1 @ l\<rparr>"
    "\<forall>x \<in> set cs. \<forall>s \<in> set (sockets_in (connections w1) (other_party u x)).
      (s, Conversation_Burned (cv_id x)) \<in> set l" using Cons by blast
  show ?case
    by (rule exI [of _ "map (\<lambda>s. (s, Conversation_Burned (cv_id c))) (sockets_in (connections w) (other_party u c)) @ l"])
      (use l in \<open>auto simp: w1_def [symmetric] w1\<close>)
qed

text \<open>
  Deleting an account needs its password. Afterwards no row of any table names
  the user; every other account, every conversation and room of others and their
  messages are as before; the partners' live sockets were told that the
  conversation is gone, and the user's own sockets were closed. The stored
  attachments of the deleted conversations are not removed from the attachment
  store.
\<close>

theorem deletion_forgets_user:
  assumes "deleteAccount C u pw w = ok () w'"
  shows "(\<exists>x. find_user u w = Some x \<and> verifyPassword C pw (us_passwordHash x) = Inr True) \<and>
    \<not> mentions u w' \<and>
    users w' = filter (\<lambda>x. us_id x \<noteq> u) (users w) \<and>
    conversations w' = filter (\<lambda>c. \<not> participant u c) (conversations w) \<and>
    filter (\<lambda>m. \<not> (\<exists>c \<in> set (conversations w). participant u c \<and> cv_id c = ms_conversationId m)) (messages w) =
      messages w' \<and>
    rooms w' = filter (\<lambda>r. rm_ownerId r \<noteq> u) (rooms w) \<and>
    (\<forall>c \<in> set (conversations w). participant u c \<longrightarrow>
       (\<forall>s \<in> set (sockets_in (connections w) (other_party u c)).
          (s, Conversation_Burned (cv_id c)) \<in> set (emitted w'))) \<and>
    disconnected w' = disconnected w @ sockets_in (connections w) u \<and>
    blob_deletes w' = blob_deletes w"
proof -
  obtain x where x: "find_user u w = Some x" "verifyPassword C pw (us_passwordHash x) = Inr True"
    using assms by (cases "find_user u w") (auto simp: deleteAccount_def password_matches_def split: sum.splits if_splits)
  obtain l where l: "foldl (\<lambda>w convo. push (other_party u convo) (Conversation_Burned (cv_id convo)) w)
      w (filter (participant u) (conversations w)) = w\<lparr>emitted := emitted w @ l\<rparr>"
    "\<forall>c \<in> set (filter (participant u) (conversations w)). \<forall>s \<in> set (sockets_in (connections w) (other_party u c)).
      (s, Conversation_Burned (cv_id c)) \<in> set l" using burned_fold by blast
  define w1 where "w1 = disconnectUser u (w\<lparr>emitted := emitted w @ l\<rparr>)"
  have "delete_user u w1 = ok () w'"
    using assms x by (simp add: deleteAccount_def password_matches_def Let_def l(1) w1_def)
  then have w': "w' = cascade_account u (cascade_rooms u (cascade_conversations u w1))"
    and sender: "\<not> list_ex (\<lambda>m. ms_senderId m = u) (messages w')"
    by (auto simp: delete_user_def Let_def split: if_splits)
  have m: "messages w' = messages (cascade_conversations u w1)"
    by (simp add: w' cascade_account_def cascade_rooms_def Let_def)
  have "\<not> mentions u w'" unfolding w' by (rule cascade_forgets) (use sender m in simp)
  moreover have "messages w' = filter (\<lambda>m. \<not> (\<exists>c \<in> set (conversations w). participant u c \<and> cv_id c = ms_conversationId m)) (messages w)"
    by (simp add: m cascade_conversations_def Let_def w1_def disconnectUser_def delete_where_def)
      (rule filter_cong; force)
  moreover have "users w' = filter (\<lambda>x. us_id x \<noteq> u) (users w)"
    "conversations w' = filter (\<lambda>c. \<not> participant u c) (conversations w)"
    "rooms w' = filter (\<lambda>r. rm_ownerId r \<noteq> u) (rooms w)" "emitted w' = emitted w @ l"
    "disconnected w' = disconnected w @ sockets_in (connections w) u" "blob_deletes w' = blob_deletes w"
    by (simp_all add: w' cascade_account_def cascade_rooms_def cascade_conversations_def Let_def w1_def
        disconnectUser_def delete_where_def)
  ultimately show ?thesis using x l(2) by simp
qed

section \<open>Gaps\<close>

text \<open>A new account with a configured administrator address is superadmin before the address is verified.\<close>

lemma unverified_superadmin:
  assumes "register_account C cfg check interf fr now dto ctx w = ok r w'"
    and "re_email dto = Some e" and "is_admin_email cfg (normalizeEmail e)"
  shows "ry_role r = Role_Superadmin \<and> \<not> ry_emailVerified r"
  using assms by (auto simp: register_account_def Let_def case_prod_beta split: option.splits sum.splits prod.splits if_splits)

text \<open>In production no code is ever sent: with an SMTP host the service only logs, without one it throws.\<close>

lemma production_sends_nothing:
  "ac_production cfg \<Longrightarrow> outbox (open_challenge C cfg fr now u e w) = outbox w"
  by (simp add: open_challenge_def Let_def sendVerificationEmail_def)

text \<open>A password change leaves every session and device as it was, a thief's included.\<close>

lemma password_change_keeps_sessions:
  "auth_sessions (after (changePassword C salt u cur new w)) = auth_sessions w \<and>
   devices (after (changePassword C salt u cur new w)) = devices w"
  by (auto simp: changePassword_def auth_frame split: sum.split)

text \<open>Logging out with a token that was rotated in the meantime revokes nothing.\<close>

lemma logout_with_rotated_token:
  assumes "\<And>s. s \<in> set (auth_sessions w) \<Longrightarrow> as_refreshTokenHash s \<noteq> hashRefreshToken C token"
  shows "auth_sessions (logout C now token w) = auth_sessions w"
  using assms
  by (auto simp: logout_def Let_def drop_rotations_of_def update_where_id split: option.split dest!: find_Some_in)

text \<open>
  The five-attempt limit is read before the guess is compared: a guess that was
  admitted is accepted although five others failed in the meantime.
\<close>

lemma guess_race:
  assumes c: "only_challenge (normalizeEmail email) c w" and t: "\<not> ev_expiresAt c < now" and a: "ev_attempts c = 0"
    and right: "sha256 C (js_trim code) = hex_decode (ev_codeHash c)"
    and wrong: "\<And>g. g \<in> set gs \<Longrightarrow> sha256 C (js_trim g) \<noteq> hex_decode (ev_codeHash c)"
    and u: "find_user (ev_userId c) w \<noteq> None"
  shows "\<exists>w'. verifyEmail C (guess_codes C now email gs) now email code w = ok () w'"
proof -
  obtain n where n: "only_challenge (normalizeEmail email) (c\<lparr>ev_attempts := n\<rparr>) (guess_codes C now email gs w)"
    and us: "users (guess_codes C now email gs w) = users w"
    using wrong_codes [OF c t _ wrong] a by auto
  have "list_ex (\<lambda>x. ev_id x = ev_id c) (email_verifications (guess_codes C now email gs w))"
    using only_challenge_in [OF n] by (auto simp: list_ex_iff intro!: bexI [of _ "c\<lparr>ev_attempts := n\<rparr>"])
  moreover have "find_user (ev_userId c) (guess_codes C now email gs w) \<noteq> None"
    using u find_user_cong [OF us] by simp
  ultimately show ?thesis using t a right
    by (simp add: verifyEmail_def Let_def only_challenge_latest [OF c] verifyVerificationCode_iff set_challenge_def
        find_user_def)
qed

section \<open>Witnesses\<close>

definition demo_auth_cfg :: auth_config where
  "demo_auth_cfg = \<lparr>ac_accessTokenSecret = ''k'', ac_adminEmails = [''root@x.y''],
     ac_turnstileSecretKey = None, ac_production = False, ac_smtpHost = None\<rparr>"

definition demo_draws :: draws where
  "demo_draws = \<lparr>fr_userId = ''u1'', fr_challengeId = ''c1'', fr_deviceId = ''d9'',
     fr_prekeyId = \<lambda>i. ''p'' @ decimal i, fr_sessionId = ''s9'', fr_salt = ''salt'', fr_code = 7,
     fr_token = replicate 32 (CHR ''t'')\<rparr>"

definition demo_device_dto :: device_dto where
  "demo_device_dto = \<lparr>dd_identityDhPublic = ''dh'', dd_identitySigningPublic = ''sg'',
     dd_signedPrekeyPublic = ''spk'', dd_signedPrekeySignature = ''sps'',
     dd_oneTimePrekeysPublic = [''k0''], dd_deviceName = None, dd_platform = ''web''\<rparr>"

definition demo_ctx :: request_context where
  "demo_ctx = \<lparr>rc_userAgent = None, rc_ip = None\<rparr>"

definition demo_check :: siteverify where
  "demo_check = (\<lambda>_ _ _. Verdict True [])"

definition demo_register :: register_dto where
  "demo_register = \<lparr>re_device = demo_device_dto, re_password = ''password'', re_username = ''alice'',
     re_email = Some ''a@b.c'', re_turnstileToken = None\<rparr>"

text \<open>The hash is one byte, the first of the password.\<close>

definition demo_hash :: string where
  "demo_hash = ''scrypt$2$1$1$$eA==''"

definition demo_session :: "ident \<Rightarrow> ident \<Rightarrow> string \<Rightarrow> session_row" where
  "demo_session i d h = \<lparr>as_id = i, as_userId = ''alice'', as_deviceId = d, as_refreshTokenHash = h,
     as_ipHash = None, as_userAgent = None, as_createdAt = 0, as_expiresAt = 1000000, as_revokedAt = None\<rparr>"

definition demo_own_device :: "ident \<Rightarrow> device_row" where
  "demo_own_device i = new_device i ''alice'' 0 demo_device_dto"

definition demo_challenge :: verification_row where
  "demo_challenge = \<lparr>ev_id = ''c1'', ev_userId = ''alice'', ev_email = ''a@b.c'',
     ev_codeHash = hex_encode ''123456'', ev_expiresAt = 900000, ev_consumedAt = None, ev_attempts = 0,
     ev_createdAt = 0\<rparr>"

definition demo_token :: string where
  "demo_token = replicate 32 (CHR ''z'')"

definition account_world :: "int \<Rightarrow> world" where
  "account_world failures = empty_world\<lparr>
     users := [(plain_user ''alice'' ''alice'' None Acct_Active)\<lparr>us_passwordHash := demo_hash,
                 us_email := Some ''a@b.c'', us_failedLoginCount := failures\<rparr>],
     devices := [demo_own_device ''d1'', demo_own_device ''d2''],
     auth_sessions := [demo_session ''s1'' ''d1'' (hashRefreshToken echo_crypto demo_token),
                       demo_session ''s2'' ''d2'' ''''],
     email_verifications := [demo_challenge],
     connections := [(''bob'', [''sock''])],
     conversations := [\<lparr>cv_id = ''c'', cv_userAId = ''alice'', cv_userBId = ''bob'', cv_status = Cv_Active,
       cv_timerSeconds = None, cv_trigger = None, cv_createdAt = 0, cv_sessionEpoch = 1,
       cv_expiresAt = None, cv_temporaryCreator = None\<rparr>]\<rparr>"

definition demo_login :: "string \<Rightarrow> login_dto" where
  "demo_login pw = \<lparr>lg_device = demo_device_dto, lg_identifier = Some ''alice'', lg_userId = None,
     lg_password = pw, lg_turnstileToken = Some ''tok''\<rparr>"

lemma demo_password: "verifyPassword echo_crypto ''x'' demo_hash = Inr True"
  "verifyPassword echo_crypto ''y'' demo_hash = Inr False"
  by code_simp+

lemma demo_find: "find_login_user (raw_identifier (demo_login pw)) (account_world n) =
    Some ((plain_user ''alice'' ''alice'' None Acct_Active)\<lparr>us_passwordHash := demo_hash,
                 us_email := Some ''a@b.c'', us_failedLoginCount := n\<rparr>)"
  "raw_identifier (demo_login pw) \<noteq> []"
  by (simp_all add: find_login_user_def raw_identifier_def demo_login_def account_world_def to_lower_def
      lower_char_def js_trim_def js_space_def)

lemma demo_unchallenged: "unchallenged demo_auth_cfg demo_check now (demo_login pw) demo_ctx w"
  by (auto simp: unchallenged_def demo_login_def demo_auth_cfg_def verifyToken_def given_def)

lemma auth_ok_empty: "auth_ok empty_world"
  by (simp add: auth_ok_def users_inv_def emails_def devices_inv_def sessions_inv_def empty_world_def)

lemma auth_ok_account: "auth_ok (account_world n)"
  by (simp add: auth_ok_def users_inv_def emails_def devices_inv_def sessions_inv_def account_world_def
      empty_world_def demo_own_device_def new_device_def demo_session_def live_def session_owner_def
      device_owner_def)




lemma demo_backed: "session_backed (demo_session ''s1'' ''d1'' h) (account_world 0)"
  by (simp add: session_backed_def find_device_def find_user_def account_world_def demo_session_def
      demo_own_device_def new_device_def demo_device_dto_def)

lemma demo_new_token:
  "generateRefreshToken (replicate 32 (CHR ''r'')) = ''cnJycnJycnJycnJycnJycnJycnJycnJycnJycnJycnI''"
  by code_simp

lemma demo_lengths: "length (js_trim demo_token) \<ge> 32"
  "length (js_trim (generateRefreshToken (replicate 32 (CHR ''r'')))) \<ge> 32"
  by (simp_all add: demo_token_def demo_new_token js_trim_def js_space_def)

lemma demo_unhash: "b64_decode (hashRefreshToken echo_crypto t) = t"
  by (simp add: hashRefreshToken_def echo_crypto_def)

lemma demo_hashes: "hashRefreshToken echo_crypto demo_token \<noteq> []"
  "hashRefreshToken echo_crypto (generateRefreshToken (replicate 32 (CHR ''r''))) \<noteq> []"
  "hashRefreshToken echo_crypto demo_token \<noteq> hashRefreshToken echo_crypto (generateRefreshToken (replicate 32 (CHR ''r'')))"
proof -
  have ne: "demo_token \<noteq> generateRefreshToken (replicate 32 (CHR ''r''))"
    by (simp only: demo_new_token) (simp add: demo_token_def numeral_eq_Suc)
  then show "hashRefreshToken echo_crypto demo_token \<noteq> hashRefreshToken echo_crypto (generateRefreshToken (replicate 32 (CHR ''r'')))"
    using demo_unhash by metis
qed (simp_all add: hashRefreshToken_def echo_crypto_def demo_token_def demo_new_token)

lemma refresh_rotation_witness:
  "\<exists>a b w1. refresh echo_crypto demo_auth_cfg (\<lambda>w. w) (replicate 32 (CHR ''r'')) 5 5 demo_token (account_world 0) =
      ok (a, b) w1 \<and>
    out (refresh echo_crypto demo_auth_cfg (\<lambda>w. w) [] 30005 30005 demo_token w1) = Inl session_expired \<and>
    out (refresh echo_crypto demo_auth_cfg (\<lambda>w. w) [] 30004 30004 demo_token w1) = Inr (a, b)"
proof -
  let ?s = "demo_session ''s1'' ''d1'' (hashRefreshToken echo_crypto demo_token)"
  have s: "?s \<in> set (auth_sessions (account_world 0))"
    "as_refreshTokenHash ?s = hashRefreshToken echo_crypto demo_token" "as_revokedAt ?s = None" "as_expiresAt ?s > 5"
    by (simp_all add: account_world_def demo_session_def)
  have ids: "distinct (map as_id (auth_sessions (account_world 0)))" by (simp add: account_world_def demo_session_def)
  have alone: "x = ?s" if "x \<in> set (auth_sessions (account_world 0))"
    "as_refreshTokenHash x = hashRefreshToken echo_crypto demo_token" for x
    using that demo_hashes by (auto simp: account_world_def demo_session_def)
  have fresh: "as_refreshTokenHash x \<noteq> hashRefreshToken echo_crypto (generateRefreshToken (replicate 32 (CHR ''r'')))"
    if "x \<in> set (auth_sessions (account_world 0))" for x
    using that demo_hashes by (auto simp: account_world_def demo_session_def)
  have rot: "h \<notin> fst ` set (recent_rotations (account_world 0))" for h by (simp add: account_world_def empty_world_def)
  obtain a b w1 where r: "refresh echo_crypto demo_auth_cfg (\<lambda>w. w) (replicate 32 (CHR ''r'')) 5 5 demo_token
      (account_world 0) = ok (a, b) w1"
    using refresh_rotates [OF demo_lengths(1) s demo_backed alone rot, where cfg = demo_auth_cfg and
        random = "replicate 32 (CHR ''r'')" and later = 5] by blast
  note rr = refresh_rotation [OF demo_lengths(1,2) s demo_backed ids alone fresh rot rot r]
  have "out (refresh echo_crypto demo_auth_cfg (\<lambda>w. w) [] 30005 30005 demo_token w1) = Inl session_expired"
    using rr [of 30005 "\<lambda>w. w" "[]" 30005] by (simp add: refresh_token_ttl_ms_def)
  moreover have "out (refresh echo_crypto demo_auth_cfg (\<lambda>w. w) [] 30004 30004 demo_token w1) = Inr (a, b)"
    using rr [of 30004 "\<lambda>w. w" "[]" 30004] by (simp add: refresh_token_ttl_ms_def)
  ultimately show ?thesis using r by blast
qed

lemma revocation_is_immediate_witness:
  "\<exists>e. out (refresh echo_crypto demo_auth_cfg (\<lambda>w. w) [] 6 6 demo_token
     (after (revokeSession 5 ''alice'' ''s1'' (account_world 0)))) = Inl e"
proof -
  let ?s = "demo_session ''s1'' ''d1'' (hashRefreshToken echo_crypto demo_token)"
  have f: "find_session ''s1'' (account_world 0) = Some ?s"
    by (simp add: find_session_def account_world_def demo_session_def)
  have live: "as_revokedAt ?s = None" "as_userId ?s = ''alice''" by (simp_all add: demo_session_def)
  have r: "revokeSession 5 ''alice'' ''s1'' (account_world 0) =
      ok () (after (revokeSession 5 ''alice'' ''s1'' (account_world 0)))"
    by (simp add: revokeSession_def f live)
  have t: "as_id x = ''s1''" if "x \<in> set (auth_sessions (account_world 0))"
    "as_refreshTokenHash x = hashRefreshToken echo_crypto demo_token" for x
    using that demo_hashes by (auto simp: account_world_def demo_session_def)
  have t2: "rt_sessionId q = ''s1''" if "(hashRefreshToken echo_crypto demo_token, q) \<in> set (recent_rotations (account_world 0))" for q
    using that by (simp add: account_world_def empty_world_def)
  from revocation_is_immediate [OF r f live(1) t t2] show ?thesis by blast
qed

lemma revoke_others_keeps_current_witness: "fst (revokeOtherSessions 5 ''alice'' ''d1'' (account_world 0)) = 1"
  using revoke_others_keeps_current [OF auth_ok_account, of 5 "''alice''" "''d1''" 0]
  by (simp add: account_world_def demo_session_def)

lemma email_code_guesses_bounded_witness:
  "\<exists>e. out (verifyEmail echo_crypto (\<lambda>w. w) 5 ''a@b.c'' ''123456''
     (guess_codes echo_crypto 5 ''a@b.c'' (replicate 5 ''000000'') (account_world 0))) = Inl e"
proof -
  have c: "only_challenge (normalizeEmail ''a@b.c'') demo_challenge (account_world 0)"
    by (simp add: only_challenge_def pending_def account_world_def demo_challenge_def normalizeEmail_def to_lower_def
        lower_char_def js_trim_def js_space_def)
  have w: "sha256 echo_crypto (js_trim g) \<noteq> hex_decode (ev_codeHash demo_challenge)"
    if "g \<in> set (replicate 5 ''000000'')" for g
    using that by (auto simp: demo_challenge_def echo_crypto_def js_trim_def js_space_def simp del: hex_encode.simps)
  have t: "\<not> ev_expiresAt demo_challenge < 5" "0 \<le> ev_attempts demo_challenge"
    by (simp_all add: demo_challenge_def)
  from email_code_guesses_bounded [where interf = "\<lambda>w. w" and code = "''123456''" and
      gs = "replicate 5 ''000000''", OF c t w, THEN conjunct1]
  show ?thesis by simp
qed

lemma deletion_forgets_user_witness:
  "\<not> mentions ''alice'' (after (deleteAccount echo_crypto ''alice'' ''x'' (account_world 0)))"
proof -
  have "out (deleteAccount echo_crypto ''alice'' ''x'' (account_world 0)) = Inr ()"
    by (simp add: deleteAccount_def password_matches_def find_user_def account_world_def demo_password Let_def
        delete_user_def disconnectUser_def participant_def cascade_account_def cascade_rooms_def
        cascade_conversations_def empty_world_def push_log)
  then have "deleteAccount echo_crypto ''alice'' ''x'' (account_world 0) =
      ok () (after (deleteAccount echo_crypto ''alice'' ''x'' (account_world 0)))"
    by (metis prod.collapse)
  from deletion_forgets_user [OF this] show ?thesis by blast
qed

end
