(* ===== verification/Admin.thy ===== *)
theory Admin
  imports Access Rooms "HOL-Library.Sublist" "HOL-Library.Multiset"
begin

text \<open>
  The administration of the server: \<open>admin/admin.service.ts\<close>, its two guards and
  the routes of \<open>admin/admin.controller.ts\<close> that change state.
\<close>

section \<open>Guards\<close>

definition adminGuard :: "instant \<Rightarrow> ident \<Rightarrow> world \<Rightarrow> http_error + user_row" where
  "adminGuard now userId w =
     (case find_user userId w of
        None \<Rightarrow> Inl (Forbidden ''Account is not active.'')
      | Some user \<Rightarrow>
          if us_status user \<noteq> Acct_Active then Inl (Forbidden ''Account is not active.'')
          else if \<not> (case us_lockedUntil user of None \<Rightarrow> True | Some l \<Rightarrow> l \<le> now)
          then Inl (Forbidden ''Account is currently locked.'')
          else if us_role user \<noteq> Role_Admin \<and> us_role user \<noteq> Role_Superadmin
          then Inl (Forbidden ''Administrative privileges required.'')
          else Inr user)"

definition superadminGuard :: "user_row \<Rightarrow> http_error + unit" where
  "superadminGuard adminUser =
     (if us_role adminUser \<noteq> Role_Superadmin then Inl (Forbidden ''Superadmin privileges required.'')
      else Inr ())"

text \<open>\<open>getClientIp\<close>: the first entry of \<open>x-forwarded-for\<close>, else the address of the peer.\<close>

definition getClientIp :: "string option \<Rightarrow> string option \<Rightarrow> string option" where
  "getClientIp forwarded peer =
     (case forwarded of
        None \<Rightarrow> peer
      | Some f \<Rightarrow> (case split_on (CHR '','') f of
            [] \<Rightarrow> None
          | first # _ \<Rightarrow> if first = [] then None else Some (js_trim first)))"

section \<open>The audit log\<close>

text \<open>
  A failing insert (the administrator has been deleted, a foreign key) is
  logged and ignored. The members of \<open>details\<close> are listed with dotted names,
  and a member that is \<open>undefined\<close> is \<open>None\<close>.
\<close>

definition recordAudit ::
  "instant \<Rightarrow> ident \<Rightarrow> string \<Rightarrow> string \<Rightarrow> ident option \<Rightarrow> (string \<times> string option) list \<Rightarrow>
     string option \<Rightarrow> world \<Rightarrow> world" where
  "recordAudit now adminId action targetType targetId details ip w =
     (if find_user adminId w = None then w
      else w\<lparr>audit_logs := audit_logs w @
        [\<lparr>al_adminId = adminId, al_action = action, al_targetType = targetType, al_targetId = targetId,
          al_details = details, al_ipAddress = ip, al_createdAt = now\<rparr>]\<rparr>)"

section \<open>Accounts\<close>

text \<open>Every session and device of the user that is not revoked yet.\<close>

definition revoke_everything :: "instant \<Rightarrow> ident \<Rightarrow> world \<Rightarrow> world" where
  "revoke_everything now userId w =
     w\<lparr>devices := update_where (\<lambda>d. dv_userId d = userId \<and> dv_revokedAt d = None)
                    (\<lambda>d. d\<lparr>dv_revokedAt := Some now\<rparr>) (devices w),
       auth_sessions := update_where (\<lambda>s. as_userId s = userId \<and> as_revokedAt s = None)
                    (\<lambda>s. s\<lparr>as_revokedAt := Some now\<rparr>) (auth_sessions w)\<rparr>"

definition updateUserStatus ::
  "instant \<Rightarrow> ident \<Rightarrow> ident \<Rightarrow> account_status \<Rightarrow> string option \<Rightarrow> string option \<Rightarrow> world \<Rightarrow>
     account_status res" where
  "updateUserStatus now adminId userId status reason ip w =
     (if adminId = userId \<and> status = Acct_Deleted
      then fail (Bad_Request ''You cannot ban your own administrator account.'') w
      else case find_user userId w of
        None \<Rightarrow> fail (Not_Found ''User not found'') w
      | Some targetUser \<Rightarrow>
          let details = [(''username'', Some (us_username targetUser)), (''reason'', reason)]
          in if status = Acct_Deleted
             then let w1 = revoke_everything now userId (set_user userId (\<lambda>u. u\<lparr>us_status := Acct_Deleted\<rparr>) w);
                      w2 = disconnectUser userId w1
                  in ok Acct_Deleted (recordAudit now adminId ''BAN_USER'' ''USER'' (Some userId) details ip w2)
             else let w1 = set_user userId (\<lambda>u. u\<lparr>us_status := Acct_Active, us_failedLoginCount := 0,
                              us_lockedUntil := None\<rparr>) w
                  in ok Acct_Active (recordAudit now adminId ''UNBAN_USER'' ''USER'' (Some userId) details ip w1))"

definition unlockUser :: "instant \<Rightarrow> ident \<Rightarrow> ident \<Rightarrow> string option \<Rightarrow> world \<Rightarrow> unit res" where
  "unlockUser now adminId userId ip w =
     (case find_user userId w of
        None \<Rightarrow> fail (Not_Found ''User not found'') w
      | Some targetUser \<Rightarrow>
          ok () (recordAudit now adminId ''UNLOCK_ACCOUNT'' ''USER'' (Some userId)
                   [(''username'', Some (us_username targetUser))] ip
                   (set_user userId (\<lambda>u. u\<lparr>us_failedLoginCount := 0, us_lockedUntil := None\<rparr>) w)))"

definition revokeUserSessions :: "instant \<Rightarrow> ident \<Rightarrow> ident \<Rightarrow> string option \<Rightarrow> world \<Rightarrow> unit res" where
  "revokeUserSessions now adminId userId ip w =
     (case find_user userId w of
        None \<Rightarrow> fail (Not_Found ''User not found'') w
      | Some targetUser \<Rightarrow>
          ok () (recordAudit now adminId ''REVOKE_SESSIONS'' ''USER'' (Some userId)
                   [(''username'', Some (us_username targetUser))] ip
                   (disconnectUser userId (revoke_everything now userId w))))"

fun role_text :: "user_role \<Rightarrow> string" where
  "role_text Role_User = ''USER''"
| "role_text Role_Admin = ''ADMIN''"
| "role_text Role_Superadmin = ''SUPERADMIN''"

definition active_superadmin :: "user_row \<Rightarrow> bool" where
  "active_superadmin u \<longleftrightarrow> us_role u = Role_Superadmin \<and> us_status u = Acct_Active"

text \<open>\<open>interf\<close> is what other requests do between the count and the update.\<close>

definition updateUserRole ::
  "(world \<Rightarrow> world) \<Rightarrow> instant \<Rightarrow> ident \<Rightarrow> ident \<Rightarrow> user_role \<Rightarrow> string option \<Rightarrow> world \<Rightarrow>
     (ident \<times> string \<times> user_role) res" where
  "updateUserRole interf now adminId userId role ip w =
     (case find_user userId w of
        None \<Rightarrow> fail (Not_Found ''User not found'') w
      | Some targetUser \<Rightarrow>
          if adminId = userId \<and> role \<noteq> Role_Superadmin \<and> length (filter active_superadmin (users w)) \<le> 1
          then fail (Bad_Request ''Cannot demote yourself: you are the only remaining Superadmin.'') w
          else let w1 = interf w
               in (case find_user userId w1 of
                     None \<Rightarrow> fail Record_Missing w1
                   | Some current \<Rightarrow>
                       ok (userId, us_username current, role)
                         (recordAudit now adminId ''CHANGE_ROLE'' ''USER'' (Some userId)
                            [(''username'', Some (us_username targetUser)),
                             (''previousRole'', Some (role_text (us_role targetUser))),
                             (''newRole'', Some (role_text role))] ip
                            (set_user userId (\<lambda>u. u\<lparr>us_role := role\<rparr>) w1))))"

definition bootstrapAdmin ::
  "string option \<Rightarrow> instant \<Rightarrow> string \<Rightarrow> string \<Rightarrow> string option \<Rightarrow> world \<Rightarrow> ident res" where
  "bootstrapAdmin bootstrapSecret now secret identifier ip w =
     (case given bootstrapSecret of
        None \<Rightarrow> fail (Forbidden ''Admin bootstrap is not configured on this server.'') w
      | Some expected \<Rightarrow>
          if secret \<noteq> expected then fail (Unauthorized ''Invalid bootstrap secret.'') w
          else let clean = to_lower (js_trim identifier)
               in (case find (\<lambda>u. us_username u = clean \<or> us_email u = Some clean) (users w) of
                     None \<Rightarrow> fail (Not_Found (''No user found matching \"'' @ identifier @ ''\".'')) w
                   | Some user \<Rightarrow>
                       ok (us_id user)
                         (recordAudit now (us_id user) ''BOOTSTRAP_ADMIN'' ''USER'' (Some (us_id user))
                            [(''identifier'', Some identifier), (''newRole'', Some ''SUPERADMIN'')] ip
                            (set_user (us_id user) (\<lambda>u. u\<lparr>us_role := Role_Superadmin\<rparr>) w))))"

section \<open>Rooms and maintenance\<close>

fun room_status_text :: "room_status \<Rightarrow> string" where
  "room_status_text Rm_Active = ''ACTIVE''"
| "room_status_text Rm_Closed = ''CLOSED''"
| "room_status_text Rm_Deleted = ''DELETED''"

record room_patch =
  rp_status :: "room_status option"
  rp_joinLocked :: "bool option"
  rp_reason :: "string option"

definition bool_text :: "bool \<Rightarrow> string" where
  "bool_text b = (if b then ''true'' else ''false'')"

definition updateRoomAsAdmin ::
  "instant \<Rightarrow> ident \<Rightarrow> ident \<Rightarrow> room_patch \<Rightarrow> string option \<Rightarrow> world \<Rightarrow> room_row option res" where
  "updateRoomAsAdmin now adminId roomId dto ip w =
     (case find_room roomId w of
        None \<Rightarrow> fail (Not_Found ''Room not found'') w
      | Some room \<Rightarrow>
          let change = (\<lambda>r. r\<lparr>rm_status := (case rp_status dto of None \<Rightarrow> rm_status r | Some s \<Rightarrow> s),
                              rm_joinLocked := (case rp_joinLocked dto of None \<Rightarrow> rm_joinLocked r | Some l \<Rightarrow> l),
                              rm_updatedAt := now\<rparr>);
              w1 = w\<lparr>rooms := update_where (\<lambda>r. rm_id r = roomId) change (rooms w)\<rparr>
          in ok (find_room roomId w1)
               (recordAudit now adminId ''UPDATE_ROOM'' ''ROOM'' (Some roomId)
                  [(''name'', Some (rm_name room)),
                   (''patch.status'', map_option room_status_text (rp_status dto)),
                   (''patch.joinLocked'', map_option bool_text (rp_joinLocked dto)),
                   (''patch.reason'', rp_reason dto)] ip w1))"

datatype sweep = Sweep_Messages | Sweep_Attachments | Sweep_All

fun sweep_text :: "sweep \<Rightarrow> string" where
  "sweep_text Sweep_Messages = ''messages''"
| "sweep_text Sweep_Attachments = ''attachments''"
| "sweep_text Sweep_All = ''all''"

text \<open>
  What runs beside the sweeps: other requests, and whether a timer has already
  started the same sweep (then it reports nothing).
\<close>

record sweep_env =
  sw_messages :: "ident \<Rightarrow> nat \<Rightarrow> world \<Rightarrow> world"
  sw_attachments :: "nat \<Rightarrow> world \<Rightarrow> world"
  sw_messages_busy :: bool
  sw_chats_busy :: bool
  sw_attachments_busy :: bool

definition triggerSweep ::
  "sweep_env \<Rightarrow> instant \<Rightarrow> ident \<Rightarrow> sweep \<Rightarrow> string option \<Rightarrow> world \<Rightarrow> (nat \<times> nat \<times> nat) res" where
  "triggerSweep env now adminId kind ip w =
     (let (swept, w1) =
        (if kind = Sweep_Messages \<or> kind = Sweep_All
         then (case cleanupExpiredMessages (sw_messages env) (sw_messages_busy env) now w of
                 (Inl e, w') \<Rightarrow> (Inl e, w')
               | (Inr n, w') \<Rightarrow>
                   (let (m, w'') = cleanupExpiredTemporaryChats (sw_chats_busy env) now w'
                    in (Inr (n, m), w'')))
         else (Inr (0, 0), w))
      in case swept of
           Inl e \<Rightarrow> fail e w1
         | Inr (expiredMessagesSwept, expiredTemporaryChatsSwept) \<Rightarrow>
             (let (orphanedAttachmentsSwept, w2) =
                (if kind = Sweep_Attachments \<or> kind = Sweep_All
                 then cleanupOrphanedAttachments (sw_attachments env) (sw_attachments_busy env) now w1
                 else (0, w1))
              in ok (expiredMessagesSwept, expiredTemporaryChatsSwept, orphanedAttachmentsSwept)
                   (recordAudit now adminId ''SYSTEM_SWEEP'' ''SYSTEM'' None
                      [(''type'', Some (sweep_text kind)),
                       (''expiredMessagesSwept'', Some (decimal expiredMessagesSwept)),
                       (''expiredTemporaryChatsSwept'', Some (decimal expiredTemporaryChatsSwept)),
                       (''orphanedAttachmentsSwept'', Some (decimal orphanedAttachmentsSwept))] ip w2)))"

section \<open>Routes\<close>

datatype admin_request =
    Set_Status ident account_status "string option"
  | Unlock ident
  | Revoke_Sessions ident
  | Set_Role ident user_role
  | Patch_Room ident room_patch
  | Sweep sweep

text \<open>The handlers of the routes, without their results.\<close>

fun admin_service ::
  "sweep_env \<Rightarrow> (world \<Rightarrow> world) \<Rightarrow> instant \<Rightarrow> ident \<Rightarrow> string option \<Rightarrow> admin_request \<Rightarrow> world \<Rightarrow> unit res" where
  "admin_service env interf now adminId ip (Set_Status u s r) w =
     apfst (map_sum id (\<lambda>_. ())) (updateUserStatus now adminId u s r ip w)"
| "admin_service env interf now adminId ip (Unlock u) w = unlockUser now adminId u ip w"
| "admin_service env interf now adminId ip (Revoke_Sessions u) w = revokeUserSessions now adminId u ip w"
| "admin_service env interf now adminId ip (Set_Role u r) w =
     apfst (map_sum id (\<lambda>_. ())) (updateUserRole interf now adminId u r ip w)"
| "admin_service env interf now adminId ip (Patch_Room r p) w =
     apfst (map_sum id (\<lambda>_. ())) (updateRoomAsAdmin now adminId r p ip w)"
| "admin_service env interf now adminId ip (Sweep k) w =
     apfst (map_sum id (\<lambda>_. ())) (triggerSweep env now adminId k ip w)"

text \<open>\<open>@UseGuards(AccessTokenGuard, AdminGuard)\<close>, with \<open>SuperadminGuard\<close> on the change of a role.\<close>

definition admin_route ::
  "crypto \<Rightarrow> auth_config \<Rightarrow> sweep_env \<Rightarrow> (world \<Rightarrow> world) \<Rightarrow> instant \<Rightarrow> string option \<Rightarrow> string option \<Rightarrow>
     string option \<Rightarrow> admin_request \<Rightarrow> world \<Rightarrow> unit res" where
  "admin_route C cfg env interf now header forwarded peer req w =
     (case canActivate C cfg now header w of
        Inl e \<Rightarrow> fail e w
      | Inr (userId, _) \<Rightarrow>
          (case adminGuard now userId w of
             Inl e \<Rightarrow> fail e w
           | Inr adminUser \<Rightarrow>
               (case (case req of Set_Role _ _ \<Rightarrow> superadminGuard adminUser | _ \<Rightarrow> Inr ()) of
                  Inl e \<Rightarrow> fail e w
                | Inr _ \<Rightarrow> admin_service env interf now (us_id adminUser) (getClientIp forwarded peer) req w)))"


section \<open>Listings\<close>

text \<open>\<open>skip\<close> and \<open>take\<close>; the DTOs keep the page and the limit positive.\<close>

definition page_of :: "int \<Rightarrow> int \<Rightarrow> 'r list \<Rightarrow> 'r list" where
  "page_of page limit rs = take (nat limit) (drop (nat ((page - 1) * limit)) rs)"

definition total_pages :: "'r list \<Rightarrow> int \<Rightarrow> int" where
  "total_pages rs limit = - ((- int (length rs)) div limit)"

definition contains_ci :: "string \<Rightarrow> string \<Rightarrow> bool" where
  "contains_ci needle s \<longleftrightarrow> sublist (to_lower needle) (to_lower s)"

definition contains_given :: "string \<Rightarrow> string option \<Rightarrow> bool" where
  "contains_given needle s = (case s of None \<Rightarrow> False | Some t \<Rightarrow> contains_ci needle t)"

text \<open>
  \<open>@Type(() => Boolean)\<close> turns the text of a query parameter into a boolean: every
  text but the empty one is true.
\<close>

definition query_bool :: "string option \<Rightarrow> bool option" where
  "query_bool v = map_option (\<lambda>s. s \<noteq> [])  v"

datatype user_sort = By_CreatedAt | By_LastLoginAt | By_Username | By_FailedLoginCount

record user_query =
  uq_search :: "string option"
  uq_status :: "account_status option"
  uq_role :: "user_role option"
  uq_isLocked :: "bool option"
  uq_page :: int
  uq_limit :: int
  uq_sortBy :: user_sort
  uq_descending :: bool

text \<open>The place of a user name in the collation of the database is an argument.\<close>

fun sort_value :: "(string \<Rightarrow> int) \<Rightarrow> user_sort \<Rightarrow> user_row \<Rightarrow> int option" where
  "sort_value collate By_CreatedAt u = Some (us_createdAt u)"
| "sort_value collate By_LastLoginAt u = us_lastLoginAt u"
| "sort_value collate By_Username u = Some (collate (us_username u))"
| "sort_value collate By_FailedLoginCount u = Some (us_failedLoginCount u)"

text \<open>\<open>NULL\<close> sorts as larger than every value.\<close>

definition order_by :: "('r \<Rightarrow> int option) \<Rightarrow> bool \<Rightarrow> 'r list \<Rightarrow> 'r list" where
  "order_by k descending rs =
     (let nulls = filter (\<lambda>r. k r = None) rs; vals = filter (\<lambda>r. k r \<noteq> None) rs
      in if descending then nulls @ sort_key (\<lambda>r. - the (k r)) vals else sort_key (\<lambda>r. the (k r)) vals @ nulls)"

definition locked_now :: "instant \<Rightarrow> user_row \<Rightarrow> bool" where
  "locked_now now u = (case us_lockedUntil u of None \<Rightarrow> False | Some l \<Rightarrow> l > now)"

text \<open>
  The condition of the query. Both the search and the filter on unlocked
  accounts assign \<open>where.OR\<close>, so the second replaces the first.
\<close>

definition user_or :: "instant \<Rightarrow> user_query \<Rightarrow> user_row \<Rightarrow> bool" where
  "user_or now q u =
     (if uq_isLocked q = Some False then \<not> locked_now now u
      else case given (uq_search q) of
        None \<Rightarrow> True
      | Some text \<Rightarrow>
          let search = to_lower (js_trim text)
          in contains_ci search (us_username u) \<or> contains_given search (us_email u) \<or>
             contains_given search (us_displayName u))"

definition user_matches :: "instant \<Rightarrow> user_query \<Rightarrow> user_row \<Rightarrow> bool" where
  "user_matches now q u \<longleftrightarrow> user_or now q u \<and>
     (case uq_status q of None \<Rightarrow> True | Some s \<Rightarrow> us_status u = s) \<and>
     (case uq_role q of None \<Rightarrow> True | Some r \<Rightarrow> us_role u = r) \<and>
     (uq_isLocked q = Some True \<longrightarrow> locked_now now u)"

record user_view =
  uv_id :: ident
  uv_username :: string
  uv_email :: "string option"
  uv_displayName :: "string option"
  uv_status :: account_status
  uv_role :: user_role
  uv_isLocked :: bool
  uv_failedLoginCount :: int
  uv_lockedUntil :: "instant option"
  uv_emailVerified :: bool
  uv_createdAt :: instant
  uv_lastLoginAt :: "instant option"
  uv_devicesCount :: nat
  uv_roomsCount :: nat
  uv_messagesCount :: nat

definition user_view_of :: "instant \<Rightarrow> world \<Rightarrow> user_row \<Rightarrow> user_view" where
  "user_view_of now w u =
     \<lparr>uv_id = us_id u, uv_username = us_username u, uv_email = us_email u, uv_displayName = us_displayName u,
      uv_status = us_status u, uv_role = us_role u, uv_isLocked = locked_now now u,
      uv_failedLoginCount = us_failedLoginCount u, uv_lockedUntil = us_lockedUntil u,
      uv_emailVerified = (us_emailVerifiedAt u \<noteq> None), uv_createdAt = us_createdAt u,
      uv_lastLoginAt = us_lastLoginAt u,
      uv_devicesCount = length (filter (\<lambda>d. dv_userId d = us_id u) (devices w)),
      uv_roomsCount = length (filter (\<lambda>m. mb_userId m = us_id u) (room_members w)),
      uv_messagesCount = length (filter (\<lambda>m. ms_senderId m = us_id u) (messages w))\<rparr>"

definition matching_users :: "(string \<Rightarrow> int) \<Rightarrow> instant \<Rightarrow> user_query \<Rightarrow> world \<Rightarrow> user_row list" where
  "matching_users collate now q w =
     order_by (sort_value collate (uq_sortBy q)) (uq_descending q) (filter (user_matches now q) (users w))"

text \<open>The users of the page, the number of matches, and the number of pages.\<close>

definition getUsers ::
  "(string \<Rightarrow> int) \<Rightarrow> instant \<Rightarrow> user_query \<Rightarrow> world \<Rightarrow> user_view list \<times> nat \<times> int" where
  "getUsers collate now q w =
     (let found = matching_users collate now q w
      in (map (user_view_of now w) (page_of (uq_page q) (uq_limit q) found), length found,
          total_pages found (uq_limit q)))"

record room_query =
  rmq_search :: "string option"
  rmq_status :: "room_status option"
  rmq_joinPolicy :: "join_policy option"
  rmq_joinLocked :: "bool option"
  rmq_page :: int
  rmq_limit :: int

definition admin_brief :: "user_row \<Rightarrow> ident \<times> string \<times> string option" where
  "admin_brief u = (us_id u, us_username u, us_email u)"

record admin_room_view =
  av_id :: ident
  av_name :: string
  av_status :: room_status
  av_joinPolicy :: join_policy
  av_joinLocked :: bool
  av_maxMembers :: int
  av_keyEpoch :: int
  av_createdAt :: instant
  av_owner :: "(ident \<times> string \<times> string option) option"
  av_membersCount :: nat
  av_messagesCount :: nat
  av_pendingRequestsCount :: nat

definition room_matches :: "room_query \<Rightarrow> room_row \<Rightarrow> bool" where
  "room_matches q r \<longleftrightarrow>
     (case given (rmq_search q) of None \<Rightarrow> True | Some s \<Rightarrow> contains_ci (js_trim s) (rm_name r)) \<and>
     (case rmq_status q of None \<Rightarrow> True | Some s \<Rightarrow> rm_status r = s) \<and>
     (case rmq_joinPolicy q of None \<Rightarrow> True | Some p \<Rightarrow> rm_joinPolicy r = p) \<and>
     (case rmq_joinLocked q of None \<Rightarrow> True | Some l \<Rightarrow> rm_joinLocked r = l)"

definition admin_room_view_of :: "world \<Rightarrow> room_row \<Rightarrow> admin_room_view" where
  "admin_room_view_of w r =
     \<lparr>av_id = rm_id r, av_name = rm_name r, av_status = rm_status r, av_joinPolicy = rm_joinPolicy r,
      av_joinLocked = rm_joinLocked r, av_maxMembers = rm_maxMembers r, av_keyEpoch = rm_keyEpoch r,
      av_createdAt = rm_createdAt r, av_owner = map_option admin_brief (find_user (rm_ownerId r) w),
      av_membersCount = length (members_of (rm_id r) w),
      av_messagesCount = length (filter (\<lambda>m. rg_roomId m = rm_id r) (room_messages w)),
      av_pendingRequestsCount = length (filter (\<lambda>j. jr_roomId j = rm_id r) (room_join_requests w))\<rparr>"

definition getRooms :: "room_query \<Rightarrow> world \<Rightarrow> admin_room_view list \<times> nat \<times> int" where
  "getRooms q w =
     (let found = sort_key (\<lambda>r. - rm_createdAt r) (filter (room_matches q) (rooms w))
      in (map (admin_room_view_of w) (page_of (rmq_page q) (rmq_limit q) found), length found,
          total_pages found (rmq_limit q)))"

record room_detail =
  rd_id :: ident
  rd_name :: string
  rd_status :: room_status
  rd_joinPolicy :: join_policy
  rd_joinLocked :: bool
  rd_maxMembers :: int
  rd_keyEpoch :: int
  rd_createdAt :: instant
  rd_updatedAt :: instant
  rd_owner :: "(ident \<times> string \<times> string option) option"
  rd_messagesCount :: nat
  rd_members :: "(ident \<times> ident \<times> (string \<times> string option \<times> account_status) option \<times> member_role \<times> instant) list"
  rd_joinRequests ::
    "(ident \<times> (ident \<times> string \<times> string option) option \<times> join_request_status \<times> instant \<times> instant option) list"

definition getRoomDetail :: "ident \<Rightarrow> world \<Rightarrow> http_error + room_detail" where
  "getRoomDetail roomId w =
     (case find_room roomId w of
        None \<Rightarrow> Inl (Not_Found ''Room not found'')
      | Some r \<Rightarrow> Inr
          \<lparr>rd_id = rm_id r, rd_name = rm_name r, rd_status = rm_status r, rd_joinPolicy = rm_joinPolicy r,
           rd_joinLocked = rm_joinLocked r, rd_maxMembers = rm_maxMembers r, rd_keyEpoch = rm_keyEpoch r,
           rd_createdAt = rm_createdAt r, rd_updatedAt = rm_updatedAt r,
           rd_owner = map_option admin_brief (find_user (rm_ownerId r) w),
           rd_messagesCount = length (filter (\<lambda>m. rg_roomId m = rm_id r) (room_messages w)),
           rd_members = map (\<lambda>m. (mb_id m, mb_userId m,
               map_option (\<lambda>u. (us_username u, us_email u, us_status u)) (find_user (mb_userId m) w),
               mb_role m, mb_joinedAt m)) (sort_key mb_joinedAt (members_of roomId w)),
           rd_joinRequests = map (\<lambda>j. (jr_id j, map_option admin_brief (find_user (jr_requesterId j) w),
               jr_status j, jr_createdAt j, jr_reviewedAt j))
             (take 20 (sort_key (\<lambda>j. - jr_createdAt j)
                (filter (\<lambda>j. jr_roomId j = roomId) (room_join_requests w))))\<rparr>)"

record audit_view =
  aw_action :: string
  aw_targetType :: string
  aw_targetId :: "ident option"
  aw_details :: "(string \<times> string option) list"
  aw_ipAddress :: "string option"
  aw_createdAt :: instant
  aw_admin :: "(ident \<times> string \<times> string option) option"

definition audit_view_of :: "world \<Rightarrow> audit_row \<Rightarrow> audit_view" where
  "audit_view_of w l =
     \<lparr>aw_action = al_action l, aw_targetType = al_targetType l, aw_targetId = al_targetId l,
      aw_details = al_details l, aw_ipAddress = al_ipAddress l, aw_createdAt = al_createdAt l,
      aw_admin = map_option admin_brief (find_user (al_adminId l) w)\<rparr>"

definition getAuditLogs ::
  "string option \<Rightarrow> string option \<Rightarrow> int \<Rightarrow> int \<Rightarrow> world \<Rightarrow> audit_view list \<times> nat \<times> int" where
  "getAuditLogs action targetType page limit w =
     (let found = sort_key (\<lambda>l. - al_createdAt l)
            (filter (\<lambda>l. (case given action of None \<Rightarrow> True | Some a \<Rightarrow> al_action l = a) \<and>
                         (case given targetType of None \<Rightarrow> True | Some t \<Rightarrow> al_targetType l = t)) (audit_logs w))
      in (map (audit_view_of w) (page_of page limit found), length found,
          total_pages found limit))"

section \<open>The pages of a listing\<close>

lemma total_pages_bounds:
  assumes "0 < limit"
  shows "int (length rs) \<le> total_pages rs limit * limit" and "0 \<le> total_pages rs limit"
proof -
  define d r where "d = (- int (length rs)) div limit" and "r = (- int (length rs)) mod limit"
  have "d * limit + r = - int (length rs)" unfolding d_def r_def by (rule div_mult_mod_eq)
  then have "- d * limit = int (length rs) + r" by simp
  then have "- ((- int (length rs)) div limit) * limit = int (length rs) + (- int (length rs)) mod limit"
    by (simp only: d_def r_def)
  moreover have "0 \<le> (- int (length rs)) mod limit" using assms by simp
  ultimately show "int (length rs) \<le> total_pages rs limit * limit" by (simp add: total_pages_def)
  show "0 \<le> total_pages rs limit" using assms by (simp add: total_pages_def div_nonpos_pos_le0)
qed

lemma pages_prefix:
  assumes "0 < limit"
  shows "concat (map (\<lambda>p. page_of (int p) limit rs) [1..<Suc n]) = take (n * nat limit) rs"
proof (induction n)
  case (Suc n)
  have "nat ((int (Suc n) - 1) * limit) = n * nat limit" using assms by (simp add: nat_mult_distrib)
  then have "page_of (int (Suc n)) limit rs = take (nat limit) (drop (n * nat limit) rs)"
    by (simp only: page_of_def)
  moreover have "take (n * nat limit + nat limit) rs =
      take (n * nat limit) rs @ take (nat limit) (drop (n * nat limit) rs)" by (rule take_add)
  ultimately show ?case using Suc by (simp add: add.commute)
qed simp

lemma pages_cover:
  assumes "0 < limit"
  shows "concat (map (\<lambda>p. page_of (int p) limit rs) [1..<Suc (nat (total_pages rs limit))]) = rs"
proof -
  have "int (nat (total_pages rs limit) * nat limit) = total_pages rs limit * limit"
    using assms total_pages_bounds(2) [OF assms] by simp
  then have "length rs \<le> nat (total_pages rs limit) * nat limit"
    using total_pages_bounds(1) [OF assms, of rs] by linarith
  then show ?thesis unfolding pages_prefix [OF assms] by simp
qed

lemma mset_order_by: "mset (order_by k d rs) = mset rs"
  using multiset_partition [of "mset rs" "\<lambda>r. k r = None"]
  by (simp add: order_by_def Let_def union_commute)

text \<open>
  The pages of the user listing, from the first to the last the reply
  announces, contain every matching user exactly once and in the order of the
  query; no page is longer than the limit.
\<close>

theorem user_pages_cover:
  assumes "0 < limit"
  shows "concat (map (\<lambda>p. fst (getUsers collate now (q\<lparr>uq_limit := limit, uq_page := int p\<rparr>) w))
      [1..<Suc (nat (snd (snd (getUsers collate now (q\<lparr>uq_limit := limit\<rparr>) w))))]) =
    map (user_view_of now w) (matching_users collate now q w) \<and>
    mset (matching_users collate now q w) = mset (filter (user_matches now q) (users w)) \<and>
    int (length (fst (getUsers collate now (q\<lparr>uq_limit := limit\<rparr>) w))) \<le> limit"
proof -
  have m: "matching_users collate now (q\<lparr>uq_limit := l, uq_page := p\<rparr>) w = matching_users collate now q w"
    "matching_users collate now (q\<lparr>uq_limit := l\<rparr>) w = matching_users collate now q w" for l p
    by (simp_all add: matching_users_def user_matches_def [abs_def] user_or_def [abs_def])
  have "map (\<lambda>p. fst (getUsers collate now (q\<lparr>uq_limit := limit, uq_page := int p\<rparr>) w)) ps =
      map (map (user_view_of now w)) (map (\<lambda>p. page_of (int p) limit (matching_users collate now q w)) ps)" for ps
    by (simp add: getUsers_def m Let_def)
  note pages = this
  have total: "snd (snd (getUsers collate now (q\<lparr>uq_limit := limit\<rparr>) w)) =
      total_pages (matching_users collate now q w) limit"
    by (simp add: getUsers_def m Let_def)
  have "mset (matching_users collate now q w) = mset (filter (user_matches now q) (users w))"
    by (simp add: matching_users_def mset_order_by)
  moreover have "int (length (fst (getUsers collate now (q\<lparr>uq_limit := limit\<rparr>) w))) \<le> limit"
    using assms by (simp add: getUsers_def Let_def page_of_def)
  ultimately show ?thesis
    unfolding pages total map_concat [symmetric] pages_cover [OF assms] by blast
qed

section \<open>Every change goes through the guards and the log\<close>

lemma disconnectUser_frame [simp]:
  "users (disconnectUser u w) = users w" "audit_logs (disconnectUser u w) = audit_logs w"
  "devices (disconnectUser u w) = devices w" "auth_sessions (disconnectUser u w) = auth_sessions w"
  by (simp_all add: disconnectUser_def)

lemma revoke_everything_frame [simp]:
  "users (revoke_everything n u w) = users w" "audit_logs (revoke_everything n u w) = audit_logs w"
  "connections (revoke_everything n u w) = connections w" "disconnected (revoke_everything n u w) = disconnected w"
  by (simp_all add: revoke_everything_def)

lemma set_user_frame2 [simp]:
  "audit_logs (set_user u f w) = audit_logs w" "connections (set_user u f w) = connections w"
  "disconnected (set_user u f w) = disconnected w"
  by (simp_all add: set_user_def)

text \<open>A run that writes no audit row and deletes no account.\<close>

definition calm :: "world \<Rightarrow> world \<Rightarrow> bool" where
  "calm w w' \<longleftrightarrow> audit_logs w' = audit_logs w \<and> us_id ` set (users w) \<subseteq> us_id ` set (users w')"

lemma calm_refl [simp]: "calm w w"
  by (simp add: calm_def)

lemma calm_trans: "calm w w1 \<Longrightarrow> calm w1 w2 \<Longrightarrow> calm w w2"
  by (auto simp: calm_def)

lemma calm_same: "audit_logs w' = audit_logs w \<Longrightarrow> users w' = users w \<Longrightarrow> calm w w'"
  by (simp add: calm_def)

lemma calm_attachments: "calm w (delete_blob a w)" "calm w (drop_attachments p w)"
  by (simp_all add: calm_def delete_blob_def drop_attachments_def)

lemma calm_purge: "calm w (purgeDriveFilesForConversation c w)"
proof -
  have "calm w (foldl (\<lambda>w a. delete_blob a w) w as)" for as
    by (induction as arbitrary: w) (auto intro: calm_attachments calm_trans)
  then show ?thesis by (simp add: purgeDriveFilesForConversation_def)
qed

lemma calm_expire_conversation: "calm w (expireTemporaryConversation c w)"
  unfolding expireTemporaryConversation_def
  by (rule calm_trans [OF calm_purge calm_same]) (simp_all add: destroy_rows_def)

lemma calm_delete_for_message: "calm w (deleteForMessage i w)"
  by (auto simp: deleteForMessage_def Let_def intro: calm_attachments calm_trans split: option.split)

lemma calm_bump:
  assumes "\<And>k w. calm w (interf k w)"
  shows "calm w (snd (bump_loop n interf k c m change w))"
proof (induction n arbitrary: k w)
  case (Suc n)
  let ?w = "interf (2 * k + 1) (interf (2 * k) w)"
  have w: "calm w ?w" using assms calm_trans by blast
  then have "calm w (snd (bump_loop n interf (Suc k) c m change ?w))" using Suc calm_trans by blast
  moreover have "calm w (?w\<lparr>messages := ms\<rparr>)" for ms using w by (simp add: calm_def)
  ultimately show ?case using w by (simp add: Let_def split: option.split)
qed simp

lemma calm_push: "calm w (push u e w)"
  by (simp add: calm_same)

lemma calm_expire_ids:
  assumes "\<And>m k w. calm w (interf m k w)"
  shows "calm w (snd (expire_ids interf now c is w))"
proof (induction "is" arbitrary: w)
  case (Cons i "is")
  obtain r w1 where b: "bump_loop max_sequence_retry_attempts (interf i) 0 (cv_id c) i (wipe now)
      (deleteForMessage i w) = (r, w1)" by fastforce
  then have "calm w w1" using calm_bump [of "interf i"] assms calm_delete_for_message calm_trans by (metis snd_conv)
  then show ?case using b Cons calm_push calm_trans by (cases r) (simp_all, blast)
qed simp

lemma calm_expire_groups:
  assumes "\<And>m k w. calm w (interf m k w)"
  shows "calm w (snd (expire_groups interf now gs w))"
proof (induction gs arbitrary: w)
  case (Cons g gs)
  obtain c "is" where g: "g = (c, is)" by fastforce
  show ?case
  proof (cases "find_conv c w")
    case (Some v)
    obtain r w1 where e: "expire_ids interf now v is w = (r, w1)" by fastforce
    then have "calm w w1" using calm_expire_ids [of interf, OF assms] by (metis snd_conv)
    moreover have "calm w1 (snd (expire_groups interf now gs w1))" by (rule Cons)
    ultimately show ?thesis using e g Some calm_trans [of w w1] by (cases r) simp_all
  qed (use g Cons in simp)
qed simp

lemma calm_message_sweep:
  "(\<And>m k w. calm w (interf m k w)) \<Longrightarrow> calm w (snd (cleanupExpiredMessages interf busy now w))"
  using calm_expire_groups [of interf w now] by (auto simp: cleanupExpiredMessages_def Let_def split: prod.split sum.split)
    (metis snd_conv)+

lemma calm_chat_sweep: "calm w (snd (cleanupExpiredTemporaryChats busy now w))"
proof -
  have "calm w (foldl (\<lambda>w c. expireTemporaryConversation c w) w cs)" for cs
    by (induction cs arbitrary: w) (auto intro: calm_expire_conversation calm_trans)
  then show ?thesis by (simp add: cleanupExpiredTemporaryChats_def Let_def)
qed

lemma calm_orphan_sweep:
  assumes "\<And>k w. calm w (interf k w)"
  shows "calm w (snd (cleanupOrphanedAttachments interf busy now w))"
proof -
  have "calm w (sweep_orphans interf k as w)" for k as
  proof (induction as arbitrary: k w)
    case (Cons a as)
    have "calm w (drop_attachments p (interf k (delete_blob a w)))" for p
      using assms calm_attachments calm_trans by meson
    then show ?case using Cons calm_trans by (simp, blast)
  qed simp
  then show ?thesis by (simp add: cleanupOrphanedAttachments_def Let_def)
qed

fun action_of :: "admin_request \<Rightarrow> string" where
  "action_of (Set_Status u s r) = (if s = Acct_Deleted then ''BAN_USER'' else ''UNBAN_USER'')"
| "action_of (Unlock u) = ''UNLOCK_ACCOUNT''"
| "action_of (Revoke_Sessions u) = ''REVOKE_SESSIONS''"
| "action_of (Set_Role u r) = ''CHANGE_ROLE''"
| "action_of (Patch_Room r p) = ''UPDATE_ROOM''"
| "action_of (Sweep k) = ''SYSTEM_SWEEP''"

definition logged :: "instant \<Rightarrow> ident \<Rightarrow> string option \<Rightarrow> string \<Rightarrow> world \<Rightarrow> world \<Rightarrow> bool" where
  "logged now adminId ip action w w' \<longleftrightarrow>
     (\<exists>row. audit_logs w' = audit_logs w @ [row] \<and> al_adminId row = adminId \<and> al_ipAddress row = ip \<and>
        al_action row = action \<and> al_createdAt row = now)"

lemma find_user_calm: "calm w w' \<Longrightarrow> find_user i w \<noteq> None \<Longrightarrow> find_user i w' \<noteq> None"
  unfolding calm_def find_user_in by auto

lemma logged_record:
  "calm w w1 \<Longrightarrow> find_user a w \<noteq> None \<Longrightarrow> logged now a ip act w (recordAudit now a act ty ti det ip w1)"
  using find_user_calm [of w w1 a] by (simp add: logged_def recordAudit_def calm_def)

lemma calm_set_user: "(\<And>u. us_id (f u) = us_id u) \<Longrightarrow> calm w (set_user i f w)"
  by (simp add: calm_def set_user_def ids_update)

lemma calm_user_ops:
  "(\<And>u. us_id (f u) = us_id u) \<Longrightarrow> calm w (disconnectUser i (revoke_everything n i (set_user i f w)))"
  "calm w (disconnectUser i (revoke_everything n i w))" "calm w (w\<lparr>rooms := rs\<rparr>)"
  using calm_set_user [of f w i] by (simp_all add: calm_def)

definition calm_env :: "sweep_env \<Rightarrow> bool" where
  "calm_env env \<longleftrightarrow> (\<forall>m k w. calm w (sw_messages env m k w)) \<and> (\<forall>k w. calm w (sw_attachments env k w))"

lemma sweep_logged:
  assumes "calm_env env" and "find_user a w \<noteq> None" and "triggerSweep env now a kind ip w = (r, w')"
  shows "case r of Inl e \<Rightarrow> audit_logs w' = audit_logs w | Inr _ \<Rightarrow> logged now a ip ''SYSTEM_SWEEP'' w w'"
proof -
  have msg: "calm w (snd (cleanupExpiredMessages (sw_messages env) b now w))" for b w
    by (rule calm_message_sweep) (use assms(1) in \<open>simp add: calm_env_def\<close>)
  have orphan: "calm w (snd (cleanupOrphanedAttachments (sw_attachments env) b now w))" for b w
    by (rule calm_orphan_sweep) (use assms(1) in \<open>simp add: calm_env_def\<close>)
  define swept where "swept = (if kind = Sweep_Messages \<or> kind = Sweep_All
         then (case cleanupExpiredMessages (sw_messages env) (sw_messages_busy env) now w of
                 (Inl e, w') \<Rightarrow> (Inl e, w')
               | (Inr n, w') \<Rightarrow>
                   (let (m, w'') = cleanupExpiredTemporaryChats (sw_chats_busy env) now w'
                    in (Inr (n, m), w'')))
         else (Inr (0, 0), w))"
  have s: "calm w (snd swept)"
  proof -
    obtain r w1 where c: "cleanupExpiredMessages (sw_messages env) (sw_messages_busy env) now w = (r, w1)" by fastforce
    then have "calm w w1" using msg by (metis snd_conv)
    then show ?thesis using c calm_trans [OF \<open>calm w w1\<close> calm_chat_sweep]
      by (cases r) (simp_all add: swept_def case_prod_beta)
  qed
  obtain p w1 where p: "swept = (p, w1)" by fastforce
  then have w1: "calm w w1" using s by simp
  show ?thesis
  proof (cases p)
    case (Inl e)
    then show ?thesis using assms(3) p w1
      by (simp add: triggerSweep_def swept_def [symmetric] calm_def)
        (auto simp: calm_def)
  next
    case (Inr nm)
    obtain n m where nm: "nm = (n, m)" by fastforce
    define q where "q = (if kind = Sweep_Attachments \<or> kind = Sweep_All
      then cleanupOrphanedAttachments (sw_attachments env) (sw_attachments_busy env) now w1 else (0, w1))"
    have q: "calm w (snd q)" using calm_trans [OF w1 orphan] w1 by (simp add: q_def)
    show ?thesis using assms(3) p Inr nm logged_record [OF q assms(2)]
      by (auto simp: triggerSweep_def swept_def [symmetric] q_def [symmetric] case_prod_beta)
  qed
qed

lemma service_logged:
  assumes "calm_env env" and "\<And>w. calm w (interf w)" and "find_user a w \<noteq> None"
    and "admin_service env interf now a ip req w = (r, w')"
  shows "case r of Inl e \<Rightarrow> audit_logs w' = audit_logs w \<and> ((\<forall>k. req \<noteq> Sweep k) \<longrightarrow> w' = w \<or> w' = interf w)
    | Inr _ \<Rightarrow> logged now a ip (action_of req) w w'"
proof (cases req)
  case (Set_Status u s x)
  then show ?thesis using assms(3,4) logged_record [OF calm_user_ops(1) assms(3)]
      logged_record [OF calm_set_user assms(3)]
    by (auto simp: updateUserStatus_def Let_def split: if_splits option.splits)
next
  case (Unlock u)
  then show ?thesis using assms(3,4) logged_record [OF calm_set_user assms(3)]
    by (auto simp: unlockUser_def split: option.splits)
next
  case (Revoke_Sessions u)
  then show ?thesis using assms(3,4) logged_record [OF calm_user_ops(2) assms(3)]
    by (auto simp: revokeUserSessions_def split: option.splits)
next
  case (Set_Role u x)
  have "calm w (set_user u (\<lambda>v. v\<lparr>us_role := x\<rparr>) (interf w))"
    using assms(2) [of w] calm_set_user calm_trans by (metis (no_types, lifting) user_row.select_convs(1) user_row.surjective user_row.update_convs(9))
  then show ?thesis using Set_Role assms(2) [of w] assms(4) logged_record [OF _ assms(3)]
    by (auto simp: updateUserRole_def Let_def calm_def split: if_splits option.splits)
next
  case (Patch_Room i p)
  then show ?thesis using assms(3,4) logged_record [OF calm_user_ops(3) assms(3)]
    by (auto simp: updateRoomAsAdmin_def Let_def split: option.splits)
next
  case (Sweep k)
  obtain r1 where t: "triggerSweep env now a k ip w = (r1, w')" and r: "r = map_sum id (\<lambda>_. ()) r1"
    using assms(4) Sweep by (cases "triggerSweep env now a k ip w") auto
  show ?thesis using sweep_logged [OF assms(1,3) t] r Sweep by (cases r1) auto
qed


section \<open>What a ban does, and what it does not\<close>


lemma superadmin_count:
  assumes "distinct (map us_id us)" and "1 < length (filter active_superadmin us)"
  shows "\<exists>v \<in> set us. us_id v \<noteq> i \<and> active_superadmin v"
proof (rule ccontr)
  assume "\<not> (\<exists>v \<in> set us. us_id v \<noteq> i \<and> active_superadmin v)"
  then have "us_id ` set (filter active_superadmin us) \<subseteq> {i}" by auto
  then have "card (us_id ` set (filter active_superadmin us)) \<le> 1"
    using card_mono [of "{i}"] by fastforce
  moreover have "distinct (map us_id (filter active_superadmin us))" using assms(1) by (simp add: distinct_map_filter)
  then have "card (us_id ` set (filter active_superadmin us)) = length (filter active_superadmin us)"
    by (metis distinct_card length_map set_map)
  ultimately show False using assms(2) by simp
qed

lemma in_set_user:
  "v \<in> set (users w) \<Longrightarrow> us_id v \<noteq> i \<Longrightarrow> v \<in> set (users (set_user i f w))"
  by (force simp: set_user_def set_update_where)


section \<open>Gaps\<close>

text \<open>Two superadministrators who demote themselves at the same time leave none.\<close>

definition demo_admin :: "ident \<Rightarrow> user_role \<Rightarrow> user_row" where
  "demo_admin i r = (plain_user i i None Acct_Active)\<lparr>us_role := r\<rparr>"

definition admin_world :: world where
  "admin_world = empty_world\<lparr>users := [demo_admin ''root'' Role_Superadmin, demo_admin ''ann'' Role_Admin,
     demo_admin ''bob'' Role_User], devices := [(new_device ''d1'' ''ann'' 0 demo_device_dto),
       (new_device ''d2'' ''bob'' 0 demo_device_dto)],
     connections := [(''bob'', [''sock''])],
     rooms := []\<rparr>"

lemma superadmins_can_vanish:
  "let w = admin_world\<lparr>users := [demo_admin ''a'' Role_Superadmin, demo_admin ''b'' Role_Superadmin]\<rparr>;
       other = (\<lambda>w. after (updateUserRole (\<lambda>w. w) 1 ''b'' ''b'' Role_User None w));
       (r, w') = updateUserRole other 1 ''a'' ''a'' Role_User None w
   in r = Inr (''a'', ''a'', Role_User) \<and> filter active_superadmin (users w') = []"
  by code_simp

text \<open>An administrator who is not a superadministrator can ban the only superadministrator.\<close>

lemma admin_bans_superadmin:
  "let (r, w') = updateUserStatus 1 ''ann'' ''root'' Acct_Deleted None None admin_world
   in r = Inr Acct_Deleted \<and> filter active_superadmin (users w') = []"
  by code_simp

text \<open>Logging in ignores the status, and makes the revoked device of a banned user active again.\<close>

lemma banned_user_logs_in:
  "\<exists>r w'. login echo_crypto demo_auth_cfg demo_check ''dummy'' (\<lambda>w. w) demo_draws 9 (demo_login ''x'') demo_ctx
     (after (updateUserStatus 7 ''root'' ''alice'' Acct_Deleted None None (account_world 0))) = ok r w' \<and>
     (\<exists>s \<in> set (auth_sessions w'). as_userId s = ''alice'' \<and> as_revokedAt s = None)"
proof -
  define w where "w = after (updateUserStatus 7 ''root'' ''alice'' Acct_Deleted None None (account_world 0))"
  define u where "u = (plain_user ''alice'' ''alice'' None Acct_Deleted)\<lparr>us_passwordHash := demo_hash,
                 us_email := Some ''a@b.c''\<rparr>"
  have w: "users w = [u]" "unknown_attempts w = []"
    by (simp_all add: w_def u_def updateUserStatus_def find_user_def account_world_def recordAudit_def set_user_def
        disconnectUser_def revoke_everything_def empty_world_def)
  have f: "find_login_user (raw_identifier (demo_login ''x'')) w = Some u"
    using demo_find(1) [of "''x''" 0]
    by (simp add: w u_def find_login_user_def raw_identifier_def demo_login_def to_lower_def lower_char_def
        js_trim_def js_space_def)
  have due: "challenge_due 9 n (Some u) w = (False, w)" for n
    by (simp add: challenge_due_def isUnknownIdentifierChallenged_def w u_def)
  have "may_log_in echo_crypto demo_auth_cfg demo_check (\<lambda>w. w) 9 (demo_login ''x'') demo_ctx w u"
    using f due demo_find(2) [of "''x''"] demo_password
    by (simp add: may_log_in_def Let_def isLoginLocked_def login_state_def unverified_email_def find_user_def w)
      (simp add: u_def demo_login_def raw_identifier_def js_trim_def js_space_def to_lower_def lower_char_def)
  note l = login_allowed [OF this, where dummy = "''dummy''" and fr = demo_draws]
  have "find_user (us_id u) (clearUnknownIdentifier (to_lower (raw_identifier (demo_login ''x''))) w) \<noteq> None"
    by (simp add: clearUnknownIdentifier_def find_user_def w)
  from login_succeeded_reply [OF this, where C = echo_crypto and cfg = demo_auth_cfg and fr = demo_draws
      and now = 9 and dto = "demo_login ''x''" and ctx = demo_ctx]
  obtain r w' where "login_succeeded echo_crypto demo_auth_cfg demo_draws 9 (demo_login ''x'') demo_ctx u
      (clearUnknownIdentifier (to_lower (raw_identifier (demo_login ''x''))) w) = ok r w'"
    "\<exists>s \<in> set (auth_sessions w'). as_userId s = us_id u \<and> as_revokedAt s = None" by blast
  moreover have "us_id u = ''alice''" by (simp add: u_def)
  ultimately show ?thesis unfolding w_def [symmetric] using l due by auto
qed

text \<open>The filter on unlocked accounts replaces the search.\<close>

lemma unlocked_filter_drops_search:
  "uq_isLocked q = Some False \<Longrightarrow> user_matches now (q\<lparr>uq_search := s\<rparr>) u = user_matches now q u"
  by (simp add: user_matches_def user_or_def)

text \<open>And \<open>isLocked=false\<close> in the query asks for the locked accounts.\<close>

lemma false_is_true: "query_bool (Some ''false'') = Some True"
  by (simp add: query_bool_def)

text \<open>The address in the audit log is the one the client claims in a header.\<close>

lemma client_chooses_ip: "ip \<noteq> [] \<Longrightarrow> CHR '','' \<notin> set ip \<Longrightarrow> getClientIp (Some (ip @ '','' @ rest)) peer = Some (js_trim ip)"
  by (simp add: getClientIp_def split_on_append)

text \<open>Bootstrapping needs the configured secret, and the audit row names the promoted account as its own author.\<close>

lemma bootstrap_exact:
  assumes "bootstrapAdmin setting now secret identifier ip w = ok i w'"
  shows "setting = Some secret \<and> secret \<noteq> [] \<and> (\<exists>u \<in> set (users w). us_id u = i \<and>
    (us_username u = to_lower (js_trim identifier) \<or> us_email u = Some (to_lower (js_trim identifier)))) \<and>
    logged now i ip ''BOOTSTRAP_ADMIN'' w w'"
proof -
  obtain u where c: "given setting = Some secret" and i: "i = us_id u" "u \<in> set (users w)"
    "us_username u = to_lower (js_trim identifier) \<or> us_email u = Some (to_lower (js_trim identifier))"
    and w': "w' = recordAudit now i ''BOOTSTRAP_ADMIN'' ''USER'' (Some i)
      [(''identifier'', Some identifier), (''newRole'', Some ''SUPERADMIN'')] ip
      (set_user i (\<lambda>u. u\<lparr>us_role := Role_Superadmin\<rparr>) w)"
    using assms by (auto simp: bootstrapAdmin_def Let_def split: option.splits if_splits dest!: find_Some_in)
  have "find_user i w \<noteq> None" unfolding find_user_in using i by blast
  then have "logged now i ip ''BOOTSTRAP_ADMIN'' w w'" unfolding w' by (intro logged_record calm_set_user) simp_all
  moreover have "setting = Some secret \<and> secret \<noteq> []" using c by (auto simp: given_def split: if_splits)
  ultimately show ?thesis using i by blast
qed

section \<open>Instances\<close>

definition quiet_env :: sweep_env where
  "quiet_env = \<lparr>sw_messages = \<lambda>_ _ w. w, sw_attachments = \<lambda>_ w. w, sw_messages_busy = False,
     sw_chats_busy = False, sw_attachments_busy = False\<rparr>"

lemma user_pages_cover_witness:
  "concat (map (\<lambda>p. map uv_id (fst (getUsers (\<lambda>_. 0) 0 \<lparr>uq_search = None, uq_status = None, uq_role = None,
       uq_isLocked = None, uq_page = int p, uq_limit = 2, uq_sortBy = By_Username, uq_descending = False\<rparr>
       admin_world))) [1, 2]) = [''root'', ''ann'', ''bob'']"
proof -
  define q where "q = \<lparr>uq_search = None, uq_status = None, uq_role = None, uq_isLocked = None, uq_page = 1,
    uq_limit = 2, uq_sortBy = By_Username, uq_descending = False\<rparr>"
  have m: "matching_users (\<lambda>_. 0) 0 q admin_world =
      [demo_admin ''root'' Role_Superadmin, demo_admin ''ann'' Role_Admin, demo_admin ''bob'' Role_User]"
    by (simp add: q_def matching_users_def order_by_def user_matches_def [abs_def] user_or_def [abs_def] given_def
        admin_world_def)
  have t: "snd (snd (getUsers (\<lambda>_. 0) 0 (q\<lparr>uq_limit := 2\<rparr>) admin_world)) = 2"
    using m by (simp add: getUsers_def Let_def total_pages_def q_def)
  have "concat (map (\<lambda>p. fst (getUsers (\<lambda>_. 0) 0 (q\<lparr>uq_limit := 2, uq_page := int p\<rparr>) admin_world)) [1, 2]) =
      map (user_view_of 0 admin_world) (matching_users (\<lambda>_. 0) 0 q admin_world)"
    using user_pages_cover [of 2 "\<lambda>_. 0" 0 q admin_world] t by (simp add: upt_rec)
  then have "map uv_id (concat (map (\<lambda>p. fst (getUsers (\<lambda>_. 0) 0 (q\<lparr>uq_limit := 2, uq_page := int p\<rparr>)
      admin_world)) [1, 2])) = [''root'', ''ann'', ''bob'']"
    by (simp add: m user_view_of_def demo_admin_def)
  then show ?thesis by (simp add: q_def)
qed




end
