(* ===== verification/SessionMap.thy ===== *)
theory SessionMap
  imports Admin
begin

text \<open>
  What the table of sessions is for: a map from the devices of users to the
  token that is good on them. Opening, rotating and revoking sessions, however
  the rows record it, are the point updates of that map.
\<close>

section \<open>The abstract map\<close>

type_synonym session_map = "ident \<times> ident \<Rightarrow> (string \<times> instant) option"

definition session_value :: "session_row \<Rightarrow> string \<times> instant" where
  "session_value s = (as_refreshTokenHash s, as_expiresAt s)"

definition lookup_live :: "session_row list \<Rightarrow> session_map" where
  "lookup_live ss k = map_option session_value (find (\<lambda>s. session_owner s = k) (filter live ss))"

definition live_map :: "world \<Rightarrow> session_map" where
  "live_map w = lookup_live (auth_sessions w)"

definition drop_hash :: "string \<Rightarrow> session_map \<Rightarrow> session_map" where
  "drop_hash h m k = (case m k of None \<Rightarrow> None | Some (h', e) \<Rightarrow> if h' = h then None else Some (h', e))"

definition drop_user :: "ident \<Rightarrow> session_map \<Rightarrow> session_map" where
  "drop_user u m k = (if snd k = u then None else m k)"

section \<open>Updates of the table\<close>

lemma lookup_live_simps [simp]:
  "lookup_live [] k = None"
  "lookup_live (s # ss) k = (if live s \<and> session_owner s = k then Some (session_value s) else lookup_live ss k)"
  by (auto simp: lookup_live_def)

lemma lookup_live_append:
  "lookup_live (xs @ ys) k = (case lookup_live xs k of None \<Rightarrow> lookup_live ys k | Some v \<Rightarrow> Some v)"
  by (induction xs) auto

lemma lookup_live_other:
  "(\<And>s. s \<in> set ss \<Longrightarrow> p s \<Longrightarrow> (live s \<or> live (f s)) \<Longrightarrow> session_owner s \<noteq> k \<and> session_owner (f s) \<noteq> k) \<Longrightarrow>
     lookup_live (update_where p f ss) k = lookup_live ss k"
  by (induction ss) auto

lemma lookup_live_gone:
  "(\<And>s. s \<in> set ss \<Longrightarrow> p s \<Longrightarrow> \<not> live (f s)) \<Longrightarrow>
     (\<And>s. s \<in> set ss \<Longrightarrow> live s \<Longrightarrow> session_owner s = k \<Longrightarrow> p s) \<Longrightarrow>
     lookup_live (update_where p f ss) k = None"
  by (induction ss) auto

lemma lookup_live_unique:
  assumes "distinct (map session_owner (filter live ss))" and "s \<in> set ss" and "live s" and "session_owner s = k"
  shows "lookup_live ss k = Some (session_value s)"
  using find_key_unique [of session_owner "filter live ss" s k] assms by (simp add: lookup_live_def)

lemma lookup_live_None:
  "lookup_live ss k = None \<longleftrightarrow> (\<forall>s \<in> set ss. live s \<longrightarrow> session_owner s \<noteq> k)"
  by (auto simp: lookup_live_def find_None_in)

lemma lookup_live_Some:
  "lookup_live ss k = Some v \<Longrightarrow> \<exists>s \<in> set ss. live s \<and> session_owner s = k \<and> session_value s = v"
  by (auto simp: lookup_live_def dest!: find_Some_in)

abbreviation revoked_at :: "instant \<Rightarrow> session_row \<Rightarrow> session_row" where
  "revoked_at now \<equiv> \<lambda>s. s\<lparr>as_revokedAt := Some now\<rparr>"

lemma revoked_simps [simp]: "\<not> live (revoked_at now s)" "session_owner (revoked_at now s) = session_owner s"
  by (simp_all add: live_def session_owner_def)

section \<open>Opening\<close>

lemma open_is_update:
  "live_map (snd (issueSession C cfg fr now u d ctx w)) =
     (live_map w)((d, u) \<mapsto> (hashRefreshToken C (snd (fst (issueSession C cfg fr now u d ctx w))),
        now + refresh_token_ttl_ms))"
proof
  fix k
  let ?old = "\<lambda>s. as_userId s = u \<and> as_deviceId s = d \<and> as_revokedAt s = None"
  let ?ss = "update_where ?old (revoked_at now) (auth_sessions w)"
  have "lookup_live ?ss k = (if k = (d, u) then None else lookup_live (auth_sessions w) k)"
  proof (cases "k = (d, u)")
    case True
    have "lookup_live ?ss k = None"
      by (rule lookup_live_gone) (auto simp: True live_def session_owner_def)
    then show ?thesis using True by simp
  next
    case False
    have "lookup_live ?ss k = lookup_live (auth_sessions w) k"
      by (rule lookup_live_other) (use False in \<open>auto simp: session_owner_def\<close>)
    then show ?thesis using False by simp
  qed
  then show "live_map (snd (issueSession C cfg fr now u d ctx w)) k =
     ((live_map w)((d, u) \<mapsto> (hashRefreshToken C (snd (fst (issueSession C cfg fr now u d ctx w))),
        now + refresh_token_ttl_ms))) k"
    by (auto simp: live_map_def issueSession_def Let_def lookup_live_append live_def session_owner_def
        session_value_def split: option.split)
qed

section \<open>Rotating and revoking\<close>

text \<open>An update of one row, found by its id.\<close>

lemma one_row_update:
  assumes ids: "distinct (map as_id ss)" and owners: "distinct (map session_owner (filter live ss))"
    and s: "s \<in> set ss" "live s" "p s" and p: "\<And>x. x \<in> set ss \<Longrightarrow> p x \<Longrightarrow> as_id x = as_id s"
    and f: "session_owner (f s) = session_owner s" "live (f s) \<longleftrightarrow> v \<noteq> None" "\<And>y. v = Some y \<Longrightarrow> session_value (f s) = y"
  shows "lookup_live (update_where p f ss) = (lookup_live ss)(session_owner s := v)"
proof
  fix k
  have only: "x = s" if "x \<in> set ss" "p x" for x using p [OF that] distinct_key_eq [OF ids that(1) s(1)] by simp
  show "lookup_live (update_where p f ss) k = ((lookup_live ss)(session_owner s := v)) k"
  proof (cases "k = session_owner s")
    case False
    have "lookup_live (update_where p f ss) k = lookup_live ss k"
      by (rule lookup_live_other) (use only f(1) False in auto)
    then show ?thesis using False by simp
  next
    case True
    have alone: "p x" if "x \<in> set ss" "live x" "session_owner x = k" for x
      using distinct_key_eq [OF owners, of x s] that s True by simp
    show ?thesis
    proof (cases v)
      case None
      have "lookup_live (update_where p f ss) k = None"
        by (rule lookup_live_gone) (use only f None alone in auto)
      then show ?thesis using True None by simp
    next
      case (Some y)
      have "lookup_live (update_where p f xs) k = (if s \<in> set xs then Some y else None)" if "set xs \<subseteq> set ss" for xs
        using that
      proof (induction xs)
        case (Cons x xs)
        show ?case
        proof (cases "p x")
          case px: True
          then have "x = s" using only Cons.prems by simp
          then show ?thesis using px f Some True by simp
        next
          case False
          then have "\<not> (live x \<and> session_owner x = k)" "x \<noteq> s" using alone Cons.prems s(3) by auto
          then show ?thesis using False Cons by auto
        qed
      qed simp
      from this [of ss] show ?thesis using s(1) True Some by simp
    qed
  qed
qed

lemma sessions_unique:
  assumes "auth_ok w"
  shows "distinct (map as_id (auth_sessions w))" "distinct (map session_owner (filter live (auth_sessions w)))"
  using assms by (auto simp: auth_ok_def sessions_inv_def)

lemma rotate_is_update:
  assumes ok: "auth_ok w" and s: "s \<in> set (auth_sessions w)" "as_revokedAt s = None"
    and r: "rotate C cfg (\<lambda>w. w) random now later (as_refreshTokenHash s) s w = ok pair w'"
  shows "live_map w' = (live_map w)(session_owner s \<mapsto> (hashRefreshToken C (snd pair), now + refresh_token_ttl_ms))"
proof -
  let ?p = "\<lambda>x. as_id x = as_id s \<and> as_refreshTokenHash x = as_refreshTokenHash s"
  let ?f = "\<lambda>x. x\<lparr>as_refreshTokenHash := hashRefreshToken C (generateRefreshToken random),
      as_expiresAt := now + refresh_token_ttl_ms\<rparr>"
  have "list_ex ?p (auth_sessions w)" using s(1) by (auto simp: list_ex_iff)
  then have w': "auth_sessions w' = update_where ?p ?f (auth_sessions w)" and pair: "snd pair = generateRefreshToken random"
    using r by (auto simp: rotate_def Let_def)
  show ?thesis unfolding live_map_def w' pair
    by (rule one_row_update [OF sessions_unique [OF ok] s(1)])
      (use s(2) in \<open>auto simp: live_def session_owner_def session_value_def\<close>)
qed

lemma refresh_is_update:
  assumes ok: "auth_ok w" and r: "refresh C cfg (\<lambda>w. w) random now later token w = ok pair w'"
  shows "live_map w' = live_map w \<or> (\<exists>k e. live_map w k = Some (hashRefreshToken C token, e) \<and> now < e \<and>
    live_map w' = (live_map w)(k \<mapsto> (hashRefreshToken C (snd pair), now + refresh_token_ttl_ms)))"
proof (cases "cached_rotation (hashRefreshToken C token) now (drop_expired_rotations now w)")
  case (Some rot)
  then show ?thesis using r
    by (auto simp: refresh_def Let_def live_map_def drop_expired_rotations_def split: if_splits)
next
  case None
  define w2 where "w2 = (drop_expired_rotations now w)\<lparr>recent_rotations :=
      map_delete (hashRefreshToken C token) (recent_rotations (drop_expired_rotations now w))\<rparr>"
  have same: "live_map w2 = live_map w" "auth_ok w2" "auth_sessions w2 = auth_sessions w"
    using ok by (simp_all add: w2_def live_map_def drop_expired_rotations_def auth_frame)
  obtain s where s: "live_session (hashRefreshToken C token) now w2 = Some s"
    and rot: "rotate C cfg (\<lambda>w. w) random now later (hashRefreshToken C token) s w2 = ok pair w'"
    using r None by (auto simp: refresh_def Let_def w2_def split: if_splits option.splits)
  then have l: "s \<in> set (auth_sessions w2)" "as_refreshTokenHash s = hashRefreshToken C token"
    "as_revokedAt s = None" "now < as_expiresAt s"
    by (auto simp: live_session_def dest!: find_Some_in)
  have "live_map w2 (session_owner s) = Some (session_value s)" unfolding live_map_def
    by (rule lookup_live_unique [OF sessions_unique(2) [OF same(2)] l(1)]) (use l(3) in \<open>auto simp: live_def\<close>)
  moreover have "live_map w' = (live_map w2)(session_owner s \<mapsto>
      (hashRefreshToken C (snd pair), now + refresh_token_ttl_ms))"
    by (rule rotate_is_update [OF same(2) l(1) l(3)]) (use rot l(2) in simp)
  ultimately show ?thesis using l same(1)
    by (intro disjI2 exI [of _ "session_owner s"] exI [of _ "as_expiresAt s"]) (simp add: session_value_def)
qed

lemma revoke_is_delete:
  assumes "auth_ok w" and "revokeSession now u i w = ok x w'" and "find_session i w = Some s"
  shows "live_map w' = (if as_revokedAt s = None then (live_map w)(session_owner s := None) else live_map w)"
proof (cases "as_revokedAt s = None")
  case True
  have s: "s \<in> set (auth_sessions w)" "as_id s = i" using assms(3) by (auto simp: find_session_def dest: find_Some_in)
  have "auth_sessions w' = update_where (\<lambda>s. as_id s = i) (revoked_at now) (auth_sessions w)"
    using assms(2,3) True by (auto simp: revokeSession_def revokeSessionAndDisconnect_def Let_def
        drop_rotations_of_def pushToDevice_def split: if_splits)
  then show ?thesis unfolding live_map_def
    using one_row_update [OF sessions_unique [OF assms(1)] s(1), of "\<lambda>s. as_id s = i" "revoked_at now" None] s True
    by (simp add: live_def)
next
  case False
  then show ?thesis using assms(2,3) by (auto simp: revokeSession_def split: if_splits)
qed

lemma logout_is_drop:
  assumes ok: "auth_ok w" and "token \<noteq> []"
  shows "live_map (logout C now token w) = drop_hash (hashRefreshToken C token) (live_map w)"
proof
  fix k
  let ?h = "hashRefreshToken C token"
  let ?p = "\<lambda>s. as_refreshTokenHash s = ?h"
  have ss: "auth_sessions (logout C now token w) = update_where ?p (revoked_at now) (auth_sessions w)"
    using assms(2) by (auto simp: logout_def Let_def drop_rotations_of_def split: option.split)
  have one: "x = s" if "x \<in> set (auth_sessions w)" "live x" "session_owner x = session_owner s"
    "s \<in> set (auth_sessions w)" "live s" for x s
    using distinct_key_eq [OF sessions_unique(2) [OF ok], of x s] that by simp
  show "live_map (logout C now token w) k = drop_hash ?h (live_map w) k"
  proof (cases "lookup_live (auth_sessions w) k")
    case None
    then have "lookup_live (update_where ?p (revoked_at now) (auth_sessions w)) k = lookup_live (auth_sessions w) k"
      by (intro lookup_live_other) (auto simp: lookup_live_None)
    then show ?thesis using None by (simp add: live_map_def ss drop_hash_def)
  next
    case (Some v)
    then obtain s where s: "s \<in> set (auth_sessions w)" "live s" "session_owner s = k" "v = session_value s"
      by (auto dest: lookup_live_Some)
    show ?thesis
    proof (cases "?p s")
      case True
      have "lookup_live (update_where ?p (revoked_at now) (auth_sessions w)) k = None"
        by (rule lookup_live_gone) (use one s True in auto)
      then show ?thesis using Some s True by (simp add: live_map_def ss drop_hash_def session_value_def)
    next
      case False
      have "lookup_live (update_where ?p (revoked_at now) (auth_sessions w)) k = lookup_live (auth_sessions w) k"
        by (rule lookup_live_other) (use one s False in auto)
      then show ?thesis using Some s False by (simp add: live_map_def ss drop_hash_def session_value_def)
    qed
  qed
qed

lemma ban_is_drop: "live_map (revoke_everything now u w) = drop_user u (live_map w)"
proof
  fix k
  have ss: "auth_sessions (revoke_everything now u w) =
      update_where (\<lambda>s. as_userId s = u \<and> as_revokedAt s = None) (revoked_at now) (auth_sessions w)"
    by (simp add: revoke_everything_def)
  show "live_map (revoke_everything now u w) k = drop_user u (live_map w) k"
  proof (cases "snd k = u")
    case True
    have "lookup_live (auth_sessions (revoke_everything now u w)) k = None"
      unfolding ss by (rule lookup_live_gone) (use True in \<open>auto simp: live_def session_owner_def\<close>)
    then show ?thesis using True by (simp add: live_map_def drop_user_def)
  next
    case False
    have "lookup_live (auth_sessions (revoke_everything now u w)) k = lookup_live (auth_sessions w) k"
      unfolding ss by (rule lookup_live_other) (use False in \<open>auto simp: session_owner_def\<close>)
    then show ?thesis using False by (simp add: live_map_def drop_user_def)
  qed
qed

text \<open>
  C29. The table of sessions implements a map from devices to the refresh token
  that is good on them: opening a session is an update of the map at that device,
  a refresh replaces the token it was asked with (or answers from its cache and
  changes nothing), revoking a session is a deletion at its device, logging out
  removes the entries with the token, and banning removes those of the user.
\<close>

theorem sessions_implement_map:
  assumes "auth_ok w"
  shows "live_map (snd (issueSession C cfg fr now u d ctx w)) =
      (live_map w)((d, u) \<mapsto> (hashRefreshToken C (snd (fst (issueSession C cfg fr now u d ctx w))),
         now + refresh_token_ttl_ms)) \<and>
    (\<forall>pair w'. refresh C cfg (\<lambda>w. w) random now later token w = ok pair w' \<longrightarrow> live_map w' = live_map w \<or>
       (\<exists>k e. live_map w k = Some (hashRefreshToken C token, e) \<and> now < e \<and>
          live_map w' = (live_map w)(k \<mapsto> (hashRefreshToken C (snd pair), now + refresh_token_ttl_ms)))) \<and>
    (\<forall>s w'. find_session i w = Some s \<and> revokeSession now v i w = ok () w' \<longrightarrow>
       live_map w' = (if as_revokedAt s = None then (live_map w)(session_owner s := None) else live_map w)) \<and>
    (token \<noteq> [] \<longrightarrow> live_map (logout C now token w) = drop_hash (hashRefreshToken C token) (live_map w)) \<and>
    live_map (revoke_everything now u w) = drop_user u (live_map w)"
proof (intro conjI)
  show "\<forall>s w'. find_session i w = Some s \<and> revokeSession now v i w = ok () w' \<longrightarrow>
       live_map w' = (if as_revokedAt s = None then (live_map w)(session_owner s := None) else live_map w)"
    using revoke_is_delete [OF assms] by blast
  show "token \<noteq> [] \<longrightarrow> live_map (logout C now token w) = drop_hash (hashRefreshToken C token) (live_map w)"
    using logout_is_drop [OF assms] by simp
qed (rule open_is_update ban_is_drop allI impI refresh_is_update [OF assms] | assumption)+

lemma sessions_implement_map_witness:
  "live_map (logout echo_crypto 5 demo_token (account_world 0)) =
     drop_hash (hashRefreshToken echo_crypto demo_token) (live_map (account_world 0))"
  using sessions_implement_map [OF auth_ok_account [of 0], where C = echo_crypto and now = 5 and token = demo_token]
  by (simp add: demo_token_def)

end
