(* ===== verification/Engine.thy ===== *)
theory Engine
  imports Codec Validation
begin

text \<open>
  End-to-end encryption in the web client: \<open>apps/web/lib/crypto/engine.ts\<close> (device
  identities, the handshake, the symmetric ratchet), \<open>roomCrypto.ts\<close>,
  \<open>fileCrypto.ts\<close> and \<open>localauth/localSecret.ts\<close>. The Web Crypto API is the record
  \<open>subtle\<close>: a primitive that rejects returns \<open>None\<close>, and every random value is an
  argument. Texts are the byte strings \<open>TextEncoder\<close> makes of them. An error the code
  throws itself is its message up to the dash; every rejection of the browser's API is
  \<open>operation_error\<close>.
\<close>

section \<open>Web Crypto\<close>

record subtle =
  x25519_public :: "bytes \<Rightarrow> bytes"
  x25519 :: "bytes \<Rightarrow> bytes \<Rightarrow> bytes option"
  ed_public :: "bytes \<Rightarrow> bytes"
  ed_sign :: "bytes \<Rightarrow> bytes \<Rightarrow> bytes"
  ed_verify :: "bytes \<Rightarrow> bytes \<Rightarrow> bytes \<Rightarrow> bool option"
  hkdf_sha256 :: "bytes \<Rightarrow> bytes \<Rightarrow> string \<Rightarrow> nat \<Rightarrow> bytes"
  aes_seal :: "bytes \<Rightarrow> bytes \<Rightarrow> bytes \<Rightarrow> bytes \<Rightarrow> bytes"
  aes_open :: "bytes \<Rightarrow> bytes \<Rightarrow> bytes \<Rightarrow> bytes \<Rightarrow> bytes option"
  digest_sha256 :: "bytes \<Rightarrow> bytes"
  pbkdf2_sha256 :: "bytes \<Rightarrow> bytes \<Rightarrow> nat \<Rightarrow> nat \<Rightarrow> bytes"
  nfkc :: "string \<Rightarrow> string"

text \<open>
  What the code relies on: both sides of a key agreement derive the same bits, a
  signature verifies, and AES-GCM opens what it sealed under the same key, nonce
  and additional data.
\<close>

definition agrees :: "subtle \<Rightarrow> bool" where
  "agrees S \<longleftrightarrow> (\<forall>a b. x25519 S a (x25519_public S b) = x25519 S b (x25519_public S a) \<and>
     x25519 S a (x25519_public S b) \<noteq> None)"

definition signs :: "subtle \<Rightarrow> bool" where
  "signs S \<longleftrightarrow> (\<forall>k m. ed_verify S (ed_public S k) (ed_sign S k m) m = Some True)"

definition opens :: "subtle \<Rightarrow> bool" where
  "opens S \<longleftrightarrow> (\<forall>k iv aad p. aes_open S k iv aad (aes_seal S k iv aad p) = Some p)"

text \<open>A promise that rejects, and the sequencing of awaits.\<close>

definition operation_error :: string where
  "operation_error = ''OperationError''"

definition attempt :: "'a option \<Rightarrow> string + 'a" where
  "attempt r = (case r of None \<Rightarrow> Inl operation_error | Some x \<Rightarrow> Inr x)"

definition await :: "(string + 'a) \<Rightarrow> ('a \<Rightarrow> string + 'b) \<Rightarrow> string + 'b" where
  "await r k = (case r of Inl e \<Rightarrow> Inl e | Inr x \<Rightarrow> k x)"

lemma await_simps [simp]:
  "await (Inl e) k = Inl e" "await (Inr x) k = k x" "attempt None = Inl operation_error" "attempt (Some y) = Inr y"
  by (simp_all add: await_def attempt_def)

lemma await_Inr: "await r k = Inr y \<longleftrightarrow> (\<exists>x. r = Inr x \<and> k x = Inr y)"
  by (cases r) auto

lemma attempt_Inr: "attempt r = Inr y \<longleftrightarrow> r = Some y"
  by (cases r) auto

section \<open>btoa and atob\<close>

definition bytesToBase64 :: "bytes \<Rightarrow> string" where
  "bytesToBase64 bs = b64_encode bs"

definition ascii_space :: "char \<Rightarrow> bool" where
  "ascii_space c \<longleftrightarrow> (of_char c :: nat) \<in> {9, 10, 12, 13, 32}"

fun strip_pad :: "string \<Rightarrow> string" where
  "strip_pad [] = []"
| "strip_pad (c # cs) = (if c = CHR ''='' \<and> (cs = [] \<or> cs = ''='') then [] else c # strip_pad cs)"

definition std_index :: "char \<Rightarrow> nat option" where
  "std_index c = (if c = CHR ''-'' \<or> c = CHR ''_'' then None else b64_index c)"

text \<open>\<open>atob\<close> throws on a character outside the alphabet and on a length it cannot have.\<close>

definition base64ToBytes :: "string \<Rightarrow> bytes option" where
  "base64ToBytes s =
     (let t = filter (\<lambda>c. \<not> ascii_space c) s;
          u = (if length t mod 4 = 0 then strip_pad t else t)
      in if length u mod 4 = 1 \<or> list_ex (\<lambda>c. std_index c = None) u then None
         else Some (b64_groups (List.map_filter b64_index u)))"

lemma b64_char_std:
  assumes "n < 64"
  shows "std_index (b64_char n) = Some n" "\<not> ascii_space (b64_char n)" "b64_char n \<noteq> CHR ''=''"
proof -
  have r: "(of_char (b64_char n) :: nat) \<in> {43, 47} \<union> {48..57} \<union> {65..90} \<union> {97..122}"
    by (rule b64_char_range [OF assms])
  then have "b64_char n \<noteq> CHR ''-''" "b64_char n \<noteq> CHR ''_''" by auto
  then show "std_index (b64_char n) = Some n" using assms by (simp add: std_index_def b64_index_char)
  show "\<not> ascii_space (b64_char n)" using r by (auto simp: ascii_space_def)
  show "b64_char n \<noteq> CHR ''=''" using r by auto
qed

lemma map_filter_strip_pad: "List.map_filter b64_index (strip_pad s) = List.map_filter b64_index s"
  by (induction s) (auto simp: List.map_filter_def b64_index_pad)

lemma strip_pad_encode:
  "filter (\<lambda>c. \<not> ascii_space c) (b64_encode bs) = b64_encode bs \<and> length (b64_encode bs) mod 4 = 0 \<and>
   length (strip_pad (b64_encode bs)) mod 4 \<noteq> 1 \<and> \<not> list_ex (\<lambda>c. std_index c = None) (strip_pad (b64_encode bs))"
proof (induction bs rule: b64_encode.induct)
  case 1
  show ?case by simp
next
  case (2 a)
  show ?case using b64_char_std [OF b64_byte_facts(1) [of a]] b64_char_std [OF b64_byte_facts(5) [of a]]
    by (simp add: Let_def ascii_space_def)
next
  case (3 a b)
  show ?case using b64_char_std [OF b64_byte_facts(1) [of a]] b64_char_std [OF b64_byte_facts(2) [of a b]]
      b64_char_std [OF b64_byte_facts(6) [of b]]
    by (simp add: Let_def ascii_space_def)
next
  case (4 a b c rest)
  show ?case using 4 b64_char_std [OF b64_byte_facts(1) [of a]] b64_char_std [OF b64_byte_facts(2) [of a b]]
      b64_char_std [OF b64_byte_facts(3) [of b c]] b64_char_std [OF b64_byte_facts(4) [of c]]
    by (simp add: Let_def)
qed

lemma base64_roundtrip [simp]: "base64ToBytes (bytesToBase64 bs) = Some bs"
  using strip_pad_encode [of bs] b64_roundtrip [of bs]
  by (simp add: base64ToBytes_def bytesToBase64_def Let_def map_filter_strip_pad b64_decode_def)

section \<open>Device identities\<close>

record key_pair =
  ky_public :: string
  ky_private :: bytes

definition zeros :: "nat \<Rightarrow> bytes" where
  "zeros n = replicate n (char_of (0::nat))"

definition generateSigningKeyPair :: "subtle \<Rightarrow> bytes \<Rightarrow> key_pair" where
  "generateSigningKeyPair S seed = \<lparr>ky_public = bytesToBase64 (ed_public S seed), ky_private = seed\<rparr>"

definition generateDhKeyPair :: "subtle \<Rightarrow> bytes \<Rightarrow> key_pair" where
  "generateDhKeyPair S seed = \<lparr>ky_public = bytesToBase64 (x25519_public S seed), ky_private = seed\<rparr>"

definition signBytes :: "subtle \<Rightarrow> bytes \<Rightarrow> bytes \<Rightarrow> string" where
  "signBytes S privateKey dat = bytesToBase64 (ed_sign S privateKey dat)"

definition verifyBytes :: "subtle \<Rightarrow> string \<Rightarrow> bytes \<Rightarrow> string \<Rightarrow> bool" where
  "verifyBytes S publicKeyB64 dat signatureB64 =
     (case (base64ToBytes publicKeyB64, base64ToBytes signatureB64) of
        (Some k, Some s) \<Rightarrow> (case ed_verify S k s dat of Some b \<Rightarrow> b | None \<Rightarrow> False)
      | _ \<Rightarrow> False)"

definition dh :: "subtle \<Rightarrow> bytes \<Rightarrow> string \<Rightarrow> string + bytes" where
  "dh S privateKey publicKeyB64 =
     await (attempt (base64ToBytes publicKeyB64)) (\<lambda>pub. attempt (x25519 S privateKey pub))"

record device_identity =
  di_identitySigning :: key_pair
  di_identityDh :: key_pair
  di_signedPrekey :: key_pair
  di_signedPrekeySignature :: string
  di_oneTimePrekeys :: "key_pair list"

text \<open>\<open>oneTimePrekeysPublic\<close> and \<open>oneTimePrekeyPairs\<close> are the two halves of the same list.\<close>

definition generateDeviceIdentity ::
  "subtle \<Rightarrow> bytes \<Rightarrow> bytes \<Rightarrow> bytes \<Rightarrow> bytes list \<Rightarrow> device_identity" where
  "generateDeviceIdentity S signSeed dhSeed prekeySeed oneTimeSeeds =
     (let signing = generateSigningKeyPair S signSeed;
          signedPrekey = generateDhKeyPair S prekeySeed
      in \<lparr>di_identitySigning = signing, di_identityDh = generateDhKeyPair S dhSeed,
          di_signedPrekey = signedPrekey,
          di_signedPrekeySignature =
            signBytes S (ky_private signing) (the (base64ToBytes (ky_public signedPrekey))),
          di_oneTimePrekeys = map (generateDhKeyPair S) oneTimeSeeds\<rparr>)"

record public_bundle =
  pb_identitySigningPublic :: string
  pb_identityDhPublic :: string
  pb_signedPrekeyPublic :: string
  pb_signedPrekeySignature :: string
  pb_oneTimePrekeyPublic :: "string option"

definition toPublicBundle :: "device_identity \<Rightarrow> string option \<Rightarrow> public_bundle" where
  "toPublicBundle i oneTimePrekeyPublic =
     \<lparr>pb_identitySigningPublic = ky_public (di_identitySigning i),
      pb_identityDhPublic = ky_public (di_identityDh i),
      pb_signedPrekeyPublic = ky_public (di_signedPrekey i),
      pb_signedPrekeySignature = di_signedPrekeySignature i,
      pb_oneTimePrekeyPublic = oneTimePrekeyPublic\<rparr>"

section \<open>The handshake\<close>

record session_keys =
  sk_sending :: bytes
  sk_receiving :: bytes

record handshake_message =
  hm_initiatorIdentityDhPublic :: string
  hm_ephemeralPublic :: string
  hm_usedOneTimePrekeyPublic :: "string option"

definition root_key :: "subtle \<Rightarrow> bytes \<Rightarrow> bytes" where
  "root_key S shared = hkdf_sha256 S shared (zeros 32) ''pookie-chat-x3dh-root'' 32"

definition chain_a_to_b :: "subtle \<Rightarrow> bytes \<Rightarrow> bytes" where
  "chain_a_to_b S root = hkdf_sha256 S root (zeros 32) ''pookie-chat-chain-a-to-b'' 32"

definition chain_b_to_a :: "subtle \<Rightarrow> bytes \<Rightarrow> bytes" where
  "chain_b_to_a S root = hkdf_sha256 S root (zeros 32) ''pookie-chat-chain-b-to-a'' 32"

definition initiateHandshake ::
  "subtle \<Rightarrow> bytes \<Rightarrow> device_identity \<Rightarrow> public_bundle \<Rightarrow> string + (session_keys \<times> handshake_message)" where
  "initiateHandshake S ephemeralSeed myIdentity theirBundle =
     await (attempt (base64ToBytes (pb_signedPrekeyPublic theirBundle))) (\<lambda>prekey.
       if \<not> verifyBytes S (pb_identitySigningPublic theirBundle) prekey (pb_signedPrekeySignature theirBundle)
       then Inl ''Signed pre-key signature did not verify''
       else
         let ephemeral = generateDhKeyPair S ephemeralSeed
         in await (dh S (ky_private (di_identityDh myIdentity)) (pb_signedPrekeyPublic theirBundle)) (\<lambda>dh1.
            await (dh S (ky_private ephemeral) (pb_identityDhPublic theirBundle)) (\<lambda>dh2.
            await (dh S (ky_private ephemeral) (pb_signedPrekeyPublic theirBundle)) (\<lambda>dh3.
            await (case given (pb_oneTimePrekeyPublic theirBundle) of
                     None \<Rightarrow> Inr [] | Some k \<Rightarrow> dh S (ky_private ephemeral) k) (\<lambda>dh4.
              let root = root_key S (dh1 @ dh2 @ dh3 @ dh4)
              in Inr (\<lparr>sk_sending = chain_b_to_a S root, sk_receiving = chain_a_to_b S root\<rparr>,
                      \<lparr>hm_initiatorIdentityDhPublic = ky_public (di_identityDh myIdentity),
                       hm_ephemeralPublic = ky_public ephemeral,
                       hm_usedOneTimePrekeyPublic = pb_oneTimePrekeyPublic theirBundle\<rparr>))))))"

definition completeHandshake ::
  "subtle \<Rightarrow> device_identity \<Rightarrow> handshake_message \<Rightarrow> string + (session_keys \<times> string option)" where
  "completeHandshake S myIdentity handshake =
     await (dh S (ky_private (di_signedPrekey myIdentity)) (hm_initiatorIdentityDhPublic handshake)) (\<lambda>dh1.
     await (dh S (ky_private (di_identityDh myIdentity)) (hm_ephemeralPublic handshake)) (\<lambda>dh2.
     await (dh S (ky_private (di_signedPrekey myIdentity)) (hm_ephemeralPublic handshake)) (\<lambda>dh3.
     await (case given (hm_usedOneTimePrekeyPublic handshake) of
              None \<Rightarrow> Inr ([], None)
            | Some used \<Rightarrow>
                (case find (\<lambda>k. ky_public k = used) (di_oneTimePrekeys myIdentity) of
                   None \<Rightarrow> Inl ''Referenced one-time pre-key not found on this device''
                 | Some pair \<Rightarrow>
                     await (dh S (ky_private pair) (hm_ephemeralPublic handshake)) (\<lambda>d. Inr (d, Some used))))
       (\<lambda>(dh4, consumed).
         let root = root_key S (dh1 @ dh2 @ dh3 @ dh4)
         in Inr (\<lparr>sk_sending = chain_a_to_b S root, sk_receiving = chain_b_to_a S root\<rparr>, consumed)))))"

section \<open>The ratchet\<close>

type_synonym envelope = "string \<times> string"

definition message_key :: "subtle \<Rightarrow> bytes \<Rightarrow> bytes" where
  "message_key S chainKey = hkdf_sha256 S chainKey (zeros 32) ''pookie-chat-message-key'' 32"

definition deriveNextChainKey :: "subtle \<Rightarrow> bytes \<Rightarrow> bytes" where
  "deriveNextChainKey S chainKey = hkdf_sha256 S chainKey (zeros 32) ''pookie-chat-chain-key'' 32"

definition advanceChain :: "subtle \<Rightarrow> bytes \<Rightarrow> bytes \<times> bytes" where
  "advanceChain S chainKey = (message_key S chainKey, deriveNextChainKey S chainKey)"

definition ratchetEncrypt :: "subtle \<Rightarrow> bytes \<Rightarrow> bytes \<Rightarrow> string \<Rightarrow> bytes \<Rightarrow> envelope \<times> bytes" where
  "ratchetEncrypt S iv chainKey plaintext aad =
     (let (messageKey, nextChainKey) = advanceChain S chainKey
      in ((bytesToBase64 (aes_seal S messageKey iv aad plaintext), bytesToBase64 iv), nextChainKey))"

definition ratchetDecrypt :: "subtle \<Rightarrow> bytes \<Rightarrow> envelope \<Rightarrow> bytes \<Rightarrow> string + (string \<times> bytes)" where
  "ratchetDecrypt S chainKey env aad =
     (let (messageKey, nextChainKey) = advanceChain S chainKey
      in await (attempt (base64ToBytes (snd env))) (\<lambda>iv.
         await (attempt (base64ToBytes (fst env))) (\<lambda>ct.
         await (attempt (aes_open S messageKey iv aad ct)) (\<lambda>plaintext. Inr (plaintext, nextChainKey)))))"

definition buildAad :: "ident \<Rightarrow> nat \<Rightarrow> bytes" where
  "buildAad conversationId sequenceNumber = conversationId @ '':'' @ decimal sequenceNumber"

section \<open>Both sides agree\<close>

lemma dh_generated [simp]:
  "dh S a (bytesToBase64 (x25519_public S b)) = attempt (x25519 S a (x25519_public S b))"
  by (simp add: dh_def)

lemma dh_agrees:
  assumes "agrees S"
  obtains k where "x25519 S a (x25519_public S b) = Some k" "x25519 S b (x25519_public S a) = Some k"
  using assms unfolding agrees_def by (metis option.exhaust)

lemma generated_keys [simp]:
  "ky_public (generateDhKeyPair S s) = bytesToBase64 (x25519_public S s)" "ky_private (generateDhKeyPair S s) = s"
  "ky_public (generateSigningKeyPair S s) = bytesToBase64 (ed_public S s)" "ky_private (generateSigningKeyPair S s) = s"
  by (simp_all add: generateDhKeyPair_def generateSigningKeyPair_def)

lemma bytesToBase64_inject [simp]: "bytesToBase64 x = bytesToBase64 y \<longleftrightarrow> x = y"
  by (metis base64_roundtrip option.inject)

lemma handshake_agrees:
  assumes laws: "agrees S" "signs S"
    and alice: "alice = generateDeviceIdentity S aSign aDh aPrekey aOnes"
    and bob: "bob = generateDeviceIdentity S bSign bDh bPrekey bOnes"
    and one: "offered = None \<or> (\<exists>seed \<in> set bOnes. offered = Some (bytesToBase64 (x25519_public S seed)) \<and>
        x25519_public S seed \<noteq> [])"
  shows "\<exists>session message.
    initiateHandshake S eph alice (toPublicBundle bob offered) = Inr (session, message) \<and>
    completeHandshake S bob message =
      Inr (\<lparr>sk_sending = sk_receiving session, sk_receiving = sk_sending session\<rparr>, offered)"
proof -
  obtain k1 where k1: "x25519 S aDh (x25519_public S bPrekey) = Some k1" "x25519 S bPrekey (x25519_public S aDh) = Some k1"
    by (rule dh_agrees [OF laws(1)])
  obtain k2 where k2: "x25519 S eph (x25519_public S bDh) = Some k2" "x25519 S bDh (x25519_public S eph) = Some k2"
    by (rule dh_agrees [OF laws(1)])
  obtain k3 where k3: "x25519 S eph (x25519_public S bPrekey) = Some k3" "x25519 S bPrekey (x25519_public S eph) = Some k3"
    by (rule dh_agrees [OF laws(1)])
  have sig: "verifyBytes S (bytesToBase64 (ed_public S bSign)) (x25519_public S bPrekey)
      (signBytes S bSign (x25519_public S bPrekey))"
    using laws(2) by (simp add: verifyBytes_def signBytes_def signs_def)
  note common = initiateHandshake_def completeHandshake_def toPublicBundle_def alice bob generateDeviceIdentity_def
    Let_def k1 k2 k3 sig given_def
  show ?thesis
  proof (cases offered)
    case None
    then show ?thesis by (simp add: common)
  next
    case (Some pub)
    then obtain seed where seed: "seed \<in> set bOnes" "pub = bytesToBase64 (x25519_public S seed)" "x25519_public S seed \<noteq> []"
      using one by auto
    then have ne: "pub \<noteq> ''''" by (simp add: bytesToBase64_def)
    have "find (\<lambda>k. ky_public k = pub) (map (generateDhKeyPair S) bOnes) \<noteq> None"
      using seed by (auto simp: find_None_iff)
    then obtain pair where pair: "find (\<lambda>k. ky_public k = pub) (map (generateDhKeyPair S) bOnes) = Some pair" by auto
    then obtain seed' where s': "pair = generateDhKeyPair S seed'" "x25519_public S seed' = x25519_public S seed"
      using seed(2) by (auto dest!: find_Some_in)
    obtain k4 where "x25519 S eph (x25519_public S seed') = Some k4" "x25519 S seed' (x25519_public S eph) = Some k4"
      by (rule dh_agrees [OF laws(1)])
    then show ?thesis using Some ne pair s' by (simp add: common seed(2))
  qed
qed

text \<open>
  C2. The handshake agrees: between two generated identities, with the bundle the
  responder publishes and any of his one-time keys or none, the initiator's
  handshake succeeds, the responder completes it from the message alone, what
  one sends with is what the other receives with, and the one-time key reported
  as consumed is the one the bundle offered.
\<close>

theorem handshake_agreement:
  assumes laws: "agrees S" "signs S"
    and alice: "alice = generateDeviceIdentity S aSign aDh aPrekey aOnes"
    and bob: "bob = generateDeviceIdentity S bSign bDh bPrekey bOnes"
    and one: "offered = None \<or> (\<exists>seed \<in> set bOnes. offered = Some (bytesToBase64 (x25519_public S seed)) \<and>
        x25519_public S seed \<noteq> [])"
  shows "\<exists>session message.
    initiateHandshake S eph alice (toPublicBundle bob offered) = Inr (session, message) \<and>
    completeHandshake S bob message =
      Inr (\<lparr>sk_sending = sk_receiving session, sk_receiving = sk_sending session\<rparr>, offered)"
  by (rule handshake_agrees [OF assms])

lemma forged_bundle_refused:
  assumes "base64ToBytes (pb_signedPrekeyPublic b) = Some k"
    and "\<not> verifyBytes S (pb_identitySigningPublic b) k (pb_signedPrekeySignature b)"
  shows "initiateHandshake S eph me b = Inl ''Signed pre-key signature did not verify''"
  using assms by (simp add: initiateHandshake_def)

section \<open>One bad message does not break the chain\<close>

lemma ratchet_roundtrip:
  "opens S \<Longrightarrow> ratchetDecrypt S ck (fst (ratchetEncrypt S iv ck text aad)) aad = Inr (text, deriveNextChainKey S ck)"
  by (simp add: ratchetDecrypt_def ratchetEncrypt_def advanceChain_def opens_def)

lemma ratchetEncrypt_next [simp]: "snd (ratchetEncrypt S iv ck text aad) = deriveNextChainKey S ck"
  by (simp add: ratchetEncrypt_def advanceChain_def)

lemma ratchetDecrypt_next: "ratchetDecrypt S ck env aad = Inr (text, next) \<Longrightarrow> next = deriveNextChainKey S ck"
  by (auto simp: ratchetDecrypt_def advanceChain_def await_Inr)

section \<open>roomCrypto.ts\<close>

definition room_wrap_key :: "subtle \<Rightarrow> bytes \<Rightarrow> bytes" where
  "room_wrap_key S shared = hkdf_sha256 S shared (zeros 32) ''pookie-chat-room-key-wrap'' 32"

definition encryptRoomKeyForRecipient :: "subtle \<Rightarrow> bytes \<Rightarrow> bytes \<Rightarrow> string \<Rightarrow> bytes \<Rightarrow> string + envelope" where
  "encryptRoomKeyForRecipient S iv roomKey recipientPublic myPrivate =
     await (dh S myPrivate recipientPublic) (\<lambda>shared.
       Inr (bytesToBase64 (aes_seal S (room_wrap_key S shared) iv [] roomKey), bytesToBase64 iv))"

definition decryptRoomKeyFromSender :: "subtle \<Rightarrow> string \<Rightarrow> string \<Rightarrow> string \<Rightarrow> bytes \<Rightarrow> string + bytes" where
  "decryptRoomKeyFromSender S encryptedKey nonce senderPublic myPrivate =
     await (dh S myPrivate senderPublic) (\<lambda>shared.
     await (attempt (base64ToBytes nonce)) (\<lambda>iv.
     await (attempt (base64ToBytes encryptedKey)) (\<lambda>ct.
       attempt (aes_open S (room_wrap_key S shared) iv [] ct))))"

text \<open>\<open>importKey\<close> takes AES keys of 16, 24 and 32 bytes only.\<close>

definition aes_key :: "bytes \<Rightarrow> string + bytes" where
  "aes_key k = (if length k \<in> {16, 24, 32} then Inr k else Inl operation_error)"

definition encryptRoomMessage :: "subtle \<Rightarrow> bytes \<Rightarrow> bytes \<Rightarrow> string \<Rightarrow> bytes \<Rightarrow> string + envelope" where
  "encryptRoomMessage S iv roomKey plaintext aad =
     await (aes_key roomKey) (\<lambda>key.
       Inr (bytesToBase64 (aes_seal S key iv aad plaintext), bytesToBase64 iv))"

definition decryptRoomMessage :: "subtle \<Rightarrow> bytes \<Rightarrow> string \<Rightarrow> string \<Rightarrow> bytes \<Rightarrow> string + string" where
  "decryptRoomMessage S roomKey ciphertext iv aad =
     await (aes_key roomKey) (\<lambda>key.
     await (attempt (base64ToBytes iv)) (\<lambda>i.
     await (attempt (base64ToBytes ciphertext)) (\<lambda>ct.
       attempt (aes_open S key i aad ct))))"

definition deriveOpenRoomCodeKey :: "subtle \<Rightarrow> string \<Rightarrow> bytes" where
  "deriveOpenRoomCodeKey S code = digest_sha256 S (to_upper (js_trim code))"

definition encryptOpenRoomKey :: "subtle \<Rightarrow> bytes \<Rightarrow> bytes \<Rightarrow> string \<Rightarrow> envelope" where
  "encryptOpenRoomKey S iv roomKey code =
     (bytesToBase64 (aes_seal S (deriveOpenRoomCodeKey S code) iv [] roomKey), bytesToBase64 iv)"

definition decryptOpenRoomKey :: "subtle \<Rightarrow> string \<Rightarrow> string \<Rightarrow> string \<Rightarrow> string + bytes" where
  "decryptOpenRoomKey S ciphertext nonce code =
     await (attempt (base64ToBytes nonce)) (\<lambda>iv.
     await (attempt (base64ToBytes ciphertext)) (\<lambda>ct.
       attempt (aes_open S (deriveOpenRoomCodeKey S code) iv [] ct)))"

section \<open>fileCrypto.ts\<close>

text \<open>The file arrives with its metadata already stripped: the canvas belongs to the browser.\<close>

record encrypted_file =
  ef_ciphertext :: bytes
  ef_dek :: bytes
  ef_mimeTypeHint :: string
  ef_originalSize :: nat

definition encryptFile :: "subtle \<Rightarrow> bytes \<Rightarrow> bytes \<Rightarrow> string \<Rightarrow> nat \<Rightarrow> bytes \<Rightarrow> encrypted_file" where
  "encryptFile S dek iv fileType fileSize cleaned =
     \<lparr>ef_ciphertext = iv @ aes_seal S dek iv [] cleaned, ef_dek = dek,
      ef_mimeTypeHint = (if starts_with ''image/'' fileType then ''image'' else ''file''),
      ef_originalSize = fileSize\<rparr>"

definition decryptFile :: "subtle \<Rightarrow> bytes \<Rightarrow> bytes \<Rightarrow> string + bytes" where
  "decryptFile S combined dek =
     (if length combined < 28 then Inl ''Encrypted payload is malformed or truncated.''
      else if length dek \<noteq> 32 then Inl ''Invalid encryption key length.''
      else attempt (aes_open S dek (take 12 combined) [] (drop 12 combined)))"

text \<open>
  Keys and contents arrive: a room key wrapped for a recipient unwraps with
  the recipient's private key and the sender's public one; the key of an open
  room opens with any spelling of its code; a room message decrypts under its key
  and additional data; and an attachment decrypts to the bytes that were
  encrypted.
\<close>

theorem room_and_file_roundtrip:
  assumes laws: "agrees S" "opens S" and keys: "length roomKey = 32" "length dek = 32" "length iv = 12"
    and tag: "16 \<le> length (aes_seal S dek iv [] contents)"
    and spelled: "to_upper (js_trim code') = to_upper (js_trim code)"
  shows "(\<exists>e. encryptRoomKeyForRecipient S iv roomKey (bytesToBase64 (x25519_public S b)) a = Inr e \<and>
      decryptRoomKeyFromSender S (fst e) (snd e) (bytesToBase64 (x25519_public S a)) b = Inr roomKey) \<and>
    decryptOpenRoomKey S (fst (encryptOpenRoomKey S iv roomKey code)) (snd (encryptOpenRoomKey S iv roomKey code))
      code' = Inr roomKey \<and>
    (\<exists>e. encryptRoomMessage S iv roomKey text aad = Inr e \<and>
      decryptRoomMessage S roomKey (fst e) (snd e) aad = Inr text) \<and>
    decryptFile S (ef_ciphertext (encryptFile S dek iv fileType fileSize contents)) dek = Inr contents"
proof -
  obtain k where k: "x25519 S a (x25519_public S b) = Some k" "x25519 S b (x25519_public S a) = Some k"
    by (rule dh_agrees [OF laws(1)])
  have o: "aes_open S key i d (aes_seal S key i d p) = Some p" for key i d p using laws(2) by (simp add: opens_def)
  show ?thesis using keys tag spelled
    by (simp add: encryptRoomKeyForRecipient_def decryptRoomKeyFromSender_def k o encryptOpenRoomKey_def
        decryptOpenRoomKey_def deriveOpenRoomCodeKey_def encryptRoomMessage_def decryptRoomMessage_def aes_key_def
        encryptFile_def decryptFile_def)
qed

section \<open>localSecret.ts\<close>

unbundle bit_operations_syntax

definition pbkdf2_iterations :: nat where
  "pbkdf2_iterations = 600000"

definition hashLocalSecret :: "subtle \<Rightarrow> bytes \<Rightarrow> string \<Rightarrow> string" where
  "hashLocalSecret S salt secret =
     ''pbkdf2$'' @ decimal pbkdf2_iterations @ ''$'' @ bytesToBase64 salt @ ''$'' @
       bytesToBase64 (pbkdf2_sha256 S (nfkc S secret) salt pbkdf2_iterations 256)"

text \<open>
  The comparison looks at every byte of two arrays of the same length. \<open>deriveBits\<close>
  takes 1 to \<open>2 ^ 32 - 1\<close> iterations and throws on anything else; the count is
  read from decimal digits, the only form the code stores.
\<close>

definition timingSafeEqualBytes :: "bytes \<Rightarrow> bytes \<Rightarrow> bool" where
  "timingSafeEqualBytes a b \<longleftrightarrow> length a = length b \<and>
     fold (\<lambda>(x, y) diff. diff OR (of_char x XOR of_char y)) (zip a b) (0::nat) = 0"

definition iteration_count :: "string \<Rightarrow> nat option" where
  "iteration_count s = (if s \<noteq> [] \<and> list_all digit s \<and> 1 \<le> digits_value 0 s \<and> digits_value 0 s < 2 ^ 32
     then Some (digits_value 0 s) else None)"

definition checkLocalSecret :: "subtle \<Rightarrow> string \<Rightarrow> string option \<Rightarrow> string + bool" where
  "checkLocalSecret S input storedVerifier =
     (let dummy = ''pbkdf2$'' @ decimal pbkdf2_iterations @ ''$'' @ bytesToBase64 (zeros 16) @ ''$'' @
                    bytesToBase64 (zeros 32)
      in case split_on (CHR ''$'') (case storedVerifier of None \<Rightarrow> dummy | Some v \<Rightarrow> v) of
           [_, iterStr, saltB64, hashB64] \<Rightarrow>
             await (attempt (base64ToBytes saltB64)) (\<lambda>salt.
             await (attempt (base64ToBytes hashB64)) (\<lambda>expected.
             await (attempt (iteration_count iterStr)) (\<lambda>iterations.
               let derived = pbkdf2_sha256 S (nfkc S input) salt iterations 256
               in Inr (storedVerifier \<noteq> None \<and> timingSafeEqualBytes derived expected))))
         | _ \<Rightarrow> Inr False)"


lemma or_fold_zero: "fold (\<lambda>(x, y) diff. diff OR ((of_char x :: nat) XOR of_char y)) ps d = 0 \<longleftrightarrow>
    d = 0 \<and> (\<forall>(x, y) \<in> set ps. x = y)"
proof (induction ps arbitrary: d)
  case Nil
  then show ?case by simp
next
  case (Cons p ps)
  obtain x y where p: "p = (x, y)" by (cases p)
  have "((of_char x :: nat) XOR of_char y = 0) = (x = y)"
  proof (rule iffI)
    assume z: "(of_char x :: nat) XOR of_char y = 0"
    have "(of_char x :: nat) = of_char x XOR (of_char y XOR of_char y)" by simp
    also have "\<dots> = (of_char x XOR of_char y) XOR of_char y" by (simp only: xor.assoc)
    also have "\<dots> = of_char y" unfolding z by simp
    finally have "(of_char x :: nat) = of_char y" .
    then have "char_of (of_char x :: nat) = (char_of (of_char y :: nat) :: char)" by (rule arg_cong)
    then show "x = y" by (simp only: char_of_char)
  qed simp
  moreover have "a OR b = 0 \<longleftrightarrow> a = 0 \<and> b = 0" for a b :: nat by (simp add: or_eq_0_iff)
  ultimately show ?case using Cons by (auto simp: p)
qed

text \<open>The constant-time comparison is equality.\<close>

lemma timingSafeEqualBytes_eq [simp]: "timingSafeEqualBytes a b \<longleftrightarrow> a = b"
proof -
  have "(\<forall>(x, y) \<in> set (zip a b). x = y) \<longleftrightarrow> a = b" if "length a = length b"
    using that by (auto simp: list_eq_iff_nth_eq set_zip)
  then show ?thesis by (auto simp: timingSafeEqualBytes_def or_fold_zero)
qed

lemma iteration_count_stored [simp]: "iteration_count (decimal pbkdf2_iterations) = Some pbkdf2_iterations"
  using decimal_digits [of pbkdf2_iterations] digits_value_decimal [of pbkdf2_iterations]
  by (simp add: iteration_count_def pbkdf2_iterations_def del: digits_value.simps)

lemma split_verifier:
  "split_on (CHR ''$'') (''pbkdf2$'' @ decimal n @ ''$'' @ bytesToBase64 salt @ ''$'' @ bytesToBase64 h) =
     [''pbkdf2'', decimal n, bytesToBase64 salt, bytesToBase64 h]"
proof -
  have "CHR ''$'' \<notin> set (decimal n)" using decimal_digits [of n] by (auto simp: list_all_iff digit_def in_range_def)
  then show ?thesis using b64_encode_chars [of "CHR ''$''"]
    by (simp add: split_on_append split_on_absent bytesToBase64_def)
qed

lemma check_stored:
  "checkLocalSecret S input (Some (hashLocalSecret S salt secret)) =
     Inr (pbkdf2_sha256 S (nfkc S input) salt 600000 256 = pbkdf2_sha256 S (nfkc S secret) salt 600000 256)"
  unfolding checkLocalSecret_def hashLocalSecret_def Let_def
  by (simp add: split_verifier del: append.simps) (simp add: pbkdf2_iterations_def)

text \<open>
  A local secret is verified by itself and by nothing with another PBKDF2
  image; without a verifier every input fails, whatever PBKDF2 gives.
\<close>

theorem local_secret_verifies:
  "checkLocalSecret S input (Some (hashLocalSecret S salt secret)) =
     Inr (pbkdf2_sha256 S (nfkc S input) salt 600000 256 = pbkdf2_sha256 S (nfkc S secret) salt 600000 256) \<and>
   checkLocalSecret S input None = Inr False"
  unfolding check_stored by (simp add: checkLocalSecret_def Let_def split_verifier del: append.simps)


section \<open>A concrete instance of the primitives\<close>

definition plain_subtle :: subtle where
  "plain_subtle =
     \<lparr>x25519_public = (\<lambda>k. k), x25519 = (\<lambda>a b. Some (if a \<le> b then a @ b else b @ a)),
      ed_public = (\<lambda>k. k), ed_sign = (\<lambda>k m. k @ m), ed_verify = (\<lambda>k s m. Some (s = k @ m)),
      hkdf_sha256 = (\<lambda>ikm salt info n. ikm @ [info ! 12]),
      aes_seal = (\<lambda>k iv aad p. k @ iv @ aad @ p),
      aes_open = (\<lambda>k iv aad c. if take (length (k @ iv @ aad)) c = k @ iv @ aad
                                then Some (drop (length (k @ iv @ aad)) c) else None),
      digest_sha256 = (\<lambda>m. m), pbkdf2_sha256 = (\<lambda>secret salt n bits. secret @ salt), nfkc = (\<lambda>s. s)\<rparr>"

lemma plain_subtle_laws [simp]: "agrees plain_subtle" "signs plain_subtle" "opens plain_subtle"
proof -
  show "agrees plain_subtle" using antisym by (fastforce simp: agrees_def plain_subtle_def)
  show "signs plain_subtle" by (simp add: signs_def plain_subtle_def)
  show "opens plain_subtle" by (simp add: opens_def plain_subtle_def)
qed

lemma handshake_agreement_witness:
  "\<exists>session message.
     initiateHandshake plain_subtle ''e'' (generateDeviceIdentity plain_subtle ''a'' ''b'' ''c'' [])
       (toPublicBundle (generateDeviceIdentity plain_subtle ''f'' ''g'' ''h'' [''i'', ''j'']) (Some (bytesToBase64 ''j''))) =
       Inr (session, message) \<and>
     completeHandshake plain_subtle (generateDeviceIdentity plain_subtle ''f'' ''g'' ''h'' [''i'', ''j'']) message =
       Inr (\<lparr>sk_sending = sk_receiving session, sk_receiving = sk_sending session\<rparr>, Some (bytesToBase64 ''j''))"
  by (rule handshake_agreement [OF plain_subtle_laws(1,2) refl refl]) (simp add: plain_subtle_def)

lemma room_and_file_roundtrip_witness:
  "decryptFile plain_subtle (ef_ciphertext (encryptFile plain_subtle (zeros 32) (zeros 12) ''image/png'' 3 ''abc''))
     (zeros 32) = Inr ''abc''"
proof -
  have spelled: "to_upper (js_trim '' ab'') = to_upper (js_trim ''AB'')" by code_simp
  have "length (zeros n) = n" for n by (simp add: zeros_def)
  moreover from this have "16 \<le> length (aes_seal plain_subtle (zeros 32) (zeros 12) [] ''abc'')"
    by (simp add: plain_subtle_def)
  ultimately show ?thesis
    using room_and_file_roundtrip [OF plain_subtle_laws(1,3) _ _ _ _ spelled, of "zeros 32" "zeros 32" "zeros 12" "''abc''"]
    by blast
qed

end
