(* ===== verification/ClientStore.thy ===== *)
theory ClientStore
  imports Engine
begin

text \<open>
  What the web client keeps on the device: the IndexedDB store behind
  \<open>apps/web/lib/storage/localDb.ts\<close> and the modules that write to it
  (\<open>userScope.ts\<close>, \<open>crypto/sessionStore.ts\<close>, \<open>crypto/messageCache.ts\<close>,
  \<open>storage/outboxStore.ts\<close>, \<open>storage/roomStorage.ts\<close>,
  \<open>scheduled/scheduledMessages.ts\<close>, \<open>chatlock/chatLockState.ts\<close>,
  \<open>applock/state.ts\<close>). The store is one map from key texts to values; every module
  casts what it reads to the type it writes under that key, and so do the readers
  here. The browser's database is taken not to fail.
\<close>

section \<open>The values stored\<close>

record stored_session =
  ss_sendingChainKey :: bytes
  ss_receivingChainKey :: bytes
  ss_sendStep :: nat
  ss_recvStep :: nat
  ss_lastSyncedSeq :: int
  ss_epoch :: int

datatype message_status = Sent | Delivered | Read | Failed | Queued

record reply_info =
  ri_messageId :: "ident option"
  ri_senderUsername :: "string option"
  ri_text :: string

record cached_message =
  cm_id :: ident
  cm_conversationId :: ident
  cm_senderId :: ident
  cm_text :: string
  cm_sentAt :: string
  cm_status :: message_status
  cm_mine :: bool
  cm_replyToMessageId :: "ident option"
  cm_replyTo :: "reply_info option"

record outbox_item =
  ob_id :: ident
  ob_conversationId :: ident
  ob_senderId :: ident
  ob_text :: string
  ob_ciphertext :: "string option"
  ob_iv :: "string option"
  ob_sessionEpoch :: "int option"
  ob_sentAt :: string
  ob_replyToMessageId :: "ident option"
  ob_viewOnce :: "bool option"
  ob_queuedAt :: instant
  ob_retryCount :: nat

record scheduled_attachment =
  sa_ciphertextB64 :: string
  sa_dekB64 :: string
  sa_mimeTypeHint :: string
  sa_filename :: string
  sa_originalSize :: nat
  sa_viewOnce :: "bool option"
  sa_caption :: "string option"

record scheduled_item =
  sm_id :: ident
  sm_conversationId :: ident
  sm_isRoom :: "bool option"
  sm_text :: string
  sm_attachment :: "scheduled_attachment option"
  sm_scheduledFor :: instant
  sm_createdAt :: instant

record auth_session =
  au_userId :: ident
  au_deviceId :: ident
  au_username :: string
  au_email :: "string option"
  au_role :: string
  au_nextUsernameChangeAllowedAt :: "string option"

datatype js_value =
    V_Null
  | V_Bool bool
  | V_Num int
  | V_Text string
  | V_Ids "ident list"
  | V_Session stored_session
  | V_Messages "cached_message list"
  | V_Outbox "outbox_item list"
  | V_Scheduled "scheduled_item list"
  | V_Identity device_identity
  | V_Auth auth_session
  | V_Tokens string string

fun as_bool where "as_bool (V_Bool b) = Some b" | "as_bool _ = None"
fun as_num where "as_num (V_Num n) = Some n" | "as_num _ = None"
fun as_text where "as_text (V_Text t) = Some t" | "as_text _ = None"
fun as_ids where "as_ids (V_Ids xs) = Some xs" | "as_ids _ = None"
fun as_session where "as_session (V_Session s) = Some s" | "as_session _ = None"
fun as_messages where "as_messages (V_Messages ms) = Some ms" | "as_messages _ = None"
fun as_outbox where "as_outbox (V_Outbox xs) = Some xs" | "as_outbox _ = None"
fun as_scheduled where "as_scheduled (V_Scheduled xs) = Some xs" | "as_scheduled _ = None"
fun as_identity where "as_identity (V_Identity i) = Some i" | "as_identity _ = None"
fun as_auth where "as_auth (V_Auth a) = Some a" | "as_auth _ = None"
fun as_tokens where "as_tokens (V_Tokens a r) = Some (a, r)" | "as_tokens _ = None"

text \<open>
  \<open>cl_kv\<close> is the database, \<open>cl_activeCrypto\<close>, \<open>cl_activeLock\<close> and \<open>cl_unlocked\<close>
  are variables of modules, \<open>cl_tab\<close> is \<open>window.sessionStorage\<close>.
\<close>

record client =
  cl_kv :: "string \<Rightarrow> js_value option"
  cl_tab :: "string \<Rightarrow> string option"
  cl_activeCrypto :: "ident option"
  cl_activeLock :: "ident option"
  cl_unlocked :: "ident set"

section \<open>localDb.ts\<close>

text \<open>The template texts \<open>prefix${x}\<close> and \<open>prefix${u}:${x}\<close>.\<close>

definition key1 :: "string \<Rightarrow> string \<Rightarrow> string" where
  "key1 p x = p @ x"

definition key2 :: "string \<Rightarrow> string \<Rightarrow> string \<Rightarrow> string" where
  "key2 p u x = p @ u @ '':'' @ x"

definition idbGet :: "(js_value \<Rightarrow> 'a option) \<Rightarrow> string \<Rightarrow> client \<Rightarrow> 'a option" where
  "idbGet as key c = Option.bind (cl_kv c key) as"

definition idbSet :: "string \<Rightarrow> js_value \<Rightarrow> client \<Rightarrow> client" where
  "idbSet key v c = c\<lparr>cl_kv := (cl_kv c)(key := Some v)\<rparr>"

definition idbDelete :: "string \<Rightarrow> client \<Rightarrow> client" where
  "idbDelete key c = c\<lparr>cl_kv := (cl_kv c)(key := None)\<rparr>"

definition idbClear :: "client \<Rightarrow> client" where
  "idbClear c = c\<lparr>cl_kv := (\<lambda>_. None)\<rparr>"

definition idbClearAuthSession :: "client \<Rightarrow> client" where
  "idbClearAuthSession c =
     idbDelete ''crypto:identity'' (idbDelete ''auth:session'' (idbDelete ''auth:tokens'' c))"

text \<open>The move of a value from the first of its older keys that has one.\<close>

fun take_over :: "(js_value \<Rightarrow> 'a option) \<Rightarrow> ('a \<Rightarrow> js_value) \<Rightarrow> string \<Rightarrow> string list \<Rightarrow> client \<Rightarrow>
    'a option \<times> client" where
  "take_over as mk primary [] c = (None, c)"
| "take_over as mk primary (old # olds) c =
     (case idbGet as old c of
        None \<Rightarrow> take_over as mk primary olds c
      | Some x \<Rightarrow> (Some x, idbDelete old (idbSet primary (mk x) c)))"

definition read_migrating :: "(js_value \<Rightarrow> 'a option) \<Rightarrow> ('a \<Rightarrow> js_value) \<Rightarrow> string \<Rightarrow> string list \<Rightarrow>
    client \<Rightarrow> 'a option \<times> client" where
  "read_migrating as mk primary olds c =
     (case idbGet as primary c of Some x \<Rightarrow> (Some x, c) | None \<Rightarrow> take_over as mk primary olds c)"

section \<open>userScope.ts\<close>

definition setActiveCryptoUser :: "ident option \<Rightarrow> client \<Rightarrow> client" where
  "setActiveCryptoUser u c = c\<lparr>cl_activeCrypto := u\<rparr>"

definition resolveCryptoUserId :: "ident option \<Rightarrow> client \<Rightarrow> ident option \<times> client" where
  "resolveCryptoUserId explicit c =
     (case given explicit of
        Some u \<Rightarrow> (Some u, c)
      | None \<Rightarrow>
          (case given (cl_activeCrypto c) of
             Some u \<Rightarrow> (Some u, c)
           | None \<Rightarrow>
               (case given (map_option au_userId (idbGet as_auth ''auth:session'' c)) of
                  Some u \<Rightarrow> (Some u, c\<lparr>cl_activeCrypto := Some u\<rparr>)
                | None \<Rightarrow> (None, c))))"

text \<open>\<open>const uid = await resolveCryptoUserId(e); if (!uid) return d; ...\<close>\<close>

definition as_user :: "ident option \<Rightarrow> 'a \<Rightarrow> (ident \<Rightarrow> client \<Rightarrow> 'a \<times> client) \<Rightarrow> client \<Rightarrow> 'a \<times> client" where
  "as_user e d k c = (case resolveCryptoUserId e c of (None, c') \<Rightarrow> (d, c') | (Some uid, c') \<Rightarrow> k uid c')"

definition normalizeLookupKey :: "string \<Rightarrow> string" where
  "normalizeLookupKey identifier = to_lower (js_trim identifier)"

definition storeUserIdentityLookup :: "string \<Rightarrow> ident \<Rightarrow> client \<Rightarrow> client" where
  "storeUserIdentityLookup identifier userId c =
     (if identifier = '''' \<or> userId = '''' then c
      else idbSet (key1 ''crypto:identity:lookup:'' (normalizeLookupKey identifier)) (V_Text userId) c)"

definition lookupUserForIdentifier :: "string \<Rightarrow> client \<Rightarrow> ident option" where
  "lookupUserForIdentifier identifier c =
     (if identifier = '''' then None
      else idbGet as_text (key1 ''crypto:identity:lookup:'' (normalizeLookupKey identifier)) c)"

definition getUserIdentity :: "ident option \<Rightarrow> client \<Rightarrow> device_identity option \<times> client" where
  "getUserIdentity explicit = as_user explicit None (\<lambda>uid c.
     case idbGet as_identity (key1 ''crypto:identity:'' uid) c of
       Some i \<Rightarrow> (Some i, c)
     | None \<Rightarrow>
         if map_option au_userId (idbGet as_auth ''auth:session'' c) = Some uid
         then take_over as_identity V_Identity (key1 ''crypto:identity:'' uid) [''crypto:identity''] c
         else (None, c))"

section \<open>sessionStore.ts\<close>

definition session_key :: "ident \<Rightarrow> ident \<Rightarrow> string" where
  "session_key uid conversationId = key2 ''crypto:ratchet:'' uid conversationId"

definition loadSession :: "ident \<Rightarrow> ident option \<Rightarrow> client \<Rightarrow> stored_session option \<times> client" where
  "loadSession conversationId explicit = as_user explicit None (\<lambda>uid.
     read_migrating as_session V_Session (session_key uid conversationId)
       [key2 ''session:'' uid conversationId, key1 ''session:'' conversationId])"

definition saveSession :: "ident \<Rightarrow> stored_session \<Rightarrow> ident option \<Rightarrow> client \<Rightarrow> client" where
  "saveSession conversationId s explicit c =
     snd (as_user explicit () (\<lambda>uid c. ((), idbSet (session_key uid conversationId) (V_Session s) c)) c)"

definition initSession ::
  "ident \<Rightarrow> session_keys \<Rightarrow> int \<Rightarrow> ident option \<Rightarrow> client \<Rightarrow> stored_session \<times> client" where
  "initSession conversationId keys epoch explicit c =
     (let s = \<lparr>ss_sendingChainKey = sk_sending keys, ss_receivingChainKey = sk_receiving keys,
               ss_sendStep = 0, ss_recvStep = 0, ss_lastSyncedSeq = 0, ss_epoch = epoch\<rparr>
      in (s, saveSession conversationId s explicit c))"

definition deleteSession :: "ident \<Rightarrow> ident option \<Rightarrow> client \<Rightarrow> client" where
  "deleteSession conversationId explicit c =
     idbDelete (key1 ''session:'' conversationId)
       (snd (as_user explicit () (\<lambda>uid c.
          ((), idbDelete (key2 ''session:'' uid conversationId)
                 (idbDelete (session_key uid conversationId) c))) c))"

definition isSessionStale :: "int \<Rightarrow> string \<Rightarrow> int \<Rightarrow> bool" where
  "isSessionStale epoch status sessionEpoch \<longleftrightarrow> status \<noteq> ''ACTIVE'' \<or> epoch \<noteq> sessionEpoch"

section \<open>messageCache.ts\<close>

definition messages_key :: "ident \<Rightarrow> ident \<Rightarrow> string" where
  "messages_key uid conversationId = key2 ''messages:'' uid conversationId"

definition getCachedMessages :: "ident \<Rightarrow> ident option \<Rightarrow> client \<Rightarrow> cached_message list \<times> client" where
  "getCachedMessages conversationId explicit = as_user explicit [] (\<lambda>uid c.
     case read_migrating as_messages V_Messages (messages_key uid conversationId)
            [key2 ''messageCache:'' uid conversationId, key1 ''messageCache:'' conversationId] c of
       (r, c') \<Rightarrow> ((case r of None \<Rightarrow> [] | Some ms \<Rightarrow> ms), c'))"

definition appendCachedMessage :: "cached_message \<Rightarrow> ident option \<Rightarrow> client \<Rightarrow> client" where
  "appendCachedMessage msg explicit c =
     snd (as_user (case explicit of Some e \<Rightarrow> Some e
                   | None \<Rightarrow> if cm_mine msg then Some (cm_senderId msg) else None) () (\<lambda>uid c.
       case getCachedMessages (cm_conversationId msg) (Some uid) c of (existing, c') \<Rightarrow>
         if \<exists>m \<in> set existing. cm_id m = cm_id msg then ((), c')
         else ((), idbSet (messages_key uid (cm_conversationId msg)) (V_Messages (existing @ [msg])) c')) c)"

definition updateCachedMessage ::
  "ident \<Rightarrow> ident \<Rightarrow> (cached_message \<Rightarrow> cached_message) \<Rightarrow> ident option \<Rightarrow> client \<Rightarrow> client" where
  "updateCachedMessage conversationId mid patch explicit c =
     snd (as_user explicit () (\<lambda>uid c.
       case getCachedMessages conversationId (Some uid) c of (existing, c') \<Rightarrow>
         ((), idbSet (messages_key uid conversationId)
                (V_Messages (map (\<lambda>m. if cm_id m = mid then patch m else m) existing)) c')) c)"

definition removeCachedMessage :: "ident \<Rightarrow> ident \<Rightarrow> ident option \<Rightarrow> client \<Rightarrow> client" where
  "removeCachedMessage conversationId mid explicit c =
     snd (as_user explicit () (\<lambda>uid c.
       case getCachedMessages conversationId (Some uid) c of (existing, c') \<Rightarrow>
         ((), idbSet (messages_key uid conversationId)
                (V_Messages (filter (\<lambda>m. cm_id m \<noteq> mid) existing)) c')) c)"

definition clearCachedMessages :: "ident \<Rightarrow> ident option \<Rightarrow> client \<Rightarrow> client" where
  "clearCachedMessages conversationId explicit c =
     idbDelete (key1 ''messageCache:'' conversationId)
       (snd (as_user explicit () (\<lambda>uid c.
          ((), idbDelete (key2 ''messageCache:'' uid conversationId)
                 (idbSet (messages_key uid conversationId) (V_Messages []) c))) c))"


section \<open>outboxStore.ts\<close>

definition outbox_key :: "ident \<Rightarrow> string" where
  "outbox_key userId = key1 ''outbox:'' userId"

definition or_empty :: "'a list option \<Rightarrow> 'a list" where
  "or_empty r = (case r of None \<Rightarrow> [] | Some xs \<Rightarrow> xs)"

definition getOutboxItems :: "ident \<Rightarrow> ident option \<Rightarrow> client \<Rightarrow> outbox_item list" where
  "getOutboxItems userId conversationId c =
     (if userId = '''' then []
      else let items = or_empty (idbGet as_outbox (outbox_key userId) c)
           in case given conversationId of
                Some cid \<Rightarrow> filter (\<lambda>i. ob_conversationId i = cid) items
              | None \<Rightarrow> items)"

definition enqueueOutboxItem :: "ident \<Rightarrow> outbox_item \<Rightarrow> client \<Rightarrow> client" where
  "enqueueOutboxItem userId item c =
     (if userId = '''' then c
      else let items = getOutboxItems userId None c
           in if \<exists>i \<in> set items. ob_id i = ob_id item then c
              else idbSet (outbox_key userId) (V_Outbox (items @ [item])) c)"

definition removeOutboxItem :: "ident \<Rightarrow> ident \<Rightarrow> client \<Rightarrow> client" where
  "removeOutboxItem userId oid c =
     (if userId = '''' then c
      else idbSet (outbox_key userId)
             (V_Outbox (filter (\<lambda>i. ob_id i \<noteq> oid) (getOutboxItems userId None c))) c)"

definition clearOutbox :: "ident \<Rightarrow> client \<Rightarrow> client" where
  "clearOutbox userId c = (if userId = '''' then c else idbSet (outbox_key userId) (V_Outbox []) c)"

section \<open>scheduledMessages.ts\<close>

definition scheduled_key :: "ident \<Rightarrow> string" where
  "scheduled_key userId = key1 ''scheduled_messages:'' userId"

definition getScheduledMessages :: "ident \<Rightarrow> ident option \<Rightarrow> client \<Rightarrow> scheduled_item list" where
  "getScheduledMessages userId conversationId c =
     (let list = or_empty (idbGet as_scheduled (scheduled_key userId) c)
      in case given conversationId of
           Some cid \<Rightarrow> filter (\<lambda>m. sm_conversationId m = cid) list
         | None \<Rightarrow> list)"

definition saveScheduledMessage :: "ident \<Rightarrow> scheduled_item \<Rightarrow> client \<Rightarrow> client" where
  "saveScheduledMessage userId item c =
     idbSet (scheduled_key userId)
       (V_Scheduled (filter (\<lambda>m. sm_id m \<noteq> sm_id item) (getScheduledMessages userId None c) @ [item])) c"

definition removeScheduledMessage :: "ident \<Rightarrow> ident \<Rightarrow> client \<Rightarrow> client" where
  "removeScheduledMessage userId mid c =
     idbSet (scheduled_key userId)
       (V_Scheduled (filter (\<lambda>m. sm_id m \<noteq> mid) (getScheduledMessages userId None c))) c"

definition getDueScheduledMessages :: "instant \<Rightarrow> ident \<Rightarrow> ident option \<Rightarrow> client \<Rightarrow> scheduled_item list" where
  "getDueScheduledMessages now userId conversationId c =
     filter (\<lambda>m. sm_scheduledFor m \<le> now) (getScheduledMessages userId conversationId c)"

section \<open>roomStorage.ts\<close>

definition room_key_name :: "ident \<Rightarrow> ident \<Rightarrow> nat \<Rightarrow> string" where
  "room_key_name uid roomId keyEpoch = key2 ''roomKey:'' uid (key2 '''' roomId (decimal keyEpoch))"

definition saveRoomKey :: "ident \<Rightarrow> nat \<Rightarrow> bytes \<Rightarrow> ident option \<Rightarrow> client \<Rightarrow> client" where
  "saveRoomKey roomId keyEpoch roomKey explicit c =
     snd (as_user explicit () (\<lambda>uid c.
       ((), idbSet (room_key_name uid roomId keyEpoch) (V_Text (bytesToBase64 roomKey)) c)) c)"

text \<open>An empty text counts as no text.\<close>

definition as_filled :: "js_value \<Rightarrow> string option" where
  "as_filled v = given (as_text v)"

definition loadRoomKey :: "ident \<Rightarrow> nat \<Rightarrow> ident option \<Rightarrow> client \<Rightarrow> bytes option \<times> client" where
  "loadRoomKey roomId keyEpoch explicit = as_user explicit None (\<lambda>uid c.
     case read_migrating as_filled V_Text (room_key_name uid roomId keyEpoch)
            [key2 ''roomKey:'' roomId (decimal keyEpoch)] c of
       (r, c') \<Rightarrow> (Option.bind r base64ToBytes, c'))"

section \<open>chatLockState.ts\<close>

definition hidden_key :: "ident option \<Rightarrow> string" where
  "hidden_key userId = (case given userId of Some u \<Rightarrow> key1 ''hiddenChats:'' u | None \<Rightarrow> ''hiddenChats:default'')"

definition locked_key :: "ident option \<Rightarrow> string" where
  "locked_key userId =
     (case given userId of Some u \<Rightarrow> key2 ''chatLock:'' u ''lockedList'' | None \<Rightarrow> ''chatLock:default:lockedList'')"

definition getHiddenChatIds :: "ident option \<Rightarrow> client \<Rightarrow> ident list" where
  "getHiddenChatIds userId c = or_empty (idbGet as_ids (hidden_key userId) c)"

definition hideChat :: "ident \<Rightarrow> ident option \<Rightarrow> client \<Rightarrow> client" where
  "hideChat conversationId userId c =
     (let current = getHiddenChatIds userId c
      in if conversationId \<in> set current then c
         else idbSet (hidden_key userId) (V_Ids (current @ [conversationId])) c)"

definition unhideChat :: "ident \<Rightarrow> ident option \<Rightarrow> client \<Rightarrow> client" where
  "unhideChat conversationId userId c =
     idbSet (hidden_key userId) (V_Ids (filter (\<lambda>i. i \<noteq> conversationId) (getHiddenChatIds userId c))) c"

definition isChatHidden :: "ident \<Rightarrow> ident option \<Rightarrow> client \<Rightarrow> bool" where
  "isChatHidden conversationId userId c \<longleftrightarrow> conversationId \<in> set (getHiddenChatIds userId c)"

text \<open>A list without repetitions, in the order of first occurrence, as \<open>new Set\<close> keeps it.\<close>

definition js_set :: "'a list \<Rightarrow> 'a list" where
  "js_set xs = rev (remdups (rev xs))"

definition getLockedChatIds :: "ident option \<Rightarrow> client \<Rightarrow> ident list \<times> client" where
  "getLockedChatIds userId c =
     (let userList = or_empty (idbGet as_ids (locked_key userId) c)
      in case given userId of
           None \<Rightarrow> (userList, c)
         | Some _ \<Rightarrow>
             (case or_empty (idbGet as_ids ''chatLock:default:lockedList'' c) of
                [] \<Rightarrow> (userList, c)
              | defaultList \<Rightarrow>
                  let merged = js_set (userList @ defaultList)
                  in (merged, idbSet (locked_key userId) (V_Ids merged) c)))"

definition unlocked_name :: "ident \<Rightarrow> string" where
  "unlocked_name conversationId = key1 ''chatLock:unlocked:'' conversationId"

definition isChatSessionUnlocked :: "ident \<Rightarrow> client \<Rightarrow> bool" where
  "isChatSessionUnlocked conversationId c \<longleftrightarrow>
     conversationId \<in> cl_unlocked c \<or> cl_tab c (unlocked_name conversationId) = Some ''true''"

definition setChatSessionUnlocked :: "ident \<Rightarrow> bool \<Rightarrow> client \<Rightarrow> client" where
  "setChatSessionUnlocked conversationId unlocked c =
     (if unlocked
      then c\<lparr>cl_unlocked := insert conversationId (cl_unlocked c),
             cl_tab := (cl_tab c)(unlocked_name conversationId := Some ''true'')\<rparr>
      else c\<lparr>cl_unlocked := cl_unlocked c - {conversationId},
             cl_tab := (cl_tab c)(unlocked_name conversationId := None)\<rparr>)"

definition lockChat :: "ident \<Rightarrow> ident option \<Rightarrow> client \<Rightarrow> client" where
  "lockChat conversationId userId c =
     (case getLockedChatIds userId c of (current, c1) \<Rightarrow>
        let c2 = (if conversationId \<in> set current then c1
                  else idbSet (locked_key userId) (V_Ids (current @ [conversationId])) c1)
        in setChatSessionUnlocked conversationId False c2)"

definition unlockChatPermanently :: "ident \<Rightarrow> ident option \<Rightarrow> client \<Rightarrow> client" where
  "unlockChatPermanently conversationId userId c =
     (case getLockedChatIds userId c of (current, c1) \<Rightarrow>
        let c2 = idbSet (locked_key userId) (V_Ids (filter (\<lambda>i. i \<noteq> conversationId) current)) c1;
            c3 = (case given userId of
                    None \<Rightarrow> c2
                  | Some _ \<Rightarrow>
                      let defaultList = or_empty (idbGet as_ids ''chatLock:default:lockedList'' c2)
                      in if conversationId \<in> set defaultList
                         then idbSet ''chatLock:default:lockedList''
                                (V_Ids (filter (\<lambda>i. i \<noteq> conversationId) defaultList)) c2
                         else c2)
        in setChatSessionUnlocked conversationId False c3)"

definition isChatLocked :: "ident \<Rightarrow> ident option \<Rightarrow> client \<Rightarrow> bool \<times> client" where
  "isChatLocked conversationId userId c =
     (case getLockedChatIds userId c of (current, c') \<Rightarrow> (conversationId \<in> set current, c'))"

definition clearAllSessionUnlocked :: "client \<Rightarrow> client" where
  "clearAllSessionUnlocked c =
     c\<lparr>cl_unlocked := {},
       cl_tab := (\<lambda>k. if starts_with ''chatLock:unlocked:'' k then None else cl_tab c k)\<rparr>"


section \<open>applock/state.ts\<close>

definition resolveUserId :: "ident option \<Rightarrow> client \<Rightarrow> ident option \<times> client" where
  "resolveUserId explicit c =
     (case given explicit of
        Some u \<Rightarrow> (Some u, c)
      | None \<Rightarrow>
          (case given (cl_activeLock c) of
             Some u \<Rightarrow> (Some u, c)
           | None \<Rightarrow>
               (case given (map_option au_userId (idbGet as_auth ''auth:session'' c)) of
                  Some u \<Rightarrow> (Some u, c\<lparr>cl_activeLock := Some u\<rparr>)
                | None \<Rightarrow> (None, c))))"

definition as_lock_user :: "ident option \<Rightarrow> 'a \<Rightarrow> (ident \<Rightarrow> client \<Rightarrow> 'a \<times> client) \<Rightarrow> client \<Rightarrow> 'a \<times> client" where
  "as_lock_user e d k c = (case resolveUserId e c of (None, c') \<Rightarrow> (d, c') | (Some uid, c') \<Rightarrow> k uid c')"

definition lock_key :: "ident \<Rightarrow> string \<Rightarrow> string" where
  "lock_key uid name = key2 ''appLock:'' uid name"

definition copy_if :: "string \<Rightarrow> js_value option \<Rightarrow> client \<Rightarrow> client" where
  "copy_if key v c = (case v of None \<Rightarrow> c | Some x \<Rightarrow> idbSet key x c)"

definition migrateLegacyKeysIfNeeded :: "ident \<Rightarrow> client \<Rightarrow> client" where
  "migrateLegacyKeysIfNeeded userId c =
     (case idbGet as_bool ''appLock:enabled'' c of
        None \<Rightarrow> c
      | Some legacyEnabled \<Rightarrow>
          if idbGet as_bool (lock_key userId ''enabled'') c \<noteq> None then c
          else
            let verifier = given (idbGet as_text ''appLock:verifier'' c);
                timeout = idbGet as_num ''appLock:timeoutSeconds'' c;
                locked = idbGet as_bool ''appLock:isLocked'' c;
                lastActiveAt = idbGet as_num ''appLock:lastActiveAt'' c
            in idbDelete ''appLock:lastActiveAt'' (idbDelete ''appLock:isLocked''
                 (idbDelete ''appLock:timeoutSeconds'' (idbDelete ''appLock:verifier'' (idbDelete ''appLock:enabled''
                 (copy_if (lock_key userId ''lastActiveAt'') (map_option V_Num lastActiveAt)
                 (copy_if (lock_key userId ''isLocked'') (map_option V_Bool locked)
                 (copy_if (lock_key userId ''timeoutSeconds'') (map_option V_Num timeout)
                 (copy_if (lock_key userId ''verifier'') (map_option V_Text verifier)
                 (idbSet (lock_key userId ''enabled'') (V_Bool legacyEnabled) c))))))))))"

definition isAppLockEnabled :: "ident option \<Rightarrow> client \<Rightarrow> bool \<times> client" where
  "isAppLockEnabled userId = as_lock_user userId False (\<lambda>uid c.
     let c' = migrateLegacyKeysIfNeeded uid c
     in (idbGet as_bool (lock_key uid ''enabled'') c' = Some True, c'))"

definition setAppLockEnabled :: "bool \<Rightarrow> ident option \<Rightarrow> client \<Rightarrow> client" where
  "setAppLockEnabled enabled userId c =
     snd (as_lock_user userId () (\<lambda>uid c.
       let c' = idbSet (lock_key uid ''enabled'') (V_Bool enabled) c
       in ((), if enabled then c' else idbSet (lock_key uid ''isLocked'') (V_Bool False) c')) c)"

definition isAppLocked :: "ident option \<Rightarrow> client \<Rightarrow> bool \<times> client" where
  "isAppLocked userId = as_lock_user userId False (\<lambda>uid c.
     (idbGet as_bool (lock_key uid ''isLocked'') c = Some True, c))"

definition setAppLocked :: "bool \<Rightarrow> ident option \<Rightarrow> client \<Rightarrow> client" where
  "setAppLocked locked userId c =
     snd (as_lock_user userId () (\<lambda>uid c. ((), idbSet (lock_key uid ''isLocked'') (V_Bool locked) c)) c)"

definition getAppLockTimeoutSeconds :: "ident option \<Rightarrow> client \<Rightarrow> int \<times> client" where
  "getAppLockTimeoutSeconds userId = as_lock_user userId 60 (\<lambda>uid c.
     (case idbGet as_num (lock_key uid ''timeoutSeconds'') c of Some t \<Rightarrow> t | None \<Rightarrow> 60, c))"

definition setAppLockTimeoutSeconds :: "int \<Rightarrow> ident option \<Rightarrow> client \<Rightarrow> client" where
  "setAppLockTimeoutSeconds seconds userId c =
     snd (as_lock_user userId () (\<lambda>uid c. ((), idbSet (lock_key uid ''timeoutSeconds'') (V_Num seconds) c)) c)"

definition getAppLockVerifier :: "ident option \<Rightarrow> client \<Rightarrow> string option \<times> client" where
  "getAppLockVerifier userId = as_lock_user userId None (\<lambda>uid c.
     let c' = migrateLegacyKeysIfNeeded uid c in (idbGet as_text (lock_key uid ''verifier'') c', c'))"

definition setAppLockVerifier :: "string \<Rightarrow> ident option \<Rightarrow> client \<Rightarrow> client" where
  "setAppLockVerifier verifier userId c =
     snd (as_lock_user userId () (\<lambda>uid c. ((), idbSet (lock_key uid ''verifier'') (V_Text verifier) c)) c)"

definition getLastActiveAt :: "ident option \<Rightarrow> client \<Rightarrow> instant \<times> client" where
  "getLastActiveAt userId = as_lock_user userId 0 (\<lambda>uid c.
     (case idbGet as_num (lock_key uid ''lastActiveAt'') c of Some t \<Rightarrow> t | None \<Rightarrow> 0, c))"

definition recordActivity :: "ident option \<Rightarrow> instant \<Rightarrow> client \<Rightarrow> client" where
  "recordActivity userId now c =
     snd (as_lock_user userId () (\<lambda>uid c. ((), idbSet (lock_key uid ''lastActiveAt'') (V_Num now) c)) c)"

definition clearUserAppLock :: "ident \<Rightarrow> client \<Rightarrow> client" where
  "clearUserAppLock userId c =
     fold (\<lambda>name. idbDelete (lock_key userId name))
       [''enabled'', ''verifier'', ''timeoutSeconds'', ''isLocked'', ''lastActiveAt''] c"

text \<open>An exception leaves the state as it was when it was thrown.\<close>

definition verifyAppLockPin :: "subtle \<Rightarrow> string \<Rightarrow> ident option \<Rightarrow> client \<Rightarrow> (string + bool) \<times> client" where
  "verifyAppLockPin S pin userId = as_lock_user userId (Inr False) (\<lambda>uid c.
     case getAppLockVerifier (Some uid) c of (verifier, c') \<Rightarrow> (checkLocalSecret S pin verifier, c'))"

text \<open>The answer of an operation of the lock settings: no error, or the error text.\<close>

definition changeAppLockPin :: "subtle \<Rightarrow> bytes \<Rightarrow> instant \<Rightarrow> string \<Rightarrow> string \<Rightarrow> ident option \<Rightarrow> client \<Rightarrow>
    (string + string option) \<times> client" where
  "changeAppLockPin S salt now currentPin newPin userId =
     as_lock_user userId (Inr (Some ''User session not found.'')) (\<lambda>uid c.
       case verifyAppLockPin S currentPin (Some uid) c of
         (Inl e, c1) \<Rightarrow> (Inl e, c1)
       | (Inr valid, c1) \<Rightarrow>
           if \<not> valid then (Inr (Some ''Current PIN is incorrect.''), c1)
           else if length newPin < 4 then (Inr (Some ''New PIN must be at least 4 digits.''), c1)
           else if currentPin = newPin
             then (Inr (Some ''New PIN must be different from current PIN.''), c1)
           else (Inr None, recordActivity (Some uid) now
                   (setAppLockVerifier (hashLocalSecret S salt newPin) (Some uid) c1)))"

definition disableAppLockWithPin :: "subtle \<Rightarrow> string \<Rightarrow> ident option \<Rightarrow> client \<Rightarrow>
    (string + string option) \<times> client" where
  "disableAppLockWithPin S currentPin userId =
     as_lock_user userId (Inr (Some ''User session not found.'')) (\<lambda>uid c.
       case verifyAppLockPin S currentPin (Some uid) c of
         (Inl e, c1) \<Rightarrow> (Inl e, c1)
       | (Inr valid, c1) \<Rightarrow>
           if \<not> valid then (Inr (Some ''Current PIN is incorrect.''), c1)
           else (Inr None, setAppLocked False (Some uid) (setAppLockEnabled False (Some uid) c1)))"

definition shouldBeLocked :: "bool \<Rightarrow> instant \<Rightarrow> ident option \<Rightarrow> int \<Rightarrow> client \<Rightarrow> bool \<times> client" where
  "shouldBeLocked isContextBoundary now userId gracePeriodMs = as_lock_user userId False (\<lambda>uid c.
     case isAppLockEnabled (Some uid) c of (enabled, c1) \<Rightarrow>
       if \<not> enabled then (False, c1)
       else if fst (isAppLocked (Some uid) c1) then (True, c1)
       else
         let timeoutSeconds = fst (getAppLockTimeoutSeconds (Some uid) c1);
             lastActiveAt = fst (getLastActiveAt (Some uid) c1)
         in if lastActiveAt \<le> 0 then (True, setAppLocked True (Some uid) c1)
            else if timeoutSeconds = 0
              then if isContextBoundary \<and> now - lastActiveAt \<ge> gracePeriodMs
                   then (True, setAppLocked True (Some uid) c1) else (False, c1)
            else if now - lastActiveAt \<ge> timeoutSeconds * 1000
              then (True, setAppLocked True (Some uid) c1) else (False, c1))"


definition triggerImmediateLock :: "ident option \<Rightarrow> client \<Rightarrow> client" where
  "triggerImmediateLock userId c = setAppLocked True userId c"

section \<open>Reading back\<close>

lemma kv_simps [simp]:
  "cl_kv (idbSet k v c) = (cl_kv c)(k := Some v)" "cl_kv (idbDelete k c) = (cl_kv c)(k := None)"
  "cl_tab (idbSet k v c) = cl_tab c" "cl_tab (idbDelete k c) = cl_tab c"
  "cl_unlocked (idbSet k v c) = cl_unlocked c" "cl_unlocked (idbDelete k c) = cl_unlocked c"
  "cl_activeCrypto (idbSet k v c) = cl_activeCrypto c" "cl_activeCrypto (idbDelete k c) = cl_activeCrypto c"
  "cl_activeLock (idbSet k v c) = cl_activeLock c" "cl_activeLock (idbDelete k c) = cl_activeLock c"
  by (simp_all add: idbSet_def idbDelete_def)

lemma idbGet_simps [simp]:
  "idbGet as k (idbSet k' v c) = (if k = k' then as v else idbGet as k c)"
  "idbGet as k (idbDelete k' c) = (if k = k' then None else idbGet as k c)"
  "idbGet as k (c\<lparr>cl_tab := t\<rparr>) = idbGet as k c" "idbGet as k (c\<lparr>cl_unlocked := s\<rparr>) = idbGet as k c"
  by (auto simp: idbGet_def)

lemma resolve_explicit [simp]:
  "u \<noteq> '''' \<Longrightarrow> resolveCryptoUserId (Some u) c = (Some u, c)" "u \<noteq> '''' \<Longrightarrow> resolveUserId (Some u) c = (Some u, c)"
  "u \<noteq> '''' \<Longrightarrow> as_user (Some u) d k c = k u c" "u \<noteq> '''' \<Longrightarrow> as_lock_user (Some u) e l c = l u c"
  by (simp_all add: resolveCryptoUserId_def resolveUserId_def as_user_def as_lock_user_def given_def)

lemma resolve_active [simp]:
  "cl_activeCrypto c = Some u \<Longrightarrow> u \<noteq> '''' \<Longrightarrow> resolveCryptoUserId None c = (Some u, c)"
  "cl_activeCrypto c = Some u \<Longrightarrow> u \<noteq> '''' \<Longrightarrow> as_user None d k c = k u c"
  by (simp_all add: resolveCryptoUserId_def as_user_def given_def)

section \<open>The keys of an account\<close>

text \<open>
  The keys an account writes, and the keys of earlier versions of the client,
  which belonged to whoever was signed in. Identifiers contain no colon.
\<close>

definition owned :: "ident \<Rightarrow> string \<Rightarrow> bool" where
  "owned u k \<longleftrightarrow>
     (\<exists>p \<in> {''crypto:ratchet:'', ''session:'', ''messages:'', ''messageCache:'', ''appLock:'', ''chatLock:''}.
        \<exists>x. CHR '':'' \<notin> set x \<and> k = key2 p u x) \<or>
     (\<exists>x y. CHR '':'' \<notin> set x \<and> k = key2 ''roomKey:'' u (key2 '''' x y)) \<or>
     (\<exists>p \<in> {''outbox:'', ''scheduled_messages:'', ''hiddenChats:'', ''crypto:identity:''}. k = key1 p u)"

definition legacy :: "string \<Rightarrow> bool" where
  "legacy k \<longleftrightarrow>
     (\<exists>p \<in> {''session:'', ''messageCache:'', ''appLock:''}. \<exists>x. CHR '':'' \<notin> set x \<and> k = key1 p x) \<or>
     (\<exists>x y. CHR '':'' \<notin> set x \<and> CHR '':'' \<notin> set y \<and> k = key2 ''roomKey:'' x y) \<or>
     k \<in> {''crypto:identity'', ''chatLock:default:lockedList'', ''hiddenChats:default''}"

definition plain_id :: "ident \<Rightarrow> bool" where
  "plain_id u \<longleftrightarrow> u \<noteq> '''' \<and> CHR '':'' \<notin> set u \<and> u \<noteq> ''default''"

definition settled :: "client \<Rightarrow> bool" where
  "settled c \<longleftrightarrow> (\<forall>k. legacy k \<longrightarrow> cl_kv c k = None)"

lemma colon_inject:
  "CHR '':'' \<notin> set u \<Longrightarrow> CHR '':'' \<notin> set v \<Longrightarrow> u @ CHR '':'' # x = v @ CHR '':'' # y \<longleftrightarrow> u = v \<and> x = y"
proof (induction u arbitrary: v)
  case Nil
  then show ?case by (cases v) auto
next
  case (Cons a u)
  then show ?case by (cases v) auto
qed

lemma colon_free: "CHR '':'' \<notin> set v \<Longrightarrow> u @ CHR '':'' # x \<noteq> v" "CHR '':'' \<notin> set v \<Longrightarrow> v \<noteq> u @ CHR '':'' # x"
  by auto

lemma owned_unique:
  assumes "owned u k" "owned v k" "plain_id u" "plain_id v"
  shows "u = v"
  using assms unfolding owned_def plain_id_def key1_def key2_def by (auto simp: colon_inject dest: colon_free)

lemma owned_not_legacy:
  assumes "owned u k" "plain_id u"
  shows "\<not> legacy k"
  using assms colon_inject [of u "''default''" _ "''lockedList''"]
  unfolding owned_def legacy_def plain_id_def key1_def key2_def by (auto simp: colon_inject dest: colon_free)


definition confined :: "ident \<Rightarrow> client \<Rightarrow> client \<Rightarrow> bool" where
  "confined u c c' \<longleftrightarrow> (\<forall>k. cl_kv c' k \<noteq> cl_kv c k \<longrightarrow> owned u k)"

lemma confined_refl [simp]: "confined u c c"
  by (simp add: confined_def)

lemma confined_trans: "confined u a b \<Longrightarrow> confined u b c \<Longrightarrow> confined u a c"
  unfolding confined_def by metis

lemma confined_write [simp]:
  "owned u k \<Longrightarrow> confined u c (idbSet k v c') \<longleftrightarrow> confined u c c'"
  "owned u k \<Longrightarrow> confined u c (idbDelete k c') \<longleftrightarrow> confined u c c'"
  by (auto simp: confined_def)

lemma confined_fields [simp]:
  "confined u c (c'\<lparr>cl_tab := t\<rparr>) = confined u c c'" "confined u c (c'\<lparr>cl_unlocked := s\<rparr>) = confined u c c'"
  "confined u c (c'\<lparr>cl_tab := t, cl_unlocked := s\<rparr>) = confined u c c'"
  by (simp_all add: confined_def)

lemma confined_settled: "confined u c c' \<Longrightarrow> plain_id u \<Longrightarrow> settled c \<Longrightarrow> settled c'"
  unfolding confined_def settled_def using owned_not_legacy by metis

text \<open>Deleting a key that is already absent changes nothing.\<close>

lemma idbDelete_absent: "cl_kv c k = None \<Longrightarrow> idbDelete k c = c"
  by (simp add: idbDelete_def fun_upd_idem)

lemma owned_keys [simp]:
  assumes "CHR '':'' \<notin> set x"
  shows "owned u (session_key u x)" "owned u (messages_key u x)" "owned u (key2 ''session:'' u x)"
    "owned u (key2 ''messageCache:'' u x)" "owned u (lock_key u x)" "owned u (room_key_name u x n)"
    "owned u (key2 ''chatLock:'' u x)"
  using assms unfolding owned_def session_key_def messages_key_def lock_key_def room_key_name_def by auto

lemma owned_lists [simp]:
  "owned u (outbox_key u)" "owned u (scheduled_key u)" "u \<noteq> '''' \<Longrightarrow> owned u (hidden_key (Some u))"
  "owned u (key1 ''crypto:identity:'' u)"
  unfolding owned_def outbox_key_def scheduled_key_def hidden_key_def given_def by auto

lemma owned_locked [simp]: "u \<noteq> '''' \<Longrightarrow> owned u (locked_key (Some u))"
  by (simp add: locked_key_def given_def)

lemma legacy_keys [simp]:
  assumes "CHR '':'' \<notin> set x"
  shows "legacy (key1 ''session:'' x)" "legacy (key1 ''messageCache:'' x)" "legacy (key1 ''appLock:'' x)"
    "CHR '':'' \<notin> set y \<Longrightarrow> legacy (key2 ''roomKey:'' x y)"
  using assms unfolding legacy_def by auto

lemma legacy_fixed [simp]:
  "legacy ''crypto:identity''" "legacy ''chatLock:default:lockedList''" "legacy ''hiddenChats:default''"
  by (simp_all add: legacy_def)

lemma settledD: "settled c \<Longrightarrow> legacy k \<Longrightarrow> cl_kv c k = None"
  by (simp add: settled_def)

lemma settled_get: "settled c \<Longrightarrow> legacy k \<Longrightarrow> idbGet as k c = None"
  by (simp add: settled_def idbGet_def)


section \<open>Accounts on one device do not see each other\<close>

datatype device_op =
    Op_Load_Session ident | Op_Save_Session ident stored_session | Op_Drop_Session ident
  | Op_Cached ident | Op_Append cached_message | Op_Update ident ident "cached_message \<Rightarrow> cached_message"
  | Op_Remove ident ident | Op_Clear ident
  | Op_Enqueue outbox_item | Op_Dequeue ident | Op_Clear_Outbox
  | Op_Schedule scheduled_item | Op_Unschedule ident
  | Op_Save_Room_Key ident nat bytes | Op_Load_Room_Key ident nat
  | Op_Hide ident | Op_Unhide ident | Op_Lock ident | Op_Unlock ident
  | Op_App_Lock bool | Op_App_Enabled bool | Op_App_Timeout int | Op_App_Verifier string | Op_Activity instant

fun run_op :: "ident \<Rightarrow> device_op \<Rightarrow> client \<Rightarrow> client" where
  "run_op u (Op_Load_Session cid) c = snd (loadSession cid (Some u) c)"
| "run_op u (Op_Save_Session cid s) c = saveSession cid s (Some u) c"
| "run_op u (Op_Drop_Session cid) c = deleteSession cid (Some u) c"
| "run_op u (Op_Cached cid) c = snd (getCachedMessages cid (Some u) c)"
| "run_op u (Op_Append m) c = appendCachedMessage m (Some u) c"
| "run_op u (Op_Update cid mid f) c = updateCachedMessage cid mid f (Some u) c"
| "run_op u (Op_Remove cid mid) c = removeCachedMessage cid mid (Some u) c"
| "run_op u (Op_Clear cid) c = clearCachedMessages cid (Some u) c"
| "run_op u (Op_Enqueue i) c = enqueueOutboxItem u i c"
| "run_op u (Op_Dequeue i) c = removeOutboxItem u i c"
| "run_op u Op_Clear_Outbox c = clearOutbox u c"
| "run_op u (Op_Schedule i) c = saveScheduledMessage u i c"
| "run_op u (Op_Unschedule i) c = removeScheduledMessage u i c"
| "run_op u (Op_Save_Room_Key r n k) c = saveRoomKey r n k (Some u) c"
| "run_op u (Op_Load_Room_Key r n) c = snd (loadRoomKey r n (Some u) c)"
| "run_op u (Op_Hide cid) c = hideChat cid (Some u) c"
| "run_op u (Op_Unhide cid) c = unhideChat cid (Some u) c"
| "run_op u (Op_Lock cid) c = lockChat cid (Some u) c"
| "run_op u (Op_Unlock cid) c = unlockChatPermanently cid (Some u) c"
| "run_op u (Op_App_Lock b) c = setAppLocked b (Some u) c"
| "run_op u (Op_App_Enabled b) c = setAppLockEnabled b (Some u) c"
| "run_op u (Op_App_Timeout t) c = setAppLockTimeoutSeconds t (Some u) c"
| "run_op u (Op_App_Verifier v) c = setAppLockVerifier v (Some u) c"
| "run_op u (Op_Activity t) c = recordActivity (Some u) t c"

fun op_ids :: "device_op \<Rightarrow> ident list" where
  "op_ids (Op_Load_Session cid) = [cid]" | "op_ids (Op_Save_Session cid s) = [cid]"
| "op_ids (Op_Drop_Session cid) = [cid]" | "op_ids (Op_Cached cid) = [cid]"
| "op_ids (Op_Append m) = [cm_conversationId m]" | "op_ids (Op_Update cid mid f) = [cid]"
| "op_ids (Op_Remove cid mid) = [cid]" | "op_ids (Op_Clear cid) = [cid]"
| "op_ids (Op_Save_Room_Key r n k) = [r]" | "op_ids (Op_Load_Room_Key r n) = [r]"
| "op_ids _ = []"

lemma legacy_more [simp]:
  "CHR '':'' \<notin> set x \<Longrightarrow> legacy (key2 ''roomKey:'' x (decimal n))" "legacy ''appLock:enabled''"
proof -
  have "CHR '':'' \<notin> set (decimal n)" using decimal_digits [of n] by (auto simp: list_all_iff digit_def in_range_def)
  then show "CHR '':'' \<notin> set x \<Longrightarrow> legacy (key2 ''roomKey:'' x (decimal n))" by (rule legacy_keys(4) [rotated])
  show "legacy ''appLock:enabled''" using legacy_keys(3) [of "''enabled''"] by (simp add: key1_def)
qed

lemma or_empty_simps [simp]: "or_empty None = []" "or_empty (Some xs) = xs"
  by (simp_all add: or_empty_def)

lemma read_migrating_confined:
  assumes "owned u primary" "\<forall>k \<in> set olds. owned u k \<or> (legacy k \<and> settled c)"
  shows "confined u c (snd (read_migrating as mk primary olds c))"
  using assms(2)
proof (induction olds)
  case Nil
  then show ?case by (simp add: read_migrating_def split: option.splits)
next
  case (Cons k ks)
  then show ?case using assms(1)
    by (auto simp: read_migrating_def settled_get split: option.splits)
qed

lemmas store_defs = saveSession_def deleteSession_def appendCachedMessage_def updateCachedMessage_def
  removeCachedMessage_def clearCachedMessages_def enqueueOutboxItem_def removeOutboxItem_def clearOutbox_def
  saveScheduledMessage_def removeScheduledMessage_def saveRoomKey_def hideChat_def unhideChat_def lockChat_def
  unlockChatPermanently_def setAppLocked_def setAppLockEnabled_def setAppLockTimeoutSeconds_def
  setAppLockVerifier_def recordActivity_def setChatSessionUnlocked_def

lemma getCachedMessages_confined:
  assumes "settled c" "u \<noteq> ''''" "CHR '':'' \<notin> set cid"
  shows "confined u c (snd (getCachedMessages cid (Some u) c))"
proof -
  have "confined u c (snd (read_migrating as_messages V_Messages (messages_key u cid)
      [key2 ''messageCache:'' u cid, key1 ''messageCache:'' cid] c))"
    by (rule read_migrating_confined) (use assms in simp_all)
  then show ?thesis using assms(2) by (simp add: getCachedMessages_def case_prod_unfold)
qed

lemma getLockedChatIds_settled:
  "settled c \<Longrightarrow> u \<noteq> '''' \<Longrightarrow> getLockedChatIds (Some u) c = (or_empty (idbGet as_ids (locked_key (Some u)) c), c)"
  by (simp add: getLockedChatIds_def given_def settled_get Let_def)

lemma run_op_confined:
  assumes "settled c" "plain_id u" "\<forall>i \<in> set (op_ids p). CHR '':'' \<notin> set i"
  shows "confined u c (run_op u p c)"
proof -
  have u: "u \<noteq> ''''" using assms(2) by (simp add: plain_id_def)
  note cached = getCachedMessages_confined [OF assms(1) u]
  show ?thesis
  proof (cases p)
    case (Op_Load_Session cid)
    then show ?thesis using u assms read_migrating_confined [of u "session_key u cid"
          "[key2 ''session:'' u cid, key1 ''session:'' cid]" c as_session V_Session]
      by (simp add: loadSession_def)
  next
    case (Op_Drop_Session cid)
    then have "cl_kv c (key1 ''session:'' cid) = None" using assms by (simp add: settledD)
    moreover have "key1 ''session:'' cid \<noteq> key2 ''session:'' u cid" "key1 ''session:'' cid \<noteq> session_key u cid"
      using Op_Drop_Session assms by (auto simp: session_key_def key1_def key2_def dest: colon_free)
    ultimately have "deleteSession cid (Some u) c = idbDelete (key2 ''session:'' u cid) (idbDelete (session_key u cid) c)"
      using u by (simp add: deleteSession_def idbDelete_absent)
    then show ?thesis using Op_Drop_Session assms by simp
  next
    case (Op_Clear cid)
    then have "cl_kv c (key1 ''messageCache:'' cid) = None" using assms by (simp add: settledD)
    moreover have "key1 ''messageCache:'' cid \<noteq> key2 ''messageCache:'' u cid" "key1 ''messageCache:'' cid \<noteq> messages_key u cid"
      using Op_Clear assms by (auto simp: messages_key_def key1_def key2_def dest: colon_free)
    ultimately have "clearCachedMessages cid (Some u) c =
        idbDelete (key2 ''messageCache:'' u cid) (idbSet (messages_key u cid) (V_Messages []) c)"
      using u by (simp add: clearCachedMessages_def idbDelete_absent)
    then show ?thesis using Op_Clear assms by simp
  next
    case (Op_Load_Room_Key r n)
    then show ?thesis using u assms read_migrating_confined [of u "room_key_name u r n"
          "[key2 ''roomKey:'' r (decimal n)]" c as_filled V_Text]
      by (simp add: loadRoomKey_def case_prod_unfold)
  next
    case (Op_Unlock cid)
    then show ?thesis using u assms
      by (simp add: unlockChatPermanently_def getLockedChatIds_settled given_def settled_get Let_def
          setChatSessionUnlocked_def locked_key_def)
  qed (use u assms cached in \<open>simp_all add: store_defs getLockedChatIds_settled Let_def case_prod_unfold\<close>)
qed


lemma run_ops_confined:
  assumes "settled c" "plain_id u" "\<forall>p \<in> set ops. \<forall>i \<in> set (op_ids p). CHR '':'' \<notin> set i"
  shows "confined u c (fold (run_op u) ops c) \<and> settled (fold (run_op u) ops c)"
  using assms(1,3)
proof (induction ops arbitrary: c)
  case Nil
  then show ?case by simp
next
  case (Cons p ops)
  have one: "confined u c (run_op u p c)" using Cons.prems assms(2) by (intro run_op_confined) auto
  then have "settled (run_op u p c)" using Cons.prems(1) assms(2) confined_settled by blast
  then show ?case using Cons.IH [of "run_op u p c"] Cons.prems(2) one confined_trans by auto
qed

text \<open>What an account reads depends on its own keys only.\<close>

definition same_for :: "ident \<Rightarrow> client \<Rightarrow> client \<Rightarrow> bool" where
  "same_for v c c' \<longleftrightarrow> settled c \<and> settled c' \<and> (\<forall>k. owned v k \<longrightarrow> cl_kv c' k = cl_kv c k)"

lemma same_get: "same_for v c c' \<Longrightarrow> owned v k \<or> legacy k \<Longrightarrow> idbGet as k c' = idbGet as k c"
  by (auto simp: same_for_def settled_def idbGet_def)

lemma same_migrating:
  assumes "same_for v c c'" "owned v primary" "\<forall>k \<in> set olds. owned v k \<or> legacy k"
  shows "fst (read_migrating as mk primary olds c') = fst (read_migrating as mk primary olds c)"
proof -
  have "fst (take_over as mk primary olds c') = fst (take_over as mk primary olds c)"
    using assms(3) by (induction olds) (auto simp: same_get [OF assms(1)] split: option.splits)
  then show ?thesis using assms(2) by (auto simp: read_migrating_def same_get [OF assms(1)] split: option.splits)
qed

lemma same_reads:
  assumes same: "same_for v c c'" and v: "plain_id v" and cid: "CHR '':'' \<notin> set cid"
  shows "fst (loadSession cid (Some v) c') = fst (loadSession cid (Some v) c)"
    "fst (getCachedMessages cid (Some v) c') = fst (getCachedMessages cid (Some v) c)"
    "fst (loadRoomKey cid n (Some v) c') = fst (loadRoomKey cid n (Some v) c)"
    "getOutboxItems v None c' = getOutboxItems v None c"
    "getScheduledMessages v None c' = getScheduledMessages v None c"
    "getHiddenChatIds (Some v) c' = getHiddenChatIds (Some v) c"
    "fst (getLockedChatIds (Some v) c') = fst (getLockedChatIds (Some v) c)"
    "fst (isAppLocked (Some v) c') = fst (isAppLocked (Some v) c)"
proof -
  have ne: "v \<noteq> ''''" using v by (simp add: plain_id_def)
  have s: "settled c" "settled c'" using same by (auto simp: same_for_def)
  note mig = same_migrating [OF same]
  show "fst (loadSession cid (Some v) c') = fst (loadSession cid (Some v) c)"
    using ne cid by (simp add: loadSession_def mig)
  show "fst (getCachedMessages cid (Some v) c') = fst (getCachedMessages cid (Some v) c)"
    using ne cid by (simp add: getCachedMessages_def case_prod_unfold mig)
  show "fst (loadRoomKey cid n (Some v) c') = fst (loadRoomKey cid n (Some v) c)"
    using ne cid by (simp add: loadRoomKey_def case_prod_unfold mig)
  show "getOutboxItems v None c' = getOutboxItems v None c"
    "getScheduledMessages v None c' = getScheduledMessages v None c"
    by (simp_all add: getOutboxItems_def getScheduledMessages_def same_get [OF same])
  show "getHiddenChatIds (Some v) c' = getHiddenChatIds (Some v) c"
    "fst (getLockedChatIds (Some v) c') = fst (getLockedChatIds (Some v) c)"
    using ne s by (simp_all add: getHiddenChatIds_def getLockedChatIds_settled same_get [OF same])
  show "fst (isAppLocked (Some v) c') = fst (isAppLocked (Some v) c)"
    using ne by (simp add: isAppLocked_def same_get [OF same])
qed


definition empty_client :: client where
  "empty_client = \<lparr>cl_kv = (\<lambda>_. None), cl_tab = (\<lambda>_. None), cl_activeCrypto = None, cl_activeLock = None, cl_unlocked = {}\<rparr>"

definition some_session :: stored_session where
  "some_session = \<lparr>ss_sendingChainKey = ''a'', ss_receivingChainKey = ''b'', ss_sendStep = 0, ss_recvStep = 0,
     ss_lastSyncedSeq = 0, ss_epoch = 1\<rparr>"



lemma legacy_messages_inherited:
  assumes "v \<noteq> ''''" "idbGet as_messages (messages_key v cid) c = None"
    "idbGet as_messages (key2 ''messageCache:'' v cid) c = None"
    "idbGet as_messages (key1 ''messageCache:'' cid) c = Some ms"
  shows "fst (getCachedMessages cid (Some v) c) = ms"
  using assms by (simp add: getCachedMessages_def read_migrating_def)

section \<open>Chat lock\<close>

lemma set_js_set [simp]: "set (js_set xs) = set xs"
  by (simp add: js_set_def)

lemma locked_key_distinct [simp]: "plain_id u \<Longrightarrow> locked_key (Some u) \<noteq> ''chatLock:default:lockedList''"
  "plain_id u \<Longrightarrow> ''chatLock:default:lockedList'' \<noteq> locked_key (Some u)"
  using colon_inject [of u "''default''" "''lockedList''" "''lockedList''"]
  by (auto simp: locked_key_def given_def key2_def plain_id_def)

lemma locked_set:
  assumes "plain_id u"
  shows "set (fst (getLockedChatIds (Some u) c)) =
      set (or_empty (idbGet as_ids (locked_key (Some u)) c)) \<union> set (or_empty (idbGet as_ids ''chatLock:default:lockedList'' c))"
    and "set (or_empty (idbGet as_ids (locked_key (Some u)) (snd (getLockedChatIds (Some u) c)))) =
      set (fst (getLockedChatIds (Some u) c))"
    and "idbGet as_ids ''chatLock:default:lockedList'' (snd (getLockedChatIds (Some u) c)) =
      idbGet as_ids ''chatLock:default:lockedList'' c"
  using assms by (auto simp: getLockedChatIds_def given_def plain_id_def Let_def split: list.splits)

lemma unlocked_name_inject [simp]: "unlocked_name a = unlocked_name b \<longleftrightarrow> a = b"
  by (simp add: unlocked_name_def key1_def)

text \<open>
  Locking a chat makes it locked and asks for the password at once, opening it
  for good removes the lock, also the one of the shared list of earlier versions,
  and neither changes what is locked otherwise.
\<close>

theorem chat_lock_lifecycle:
  assumes u: "plain_id u"
  defines "locked \<equiv> \<lambda>x c. fst (isChatLocked x (Some u) c)"
  shows "locked cid (lockChat cid (Some u) c) \<and> \<not> isChatSessionUnlocked cid (lockChat cid (Some u) c) \<and>
    \<not> locked cid (unlockChatPermanently cid (Some u) c) \<and>
    (other \<noteq> cid \<longrightarrow>
       locked other (lockChat cid (Some u) c) = locked other c \<and>
       locked other (unlockChatPermanently cid (Some u) c) = locked other c \<and>
       isChatSessionUnlocked other (lockChat cid (Some u) c) = isChatSessionUnlocked other c)"
proof -
  have ne: "u \<noteq> ''''" using u by (simp add: plain_id_def)
  have l: "locked x c = (x \<in> set (or_empty (idbGet as_ids (locked_key (Some u)) c)) \<or>
      x \<in> set (or_empty (idbGet as_ids ''chatLock:default:lockedList'' c)))" for x c
    by (simp add: locked_def isChatLocked_def case_prod_unfold locked_set(1) [OF u])
  note m = locked_set [OF u, of c]
  have after: "set (or_empty (idbGet as_ids (locked_key (Some u)) (lockChat cid (Some u) c))) =
      insert cid (set (fst (getLockedChatIds (Some u) c)))"
    "idbGet as_ids ''chatLock:default:lockedList'' (lockChat cid (Some u) c) =
      idbGet as_ids ''chatLock:default:lockedList'' c"
    using u m by (auto simp: lockChat_def case_prod_unfold setChatSessionUnlocked_def Let_def)
  have gone: "set (or_empty (idbGet as_ids (locked_key (Some u)) (unlockChatPermanently cid (Some u) c))) =
      set (fst (getLockedChatIds (Some u) c)) - {cid}"
    "set (or_empty (idbGet as_ids ''chatLock:default:lockedList'' (unlockChatPermanently cid (Some u) c))) =
      set (or_empty (idbGet as_ids ''chatLock:default:lockedList'' c)) - {cid}"
    using u ne m by (auto simp: unlockChatPermanently_def case_prod_unfold setChatSessionUnlocked_def Let_def given_def)
  have tab: "isChatSessionUnlocked x (lockChat cid (Some u) c) = (x \<noteq> cid \<and> isChatSessionUnlocked x c)" for x
  proof -
    have "cl_tab (snd (getLockedChatIds (Some u) c)) = cl_tab c \<and>
        cl_unlocked (snd (getLockedChatIds (Some u) c)) = cl_unlocked c"
      using ne by (simp add: getLockedChatIds_def given_def Let_def split: list.splits)
    then show ?thesis
      by (auto simp: isChatSessionUnlocked_def lockChat_def case_prod_unfold setChatSessionUnlocked_def Let_def)
  qed
  show ?thesis using after gone m(1) by (auto simp: l tab)
qed

lemma chat_lock_lifecycle_witness:
  "fst (isChatLocked ''k'' (Some ''u'') (lockChat ''k'' (Some ''u'') empty_client))"
  using chat_lock_lifecycle [of "''u''" "''k''" empty_client "''k''"] by (simp add: plain_id_def)


section \<open>Lists keyed by an identifier\<close>

lemma id_in_image: "i \<in> f ` A \<longleftrightarrow> (\<exists>a \<in> A. f a = i)"
  by auto

text \<open>
  What the conversation page relies on of a stored list: adding appends a row unless
  its identifier is there already, removing removes the row of an identifier. The
  message cache and the outbox provide it. \<open>fits\<close> says which rows belong to the list.
\<close>

locale keyed_list =
  fixes contents :: "'s \<Rightarrow> 'r list" and rid :: "'r \<Rightarrow> ident" and fits :: "'r \<Rightarrow> bool"
    and add :: "'r \<Rightarrow> 's \<Rightarrow> 's" and rem :: "ident \<Rightarrow> 's \<Rightarrow> 's"
  assumes contents_add: "fits r \<Longrightarrow> contents (add r s) =
      (if rid r \<in> rid ` set (contents s) then contents s else contents s @ [r])"
    and contents_rem: "contents (rem i s) = filter (\<lambda>r. rid r \<noteq> i) (contents s)"
begin

definition unique :: "'s \<Rightarrow> bool" where
  "unique s \<longleftrightarrow> distinct (map rid (contents s))"

lemma unique_add: "fits r \<Longrightarrow> unique s \<Longrightarrow> unique (add r s)"
  by (simp add: unique_def contents_add)

lemma unique_rem: "unique s \<Longrightarrow> unique (rem i s)"
  by (simp add: unique_def contents_rem distinct_map_filter)

lemma add_twice: "fits r \<Longrightarrow> contents (add r (add r s)) = contents (add r s)"
  by (simp add: contents_add)

lemma rem_add: "fits r \<Longrightarrow> rid r \<notin> rid ` set (contents s) \<Longrightarrow> contents (rem (rid r) (add r s)) = contents s"
  by (auto simp: contents_add contents_rem filter_id_conv id_in_image)

lemma rem_absent: "i \<notin> rid ` set (contents (rem i s))"
  by (auto simp: contents_rem)

lemma rem_head: "unique s \<Longrightarrow> contents s = r # rs \<Longrightarrow> contents (rem (rid r) s) = rs"
  by (auto simp: unique_def contents_rem filter_id_conv id_in_image)

end

lemma hidden_old_keys [simp]:
  "key2 ''messageCache:'' u x \<noteq> messages_key w y" "CHR '':'' \<notin> set x \<Longrightarrow> key1 ''messageCache:'' x \<noteq> messages_key u y"
  "messages_key w y \<noteq> key2 ''messageCache:'' u x" "messages_key u y \<noteq> key1 ''messageCache:'' x"
  "session_key w y \<noteq> messages_key u x" "messages_key u x \<noteq> session_key w y"
  "session_key w y \<noteq> key2 ''messageCache:'' u x" "session_key w y \<noteq> key1 ''messageCache:'' x"
  "outbox_key w \<noteq> messages_key u x" "messages_key u x \<noteq> outbox_key w"
  "outbox_key w \<noteq> key2 ''messageCache:'' u x" "outbox_key w \<noteq> key1 ''messageCache:'' x"
  "outbox_key w \<noteq> session_key u x" "session_key u x \<noteq> outbox_key w"
  by (simp_all add: key1_def key2_def messages_key_def session_key_def outbox_key_def)

abbreviation cached :: "ident \<Rightarrow> ident \<Rightarrow> client \<Rightarrow> cached_message list" where
  "cached u cid c \<equiv> fst (getCachedMessages cid (Some u) c)"

lemma cached_read:
  assumes "u \<noteq> ''''"
  shows "cached u cid (snd (getCachedMessages cid (Some u) c)) = cached u cid c"
  using assms by (auto simp: getCachedMessages_def read_migrating_def case_prod_unfold split: option.splits)

lemma cached_write: "u \<noteq> '''' \<Longrightarrow> cached u cid (idbSet (messages_key u cid) (V_Messages ms) c) = ms"
  by (simp add: getCachedMessages_def read_migrating_def)

lemma cached_append:
  assumes "u \<noteq> ''''" "cm_conversationId m = cid"
  shows "cached u cid (appendCachedMessage m (Some u) c) =
    (if cm_id m \<in> cm_id ` set (cached u cid c) then cached u cid c else cached u cid c @ [m])"
  using assms cached_read [OF assms(1), of cid c] cached_write [OF assms(1)]
  by (simp add: appendCachedMessage_def case_prod_unfold id_in_image)

lemma cached_update:
  "u \<noteq> '''' \<Longrightarrow> cached u cid (updateCachedMessage cid mid f (Some u) c) =
     map (\<lambda>m. if cm_id m = mid then f m else m) (cached u cid c)"
  by (simp add: updateCachedMessage_def case_prod_unfold cached_write)

lemma cached_remove:
  "u \<noteq> '''' \<Longrightarrow> cached u cid (removeCachedMessage cid mid (Some u) c) = filter (\<lambda>m. cm_id m \<noteq> mid) (cached u cid c)"
  by (simp add: removeCachedMessage_def case_prod_unfold cached_write)

lemma cached_clear: "u \<noteq> '''' \<Longrightarrow> cached u cid (clearCachedMessages cid (Some u) c) = []"
  by (simp add: clearCachedMessages_def getCachedMessages_def read_migrating_def)

text \<open>Writes under other keys leave the cache alone.\<close>

lemma cached_other:
  assumes "u \<noteq> ''''" "k \<noteq> messages_key u cid" "k \<noteq> key2 ''messageCache:'' u cid" "k \<noteq> key1 ''messageCache:'' cid"
  shows "cached u cid (idbSet k v c) = cached u cid c"
  using assms by (auto simp: getCachedMessages_def read_migrating_def case_prod_unfold split: option.splits)

lemma cached_session [simp]: "u \<noteq> '''' \<Longrightarrow> cached u cid (saveSession x s (Some u) c) = cached u cid c"
  by (simp add: saveSession_def cached_other)

lemma cached_outbox [simp]:
  "u \<noteq> '''' \<Longrightarrow> cached u cid (enqueueOutboxItem w i c) = cached u cid c"
  "u \<noteq> '''' \<Longrightarrow> cached u cid (removeOutboxItem w j c) = cached u cid c"
  by (simp_all add: enqueueOutboxItem_def removeOutboxItem_def cached_other Let_def)

lemma outbox_enqueue:
  "u \<noteq> '''' \<Longrightarrow> getOutboxItems u None (enqueueOutboxItem u i c) =
     (if ob_id i \<in> ob_id ` set (getOutboxItems u None c) then getOutboxItems u None c else getOutboxItems u None c @ [i])"
  by (simp add: enqueueOutboxItem_def getOutboxItems_def given_def Let_def id_in_image)

lemma outbox_remove:
  "u \<noteq> '''' \<Longrightarrow> getOutboxItems u None (removeOutboxItem u i c) = filter (\<lambda>x. ob_id x \<noteq> i) (getOutboxItems u None c)"
  by (simp add: removeOutboxItem_def getOutboxItems_def given_def Let_def)

text \<open>The definitions of the client provide the interface, for an account and a conversation.\<close>

typedef account = "{u :: ident. u \<noteq> ''''}" morphisms account_id Account
  by (rule exI [of _ "''-''"]) simp

lemma account_id_ne [simp]: "account_id a \<noteq> ''''"
  using account_id [of a] by simp

lemma account_id_Account [simp]: "u \<noteq> '''' \<Longrightarrow> account_id (Account u) = u"
  by (simp add: Account_inverse)

interpretation message_cache: keyed_list "\<lambda>c. cached (account_id a) cid c" cm_id "\<lambda>m. cm_conversationId m = cid"
  "\<lambda>m. appendCachedMessage m (Some (account_id a))" "\<lambda>i. removeCachedMessage cid i (Some (account_id a))" for a cid
  by unfold_locales (simp_all add: cached_append cached_remove)

interpretation outbox: keyed_list "getOutboxItems (account_id a) None" ob_id "\<lambda>i. True"
  "enqueueOutboxItem (account_id a)" "removeOutboxItem (account_id a)" for a
  by unfold_locales (simp_all add: outbox_enqueue outbox_remove)

end
