(* ===== verification/AppLock.thy ===== *)
theory AppLock
  imports ClientStore
begin

text \<open>
  The app lock of the web client: the state machine of \<open>applock/lifecycle.ts\<close> over
  the storage of \<open>applock/state.ts\<close>, and the gate of \<open>AppLockGate.tsx\<close> that hides the
  application while the machine is locked. The record \<open>gate\<close> holds the machine, the
  state React last rendered and the device's store. A handler is one step: the
  browser delivers events one at a time, and between the awaits of a handler the
  code checks the state again.
\<close>

datatype lock_state = Disabled | Unlocked | Pending_Departure | Locked

record gate =
  gt_state :: lock_state
  gt_userId :: "ident option"
  gt_departureStartedAt :: instant
  gt_timer :: bool
  gt_shown :: lock_state
  gt_store :: client

definition gracePeriodMs :: int where
  "gracePeriodMs = 1500"

section \<open>The state machine\<close>

definition transition :: "lock_state \<Rightarrow> gate \<Rightarrow> gate" where
  "transition s g = (if gt_state g = s then g else g\<lparr>gt_state := s, gt_shown := s\<rparr>)"

definition clearDepartureTimer :: "gate \<Rightarrow> gate" where
  "clearDepartureTimer g = g\<lparr>gt_timer := False\<rparr>"

text \<open>\<open>await storage.setAppLocked(true, this.userId); this.transition('locked')\<close>\<close>

definition commit_lock :: "gate \<Rightarrow> gate" where
  "commit_lock g = transition Locked (g\<lparr>gt_store := setAppLocked True (gt_userId g) (gt_store g)\<rparr>)"

definition idle_too_long :: "instant \<Rightarrow> gate \<Rightarrow> bool" where
  "idle_too_long now g \<longleftrightarrow>
     (let timeout = fst (getAppLockTimeoutSeconds (gt_userId g) (gt_store g));
          lastActiveAt = fst (getLastActiveAt (gt_userId g) (gt_store g))
      in timeout > 0 \<and> lastActiveAt > 0 \<and> now - lastActiveAt \<ge> timeout * 1000)"

definition init :: "bool \<Rightarrow> ident option \<Rightarrow> instant \<Rightarrow> gate \<Rightarrow> gate" where
  "init isProtected userId now g =
     (let g1 = (clearDepartureTimer g)\<lparr>gt_userId := userId\<rparr>
      in if \<not> isProtected \<or> given userId = None then transition Disabled g1
         else case isAppLockEnabled userId (gt_store g1) of (enabled, c) \<Rightarrow>
           let g2 = g1\<lparr>gt_store := c\<rparr>
           in if \<not> enabled then transition Disabled g2
              else if fst (isAppLocked userId c) then transition Locked g2
              else
                let timeoutSeconds = fst (getAppLockTimeoutSeconds userId c);
                    lastActiveAt = fst (getLastActiveAt userId c);
                    elapsed = now - lastActiveAt
                in if lastActiveAt > 0 \<and>
                      (if timeoutSeconds = 0 then elapsed \<ge> gracePeriodMs else elapsed \<ge> timeoutSeconds * 1000)
                   then commit_lock g2
                   else transition Unlocked g2)"

definition handleDeparture :: "instant \<Rightarrow> gate \<Rightarrow> gate" where
  "handleDeparture now g =
     (if gt_state g \<noteq> Unlocked then g
      else case getAppLockTimeoutSeconds (gt_userId g) (gt_store g) of (timeout, c) \<Rightarrow>
        let g1 = g\<lparr>gt_store := c\<rparr>
        in if timeout = 0
           then (clearDepartureTimer (transition Pending_Departure (g1\<lparr>gt_departureStartedAt := now\<rparr>)))\<lparr>gt_timer := True\<rparr>
           else g1)"

definition departure_timer_fires :: "gate \<Rightarrow> gate" where
  "departure_timer_fires g =
     (let g1 = g\<lparr>gt_timer := False\<rparr> in if gt_state g1 = Pending_Departure then commit_lock g1 else g1)"

definition handleReturn :: "instant \<Rightarrow> gate \<Rightarrow> gate" where
  "handleReturn now g =
     (if gt_state g = Locked then g
      else if gt_state g = Pending_Departure
        then let g1 = clearDepartureTimer g
             in if now - gt_departureStartedAt g1 < gracePeriodMs then transition Unlocked g1 else commit_lock g1
      else if gt_state g = Unlocked \<and> given (gt_userId g) \<noteq> None \<and> idle_too_long now g then commit_lock g
      else g)"

definition handleUserActivity :: "instant \<Rightarrow> gate \<Rightarrow> gate" where
  "handleUserActivity now g =
     (if gt_state g = Unlocked \<and> given (gt_userId g) \<noteq> None
      then g\<lparr>gt_store := recordActivity (gt_userId g) now (gt_store g)\<rparr> else g)"

definition checkInactivity :: "instant \<Rightarrow> gate \<Rightarrow> gate" where
  "checkInactivity now g =
     (if gt_state g = Unlocked \<and> given (gt_userId g) \<noteq> None \<and> idle_too_long now g then commit_lock g else g)"

text \<open>\<open>Inl\<close> is the exception of a verifier that cannot be read.\<close>

definition attemptUnlock :: "subtle \<Rightarrow> string \<Rightarrow> instant \<Rightarrow> gate \<Rightarrow> (string + bool) \<times> gate" where
  "attemptUnlock S pin now g =
     (if gt_state g \<noteq> Locked then (Inr True, g)
      else case given (gt_userId g) of
        None \<Rightarrow> (Inr False, g)
      | Some u \<Rightarrow>
          (case getAppLockVerifier (Some u) (gt_store g) of (verifier, c) \<Rightarrow>
             let g1 = g\<lparr>gt_store := c\<rparr>
             in case checkLocalSecret S pin verifier of
                  Inl e \<Rightarrow> (Inl e, g1)
                | Inr False \<Rightarrow> (Inr False, g1)
                | Inr True \<Rightarrow>
                    (Inr True, transition Unlocked
                       (g1\<lparr>gt_store := recordActivity (Some u) now (setAppLocked False (Some u) c)\<rparr>))))"

definition handleLogout :: "gate \<Rightarrow> gate" where
  "handleLogout g =
     (let g1 = clearDepartureTimer g;
          g2 = (case given (gt_userId g1) of
                  None \<Rightarrow> g1
                | Some u \<Rightarrow>
                    (case isAppLockEnabled (Some u) (gt_store g1) of (enabled, c) \<Rightarrow>
                       g1\<lparr>gt_store := (if enabled then setAppLocked True (Some u) c else c)\<rparr>))
      in transition Disabled (g2\<lparr>gt_userId := None\<rparr>))"

definition handleLogin :: "ident \<Rightarrow> bool \<Rightarrow> instant \<Rightarrow> gate \<Rightarrow> gate" where
  "handleLogin newUserId isProtected now g = init isProtected (Some newUserId) now g"

definition lockNow :: "gate \<Rightarrow> gate" where
  "lockNow g =
     (let g1 = clearDepartureTimer g
      in if given (gt_userId g1) = None then g1 else commit_lock g1)"

section \<open>The gate\<close>

text \<open>
  The effect that runs when the user or the protection of the route changes, and the
  form that sets a PIN on a device that has none: it writes the store and the
  rendered state, not the machine.
\<close>

definition route_changed :: "bool \<Rightarrow> ident option \<Rightarrow> instant \<Rightarrow> gate \<Rightarrow> gate" where
  "route_changed isProtected userId now g =
     (let g1 = init isProtected userId now (g\<lparr>gt_store := (gt_store g)\<lparr>cl_activeLock := userId\<rparr>\<rparr>)
      in g1\<lparr>gt_shown := gt_state g1\<rparr>)"

definition handleSetupDevicePin ::
  "subtle \<Rightarrow> bytes \<Rightarrow> string \<Rightarrow> string \<Rightarrow> ident option \<Rightarrow> instant \<Rightarrow> gate \<Rightarrow> string option \<times> gate" where
  "handleSetupDevicePin S salt setupPin confirmPin userId now g =
     (if length setupPin < 4 then (Some ''PIN must be at least 4 digits.'', g)
      else if setupPin \<noteq> confirmPin then (Some ''PINs do not match.'', g)
      else case given userId of
        None \<Rightarrow> (None, g)
      | Some u \<Rightarrow>
          (None, g\<lparr>gt_store := recordActivity (Some u) now (setAppLocked False (Some u)
                     (setAppLockVerifier (hashLocalSecret S salt setupPin) (Some u) (gt_store g))),
                   gt_shown := Unlocked\<rparr>))"

text \<open>\<open>settings/page.tsx\<close>: switching the lock on, and the button that locks at once.\<close>

definition enable_app_lock :: "subtle \<Rightarrow> bytes \<Rightarrow> string \<Rightarrow> int \<Rightarrow> ident \<Rightarrow> instant \<Rightarrow> gate \<Rightarrow> gate" where
  "enable_app_lock S salt pin appLockTimeout userId now g =
     g\<lparr>gt_store := recordActivity (Some userId) now (setAppLocked False (Some userId)
         (setAppLockTimeoutSeconds appLockTimeout (Some userId) (setAppLockEnabled True (Some userId)
           (setAppLockVerifier (hashLocalSecret S salt pin) (Some userId) (gt_store g)))))\<rparr>"

definition lock_button :: "ident option \<Rightarrow> gate \<Rightarrow> gate" where
  "lock_button userId g =
     (let c = triggerImmediateLock userId (gt_store g); g1 = g\<lparr>gt_store := c\<rparr>
      in if fst (resolveUserId userId c) = None then g1 else lockNow g1)"

section \<open>Steps\<close>

datatype lock_event =
    Ev_Route bool "ident option" instant
  | Ev_Departure instant
  | Ev_Timer
  | Ev_Return instant
  | Ev_Activity instant
  | Ev_Check instant
  | Ev_Unlock string instant
  | Ev_Lock_Now
  | Ev_Lock_Button "ident option"
  | Ev_Logout
  | Ev_Login ident bool instant

inductive lock_step :: "subtle \<Rightarrow> gate \<Rightarrow> lock_event \<Rightarrow> gate \<Rightarrow> bool" for S where
  route: "lock_step S g (Ev_Route p u now) (route_changed p u now g)"
| departure: "lock_step S g (Ev_Departure now) (handleDeparture now g)"
| timer: "gt_timer g \<Longrightarrow> lock_step S g Ev_Timer (departure_timer_fires g)"
| return: "lock_step S g (Ev_Return now) (handleReturn now g)"
| activity: "lock_step S g (Ev_Activity now) (handleUserActivity now g)"
| check: "lock_step S g (Ev_Check now) (checkInactivity now g)"
| unlock: "lock_step S g (Ev_Unlock pin now) (snd (attemptUnlock S pin now g))"
| lock_now: "lock_step S g Ev_Lock_Now (lockNow g)"
| button: "lock_step S g (Ev_Lock_Button u) (lock_button u g)"
| logout: "lock_step S g Ev_Logout (handleLogout g)"
| login: "lock_step S g (Ev_Login u p now) (handleLogin u p now g)"

inductive lock_run :: "subtle \<Rightarrow> gate \<Rightarrow> lock_event list \<Rightarrow> gate \<Rightarrow> bool" for S where
  no_event: "lock_run S g [] g"
| next_event: "lock_step S g e g' \<Longrightarrow> lock_run S g' es g'' \<Longrightarrow> lock_run S g (e # es) g''"

inductive_cases lock_runE: "lock_run S g (e # es) g'"
inductive_simps lock_run_Nil [simp]: "lock_run S g [] g'"


section \<open>Only the PIN opens a locked device\<close>

lemma lock_key_inject [simp]:
  "CHR '':'' \<notin> set a \<Longrightarrow> CHR '':'' \<notin> set b \<Longrightarrow> lock_key x a = lock_key y b \<longleftrightarrow> x = y \<and> a = b"
  using colon_inject [of "rev a" "rev b" "rev x" "rev y"]
  by (auto simp: lock_key_def key2_def) (metis append.assoc append_Cons append_Nil rev.simps(2) rev_append rev_is_rev_conv)+

lemma lock_key_legacy [simp]:
  "lock_key u a \<noteq> ''appLock:enabled''" "''appLock:enabled'' \<noteq> lock_key u a"
  "lock_key u a \<noteq> ''appLock:verifier''" "''appLock:verifier'' \<noteq> lock_key u a"
  "lock_key u a \<noteq> ''appLock:timeoutSeconds''" "''appLock:timeoutSeconds'' \<noteq> lock_key u a"
  "lock_key u a \<noteq> ''appLock:isLocked''" "''appLock:isLocked'' \<noteq> lock_key u a"
  "lock_key u a \<noteq> ''appLock:lastActiveAt''" "''appLock:lastActiveAt'' \<noteq> lock_key u a"
  using colon_free [of "''enabled''" u a] colon_free [of "''verifier''" u a] colon_free [of "''timeoutSeconds''" u a] colon_free [of "''isLocked''" u a] colon_free [of "''lastActiveAt''" u a]
  by (simp_all add: lock_key_def key2_def)

text \<open>
  The device holds the PIN \<open>v\<close> of the user, and the lock is on and engaged in the
  store; the machine, if it is the user's, is not open.
\<close>

definition armed :: "ident \<Rightarrow> string \<Rightarrow> client \<Rightarrow> bool" where
  "armed u v c \<longleftrightarrow> cl_kv c (lock_key u ''enabled'') = Some (V_Bool True) \<and>
     cl_kv c (lock_key u ''isLocked'') = Some (V_Bool True) \<and> cl_kv c (lock_key u ''verifier'') = Some (V_Text v)"

definition sealed_gate :: "ident \<Rightarrow> string \<Rightarrow> gate \<Rightarrow> bool" where
  "sealed_gate u v g \<longleftrightarrow> armed u v (gt_store g) \<and> (gt_userId g = Some u \<longrightarrow> gt_state g \<in> {Locked, Disabled})"

lemma lock_key_lit [simp]:
  "lock_key x ''isLocked'' = lock_key u ''isLocked'' \<longleftrightarrow> x = u"
  "lock_key x ''isLocked'' \<noteq> lock_key u ''enabled''" "lock_key x ''isLocked'' \<noteq> lock_key u ''verifier''"
  "lock_key x ''lastActiveAt'' \<noteq> lock_key u ''enabled''" "lock_key x ''lastActiveAt'' \<noteq> lock_key u ''isLocked''"
  "lock_key x ''lastActiveAt'' \<noteq> lock_key u ''verifier''"
  "lock_key u ''enabled'' \<noteq> lock_key x ''isLocked''" "lock_key u ''verifier'' \<noteq> lock_key x ''isLocked''"
  "lock_key u ''enabled'' \<noteq> lock_key x ''lastActiveAt''" "lock_key u ''isLocked'' \<noteq> lock_key x ''lastActiveAt''"
  "lock_key u ''verifier'' \<noteq> lock_key x ''lastActiveAt''"
  by simp_all

lemma as_lock_user_cases:
  "as_lock_user e d k c = (case fst (resolveUserId e c) of None \<Rightarrow> (d, c)
     | Some u \<Rightarrow> k u (snd (resolveUserId e c)))"
proof -
  have "snd (resolveUserId e c) = c" if "fst (resolveUserId e c) = None"
    using that by (auto simp: resolveUserId_def split: option.splits)
  then show ?thesis by (auto simp: as_lock_user_def split: prod.splits option.splits)
qed

lemma resolve_kv [simp]: "cl_kv (snd (resolveUserId e c)) = cl_kv c"
  by (auto simp: resolveUserId_def split: option.splits)

lemma armed_resolve [simp]: "armed u v (snd (resolveUserId e c)) = armed u v c"
  by (simp add: armed_def)

lemma armed_setAppLocked [simp]: "armed u v c \<Longrightarrow> armed u v (setAppLocked True w c)"
  by (auto simp: setAppLocked_def as_lock_user_cases armed_def split: option.splits)

lemma armed_recordActivity [simp]: "armed u v c \<Longrightarrow> armed u v (recordActivity w now c)"
  by (auto simp: recordActivity_def as_lock_user_cases armed_def split: option.splits)

lemma armed_unlock_other:
  "armed u v c \<Longrightarrow> w \<noteq> u \<Longrightarrow> w \<noteq> '''' \<Longrightarrow> armed u v (setAppLocked False (Some w) c)"
  by (auto simp: setAppLocked_def armed_def)

lemma kv_readers [simp]:
  "cl_kv (snd (getAppLockTimeoutSeconds e c)) = cl_kv c" "cl_kv (snd (isAppLocked e c)) = cl_kv c"
  "cl_kv (snd (getLastActiveAt e c)) = cl_kv c"
  by (auto simp: getAppLockTimeoutSeconds_def isAppLocked_def getLastActiveAt_def as_lock_user_cases split: option.splits)

lemma armed_copy_if [simp]:
  "k \<notin> {lock_key u ''enabled'', lock_key u ''isLocked'', lock_key u ''verifier''} \<Longrightarrow>
     armed u v (copy_if k x c) = armed u v c"
  "k \<notin> {lock_key u ''enabled'', lock_key u ''isLocked'', lock_key u ''verifier''} \<Longrightarrow>
     armed u v (idbSet k y c) = armed u v c"
  "k \<notin> {lock_key u ''enabled'', lock_key u ''isLocked'', lock_key u ''verifier''} \<Longrightarrow>
     armed u v (idbDelete k c) = armed u v c"
  by (auto simp: armed_def copy_if_def split: option.splits)

text \<open>The migration leaves an armed user alone: another account takes its own keys.\<close>

lemma armed_migrate:
  assumes "armed u v c" "plain_id u"
  shows "armed u v (migrateLegacyKeysIfNeeded w c)"
proof (cases "w = u")
  case True
  then have "idbGet as_bool (lock_key w ''enabled'') c \<noteq> None" using assms by (simp add: armed_def idbGet_def)
  then show ?thesis using assms(1) by (simp add: migrateLegacyKeysIfNeeded_def split: option.splits)
next
  case False
  then show ?thesis using assms(1)
    by (simp add: migrateLegacyKeysIfNeeded_def Let_def split: option.splits)
qed

lemma armed_isAppLockEnabled [simp]:
  "armed u v c \<Longrightarrow> plain_id u \<Longrightarrow> armed u v (snd (isAppLockEnabled e c))"
  by (auto simp: isAppLockEnabled_def as_lock_user_cases Let_def armed_migrate split: option.splits)

lemma armed_getAppLockVerifier [simp]:
  "armed u v c \<Longrightarrow> plain_id u \<Longrightarrow> armed u v (snd (getAppLockVerifier e c))"
  by (auto simp: getAppLockVerifier_def as_lock_user_cases Let_def armed_migrate split: option.splits)

lemma armed_reads:
  assumes "armed u v c" "plain_id u"
  shows "fst (isAppLockEnabled (Some u) c)" "fst (isAppLocked (Some u) c)"
    "fst (getAppLockVerifier (Some u) c) = Some v"
proof -
  have ne: "u \<noteq> ''''" using assms(2) by (simp add: plain_id_def)
  have m: "armed u v (migrateLegacyKeysIfNeeded u c)" using armed_migrate [OF assms] .
  show "fst (isAppLockEnabled (Some u) c)" "fst (getAppLockVerifier (Some u) c) = Some v"
    using ne m by (simp_all add: isAppLockEnabled_def getAppLockVerifier_def Let_def armed_def idbGet_def)
  show "fst (isAppLocked (Some u) c)" using ne assms(1) by (simp add: isAppLocked_def armed_def idbGet_def)
qed


lemma transition_simps [simp]:
  "gt_store (transition s g) = gt_store g" "gt_userId (transition s g) = gt_userId g"
  "gt_state (transition s g) = s" "gt_timer (transition s g) = gt_timer g"
  "gt_departureStartedAt (transition s g) = gt_departureStartedAt g"
  by (simp_all add: transition_def)

lemma clear_simps [simp]:
  "gt_store (clearDepartureTimer g) = gt_store g" "gt_userId (clearDepartureTimer g) = gt_userId g"
  "gt_state (clearDepartureTimer g) = gt_state g" "gt_timer (clearDepartureTimer g) = False"
  "gt_departureStartedAt (clearDepartureTimer g) = gt_departureStartedAt g"
  by (simp_all add: clearDepartureTimer_def)

lemma commit_simps [simp]:
  "gt_state (commit_lock g) = Locked" "gt_userId (commit_lock g) = gt_userId g"
  "gt_store (commit_lock g) = setAppLocked True (gt_userId g) (gt_store g)"
  by (simp_all add: commit_lock_def)

text \<open>An event that does not carry the right PIN keeps the gate sealed.\<close>

definition opens_lock :: "subtle \<Rightarrow> string \<Rightarrow> lock_event \<Rightarrow> bool" where
  "opens_lock S v e \<longleftrightarrow> (case e of Ev_Unlock pin now \<Rightarrow> checkLocalSecret S pin (Some v) = Inr True | _ \<Rightarrow> False)"

lemma sealed_init:
  assumes "armed u v (gt_store g)" "plain_id u"
  shows "sealed_gate u v (init p w now g)"
proof (cases "w = Some u")
  case True
  have ne: "given (Some u) \<noteq> None" using assms(2) by (simp add: given_def plain_id_def)
  have "armed u v (snd (isAppLockEnabled (Some u) (gt_store g)))" using assms by simp
  moreover from this have "fst (isAppLocked (Some u) (snd (isAppLockEnabled (Some u) (gt_store g))))"
    by (rule armed_reads(2) [OF _ assms(2)])
  ultimately show ?thesis using True ne armed_reads(1) [OF assms] assms(1)
    by (simp add: init_def sealed_gate_def case_prod_unfold Let_def)
next
  case False
  have "armed u v (gt_store (init p w now g))"
    using assms by (simp add: init_def case_prod_unfold Let_def)
  moreover have "gt_userId (init p w now g) = w" by (simp add: init_def case_prod_unfold Let_def)
  ultimately show ?thesis using False by (simp add: sealed_gate_def)
qed

lemma sealed_unlock:
  assumes "sealed_gate u v g" "plain_id u" "checkLocalSecret S pin (Some v) \<noteq> Inr True"
  shows "sealed_gate u v (snd (attemptUnlock S pin now g))"
proof (cases "gt_state g = Locked \<and> given (gt_userId g) \<noteq> None")
  case False
  then show ?thesis using assms(1) by (auto simp: attemptUnlock_def)
next
  case True
  then obtain w where w: "gt_userId g = Some w" "given (Some w) = Some w" "w \<noteq> ''''"
    by (cases "gt_userId g") (auto simp: given_def split: if_splits)
  have a: "armed u v (gt_store g)" using assms(1) by (simp add: sealed_gate_def)
  show ?thesis
  proof (cases "w = u")
    case True
    then show ?thesis using assms a w armed_reads(3) [OF a assms(2)]
      by (auto simp: attemptUnlock_def sealed_gate_def case_prod_unfold Let_def split: sum.splits bool.splits)
  next
    case False
    then show ?thesis using assms(2) a w
      by (auto simp: attemptUnlock_def sealed_gate_def case_prod_unfold Let_def armed_unlock_other
          split: sum.splits bool.splits)
  qed
qed

lemma sealed_step:
  assumes "lock_step S g e g'" "sealed_gate u v g" "plain_id u" "\<not> opens_lock S v e"
  shows "sealed_gate u v g'"
  using assms
proof (cases rule: lock_step.cases)
  case (route p w now)
  then have "sealed_gate u v (init p w now (g\<lparr>gt_store := (gt_store g)\<lparr>cl_activeLock := w\<rparr>\<rparr>))"
    using assms(2,3) by (intro sealed_init) (auto simp: sealed_gate_def armed_def)
  then show ?thesis using route by (simp add: route_changed_def sealed_gate_def Let_def)
next
  case (departure now)
  then show ?thesis using assms(2)
    by (auto simp: handleDeparture_def sealed_gate_def case_prod_unfold Let_def armed_def)
next
  case timer
  then show ?thesis using assms(2) by (auto simp: departure_timer_fires_def sealed_gate_def Let_def)
next
  case (return now)
  then show ?thesis using assms(2) by (auto simp: handleReturn_def sealed_gate_def Let_def)
next
  case (activity now)
  then show ?thesis using assms(2) by (auto simp: handleUserActivity_def sealed_gate_def)
next
  case (check now)
  then show ?thesis using assms(2) by (auto simp: checkInactivity_def sealed_gate_def)
next
  case (unlock pin now)
  then show ?thesis using sealed_unlock assms(2-4) by (simp add: opens_lock_def)
next
  case lock_now
  then show ?thesis using assms(2) by (auto simp: lockNow_def sealed_gate_def Let_def)
next
  case (button w)
  then show ?thesis using assms(2)
    by (auto simp: lock_button_def triggerImmediateLock_def lockNow_def sealed_gate_def Let_def)
next
  case logout
  then show ?thesis using assms(2,3)
    by (auto simp: handleLogout_def sealed_gate_def case_prod_unfold Let_def split: option.splits)
next
  case (login w p now)
  have "armed u v (gt_store g)" using assms(2) by (simp add: sealed_gate_def)
  then show ?thesis using login sealed_init [OF _ assms(3)] by (simp add: handleLogin_def)
qed


text \<open>
  C6. Only the PIN opens a locked device: once the lock of a user is on and engaged,
  no sequence of events (leaving, returning, signing out, signing in again, also as
  somebody else, timers, activity, moving between routes) opens it unless one of
  them carries a PIN the stored verifier accepts; the lock stays engaged in the
  store, the user's protected pages show the lock screen, and the settings do not
  switch the lock off with a wrong PIN.
\<close>

theorem locked_until_pin:
  assumes run: "lock_run S g es g'" and sealed: "sealed_gate u v g" and u: "plain_id u"
    and wrong: "\<forall>e \<in> set es. \<not> opens_lock S v e"
  shows "armed u v (gt_store g') \<and> (gt_userId g' = Some u \<longrightarrow> gt_state g' \<noteq> Unlocked) \<and>
    gt_shown (route_changed True (Some u) now g') = Locked \<and>
    (checkLocalSecret S guess (Some v) \<noteq> Inr True \<longrightarrow>
       armed u v (snd (disableAppLockWithPin S guess (Some u) (gt_store g'))) \<and>
       armed u v (snd (changeAppLockPin S salt now guess newPin (Some u) (gt_store g'))))"
proof -
  have sealed': "sealed_gate u v g'"
    using run sealed wrong
  proof (induction rule: lock_run.induct)
    case (no_event g)
    then show ?case by simp
  next
    case (next_event g e h es k)
    then show ?case using sealed_step [OF next_event(1) _ u] by simp
  qed
  then have a: "armed u v (gt_store g')" by (simp add: sealed_gate_def)
  let ?h = "g'\<lparr>gt_store := (gt_store g')\<lparr>cl_activeLock := Some u\<rparr>\<rparr>"
  have ah: "armed u v (gt_store ?h)" using a by (simp add: armed_def)
  have ne: "u \<noteq> ''''" "given (Some u) \<noteq> None" using u by (simp_all add: plain_id_def given_def)
  have "fst (isAppLocked (Some u) (snd (isAppLockEnabled (Some u) (gt_store ?h))))"
    by (rule armed_reads(2) [where v = v, OF _ u]) (use ah u in simp)
  then have "gt_state (init True (Some u) now ?h) = Locked"
    using armed_reads(1) [OF ah u] ne by (simp add: init_def case_prod_unfold Let_def)
  then have shown: "gt_shown (route_changed True (Some u) now g') = Locked"
    by (simp add: route_changed_def Let_def)
  have settings: "armed u v (snd (disableAppLockWithPin S guess (Some u) (gt_store g'))) \<and>
      armed u v (snd (changeAppLockPin S salt now guess newPin (Some u) (gt_store g')))"
    if "checkLocalSecret S guess (Some v) \<noteq> Inr True"
    using that ne(1) a u armed_reads(3) [OF a u]
    by (auto simp: disableAppLockWithPin_def changeAppLockPin_def verifyAppLockPin_def case_prod_unfold
        split: sum.splits)
  show ?thesis using a sealed' shown settings by (auto simp: sealed_gate_def)
qed

section \<open>When the lock engages\<close>

text \<open>
  The lock engages on time: with a time limit, a visible or returning page
  locks exactly when the limit has passed since the last activity; with none, a
  departure locks the page when the grace period of a second and a half ends, and a
  return before its end undoes it.
\<close>

theorem lock_engages_on_time:
  assumes g: "gt_state g = Unlocked" "gt_userId g = Some u" "plain_id u"
    and t: "fst (getAppLockTimeoutSeconds (Some u) (gt_store g)) = t"
    and l: "fst (getLastActiveAt (Some u) (gt_store g)) = l"
  shows "(t > 0 \<and> l > 0 \<longrightarrow>
      gt_state (checkInactivity now g) = (if l + 1000 * t \<le> now then Locked else Unlocked) \<and>
      gt_state (handleReturn now g) = (if l + 1000 * t \<le> now then Locked else Unlocked) \<and>
      handleDeparture now g = g) \<and>
    (t = 0 \<longrightarrow>
      gt_state (checkInactivity now g) = Unlocked \<and> gt_timer (handleDeparture now g) \<and>
      gt_state (departure_timer_fires (handleDeparture now g)) = Locked \<and>
      gt_state (handleReturn back (handleDeparture now g)) = (if back < now + 1500 then Unlocked else Locked) \<and>
      \<not> gt_timer (handleReturn back (handleDeparture now g)))"
proof -
  have ne: "u \<noteq> ''''" "given (Some u) \<noteq> None" using g(3) by (simp_all add: plain_id_def given_def)
  have c: "snd (getAppLockTimeoutSeconds (Some u) (gt_store g)) = gt_store g"
    using ne(1) by (simp add: getAppLockTimeoutSeconds_def)
  have k: "gt_timer (commit_lock h) = gt_timer h" for h by (simp add: commit_lock_def)
  show ?thesis using g ne t l c
    by (auto simp: checkInactivity_def handleReturn_def handleDeparture_def departure_timer_fires_def idle_too_long_def
        gracePeriodMs_def Let_def case_prod_unfold k)
qed


definition locked_device :: gate where
  "locked_device =
     \<lparr>gt_state = Locked, gt_userId = Some ''u'', gt_departureStartedAt = 0, gt_timer = False, gt_shown = Locked,
      gt_store = setAppLocked True (Some ''u'') (setAppLockEnabled True (Some ''u'')
        (setAppLockVerifier (hashLocalSecret plain_subtle ''s'' ''1234'') (Some ''u'') empty_client))\<rparr>"

lemma locked_device_sealed: "sealed_gate ''u'' (hashLocalSecret plain_subtle ''s'' ''1234'') locked_device"
  by (simp add: sealed_gate_def locked_device_def armed_def setAppLocked_def setAppLockEnabled_def
      setAppLockVerifier_def Let_def)

lemma locked_until_pin_witness:
  "\<exists>g'. lock_run plain_subtle locked_device
      [Ev_Unlock ''0000'' 5, Ev_Logout, Ev_Login ''u'' False 9, Ev_Route True (Some ''w'') 10, Ev_Return 11] g' \<and>
    gt_shown (route_changed True (Some ''u'') 20 g') = Locked"
proof -
  let ?es = "[Ev_Unlock ''0000'' 5, Ev_Logout, Ev_Login ''u'' False 9, Ev_Route True (Some ''w'') 10, Ev_Return 11]"
  obtain g' where run: "lock_run plain_subtle locked_device ?es g'"
    by (blast intro: lock_run.intros lock_step.intros)
  have wrong: "\<forall>e \<in> set ?es. \<not> opens_lock plain_subtle (hashLocalSecret plain_subtle ''s'' ''1234'') e"
    by (simp add: opens_lock_def check_stored) (simp add: plain_subtle_def)
  show ?thesis
    using run locked_until_pin [OF run locked_device_sealed _ wrong, of 20] by (auto simp: plain_id_def)
qed

definition open_device :: "int \<Rightarrow> gate" where
  "open_device timeout = locked_device\<lparr>gt_state := Unlocked, gt_shown := Unlocked,
     gt_store := recordActivity (Some ''u'') 1000 (setAppLockTimeoutSeconds timeout (Some ''u'')
       (setAppLocked False (Some ''u'') (gt_store locked_device)))\<rparr>"

lemma lock_engages_on_time_witness:
  "gt_state (checkInactivity 60999 (open_device 60)) = Unlocked \<and> gt_state (checkInactivity 61000 (open_device 60)) = Locked \<and>
   gt_state (departure_timer_fires (handleDeparture 2000 (open_device 0))) = Locked \<and>
   gt_state (handleReturn 3499 (handleDeparture 2000 (open_device 0))) = Unlocked"
proof -
  have o: "gt_state (open_device t) = Unlocked \<and> gt_userId (open_device t) = Some ''u'' \<and> plain_id ''u'' \<and>
      fst (getAppLockTimeoutSeconds (Some ''u'') (gt_store (open_device t))) = t \<and>
      fst (getLastActiveAt (Some ''u'') (gt_store (open_device t))) = 1000" for t
    by (simp add: open_device_def locked_device_def getAppLockTimeoutSeconds_def getLastActiveAt_def
        recordActivity_def setAppLockTimeoutSeconds_def plain_id_def)
  show ?thesis
    using lock_engages_on_time [of "open_device 60" "''u''" 60 1000 60999]
      lock_engages_on_time [of "open_device 60" "''u''" 60 1000 61000]
      lock_engages_on_time [of "open_device 0" "''u''" 0 1000 2000 3499] o
    by simp
qed

section \<open>Where the gate and the machine part\<close>

text \<open>
  After a PIN was set on a device that had none the machine still believes it is
  locked: the button that locks at once changes nothing on the screen, and neither
  does leaving the page.
\<close>

lemma setup_desynchronises:
  assumes "gt_state g = Locked" "gt_userId g = Some u" "u \<noteq> ''''" "4 \<le> length pin"
    and g1_def: "g1 = snd (handleSetupDevicePin S salt pin pin (Some u) now g)"
  shows "gt_shown (lock_button (Some u) g1) = Unlocked" "handleDeparture later g1 = g1" "checkInactivity later g1 = g1"
    "gt_shown g1 = Unlocked"
proof -
  have g1: "gt_state g1 = Locked" "gt_shown g1 = Unlocked" "gt_userId g1 = Some u"
    using assms by (simp_all add: g1_def handleSetupDevicePin_def given_def)
  show "gt_shown (lock_button (Some u) g1) = Unlocked"
    using g1 assms(3) by (simp add: lock_button_def lockNow_def commit_lock_def transition_def given_def
        clearDepartureTimer_def Let_def)
  show "handleDeparture later g1 = g1" "checkInactivity later g1 = g1" "gt_shown g1 = Unlocked"
    using g1 by (simp_all add: handleDeparture_def checkInactivity_def)
qed

text \<open>A lock that is switched on in the settings is not armed before the gate is initialised again.\<close>

lemma enabling_does_not_arm:
  assumes "gt_state g = Disabled"
  shows "gt_state (handleDeparture now (enable_app_lock S salt pin t u at0 g)) = Disabled"
    "gt_state (checkInactivity now (enable_app_lock S salt pin t u at0 g)) = Disabled"
    "gt_state (handleReturn now (enable_app_lock S salt pin t u at0 g)) = Disabled"
  using assms by (simp_all add: enable_app_lock_def handleDeparture_def checkInactivity_def handleReturn_def)

text \<open>A lock that is switched off in the settings still engages until then.\<close>

lemma disabled_lock_still_locks:
  assumes g: "gt_state g = Unlocked" "gt_userId g = Some u" "u \<noteq> ''''"
    and off: "disableAppLockWithPin S pin (Some u) (gt_store g) = (Inr None, c)"
    and t: "fst (getAppLockTimeoutSeconds (Some u) c) = t" "0 < t"
    and l: "fst (getLastActiveAt (Some u) c) = l" "0 < l" "l + t * 1000 \<le> now"
  shows "gt_state (checkInactivity now (g\<lparr>gt_store := c\<rparr>)) = Locked"
  using g t l by (simp add: checkInactivity_def idle_too_long_def given_def Let_def)

text \<open>A missing time of the last activity locks by \<open>shouldBeLocked\<close> and opens by \<open>init\<close>.\<close>

lemma init_ignores_missing_activity:
  assumes "armed u v c" "plain_id u" and "c' = setAppLocked False (Some u) c"
    and "idbGet as_num (lock_key u ''lastActiveAt'') c' = None"
  shows "fst (shouldBeLocked b now (Some u) 1500 c')" "gt_state (init True (Some u) now (g\<lparr>gt_store := c'\<rparr>)) = Unlocked"
proof -
  have ne: "u \<noteq> ''''" "given (Some u) \<noteq> None" using assms(2) by (simp_all add: plain_id_def given_def)
  have k: "cl_kv c' (lock_key u ''enabled'') = Some (V_Bool True)" "cl_kv c' (lock_key u ''isLocked'') = Some (V_Bool False)"
    using assms(1,3) ne by (simp_all add: armed_def setAppLocked_def)
  then have "isAppLockEnabled (Some u) c' = (True, c')"
    using ne by (simp add: isAppLockEnabled_def migrateLegacyKeysIfNeeded_def idbGet_def Let_def split: option.splits)
  moreover have "fst (isAppLocked (Some u) c') = False" "fst (getLastActiveAt (Some u) c') = 0"
    using ne k assms(4) by (simp_all add: isAppLocked_def getLastActiveAt_def idbGet_def)
  ultimately show "fst (shouldBeLocked b now (Some u) 1500 c')"
    "gt_state (init True (Some u) now (g\<lparr>gt_store := c'\<rparr>)) = Unlocked"
    using ne by (simp_all add: shouldBeLocked_def init_def Let_def)
qed

end
