(* ===== verification/ChatClient.thy ===== *)
theory ChatClient
  imports ClientStore Tokens
begin

text \<open>
  The conversation page of the web client (\<open>app/chat/[conversationId]/page.tsx\<close>):
  receiving, catching up, sending, editing, the outbox, scheduled messages and the
  recovery of a session. The record \<open>page\<close> holds the device's store, the session
  object in memory and the rendered messages, and logs what the page sends to the
  server. The answers of the server and the state of the network are arguments. The
  queue of the page makes the handling of one message atomic; every other handler is
  one step here too, except where \<open>overlapping_sends\<close> shows what overlapping does.
\<close>

section \<open>The page\<close>

record incoming_message =
  in_id :: ident
  in_senderId :: ident
  in_sequenceNumber :: int
  in_ciphertext :: string
  in_iv :: string
  in_sentAt :: string
  in_replyToMessageId :: "ident option"

record post =
  po_conversationId :: ident
  po_clientMessageId :: ident
  po_ciphertext :: string
  po_iv :: string
  po_messageType :: string
  po_replyToMessageId :: "ident option"
  po_attachmentId :: "ident option"
  po_sessionEpoch :: int

datatype request =
    Post_Message post
  | Patch_Message ident string string
  | Mark_Read ident
  | Delete_Message ident

record page =
  pg_store :: client
  pg_conversationId :: ident
  pg_userId :: "ident option"
  pg_session :: "stored_session option"
  pg_messages :: "cached_message list"
  pg_otherUsername :: "string option"
  pg_replyTo :: "cached_message option"
  pg_editingId :: "ident option"
  pg_expired :: bool
  pg_readReceipts :: bool
  pg_sent :: "request list"

text \<open>What \<open>api\<close> throws or \<open>fetch\<close> rejects with, and when a failure is worth another try.\<close>

datatype api_error = Type_Error | Abort_Error | Api_Error int

definition isTransient :: "bool \<Rightarrow> api_error \<Rightarrow> bool" where
  "isTransient online e \<longleftrightarrow>
     \<not> online \<or> (case e of Type_Error \<Rightarrow> True | Abort_Error \<Rightarrow> True | Api_Error s \<Rightarrow> s = 429 \<or> s \<ge> 500)"

record send_result =
  sr_id :: ident
  sr_sentAt :: string
  sr_delivered :: bool

definition mapMessages :: "ident \<Rightarrow> (cached_message \<Rightarrow> cached_message) \<Rightarrow> page \<Rightarrow> page" where
  "mapMessages mid f pg = pg\<lparr>pg_messages := map (\<lambda>m. if cm_id m = mid then f m else m) (pg_messages pg)\<rparr>"

definition log_request :: "request \<Rightarrow> page \<Rightarrow> page" where
  "log_request r pg = pg\<lparr>pg_sent := pg_sent pg @ [r]\<rparr>"

text \<open>\<open>sessionRef.current\<close> is assigned and \<open>saveSession(conversationId, sessionRef.current)\<close> called.\<close>

definition keep_session :: "stored_session \<Rightarrow> page \<Rightarrow> page" where
  "keep_session s pg =
     pg\<lparr>pg_session := Some s, pg_store := saveSession (pg_conversationId pg) s None (pg_store pg)\<rparr>"

section \<open>Replies and attachments\<close>

definition attachment_filename :: "string \<Rightarrow> string option" where
  "attachment_filename text =
     (case json_parse text of
        None \<Rightarrow> None
      | Some v \<Rightarrow>
          if json_field ''kind'' v = Some (JStr ''attachment'')
          then (case json_field ''filename'' v of Some (JStr f) \<Rightarrow> given (Some f) | _ \<Rightarrow> None)
          else None)"

definition preview :: "string \<Rightarrow> string" where
  "preview text = (case attachment_filename text of Some f \<Rightarrow> f | None \<Rightarrow> take 100 text)"

definition reply_payload :: "page \<Rightarrow> cached_message \<Rightarrow> reply_info" where
  "reply_payload pg parent =
     \<lparr>ri_messageId = Some (cm_id parent),
      ri_senderUsername = Some (if cm_mine parent then ''You''
        else (case given (pg_otherUsername pg) of Some n \<Rightarrow> n | None \<Rightarrow> ''Contact'')),
      ri_text = preview (cm_text parent)\<rparr>"

definition incoming_reply :: "page \<Rightarrow> cached_message list \<Rightarrow> incoming_message \<Rightarrow> reply_info option" where
  "incoming_reply pg cachedList m =
     (case given (in_replyToMessageId m) of
        None \<Rightarrow> None
      | Some r \<Rightarrow>
          (case find (\<lambda>c. cm_id c = r) cachedList of
             Some parent \<Rightarrow> Some (reply_payload pg parent)
           | None \<Rightarrow> Some \<lparr>ri_messageId = Some r, ri_senderUsername = None, ri_text = ''Original message''\<rparr>))"

section \<open>Receiving\<close>

text \<open>Without a session the handler throws when it reads one.\<close>

definition undecryptable :: string where
  "undecryptable = ''[Could not decrypt this message]''"

definition ratchet_receive :: "subtle \<Rightarrow> ident \<Rightarrow> stored_session \<Rightarrow> string \<Rightarrow> string \<Rightarrow> string \<times> stored_session" where
  "ratchet_receive S cid s ciphertext iv =
     (let aad = buildAad cid (ss_recvStep s)
      in case ratchetDecrypt S (ss_receivingChainKey s) (ciphertext, iv) aad of
           Inr (plaintext, nextChainKey) \<Rightarrow>
             (plaintext, s\<lparr>ss_receivingChainKey := nextChainKey, ss_recvStep := ss_recvStep s + 1\<rparr>)
         | Inl _ \<Rightarrow>
             (undecryptable, s\<lparr>ss_receivingChainKey := deriveNextChainKey S (ss_receivingChainKey s),
                ss_recvStep := ss_recvStep s + 1\<rparr>))"

definition raise_watermark :: "int \<Rightarrow> stored_session \<Rightarrow> stored_session" where
  "raise_watermark n s = s\<lparr>ss_lastSyncedSeq := max (ss_lastSyncedSeq s) n\<rparr>"

definition received_message :: "page \<Rightarrow> cached_message list \<Rightarrow> string \<Rightarrow> incoming_message \<Rightarrow> cached_message" where
  "received_message pg cachedList text m =
     \<lparr>cm_id = in_id m, cm_conversationId = pg_conversationId pg, cm_senderId = in_senderId m, cm_text = text,
      cm_sentAt = in_sentAt m, cm_status = Delivered, cm_mine = False,
      cm_replyToMessageId = in_replyToMessageId m, cm_replyTo = incoming_reply pg cachedList m\<rparr>"

definition processIncoming :: "subtle \<Rightarrow> incoming_message \<Rightarrow> page \<Rightarrow> page" where
  "processIncoming S m pg =
     (case pg_session pg of
        None \<Rightarrow> pg\<lparr>pg_store := snd (getCachedMessages (pg_conversationId pg) None (pg_store pg))\<rparr>
      | Some s \<Rightarrow>
          (case getCachedMessages (pg_conversationId pg) None (pg_store pg) of (priorCache, c1) \<Rightarrow>
             let pg1 = pg\<lparr>pg_store := c1\<rparr>
             in if \<exists>c \<in> set priorCache. cm_id c = in_id m
                then keep_session (raise_watermark (in_sequenceNumber m) s) pg1
                else
                  case ratchet_receive S (pg_conversationId pg) s (in_ciphertext m) (in_iv m) of (text, s1) \<Rightarrow>
                  let pg2 = keep_session (raise_watermark (in_sequenceNumber m) s1) pg1
                  in case getCachedMessages (pg_conversationId pg) None (pg_store pg2) of (cachedList, c3) \<Rightarrow>
                     let pg3 = pg2\<lparr>pg_store := c3\<rparr>;
                         pg4 = (if \<exists>c \<in> set cachedList. cm_id c = in_id m
                                then mapMessages (in_id m) (\<lambda>p. p\<lparr>cm_text := text\<rparr>)
                                       (pg3\<lparr>pg_store := updateCachedMessage (pg_conversationId pg) (in_id m)
                                              (\<lambda>p. p\<lparr>cm_text := text\<rparr>) None c3\<rparr>)
                                else
                                  let cachedMsg = received_message pg3 cachedList text m
                                  in pg3\<lparr>pg_store := appendCachedMessage cachedMsg None c3,
                                         pg_messages :=
                                           (if \<exists>p \<in> set (pg_messages pg3). cm_id p = in_id m then pg_messages pg3
                                            else pg_messages pg3 @ [cachedMsg])\<rparr>)
                     in if pg_readReceipts pg4 then log_request (Mark_Read (in_id m)) pg4 else pg4))"

text \<open>A row of \<open>/api/messages/sync\<close>: a tombstone or a message.\<close>

datatype sync_row = Tombstone ident int | Live incoming_message

definition process_row :: "subtle \<Rightarrow> sync_row \<Rightarrow> page \<Rightarrow> page" where
  "process_row S r pg =
     (case r of
        Live m \<Rightarrow> processIncoming S m pg
      | Tombstone mid n \<Rightarrow>
          let pg1 = pg\<lparr>pg_messages := filter (\<lambda>p. cm_id p \<noteq> mid) (pg_messages pg),
                       pg_store := removeCachedMessage (pg_conversationId pg) mid None (pg_store pg)\<rparr>
          in case pg_session pg1 of None \<Rightarrow> pg1 | Some s \<Rightarrow> keep_session (raise_watermark n s) pg1)"

text \<open>\<open>sync\<close> is the answer of the server to the watermark; an error ends the attempt.\<close>

definition syncGap :: "subtle \<Rightarrow> (int \<Rightarrow> api_error + sync_row list) \<Rightarrow> page \<Rightarrow> page" where
  "syncGap S sync pg =
     (case pg_session pg of
        None \<Rightarrow> pg
      | Some s \<Rightarrow> (case sync (ss_lastSyncedSeq s) of Inl _ \<Rightarrow> pg | Inr rows \<Rightarrow> fold (process_row S) rows pg))"


section \<open>Sending\<close>

definition ratchet_send :: "subtle \<Rightarrow> ident \<Rightarrow> bytes \<Rightarrow> stored_session \<Rightarrow> string \<Rightarrow> envelope \<times> stored_session" where
  "ratchet_send S cid iv s text =
     (case ratchetEncrypt S iv (ss_sendingChainKey s) text (buildAad cid (ss_sendStep s)) of
        (env, nextChainKey) \<Rightarrow>
          (env, s\<lparr>ss_sendingChainKey := nextChainKey, ss_sendStep := ss_sendStep s + 1\<rparr>))"

text \<open>
  What a send finds: the nonce it draws, the id and the times it makes up, whether
  the browser is online before and after, and the answer of the server.
\<close>

record attempt_env =
  tr_iv :: bytes
  tr_id :: ident
  tr_sentAt :: string
  tr_now :: instant
  tr_online :: bool
  tr_answer :: "api_error + send_result"
  tr_still_online :: bool

definition own_message :: "page \<Rightarrow> ident \<Rightarrow> string \<Rightarrow> string \<Rightarrow> message_status \<Rightarrow> ident option \<Rightarrow> reply_info option \<Rightarrow>
    cached_message" where
  "own_message pg mid text sentAt status replyTo payload =
     \<lparr>cm_id = mid, cm_conversationId = pg_conversationId pg,
      cm_senderId = (case pg_userId pg of Some u \<Rightarrow> u | None \<Rightarrow> ''''), cm_text = text, cm_sentAt = sentAt,
      cm_status = status, cm_mine = True, cm_replyToMessageId = given replyTo, cm_replyTo = payload\<rparr>"

definition cache_and_show :: "cached_message \<Rightarrow> page \<Rightarrow> page" where
  "cache_and_show m pg =
     pg\<lparr>pg_store := appendCachedMessage m None (pg_store pg), pg_messages := pg_messages pg @ [m]\<rparr>"

definition queue_item :: "page \<Rightarrow> attempt_env \<Rightarrow> string \<Rightarrow> envelope \<Rightarrow> int \<Rightarrow> ident option \<Rightarrow> ident \<Rightarrow> outbox_item" where
  "queue_item pg a text env epoch replyTo u =
     \<lparr>ob_id = tr_id a, ob_conversationId = pg_conversationId pg, ob_senderId = u, ob_text = text,
      ob_ciphertext = Some (fst env), ob_iv = Some (snd env), ob_sessionEpoch = Some epoch, ob_sentAt = tr_sentAt a,
      ob_replyToMessageId = given replyTo, ob_viewOnce = None, ob_queuedAt = tr_now a, ob_retryCount = 0\<rparr>"

definition enqueue :: "attempt_env \<Rightarrow> string \<Rightarrow> envelope \<Rightarrow> int \<Rightarrow> ident option \<Rightarrow> page \<Rightarrow> page" where
  "enqueue a text env epoch replyTo pg =
     (case pg_userId pg of
        None \<Rightarrow> pg
      | Some u \<Rightarrow> pg\<lparr>pg_store := enqueueOutboxItem u (queue_item pg a text env epoch replyTo u) (pg_store pg)\<rparr>)"

definition make_post :: "page \<Rightarrow> ident \<Rightarrow> envelope \<Rightarrow> string \<Rightarrow> ident option \<Rightarrow> ident option \<Rightarrow> int \<Rightarrow> post" where
  "make_post pg clientMessageId env messageType replyTo attachmentId epoch =
     \<lparr>po_conversationId = pg_conversationId pg, po_clientMessageId = clientMessageId, po_ciphertext = fst env,
      po_iv = snd env, po_messageType = messageType, po_replyToMessageId = replyTo, po_attachmentId = attachmentId,
      po_sessionEpoch = epoch\<rparr>"

text \<open>
  An edit spends a step of the chain before the server is asked; when the request
  fails the exception leaves the page in its editing state.
\<close>

definition send_edit :: "subtle \<Rightarrow> attempt_env \<Rightarrow> ident \<Rightarrow> string \<Rightarrow> stored_session \<Rightarrow> page \<Rightarrow> page" where
  "send_edit S a editingId text s pg =
     (case ratchet_send S (pg_conversationId pg) (tr_iv a) s text of (env, s1) \<Rightarrow>
        let pg1 = log_request (Patch_Message editingId (fst env) (snd env)) (keep_session s1 pg)
        in case tr_answer a of
             Inl _ \<Rightarrow> pg1
           | Inr _ \<Rightarrow>
               (mapMessages editingId (\<lambda>m. m\<lparr>cm_text := text\<rparr>) pg1)
                 \<lparr>pg_store := updateCachedMessage (pg_conversationId pg) editingId (\<lambda>m. m\<lparr>cm_text := text\<rparr>) None
                    (pg_store pg1),
                  pg_editingId := None\<rparr>)"

definition sendDirectText ::
  "subtle \<Rightarrow> attempt_env \<Rightarrow> string \<Rightarrow> cached_message option option \<Rightarrow> page \<Rightarrow> page" where
  "sendDirectText S a textToSend explicitReplyTo pg =
     (let text = js_trim textToSend
      in case pg_session pg of
           None \<Rightarrow> pg
         | Some s \<Rightarrow>
             if text = '''' \<or> pg_expired pg then pg
             else
               let replySource = (case explicitReplyTo of Some r \<Rightarrow> r | None \<Rightarrow> pg_replyTo pg);
                   replyTo = map_option cm_id replySource;
                   payload = map_option (reply_payload pg) replySource
               in case given (pg_editingId pg) of
                    Some editingId \<Rightarrow> send_edit S a editingId text s pg
                  | None \<Rightarrow>
                      (case ratchet_send S (pg_conversationId pg) (tr_iv a) s text of (env, s1) \<Rightarrow>
                        let pg1 = keep_session s1 pg
                        in if \<not> tr_online a
                           then cache_and_show (own_message pg1 (tr_id a) text (tr_sentAt a) Queued replyTo payload)
                                  (enqueue a text env (ss_epoch s1) replyTo pg1)
                           else
                             let pg2 = log_request (Post_Message (make_post pg1 (tr_id a) env ''TEXT'' replyTo None
                                                      (ss_epoch s1))) pg1
                             in case tr_answer a of
                                  Inr r \<Rightarrow>
                                    cache_and_show (own_message pg2 (sr_id r) text (sr_sentAt r)
                                      (if sr_delivered r then Delivered else Sent) replyTo payload) pg2
                                | Inl e \<Rightarrow>
                                    if isTransient (tr_still_online a) e \<and> given (pg_userId pg) \<noteq> None
                                    then cache_and_show (own_message pg2 (tr_id a) text (tr_sentAt a) Queued replyTo payload)
                                           (enqueue a text env (ss_epoch s1) replyTo pg2)
                                    else pg2\<lparr>pg_messages := pg_messages pg2 @
                                               [own_message pg2 (tr_id a) text (tr_sentAt a) Failed None None]\<rparr>))"

section \<open>The outbox\<close>

definition filled :: "string option \<Rightarrow> string option" where
  "filled s = given s"

definition seal_item :: "subtle \<Rightarrow> bytes \<Rightarrow> outbox_item \<Rightarrow> stored_session \<Rightarrow> page \<Rightarrow> envelope \<times> int \<times> page" where
  "seal_item S iv item s pg =
     (case (filled (ob_ciphertext item), filled (ob_iv item)) of
        (Some ct, Some i) \<Rightarrow>
          ((ct, i), (case ob_sessionEpoch item of Some e \<Rightarrow> e | None \<Rightarrow> ss_epoch s), pg)
      | _ \<Rightarrow>
          (case ratchet_send S (pg_conversationId pg) iv s (ob_text item) of (env, s1) \<Rightarrow>
             (env, ss_epoch s1, keep_session s1 pg)))"

text \<open>The \<open>k\<close>-th item meets the \<open>k\<close>-th environment.\<close>

fun flush_items :: "subtle \<Rightarrow> ident \<Rightarrow> (nat \<Rightarrow> attempt_env) \<Rightarrow> nat \<Rightarrow> outbox_item list \<Rightarrow> page \<Rightarrow> page" where
  "flush_items S u env k [] pg = pg"
| "flush_items S u env k (item # items) pg =
     (case pg_session pg of
        None \<Rightarrow> pg
      | Some s \<Rightarrow>
          if \<not> tr_online (env k) then pg
          else
            case seal_item S (tr_iv (env k)) item s pg of (e, epoch, pg1) \<Rightarrow>
            let pg2 = log_request (Post_Message (make_post pg1 (ob_id item) e ''TEXT'' (ob_replyToMessageId item) None
                                     epoch)) pg1
            in case tr_answer (env k) of
                 Inr r \<Rightarrow>
                   let newStatus = (if sr_delivered r then Delivered else Sent);
                       c = updateCachedMessage (pg_conversationId pg) (ob_id item) (\<lambda>m. m\<lparr>cm_status := newStatus\<rparr>) None
                             (removeOutboxItem u (ob_id item) (pg_store pg2))
                   in flush_items S u env (k + 1) items
                        (mapMessages (ob_id item) (\<lambda>m. m\<lparr>cm_status := newStatus, cm_sentAt := sr_sentAt r\<rparr>)
                           (pg2\<lparr>pg_store := c\<rparr>))
               | Inl err \<Rightarrow>
                   if isTransient (tr_still_online (env k)) err then pg2
                   else
                     let c = updateCachedMessage (pg_conversationId pg) (ob_id item) (\<lambda>m. m\<lparr>cm_status := Failed\<rparr>) None
                               (removeOutboxItem u (ob_id item) (pg_store pg2))
                     in flush_items S u env (k + 1) items
                          (mapMessages (ob_id item) (\<lambda>m. m\<lparr>cm_status := Failed\<rparr>) (pg2\<lparr>pg_store := c\<rparr>)))"

definition flushOutbox :: "subtle \<Rightarrow> (nat \<Rightarrow> attempt_env) \<Rightarrow> bool \<Rightarrow> page \<Rightarrow> page" where
  "flushOutbox S env online pg =
     (case given (pg_userId pg) of
        None \<Rightarrow> pg
      | Some u \<Rightarrow>
          if pg_session pg = None \<or> \<not> online then pg
          else flush_items S u env 0 (getOutboxItems u (Some (pg_conversationId pg)) (pg_store pg)) pg)"

section \<open>Scheduled messages\<close>

fun sweep_items :: "subtle \<Rightarrow> ident \<Rightarrow> (nat \<Rightarrow> attempt_env) \<Rightarrow> nat \<Rightarrow> scheduled_item list \<Rightarrow> page \<Rightarrow> page" where
  "sweep_items S u env k [] pg = pg"
| "sweep_items S u env k (item # items) pg =
     (let pg1 = pg\<lparr>pg_store := removeScheduledMessage u (sm_id item) (pg_store pg)\<rparr>
      in sweep_items S u env (k + 1) items
           (if sm_text item = '''' then pg1 else sendDirectText S (env k) (sm_text item) (Some None) pg1))"

definition sweep_scheduled :: "subtle \<Rightarrow> (nat \<Rightarrow> attempt_env) \<Rightarrow> instant \<Rightarrow> page \<Rightarrow> page" where
  "sweep_scheduled S env now pg =
     (case given (pg_userId pg) of
        None \<Rightarrow> pg
      | Some u \<Rightarrow>
          if pg_session pg = None \<or> pg_expired pg then pg
          else sweep_items S u env 0 (getDueScheduledMessages now u (Some (pg_conversationId pg)) (pg_store pg)) pg)"

definition handleScheduleMessage :: "ident \<Rightarrow> instant \<Rightarrow> instant \<Rightarrow> string \<Rightarrow> bool \<Rightarrow> page \<Rightarrow> string option \<times> page" where
  "handleScheduleMessage newId now targetTimeMs draft pendingImage pg =
     (case given (pg_userId pg) of
        None \<Rightarrow> (None, pg)
      | Some u \<Rightarrow>
          if pg_expired pg then (None, pg)
          else if js_trim draft = '''' \<and> \<not> pendingImage then (Some ''Please enter a message to schedule.'', pg)
          else (None, pg\<lparr>pg_store := saveScheduledMessage u
                 \<lparr>sm_id = newId, sm_conversationId = pg_conversationId pg, sm_isRoom = None, sm_text = js_trim draft,
                  sm_attachment = None, sm_scheduledFor = targetTimeMs, sm_createdAt = now\<rparr> (pg_store pg)\<rparr>))"


section \<open>Files\<close>

definition max_attachment_bytes :: nat where
  "max_attachment_bytes = 25 * 1024 * 1024"

text \<open>\<open>JSON.stringify\<close> leaves out the fields that are undefined.\<close>

definition attachment_payload ::
  "ident \<Rightarrow> string \<Rightarrow> string \<Rightarrow> string \<Rightarrow> string option \<Rightarrow> bool \<Rightarrow> string" where
  "attachment_payload attachmentId dek mimeTypeHint filename caption viewOnce =
     object_text
       ([(''kind'', json_quote ''attachment''), (''attachmentId'', json_quote attachmentId), (''dek'', json_quote dek),
         (''mimeTypeHint'', json_quote mimeTypeHint), (''filename'', json_quote filename)] @
        (case given caption of None \<Rightarrow> [] | Some c \<Rightarrow> [(''caption'', json_quote c)]) @
        (if viewOnce then [(''viewOnce'', ''true'')] else []))"

record chosen_file =
  cf_name :: string
  cf_type :: string
  cf_size :: nat
  cf_cleaned :: bytes

text \<open>
  The upload's answer is the attachment id; \<open>None\<close> in the first component of the
  result is success, otherwise the call throws.
\<close>

definition sendFile ::
  "subtle \<Rightarrow> attempt_env \<Rightarrow> bytes \<Rightarrow> bytes \<Rightarrow> (api_error + ident) \<Rightarrow> chosen_file \<Rightarrow> string option \<Rightarrow> bool \<Rightarrow> page \<Rightarrow>
    string option \<times> page" where
  "sendFile S a dek fileIv upload f caption viewOnce pg =
     (case pg_session pg of
        None \<Rightarrow> (Some ''Encryption session not ready. Please wait a moment or reopen the chat.'', pg)
      | Some s \<Rightarrow>
          if pg_expired pg then (Some ''This temporary conversation has expired.'', pg)
          else if cf_size f > max_attachment_bytes then (Some ''File is too large (25MB limit).'', pg)
          else
            let enc = encryptFile S dek fileIv (cf_type f) (cf_size f) (cf_cleaned f)
            in case upload of
                 Inl _ \<Rightarrow> (Some ''Failed to send'', pg)
               | Inr attachmentId \<Rightarrow>
                   let content = attachment_payload attachmentId (bytesToBase64 (ef_dek enc)) (ef_mimeTypeHint enc)
                                   (cf_name f) caption viewOnce
                   in case ratchet_send S (pg_conversationId pg) (tr_iv a) s content of (env, s1) \<Rightarrow>
                      let pg1 = keep_session s1 pg;
                          kind = (if ef_mimeTypeHint enc = ''image'' then ''IMAGE'' else ''FILE'');
                          pg2 = log_request (Post_Message (make_post pg1 (tr_id a) env kind None (Some attachmentId)
                                               (ss_epoch s1))) pg1
                      in case tr_answer a of
                           Inl _ \<Rightarrow> (Some ''Failed to send'', pg2)
                         | Inr r \<Rightarrow>
                             (None, cache_and_show (own_message pg2 (sr_id r) content (sr_sentAt r)
                                      (if sr_delivered r then Delivered else Sent) None None) pg2))"

section \<open>Events of the socket\<close>

definition update_cached :: "ident \<Rightarrow> (cached_message \<Rightarrow> cached_message) \<Rightarrow> page \<Rightarrow> page" where
  "update_cached mid f pg = pg\<lparr>pg_store := updateCachedMessage (pg_conversationId pg) mid f None (pg_store pg)\<rparr>"

definition on_delivery_receipt :: "ident option \<Rightarrow> ident \<Rightarrow> page \<Rightarrow> page" where
  "on_delivery_receipt cid mid pg =
     (if given cid \<noteq> None \<and> cid \<noteq> Some (pg_conversationId pg) then pg
      else update_cached mid (\<lambda>m. m\<lparr>cm_status := Delivered\<rparr>)
             (mapMessages mid (\<lambda>m. if cm_status m \<noteq> Read then m\<lparr>cm_status := Delivered\<rparr> else m) pg))"

definition on_read_receipt :: "ident \<Rightarrow> page \<Rightarrow> page" where
  "on_read_receipt mid pg =
     update_cached mid (\<lambda>m. m\<lparr>cm_status := Read\<rparr>) (mapMessages mid (\<lambda>m. m\<lparr>cm_status := Read\<rparr>) pg)"

definition drop_message :: "ident \<Rightarrow> page \<Rightarrow> page" where
  "drop_message mid pg =
     pg\<lparr>pg_messages := filter (\<lambda>m. cm_id m \<noteq> mid) (pg_messages pg),
        pg_store := removeCachedMessage (pg_conversationId pg) mid None (pg_store pg)\<rparr>"

definition on_message_deleted :: "ident \<Rightarrow> page \<Rightarrow> page" where
  "on_message_deleted mid pg = drop_message mid pg"

definition on_message_edited :: "subtle \<Rightarrow> incoming_message \<Rightarrow> page \<Rightarrow> page" where
  "on_message_edited S evt pg = processIncoming S (evt\<lparr>in_replyToMessageId := None\<rparr>) pg"

definition wipe_conversation :: "page \<Rightarrow> page" where
  "wipe_conversation pg =
     pg\<lparr>pg_store := clearCachedMessages (pg_conversationId pg) None (deleteSession (pg_conversationId pg) None (pg_store pg)),
        pg_messages := []\<rparr>"

definition forget_conversation :: "page \<Rightarrow> page" where
  "forget_conversation pg = (wipe_conversation pg)\<lparr>pg_session := None\<rparr>"

definition on_conversation_burned :: "ident \<Rightarrow> page \<Rightarrow> page" where
  "on_conversation_burned cid pg = (if cid \<noteq> pg_conversationId pg then pg else forget_conversation pg)"

definition on_temporary_chat_expired :: "ident \<Rightarrow> page \<Rightarrow> page" where
  "on_temporary_chat_expired cid pg =
     (if cid \<noteq> pg_conversationId pg then pg else (forget_conversation pg)\<lparr>pg_expired := True\<rparr>)"

definition is_undecryptable :: "cached_message \<Rightarrow> bool" where
  "is_undecryptable m \<longleftrightarrow> cm_text m = undecryptable \<or> starts_with ''[Could not decrypt'' (cm_text m)"

definition page_deleteMessage :: "(api_error + unit) \<Rightarrow> cached_message \<Rightarrow> page \<Rightarrow> string option \<times> page" where
  "page_deleteMessage answer m pg =
     (if \<not> is_undecryptable m \<and> cm_mine m
      then let pg1 = log_request (Delete_Message (cm_id m)) pg
           in case answer of
                Inl _ \<Rightarrow> (Some ''Could not delete this message. Please try again.'', pg1)
              | Inr _ \<Rightarrow> (None, drop_message (cm_id m) pg1)
      else (None, drop_message (cm_id m) pg))"

definition clearUndecryptableMessages :: "page \<Rightarrow> page" where
  "clearUndecryptableMessages pg =
     (let undecryptables = filter is_undecryptable (pg_messages pg);
          c = fold (\<lambda>m. removeCachedMessage (pg_conversationId pg) (cm_id m) None) undecryptables (pg_store pg)
      in pg\<lparr>pg_store := c, pg_messages := filter (\<lambda>m. \<not> is_undecryptable m) (pg_messages pg)\<rparr>)"

text \<open>The statuses asked for are those of the last hundred own messages not yet read.\<close>

definition reconcileSentStatuses ::
  "(ident list \<Rightarrow> api_error + (ident \<times> bool \<times> bool) list) \<Rightarrow> page \<Rightarrow> page" where
  "reconcileSentStatuses ask pg =
     (case getCachedMessages (pg_conversationId pg) None (pg_store pg) of (cachedList, c1) \<Rightarrow>
        let pg1 = pg\<lparr>pg_store := c1\<rparr>;
            ids = map cm_id (filter (\<lambda>m. cm_mine m \<and> cm_status m \<noteq> Read) cachedList)
        in if ids = [] then pg1
           else case ask (drop (length ids - 100) ids) of
                  Inl _ \<Rightarrow> pg1
                | Inr statuses \<Rightarrow>
                    fold (\<lambda>(mid, delivered, seen) p.
                      if \<not> seen \<and> \<not> delivered then p
                      else let st = (if seen then Read else Delivered)
                           in mapMessages mid (\<lambda>m. if cm_status m \<noteq> Read then m\<lparr>cm_status := st\<rparr> else m)
                                (update_cached mid (\<lambda>m. m\<lparr>cm_status := st\<rparr>) p)) statuses pg1)"

section \<open>Recovering the session\<close>

text \<open>A date of the server is an instant, or no instant when it cannot be read.\<close>

definition isTemporaryChatExpired :: "instant option option \<Rightarrow> instant \<Rightarrow> bool" where
  "isTemporaryChatExpired expiresAt now =
     (case expiresAt of None \<Rightarrow> False | Some None \<Rightarrow> True | Some (Some t) \<Rightarrow> t \<le> now)"

record status_answer =
  sa_status :: string
  sa_sessionEpoch :: int
  sa_expiresAt :: "instant option option"
  sa_isExpired :: bool
  sa_otherUsername :: "string option"

definition note_status :: "instant \<Rightarrow> status_answer \<Rightarrow> page \<Rightarrow> page" where
  "note_status now st pg =
     pg\<lparr>pg_otherUsername := (case sa_otherUsername st of None \<Rightarrow> pg_otherUsername pg | Some n \<Rightarrow> Some n),
        pg_expired := (pg_expired pg \<or> sa_isExpired st \<or> sa_status st = ''DELETED'' \<or>
          isTemporaryChatExpired (sa_expiresAt st) now)\<rparr>"

definition dead_session :: "instant \<Rightarrow> status_answer \<Rightarrow> stored_session \<Rightarrow> bool" where
  "dead_session now st s \<longleftrightarrow> isSessionStale (ss_epoch s) (sa_status st) (sa_sessionEpoch st) \<or> sa_isExpired st \<or>
     isTemporaryChatExpired (sa_expiresAt st) now"

definition complete_pending ::
  "subtle \<Rightarrow> (api_error + handshake_message \<times> int) \<Rightarrow> page \<Rightarrow> stored_session option \<times> page" where
  "complete_pending S pending pg =
     (case getUserIdentity (pg_userId pg) (pg_store pg) of
        (None, c) \<Rightarrow> (None, pg\<lparr>pg_store := c\<rparr>)
      | (Some identity, c) \<Rightarrow>
          (case pending of
             Inl _ \<Rightarrow> (None, pg\<lparr>pg_store := c\<rparr>)
           | Inr (message, epoch) \<Rightarrow>
               (case completeHandshake S identity message of
                  Inl _ \<Rightarrow> (None, pg\<lparr>pg_store := c\<rparr>)
                | Inr (completed, consumed) \<Rightarrow>
                    (case initSession (pg_conversationId pg) completed epoch None c of
                       (s, c') \<Rightarrow> (Some s, pg\<lparr>pg_store := c'\<rparr>)))))"

definition ensureFreshSession ::
  "subtle \<Rightarrow> instant \<Rightarrow> (api_error + status_answer) \<Rightarrow> (api_error + handshake_message \<times> int) \<Rightarrow>
    stored_session option \<Rightarrow> page \<Rightarrow> stored_session option \<times> page" where
  "ensureFreshSession S now answer pending session pg =
     (case answer of
        Inl _ \<Rightarrow> (session, pg)
      | Inr st \<Rightarrow>
          let pg1 = note_status now st pg
          in case session of
               Some s \<Rightarrow> if dead_session now st s then complete_pending S pending (wipe_conversation pg1) else (Some s, pg1)
             | None \<Rightarrow> complete_pending S pending pg1)"

text \<open>Opening the page, up to the first catch-up. Without a session it sends the user to pair again.\<close>

definition bootstrap ::
  "subtle \<Rightarrow> instant \<Rightarrow> (api_error + status_answer) \<Rightarrow> (api_error + handshake_message \<times> int) \<Rightarrow>
    (int \<Rightarrow> api_error + sync_row list) \<Rightarrow> page \<Rightarrow> bool \<times> page" where
  "bootstrap S now answer pending sync pg =
     (case loadSession (pg_conversationId pg) None (pg_store pg) of (stored, c) \<Rightarrow>
        case ensureFreshSession S now answer pending stored (pg\<lparr>pg_store := c\<rparr>) of
          (None, pg1) \<Rightarrow> (False, pg1)
        | (Some s, pg1) \<Rightarrow>
            (case getCachedMessages (pg_conversationId pg) None (pg_store pg1) of (ms, c2) \<Rightarrow>
               (True, syncGap S sync (pg1\<lparr>pg_store := c2, pg_session := Some s, pg_messages := ms\<rparr>))))"

definition on_reconnect ::
  "subtle \<Rightarrow> instant \<Rightarrow> (api_error + status_answer) \<Rightarrow> (api_error + handshake_message \<times> int) \<Rightarrow>
    (int \<Rightarrow> api_error + sync_row list) \<Rightarrow> page \<Rightarrow> bool \<times> page" where
  "on_reconnect S now answer pending sync pg =
     (case ensureFreshSession S now answer pending (pg_session pg) pg of
        (None, pg1) \<Rightarrow> (False, pg1\<lparr>pg_session := None\<rparr>)
      | (Some s, pg1) \<Rightarrow> (True, syncGap S sync (pg1\<lparr>pg_session := Some s\<rparr>)))"


section \<open>The page and its account\<close>

definition on_page :: "ident \<Rightarrow> page \<Rightarrow> bool" where
  "on_page u pg \<longleftrightarrow> u \<noteq> '''' \<and> cl_activeCrypto (pg_store pg) = Some u \<and> pg_userId pg = Some u"

lemma as_active: "cl_activeCrypto c = Some u \<Longrightarrow> u \<noteq> '''' \<Longrightarrow> as_user None d k c = as_user (Some u) d k c"
  by simp

lemma explicit_active:
  assumes "cl_activeCrypto c = Some u" "u \<noteq> ''''"
  shows "getCachedMessages cid None c = getCachedMessages cid (Some u) c"
    "saveSession cid s None c = saveSession cid s (Some u) c"
    "updateCachedMessage cid i f None c = updateCachedMessage cid i f (Some u) c"
    "removeCachedMessage cid i None c = removeCachedMessage cid i (Some u) c"
    "clearCachedMessages cid None c = clearCachedMessages cid (Some u) c"
    "deleteSession cid None c = deleteSession cid (Some u) c"
    "loadSession cid None c = loadSession cid (Some u) c"
    "\<not> cm_mine m \<or> cm_senderId m = u \<Longrightarrow> appendCachedMessage m None c = appendCachedMessage m (Some u) c"
  using assms
  by (auto simp: getCachedMessages_def saveSession_def updateCachedMessage_def removeCachedMessage_def
      clearCachedMessages_def deleteSession_def loadSession_def appendCachedMessage_def as_active)

lemma active_take_over [simp]:
  "cl_activeCrypto (snd (take_over as mk primary olds c)) = cl_activeCrypto c"
  by (induction olds) (auto split: option.splits)

lemma active_kept [simp]:
  assumes "u \<noteq> ''''"
  shows "cl_activeCrypto (snd (getCachedMessages cid (Some u) c)) = cl_activeCrypto c"
    "cl_activeCrypto (saveSession cid s (Some u) c) = cl_activeCrypto c"
    "cl_activeCrypto (updateCachedMessage cid i f (Some u) c) = cl_activeCrypto c"
    "cl_activeCrypto (removeCachedMessage cid i (Some u) c) = cl_activeCrypto c"
    "cl_activeCrypto (appendCachedMessage m (Some u) c) = cl_activeCrypto c"
    "cl_activeCrypto (enqueueOutboxItem w x c) = cl_activeCrypto c"
    "cl_activeCrypto (removeOutboxItem w i c) = cl_activeCrypto c"
proof -
  show g: "cl_activeCrypto (snd (getCachedMessages cid (Some u) c)) = cl_activeCrypto c" for cid c
    using assms by (simp add: getCachedMessages_def read_migrating_def case_prod_unfold split: option.splits)
  show "cl_activeCrypto (saveSession cid s (Some u) c) = cl_activeCrypto c"
    "cl_activeCrypto (updateCachedMessage cid i f (Some u) c) = cl_activeCrypto c"
    "cl_activeCrypto (removeCachedMessage cid i (Some u) c) = cl_activeCrypto c"
    "cl_activeCrypto (appendCachedMessage m (Some u) c) = cl_activeCrypto c"
    "cl_activeCrypto (enqueueOutboxItem w x c) = cl_activeCrypto c"
    "cl_activeCrypto (removeOutboxItem w i c) = cl_activeCrypto c"
    using assms g by (simp_all add: saveSession_def updateCachedMessage_def removeCachedMessage_def
        appendCachedMessage_def enqueueOutboxItem_def removeOutboxItem_def case_prod_unfold Let_def)
qed

abbreviation history :: "ident \<Rightarrow> page \<Rightarrow> cached_message list" where
  "history u pg \<equiv> cached u (pg_conversationId pg) (pg_store pg)"

lemma page_fields [simp]:
  "pg_conversationId (keep_session s pg) = pg_conversationId pg" "pg_session (keep_session s pg) = Some s"
  "pg_messages (keep_session s pg) = pg_messages pg" "pg_userId (keep_session s pg) = pg_userId pg"
  "pg_sent (keep_session s pg) = pg_sent pg" "pg_expired (keep_session s pg) = pg_expired pg"
  "pg_editingId (keep_session s pg) = pg_editingId pg"
  "pg_conversationId (log_request r pg) = pg_conversationId pg" "pg_session (log_request r pg) = pg_session pg"
  "pg_store (log_request r pg) = pg_store pg" "pg_userId (log_request r pg) = pg_userId pg"
  "pg_messages (log_request r pg) = pg_messages pg" "pg_sent (log_request r pg) = pg_sent pg @ [r]"
  "pg_expired (log_request r pg) = pg_expired pg" "pg_editingId (log_request r pg) = pg_editingId pg"
  "pg_conversationId (mapMessages i f pg) = pg_conversationId pg" "pg_session (mapMessages i f pg) = pg_session pg"
  "pg_store (mapMessages i f pg) = pg_store pg" "pg_userId (mapMessages i f pg) = pg_userId pg"
  "pg_sent (mapMessages i f pg) = pg_sent pg"
  by (simp_all add: keep_session_def log_request_def mapMessages_def)

lemma store_keep: "on_page u pg \<Longrightarrow> pg_store (keep_session s pg) = saveSession (pg_conversationId pg) s (Some u) (pg_store pg)"
  by (simp add: keep_session_def on_page_def explicit_active)

lemma raise_fields [simp]:
  "ss_receivingChainKey (raise_watermark n s) = ss_receivingChainKey s" "ss_recvStep (raise_watermark n s) = ss_recvStep s"
  "ss_sendingChainKey (raise_watermark n s) = ss_sendingChainKey s" "ss_sendStep (raise_watermark n s) = ss_sendStep s"
  "ss_epoch (raise_watermark n s) = ss_epoch s"
  by (simp_all add: raise_watermark_def)

text \<open>A message that is in the cache already leaves the chain where it is.\<close>

lemma receive_again:
  assumes "on_page u pg" "pg_session pg = Some s" "in_id m \<in> cm_id ` set (history u pg)"
  shows "pg_session (processIncoming S m pg) = Some (raise_watermark (in_sequenceNumber m) s)"
    "history u (processIncoming S m pg) = history u pg" "on_page u (processIncoming S m pg)"
    "pg_conversationId (processIncoming S m pg) = pg_conversationId pg"
proof -
  have u: "u \<noteq> ''''" "cl_activeCrypto (pg_store pg) = Some u" using assms(1) by (simp_all add: on_page_def)
  have e: "\<exists>c \<in> set (history u pg). cm_id c = in_id m" using assms(3) by (simp add: id_in_image)
  have p: "processIncoming S m pg = keep_session (raise_watermark (in_sequenceNumber m) s)
      (pg\<lparr>pg_store := snd (getCachedMessages (pg_conversationId pg) (Some u) (pg_store pg))\<rparr>)"
    using e assms(2) u by (simp add: processIncoming_def explicit_active [OF u(2,1)] case_prod_unfold)
  have q: "on_page u (pg\<lparr>pg_store := snd (getCachedMessages (pg_conversationId pg) (Some u) (pg_store pg))\<rparr>)"
    using assms(1) u by (simp add: on_page_def)
  show "pg_session (processIncoming S m pg) = Some (raise_watermark (in_sequenceNumber m) s)"
    "pg_conversationId (processIncoming S m pg) = pg_conversationId pg" by (simp_all add: p)
  show "history u (processIncoming S m pg) = history u pg"
    using u by (simp add: p store_keep [OF q] cached_read)
  show "on_page u (processIncoming S m pg)" using q u by (simp add: p on_page_def store_keep [OF q])
qed

text \<open>A new message is decrypted with the chain where it is, and the chain moves one step.\<close>

lemma receive_new:
  assumes "on_page u pg" "pg_session pg = Some s" "in_id m \<notin> cm_id ` set (history u pg)"
    and r: "ratchet_receive S (pg_conversationId pg) s (in_ciphertext m) (in_iv m) = (text, s1)"
  shows "pg_session (processIncoming S m pg) = Some (raise_watermark (in_sequenceNumber m) s1)"
    "on_page u (processIncoming S m pg)" "pg_conversationId (processIncoming S m pg) = pg_conversationId pg"
    "\<exists>c. history u (processIncoming S m pg) = history u pg @ [c] \<and> cm_id c = in_id m \<and> cm_text c = text"
proof -
  let ?cid = "pg_conversationId pg" and ?w = "raise_watermark (in_sequenceNumber m) s1"
  have u: "u \<noteq> ''''" "cl_activeCrypto (pg_store pg) = Some u" using assms(1) by (simp_all add: on_page_def)
  have e: "\<not> (\<exists>c \<in> set (history u pg). cm_id c = in_id m)" using assms(3) by (simp add: id_in_image)
  let ?c1 = "snd (getCachedMessages ?cid (Some u) (pg_store pg))"
  let ?pg1 = "pg\<lparr>pg_store := ?c1\<rparr>"
  let ?c2 = "saveSession ?cid ?w (Some u) ?c1"
  let ?c3 = "snd (getCachedMessages ?cid (Some u) ?c2)"
  let ?pg3 = "(keep_session ?w ?pg1)\<lparr>pg_store := ?c3\<rparr>"
  have q: "on_page u ?pg1" using assms(1) u by (simp add: on_page_def)
  have a: "cl_activeCrypto ?c1 = Some u" "cl_activeCrypto ?c2 = Some u" "cl_activeCrypto ?c3 = Some u" using u by simp_all
  have h: "cached u ?cid ?c1 = history u pg" "cached u ?cid ?c2 = history u pg" "cached u ?cid ?c3 = history u pg"
    using u by (simp_all add: cached_read)
  let ?msg = "received_message ?pg3 (history u pg) text m"
  have p: "\<exists>ms. processIncoming S m pg =
      (let pg4 = ?pg3\<lparr>pg_store := appendCachedMessage ?msg (Some u) ?c3, pg_messages := ms\<rparr>
       in if pg_readReceipts pg4 then log_request (Mark_Read (in_id m)) pg4 else pg4)"
    using e r assms(2) u
    by (simp add: processIncoming_def explicit_active(1) [OF u(2,1)] case_prod_unfold store_keep [OF q]
        explicit_active(1) [OF a(2) u(1)] h explicit_active(8) [OF a(3) u(1)] Let_def received_message_def)
       blast
  then obtain ms where ms: "processIncoming S m pg =
      (let pg4 = ?pg3\<lparr>pg_store := appendCachedMessage ?msg (Some u) ?c3, pg_messages := ms\<rparr>
       in if pg_readReceipts pg4 then log_request (Mark_Read (in_id m)) pg4 else pg4)" by blast
  have st: "pg_store (processIncoming S m pg) = appendCachedMessage ?msg (Some u) ?c3"
    by (simp add: ms Let_def)
  show "pg_session (processIncoming S m pg) = Some ?w" "pg_conversationId (processIncoming S m pg) = ?cid"
    by (simp_all add: ms Let_def)
  then have "history u (processIncoming S m pg) = history u pg @ [?msg]"
    using assms(3) u h by (simp add: st cached_append received_message_def)
  then show "\<exists>c. history u (processIncoming S m pg) = history u pg @ [c] \<and> cm_id c = in_id m \<and> cm_text c = text"
    by (simp add: received_message_def)
  show "on_page u (processIncoming S m pg)"
    using u a assms(1) st by (simp add: on_page_def) (simp add: ms Let_def)
qed


section \<open>Two pages and a relay\<close>

definition chain_at :: "subtle \<Rightarrow> bytes \<Rightarrow> nat \<Rightarrow> bytes" where
  "chain_at S ck n = (deriveNextChainKey S ^^ n) ck"

lemma chain_at_simps [simp]: "chain_at S ck 0 = ck" "deriveNextChainKey S (chain_at S ck n) = chain_at S ck (Suc n)"
  "chain_at S (deriveNextChainKey S ck) n = chain_at S ck (Suc n)"
  by (simp_all add: chain_at_def funpow_swap1)

text \<open>
  What the network makes of the posted messages: each arrival is the number of the
  message, counted from the first, and what took the place of its envelope, if
  anything did. Messages arrive in order, and any that arrived may arrive again.
\<close>

type_synonym arrival = "nat \<times> envelope option"

fun in_order :: "nat \<Rightarrow> arrival list \<Rightarrow> bool" where
  "in_order n [] \<longleftrightarrow> True"
| "in_order n ((i, t) # xs) \<longleftrightarrow> (if i = n then in_order (Suc n) xs else i < n \<and> in_order n xs)"

text \<open>For every message that arrived, whether its first arrival was intact.\<close>

fun first_intact :: "nat \<Rightarrow> arrival list \<Rightarrow> bool list" where
  "first_intact n [] = []"
| "first_intact n ((i, t) # xs) = (if i = n then (t = None) # first_intact (Suc n) xs else first_intact n xs)"

definition arrive :: "(nat \<Rightarrow> incoming_message) \<Rightarrow> arrival \<Rightarrow> incoming_message" where
  "arrive base = (\<lambda>(i, t). case t of None \<Rightarrow> base i | Some (c, v) \<Rightarrow> (base i)\<lparr>in_ciphertext := c, in_iv := v\<rparr>)"

lemma arrive_id [simp]: "in_id (arrive base (i, t)) = in_id (base i)"
  by (simp add: arrive_def split: option.splits prod.splits)

lemma ratchet_receive_step:
  "ratchet_receive S cid s c v = (text, s1) \<Longrightarrow>
     ss_receivingChainKey s1 = deriveNextChainKey S (ss_receivingChainKey s) \<and> ss_recvStep s1 = Suc (ss_recvStep s)"
  by (auto simp: ratchet_receive_def Let_def dest: ratchetDecrypt_next split: sum.splits)

lemma ratchet_receive_intact:
  assumes "opens S" and "(c, v) = fst (ratchetEncrypt S iv (ss_receivingChainKey s) text (buildAad cid (ss_recvStep s)))"
  shows "fst (ratchet_receive S cid s c v) = text"
  using ratchet_roundtrip [OF assms(1)] assms(2) by (simp add: ratchet_receive_def)

text \<open>
  The specification of a reader who has seen \<open>n\<close> of \<open>N\<close> messages: the new part of the
  history holds the messages that arrived, in order, each intact one with its text,
  and the receiving chain stands after the last.
\<close>

definition reads_along :: "subtle \<Rightarrow> ident \<Rightarrow> (nat \<Rightarrow> incoming_message) \<Rightarrow> (nat \<Rightarrow> string) \<Rightarrow> bytes \<Rightarrow> nat \<Rightarrow> nat \<Rightarrow> nat \<Rightarrow>
    arrival list \<Rightarrow> page \<Rightarrow> page \<Rightarrow> bool" where
  "reads_along S u base texts c0 k0 N n xs pg pg' \<longleftrightarrow>
     (\<exists>rows s'. history u pg' = history u pg @ rows \<and> length rows = length (first_intact n xs) \<and>
        n + length rows \<le> N \<and> pg_session pg' = Some s' \<and>
        ss_receivingChainKey s' = chain_at S c0 (n + length rows) \<and> ss_recvStep s' = k0 + n + length rows \<and>
        (\<forall>i < length rows. cm_id (rows ! i) = in_id (base (n + i)) \<and>
           (first_intact n xs ! i \<longrightarrow> cm_text (rows ! i) = texts (n + i))))"

lemma reads_along_again:
  "reads_along S u base texts c0 k0 N n xs pg1 pg' \<Longrightarrow> history u pg1 = history u pg \<Longrightarrow> i < n \<Longrightarrow>
     reads_along S u base texts c0 k0 N n ((i, t) # xs) pg pg'"
  by (simp add: reads_along_def)

lemma reads_along_new:
  assumes "reads_along S u base texts c0 k0 N (Suc n) xs pg1 pg'" "history u pg1 = history u pg @ [c]"
    "cm_id c = in_id (base n)" "t = None \<Longrightarrow> cm_text c = texts n"
  shows "reads_along S u base texts c0 k0 N n ((n, t) # xs) pg pg'"
proof -
  obtain rows s' where r: "history u pg' = history u pg1 @ rows" "length rows = length (first_intact (Suc n) xs)"
    "Suc n + length rows \<le> N" "pg_session pg' = Some s'"
    "ss_receivingChainKey s' = chain_at S c0 (Suc n + length rows)" "ss_recvStep s' = k0 + Suc n + length rows"
    "\<forall>i < length rows. cm_id (rows ! i) = in_id (base (Suc n + i)) \<and>
       (first_intact (Suc n) xs ! i \<longrightarrow> cm_text (rows ! i) = texts (Suc n + i))"
    using assms(1) unfolding reads_along_def by auto
  show ?thesis unfolding reads_along_def
    by (rule exI [of _ "c # rows"], rule exI [of _ s']) (use r assms(2-4) in \<open>auto simp: nth_Cons split: nat.splits\<close>)
qed

lemma receive_schedule:
  assumes "opens S" "on_page u pg" "pg_session pg = Some s"
    and "ss_receivingChainKey s = chain_at S c0 n" "ss_recvStep s = k0 + n" "n \<le> N" "pg_conversationId pg = cid"
    and envs: "\<And>i. i < N \<Longrightarrow> (in_ciphertext (base i), in_iv (base i)) =
        fst (ratchetEncrypt S (ivs i) (chain_at S c0 i) (texts i) (buildAad cid (k0 + i)))"
    and "in_order n xs" "\<And>x. x \<in> set xs \<Longrightarrow> fst x < N"
    and "\<And>i. i < N \<Longrightarrow> in_id (base i) \<in> cm_id ` set (history u pg) \<longleftrightarrow> i < n"
    and inj: "\<And>i j. i < N \<Longrightarrow> j < N \<Longrightarrow> in_id (base i) = in_id (base j) \<Longrightarrow> i = j"
  shows "reads_along S u base texts c0 k0 N n xs pg (fold (processIncoming S) (map (arrive base) xs) pg)"
  using assms(2-7,9-11)
proof (induction xs arbitrary: pg s n)
  case Nil
  then show ?case by (simp add: reads_along_def)
next
  case (Cons x xs)
  obtain i t where x: "x = (i, t)" by (cases x)
  let ?m = "arrive base (i, t)"
  have N: "\<And>x. x \<in> set xs \<Longrightarrow> fst x < N" using Cons.prems(8) by simp
  have iN: "i < N" using Cons.prems(8) [of x] by (simp add: x)
  show ?case
  proof (cases "i = n")
    case False
    then have i: "i < n" "in_order n xs" using Cons.prems(7) by (simp_all add: x)
    then have "in_id ?m \<in> cm_id ` set (history u pg)" using Cons.prems(9) iN by simp
    note again = receive_again [OF Cons.prems(1,2) this, of S]
    have "reads_along S u base texts c0 k0 N n xs (processIncoming S ?m pg)
        (fold (processIncoming S) (map (arrive base) xs) (processIncoming S ?m pg))"
      by (rule Cons.IH [OF again(3) again(1)]) (use Cons.prems i N again in auto)
    from reads_along_again [OF this again(2) i(1)] show ?thesis by (simp add: x)
  next
    case True
    then have ord: "in_order (Suc n) xs" using Cons.prems(7) by (simp add: x)
    have nN: "n < N" using iN True by simp
    have fresh: "in_id ?m \<notin> cm_id ` set (history u pg)" using Cons.prems(9) [OF iN] True by simp
    obtain pt s1 where r: "ratchet_receive S (pg_conversationId pg) s (in_ciphertext ?m) (in_iv ?m) = (pt, s1)"
      by (cases "ratchet_receive S (pg_conversationId pg) s (in_ciphertext ?m) (in_iv ?m)")
    note new = receive_new [OF Cons.prems(1,2) fresh r]
    obtain c where c: "history u (processIncoming S ?m pg) = history u pg @ [c]" "cm_id c = in_id ?m" "cm_text c = pt"
      using new(4) by blast
    have s1: "ss_receivingChainKey s1 = chain_at S c0 (Suc n)" "ss_recvStep s1 = k0 + Suc n"
      using ratchet_receive_step [OF r] Cons.prems(3,4) by simp_all
    have ok: "pt = texts n" if "t = None"
    proof -
      have "fst (ratchet_receive S cid s (in_ciphertext (base n)) (in_iv (base n))) = texts n"
        by (rule ratchet_receive_intact [OF assms(1)]) (use envs [OF nN] Cons.prems(3,4) in simp)
      then show ?thesis using r that True Cons.prems(6) by (simp add: arrive_def)
    qed
    have ids: "in_id (base j) \<in> cm_id ` set (history u (processIncoming S ?m pg)) \<longleftrightarrow> j < Suc n" if "j < N" for j
      using Cons.prems(9) [OF that] inj [OF that nN] c True by (auto simp: less_Suc_eq)
    have "reads_along S u base texts c0 k0 N (Suc n) xs (processIncoming S ?m pg)
        (fold (processIncoming S) (map (arrive base) xs) (processIncoming S ?m pg))"
      by (rule Cons.IH [OF new(2) new(1)]) (use s1 nN N ord ids new(3) Cons.prems(6) in auto)
    from reads_along_new [OF this c(1)] show ?thesis using c ok True by (simp add: x)
  qed
qed


section \<open>The sender\<close>

text \<open>A send that goes through: the text, what it meets, and the answer.\<close>

type_synonym draft = "string \<times> attempt_env \<times> cached_message option"

fun send_all :: "subtle \<Rightarrow> draft list \<Rightarrow> page \<Rightarrow> page" where
  "send_all S [] pg = pg"
| "send_all S ((t, a, r) # ds) pg = send_all S ds (sendDirectText S a t (Some r) pg)"

definition goes_through :: "draft \<Rightarrow> bool" where
  "goes_through = (\<lambda>(t, a, r). js_trim t \<noteq> '''' \<and> tr_online a \<and> (\<exists>x. tr_answer a = Inr x))"

definition ready_to_send :: "ident \<Rightarrow> page \<Rightarrow> bool" where
  "ready_to_send u pg \<longleftrightarrow> on_page u pg \<and> pg_session pg \<noteq> None \<and> \<not> pg_expired pg \<and> given (pg_editingId pg) = None"

text \<open>The envelope of the message that is sent in state \<open>s\<close> after \<open>n\<close> others.\<close>

definition envelope_at :: "subtle \<Rightarrow> ident \<Rightarrow> stored_session \<Rightarrow> nat \<Rightarrow> bytes \<Rightarrow> string \<Rightarrow> envelope" where
  "envelope_at S cid s n iv plain =
     fst (ratchetEncrypt S iv (chain_at S (ss_sendingChainKey s) n) plain (buildAad cid (ss_sendStep s + n)))"

lemma cache_fields [simp]:
  "pg_session (cache_and_show m pg) = pg_session pg" "pg_conversationId (cache_and_show m pg) = pg_conversationId pg"
  "pg_sent (cache_and_show m pg) = pg_sent pg" "pg_expired (cache_and_show m pg) = pg_expired pg"
  "pg_editingId (cache_and_show m pg) = pg_editingId pg" "pg_userId (cache_and_show m pg) = pg_userId pg"
  "pg_store (cache_and_show m pg) = appendCachedMessage m None (pg_store pg)"
  by (simp_all add: cache_and_show_def)

lemma own_sender: "on_page u pg \<Longrightarrow> cm_senderId (own_message pg i t at0 st r p) = u"
  by (simp add: own_message_def on_page_def)

lemma send_through:
  assumes "ready_to_send u pg" "goes_through (t, a, r)" "pg_session pg = Some s"
    and pg'_def: "pg' = sendDirectText S a t (Some r) pg"
  shows "ready_to_send u pg'" "pg_conversationId pg' = pg_conversationId pg"
    "pg_session pg' = Some (s\<lparr>ss_sendingChainKey := deriveNextChainKey S (ss_sendingChainKey s), ss_sendStep := Suc (ss_sendStep s)\<rparr>)"
    "pg_sent pg' = pg_sent pg @ [Post_Message (make_post pg (tr_id a)
       (envelope_at S (pg_conversationId pg) s 0 (tr_iv a) (js_trim t)) ''TEXT'' (map_option cm_id r) None (ss_epoch s))]"
proof -
  have u: "u \<noteq> ''''" "cl_activeCrypto (pg_store pg) = Some u" "on_page u pg" "given (pg_editingId pg) = None" "\<not> pg_expired pg"
    using assms(1) by (simp_all add: ready_to_send_def on_page_def)
  obtain x where x: "tr_answer a = Inr x" "js_trim t \<noteq> ''''" "tr_online a" using assms(2) by (auto simp: goes_through_def)
  let ?s1 = "s\<lparr>ss_sendingChainKey := deriveNextChainKey S (ss_sendingChainKey s), ss_sendStep := Suc (ss_sendStep s)\<rparr>"
  let ?env = "envelope_at S (pg_conversationId pg) s 0 (tr_iv a) (js_trim t)"
  have rs: "ratchet_send S (pg_conversationId pg) (tr_iv a) s (js_trim t) = (?env, ?s1)"
    by (simp add: ratchet_send_def envelope_at_def case_prod_unfold)
  have k: "on_page u (keep_session ?s1 pg)"
    using u store_keep [OF u(3), of ?s1] by (simp add: on_page_def)
  have mp: "make_post (keep_session ?s1 pg) i e k r b ep = make_post pg i e k r b ep" for i e k r b ep
    by (simp add: make_post_def)
  obtain m pg2 where p: "pg' = cache_and_show m pg2" "cm_senderId m = u"
    "pg2 = log_request (Post_Message (make_post pg (tr_id a) ?env ''TEXT'' (map_option cm_id r) None (ss_epoch s))) (keep_session ?s1 pg)"
  proof
    let ?pg2 = "log_request (Post_Message (make_post pg (tr_id a) ?env ''TEXT'' (map_option cm_id r) None (ss_epoch s))) (keep_session ?s1 pg)"
    let ?m = "own_message ?pg2 (sr_id x) (js_trim t) (sr_sentAt x) (if sr_delivered x then Delivered else Sent)
        (map_option cm_id r) (map_option (reply_payload pg) r)"
    show "pg' = cache_and_show ?m ?pg2"
      using x u(4,5) assms(3) by (simp add: pg'_def sendDirectText_def Let_def rs mp)
    show "cm_senderId ?m = u" using k by (intro own_sender) (simp add: on_page_def)
  qed simp
  show "pg_conversationId pg' = pg_conversationId pg" "pg_session pg' = Some ?s1"
    "pg_sent pg' = pg_sent pg @ [Post_Message (make_post pg (tr_id a) ?env ''TEXT'' (map_option cm_id r) None (ss_epoch s))]"
    by (simp_all add: p(1,3))
  have a: "cl_activeCrypto (pg_store pg2) = Some u" using k by (simp add: p(3) on_page_def)
  then have "cl_activeCrypto (pg_store pg') = Some u"
    using u(1) p(2) by (simp add: p(1) explicit_active(8) [OF a u(1)])
  then show "ready_to_send u pg'" using u assms(1) by (simp add: ready_to_send_def on_page_def p(1,3))
qed

definition post_at :: "subtle \<Rightarrow> page \<Rightarrow> stored_session \<Rightarrow> draft list \<Rightarrow> nat \<Rightarrow> post" where
  "post_at S pg s ds i =
     (case ds ! i of (t, a, r) \<Rightarrow> make_post pg (tr_id a)
        (envelope_at S (pg_conversationId pg) s i (tr_iv a) (js_trim t)) ''TEXT'' (map_option cm_id r) None (ss_epoch s))"

lemma post_at_Suc:
  assumes "pg_conversationId pg' = pg_conversationId pg"
  shows "post_at S pg' (s\<lparr>ss_sendingChainKey := deriveNextChainKey S (ss_sendingChainKey s),
    ss_sendStep := Suc (ss_sendStep s)\<rparr>) ds i = post_at S pg s (d # ds) (Suc i)"
  using assms by (simp add: post_at_def make_post_def envelope_at_def)

lemma send_all_through:
  assumes "ready_to_send u pg" "\<forall>d \<in> set ds. goes_through d" "pg_session pg = Some s"
  shows "\<exists>s'. pg_session (send_all S ds pg) = Some s' \<and>
      ss_sendingChainKey s' = chain_at S (ss_sendingChainKey s) (length ds) \<and> ss_sendStep s' = ss_sendStep s + length ds \<and>
      pg_sent (send_all S ds pg) = pg_sent pg @ map (\<lambda>i. Post_Message (post_at S pg s ds i)) [0..<length ds]"
  using assms
proof (induction ds arbitrary: pg s)
  case Nil
  then show ?case by simp
next
  case (Cons d ds)
  obtain t a r where d: "d = (t, a, r)" by (cases d)
  have g: "goes_through (t, a, r)" using Cons.prems(2) by (simp add: d)
  note one = send_through [OF Cons.prems(1) g Cons.prems(3) refl, of S]
  let ?s1 = "s\<lparr>ss_sendingChainKey := deriveNextChainKey S (ss_sendingChainKey s), ss_sendStep := Suc (ss_sendStep s)\<rparr>"
  obtain s' where s': "pg_session (send_all S (d # ds) pg) = Some s'"
    "ss_sendingChainKey s' = chain_at S (ss_sendingChainKey ?s1) (length ds)" "ss_sendStep s' = ss_sendStep ?s1 + length ds"
    "pg_sent (send_all S (d # ds) pg) = pg_sent (sendDirectText S a t (Some r) pg) @
      map (\<lambda>i. Post_Message (post_at S (sendDirectText S a t (Some r) pg) ?s1 ds i)) [0..<length ds]"
    using Cons.IH [OF one(1) _ one(3)] Cons.prems(2) by (auto simp: d)
  have "map (\<lambda>i. Post_Message (post_at S (sendDirectText S a t (Some r) pg) ?s1 ds i)) [0..<length ds] =
      map (\<lambda>i. Post_Message (post_at S pg s (d # ds) i)) [Suc 0..<Suc (length ds)]"
    unfolding map_Suc_upt [symmetric] by (simp add: post_at_Suc [OF one(2), of S s ds _ d])
  moreover have "post_at S pg s (d # ds) 0 = make_post pg (tr_id a)
       (envelope_at S (pg_conversationId pg) s 0 (tr_iv a) (js_trim t)) ''TEXT'' (map_option cm_id r) None (ss_epoch s)"
    by (simp add: post_at_def d)
  ultimately show ?case using s' one(4) by (intro exI [of _ s']) (simp add: upt_conv_Cons del: upt_Suc)
qed


section \<open>The conversation survives the network\<close>

definition relayed :: "ident \<Rightarrow> int \<Rightarrow> send_result \<Rightarrow> post \<Rightarrow> incoming_message" where
  "relayed sender n r p =
     \<lparr>in_id = sr_id r, in_senderId = sender, in_sequenceNumber = n, in_ciphertext = po_ciphertext p, in_iv = po_iv p,
      in_sentAt = sr_sentAt r, in_replyToMessageId = po_replyToMessageId p\<rparr>"

definition result_of :: "draft \<Rightarrow> send_result" where
  "result_of = (\<lambda>(t, a, r). case tr_answer a of Inr x \<Rightarrow> x | Inl _ \<Rightarrow> \<lparr>sr_id = '''', sr_sentAt = '''', sr_delivered = False\<rparr>)"



definition fresh_page :: "ident \<Rightarrow> stored_session \<Rightarrow> page" where
  "fresh_page u s =
     \<lparr>pg_store = setActiveCryptoUser (Some u) empty_client, pg_conversationId = ''k'', pg_userId = Some u,
      pg_session = Some s, pg_messages = [], pg_otherUsername = None, pg_replyTo = None, pg_editingId = None,
      pg_expired = False, pg_readReceipts = True, pg_sent = []\<rparr>"

definition good_attempt :: "ident \<Rightarrow> attempt_env" where
  "good_attempt i =
     \<lparr>tr_iv = ''iv'', tr_id = ''c'' @ i, tr_sentAt = ''t'', tr_now = 0, tr_online = True,
      tr_answer = Inr \<lparr>sr_id = i, sr_sentAt = ''t'', sr_delivered = True\<rparr>, tr_still_online = True\<rparr>"

definition mirrored :: "stored_session \<Rightarrow> stored_session" where
  "mirrored s = s\<lparr>ss_sendingChainKey := ss_receivingChainKey s, ss_receivingChainKey := ss_sendingChainKey s,
     ss_sendStep := ss_recvStep s, ss_recvStep := ss_sendStep s\<rparr>"

lemma fresh_page_facts [simp]:
  "u \<noteq> '''' \<Longrightarrow> on_page u (fresh_page u s)" "u \<noteq> '''' \<Longrightarrow> ready_to_send u (fresh_page u s)"
  "pg_session (fresh_page u s) = Some s" "pg_conversationId (fresh_page u s) = ''k''" "pg_sent (fresh_page u s) = []"
  "w \<noteq> '''' \<Longrightarrow> cached w x (pg_store (fresh_page u s)) = []"
  by (simp_all add: on_page_def ready_to_send_def fresh_page_def setActiveCryptoUser_def given_def getCachedMessages_def
      read_migrating_def idbGet_def empty_client_def case_prod_unfold)



section \<open>The outbox drains in order\<close>

text \<open>An answer that settles an item: it was stored, or refused for good.\<close>

definition settles :: "attempt_env \<Rightarrow> bool" where
  "settles a \<longleftrightarrow> tr_online a \<and> (case tr_answer a of Inr _ \<Rightarrow> True | Inl e \<Rightarrow> \<not> isTransient (tr_still_online a) e)"

definition sealed_item :: "ident \<Rightarrow> outbox_item \<Rightarrow> bool" where
  "sealed_item cid i \<longleftrightarrow> ob_conversationId i = cid \<and> given (ob_ciphertext i) \<noteq> None \<and> given (ob_iv i) \<noteq> None"

definition item_post :: "page \<Rightarrow> outbox_item \<Rightarrow> int \<Rightarrow> post" where
  "item_post pg i epoch = make_post pg (ob_id i) (the (ob_ciphertext i), the (ob_iv i)) ''TEXT'' (ob_replyToMessageId i) None
     (case ob_sessionEpoch i of Some e \<Rightarrow> e | None \<Rightarrow> epoch)"

fun settled_count :: "(nat \<Rightarrow> attempt_env) \<Rightarrow> nat \<Rightarrow> nat \<Rightarrow> nat" where
  "settled_count env k 0 = 0"
| "settled_count env k (Suc n) = (if settles (env k) then Suc (settled_count env (Suc k) n) else 0)"

fun tried_count :: "(nat \<Rightarrow> attempt_env) \<Rightarrow> nat \<Rightarrow> nat \<Rightarrow> nat" where
  "tried_count env k 0 = 0"
| "tried_count env k (Suc n) =
     (if \<not> tr_online (env k) then 0 else if settles (env k) then Suc (tried_count env (Suc k) n) else 1)"

lemma settled_count_le: "settled_count env k n \<le> n"
  by (induction n arbitrary: k) auto

lemma settled_all: "(\<And>i. settles (env i)) \<Longrightarrow> settled_count env k n = n"
  by (induction n arbitrary: k) auto

lemma outbox_take_over [simp]:
  "outbox_key w \<noteq> p \<Longrightarrow> outbox_key w \<notin> set olds \<Longrightarrow>
     idbGet as_outbox (outbox_key w) (snd (take_over as mk p olds c)) = idbGet as_outbox (outbox_key w) c"
  by (induction olds) (auto split: option.splits)

lemma outbox_getCached [simp]:
  "u \<noteq> '''' \<Longrightarrow> idbGet as_outbox (outbox_key w) (snd (getCachedMessages cid (Some u) c)) = idbGet as_outbox (outbox_key w) c"
  by (simp add: getCachedMessages_def read_migrating_def case_prod_unfold split: option.splits)

lemma outbox_of_cache [simp]:
  assumes "u \<noteq> ''''"
  shows "getOutboxItems w x (updateCachedMessage cid i f (Some u) c) = getOutboxItems w x c"
    "getOutboxItems w x (appendCachedMessage m (Some u) c) = getOutboxItems w x c"
    "getOutboxItems w x (saveSession cid s (Some u) c) = getOutboxItems w x c"
  using assms by (simp_all add: getOutboxItems_def updateCachedMessage_def appendCachedMessage_def saveSession_def
      case_prod_unfold)

lemma outbox_of_conversation:
  "u \<noteq> '''' \<Longrightarrow> cid \<noteq> '''' \<Longrightarrow> getOutboxItems u (Some cid) c = filter (\<lambda>i. ob_conversationId i = cid) (getOutboxItems u None c)"
  by (simp add: getOutboxItems_def given_def Let_def)

text \<open>One settled item.\<close>

definition settle_item :: "ident \<Rightarrow> outbox_item \<Rightarrow> (api_error + send_result) \<Rightarrow> page \<Rightarrow> page" where
  "settle_item u item answer pg =
     (let st = (case answer of Inl _ \<Rightarrow> Failed | Inr r \<Rightarrow> if sr_delivered r then Delivered else Sent);
          c = updateCachedMessage (pg_conversationId pg) (ob_id item) (\<lambda>m. m\<lparr>cm_status := st\<rparr>) None
                (removeOutboxItem u (ob_id item) (pg_store pg))
      in mapMessages (ob_id item) (\<lambda>m. case answer of Inl _ \<Rightarrow> m\<lparr>cm_status := st\<rparr>
            | Inr r \<Rightarrow> m\<lparr>cm_status := st, cm_sentAt := sr_sentAt r\<rparr>) (pg\<lparr>pg_store := c\<rparr>))"

lemma flush_step:
  assumes "pg_session pg = Some s" "sealed_item (pg_conversationId pg) item"
  defines "pg2 \<equiv> log_request (Post_Message (item_post pg item (ss_epoch s))) pg"
  shows "flush_items S u env k (item # items) pg =
    (if \<not> tr_online (env k) then pg
     else if settles (env k) then flush_items S u env (Suc k) items (settle_item u item (tr_answer (env k)) pg2)
     else pg2)"
proof -
  obtain ct v where "ob_ciphertext item = Some ct" "ob_iv item = Some v" "given (Some ct) = Some ct" "given (Some v) = Some v"
    using assms(2) by (auto simp: sealed_item_def given_def split: if_splits)
  then show ?thesis using assms(1)
    by (simp add: seal_item_def filled_def pg2_def item_post_def settles_def settle_item_def Let_def split: sum.splits)
qed

lemma settle_facts:
  assumes "on_page u pg"
  shows "on_page u (settle_item u item r pg)" "pg_session (settle_item u item r pg) = pg_session pg"
    "pg_conversationId (settle_item u item r pg) = pg_conversationId pg" "pg_sent (settle_item u item r pg) = pg_sent pg"
    "getOutboxItems u None (pg_store (settle_item u item r pg)) = filter (\<lambda>i. ob_id i \<noteq> ob_id item) (getOutboxItems u None (pg_store pg))"
    "map cm_id (history u (settle_item u item r pg)) = map cm_id (history u pg)"
proof -
  have u: "u \<noteq> ''''" "cl_activeCrypto (removeOutboxItem u (ob_id item) (pg_store pg)) = Some u"
    using assms by (simp_all add: on_page_def removeOutboxItem_def)
  note e = explicit_active(3) [OF u(2,1)]
  show "on_page u (settle_item u item r pg)" using assms u by (simp add: settle_item_def Let_def e on_page_def)
  show "pg_session (settle_item u item r pg) = pg_session pg"
    "pg_conversationId (settle_item u item r pg) = pg_conversationId pg" "pg_sent (settle_item u item r pg) = pg_sent pg"
    by (simp_all add: settle_item_def Let_def)
  show "getOutboxItems u None (pg_store (settle_item u item r pg)) = filter (\<lambda>i. ob_id i \<noteq> ob_id item) (getOutboxItems u None (pg_store pg))"
    using u by (simp add: settle_item_def Let_def e outbox_remove)
  show "map cm_id (history u (settle_item u item r pg)) = map cm_id (history u pg)"
    using u by (simp add: settle_item_def Let_def e cached_update comp_def if_distrib cong: if_cong)
qed

lemma item_post_at: "pg_conversationId pg' = pg_conversationId pg \<Longrightarrow> item_post pg' = item_post pg"
  by (simp add: item_post_def make_post_def fun_eq_iff)

lemma on_page_log [simp]: "on_page u (log_request r pg) = on_page u pg"
  by (simp add: on_page_def)

lemma flush_items_settles:
  assumes "on_page u pg" "pg_session pg = Some s" "\<forall>i \<in> set items. sealed_item (pg_conversationId pg) i"
    and pg': "pg' = flush_items S u env k items pg"
  shows "getOutboxItems u None (pg_store pg') =
      filter (\<lambda>i. ob_id i \<notin> ob_id ` set (take (settled_count env k (length items)) items))
        (getOutboxItems u None (pg_store pg)) \<and>
    pg_sent pg' = pg_sent pg @ map (\<lambda>i. Post_Message (item_post pg i (ss_epoch s))) (take (tried_count env k (length items)) items) \<and>
    pg_session pg' = Some s \<and> map cm_id (history u pg') = map cm_id (history u pg)"
  using assms(1-3) unfolding pg'
proof (induction items arbitrary: k pg)
  case Nil
  then show ?case by simp
next
  case (Cons item items)
  note step = flush_step [OF Cons.prems(2), of item S u env k items]
  have it: "sealed_item (pg_conversationId pg) item" using Cons.prems(3) by simp
  show ?case
  proof (cases "settles (env k)")
    case False
    then show ?thesis using Cons.prems(2) by (simp add: step [OF it] del: flush_items.simps)
  next
    case True
    then have on: "tr_online (env k)" by (simp add: settles_def)
    let ?p1 = "log_request (Post_Message (item_post pg item (ss_epoch s))) pg"
    let ?p2 = "settle_item u item (tr_answer (env k)) ?p1"
    have p1: "on_page u ?p1" using Cons.prems(1) by simp
    note f = settle_facts [OF p1, of item "tr_answer (env k)"]
    have ip: "item_post ?p2 = item_post pg" by (rule item_post_at) (use f(3) in simp)
    have "getOutboxItems u None (pg_store (flush_items S u env (Suc k) items ?p2)) =
        filter (\<lambda>i. ob_id i \<notin> ob_id ` set (take (settled_count env (Suc k) (length items)) items)) (getOutboxItems u None (pg_store ?p2)) \<and>
      pg_sent (flush_items S u env (Suc k) items ?p2) =
        pg_sent ?p2 @ map (\<lambda>i. Post_Message (item_post ?p2 i (ss_epoch s))) (take (tried_count env (Suc k) (length items)) items) \<and>
      pg_session (flush_items S u env (Suc k) items ?p2) = Some s \<and>
      map cm_id (history u (flush_items S u env (Suc k) items ?p2)) = map cm_id (history u ?p2)"
      by (rule Cons.IH [OF f(1)]) (use Cons.prems f(2,3) in simp_all)
    then show ?thesis using True on f by (simp add: step [OF it] ip del: flush_items.simps)
  qed
qed


lemma filter_not_take: "distinct xs \<Longrightarrow> filter (\<lambda>i. i \<notin> set (take n xs)) xs = drop n xs"
proof (induction xs arbitrary: n)
  case Nil
  then show ?case by simp
next
  case (Cons x xs)
  show ?case
  proof (cases n)
    case 0
    then show ?thesis by simp
  next
    case (Suc m)
    have "filter (\<lambda>i. i \<noteq> x \<and> i \<notin> set (take m xs)) xs = filter (\<lambda>i. i \<notin> set (take m xs)) xs"
      using Cons.prems by (intro filter_cong) auto
    then show ?thesis using Suc Cons.IH [of m] Cons.prems by simp
  qed
qed

text \<open>
  C3. The outbox drains in order: a flush posts the queued messages of the
  conversation one after the other, each with the envelope, client id and epoch it
  was queued with, up to the first that is not settled; the settled ones leave the
  outbox, all others and those of other conversations stay, so that the next flush
  starts where this one stopped; when everything settles, nothing of the
  conversation is left. The chain is not touched.
\<close>

theorem outbox_drains:
  assumes "on_page u pg" "pg_session pg = Some s" "pg_conversationId pg \<noteq> ''''"
    and items: "items = getOutboxItems u (Some (pg_conversationId pg)) (pg_store pg)"
    and sealed: "\<forall>i \<in> set items. sealed_item (pg_conversationId pg) i"
    and unique: "distinct (map ob_id (getOutboxItems u None (pg_store pg)))"
    and flushed: "pg' = flushOutbox S env True pg"
  shows "getOutboxItems u (Some (pg_conversationId pg)) (pg_store pg') = drop (settled_count env 0 (length items)) items \<and>
    filter (\<lambda>i. ob_conversationId i \<noteq> pg_conversationId pg) (getOutboxItems u None (pg_store pg')) =
      filter (\<lambda>i. ob_conversationId i \<noteq> pg_conversationId pg) (getOutboxItems u None (pg_store pg)) \<and>
    pg_sent pg' = pg_sent pg @ map (\<lambda>i. Post_Message (item_post pg i (ss_epoch s)))
      (take (tried_count env 0 (length items)) items) \<and>
    pg_session pg' = Some s \<and>
    ((\<forall>i. settles (env i)) \<longrightarrow> getOutboxItems u (Some (pg_conversationId pg)) (pg_store pg') = [])"
proof -
  let ?cid = "pg_conversationId pg" and ?n = "settled_count env 0 (length items)"
  let ?all = "getOutboxItems u None (pg_store pg)"
  have u: "u \<noteq> ''''" "given (pg_userId pg) = Some u" using assms(1) by (simp_all add: on_page_def given_def)
  have fl: "pg' = flush_items S u env 0 items pg" using u(2) assms(2) by (simp add: flushed flushOutbox_def items)
  have r: "getOutboxItems u None (pg_store pg') = filter (\<lambda>i. ob_id i \<notin> ob_id ` set (take ?n items)) ?all"
    "pg_sent pg' = pg_sent pg @ map (\<lambda>i. Post_Message (item_post pg i (ss_epoch s))) (take (tried_count env 0 (length items)) items)"
    "pg_session pg' = Some s"
    using flush_items_settles [OF assms(1,2) sealed fl] by simp_all
  have it: "items = filter (\<lambda>i. ob_conversationId i = ?cid) ?all"
    using u(1) assms(3) by (simp add: items outbox_of_conversation)
  have inj: "i = j" if "i \<in> set ?all" "j \<in> set ?all" "ob_id i = ob_id j" for i j
    using unique that by (auto simp: distinct_map dest: inj_onD)
  have sub: "set (take ?n items) \<subseteq> set ?all" using it by (auto dest: in_set_takeD)
  have gone: "ob_id i \<in> ob_id ` set (take ?n items) \<longleftrightarrow> i \<in> set (take ?n items)" if "i \<in> set ?all" for i
    using that sub inj by (auto simp: id_in_image)
  have d: "distinct items" using unique it by (metis distinct_filter distinct_map)
  have "filter (\<lambda>i. ob_id i \<notin> ob_id ` set (take ?n items)) items = filter (\<lambda>i. i \<notin> set (take ?n items)) items"
    using it gone by (intro filter_cong) auto
  also have "\<dots> = drop ?n items" by (rule filter_not_take [OF d])
  finally have kept: "filter (\<lambda>i. ob_id i \<notin> ob_id ` set (take ?n items)) items = drop ?n items" .
  have swap: "filter (\<lambda>i. ob_conversationId i = ?cid) (filter P ?all) = filter P (filter (\<lambda>i. ob_conversationId i = ?cid) ?all)" for P
    by (simp add: conj_commute)
  have left: "getOutboxItems u (Some ?cid) (pg_store pg') = drop ?n items"
    unfolding outbox_of_conversation [OF u(1) assms(3)] r(1) swap it [symmetric] by (rule kept)
  have "filter (\<lambda>i. ob_conversationId i \<noteq> ?cid) (getOutboxItems u None (pg_store pg')) = filter (\<lambda>i. ob_conversationId i \<noteq> ?cid) ?all"
    unfolding r(1) filter_filter
  proof (intro filter_cong refl)
    fix i assume i: "i \<in> set ?all"
    have "ob_conversationId i = ?cid" if "i \<in> set (take ?n items)" using that it by (auto dest: in_set_takeD)
    then show "(ob_id i \<notin> ob_id ` set (take ?n items) \<and> ob_conversationId i \<noteq> ?cid) = (ob_conversationId i \<noteq> ?cid)"
      using gone [OF i] by auto
  qed
  then show ?thesis using left r(2,3) by (simp add: settled_all)
qed


definition queued_item :: "ident \<Rightarrow> outbox_item" where
  "queued_item i =
     \<lparr>ob_id = i, ob_conversationId = ''k'', ob_senderId = ''u'', ob_text = ''x'', ob_ciphertext = Some ''c'', ob_iv = Some ''v'',
      ob_sessionEpoch = Some 1, ob_sentAt = ''t'', ob_replyToMessageId = None, ob_viewOnce = None, ob_queuedAt = 0,
      ob_retryCount = 0\<rparr>"

definition offline_page :: page where
  "offline_page = (fresh_page ''u'' some_session)
     \<lparr>pg_store := enqueueOutboxItem ''u'' (queued_item ''2'')
        (enqueueOutboxItem ''u'' (queued_item ''1'') (setActiveCryptoUser (Some ''u'') empty_client))\<rparr>"

lemma outbox_drains_witness:
  "getOutboxItems ''u'' (Some ''k'') (pg_store (flushOutbox plain_subtle
      (\<lambda>i. if i = 0 then good_attempt ''9'' else (good_attempt ''9'')\<lparr>tr_answer := Inl (Api_Error 503)\<rparr>) True offline_page)) =
    [queued_item ''2'']"
proof -
  let ?env = "\<lambda>i :: nat. if i = 0 then good_attempt ''9'' else (good_attempt ''9'')\<lparr>tr_answer := Inl (Api_Error 503)\<rparr>"
  have p: "on_page ''u'' offline_page" "pg_session offline_page = Some some_session" "pg_conversationId offline_page = ''k''"
    by (simp_all add: offline_page_def on_page_def fresh_page_def setActiveCryptoUser_def enqueueOutboxItem_def Let_def)
  have i: "getOutboxItems ''u'' None (pg_store offline_page) = [queued_item ''1'', queued_item ''2'']"
    "getOutboxItems ''u'' (Some ''k'') (pg_store offline_page) = [queued_item ''1'', queued_item ''2'']"
    by (simp_all add: offline_page_def enqueueOutboxItem_def getOutboxItems_def setActiveCryptoUser_def empty_client_def
        idbGet_def outbox_key_def key1_def given_def queued_item_def Let_def)
  have s: "settles (?env 0)" "\<not> settles (?env (Suc 0))" by (simp_all add: settles_def good_attempt_def isTransient_def)
  have "getOutboxItems ''u'' (Some ''k'') (pg_store (flushOutbox plain_subtle ?env True offline_page)) =
      drop (settled_count ?env 0 2) [queued_item ''1'', queued_item ''2'']"
    using outbox_drains [OF p(1,2) _ refl _ _ refl, of plain_subtle ?env]
    by (simp add: p(3) i sealed_item_def queued_item_def given_def numeral_2_eq_2)
  then show ?thesis using s by (simp add: numeral_2_eq_2)
qed

section \<open>A dead session is never used\<close>

definition fresh_from :: "subtle \<Rightarrow> (api_error + handshake_message \<times> int) \<Rightarrow> stored_session \<Rightarrow> bool" where
  "fresh_from S pending s \<longleftrightarrow>
     (\<exists>message identity keys one. pending = Inr (message, ss_epoch s) \<and> completeHandshake S identity message = Inr (keys, one) \<and>
        s = \<lparr>ss_sendingChainKey = sk_sending keys, ss_receivingChainKey = sk_receiving keys, ss_sendStep = 0,
             ss_recvStep = 0, ss_lastSyncedSeq = 0, ss_epoch = ss_epoch s\<rparr>)"

lemma cached_identity:
  "u \<noteq> '''' \<Longrightarrow> cached u cid (snd (getUserIdentity (Some u) c)) = cached u cid c"
  by (auto simp: getUserIdentity_def getCachedMessages_def read_migrating_def key1_def key2_def
      messages_key_def case_prod_unfold split: option.splits)

lemma active_identity: "u \<noteq> '''' \<Longrightarrow> cl_activeCrypto (snd (getUserIdentity (Some u) c)) = cl_activeCrypto c"
  by (auto simp: getUserIdentity_def split: option.splits)

lemma fresh_fromI:
  "completeHandshake S identity message = Inr (keys, one) \<Longrightarrow>
    fresh_from S (Inr (message, e)) \<lparr>ss_sendingChainKey = sk_sending keys, ss_receivingChainKey = sk_receiving keys,
      ss_sendStep = 0, ss_recvStep = 0, ss_lastSyncedSeq = 0, ss_epoch = e\<rparr>"
  by (simp add: fresh_from_def) blast

lemma complete_pending_facts:
  assumes "on_page u pg" "complete_pending S pending pg = (r, pg')"
  shows "history u pg' = history u pg" "pg_messages pg' = pg_messages pg" "r = Some s \<Longrightarrow> fresh_from S pending s"
proof -
  have u: "u \<noteq> ''''" "cl_activeCrypto (pg_store pg) = Some u" "pg_userId pg = Some u" using assms(1) by (simp_all add: on_page_def)
  obtain i c where g: "getUserIdentity (Some u) (pg_store pg) = (i, c)" by (cases "getUserIdentity (Some u) (pg_store pg)")
  have c: "cached u cid c = cached u cid (pg_store pg)" "cl_activeCrypto c = Some u" for cid
    using cached_identity [OF u(1), of cid "pg_store pg"] active_identity [OF u(1), of "pg_store pg"] u(2) g by simp_all
  note e = explicit_active(2) [OF c(2) u(1)]
  have all: "history u pg' = history u pg \<and> pg_messages pg' = pg_messages pg \<and> (r = Some s \<longrightarrow> fresh_from S pending s)"
    using assms(2) u(1) c(1)
    by (auto simp: complete_pending_def u(3) g initSession_def e Let_def intro: fresh_fromI
        split: option.splits sum.splits prod.splits)
  then show "history u pg' = history u pg" "pg_messages pg' = pg_messages pg" "r = Some s \<Longrightarrow> fresh_from S pending s"
    by simp_all
qed

lemma wipe_facts:
  assumes "on_page u pg"
  shows "on_page u (wipe_conversation pg)" "history u (wipe_conversation pg) = []" "pg_messages (wipe_conversation pg) = []"
    "pg_conversationId (wipe_conversation pg) = pg_conversationId pg"
proof -
  have u: "u \<noteq> ''''" "cl_activeCrypto (pg_store pg) = Some u" using assms by (simp_all add: on_page_def)
  have d: "cl_activeCrypto (deleteSession (pg_conversationId pg) (Some u) (pg_store pg)) = Some u"
    using u by (simp add: deleteSession_def)
  note e = explicit_active(6) [OF u(2,1)] explicit_active(5) [OF d u(1)]
  show "on_page u (wipe_conversation pg)"
    using assms u by (simp add: wipe_conversation_def e on_page_def clearCachedMessages_def deleteSession_def)
  show "history u (wipe_conversation pg) = []" "pg_messages (wipe_conversation pg) = []"
    "pg_conversationId (wipe_conversation pg) = pg_conversationId pg"
    using u by (simp_all add: wipe_conversation_def e cached_clear)
qed

text \<open>
  C4. A dead session is never used: when the server answers, the page goes on with
  the session it had exactly if the conversation is active, has not expired and is
  still in the epoch of that session; otherwise the decrypted messages leave the
  device, and any session the page goes on with comes from the handshake that waits
  for it, with fresh counters and the epoch of that handshake. When the server
  cannot be asked, the page goes on with what it had.
\<close>

theorem dead_session_never_used:
  assumes "on_page u pg" and result: "ensureFreshSession S now answer pending (Some s) pg = (r, pg')"
  shows "case answer of
      Inl e \<Rightarrow> r = Some s \<and> pg' = pg
    | Inr st \<Rightarrow>
        if sa_status st = ''ACTIVE'' \<and> ss_epoch s = sa_sessionEpoch st \<and> \<not> sa_isExpired st \<and>
           \<not> isTemporaryChatExpired (sa_expiresAt st) now
        then r = Some s \<and> history u pg' = history u pg
        else history u pg' = [] \<and> pg_messages pg' = [] \<and> (r = None \<or> fresh_from S pending (the r))"
proof (cases answer)
  case (Inl e)
  then show ?thesis using result by (simp add: ensureFreshSession_def)
next
  case (Inr st)
  have n: "on_page u (note_status now st pg)" "history u (note_status now st pg) = history u pg"
    using assms(1) by (simp_all add: note_status_def on_page_def)
  note w = wipe_facts [OF n(1)]
  show ?thesis
  proof (cases "dead_session now st s")
    case True
    then have "complete_pending S pending (wipe_conversation (note_status now st pg)) = (r, pg')"
      using result Inr by (simp add: ensureFreshSession_def Let_def)
    note c = complete_pending_facts [OF w(1) this]
    have "\<not> (sa_status st = ''ACTIVE'' \<and> ss_epoch s = sa_sessionEpoch st \<and> \<not> sa_isExpired st \<and>
        \<not> isTemporaryChatExpired (sa_expiresAt st) now)"
      using True by (auto simp: dead_session_def isSessionStale_def)
    then show ?thesis using Inr c w(2,3) by (cases r) auto
  next
    case False
    then have "r = Some s" "pg' = note_status now st pg" using result Inr by (simp_all add: ensureFreshSession_def Let_def)
    then show ?thesis using False n(2) Inr by (simp add: dead_session_def isSessionStale_def)
  qed
qed

definition gone_answer :: status_answer where
  "gone_answer = \<lparr>sa_status = ''DELETED'', sa_sessionEpoch = 1, sa_expiresAt = None, sa_isExpired = False,
     sa_otherUsername = None\<rparr>"

lemma dead_session_never_used_witness:
  "let (r, pg') = ensureFreshSession plain_subtle 0 (Inr gone_answer) (Inl (Api_Error 404)) (Some some_session)
       (fresh_page ''u'' some_session)
   in r = None \<and> history ''u'' pg' = [] \<and> pg_messages pg' = []"
proof -
  obtain r pg' where e: "ensureFreshSession plain_subtle 0 (Inr gone_answer) (Inl (Api_Error 404)) (Some some_session)
      (fresh_page ''u'' some_session) = (r, pg')" by fastforce
  have "on_page ''u'' (fresh_page ''u'' some_session)" by simp
  note dead_session_never_used [OF this e]
  moreover have "\<not> fresh_from plain_subtle (Inl (Api_Error 404)) x" for x by (simp add: fresh_from_def)
  ultimately show ?thesis using e by (simp add: gone_answer_def)
qed

section \<open>Where the two pages part\<close>

text \<open>
  An edit spends a step of the sender's chain and nothing else of the session, while
  the recipient who has the message recognises its id, leaves chain and text alone
  and so can read nothing that follows.
\<close>

lemma edit_spends_a_step:
  "pg_session (send_edit S a i text s pg) = Some (snd (ratchet_send S (pg_conversationId pg) (tr_iv a) s text))"
  by (simp add: send_edit_def case_prod_unfold Let_def split: sum.split)

lemma edit_is_not_read:
  assumes "on_page v pg" "pg_session pg = Some s" "in_id m \<in> cm_id ` set (history v pg)"
  shows "pg_session (on_message_edited S m pg) = Some (raise_watermark (in_sequenceNumber m) s)"
    "history v (on_message_edited S m pg) = history v pg"
  using receive_again(1,2) [OF assms(1,2), of "m\<lparr>in_replyToMessageId := None\<rparr>" S] assms(3)
  by (simp_all add: on_message_edited_def)

text \<open>A message deleted before it is fetched leaves the chain behind the sender's.\<close>

lemma tombstone_keeps_the_chain:
  assumes "pg_session pg = Some s"
  shows "pg_session (process_row S (Tombstone i n) pg) = Some (raise_watermark n s)"
  using assms by (simp add: process_row_def Let_def keep_session_def)

text \<open>A send the server refuses spends the step all the same.\<close>

lemma refused_send_spends_a_step:
  assumes "pg_session pg = Some s" "js_trim text \<noteq> ''''" "\<not> pg_expired pg" "given (pg_editingId pg) = None" "tr_online a"
    and "tr_answer a = Inl (Api_Error 403)" "tr_still_online a"
  shows "pg_session (sendDirectText S a text r pg) =
    Some (snd (ratchet_send S (pg_conversationId pg) (tr_iv a) s (js_trim text)))"
  using assms by (simp add: sendDirectText_def case_prod_unfold Let_def isTransient_def keep_session_def)

text \<open>A scheduled message that comes due while a message is edited becomes the text of that message.\<close>

lemma scheduled_message_edits:
  assumes "pg_session pg = Some s" "js_trim text \<noteq> ''''" "\<not> pg_expired pg" "pg_editingId pg = Some i" "i \<noteq> ''''"
  shows "sendDirectText S a text r pg = send_edit S a i (js_trim text) s pg"
  using assms by (simp add: sendDirectText_def given_def Let_def)

text \<open>A delivery receipt that comes late takes the read status out of the cache, not off the screen.\<close>

lemma late_delivery_receipt:
  assumes "on_page u pg" "m \<in> set (history u pg)" "m \<in> set (pg_messages pg)" "cm_status m = Read" "cm_mine m"
  shows "m\<lparr>cm_status := Delivered\<rparr> \<in> set (history u (on_delivery_receipt (Some (pg_conversationId pg)) (cm_id m) pg))"
    "m \<in> set (pg_messages (on_delivery_receipt (Some (pg_conversationId pg)) (cm_id m) pg))"
proof -
  have u: "u \<noteq> ''''" "cl_activeCrypto (pg_store pg) = Some u" using assms(1) by (simp_all add: on_page_def)
  note e = explicit_active(3) [OF u(2,1)]
  show "m\<lparr>cm_status := Delivered\<rparr> \<in> set (history u (on_delivery_receipt (Some (pg_conversationId pg)) (cm_id m) pg))"
    "m \<in> set (pg_messages (on_delivery_receipt (Some (pg_conversationId pg)) (cm_id m) pg))"
    using assms u by (simp_all add: on_delivery_receipt_def update_cached_def e cached_update mapMessages_def image_iff)
      (force+)
qed

text \<open>
  A message that was queued keeps, in the cache, the id it was queued with: no
  receipt, edit or deletion, which name the id the server gave, finds it.
\<close>

lemma queued_id_stays:
  assumes "on_page u pg" "pg_session pg = Some s"
    and "\<forall>i \<in> set (getOutboxItems u (Some (pg_conversationId pg)) (pg_store pg)). sealed_item (pg_conversationId pg) i"
  shows "map cm_id (history u (flushOutbox S env True pg)) = map cm_id (history u pg)"
proof -
  have "pg_userId pg = Some u" "u \<noteq> ''''" using assms(1) by (simp_all add: on_page_def)
  then show ?thesis using flush_items_settles [OF assms refl] assms(2) by (simp add: flushOutbox_def given_def)
qed

text \<open>
  A page that is online sends a new message at once, past those that wait in its
  outbox with earlier steps of the chain.
\<close>

lemma online_send_overtakes:
  assumes "pg_session pg = Some s" "js_trim text \<noteq> ''''" "\<not> pg_expired pg" "given (pg_editingId pg) = None" "tr_online a"
  shows "pg_sent (sendDirectText S a text (Some None) pg) =
    pg_sent pg @ [Post_Message (make_post pg (tr_id a) (fst (ratchet_send S (pg_conversationId pg) (tr_iv a) s (js_trim text)))
      ''TEXT'' None None (ss_epoch s))]"
  using assms
  by (auto simp: sendDirectText_def case_prod_unfold Let_def cache_and_show_def enqueue_def make_post_def
      ratchet_send_def split: sum.split option.split)

text \<open>
  Nothing queues the sends of a page. Of two that overlap (a scheduled message and a
  typed one, a file and a text), the second reads the session before the first has
  written it back: both are sealed under the same message key, the chain moves one
  step and the counter two.
\<close>

definition overlapping_sends :: "subtle \<Rightarrow> ident \<Rightarrow> bytes \<Rightarrow> bytes \<Rightarrow> stored_session \<Rightarrow> string \<Rightarrow> string \<Rightarrow>
    envelope \<times> envelope \<times> stored_session" where
  "overlapping_sends S cid iv1 iv2 s text1 text2 =
     (case ratchetEncrypt S iv1 (ss_sendingChainKey s) text1 (buildAad cid (ss_sendStep s)) of (e1, next1) \<Rightarrow>
      case ratchetEncrypt S iv2 (ss_sendingChainKey s) text2 (buildAad cid (ss_sendStep s)) of (e2, next2) \<Rightarrow>
        let s1 = s\<lparr>ss_sendingChainKey := next1, ss_sendStep := ss_sendStep s + 1\<rparr>;
            s2 = s1\<lparr>ss_sendingChainKey := next2, ss_sendStep := ss_sendStep s1 + 1\<rparr>
        in (e1, e2, s2))"

lemma overlapping_sends_part:
  assumes "overlapping_sends S cid iv1 iv2 s text1 text2 = (e1, e2, s')"
  shows "ss_sendingChainKey s' = chain_at S (ss_sendingChainKey s) 1" "ss_sendStep s' = ss_sendStep s + 2"
    "e2 = (bytesToBase64 (aes_seal S (message_key S (ss_sendingChainKey s)) iv2 (buildAad cid (ss_sendStep s)) text2),
      bytesToBase64 iv2)"
  using assms by (auto simp: overlapping_sends_def ratchetEncrypt_def advanceChain_def chain_at_def)

end
