(* ===== verification/ApiClient.thy ===== *)
theory ApiClient
  imports ClientStore Tokens
begin

text \<open>
  How the web client talks to the server: \<open>lib/auth/tokenValidation.ts\<close>,
  \<open>lib/errors/safeErrors.ts\<close> and \<open>lib/api/client.ts\<close>. The network is a function on the
  device's store and a state of its own, so that what the server does, and what other
  tabs write to the store while a request is under way, are arguments of the model.
\<close>

section \<open>tokenValidation.ts\<close>

definition std_alphabet :: "string \<Rightarrow> string" where
  "std_alphabet s = map (\<lambda>c. if c = CHR ''-'' then CHR ''+'' else if c = CHR ''_'' then CHR ''/'' else c) s"

definition pad_base64 :: "string \<Rightarrow> string" where
  "pad_base64 s = s @ replicate ((4 - length s mod 4) mod 4) (CHR ''='')"

definition parseAccessTokenPayload :: "string \<Rightarrow> json option" where
  "parseAccessTokenPayload token =
     (if token = '''' then None
      else case split_on (CHR ''.'') token of
        [base64Url, _] \<Rightarrow>
          if base64Url = '''' then None
          else (case Option.bind (base64ToBytes (pad_base64 (std_alphabet base64Url))) json_parse of
              None \<Rightarrow> None
            | Some payload \<Rightarrow>
                (case (json_field ''exp'' payload, json_field ''userId'' payload, json_field ''deviceId'' payload) of
                   (Some (JNum _ _), Some (JStr _), Some (JStr _)) \<Rightarrow> Some payload
                 | _ \<Rightarrow> None))
      | _ \<Rightarrow> None)"

definition expiry_buffer :: int where
  "expiry_buffer = 15"

definition isAccessTokenExpired :: "instant \<Rightarrow> string \<Rightarrow> bool" where
  "isAccessTokenExpired now token =
     (case parseAccessTokenPayload token of
        None \<Rightarrow> True
      | Some payload \<Rightarrow>
          (case json_field ''exp'' payload of
             Some (JNum m e) \<Rightarrow> num_le m e (now div 1000 + expiry_buffer)
           | _ \<Rightarrow> True))"

section \<open>safeErrors.ts\<close>

datatype error_category =
    Cat_Offline | Cat_Backend_Unavailable | Cat_Not_Found | Cat_Unauthorized | Cat_Forbidden | Cat_Rate_Limited
  | Cat_Server_Error | Cat_Unknown

datatype error_action = Retry | Go_Home | Go_Back

record safe_error =
  se_category :: error_category
  se_title :: string
  se_message :: string
  se_actionType :: error_action

definition forbidden_words :: "string list" where
  "forbidden_words =
     [''select'', ''insert'', ''update'', ''delete'', ''from'', ''where'', ''prisma'', ''postgres'', ''sql'', ''database'',
      ''table'', ''column'', ''constraint'', ''token'', ''secret'', ''password'', ''hash'', ''jwt'', ''at Object'',
      ''at Module'', ''at process'', ''node_modules'', ''internal/'', ''econnrefused'', ''enotfound'']"

definition isTechnicalOrSensitive :: "string \<Rightarrow> bool" where
  "isTechnicalOrSensitive text \<longleftrightarrow> list_ex (\<lambda>word. has_substring (to_lower word) (to_lower text)) forbidden_words"

text \<open>What was thrown: its numeric \<open>status\<close>, whether it is a \<open>TypeError\<close>, and its message.\<close>

record thrown =
  th_status :: "int option"
  th_type_error :: bool
  th_message :: string

definition getSafeErrorInfo :: "bool \<Rightarrow> thrown \<Rightarrow> safe_error" where
  "getSafeErrorInfo online err =
     (let info = (\<lambda>c t m a. \<lparr>se_category = c, se_title = t, se_message = m, se_actionType = a\<rparr>);
          raw = to_lower (th_message err);
          isNetworkFailure = (th_type_error err \<and>
            list_ex (\<lambda>p. has_substring p raw) [''failed to fetch'', ''network'', ''load failed'', ''fetch failed'']);
          other =
            (if isNetworkFailure \<or> has_substring ''econnrefused'' raw \<or> has_substring ''enotfound'' raw
             then info Cat_Backend_Unavailable ''Can't Connect''
                    ''Pookie Chat is having trouble connecting right now. Please try again.'' Retry
             else info Cat_Unknown ''Something Went Wrong'' ''We couldn't complete that action. Please try again.'' Retry)
      in if \<not> online
         then info Cat_Offline ''No Internet Connection'' ''Check your connection and try again.'' Retry
         else case th_status err of
           None \<Rightarrow> other
         | Some s \<Rightarrow>
             if s = 401
             then info Cat_Unauthorized ''Session Expired'' ''Your session has expired. Please sign in again.'' Go_Home
             else if s = 403
             then info Cat_Forbidden ''Access Denied'' ''You don't have permission to perform this action.'' Go_Back
             else if s = 404
             then info Cat_Not_Found ''Page Not Found'' ''We couldn't find the page or resource you're looking for.'' Go_Home
             else if s = 429
             then info Cat_Rate_Limited ''Too Many Requests''
                    ''Too many attempts. Please wait a moment and try again.'' Retry
             else if 500 \<le> s \<and> s < 600
             then info Cat_Server_Error ''Service Unavailable''
                    ''Pookie Chat is temporarily unavailable. Please try again in a few moments.'' Retry
             else other)"

section \<open>client.ts\<close>

type_synonym tokens = "string \<times> string"

record http_request =
  rq_method :: string
  rq_path :: string
  rq_bearer :: "string option"
  rq_body :: "string option"

text \<open>The body of an answer as \<open>res.json()\<close> reads it, and as bytes.\<close>

record http_response =
  rs_status :: int
  rs_json :: "json option"
  rs_bytes :: bytes

definition rs_ok :: "http_response \<Rightarrow> bool" where
  "rs_ok r \<longleftrightarrow> 200 \<le> rs_status r \<and> rs_status r < 300"

text \<open>
  \<open>br_fetch\<close> is \<open>fetch\<close>, \<open>None\<close> when it rejects; \<open>br_lock\<close> is what other tabs do while this
  one waits for the lock \<open>pookie_auth_refresh\<close>; \<open>br_online\<close> is \<open>navigator.onLine\<close>.
\<close>

record 'w browser =
  br_fetch :: "http_request \<Rightarrow> client \<times> 'w \<Rightarrow> http_response option \<times> client \<times> 'w"
  br_lock :: "client \<times> 'w \<Rightarrow> client \<times> 'w"
  br_online :: "client \<times> 'w \<Rightarrow> bool"
  br_now :: instant

definition getTokens :: "client \<Rightarrow> tokens option" where
  "getTokens c = idbGet as_tokens ''auth:tokens'' c"

definition setTokens :: "tokens \<Rightarrow> client \<Rightarrow> client" where
  "setTokens t c = idbSet ''auth:tokens'' (V_Tokens (fst t) (snd t)) c"

type_synonym api_failure = "int \<times> string"

text \<open>The pair a refresh answers with; a success without one counts as a broken answer.\<close>

definition tokens_of :: "http_response \<Rightarrow> tokens option" where
  "tokens_of r =
     (case rs_json r of
        None \<Rightarrow> None
      | Some v \<Rightarrow>
          (case (json_field ''accessToken'' v, json_field ''refreshToken'' v) of
             (Some (JStr a), Some (JStr t)) \<Rightarrow> Some (a, t)
           | _ \<Rightarrow> None))"

definition refresh_request :: "string \<Rightarrow> http_request" where
  "refresh_request refreshToken =
     \<lparr>rq_method = ''POST'', rq_path = ''/api/auth/refresh'', rq_bearer = None,
      rq_body = Some (object_text [(''refreshToken'', json_quote refreshToken)])\<rparr>"

text \<open>Another tab has written other tokens since \<open>refreshToken\<close> was read.\<close>

definition rotated_elsewhere :: "string \<Rightarrow> client \<Rightarrow> tokens option" where
  "rotated_elsewhere refreshToken c =
     (case getTokens c of
        Some (a, r) \<Rightarrow> if r \<noteq> refreshToken \<and> a \<noteq> '''' then Some (a, r) else None
      | None \<Rightarrow> None)"

definition executeRefresh ::
  "'w browser \<Rightarrow> string \<Rightarrow> client \<times> 'w \<Rightarrow> (api_failure + tokens option) \<times> client \<times> 'w" where
  "executeRefresh B refreshToken s =
     (case rotated_elsewhere refreshToken (fst s) of
        Some latest \<Rightarrow> (Inr (Some latest), s)
      | None \<Rightarrow>
          (case br_fetch B (refresh_request refreshToken) s of
             (None, s1) \<Rightarrow>
               (Inl (503, ''Could not connect to Pookie Chat. Please check your connection and try again.''), s1)
           | (Some res, s1) \<Rightarrow>
               if \<not> rs_ok res
               then if rs_status res = 401 \<or> rs_status res = 403
                    then (Inr (rotated_elsewhere refreshToken (fst s1)), s1)
                    else (Inl (rs_status res, ''Refresh service temporarily unavailable.''), s1)
               else case tokens_of res of
                      None \<Rightarrow> (Inl (0, ''SyntaxError''), s1)
                    | Some t \<Rightarrow> (Inr (Some t), (setTokens t (fst s1), snd s1))))"

definition refreshTokens :: "'w browser \<Rightarrow> client \<times> 'w \<Rightarrow> (api_failure + tokens option) \<times> client \<times> 'w" where
  "refreshTokens B s =
     (case getTokens (fst s) of
        None \<Rightarrow> (Inr None, s)
      | Some (_, refreshToken) \<Rightarrow>
          if refreshToken = '''' then (Inr None, s) else executeRefresh B refreshToken (br_lock B s))"

record api_options =
  op_method :: string
  op_path :: string
  op_body :: "string option"
  op_authenticated :: bool

definition doFetch :: "'w browser \<Rightarrow> api_options \<Rightarrow> client \<times> 'w \<Rightarrow> http_response option \<times> client \<times> 'w" where
  "doFetch B opts s =
     br_fetch B \<lparr>rq_method = op_method opts, rq_path = op_path opts,
        rq_bearer = (if op_authenticated opts then map_option fst (getTokens (fst s)) else None),
        rq_body = op_body opts\<rparr> s"

text \<open>The text of a refused request: a list of messages is joined by commas.\<close>

definition json_texts :: "json list \<Rightarrow> string list" where
  "json_texts vs = map (\<lambda>v. case v of JStr t \<Rightarrow> t | _ \<Rightarrow> '''') vs"

definition join_comma :: "string list \<Rightarrow> string" where
  "join_comma ts = (case ts of [] \<Rightarrow> [] | t # us \<Rightarrow> t @ concat (map (\<lambda>u. '', '' @ u) us))"

definition raw_message :: "json option \<Rightarrow> string" where
  "raw_message body =
     (let field = (\<lambda>k. Option.bind body (json_field k));
          text = (\<lambda>v. case v of Some (JStr t) \<Rightarrow> t | _ \<Rightarrow> '''')
      in case field ''message'' of
           Some (JArr vs) \<Rightarrow> join_comma (json_texts vs)
         | m \<Rightarrow> if truthy m then text m
                else if truthy (field ''error'') then text (field ''error'') else ''Request failed'')"

definition failure_of :: "bool \<Rightarrow> http_response \<Rightarrow> api_failure" where
  "failure_of online res =
     (let raw = raw_message (rs_json res)
      in (rs_status res,
          if isTechnicalOrSensitive raw
          then se_message (getSafeErrorInfo online \<lparr>th_status = Some (rs_status res), th_type_error = False, th_message = ''''\<rparr>)
          else raw))"

text \<open>The second component says whether the handler for an expired session was called.\<close>

definition api ::
  "'w browser \<Rightarrow> api_options \<Rightarrow> client \<times> 'w \<Rightarrow> ((api_failure + json option) \<times> bool) \<times> client \<times> 'w" where
  "api B opts s =
     (let unreachable = (503, ''Could not connect to Pookie Chat. Please check your connection and try again.'');
          finish = (\<lambda>res expired s. ((if rs_ok res then Inr (rs_json res) else Inl (failure_of (br_online B s) res), expired), s))
      in case doFetch B opts s of
           (None, s1) \<Rightarrow>
             ((Inl (if \<not> br_online B s1
                    then (0, ''You appear to be offline. Check your connection and try again.'') else unreachable), False), s1)
         | (Some res, s1) \<Rightarrow>
             if \<not> (rs_status res = 401 \<and> op_authenticated opts) then finish res False s1
             else case refreshTokens B s1 of
                    (Inl _, s2) \<Rightarrow> ((Inl unreachable, False), s2)
                  | (Inr None, s2) \<Rightarrow> finish res True s2
                  | (Inr (Some _), s2) \<Rightarrow>
                      (case doFetch B opts s2 of
                         (None, s3) \<Rightarrow> ((Inl unreachable, False), s3)
                       | (Some res', s3) \<Rightarrow> finish res' False s3))"

section \<open>Attachments\<close>

text \<open>A refresh that fails leaves the old tokens in use, one that is refused leaves none.\<close>

definition usable_tokens :: "'w browser \<Rightarrow> client \<times> 'w \<Rightarrow> tokens option \<times> client \<times> 'w" where
  "usable_tokens B s =
     (case getTokens (fst s) of
        None \<Rightarrow> (None, s)
      | Some t \<Rightarrow>
          if fst t = '''' \<or> \<not> isAccessTokenExpired (br_now B) (fst t) then (Some t, s)
          else case refreshTokens B s of
                 (Inl _, s1) \<Rightarrow> (Some t, s1)
               | (Inr t', s1) \<Rightarrow> (t', s1))"

definition with_bearer :: "http_request \<Rightarrow> tokens option \<Rightarrow> http_request" where
  "with_bearer rq t = rq\<lparr>rq_bearer := given (map_option fst t)\<rparr>"

text \<open>One more try after a 401, if the refresh brought a token; a rejected second \<open>fetch\<close> keeps the first answer.\<close>

definition fetch_retrying :: "'w browser \<Rightarrow> http_request \<Rightarrow> client \<times> 'w \<Rightarrow> http_response option \<times> client \<times> 'w" where
  "fetch_retrying B rq s =
     (case usable_tokens B s of (t, s1) \<Rightarrow>
        case br_fetch B (with_bearer rq t) s1 of
          (None, s2) \<Rightarrow> (None, s2)
        | (Some res, s2) \<Rightarrow>
            if rs_status res \<noteq> 401 then (Some res, s2)
            else case refreshTokens B s2 of
                   (Inl _, s3) \<Rightarrow> (Some res, s3)
                 | (Inr t', s3) \<Rightarrow>
                     if given (map_option fst t') = None then (Some res, s3)
                     else case br_fetch B (with_bearer rq t') s3 of
                            (None, s4) \<Rightarrow> (Some res, s4)
                          | (Some res', s4) \<Rightarrow> (Some res', s4))"

text \<open>\<open>encodeURIComponent\<close> on ASCII.\<close>

definition uri_char :: "char \<Rightarrow> string" where
  "uri_char c =
     (let n = (of_char c :: nat); hex = (\<lambda>d. if d < 10 then char_of (48 + d) else char_of (55 + d))
      in if alnum c \<or> c \<in> set ''-_.!~*()'' \<or> n = 39 then [c] else ''%'' @ [hex (n div 16), hex (n mod 16)])"

definition upload_request :: "ident \<Rightarrow> bytes \<Rightarrow> string \<Rightarrow> nat \<Rightarrow> http_request" where
  "upload_request conversationId dat mimeTypeHint originalSize =
     \<lparr>rq_method = ''POST'',
      rq_path = ''/api/attachments/upload?conversationId='' @ concat (map uri_char conversationId) @
        ''&mimeTypeHint='' @ mimeTypeHint @ ''&originalSize='' @ decimal originalSize,
      rq_bearer = None, rq_body = Some dat\<rparr>"

definition uploadAttachment ::
  "'w browser \<Rightarrow> ident \<Rightarrow> bytes \<Rightarrow> string \<Rightarrow> nat \<Rightarrow> client \<times> 'w \<Rightarrow> (api_failure + json option) \<times> client \<times> 'w" where
  "uploadAttachment B conversationId dat mimeTypeHint originalSize s =
     (case fetch_retrying B (upload_request conversationId dat mimeTypeHint originalSize) s of
        (None, s1) \<Rightarrow> (Inl (503, ''Could not connect to server for upload. Please try again.''), s1)
      | (Some res, s1) \<Rightarrow>
          if rs_ok res then (Inr (rs_json res), s1)
          else let field = (\<lambda>k. case Option.bind (rs_json res) (json_field k) of Some (JStr t) \<Rightarrow> t | _ \<Rightarrow> '''');
                   rawMsg = (if field ''error'' \<noteq> '''' then field ''error''
                             else if field ''message'' \<noteq> '''' then field ''message'' else ''Upload failed'')
               in (Inl (rs_status res,
                     if isTechnicalOrSensitive rawMsg then ''Upload failed. Please try again.'' else rawMsg), s1))"

definition downloadAttachment :: "'w browser \<Rightarrow> ident \<Rightarrow> client \<times> 'w \<Rightarrow> (api_failure + bytes) \<times> client \<times> 'w" where
  "downloadAttachment B attachmentId s =
     (case fetch_retrying B \<lparr>rq_method = ''GET'', rq_path = ''/api/attachments/'' @ attachmentId, rq_bearer = None,
             rq_body = None\<rparr> s of
        (None, s1) \<Rightarrow> (Inl (503, ''Could not connect to server for download. Please try again.''), s1)
      | (Some res, s1) \<Rightarrow>
          if rs_ok res then (Inr (rs_bytes res), s1) else (Inl (rs_status res, ''Download failed''), s1))"

section \<open>Tokens on both sides\<close>

lemma std_alphabet_url:
  "std_alphabet (b64url bs) = filter (\<lambda>c. c \<noteq> CHR ''='') (b64_encode bs)"
proof -
  have "std_alphabet (map (\<lambda>c. if c = CHR ''+'' then CHR ''-'' else if c = CHR ''/'' then CHR ''_'' else c)
      (filter (\<lambda>c. c \<noteq> CHR ''='') xs)) = filter (\<lambda>c. c \<noteq> CHR ''='') xs"
    if "\<forall>c \<in> set xs. c \<noteq> CHR ''-'' \<and> c \<noteq> CHR ''_''" for xs
    using that by (induction xs) (auto simp: std_alphabet_def)
  moreover have "\<forall>c \<in> set (b64_encode bs). c \<noteq> CHR ''-'' \<and> c \<noteq> CHR ''_''"
  proof (induction bs rule: b64_encode.induct)
    case (2 a)
    then show ?case using b64_char_std(1) [OF b64_byte_facts(1) [of a]] b64_char_std(1) [OF b64_byte_facts(5) [of a]]
      by (auto simp: Let_def std_index_def)
  next
    case (3 a b)
    then show ?case using b64_char_std(1) [OF b64_byte_facts(1) [of a]] b64_char_std(1) [OF b64_byte_facts(2) [of a b]]
        b64_char_std(1) [OF b64_byte_facts(6) [of b]]
      by (auto simp: Let_def std_index_def)
  next
    case (4 a b c rest)
    then show ?case using b64_char_std(1) [OF b64_byte_facts(1) [of a]] b64_char_std(1) [OF b64_byte_facts(2) [of a b]]
        b64_char_std(1) [OF b64_byte_facts(3) [of b c]] b64_char_std(1) [OF b64_byte_facts(4) [of c]]
      by (auto simp: Let_def std_index_def)
  qed simp
  ultimately show ?thesis by (simp add: b64url_def)
qed

lemma pad_restores: "pad_base64 (filter (\<lambda>c. c \<noteq> CHR ''='') (b64_encode bs)) = b64_encode bs"
proof (induction bs rule: b64_encode.induct)
  case 1
  then show ?case by (simp add: pad_base64_def)
next
  case (2 a)
  then show ?case using b64_char_std(3) [OF b64_byte_facts(1) [of a]] b64_char_std(3) [OF b64_byte_facts(5) [of a]]
    by (simp add: Let_def pad_base64_def numeral_2_eq_2)
next
  case (3 a b)
  then show ?case using b64_char_std(3) [OF b64_byte_facts(1) [of a]] b64_char_std(3) [OF b64_byte_facts(2) [of a b]]
      b64_char_std(3) [OF b64_byte_facts(6) [of b]]
    by (simp add: Let_def pad_base64_def)
next
  case (4 a b c rest)
  have "(4 - (4 + n) mod 4) mod 4 = (4 - n mod 4) mod (4::nat)" for n by simp
  then show ?case using 4 b64_char_std(3) [OF b64_byte_facts(1) [of a]] b64_char_std(3) [OF b64_byte_facts(2) [of a b]]
      b64_char_std(3) [OF b64_byte_facts(3) [of b c]] b64_char_std(3) [OF b64_byte_facts(4) [of c]]
    by (simp add: Let_def pad_base64_def)
qed

lemma url_payload: "base64ToBytes (pad_base64 (std_alphabet (b64url bs))) = Some bs"
  using base64_roundtrip [of bs] by (simp add: std_alphabet_url pad_restores bytesToBase64_def)

lemma parse_issued:
  "parseAccessTokenPayload (issueAccessToken C u d secret ttl t) =
     json_parse (payload_text u d (t div 1000 + ttl))"
proof -
  let ?p = "payload_text u d (t div 1000 + ttl)"
  have ne: "b64url ?p \<noteq> ''''" using b64url_empty [of ?p] by (auto simp: payload_text_def object_text_def)
  have "issueAccessToken C u d secret ttl t \<noteq> ''''" by (simp add: issueAccessToken_def Let_def)
  then show ?thesis using ne split_token [of ?p "hmac_sha256 C secret (b64url ?p)"]
    by (simp add: parseAccessTokenPayload_def issueAccessToken_def Let_def url_payload parse_payload json_field_def)
qed

text \<open>
  The client and the server agree on access tokens: of a token the server issued
  the client reads the same user and device, takes it for expired exactly from fifteen
  seconds before its end, and a token it does not take for expired passes the server.
\<close>

theorem token_expiry_agrees:
  assumes token: "token = issueAccessToken C u d secret ttl issued"
  shows "(isAccessTokenExpired now token \<longleftrightarrow> (issued div 1000 + ttl) - 15 \<le> now div 1000) \<and>
    (\<exists>p. parseAccessTokenPayload token = Some p \<and> json_field ''userId'' p = Some (JStr u) \<and>
      json_field ''deviceId'' p = Some (JStr d)) \<and>
    (\<not> isAccessTokenExpired now token \<longrightarrow>
      verifyAccessToken C token secret now = Some \<lparr>tp_userId = u, tp_deviceId = d, tp_exp = issued div 1000 + ttl\<rparr>)"
proof -
  have e: "isAccessTokenExpired now token \<longleftrightarrow> (issued div 1000 + ttl) - 15 \<le> now div 1000"
    by (auto simp: token isAccessTokenExpired_def parse_issued parse_payload json_field_def num_le_def expiry_buffer_def)
  have p: "\<exists>p. parseAccessTokenPayload token = Some p \<and> json_field ''userId'' p = Some (JStr u) \<and>
      json_field ''deviceId'' p = Some (JStr d)"
    by (simp add: token parse_issued parse_payload json_field_def)
  have "now < (issued div 1000 + ttl) * 1000" if "now div 1000 < (issued div 1000 + ttl) - 15"
  proof -
    have "now = now div 1000 * 1000 + now mod 1000" "now mod 1000 < 1000" by simp_all
    then have "now < (now div 1000 + 1) * 1000" by (simp only: distrib_right mult_1)
    also have "\<dots> \<le> (issued div 1000 + ttl) * 1000" using that by (intro mult_right_mono) simp_all
    finally show ?thesis .
  qed
  then show ?thesis using e p by (auto simp: token verify_issued)
qed

lemma token_expiry_agrees_witness:
  "\<not> isAccessTokenExpired 884999 (issueAccessToken echo_crypto ''u'' ''d'' ''s'' 900 0) \<and>
    isAccessTokenExpired 885000 (issueAccessToken echo_crypto ''u'' ''d'' ''s'' 900 0)"
  using token_expiry_agrees [OF refl, of 884999 echo_crypto "''u''" "''d''" "''s''" 900 0]
    token_expiry_agrees [OF refl, of 885000 echo_crypto "''u''" "''d''" "''s''" 900 0] by simp

section \<open>When a session is over\<close>

text \<open>
  C9. The client signs out only when the server said so: the handler for an expired
  session is called exactly when an authenticated request was answered 401 and either
  no refresh token is left, or the server refused the refresh with 401 or 403 and no
  other tab has stored new tokens meanwhile. A request or a refresh that does not get
  through, or that fails for any other reason, never signs out.
\<close>

theorem expires_only_when_refused:
  assumes run: "api B opts s = ((r, expired), s')"
  shows "expired \<longleftrightarrow>
    (\<exists>res s1. doFetch B opts s = (Some res, s1) \<and> rs_status res = 401 \<and> op_authenticated opts \<and>
      (case getTokens (fst s1) of
         None \<Rightarrow> True
       | Some (_, t) \<Rightarrow> t = '''' \<or>
           (rotated_elsewhere t (fst (br_lock B s1)) = None \<and>
            (\<exists>res' s2. br_fetch B (refresh_request t) (br_lock B s1) = (Some res', s2) \<and>
               (rs_status res' = 401 \<or> rs_status res' = 403) \<and> rotated_elsewhere t (fst s2) = None))))"
proof -
  have refused: "fst (refreshTokens B s1) = Inr None \<longleftrightarrow>
      (case getTokens (fst s1) of
         None \<Rightarrow> True
       | Some (_, t) \<Rightarrow> t = '''' \<or>
           (rotated_elsewhere t (fst (br_lock B s1)) = None \<and>
            (\<exists>res' s2. br_fetch B (refresh_request t) (br_lock B s1) = (Some res', s2) \<and>
               (rs_status res' = 401 \<or> rs_status res' = 403) \<and> rotated_elsewhere t (fst s2) = None)))" for s1
    by (auto simp: refreshTokens_def executeRefresh_def rs_ok_def split: option.splits prod.splits)
  have "expired \<longleftrightarrow> (\<exists>res s1. doFetch B opts s = (Some res, s1) \<and> rs_status res = 401 \<and> op_authenticated opts \<and>
      fst (refreshTokens B s1) = Inr None)"
    using run by (auto simp: api_def Let_def split: option.splits prod.splits sum.splits if_splits)
  then show ?thesis by (simp only: refused)
qed

text \<open>The texts of refused passwords hold a forbidden word, so the user is told that the session has expired.\<close>

lemma wrong_password_reads_expired:
  "failure_of True \<lparr>rs_status = 401, rs_json = Some (JObj [(''message'', JStr ''Incorrect Burn Password'')]), rs_bytes = []\<rparr> =
    (401, ''Your session has expired. Please sign in again.'')"
  by code_simp

text \<open>A wrong password of a feature is answered 401, so the request is refreshed for and sent once more.\<close>

lemma refused_request_is_repeated:
  assumes "doFetch B opts s = (Some res, s1)" "rs_status res = 401" "op_authenticated opts"
    and "refreshTokens B s1 = (Inr (Some t), s2)" "doFetch B opts s2 = (Some res', s3)" "rs_status res' = 401"
  shows "\<exists>e. api B opts s = ((Inl e, False), s3)"
  using assms by (simp add: api_def Let_def rs_ok_def)

definition refusing :: "unit browser" where
  "refusing = \<lparr>br_fetch = \<lambda>_ s. (Some \<lparr>rs_status = 401, rs_json = None, rs_bytes = []\<rparr>, s), br_lock = \<lambda>s. s,
     br_online = \<lambda>_. True, br_now = 0\<rparr>"

definition get_options :: api_options where
  "get_options = \<lparr>op_method = ''GET'', op_path = ''/api/auth/me'', op_body = None, op_authenticated = True\<rparr>"

lemma expires_only_when_refused_witness:
  "snd (fst (api refusing get_options (setTokens (''a'', ''r'') empty_client, ())))"
proof -
  let ?s = "(setTokens (''a'', ''r'') empty_client, ())"
  obtain r expired s' where run: "api refusing get_options ?s = ((r, expired), s')" by (metis prod.collapse)
  have t: "getTokens (fst ?s) = Some (''a'', ''r'')" by (simp add: getTokens_def setTokens_def)
  have "doFetch refusing get_options ?s = (Some \<lparr>rs_status = 401, rs_json = None, rs_bytes = []\<rparr>, ?s)"
    by (simp add: doFetch_def refusing_def)
  then have expired using expires_only_when_refused [OF run] t
    by (simp add: get_options_def refusing_def rotated_elsewhere_def)
  then show ?thesis by (simp add: run)
qed

end
