(* ===== verification/AuthClient.thy ===== *)
theory AuthClient
  imports ApiClient
begin

text \<open>
  Who is signed in on a device: \<open>lib/auth/AuthContext.tsx\<close>, \<open>lib/auth/routeGuards.ts\<close>,
  \<open>middleware.ts\<close> and \<open>components/auth/AuthGate.tsx\<close>. The record \<open>auth\<close> holds the state
  of the context, the cookie the middleware looks at, where the router was sent last
  and the device's store. What the server answered is an argument of each step.
\<close>

section \<open>routeGuards.ts\<close>

definition public_routes :: "string list" where
  "public_routes = [''/'', ''/login'', ''/register'', ''/privacy'', ''/terms'', ''/support'']"

definition protected_prefixes :: "string list" where
  "protected_prefixes = [''/chat'', ''/connect'', ''/settings'', ''/admin'']"

definition cleanPath :: "string \<Rightarrow> string" where
  "cleanPath pathname =
     (let clean = takeWhile (\<lambda>c. c \<noteq> CHR ''#'') (takeWhile (\<lambda>c. c \<noteq> CHR ''?'') pathname)
      in if clean = '''' then ''/'' else clean)"

definition isPublicRoute :: "string \<Rightarrow> bool" where
  "isPublicRoute pathname \<longleftrightarrow> cleanPath pathname \<in> set public_routes"

definition isProtectedRoute :: "string \<Rightarrow> bool" where
  "isProtectedRoute pathname =
     (let normalized = cleanPath pathname
      in if starts_with ''/_next'' normalized \<or> starts_with ''/api'' normalized \<or> CHR ''.'' \<in> set normalized then False
         else if isPublicRoute normalized then False
         else if list_ex (\<lambda>prefix. normalized = prefix \<or> starts_with (prefix @ ''/'') normalized) protected_prefixes then True
         else True)"

text \<open>\<open>origin\<close> is the origin of a text read as a URL against the base, \<open>None\<close> when that throws.\<close>

definition base_origin :: string where
  "base_origin = ''https://pookie.local''"

definition getSafeNextUrl :: "(string \<Rightarrow> string option) \<Rightarrow> string option \<Rightarrow> string \<Rightarrow> string" where
  "getSafeNextUrl origin rawNext fallback =
     (case given rawNext of
        None \<Rightarrow> fallback
      | Some raw \<Rightarrow>
          let trimmed = js_trim raw
          in if list_ex (\<lambda>c. (of_char c :: nat) \<in> {0, 9, 10, 13}) trimmed then fallback
             else if \<not> starts_with ''/'' trimmed \<or> starts_with ''//'' trimmed \<or> CHR 0x5C \<in> set trimmed then fallback
             else if has_substring ''://'' trimmed then fallback
             else if origin trimmed \<noteq> Some base_origin then fallback
             else if cleanPath trimmed \<in> {''/login'', ''/register''} then fallback
             else trimmed)"

text \<open>The middleware lets a request through, or sends it to the sign-in page with the way back.\<close>

definition middleware :: "string \<Rightarrow> string \<Rightarrow> bool \<Rightarrow> string option" where
  "middleware pathname search hasAuthCookie =
     (if isProtectedRoute pathname \<and> \<not> hasAuthCookie then Some (pathname @ search) else None)"

section \<open>The context\<close>

record auth =
  ax_userId :: "ident option"
  ax_deviceId :: "ident option"
  ax_username :: "string option"
  ax_email :: "string option"
  ax_role :: "string option"
  ax_nextUsernameChangeAllowedAt :: "string option"
  ax_loading :: bool
  ax_cookie :: bool
  ax_pushed :: "string option"
  ax_store :: client

text \<open>\<open>AuthGate\<close>: the page, nothing, or the way to the sign-in page.\<close>

datatype gate_view = Show_Children | Show_Checking | Redirect string

definition auth_gate :: "string \<Rightarrow> string \<Rightarrow> auth \<Rightarrow> gate_view" where
  "auth_gate pathname search a =
     (if \<not> isProtectedRoute pathname then Show_Children
      else if ax_loading a then Show_Checking
      else if given (ax_userId a) = None
      then Redirect (''/login?next='' @ concat (map uri_char (pathname @ search)))
      else Show_Children)"

definition isValidIdentity :: "device_identity \<Rightarrow> bool" where
  "isValidIdentity i \<longleftrightarrow>
     ky_public (di_identitySigning i) \<noteq> '''' \<and> ky_public (di_identityDh i) \<noteq> '''' \<and>
     ky_public (di_signedPrekey i) \<noteq> '''' \<and> di_signedPrekeySignature i \<noteq> '''' \<and> di_oneTimePrekeys i \<noteq> []"

definition identity_key :: "ident \<Rightarrow> string" where
  "identity_key u = key1 ''crypto:identity:'' u"

definition valid_identity :: "string \<Rightarrow> client \<Rightarrow> device_identity option" where
  "valid_identity key c =
     (case idbGet as_identity key c of Some i \<Rightarrow> if isValidIdentity i then Some i else None | None \<Rightarrow> None)"

definition session_user :: "client \<Rightarrow> ident option" where
  "session_user c = map_option au_userId (idbGet as_auth ''auth:session'' c)"

text \<open>\<open>fresh\<close> is what \<open>generateDeviceIdentity(20)\<close> draws.\<close>

definition getOrCreateIdentity ::
  "device_identity \<Rightarrow> ident option \<Rightarrow> string option \<Rightarrow> client \<Rightarrow> device_identity \<times> client" where
  "getOrCreateIdentity fresh targetUserId identifierHint c =
     (let target = given targetUserId;
          explicit = Option.bind target (\<lambda>u. valid_identity (identity_key u) c);
          hinted = Option.bind (given identifierHint) (\<lambda>h.
            Option.bind (given (lookupUserForIdentifier h c)) (\<lambda>u. valid_identity (identity_key u) c));
          current = given (case cl_activeCrypto c of Some u \<Rightarrow> Some u | None \<Rightarrow> session_user c);
          generated = (case (target, current) of
             (Some u, _) \<Rightarrow> (fresh, idbSet (identity_key u) (V_Identity fresh) c)
           | (None, Some u) \<Rightarrow> (fresh, idbSet (identity_key u) (V_Identity fresh) c)
           | (None, None) \<Rightarrow> (fresh, c))
      in case explicit of
           Some i \<Rightarrow> (i, c)
         | None \<Rightarrow>
             (case hinted of
                Some i \<Rightarrow> (i, c)
              | None \<Rightarrow>
                  (case current of
                     None \<Rightarrow> generated
                   | Some u \<Rightarrow>
                       (case valid_identity (identity_key u) c of
                          Some i \<Rightarrow> (i, c)
                        | None \<Rightarrow>
                            (case valid_identity ''crypto:identity'' c of
                               Some i \<Rightarrow> (i, idbDelete ''crypto:identity'' (idbSet (identity_key u) (V_Identity i) c))
                             | None \<Rightarrow> generated)))))"

text \<open>\<open>idbSet(`appLock:${u}:lastActiveAt`, 0)\<close> after \<open>setAppLocked(true, u)\<close>.\<close>

definition arm_lock :: "ident \<Rightarrow> client \<Rightarrow> client" where
  "arm_lock u c = idbSet (lock_key u ''lastActiveAt'') (V_Num 0) (setAppLocked True (Some u) c)"

text \<open>\<open>known\<close> is the user the closure saw: none in the handler registered at mount.\<close>

definition clearAuthState :: "ident option \<Rightarrow> auth \<Rightarrow> auth" where
  "clearAuthState known a =
     (let c = ax_store a;
          currentUserId = given (case known of Some u \<Rightarrow> Some u | None \<Rightarrow> session_user c);
          c1 = (case currentUserId of Some u \<Rightarrow> arm_lock u c | None \<Rightarrow> c);
          c2 = setActiveCryptoUser None ((idbClearAuthSession c1)\<lparr>cl_activeLock := None\<rparr>)
      in a\<lparr>ax_userId := None, ax_deviceId := None, ax_username := None, ax_email := None, ax_role := None,
           ax_nextUsernameChangeAllowedAt := None, ax_cookie := False, ax_pushed := Some ''/login'', ax_store := c2\<rparr>)"

text \<open>The state of the context is what the session in the store says.\<close>

definition enter :: "auth_session \<Rightarrow> auth \<Rightarrow> auth" where
  "enter s a =
     a\<lparr>ax_userId := Some (au_userId s), ax_deviceId := Some (au_deviceId s), ax_username := Some (au_username s),
       ax_email := au_email s, ax_role := Some (au_role s),
       ax_nextUsernameChangeAllowedAt := au_nextUsernameChangeAllowedAt s, ax_cookie := True\<rparr>"

text \<open>The effect at mount; \<open>refreshed\<close> is what \<open>refreshTokens\<close> did if the access token has expired.\<close>

definition mount :: "instant \<Rightarrow> (api_failure + tokens option) \<Rightarrow> auth \<Rightarrow> auth" where
  "mount now refreshed a =
     (let c = ax_store a
      in case (getTokens c, idbGet as_auth ''auth:session'' c) of
           (Some (access, refresh), Some session) \<Rightarrow>
             if access = '''' \<or> refresh = '''' then a\<lparr>ax_cookie := False, ax_loading := False\<rparr>
             else if isAccessTokenExpired now access \<and> refreshed = Inr None
             then (clearAuthState (ax_userId a) a)\<lparr>ax_loading := False\<rparr>
             else let c1 = (if isAccessTokenExpired now access
                            then (case refreshed of Inr (Some t) \<Rightarrow> setTokens t c | _ \<Rightarrow> c) else c)
                  in (enter session (a\<lparr>ax_store := c1\<lparr>cl_activeLock := Some (au_userId session),
                        cl_activeCrypto := Some (au_userId session)\<rparr>\<rparr>))\<lparr>ax_loading := False\<rparr>
         | _ \<Rightarrow> a\<lparr>ax_cookie := False, ax_loading := False\<rparr>)"

text \<open>The socket of a signed-in device.\<close>

definition on_session_revoked :: "auth \<Rightarrow> auth" where
  "on_session_revoked a = clearAuthState (ax_userId a) a"

definition on_any_conversation_burned :: "ident \<Rightarrow> auth \<Rightarrow> auth" where
  "on_any_conversation_burned conversationId a =
     a\<lparr>ax_store := clearCachedMessages conversationId None (deleteSession conversationId None (ax_store a))\<rparr>"

section \<open>Signing in and out\<close>

record sign_in_answer =
  si_session :: auth_session
  si_tokens :: tokens
  si_appLockEnabled :: bool
  si_appLockTimeoutSeconds :: "int option"

text \<open>What every way of signing in does once the server has answered.\<close>

definition keep_sign_in :: "sign_in_answer \<Rightarrow> device_identity \<Rightarrow> string list \<Rightarrow> client \<Rightarrow> client" where
  "keep_sign_in r identity names c =
     (let u = au_userId (si_session r);
          c1 = idbSet (identity_key u) (V_Identity identity)
                 (idbSet ''auth:session'' (V_Auth (si_session r)) (setTokens (si_tokens r) c));
          c2 = fold (\<lambda>n. storeUserIdentityLookup n u) names c1
      in (setActiveCryptoUser (Some u) c2)\<lparr>cl_activeLock := Some u\<rparr>)"

definition email_names :: "string option \<Rightarrow> string list" where
  "email_names e = (case given e of Some x \<Rightarrow> [x] | None \<Rightarrow> [])"

definition arm_if_enabled :: "sign_in_answer \<Rightarrow> client \<Rightarrow> client" where
  "arm_if_enabled r c =
     (let u = au_userId (si_session r)
      in if si_appLockEnabled r
         then let c1 = arm_lock u (setAppLockEnabled True (Some u) c)
              in (case si_appLockTimeoutSeconds r of Some t \<Rightarrow> setAppLockTimeoutSeconds t (Some u) c1 | None \<Rightarrow> c1)
         else case isAppLockEnabled (Some u) c of (lockEnabled, c1) \<Rightarrow> if lockEnabled then arm_lock u c1 else c1)"

definition register_client ::
  "device_identity \<Rightarrow> (device_identity \<Rightarrow> api_failure + sign_in_answer) \<Rightarrow> auth \<Rightarrow> api_failure option \<times> auth" where
  "register_client fresh answer a =
     (case getOrCreateIdentity fresh None None (ax_store a) of (identity, c) \<Rightarrow>
        case answer identity of
          Inl e \<Rightarrow> (Some e, a\<lparr>ax_store := c\<rparr>)
        | Inr r \<Rightarrow>
            (None, enter (si_session r) (a\<lparr>ax_store :=
               keep_sign_in r identity (au_username (si_session r) # email_names (au_email (si_session r))) c\<rparr>)))"

definition login_client ::
  "device_identity \<Rightarrow> string \<Rightarrow> (device_identity \<Rightarrow> api_failure + sign_in_answer) \<Rightarrow> auth \<Rightarrow> api_failure option \<times> auth" where
  "login_client fresh identifier answer a =
     (case getOrCreateIdentity fresh None (Some identifier) (ax_store a) of (identity, c) \<Rightarrow>
        case answer identity of
          Inl e \<Rightarrow> (Some e, a\<lparr>ax_store := c\<rparr>)
        | Inr r \<Rightarrow>
            (None, enter (si_session r) (a\<lparr>ax_store :=
               arm_if_enabled r (keep_sign_in r identity [identifier, au_username (si_session r)] c)\<rparr>)))"

definition loginWithGoogle ::
  "device_identity \<Rightarrow> (device_identity \<Rightarrow> api_failure + sign_in_answer) \<Rightarrow> auth \<Rightarrow> api_failure option \<times> auth" where
  "loginWithGoogle fresh answer a =
     (case getOrCreateIdentity fresh None None (ax_store a) of (identity, c) \<Rightarrow>
        case answer identity of
          Inl e \<Rightarrow> (Some e, a\<lparr>ax_store := c\<rparr>)
        | Inr r \<Rightarrow>
            (None, enter (si_session r) (a\<lparr>ax_store := arm_if_enabled r
               (keep_sign_in r identity (au_username (si_session r) # email_names (au_email (si_session r))) c)\<rparr>)))"

definition setConfirmedUsername :: "string \<Rightarrow> string option \<Rightarrow> auth \<Rightarrow> auth" where
  "setConfirmedUsername newUsername allowedAt a =
     (let c = ax_store a
      in a\<lparr>ax_username := Some newUsername, ax_nextUsernameChangeAllowedAt := allowedAt,
           ax_store := (case idbGet as_auth ''auth:session'' c of
              None \<Rightarrow> c
            | Some s \<Rightarrow> idbSet ''auth:session''
                (V_Auth (s\<lparr>au_username := newUsername, au_nextUsernameChangeAllowedAt := allowedAt\<rparr>)) c)\<rparr>)"

text \<open>\<open>reached\<close> is what the request to the server left of the store; its failure is ignored.\<close>

definition logout_client :: "(client \<Rightarrow> client) \<Rightarrow> auth \<Rightarrow> auth" where
  "logout_client reached a =
     (let c = ax_store a;
          currentUserId = given (case ax_userId a of Some u \<Rightarrow> Some u | None \<Rightarrow> session_user c);
          c1 = (case currentUserId of Some u \<Rightarrow> arm_lock u c | None \<Rightarrow> c);
          c2 = (if getTokens c1 \<noteq> None then reached c1 else c1)
      in clearAuthState (ax_userId a) (a\<lparr>ax_store := c2\<rparr>))"

text \<open>What \<open>/api/auth/me\<close> answers after the effect at mount.\<close>

definition on_me :: "string \<Rightarrow> auth \<Rightarrow> auth" where
  "on_me role a =
     (if role = '''' then a
      else a\<lparr>ax_role := Some role,
             ax_store := (case idbGet as_auth ''auth:session'' (ax_store a) of
                None \<Rightarrow> ax_store a
              | Some s \<Rightarrow> idbSet ''auth:session'' (V_Auth (s\<lparr>au_role := role\<rparr>)) (ax_store a))\<rparr>)"

definition empty_auth :: auth where
  "empty_auth =
     \<lparr>ax_userId = None, ax_deviceId = None, ax_username = None, ax_email = None, ax_role = None,
      ax_nextUsernameChangeAllowedAt = None, ax_loading = True, ax_cookie = False, ax_pushed = None,
      ax_store = empty_client\<rparr>"

section \<open>Reading back\<close>

lemma active_simps [simp]:
  "idbGet as k (c\<lparr>cl_activeCrypto := x\<rparr>) = idbGet as k c" "idbGet as k (c\<lparr>cl_activeLock := x\<rparr>) = idbGet as k c"
  "idbGet as k (setActiveCryptoUser x c) = idbGet as k c"
  by (simp_all add: idbGet_def setActiveCryptoUser_def)

lemma lookup_key_apart:
  assumes "CHR '':'' \<notin> set w"
  shows "identity_key w \<noteq> key1 ''crypto:identity:lookup:'' n"
proof
  assume "identity_key w = key1 ''crypto:identity:lookup:'' n"
  then have "w = ''lookup:'' @ n" by (simp add: identity_key_def key1_def)
  then show False using assms by simp
qed

lemma stored_names_get:
  assumes "\<And>n. k \<noteq> key1 ''crypto:identity:lookup:'' n"
  shows "idbGet as k (fold (\<lambda>n. storeUserIdentityLookup n u) names c) = idbGet as k c"
  using assms by (induction names arbitrary: c) (simp_all add: storeUserIdentityLookup_def)

lemma stored_names_identity:
  "CHR '':'' \<notin> set w \<Longrightarrow>
    idbGet as (identity_key w) (fold (\<lambda>n. storeUserIdentityLookup n u) names c) = idbGet as (identity_key w) c"
  by (rule stored_names_get) (rule lookup_key_apart)

lemma identity_key_inject [simp]: "identity_key v = identity_key w \<longleftrightarrow> v = w"
  by (simp add: identity_key_def key1_def)

lemma auth_keys [simp]:
  "identity_key v \<noteq> ''auth:tokens''" "identity_key v \<noteq> ''auth:session''"
  "''auth:tokens'' \<noteq> identity_key v" "''auth:session'' \<noteq> identity_key v"
  "''auth:tokens'' \<noteq> key1 ''crypto:identity:lookup:'' n" "''auth:session'' \<noteq> key1 ''crypto:identity:lookup:'' n"
  by (simp_all add: identity_key_def key1_def)

lemma lock_key_auth [simp]:
  "''auth:tokens'' \<noteq> lock_key u x" "''auth:session'' \<noteq> lock_key u x" "identity_key v \<noteq> lock_key u x"
  "''crypto:identity'' \<noteq> lock_key u x"
  by (simp_all add: lock_key_def key2_def identity_key_def key1_def)

lemma arm_lock_get [simp]:
  "u \<noteq> '''' \<Longrightarrow> (\<And>x. k \<noteq> lock_key u x) \<Longrightarrow> idbGet as k (arm_lock u c) = idbGet as k c"
  by (simp add: arm_lock_def setAppLocked_def)

lemma cleared_get [simp]:
  "idbGet as k (idbClearAuthSession c) =
     (if k \<in> {''auth:tokens'', ''auth:session'', ''crypto:identity''} then None else idbGet as k c)"
  by (auto simp: idbClearAuthSession_def)

lemma cleared_active [simp]: "cl_activeCrypto (idbClearAuthSession c) = cl_activeCrypto c"
  by (simp add: idbClearAuthSession_def)

lemma cleared_session [simp]:
  "idbGet as ''auth:tokens'' (ax_store (clearAuthState known a)) = None"
  "idbGet as' ''auth:session'' (ax_store (clearAuthState known a)) = None"
  "ax_userId (clearAuthState known a) = None" "ax_loading (clearAuthState known a) = ax_loading a"
  by (simp_all add: clearAuthState_def Let_def)

lemma cleared_mount:
  "mount now refreshed (clearAuthState known a) = (clearAuthState known a)\<lparr>ax_cookie := False, ax_loading := False\<rparr>"
  by (simp add: mount_def Let_def getTokens_def)

lemma cleared_gate: "isProtectedRoute path \<Longrightarrow> auth_gate path search (clearAuthState known a) \<noteq> Show_Children"
  by (simp add: auth_gate_def given_def)


lemma given_Some: "given x = Some y \<longleftrightarrow> x = Some y \<and> y \<noteq> ''''"
  by (auto simp: given_def split: option.splits if_splits)

lemma keep_sign_in_get:
  assumes v: "v = au_userId (si_session r)"
  shows "getTokens (keep_sign_in r i names c) = Some (si_tokens r)"
    "idbGet as_auth ''auth:session'' (keep_sign_in r i names c) = Some (si_session r)"
    "CHR '':'' \<notin> set v \<Longrightarrow> idbGet as_identity (identity_key v) (keep_sign_in r i names c) = Some i"
    "cl_activeCrypto (keep_sign_in r i names c) = Some v" "cl_activeLock (keep_sign_in r i names c) = Some v"
    "w \<noteq> v \<Longrightarrow> CHR '':'' \<notin> set w \<Longrightarrow>
      idbGet as (identity_key w) (keep_sign_in r i names c) = idbGet as (identity_key w) c"
proof -
  show "getTokens (keep_sign_in r i names c) = Some (si_tokens r)"
    "idbGet as_auth ''auth:session'' (keep_sign_in r i names c) = Some (si_session r)"
    by (simp_all add: keep_sign_in_def Let_def getTokens_def stored_names_get setTokens_def)
  show "CHR '':'' \<notin> set v \<Longrightarrow> idbGet as_identity (identity_key v) (keep_sign_in r i names c) = Some i"
    by (simp add: keep_sign_in_def Let_def v stored_names_identity)
  show "cl_activeCrypto (keep_sign_in r i names c) = Some v" "cl_activeLock (keep_sign_in r i names c) = Some v"
    by (simp_all add: keep_sign_in_def Let_def setActiveCryptoUser_def v)
  show "w \<noteq> v \<Longrightarrow> CHR '':'' \<notin> set w \<Longrightarrow>
      idbGet as (identity_key w) (keep_sign_in r i names c) = idbGet as (identity_key w) c"
    by (simp add: keep_sign_in_def Let_def v setTokens_def stored_names_identity)
qed

lemma armed_keeps:
  assumes "au_userId (si_session r) \<noteq> ''''" "\<And>x. k \<noteq> lock_key (au_userId (si_session r)) x"
    "k \<notin> {''appLock:enabled'', ''appLock:verifier'', ''appLock:timeoutSeconds'', ''appLock:isLocked'', ''appLock:lastActiveAt''}"
  shows "idbGet as k (arm_if_enabled r c) = idbGet as k c"
  using assms
  by (auto simp: arm_if_enabled_def Let_def setAppLockEnabled_def setAppLockTimeoutSeconds_def isAppLockEnabled_def
      migrateLegacyKeysIfNeeded_def copy_if_def split: option.splits)

lemma armed_active [simp]:
  assumes "au_userId (si_session r) \<noteq> ''''"
  shows "cl_activeCrypto (arm_if_enabled r c) = cl_activeCrypto c" "cl_activeLock (arm_if_enabled r c) = cl_activeLock c"
  using assms
  by (auto simp: arm_if_enabled_def arm_lock_def setAppLocked_def Let_def setAppLockEnabled_def
      setAppLockTimeoutSeconds_def isAppLockEnabled_def migrateLegacyKeysIfNeeded_def copy_if_def split: option.splits)

text \<open>
  Signing in and reloading agree: after a sign-in the store names the account and
  its tokens, and a reload while the access token lasts, or after a refresh that
  succeeded or did not get through, shows the same account, device, names and role.
\<close>

theorem reload_restores_login:
  assumes done_in: "login_client fresh identifier answer a = (None, a')" and r: "r = si_session (the_answer)"
    and answered: "answer (fst (getOrCreateIdentity fresh None (Some identifier) (ax_store a))) = Inr the_answer"
    and u: "plain_id (au_userId r)" and t: "si_tokens the_answer = (access, refresh)" "access \<noteq> ''''" "refresh \<noteq> ''''"
    and alive: "isAccessTokenExpired now access \<longrightarrow> refreshed \<noteq> Inr None"
    and reload: "b = mount now refreshed (empty_auth\<lparr>ax_store := ax_store a'\<rparr>)"
  shows "ax_userId b = ax_userId a' \<and> ax_deviceId b = ax_deviceId a' \<and> ax_username b = ax_username a' \<and>
    ax_email b = ax_email a' \<and> ax_role b = ax_role a' \<and> ax_cookie b \<and> \<not> ax_loading b \<and>
    cl_activeCrypto (ax_store b) = Some (au_userId r) \<and>
    getTokens (ax_store b) = Some (case refreshed of Inr (Some t') \<Rightarrow> if isAccessTokenExpired now access then t' else (access, refresh)
      | _ \<Rightarrow> (access, refresh))"
proof -
  obtain i c where i: "getOrCreateIdentity fresh None (Some identifier) (ax_store a) = (i, c)" by fastforce
  let ?c = "arm_if_enabled the_answer (keep_sign_in the_answer i [identifier, au_username r] c)"
  have a': "a' = enter r (a\<lparr>ax_store := ?c\<rparr>)" using done_in answered i by (simp add: login_client_def r)
  have ne: "au_userId (si_session the_answer) \<noteq> ''''" using u by (simp add: plain_id_def r)
  have g: "getTokens ?c = Some (access, refresh)" "idbGet as_auth ''auth:session'' ?c = Some r"
    using keep_sign_in_get(1,2) [OF refl, of the_answer i "[identifier, au_username r]" c] t(1)
    by (simp_all add: getTokens_def armed_keeps [OF ne] r)
  show ?thesis using g t alive
    by (auto simp: reload mount_def a' enter_def Let_def getTokens_def setTokens_def split: sum.splits option.splits)
qed

section \<open>Whose identity a device publishes\<close>

lemma signed_out_identity:
  assumes "cl_activeCrypto c = None" "session_user c = None"
  shows "getOrCreateIdentity fresh None hint c =
    (case Option.bind (given hint) (\<lambda>h. Option.bind (given (lookupUserForIdentifier h c)) (\<lambda>u. valid_identity (identity_key u) c)) of
       Some i \<Rightarrow> (i, c) | None \<Rightarrow> (fresh, c))"
  using assms by (simp add: getOrCreateIdentity_def Let_def given_def split: option.splits)


text \<open>
  Where that fails. A name the device does not know, as the e-mail of an account that
  always signed in by its user name, and every sign-in with Google, replaces the
  identity the account has; a name that has changed hands, and a sign-in while another
  account is active, as by a link that carries a Google ticket, publishes the identity
  of the other account.
\<close>

lemma unknown_name_replaces_identity:
  assumes "cl_activeCrypto (ax_store a) = None" "session_user (ax_store a) = None" "answer fresh = Inr r"
    and "lookupUserForIdentifier identifier (ax_store a) = None" "plain_id (au_userId (si_session r))"
    and out: "login_client fresh identifier answer a = (e, a')"
  shows "idbGet as_identity (identity_key (au_userId (si_session r))) (ax_store a') = Some fresh"
proof -
  have id: "getOrCreateIdentity fresh None (Some identifier) (ax_store a) = (fresh, ax_store a)"
    using assms(4) by (simp add: signed_out_identity [OF assms(1,2)] given_def split: option.split)
  have u: "au_userId (si_session r) \<noteq> ''''" "CHR '':'' \<notin> set (au_userId (si_session r))"
    using assms(5) by (simp_all add: plain_id_def)
  have "\<And>x. identity_key (au_userId (si_session r)) \<noteq> lock_key (au_userId (si_session r)) x"
    "identity_key (au_userId (si_session r)) \<notin>
      {''appLock:enabled'', ''appLock:verifier'', ''appLock:timeoutSeconds'', ''appLock:isLocked'', ''appLock:lastActiveAt''}"
    by (rule lock_key_auth) (simp add: identity_key_def key1_def)
  then show ?thesis using out assms(3) keep_sign_in_get(3) [OF refl u(2)]
    by (auto simp: login_client_def id enter_def armed_keeps [OF u(1)])
qed

lemma google_replaces_identity:
  assumes "cl_activeCrypto (ax_store a) = None" "session_user (ax_store a) = None"
  shows "fst (getOrCreateIdentity fresh None None (ax_store a)) = fresh"
  using assms by (simp add: signed_out_identity given_def)

lemma renamed_account_lends_identity:
  assumes "lookupUserForIdentifier identifier c = Some other" "other \<noteq> ''''" "valid_identity (identity_key other) c = Some i"
  shows "fst (getOrCreateIdentity fresh None (Some identifier) c) = i"
proof -
  have "identifier \<noteq> ''''" using assms(1) by (auto simp: lookupUserForIdentifier_def)
  then show ?thesis using assms by (simp add: getOrCreateIdentity_def Let_def given_def)
qed

lemma active_account_lends_identity:
  assumes "cl_activeCrypto c = Some other" "other \<noteq> ''''" "valid_identity (identity_key other) c = Some i"
  shows "fst (getOrCreateIdentity fresh None None c) = i"
  using assms by (simp add: getOrCreateIdentity_def Let_def given_def)

section \<open>Where the browser is sent\<close>

text \<open>
  After signing in the browser stays in the application: whatever the parameter
  \<open>next\<close> holds, the target is the fallback or a path below the root of this origin,
  without a second slash, a backslash, a scheme or a line break, and not a sign-in page.
\<close>

theorem next_url_stays_inside:
  "let target = getSafeNextUrl origin rawNext fallback
   in target = fallback \<or>
    (\<exists>rest. target = CHR ''/'' # rest \<and> \<not> starts_with ''/'' rest \<and> CHR 0x5C \<notin> set rest \<and>
       \<not> has_substring ''://'' target \<and> origin target = Some base_origin \<and>
       list_all (\<lambda>c. (of_char c :: nat) \<notin> {0, 9, 10, 13}) target \<and> cleanPath target \<notin> {''/login'', ''/register''})"
proof (cases "getSafeNextUrl origin rawNext fallback = fallback")
  case False
  let ?target = "getSafeNextUrl origin rawNext fallback"
  have t: "starts_with ''/'' ?target" "\<not> starts_with ''//'' ?target" "CHR 0x5C \<notin> set ?target"
    "\<not> has_substring ''://'' ?target" "origin ?target = Some base_origin"
    "\<not> list_ex (\<lambda>c. (of_char c :: nat) \<in> {0, 9, 10, 13}) ?target" "cleanPath ?target \<notin> {''/login'', ''/register''}"
    using False by (auto simp: getSafeNextUrl_def Let_def simp del: list_ex_iff split: option.splits if_splits)
  then obtain rest where "?target = CHR ''/'' # rest" by (cases ?target) (auto simp: starts_with_def)
  then show ?thesis using t by (auto simp: Let_def starts_with_def list_ex_iff list_all_iff)
qed (simp add: Let_def)

text \<open>A dot anywhere in a path takes every guard off it, also the app lock, which asks the same function.\<close>

lemma dotted_path_is_open:
  "\<not> isProtectedRoute ''/chat/x.y''" "auth_gate ''/chat/x.y'' search a = Show_Children" "middleware ''/chat/x.y'' search False = None"
proof -
  show p: "\<not> isProtectedRoute ''/chat/x.y''" by code_simp
  show "auth_gate ''/chat/x.y'' search a = Show_Children" "middleware ''/chat/x.y'' search False = None"
    by (simp_all add: auth_gate_def middleware_def p)
qed

section \<open>Examples\<close>

definition sample_session :: "ident \<Rightarrow> auth_session" where
  "sample_session u =
     \<lparr>au_userId = u, au_deviceId = ''d'', au_username = u, au_email = None, au_role = ''USER'',
      au_nextUsernameChangeAllowedAt = None\<rparr>"

definition sample_answer :: "ident \<Rightarrow> sign_in_answer" where
  "sample_answer u =
     \<lparr>si_session = sample_session u, si_tokens = (issueAccessToken echo_crypto u ''d'' ''s'' 900 0, ''r''),
      si_appLockEnabled = False, si_appLockTimeoutSeconds = None\<rparr>"

definition sample_identity :: "string \<Rightarrow> device_identity" where
  "sample_identity x = generateDeviceIdentity plain_subtle x x x [x]"


lemma first_sign_in:
  "getOrCreateIdentity fresh None (Some ''u'') (ax_store empty_auth) = (fresh, empty_client)"
  by (simp add: getOrCreateIdentity_def Let_def given_def empty_auth_def empty_client_def lookupUserForIdentifier_def
      session_user_def idbGet_def)


lemma reload_restores_login_witness:
  "ax_userId (mount 884999 (Inr None) (empty_auth\<lparr>ax_store := ax_store
     (snd (login_client (sample_identity ''x'') ''u'' (\<lambda>_. Inr (sample_answer ''u'')) empty_auth))\<rparr>)) = Some ''u''"
proof -
  have f: "fst (login_client (sample_identity ''x'') ''u'' (\<lambda>_. Inr (sample_answer ''u'')) empty_auth) = None"
    by (simp add: login_client_def first_sign_in)
  then obtain a' where a': "login_client (sample_identity ''x'') ''u'' (\<lambda>_. Inr (sample_answer ''u'')) empty_auth = (None, a')"
    by (metis prod.collapse)
  have u: "ax_userId a' = Some ''u''"
    using a' by (auto simp: login_client_def first_sign_in enter_def sample_answer_def sample_session_def)
  have fresh: "\<not> isAccessTokenExpired 884999 (issueAccessToken echo_crypto ''u'' ''d'' ''s'' 900 0)"
    by (simp add: isAccessTokenExpired_def parse_issued parse_payload json_field_def num_le_def expiry_buffer_def)
  have "issueAccessToken echo_crypto ''u'' ''d'' ''s'' 900 0 \<noteq> ''''" by (simp add: issueAccessToken_def Let_def)
  then show ?thesis
    using reload_restores_login [OF a' refl refl, where access = "issueAccessToken echo_crypto ''u'' ''d'' ''s'' 900 0" and
        refresh = "''r''" and now = 884999 and refreshed = "Inr None"] fresh u a'
    by (simp add: sample_answer_def sample_session_def plain_id_def)
qed

end
