(* ===== verification/EndToEnd.thy ===== *)
theory EndToEnd
  imports Access AuthClient
begin

text \<open>
  The client in front of the server: the API client of the browser talks to the
  refresh route and the access-token guard of the server. NestJS answers an
  exception with its status and a body that holds its message; handlers behind the
  guard are arguments.
\<close>

section \<open>The server behind HTTP\<close>

record deployment =
  dp_crypto :: crypto
  dp_cfg :: auth_config
  dp_random :: bytes
  dp_now :: instant
  dp_handler :: "ident \<Rightarrow> ident \<Rightarrow> http_request \<Rightarrow> world \<Rightarrow> http_response \<times> world"

definition refresh_path :: string where
  "refresh_path = ''/api/auth/refresh''"

definition json_response :: "int \<Rightarrow> json \<Rightarrow> http_response" where
  "json_response status v = \<lparr>rs_status = status, rs_json = Some v, rs_bytes = []\<rparr>"

definition unauthorized :: "http_error \<Rightarrow> http_response" where
  "unauthorized e =
     json_response 401 (JObj [(''message'', JStr (case e of Unauthorized m \<Rightarrow> m | _ \<Rightarrow> '''')),
       (''error'', JStr ''Unauthorized''), (''statusCode'', JNum 401 0)])"

text \<open>\<open>refresh(@Body() dto)\<close> with the text \<open>RefreshDto\<close> asks for.\<close>

definition dto_refreshToken :: "string option \<Rightarrow> string option" where
  "dto_refreshToken body =
     (case Option.bind (Option.bind body json_parse) (json_field ''refreshToken'') of Some (JStr t) \<Rightarrow> Some t | _ \<Rightarrow> None)"

definition refresh_route :: "deployment \<Rightarrow> http_request \<Rightarrow> world \<Rightarrow> http_response \<times> world" where
  "refresh_route D rq w =
     (case dto_refreshToken (rq_body rq) of
        None \<Rightarrow> (json_response 400 (JObj [(''message'', JStr ''refreshToken must be a string'')]), w)
      | Some t \<Rightarrow>
          (case refresh (dp_crypto D) (dp_cfg D) (\<lambda>w. w) (dp_random D) (dp_now D) (dp_now D) t w of
             (Inl e, w') \<Rightarrow> (unauthorized e, w')
           | (Inr (a, r), w') \<Rightarrow>
               (json_response 201 (JObj [(''accessToken'', JStr a), (''refreshToken'', JStr r)]), w')))"

definition guarded_route :: "deployment \<Rightarrow> http_request \<Rightarrow> world \<Rightarrow> http_response \<times> world" where
  "guarded_route D rq w =
     (case canActivate (dp_crypto D) (dp_cfg D) (dp_now D) (map_option (\<lambda>b. ''Bearer '' @ b) (rq_bearer rq)) w of
        Inl e \<Rightarrow> (unauthorized e, w)
      | Inr (u, d) \<Rightarrow> dp_handler D u d rq w)"

definition serve :: "deployment \<Rightarrow> http_request \<Rightarrow> client \<times> world \<Rightarrow> http_response option \<times> client \<times> world" where
  "serve D rq s =
     (case (if rq_path rq = refresh_path then refresh_route D rq (snd s) else guarded_route D rq (snd s)) of
        (res, w') \<Rightarrow> (Some res, fst s, w'))"

definition tab :: "deployment \<Rightarrow> world browser" where
  "tab D = \<lparr>br_fetch = serve D, br_lock = \<lambda>s. s, br_online = \<lambda>_. True, br_now = dp_now D\<rparr>"

lemma dto_of_request: "dto_refreshToken (rq_body (refresh_request t)) = Some t"
proof -
  let ?ms = "[(''refreshToken'', json_quote t, JStr t)]"
  have "reads_as x v" if "(k, x, v) \<in> set ?ms" for k x v using that by (auto simp: reads_as_quote)
  then have "json_parse (object_text (map (\<lambda>(k, t, v). (k, t)) ?ms)) = Some (JObj (map (\<lambda>(k, t, v). (k, v)) ?ms))"
    by (intro json_parse_object) (auto simp: object_text_def json_quote_def)
  then show ?thesis by (simp add: dto_refreshToken_def refresh_request_def json_field_def)
qed

lemma refresh_over_http:
  "serve D (refresh_request t) (c, w) =
     (case refresh (dp_crypto D) (dp_cfg D) (\<lambda>w. w) (dp_random D) (dp_now D) (dp_now D) t w of
        (Inl e, w') \<Rightarrow> (Some (unauthorized e), c, w')
      | (Inr (a, r), w') \<Rightarrow> (Some (json_response 201 (JObj [(''accessToken'', JStr a), (''refreshToken'', JStr r)])), c, w'))"
proof -
  have "rq_path (refresh_request t) = refresh_path" by (simp add: refresh_request_def refresh_path_def)
  then show ?thesis by (simp add: serve_def refresh_route_def dto_of_request split: prod.split sum.split)
qed

lemma res_of_out: "out r = x \<Longrightarrow> (\<And>w. r = (x, w) \<Longrightarrow> thesis) \<Longrightarrow> thesis"
  by (cases r) simp

lemma unauthorized_status [simp]: "rs_status (unauthorized e) = 401" "rs_status (json_response n v) = n"
  by (simp_all add: unauthorized_def json_response_def)

lemma not_rotated [simp]: "getTokens c = Some (a, t) \<Longrightarrow> rotated_elsewhere t c = None"
  by (simp add: rotated_elsewhere_def)

lemma tab_simps [simp]: "br_fetch (tab D) = serve D" "br_lock (tab D) s = s" "br_online (tab D) s"
  by (simp_all add: tab_def)

text \<open>The request as the client makes it with the token \<open>a\<close>.\<close>

definition request_with :: "api_options \<Rightarrow> string \<Rightarrow> http_request" where
  "request_with opts a =
     \<lparr>rq_method = op_method opts, rq_path = op_path opts, rq_bearer = Some a, rq_body = op_body opts\<rparr>"

lemma doFetch_tab:
  assumes "getTokens c = Some (a, t)" "op_authenticated opts" "op_path opts \<noteq> refresh_path"
  shows "doFetch (tab D) opts (c, w) =
    (case guarded_route D (request_with opts a) w of (res, w') \<Rightarrow> (Some res, c, w'))"
  using assms by (simp add: doFetch_def serve_def request_with_def split: prod.split)

section \<open>Staying signed in\<close>

text \<open>
  C7. An expired access token goes unnoticed: when the guard refuses the access token
  of a device whose session is alive, the request is answered all the same, as the
  handler answers the user and the device of that session, the store then holds the new pair of
  tokens, and the user is not signed out.
\<close>

theorem client_stays_signed_in:
  assumes tokens: "getTokens c = Some (access, token)" and opts: "op_authenticated opts" "op_path opts \<noteq> refresh_path"
    and expired: "verifyAccessToken (dp_crypto D) access (ac_accessTokenSecret (dp_cfg D)) (dp_now D) = None"
    and long: "length (js_trim token) \<ge> 32"
    and s: "s \<in> set (auth_sessions w)" "as_refreshTokenHash s = hashRefreshToken (dp_crypto D) token"
      "as_revokedAt s = None" "as_expiresAt s > dp_now D" "session_backed s w"
    and alone: "\<And>x. x \<in> set (auth_sessions w) \<Longrightarrow> as_refreshTokenHash x = hashRefreshToken (dp_crypto D) token \<Longrightarrow> x = s"
    and unrotated: "hashRefreshToken (dp_crypto D) token \<notin> fst ` set (recent_rotations w)"
  shows "\<exists>access' w1 res w2.
    verifyAccessToken (dp_crypto D) access' (ac_accessTokenSecret (dp_cfg D)) (dp_now D) =
      Some \<lparr>tp_userId = as_userId s, tp_deviceId = as_deviceId s, tp_exp = dp_now D div 1000 + 900\<rparr> \<and>
    dp_handler D (as_userId s) (as_deviceId s) (request_with opts access') w1 = (res, w2) \<and>
    users w1 = users w \<and> devices w1 = devices w \<and>
    api (tab D) opts (c, w) =
      ((if rs_ok res then Inr (rs_json res) else Inl (failure_of True res), False),
       setTokens (access', generateRefreshToken (dp_random D)) c, w2)"
proof -
  let ?C = "dp_crypto D" and ?cfg = "dp_cfg D" and ?now = "dp_now D" and ?new = "generateRefreshToken (dp_random D)"
  let ?acc = "issueAccessToken ?C (as_userId s) (as_deviceId s) (ac_accessTokenSecret ?cfg) access_token_ttl_seconds ?now"
  obtain w1 where r: "refresh ?C ?cfg (\<lambda>w. w) (dp_random D) ?now ?now token w = ok (?acc, ?new) w1"
    and w1: "users w1 = users w" "devices w1 = devices w"
    using refresh_rotates [OF long s alone unrotated, where cfg = ?cfg and random = "dp_random D" and later = ?now] by blast
  have new: "verifyAccessToken ?C ?acc (ac_accessTokenSecret ?cfg) ?now =
      Some \<lparr>tp_userId = as_userId s, tp_deviceId = as_deviceId s, tp_exp = ?now div 1000 + 900\<rparr>"
  proof -
    have "?now < (?now div 1000 + 900) * 1000" using div_mult_mod_eq [of ?now 1000] pos_mod_bound [of 1000 ?now] by simp
    then show ?thesis by (simp add: verify_issued access_token_ttl_seconds_def)
  qed
  have dev: "\<exists>x. find_device (as_deviceId s) w1 = Some x \<and> dv_revokedAt x = None"
    using s(5) w1 by (auto simp: session_backed_def find_device_def split: option.splits)
  have first: "doFetch (tab D) opts (c, w) = (Some (unauthorized (Unauthorized '''')), c, w)"
    using expired by (simp add: doFetch_tab [OF tokens opts] guarded_route_def canActivate_def request_with_def starts_with_def)
  let ?c1 = "setTokens (?acc, ?new) c"
  have t: "token \<noteq> ''''" using long by (auto simp: js_trim_def)
  have ref: "refreshTokens (tab D) (c, w) = (Inr (Some (?acc, ?new)), ?c1, w1)"
    using tokens t r by (simp add: refreshTokens_def executeRefresh_def refresh_over_http rs_ok_def tokens_of_def
        json_response_def json_field_def)
  have c1: "getTokens ?c1 = Some (?acc, ?new)" by (simp add: getTokens_def setTokens_def)
  obtain res w2 where h: "dp_handler D (as_userId s) (as_deviceId s) (request_with opts ?acc) w1 = (res, w2)" by fastforce
  have second: "doFetch (tab D) opts (?c1, w1) = (Some res, ?c1, w2)"
    using new dev h
    by (auto simp: doFetch_tab [OF c1 opts] guarded_route_def canActivate_def request_with_def starts_with_def)
  have "api (tab D) opts (c, w) =
      ((if rs_ok res then Inr (rs_json res) else Inl (failure_of True res), False), ?c1, w2)"
    using opts(1) by (simp add: api_def first ref second)
  then show ?thesis using new h w1 by blast
qed

text \<open>
  C8. A revoked device is signed out: after a session is revoked from another device,
  the next request of the revoked device is refused, the refresh is refused, the
  handler for an expired session runs, and from then on the device has no tokens, no
  protected page is shown and a reload does not sign in again.
\<close>

theorem revoked_device_signs_out:
  assumes revoke: "revokeSession t0 u sid w = ok () w1"
    and s: "find_session sid w = Some s" "as_revokedAt s = None"
    and tokens: "getTokens c = Some (access, token)" "token \<noteq> ''''"
    and mine: "\<And>p. verifyAccessToken (dp_crypto D) access (ac_accessTokenSecret (dp_cfg D)) (dp_now D) = Some p \<Longrightarrow>
        tp_deviceId p = as_deviceId s"
      "\<And>x. x \<in> set (auth_sessions w) \<Longrightarrow> as_refreshTokenHash x = hashRefreshToken (dp_crypto D) token \<Longrightarrow> as_id x = sid"
      "\<And>r. (hashRefreshToken (dp_crypto D) token, r) \<in> set (recent_rotations w) \<Longrightarrow> rt_sessionId r = sid"
    and opts: "op_authenticated opts" "op_path opts \<noteq> refresh_path"
    and page: "isProtectedRoute path"
  shows "\<exists>e w2. api (tab D) opts (c, w1) = ((Inl (401, e), True), c, w2) \<and>
    (let a' = clearAuthState None (a\<lparr>ax_store := c\<rparr>)
     in getTokens (ax_store a') = None \<and> auth_gate path search a' \<noteq> Show_Children \<and>
        ax_userId (mount now refreshed a') = None)"
proof -
  let ?C = "dp_crypto D"
  have w1: "w1 = log_event u Ev_Session_Revoked sid
      (revokeSessionAndDisconnect t0 sid (as_deviceId s) ''revoked_by_user'' w)"
    using revoke s by (auto simp: revokeSession_def split: if_splits)
  note frame = w1 event_row_frame revoke_one_frame
  have "\<exists>e. out (refresh ?C (dp_cfg D) (\<lambda>w. w) (dp_random D) (dp_now D) (dp_now D) token w1) = Inl e"
  proof (rule refresh_dead)
    fix x assume x: "x \<in> set (auth_sessions w1)" "as_refreshTokenHash x = hashRefreshToken ?C token"
    from x(1) obtain y where y: "y \<in> set (auth_sessions w)"
      "x = (if as_id y = sid then y\<lparr>as_revokedAt := Some t0\<rparr> else y)"
      unfolding frame set_update_where by blast
    with x(2) have "as_refreshTokenHash y = hashRefreshToken ?C token" by (simp split: if_splits)
    with mine(2) [OF y(1)] y(2) show "as_revokedAt x \<noteq> None" by simp
  next
    fix r x assume "(hashRefreshToken ?C token, r) \<in> set (recent_rotations w1)"
    then have "(hashRefreshToken ?C token, r) \<in> set (recent_rotations w)" "rt_sessionId r \<noteq> sid"
      by (simp_all add: frame)
    then show "as_revokedAt x \<noteq> None" using mine(3) by blast
  qed
  then obtain e where "out (refresh ?C (dp_cfg D) (\<lambda>w. w) (dp_random D) (dp_now D) (dp_now D) token w1) = Inl e" by (rule exE)
  then obtain w2 where dead: "refresh ?C (dp_cfg D) (\<lambda>w. w) (dp_random D) (dp_now D) (dp_now D) token w1 = (Inl e, w2)"
    by (rule res_of_out)
  have first: "doFetch (tab D) opts (c, w1) = (Some (unauthorized (Unauthorized '''')), c, w1)"
  proof -
    have "canActivate ?C (dp_cfg D) (dp_now D) (Some (''Bearer '' @ access)) w1 = Inl (Unauthorized '''')"
    proof (cases "verifyAccessToken ?C access (ac_accessTokenSecret (dp_cfg D)) (dp_now D)")
      case None
      then show ?thesis by (simp add: canActivate_def starts_with_def)
    next
      case (Some p)
      have "find_device (as_deviceId s) w1 = None \<or>
          (\<exists>x. find_device (as_deviceId s) w1 = Some x \<and> dv_revokedAt x \<noteq> None)"
        by (cases "find_device (as_deviceId s) w1")
           (auto simp: find_device_def frame set_update_where dest!: find_Some_in split: if_splits)
      then show ?thesis using Some mine(1) [OF Some] by (auto simp: canActivate_def starts_with_def)
    qed
    then show ?thesis by (simp add: doFetch_tab [OF tokens(1) opts] guarded_route_def request_with_def)
  qed
  have ref: "refreshTokens (tab D) (c, w1) = (Inr None, c, w2)"
    using tokens dead by (simp add: refreshTokens_def executeRefresh_def refresh_over_http rs_ok_def)
  have "\<exists>m. api (tab D) opts (c, w1) = ((Inl (401, m), True), c, w2)"
    using opts(1) by (simp add: api_def first ref rs_ok_def failure_of_def Let_def)
  moreover have "let a' = clearAuthState None (a\<lparr>ax_store := c\<rparr>)
     in getTokens (ax_store a') = None \<and> auth_gate path search a' \<noteq> Show_Children \<and> ax_userId (mount now refreshed a') = None"
    using page cleared_gate by (simp add: Let_def getTokens_def cleared_mount)
  ultimately show ?thesis by blast
qed

definition demo_deployment :: "instant \<Rightarrow> deployment" where
  "demo_deployment now =
     \<lparr>dp_crypto = echo_crypto, dp_cfg = demo_auth_cfg, dp_random = replicate 32 (CHR ''r''), dp_now = now,
      dp_handler = \<lambda>u d rq w. (json_response 200 (JStr u), w)\<rparr>"

definition e2e_device :: client where
  "e2e_device = setTokens (''old'', demo_token) empty_client"

lemma demo_device_tokens: "getTokens e2e_device = Some (''old'', demo_token)"
  by (simp add: e2e_device_def getTokens_def setTokens_def)

lemma old_token_refused: "verifyAccessToken C ''old'' secret now = None"
  by (simp add: verifyAccessToken_def)

lemma client_stays_signed_in_witness:
  "fst (api (tab (demo_deployment 5)) get_options (e2e_device, account_world 0)) = (Inr (Some (JStr ''alice'')), False)"
proof -
  let ?s = "demo_session ''s1'' ''d1'' (hashRefreshToken echo_crypto demo_token)" and ?D = "demo_deployment 5"
  have s: "?s \<in> set (auth_sessions (account_world 0))" "as_refreshTokenHash ?s = hashRefreshToken (dp_crypto ?D) demo_token"
    "as_revokedAt ?s = None" "as_expiresAt ?s > dp_now ?D" "as_userId ?s = ''alice''"
    by (simp_all add: account_world_def demo_session_def demo_deployment_def)
  have alone: "x = ?s" if "x \<in> set (auth_sessions (account_world 0))"
    "as_refreshTokenHash x = hashRefreshToken (dp_crypto ?D) demo_token" for x
    using that demo_hashes by (auto simp: account_world_def demo_session_def demo_deployment_def)
  have rot: "h \<notin> fst ` set (recent_rotations (account_world 0))" for h by (simp add: account_world_def empty_world_def)
  have opts: "op_authenticated get_options" "op_path get_options \<noteq> refresh_path"
    by (simp_all add: get_options_def refresh_path_def)
  from client_stays_signed_in [OF demo_device_tokens opts old_token_refused demo_lengths(1) s(1-4) demo_backed alone rot]
  show ?thesis by (auto simp: demo_deployment_def json_response_def rs_ok_def s(5))
qed

lemma revoked_device_signs_out_witness:
  "snd (fst (api (tab (demo_deployment 6)) get_options
     (e2e_device, after (revokeSession 5 ''alice'' ''s1'' (account_world 0)))))"
proof -
  let ?s = "demo_session ''s1'' ''d1'' (hashRefreshToken echo_crypto demo_token)" and ?D = "demo_deployment 6"
  have f: "find_session ''s1'' (account_world 0) = Some ?s"
    by (simp add: find_session_def account_world_def demo_session_def)
  have live: "as_revokedAt ?s = None" "as_userId ?s = ''alice''" by (simp_all add: demo_session_def)
  have r: "revokeSession 5 ''alice'' ''s1'' (account_world 0) =
      ok () (after (revokeSession 5 ''alice'' ''s1'' (account_world 0)))"
    by (simp add: revokeSession_def f live)
  have t: "as_id x = ''s1''" if "x \<in> set (auth_sessions (account_world 0))"
    "as_refreshTokenHash x = hashRefreshToken (dp_crypto ?D) demo_token" for x
    using that demo_hashes by (auto simp: account_world_def demo_session_def demo_deployment_def)
  have t2: "rt_sessionId q = ''s1''"
    if "(hashRefreshToken (dp_crypto ?D) demo_token, q) \<in> set (recent_rotations (account_world 0))" for q
    using that by (simp add: account_world_def empty_world_def)
  have ne: "demo_token \<noteq> ''''" using demo_lengths(1) by (auto simp: js_trim_def)
  have opts: "op_authenticated get_options" "op_path get_options \<noteq> refresh_path"
    by (simp_all add: get_options_def refresh_path_def)
  have page: "isProtectedRoute ''/chat''" by code_simp
  have acc: "tp_deviceId p = as_deviceId ?s"
    if "verifyAccessToken (dp_crypto ?D) ''old'' (ac_accessTokenSecret (dp_cfg ?D)) (dp_now ?D) = Some p" for p
    using that by (simp add: old_token_refused)
  obtain e w2 where "api (tab ?D) get_options (e2e_device, after (revokeSession 5 ''alice'' ''s1'' (account_world 0))) =
      ((Inl (401, e), True), e2e_device, w2)"
    using revoked_device_signs_out [OF r f live(1) demo_device_tokens ne acc t t2 opts page] by blast
  then show ?thesis by simp
qed

end
