(* ===== verification/RoomClient.thy ===== *)
theory RoomClient
  imports ChatClient
begin

text \<open>
  The room page of the web client (\<open>app/chat/room/[roomId]/page.tsx\<close>): finding the
  room key, decrypting history and arrivals, the socket events, sending, scheduled
  messages, files, and what the owner does. A function of a React component reads the
  variables of the render it was made in: the record \<open>render\<close> holds them, and the
  handlers of the socket keep the one of the render their effect ran after, while
  setters and refs act on the page. A handler is one step. Timers that only clear a
  notice are left out, and so is the list of members in the panel.
\<close>

section \<open>What the page holds\<close>

record display_message =
  dm_id :: ident
  dm_senderId :: "ident option"
  dm_senderUsername :: "string option"
  dm_sequenceNumber :: int
  dm_clientMessageId :: ident
  dm_sealed :: "envelope option"
  dm_plaintext :: "string option"
  dm_attachment :: "json option"
  dm_decryptFailed :: bool
  dm_messageType :: string
  dm_sentAt :: string
  dm_isSystem :: bool

record room_details =
  rmv_name :: string
  rmv_maxMembers :: int
  rmv_memberCount :: int
  rmv_joinPolicy :: string
  rmv_keyEpoch :: nat
  rmv_role :: string
  rmv_code :: "string option"
  rmv_joinLocked :: bool
  rmv_openKeyCiphertext :: "string option"
  rmv_openKeyNonce :: "string option"

record pending_join =
  jq_id :: ident
  jq_username :: string
  jq_identityDhPublic :: "string option"
  jq_createdAt :: string

record room_post =
  rpo_clientMessageId :: ident
  rpo_ciphertext :: string
  rpo_iv :: string
  rpo_keyEpoch :: nat
  rpo_messageType :: string

datatype room_request =
    Post_Room_Message room_post
  | Patch_Open_Key string string
  | Patch_Settings string int string
  | Patch_Join_Lock bool
  | Post_Accept ident "string option" "string option"
  | Post_Reject ident
  | Post_Member ident
  | Delete_Member ident
  | Post_Leave
  | Delete_Room "string option"
  | Set_Burn_Password string
  | Emit_Typing bool
  | Get_Members nat

datatype confirm = Confirm_Leave | Confirm_Delete | Confirm_Remove ident

text \<open>What an answer throws: the message of an \<open>ApiError\<close>, or another error.\<close>

type_synonym failure = "string option"

definition error_text :: "failure \<Rightarrow> string \<Rightarrow> string" where
  "error_text f fallback = (case f of Some m \<Rightarrow> m | None \<Rightarrow> fallback)"

record render =
  rn_room :: "room_details option"
  rn_userId :: "ident option"
  rn_roomKey :: "bytes option"
  rn_messages :: "display_message list"

record room_page =
  rmp_store :: client
  rmp_roomId :: ident
  rmp_userId :: "ident option"
  rmp_room :: "room_details option"
  rmp_roomKey :: "bytes option"
  rmp_messages :: "display_message list"
  rmp_bound :: render
  rmp_loadError :: "string option"
  rmp_keySyncError :: "string option"
  rmp_pendingRequests :: "pending_join list"
  rmp_processing :: "ident option"
  rmp_acceptingStatus :: "string option"
  rmp_actionError :: "string option"
  rmp_banner :: "string option"
  rmp_joinLocked :: bool
  rmp_hasBurnPassword :: bool
  rmp_confirm :: "confirm option"
  rmp_deletePasswordError :: "string option"
  rmp_burnSetupError :: "string option"
  rmp_typingUsers :: "(ident \<times> string) list"
  rmp_typingTimers :: "(ident \<times> instant) list"
  rmp_recentEvents :: "string \<rightharpoonup> instant"
  rmp_infoOpen :: bool
  rmp_memberPage :: nat
  rmp_input :: string
  rmp_throttled :: bool
  rmp_sending :: bool
  rmp_edit :: "string \<times> string \<times> string"
  rmp_pushed :: "string option"
  rmp_sent :: "room_request list"

definition render_of :: "room_page \<Rightarrow> render" where
  "render_of pg =
     \<lparr>rn_room = rmp_room pg, rn_userId = rmp_userId pg, rn_roomKey = rmp_roomKey pg, rn_messages = rmp_messages pg\<rparr>"

definition log_room :: "room_request \<Rightarrow> room_page \<Rightarrow> room_page" where
  "log_room r pg = pg\<lparr>rmp_sent := rmp_sent pg @ [r]\<rparr>"

definition fetchMembers :: "nat \<Rightarrow> room_page \<Rightarrow> room_page" where
  "fetchMembers p = log_room (Get_Members p)"

definition mapRoom :: "(room_details \<Rightarrow> room_details) \<Rightarrow> room_page \<Rightarrow> room_page" where
  "mapRoom f pg = pg\<lparr>rmp_room := map_option f (rmp_room pg)\<rparr>"

section \<open>Decrypting\<close>

definition room_attachment :: "string option \<Rightarrow> json option" where
  "room_attachment plaintext =
     (case given plaintext of
        None \<Rightarrow> None
      | Some t \<Rightarrow>
          if \<not> starts_with (''{'' @ json_quote ''kind'' @ '':'' @ json_quote ''attachment'') t then None
          else (case json_parse t of
                  Some v \<Rightarrow>
                    if json_field ''kind'' v = Some (JStr ''attachment'') \<and> truthy (json_field ''attachmentId'' v) \<and>
                       truthy (json_field ''dek'' v)
                    then Some v else None
                | None \<Rightarrow> None))"

definition aad_candidates :: "ident \<Rightarrow> ident \<Rightarrow> int \<Rightarrow> string list" where
  "aad_candidates roomId clientMessageId sequenceNumber =
     filter (\<lambda>c. c \<noteq> '''') [key2 '''' roomId clientMessageId, key2 '''' roomId (int_text sequenceNumber), roomId]"

fun first_opening :: "subtle \<Rightarrow> bytes \<Rightarrow> envelope \<Rightarrow> string list \<Rightarrow> string + string" where
  "first_opening S key env [] = Inl ''Could not decrypt with candidate AAD''"
| "first_opening S key env (c # cs) =
     (case decryptRoomMessage S key (fst env) (snd env) c of Inr t \<Rightarrow> Inr t | Inl _ \<Rightarrow> first_opening S key env cs)"

definition decryptRoomMessageWithFallback ::
  "subtle \<Rightarrow> bytes \<Rightarrow> envelope \<Rightarrow> ident \<Rightarrow> ident \<Rightarrow> int \<Rightarrow> string + string" where
  "decryptRoomMessageWithFallback S key env roomId clientMessageId sequenceNumber =
     first_opening S key env (aad_candidates roomId clientMessageId sequenceNumber)"

text \<open>The sealed text of a row; without one the decoding of \<open>undefined\<close> throws.\<close>

definition open_message :: "subtle \<Rightarrow> bytes \<Rightarrow> ident \<Rightarrow> display_message \<Rightarrow> string option" where
  "open_message S key roomId m =
     (case dm_sealed m of
        None \<Rightarrow> None
      | Some env \<Rightarrow>
          (case decryptRoomMessageWithFallback S key env roomId (dm_clientMessageId m) (dm_sequenceNumber m) of
             Inr t \<Rightarrow> Some t | Inl _ \<Rightarrow> None))"

definition with_plaintext :: "string option \<Rightarrow> display_message \<Rightarrow> display_message" where
  "with_plaintext r m = m\<lparr>dm_plaintext := Some (case r of Some t \<Rightarrow> t | None \<Rightarrow> ''''), dm_decryptFailed := r = None\<rparr>"

definition redecrypt :: "subtle \<Rightarrow> bytes \<Rightarrow> ident \<Rightarrow> display_message \<Rightarrow> display_message" where
  "redecrypt S key roomId m =
     (if dm_isSystem m then m
      else if \<not> dm_decryptFailed m \<and> given (dm_plaintext m) \<noteq> None then m
      else with_plaintext (open_message S key roomId m) m)"

definition decryptMessagesWithKey :: "subtle \<Rightarrow> bytes \<Rightarrow> render \<Rightarrow> room_page \<Rightarrow> room_page" where
  "decryptMessagesWithKey S key rn pg = pg\<lparr>rmp_messages := map (redecrypt S key (rmp_roomId pg)) (rn_messages rn)\<rparr>"

section \<open>The room key\<close>

record key_package =
  pk_encryptedKey :: string
  pk_nonce :: string
  pk_senderDhPublic :: string

text \<open>What a search for the key finds: the answers of the server and the random draws.\<close>

record sync_env =
  sye_room :: "failure + room_details"
  sye_package :: "failure + key_package option"
  sye_fresh :: bytes
  sye_iv :: bytes
  sye_iv2 :: bytes

text \<open>
  One way to find the key: \<open>None\<close> leaves the search to the next. A key that is found
  outside the store is saved under the epoch of the room.
\<close>

definition or_else :: "(room_page \<Rightarrow> bytes option \<times> room_page) \<Rightarrow> bytes option \<times> room_page \<Rightarrow> bytes option \<times> room_page" where
  "or_else f r = (case r of (None, pg) \<Rightarrow> f pg | (Some k, pg) \<Rightarrow> (Some k, pg))"

definition keep_key :: "render \<Rightarrow> room_details \<Rightarrow> bytes \<Rightarrow> room_page \<Rightarrow> room_page" where
  "keep_key rn room k pg =
     pg\<lparr>rmp_store := saveRoomKey (rmp_roomId pg) (rmv_keyEpoch room) k (rn_userId rn) (rmp_store pg)\<rparr>"

definition stored_key :: "render \<Rightarrow> room_details \<Rightarrow> room_page \<Rightarrow> bytes option \<times> room_page" where
  "stored_key rn room pg =
     (case loadRoomKey (rmp_roomId pg) (rmv_keyEpoch room) (rn_userId rn) (rmp_store pg) of
        (k, c) \<Rightarrow> (k, pg\<lparr>rmp_store := c\<rparr>))"

definition key_from_code :: "subtle \<Rightarrow> render \<Rightarrow> room_details \<Rightarrow> room_page \<Rightarrow> bytes option \<times> room_page" where
  "key_from_code S rn room pg =
     (case (given (rmv_code room), given (rmv_openKeyCiphertext room), given (rmv_openKeyNonce room)) of
        (Some code, Some ct, Some nonce) \<Rightarrow>
          (case decryptOpenRoomKey S ct nonce code of
             Inr k \<Rightarrow> (Some k, keep_key rn room k pg)
           | Inl _ \<Rightarrow> (None, pg))
      | _ \<Rightarrow> (None, pg))"

definition key_from_package :: "subtle \<Rightarrow> sync_env \<Rightarrow> render \<Rightarrow> room_details \<Rightarrow> room_page \<Rightarrow> bytes option \<times> room_page" where
  "key_from_package S env rn room pg =
     (case sye_package env of
        Inr (Some p) \<Rightarrow>
          (case getUserIdentity (rn_userId rn) (rmp_store pg) of
             (None, c) \<Rightarrow> (None, pg\<lparr>rmp_store := c\<rparr>)
           | (Some i, c) \<Rightarrow>
               (case decryptRoomKeyFromSender S (pk_encryptedKey p) (pk_nonce p) (pk_senderDhPublic p)
                       (ky_private (di_identityDh i)) of
                  Inr k \<Rightarrow> (Some k, keep_key rn room k (pg\<lparr>rmp_store := c\<rparr>))
                | Inl _ \<Rightarrow> (None, pg\<lparr>rmp_store := c\<rparr>)))
      | _ \<Rightarrow> (None, pg))"

definition publish_key :: "subtle \<Rightarrow> bytes \<Rightarrow> bytes \<Rightarrow> string \<Rightarrow> room_page \<Rightarrow> room_page" where
  "publish_key S iv k code pg = (case encryptOpenRoomKey S iv k code of (ct, nonce) \<Rightarrow> log_room (Patch_Open_Key ct nonce) pg)"

definition first_key :: "subtle \<Rightarrow> sync_env \<Rightarrow> render \<Rightarrow> room_details \<Rightarrow> room_page \<Rightarrow> bytes option \<times> room_page" where
  "first_key S env rn room pg =
     (if rmv_role room = ''OWNER'' \<and> given (rmv_openKeyCiphertext room) = None
      then let pg1 = keep_key rn room (sye_fresh env) pg
           in (Some (sye_fresh env),
               case given (rmv_code room) of None \<Rightarrow> pg1 | Some code \<Rightarrow> publish_key S (sye_iv env) (sye_fresh env) code pg1)
      else (None, pg))"

definition publish_missing :: "subtle \<Rightarrow> sync_env \<Rightarrow> room_details \<Rightarrow> bytes option \<Rightarrow> room_page \<Rightarrow> room_page" where
  "publish_missing S env room key pg =
     (case (key, given (rmv_code room)) of
        (Some k, Some code) \<Rightarrow>
          if rmv_role room = ''OWNER'' \<and>
             (given (rmv_openKeyCiphertext room) = None \<or> given (rmv_openKeyNonce room) = None)
          then publish_key S (sye_iv2 env) k code pg else pg
      | _ \<Rightarrow> pg)"

definition key_missing :: "room_details \<Rightarrow> string" where
  "key_missing room =
     (if given (rmv_code room) = None then ''Room encryption key has not been delivered by the owner yet.''
      else if given (rmv_openKeyCiphertext room) = None then ''Room key is being prepared by the room owner.''
      else ''Could not decrypt room key with room code. Please check your room code.'')"

definition syncRoomKey ::
  "subtle \<Rightarrow> sync_env \<Rightarrow> render \<Rightarrow> room_details option \<Rightarrow> room_page \<Rightarrow> bytes option \<times> room_page" where
  "syncRoomKey S env rn overrideRoom pg =
     (let (target, pg0) =
        (case overrideRoom of
           Some room \<Rightarrow> (Some room, pg)
         | None \<Rightarrow>
             (case sye_room env of
                Inr fresh \<Rightarrow> (Some fresh, pg\<lparr>rmp_room := Some fresh\<rparr>)
              | Inl _ \<Rightarrow> (rn_room rn, pg)))
      in case target of
           None \<Rightarrow> (None, pg0)
         | Some room \<Rightarrow>
             (case or_else (first_key S env rn room) (or_else (key_from_package S env rn room)
                     (or_else (key_from_code S rn room) (stored_key rn room (pg0\<lparr>rmp_keySyncError := None\<rparr>)))) of
                (key, pg1) \<Rightarrow>
                  let pg2 = publish_missing S env room key pg1
                  in (case key of
                        Some k \<Rightarrow> (Some k, decryptMessagesWithKey S k rn (pg2\<lparr>rmp_roomKey := Some k, rmp_keySyncError := None\<rparr>))
                      | None \<Rightarrow> (None, pg2\<lparr>rmp_keySyncError := Some (key_missing room)\<rparr>))))"

section \<open>Opening the room\<close>

record room_wire =
  rmw_id :: ident
  rmw_senderId :: "ident option"
  rmw_senderUsername :: "string option"
  rmw_sequenceNumber :: int
  rmw_clientMessageId :: ident
  rmw_ciphertext :: string
  rmw_iv :: string
  rmw_messageType :: string
  rmw_sentAt :: string

definition shown_wire :: "subtle \<Rightarrow> bytes option \<Rightarrow> ident \<Rightarrow> room_wire \<Rightarrow> display_message" where
  "shown_wire S key roomId w =
     (let m = \<lparr>dm_id = rmw_id w, dm_senderId = rmw_senderId w, dm_senderUsername = rmw_senderUsername w,
               dm_sequenceNumber = rmw_sequenceNumber w, dm_clientMessageId = rmw_clientMessageId w,
               dm_sealed = Some (rmw_ciphertext w, rmw_iv w), dm_plaintext = None, dm_attachment = None,
               dm_decryptFailed = False, dm_messageType = rmw_messageType w, dm_sentAt = rmw_sentAt w, dm_isSystem = False\<rparr>;
          m' = with_plaintext (Option.bind key (\<lambda>k. open_message S k roomId m)) m
      in m'\<lparr>dm_attachment := room_attachment (dm_plaintext m')\<rparr>)"

record init_env =
  ie_room :: "failure + room_details"
  ie_hasBurnPassword :: "failure + bool"
  ie_messages :: "failure + room_wire list"
  ie_sync :: sync_env
  ie_requests :: "failure + pending_join list"

definition fill_edit :: "room_details \<Rightarrow> room_page \<Rightarrow> room_page" where
  "fill_edit data pg = pg\<lparr>rmp_edit := (rmv_name data, int_text (rmv_maxMembers data), rmv_joinPolicy data)\<rparr>"

definition show_history :: "subtle \<Rightarrow> bytes option \<Rightarrow> room_wire list \<Rightarrow> room_page \<Rightarrow> room_page" where
  "show_history S key msgs pg = pg\<lparr>rmp_messages := map (shown_wire S key (rmp_roomId pg)) msgs\<rparr>"

definition initRoom :: "subtle \<Rightarrow> init_env \<Rightarrow> room_page \<Rightarrow> room_page" where
  "initRoom S env pg =
     (case ie_room env of
        Inl f \<Rightarrow> pg\<lparr>rmp_loadError := Some (error_text f ''Could not load room.'')\<rparr>
      | Inr data \<Rightarrow>
          let pg1 = fill_edit data (pg\<lparr>rmp_loadError := None, rmp_room := Some data, rmp_joinLocked := rmv_joinLocked data,
                      rmp_hasBurnPassword := (case ie_hasBurnPassword env of Inr b \<Rightarrow> b | Inl _ \<Rightarrow> rmp_hasBurnPassword pg)\<rparr>);
              msgs = (case ie_messages env of Inr ms \<Rightarrow> ms | Inl _ \<Rightarrow> [])
          in case syncRoomKey S (ie_sync env) (rmp_bound pg) (Some data) pg1 of
               (key, pg2) \<Rightarrow>
                 let pg3 = show_history S key msgs pg2
                 in if rmv_role data = ''OWNER''
                    then pg3\<lparr>rmp_pendingRequests := (case ie_requests env of Inr rs \<Rightarrow> rs | Inl _ \<Rightarrow> [])\<rparr>
                    else pg3)"

section \<open>Events of the socket\<close>

definition for_room :: "ident \<Rightarrow> (room_page \<Rightarrow> room_page) \<Rightarrow> room_page \<Rightarrow> room_page" where
  "for_room evtRoom f pg = (if evtRoom = rmp_roomId pg then f pg else pg)"

definition on_join_request :: "ident \<Rightarrow> pending_join \<Rightarrow> room_page \<Rightarrow> room_page" where
  "on_join_request evtRoom q = for_room evtRoom (\<lambda>pg.
     if \<exists>r \<in> set (rmp_pendingRequests pg). jq_id r = jq_id q then pg
     else pg\<lparr>rmp_pendingRequests := rmp_pendingRequests pg @ [q]\<rparr>)"

text \<open>
  Who joins or leaves: the notice of the same person and kind within five seconds is
  suppressed, and two equal notices never follow each other. \<open>mark\<close> is the random
  part of the made-up id.
\<close>

definition system_line :: "string \<Rightarrow> string \<Rightarrow> instant \<Rightarrow> string \<Rightarrow> string \<Rightarrow> (ident \<times> string) option \<Rightarrow> display_message" where
  "system_line kind mark now sentAt line user =
     \<lparr>dm_id = kind @ int_text now @ ''-'' @ mark, dm_senderId = map_option fst user, dm_senderUsername = map_option snd user,
      dm_sequenceNumber = 0, dm_clientMessageId = kind @ int_text now, dm_sealed = None, dm_plaintext = Some line,
      dm_attachment = None, dm_decryptFailed = False, dm_messageType = ''SYSTEM'', dm_sentAt = sentAt, dm_isSystem = True\<rparr>"

definition event_username :: "(ident \<times> string) option \<Rightarrow> string" where
  "event_username user = (case given (map_option snd user) of Some n \<Rightarrow> n | None \<Rightarrow> ''user'')"

definition member_moved ::
  "string \<Rightarrow> string \<Rightarrow> string \<Rightarrow> string \<Rightarrow> instant \<Rightarrow> string \<Rightarrow> (ident \<times> string) option \<Rightarrow> int \<Rightarrow> room_page \<Rightarrow> room_page" where
  "member_moved word kind verb mark now sentAt user memberCount pg =
     (let username = event_username user; k = key1 word username;
          line = ''@'' @ username @ verb
      in if now - (case rmp_recentEvents pg k of Some t \<Rightarrow> t | None \<Rightarrow> 0) < 5000 then pg
         else
           let pg1 = mapRoom (\<lambda>r. r\<lparr>rmv_memberCount := memberCount\<rparr>) (pg\<lparr>rmp_recentEvents := (rmp_recentEvents pg)(k \<mapsto> now)\<rparr>);
               repeated = (rmp_messages pg1 \<noteq> [] \<and> dm_isSystem (last (rmp_messages pg1)) \<and>
                           dm_plaintext (last (rmp_messages pg1)) = Some line);
               pg2 = (if repeated then pg1
                      else pg1\<lparr>rmp_messages := rmp_messages pg1 @ [system_line kind mark now sentAt line user]\<rparr>)
           in if rmp_infoOpen pg2 then fetchMembers (rmp_memberPage pg2) pg2 else pg2)"

definition on_member_joined ::
  "ident \<Rightarrow> string \<Rightarrow> instant \<Rightarrow> string \<Rightarrow> (ident \<times> string) option \<Rightarrow> int \<Rightarrow> room_page \<Rightarrow> room_page" where
  "on_member_joined evtRoom mark now sentAt user memberCount =
     for_room evtRoom (member_moved ''join:'' ''sys-join-'' '' joined the room'' mark now sentAt user memberCount)"

definition on_member_left ::
  "ident \<Rightarrow> string \<Rightarrow> instant \<Rightarrow> string \<Rightarrow> (ident \<times> string) option \<Rightarrow> int \<Rightarrow> room_page \<Rightarrow> room_page" where
  "on_member_left evtRoom mark now sentAt user memberCount =
     for_room evtRoom (member_moved ''leave:'' ''sys-leave-'' '' left the room'' mark now sentAt user memberCount)"

definition or_keep :: "'a option \<Rightarrow> 'a \<Rightarrow> 'a" where
  "or_keep v x = (case v of Some y \<Rightarrow> y | None \<Rightarrow> x)"

definition on_room_updated :: "ident \<Rightarrow> string option \<Rightarrow> int option \<Rightarrow> string option \<Rightarrow> room_page \<Rightarrow> room_page" where
  "on_room_updated evtRoom name maxMembers joinPolicy =
     for_room evtRoom (mapRoom (\<lambda>r. r\<lparr>rmv_name := or_keep name (rmv_name r),
       rmv_maxMembers := or_keep maxMembers (rmv_maxMembers r), rmv_joinPolicy := or_keep joinPolicy (rmv_joinPolicy r)\<rparr>))"

definition on_room_closed :: "ident \<Rightarrow> room_page \<Rightarrow> room_page" where
  "on_room_closed evtRoom =
     for_room evtRoom (\<lambda>pg. pg\<lparr>rmp_banner := Some ''This room was closed and deleted by the owner.''\<rparr>)"

definition on_member_removed :: "ident \<Rightarrow> room_page \<Rightarrow> room_page" where
  "on_member_removed evtRoom =
     for_room evtRoom (\<lambda>pg. pg\<lparr>rmp_banner := Some ''You have been removed from this room by the owner.''\<rparr>)"

definition forget_typing :: "ident \<Rightarrow> room_page \<Rightarrow> room_page" where
  "forget_typing from pg =
     pg\<lparr>rmp_typingTimers := filter (\<lambda>p. fst p \<noteq> from) (rmp_typingTimers pg),
        rmp_typingUsers := filter (\<lambda>p. fst p \<noteq> from) (rmp_typingUsers pg)\<rparr>"

text \<open>\<open>syncRoomKey()\<close> of the socket's effect; \<open>env 0\<close> and \<open>env 1\<close> are what its two calls find.\<close>

definition read_arrival :: "subtle \<Rightarrow> (nat \<Rightarrow> sync_env) \<Rightarrow> room_wire \<Rightarrow> room_page \<Rightarrow> display_message \<times> room_page" where
  "read_arrival S env w pg =
     (let (key, pg1) = (case rmp_roomKey pg of Some k \<Rightarrow> (Some k, pg) | None \<Rightarrow> syncRoomKey S (env 0) (rmp_bound pg) None pg);
          first = shown_wire S key (rmp_roomId pg) w
      in if \<not> dm_decryptFailed first then (first, pg1)
         else case syncRoomKey S (env 1) (rmp_bound pg1) None pg1 of
                (freshKey, pg2) \<Rightarrow> (shown_wire S freshKey (rmp_roomId pg) w, pg2))"

definition on_room_message :: "subtle \<Rightarrow> (nat \<Rightarrow> sync_env) \<Rightarrow> ident \<Rightarrow> room_wire \<Rightarrow> room_page \<Rightarrow> room_page" where
  "on_room_message S env evtRoom w =
     for_room evtRoom (\<lambda>pg.
       case read_arrival S env w pg of (m, pg1) \<Rightarrow>
         let pg2 = (if \<exists>x \<in> set (rmp_messages pg1). dm_clientMessageId x = rmw_clientMessageId w then pg1
                    else pg1\<lparr>rmp_messages := rmp_messages pg1 @ [m]\<rparr>)
         in case given (rmw_senderId w) of Some from \<Rightarrow> forget_typing from pg2 | None \<Rightarrow> pg2)"

text \<open>\<open>Map.set\<close> keeps the place of a key it holds.\<close>

definition map_put :: "ident \<Rightarrow> 'a \<Rightarrow> (ident \<times> 'a) list \<Rightarrow> (ident \<times> 'a) list" where
  "map_put k v m =
     (if k \<in> fst ` set m then map (\<lambda>p. if fst p = k then (k, v) else p) m else m @ [(k, v)])"

definition on_room_typing :: "ident \<Rightarrow> instant \<Rightarrow> ident \<Rightarrow> string \<Rightarrow> bool \<Rightarrow> room_page \<Rightarrow> room_page" where
  "on_room_typing evtRoom now from username isTyping =
     for_room evtRoom (\<lambda>pg.
       if isTyping
       then pg\<lparr>rmp_typingTimers := map_put from (now + 5000) (rmp_typingTimers pg),
               rmp_typingUsers := map_put from username (rmp_typingUsers pg)\<rparr>
       else forget_typing from pg)"

text \<open>A timer that is due; the timer of an earlier notice has been cleared.\<close>

definition typing_timer :: "instant \<Rightarrow> ident \<Rightarrow> room_page \<Rightarrow> room_page" where
  "typing_timer now from pg =
     (if \<exists>t. (from, t) \<in> set (rmp_typingTimers pg) \<and> t \<le> now then forget_typing from pg else pg)"

definition on_join_lock_changed :: "ident \<Rightarrow> bool \<Rightarrow> room_page \<Rightarrow> room_page" where
  "on_join_lock_changed evtRoom locked = for_room evtRoom (\<lambda>pg. pg\<lparr>rmp_joinLocked := locked\<rparr>)"

definition on_key_delivered :: "subtle \<Rightarrow> sync_env \<Rightarrow> ident \<Rightarrow> room_page \<Rightarrow> room_page" where
  "on_key_delivered S env evtRoom = for_room evtRoom (\<lambda>pg. snd (syncRoomKey S env (rmp_bound pg) None pg))"

definition on_join_accepted :: "subtle \<Rightarrow> sync_env \<Rightarrow> ident \<Rightarrow> room_page \<Rightarrow> room_page" where
  "on_join_accepted S env evtRoom = for_room evtRoom (\<lambda>pg. snd (syncRoomKey S env (rmp_bound pg) None pg))"

text \<open>The button beside the missing key belongs to the current render.\<close>

definition retry_key :: "subtle \<Rightarrow> sync_env \<Rightarrow> room_page \<Rightarrow> room_page" where
  "retry_key S env pg = snd (syncRoomKey S env (render_of pg) None pg)"

section \<open>Sending\<close>

definition handleInputChange :: "string \<Rightarrow> room_page \<Rightarrow> room_page" where
  "handleInputChange value pg =
     (let pg1 = pg\<lparr>rmp_input := value\<rparr>;
          pg2 = (if rmp_throttled pg1 then pg1 else log_room (Emit_Typing True) (pg1\<lparr>rmp_throttled := True\<rparr>))
      in if js_trim value = '''' then log_room (Emit_Typing False) pg2 else pg2)"

definition unthrottle :: "room_page \<Rightarrow> room_page" where
  "unthrottle pg = pg\<lparr>rmp_throttled := False\<rparr>"

record room_attempt =
  ra_clientMessageId :: ident
  ra_iv :: bytes
  ra_sentAt :: string
  ra_answer :: "failure option"

definition optimistic :: "render \<Rightarrow> room_attempt \<Rightarrow> string \<Rightarrow> string \<Rightarrow> json option \<Rightarrow> display_message" where
  "optimistic rn a text kind attachment =
     \<lparr>dm_id = ra_clientMessageId a, dm_senderId = Some (case rn_userId rn of Some u \<Rightarrow> u | None \<Rightarrow> ''''),
      dm_senderUsername = Some ''you'', dm_sequenceNumber = int (length (rn_messages rn)) + 1,
      dm_clientMessageId = ra_clientMessageId a, dm_sealed = None, dm_plaintext = Some text, dm_attachment = attachment,
      dm_decryptFailed = False, dm_messageType = kind, dm_sentAt = ra_sentAt a, dm_isSystem = False\<rparr>"

text \<open>
  Sealing a text, showing it and posting it. The first component of the result is what
  is thrown; a key the browser cannot import throws before anything is shown.
\<close>

definition post_sealed ::
  "subtle \<Rightarrow> render \<Rightarrow> room_attempt \<Rightarrow> bytes \<Rightarrow> room_details \<Rightarrow> string \<Rightarrow> string \<Rightarrow> json option \<Rightarrow> room_page \<Rightarrow>
    failure option \<times> room_page" where
  "post_sealed S rn a key room text kind attachment pg =
     (case encryptRoomMessage S (ra_iv a) key text (key2 '''' (rmp_roomId pg) (ra_clientMessageId a)) of
        Inl _ \<Rightarrow> (Some None, pg)
      | Inr (ct, iv) \<Rightarrow>
          (ra_answer a,
           log_room (Post_Room_Message \<lparr>rpo_clientMessageId = ra_clientMessageId a, rpo_ciphertext = ct, rpo_iv = iv,
                       rpo_keyEpoch = rmv_keyEpoch room, rpo_messageType = kind\<rparr>)
             (pg\<lparr>rmp_messages := rmp_messages pg @ [optimistic rn a text kind attachment]\<rparr>)))"

definition sendDirectRoomText ::
  "subtle \<Rightarrow> render \<Rightarrow> room_attempt \<Rightarrow> string \<Rightarrow> room_page \<Rightarrow> failure option \<times> room_page" where
  "sendDirectRoomText S rn a textToSend pg =
     (let text = js_trim textToSend
      in case (rn_roomKey rn, rn_room rn) of
           (Some key, Some room) \<Rightarrow> if text = '''' then (None, pg) else post_sealed S rn a key room text ''TEXT'' None pg
         | _ \<Rightarrow> (None, pg))"

definition handleSendMessage :: "subtle \<Rightarrow> room_attempt \<Rightarrow> room_page \<Rightarrow> room_page" where
  "handleSendMessage S a pg =
     (let text = js_trim (rmp_input pg)
      in if text = '''' \<or> rmp_sending pg \<or> rmp_roomKey pg = None \<or> rmp_room pg = None then pg
         else case sendDirectRoomText S (render_of pg) a text (pg\<lparr>rmp_input := ''''\<rparr>) of
                (None, pg1) \<Rightarrow> pg1
              | (Some f, pg1) \<Rightarrow> pg1\<lparr>rmp_actionError := Some (error_text f ''Could not send room message.'')\<rparr>)"

section \<open>Scheduled messages\<close>

fun room_sweep_items ::
  "subtle \<Rightarrow> render \<Rightarrow> ident \<Rightarrow> (nat \<Rightarrow> room_attempt) \<Rightarrow> nat \<Rightarrow> scheduled_item list \<Rightarrow> room_page \<Rightarrow> room_page" where
  "room_sweep_items S rn u env k [] pg = pg"
| "room_sweep_items S rn u env k (item # items) pg =
     (let pg1 = pg\<lparr>rmp_store := removeScheduledMessage u (sm_id item) (rmp_store pg)\<rparr>
      in if sm_text item = '''' then room_sweep_items S rn u env (k + 1) items pg1
         else case sendDirectRoomText S rn (env k) (sm_text item) pg1 of
                (None, pg2) \<Rightarrow> room_sweep_items S rn u env (k + 1) items pg2
              | (Some _, pg2) \<Rightarrow> pg2)"

definition room_sweep :: "subtle \<Rightarrow> render \<Rightarrow> (nat \<Rightarrow> room_attempt) \<Rightarrow> instant \<Rightarrow> room_page \<Rightarrow> room_page" where
  "room_sweep S rn env now pg =
     (case given (rn_userId rn) of
        None \<Rightarrow> pg
      | Some u \<Rightarrow>
          if rn_roomKey rn = None \<or> rn_room rn = None then pg
          else room_sweep_items S rn u env 0 (getDueScheduledMessages now u (Some (rmp_roomId pg)) (rmp_store pg)) pg)"

text \<open>The first component is the error shown in the dialog.\<close>

definition room_schedule :: "ident \<Rightarrow> instant \<Rightarrow> instant \<Rightarrow> room_page \<Rightarrow> string option \<times> room_page" where
  "room_schedule scheduledId now targetTimeMs pg =
     (case (given (rmp_userId pg), rmp_room pg) of
        (Some u, Some _) \<Rightarrow>
          let textToSchedule = js_trim (rmp_input pg)
          in if textToSchedule = '''' then (Some ''Please enter a message to schedule.'', pg)
             else (None, pg\<lparr>rmp_input := '''',
                    rmp_store := saveScheduledMessage u
                      \<lparr>sm_id = scheduledId, sm_conversationId = rmp_roomId pg, sm_isRoom = Some True, sm_text = textToSchedule,
                       sm_attachment = None, sm_scheduledFor = targetTimeMs, sm_createdAt = now\<rparr> (rmp_store pg)\<rparr>)
      | _ \<Rightarrow> (None, pg))"

section \<open>Files\<close>

definition sendRoomFile ::
  "subtle \<Rightarrow> room_attempt \<Rightarrow> bytes \<Rightarrow> bytes \<Rightarrow> (failure + ident) \<Rightarrow> chosen_file \<Rightarrow> string option \<Rightarrow> bool \<Rightarrow> room_page \<Rightarrow>
    room_page" where
  "sendRoomFile S a dek fileIv upload f caption viewOnce pg =
     (let failed = (\<lambda>e pg. pg\<lparr>rmp_actionError := Some (error_text e (''Failed to send \"'' @ cf_name f @ ''\". Please try again.''))\<rparr>)
      in case (rmp_roomKey pg, rmp_room pg) of
           (Some key, Some room) \<Rightarrow>
             if cf_size f > max_attachment_bytes then pg\<lparr>rmp_actionError := Some ''File is too large (25MB limit).''\<rparr>
             else
               let enc = encryptFile S dek fileIv (cf_type f) (cf_size f) (cf_cleaned f)
               in case upload of
                    Inl e \<Rightarrow> failed e pg
                  | Inr attachmentId \<Rightarrow>
                      let content = attachment_payload attachmentId (bytesToBase64 (ef_dek enc)) (ef_mimeTypeHint enc)
                                      (cf_name f) caption viewOnce;
                          kind = (if ef_mimeTypeHint enc = ''image'' then ''IMAGE'' else ''FILE'')
                      in case post_sealed S (render_of pg) a key room content kind (json_parse content) pg of
                           (None, pg1) \<Rightarrow> pg1
                         | (Some e, pg1) \<Rightarrow> failed e pg1
         | _ \<Rightarrow> pg\<lparr>rmp_actionError := Some ''Room encryption key is required to send attachments.''\<rparr>)"

definition ends_with :: "string \<Rightarrow> string \<Rightarrow> bool" where
  "ends_with suf s \<longleftrightarrow> length suf \<le> length s \<and> drop (length s - length suf) s = suf"

definition mime_of :: "string \<Rightarrow> string" where
  "mime_of filename =
     (let ext = to_lower filename
      in if ends_with ''.png'' ext then ''image/png''
         else if ends_with ''.webp'' ext then ''image/webp''
         else if ends_with ''.gif'' ext then ''image/gif''
         else if ends_with ''.pdf'' ext then ''application/pdf''
         else if ends_with ''.jpg'' ext \<or> ends_with ''.jpeg'' ext then ''image/jpeg''
         else ''application/octet-stream'')"

definition safe_filename :: "string \<Rightarrow> string" where
  "safe_filename = map (\<lambda>c. if c \<in> set ''/?%*:|<>'' \<union> {CHR 0x5C, CHR 0x22} then CHR ''_'' else c)"

datatype opened = Preview_Image string bytes | New_Tab string bytes | Download string bytes

definition json_string :: "string \<Rightarrow> json \<Rightarrow> string option" where
  "json_string k v = (case json_field k v of Some (JStr s) \<Rightarrow> Some s | _ \<Rightarrow> None)"

text \<open>\<open>tab\<close> says whether the browser allows a new tab.\<close>

definition openRoomAttachment ::
  "subtle \<Rightarrow> bool \<Rightarrow> (failure + bytes) \<Rightarrow> json \<Rightarrow> room_page \<Rightarrow> opened option \<times> room_page" where
  "openRoomAttachment S tab download payload pg =
     (let failed = (None, pg\<lparr>rmp_actionError := Some ''Could not open this attachment. It may have expired or been deleted.''\<rparr>)
      in case (download, Option.bind (json_string ''dek'' payload) base64ToBytes, json_string ''filename'' payload) of
           (Inr ciphertext, Some dek, Some filename) \<Rightarrow>
             (case decryptFile S ciphertext dek of
                Inl _ \<Rightarrow> failed
              | Inr blob \<Rightarrow>
                  let mime = mime_of filename
                  in (Some (if starts_with ''image/'' mime then Preview_Image filename blob
                            else if mime = ''application/pdf'' \<and> tab then New_Tab mime blob
                            else Download (safe_filename filename) blob), pg))
         | _ \<Rightarrow> failed)"

section \<open>Governing the room\<close>

definition handleToggleJoinLock :: "(failure + bool) \<Rightarrow> room_page \<Rightarrow> room_page" where
  "handleToggleJoinLock answer pg =
     (let pg1 = log_room (Patch_Join_Lock (\<not> rmp_joinLocked pg)) pg
      in case answer of
           Inr locked \<Rightarrow> pg1\<lparr>rmp_joinLocked := locked\<rparr>
         | Inl f \<Rightarrow> pg1\<lparr>rmp_actionError :=
             Some (case given f of Some m \<Rightarrow> m | None \<Rightarrow> ''Could not update join lock.'')\<rparr>)"

text \<open>The answer of the server may hold the new number of members.\<close>

definition handleAddMember ::
  "(failure + int option) \<Rightarrow> ident \<Rightarrow> bool \<Rightarrow> room_page \<Rightarrow> string option \<times> room_page" where
  "handleAddMember answer candidate isMember pg =
     (if isMember then (None, pg)
      else
        let pg1 = log_room (Post_Member candidate) pg
        in case answer of
             Inl f \<Rightarrow> (Some (error_text f ''Failed to add member to room.''), pg1)
           | Inr n \<Rightarrow> (None, fetchMembers (rmp_memberPage pg)
               (mapRoom (\<lambda>r. r\<lparr>rmv_memberCount := or_keep n (rmv_memberCount r + 1)\<rparr>) pg1)))"

definition key_for_accept :: "subtle \<Rightarrow> sync_env \<Rightarrow> bytes \<Rightarrow> room_page \<Rightarrow> bytes \<times> room_page" where
  "key_for_accept S env generated pg =
     (case rmp_roomKey pg of
        Some k \<Rightarrow> (k, pg)
      | None \<Rightarrow>
          (case syncRoomKey S env (render_of pg) None pg of
             (Some k, pg1) \<Rightarrow> (k, pg1)
           | (None, pg1) \<Rightarrow>
               (generated,
                pg1\<lparr>rmp_store := saveRoomKey (rmp_roomId pg) (case rmp_room pg of Some r \<Rightarrow> rmv_keyEpoch r | None \<Rightarrow> 1) generated
                       (rmp_userId pg) (rmp_store pg1),
                    rmp_roomKey := Some generated\<rparr>)))"

definition wrapped_key :: "subtle \<Rightarrow> bytes \<Rightarrow> bytes \<Rightarrow> string option \<Rightarrow> room_page \<Rightarrow> (string + envelope option) \<times> room_page" where
  "wrapped_key S iv key requesterDhPublic pg =
     (case given requesterDhPublic of
        None \<Rightarrow> (Inr None, pg)
      | Some public \<Rightarrow>
          (case getUserIdentity (rmp_userId pg) (rmp_store pg) of
             (None, c) \<Rightarrow> (Inr None, pg\<lparr>rmp_store := c\<rparr>)
           | (Some i, c) \<Rightarrow>
               (map_sum id Some (encryptRoomKeyForRecipient S iv key public (ky_private (di_identityDh i))),
                pg\<lparr>rmp_store := c\<rparr>)))"

definition handleAccept ::
  "subtle \<Rightarrow> sync_env \<Rightarrow> bytes \<Rightarrow> bytes \<Rightarrow> (failure + unit) \<Rightarrow> ident \<Rightarrow> string option \<Rightarrow> room_page \<Rightarrow> room_page" where
  "handleAccept S env generated iv answer requestId requesterDhPublic pg =
     (if given (rmp_processing pg) \<noteq> None then pg
      else
        let failed = (\<lambda>f pg. pg\<lparr>rmp_actionError := Some (error_text f ''Could not accept request.''), rmp_acceptingStatus := None\<rparr>)
        in case key_for_accept S env generated pg of (key, pg1) \<Rightarrow>
           (case wrapped_key S iv key requesterDhPublic pg1 of
              (Inl _, pg2) \<Rightarrow> failed None pg2
            | (Inr sealed, pg2) \<Rightarrow>
                let pg3 = log_room (Post_Accept requestId (map_option fst sealed) (map_option snd sealed)) pg2
                in case answer of
                     Inl f \<Rightarrow> failed f pg3
                   | Inr _ \<Rightarrow>
                       pg3\<lparr>rmp_pendingRequests := filter (\<lambda>r. jq_id r \<noteq> requestId) (rmp_pendingRequests pg3),
                           rmp_acceptingStatus := Some (''@'' @
                             (case find (\<lambda>r. jq_id r = requestId) (rmp_pendingRequests pg) of
                                Some r \<Rightarrow> jq_username r | None \<Rightarrow> ''user'') @ '' joined the room'')\<rparr>))"

definition handleReject :: "(failure + unit) \<Rightarrow> ident \<Rightarrow> room_page \<Rightarrow> room_page" where
  "handleReject answer requestId pg =
     (if given (rmp_processing pg) \<noteq> None then pg
      else
        let pg1 = log_room (Post_Reject requestId) pg
        in case answer of
             Inl f \<Rightarrow> pg1\<lparr>rmp_actionError := Some (error_text f ''Could not reject request.'')\<rparr>
           | Inr _ \<Rightarrow> pg1\<lparr>rmp_pendingRequests := filter (\<lambda>r. jq_id r \<noteq> requestId) (rmp_pendingRequests pg1)\<rparr>)"

definition executeLeaveRoom :: "(failure + unit) \<Rightarrow> room_page \<Rightarrow> room_page" where
  "executeLeaveRoom answer pg =
     (let pg1 = (log_room Post_Leave pg)\<lparr>rmp_confirm := None\<rparr>
      in case answer of
           Inr _ \<Rightarrow> pg1\<lparr>rmp_pushed := Some ''/chat''\<rparr>
         | Inl f \<Rightarrow> pg1\<lparr>rmp_actionError := Some (error_text f ''Could not leave room.'')\<rparr>)"

definition delete_with :: "string \<Rightarrow> (failure + unit) \<Rightarrow> room_page \<Rightarrow> room_page" where
  "delete_with password answer pg =
     (let pg1 = log_room (Delete_Room (given (Some password))) pg
      in case answer of
           Inr _ \<Rightarrow> pg1\<lparr>rmp_confirm := None, rmp_pushed := Some ''/chat''\<rparr>
         | Inl f \<Rightarrow> pg1\<lparr>rmp_deletePasswordError := Some (error_text f ''Could not delete room. Check your Burn Password.'')\<rparr>)"

definition executeDeleteRoom ::
  "string \<Rightarrow> string \<Rightarrow> string \<Rightarrow> (failure + unit) \<Rightarrow> (failure + unit) \<Rightarrow> room_page \<Rightarrow> room_page" where
  "executeDeleteRoom deletePassword newPassword confirmPassword setAnswer answer pg =
     (let pg0 = pg\<lparr>rmp_deletePasswordError := None, rmp_burnSetupError := None\<rparr>
      in if rmp_hasBurnPassword pg then delete_with (js_trim deletePassword) answer pg0
         else if length newPassword < 4
         then pg0\<lparr>rmp_burnSetupError := Some ''Burn Password must be at least 4 characters.''\<rparr>
         else if newPassword \<noteq> confirmPassword then pg0\<lparr>rmp_burnSetupError := Some ''Passwords do not match.''\<rparr>
         else
           let pg1 = log_room (Set_Burn_Password newPassword) pg0
           in case setAnswer of
                Inl f \<Rightarrow> pg1\<lparr>rmp_burnSetupError :=
                  Some (case given f of Some m \<Rightarrow> m | None \<Rightarrow> ''Could not configure Burn Password.'')\<rparr>
              | Inr _ \<Rightarrow> delete_with newPassword answer (pg1\<lparr>rmp_hasBurnPassword := True\<rparr>))"

text \<open>The answer is the new key epoch; the key of the next epoch is drawn and kept on this device.\<close>

definition executeRemoveMember :: "bytes \<Rightarrow> (failure + nat) \<Rightarrow> room_page \<Rightarrow> room_page" where
  "executeRemoveMember rotatedKey answer pg =
     (case rmp_confirm pg of
        Some (Confirm_Remove target) \<Rightarrow>
          let pg1 = (log_room (Delete_Member target) pg)\<lparr>rmp_confirm := None\<rparr>
          in (case answer of
                Inl f \<Rightarrow> pg1\<lparr>rmp_actionError := Some (error_text f ''Could not remove member.'')\<rparr>
              | Inr newKeyEpoch \<Rightarrow>
                  fetchMembers (rmp_memberPage pg)
                    (mapRoom (\<lambda>r. r\<lparr>rmv_keyEpoch := newKeyEpoch\<rparr>)
                      (pg1\<lparr>rmp_store := saveRoomKey (rmp_roomId pg) newKeyEpoch rotatedKey None (rmp_store pg1),
                           rmp_roomKey := Some rotatedKey\<rparr>)))
      | _ \<Rightarrow> pg)"

definition handleSaveSettings :: "(failure + string \<times> int \<times> string) \<Rightarrow> room_page \<Rightarrow> room_page" where
  "handleSaveSettings answer pg =
     (let pg0 = pg\<lparr>rmp_actionError := None\<rparr>
      in case rmp_edit pg of (editName, editMax, policy) \<Rightarrow>
         (case js_parseInt editMax of
            Some cap \<Rightarrow>
              if cap < 2 \<or> cap > 2000
              then pg0\<lparr>rmp_actionError := Some ''Maximum members must be between 2 and 2,000.''\<rparr>
              else
                let pg1 = log_room (Patch_Settings (js_trim editName) cap policy) pg0
                in (case answer of
                      Inl f \<Rightarrow> pg1\<lparr>rmp_actionError := Some (error_text f ''Could not update room settings.'')\<rparr>
                    | Inr (name, maxMembers, joinPolicy) \<Rightarrow>
                        mapRoom (\<lambda>r. r\<lparr>rmv_name := name, rmv_maxMembers := maxMembers, rmv_joinPolicy := joinPolicy\<rparr>) pg1)
          | None \<Rightarrow> pg0\<lparr>rmp_actionError := Some ''Maximum members must be between 2 and 2,000.''\<rparr>))"

section \<open>What a search for the key leaves alone\<close>

text \<open>The search writes the store, the key and its error, the room, the messages and the log.\<close>

definition aside :: "room_page \<Rightarrow> _" where
  "aside pg = (rmp_roomId pg, rmp_userId pg, rmp_bound pg, rmp_typingUsers pg, rmp_typingTimers pg, rmp_pendingRequests pg,
     rmp_memberPage pg)"

lemma aside_updates [simp]:
  "aside (pg\<lparr>rmp_store := c\<rparr>) = aside pg" "aside (pg\<lparr>rmp_room := r\<rparr>) = aside pg" "aside (pg\<lparr>rmp_roomKey := k\<rparr>) = aside pg"
  "aside (pg\<lparr>rmp_keySyncError := e\<rparr>) = aside pg" "aside (pg\<lparr>rmp_messages := ms\<rparr>) = aside pg" "aside (log_room q pg) = aside pg"
  by (simp_all add: aside_def log_room_def)

lemma aside_fields:
  assumes "aside pg' = aside pg"
  shows "rmp_roomId pg' = rmp_roomId pg" "rmp_userId pg' = rmp_userId pg" "rmp_bound pg' = rmp_bound pg"
    "rmp_typingUsers pg' = rmp_typingUsers pg" "rmp_typingTimers pg' = rmp_typingTimers pg"
    "rmp_pendingRequests pg' = rmp_pendingRequests pg" "rmp_memberPage pg' = rmp_memberPage pg"
  using assms by (simp_all add: aside_def)

lemma log_room_fields [simp]:
  "rmp_store (log_room q pg) = rmp_store pg" "rmp_messages (log_room q pg) = rmp_messages pg"
  "rmp_roomId (log_room q pg) = rmp_roomId pg" "rmp_sent (log_room q pg) = rmp_sent pg @ [q]"
  "rmp_typingUsers (log_room q pg) = rmp_typingUsers pg" "rmp_typingTimers (log_room q pg) = rmp_typingTimers pg"
  "rmp_bound (log_room q pg) = rmp_bound pg" "rmp_roomKey (log_room q pg) = rmp_roomKey pg"
  "rmp_room (log_room q pg) = rmp_room pg" "rmp_userId (log_room q pg) = rmp_userId pg"
  by (simp_all add: log_room_def)

lemma search_aside:
  "aside (snd (stored_key rn room pg)) = aside pg" "rmp_messages (snd (stored_key rn room pg)) = rmp_messages pg"
  "aside (snd (key_from_code S rn room pg)) = aside pg" "rmp_messages (snd (key_from_code S rn room pg)) = rmp_messages pg"
  "aside (snd (key_from_package S env rn room pg)) = aside pg"
  "rmp_messages (snd (key_from_package S env rn room pg)) = rmp_messages pg"
  "aside (snd (first_key S env rn room pg)) = aside pg" "rmp_messages (snd (first_key S env rn room pg)) = rmp_messages pg"
  "aside (publish_missing S env room key pg) = aside pg" "rmp_messages (publish_missing S env room key pg) = rmp_messages pg"
  by (simp_all add: stored_key_def key_from_code_def key_from_package_def first_key_def publish_missing_def publish_key_def
      keep_key_def Let_def case_prod_unfold split: option.split sum.split prod.split)

lemma or_else_aside:
  assumes "\<And>pg. aside (snd (f pg)) = aside pg \<and> rmp_messages (snd (f pg)) = rmp_messages pg"
  shows "aside (snd (or_else f r)) = aside (snd r)" "rmp_messages (snd (or_else f r)) = rmp_messages (snd r)"
  using assms by (auto simp: or_else_def split: prod.split option.split)

lemma sync_aside:
  assumes "syncRoomKey S env rn ov pg = (k, pg')"
  shows "aside pg' = aside pg"
    and "rmp_messages pg' = (case k of None \<Rightarrow> rmp_messages pg | Some key \<Rightarrow> map (redecrypt S key (rmp_roomId pg)) (rn_messages rn))"
proof -
  define search where "search room pg0 = or_else (first_key S env rn room) (or_else (key_from_package S env rn room)
      (or_else (key_from_code S rn room) (stored_key rn room pg0)))" for room pg0
  have s: "aside (snd (search room pg0)) = aside pg0" "rmp_messages (snd (search room pg0)) = rmp_messages pg0" for room pg0
    by (simp_all add: search_def or_else_aside search_aside)
  note u = assms [unfolded syncRoomKey_def Let_def search_def [symmetric]]
  have *: "aside pg' = aside pg \<and>
      rmp_messages pg' = (case k of None \<Rightarrow> rmp_messages pg | Some key \<Rightarrow> map (redecrypt S key (rmp_roomId pg)) (rn_messages rn))"
    if "(case search room (pg0\<lparr>rmp_keySyncError := None\<rparr>) of (key, pg1) \<Rightarrow>
          (case key of Some k' \<Rightarrow> (Some k', decryptMessagesWithKey S k' rn ((publish_missing S env room key pg1)\<lparr>rmp_roomKey := Some k', rmp_keySyncError := None\<rparr>))
           | None \<Rightarrow> (None, (publish_missing S env room key pg1)\<lparr>rmp_keySyncError := Some (key_missing room)\<rparr>))) = (k, pg')"
      "aside pg0 = aside pg" "rmp_messages pg0 = rmp_messages pg" for room pg0
  proof -
    obtain key pg1 where r: "search room (pg0\<lparr>rmp_keySyncError := None\<rparr>) = (key, pg1)" by fastforce
    have a: "aside pg1 = aside pg" "rmp_messages pg1 = rmp_messages pg"
      using s [of room "pg0\<lparr>rmp_keySyncError := None\<rparr>"] r that(2,3) by simp_all
    have i: "rmp_roomId (publish_missing S env room key pg1) = rmp_roomId pg"
      using aside_fields(1) [of "publish_missing S env room key pg1" pg] a(1) search_aside(9) by simp
    show ?thesis using that(1) a i
      by (auto simp: r decryptMessagesWithKey_def search_aside split: option.splits)
  qed
  show "aside pg' = aside pg"
    "rmp_messages pg' = (case k of None \<Rightarrow> rmp_messages pg | Some key \<Rightarrow> map (redecrypt S key (rmp_roomId pg)) (rn_messages rn))"
    using u * by (auto split: option.splits sum.splits)
qed

section \<open>The key reaches the members\<close>

lemma base64_empty [simp]: "bytesToBase64 bs = '''' \<longleftrightarrow> bs = []"
  by (simp add: bytesToBase64_def b64_encode_empty)

lemma kept_room_key:
  assumes "u \<noteq> ''''" "k \<noteq> []"
  shows "fst (loadRoomKey r n (Some u) (saveRoomKey r n k (Some u) c)) = Some k"
proof -
  have "idbGet as_filled (room_key_name u r n) (idbSet (room_key_name u r n) (V_Text (bytesToBase64 k)) c) =
      Some (bytesToBase64 k)"
    using assms(2) by (simp add: as_filled_def given_def)
  then show ?thesis using assms(1) by (simp add: loadRoomKey_def saveRoomKey_def read_migrating_def)
qed

text \<open>A page without a stored key whose room has a code and a published key.\<close>

lemma sync_by_code:
  assumes u: "rn_userId rn = Some u" "u \<noteq> ''''" and none: "fst (stored_key rn room pg) = None"
    and code: "rmv_code room = Some code" "code \<noteq> ''''"
    and open_key: "rmv_openKeyCiphertext room = Some ct" "rmv_openKeyNonce room = Some nonce" "ct \<noteq> ''''" "nonce \<noteq> ''''"
    and k: "decryptOpenRoomKey S ct nonce code = Inr k" "k \<noteq> []"
  shows "\<exists>pg'. syncRoomKey S env rn (Some room) pg = (Some k, pg') \<and> rmp_roomKey pg' = Some k \<and> rmp_sent pg' = rmp_sent pg \<and>
    fst (loadRoomKey (rmp_roomId pg) (rmv_keyEpoch room) (Some u) (rmp_store pg')) = Some k"
proof -
  let ?pg0 = "pg\<lparr>rmp_keySyncError := None\<rparr>"
  obtain c where st: "loadRoomKey (rmp_roomId pg) (rmv_keyEpoch room) (rn_userId rn) (rmp_store pg) = (None, c)"
    using none by (cases "loadRoomKey (rmp_roomId pg) (rmv_keyEpoch room) (rn_userId rn) (rmp_store pg)") (simp add: stored_key_def)
  have "or_else (first_key S env rn room) (or_else (key_from_package S env rn room)
      (or_else (key_from_code S rn room) (stored_key rn room ?pg0))) = (Some k, keep_key rn room k (?pg0\<lparr>rmp_store := c\<rparr>))"
    using code open_key k by (simp add: or_else_def stored_key_def st key_from_code_def given_def)
  then show ?thesis using u open_key kept_room_key [OF u(2) k(2)]
    by (simp add: syncRoomKey_def publish_missing_def decryptMessagesWithKey_def keep_key_def given_def split: option.split)
qed

text \<open>
  C14. The room key reaches everyone who has the code: when the owner opens a room that
  has no key yet, the fresh key is the owner's key and is published sealed with the
  code; a member whose view of the room holds a published key and the code, in any
  spelling, finds exactly the key of the owner, uses it and keeps it for the epoch.
\<close>

theorem open_room_key_agreed:
  assumes laws: "opens S"
    and owner: "rmv_role room = ''OWNER''" "rmv_code room = Some code" "code \<noteq> ''''" "rmv_openKeyCiphertext room = None"
    and first: "fst (stored_key rn room pg) = None" "sye_package env = Inr None" and fresh: "sye_fresh env \<noteq> []"
    and owned: "syncRoomKey S env rn (Some room) pg = (k, pg')"
    and member: "rn_userId rn' = Some v" "v \<noteq> ''''" "fst (stored_key rn' room' m) = None"
    and published: "Patch_Open_Key ct nonce \<in> set (drop (length (rmp_sent pg)) (rmp_sent pg'))"
    and view: "rmv_openKeyCiphertext room' = Some ct" "rmv_openKeyNonce room' = Some nonce" "ct \<noteq> ''''" "nonce \<noteq> ''''"
      "rmv_code room' = Some code'" "code' \<noteq> ''''" "to_upper (js_trim code') = to_upper (js_trim code)"
  shows "k = Some (sye_fresh env) \<and> length (rmp_sent pg') = length (rmp_sent pg) + 2 \<and>
    (\<exists>m'. syncRoomKey S env' rn' (Some room') m = (k, m') \<and> rmp_roomKey m' = k \<and>
       fst (loadRoomKey (rmp_roomId m) (rmv_keyEpoch room') (Some v) (rmp_store m')) = k)"
proof -
  let ?k = "sye_fresh env" and ?pg0 = "pg\<lparr>rmp_keySyncError := None\<rparr>"
  obtain c where st: "loadRoomKey (rmp_roomId pg) (rmv_keyEpoch room) (rn_userId rn) (rmp_store pg) = (None, c)"
    using first(1) by (cases "loadRoomKey (rmp_roomId pg) (rmv_keyEpoch room) (rn_userId rn) (rmp_store pg)") (simp add: stored_key_def)
  have search: "or_else (first_key S env rn room) (or_else (key_from_package S env rn room)
      (or_else (key_from_code S rn room) (stored_key rn room ?pg0))) =
      (Some ?k, publish_key S (sye_iv env) ?k code (keep_key rn room ?k (?pg0\<lparr>rmp_store := c\<rparr>)))"
    using owner first(2)
    by (simp add: or_else_def stored_key_def st key_from_code_def key_from_package_def first_key_def given_def)
  have o: "k = Some ?k" "rmp_sent pg' = rmp_sent pg @
      [Patch_Open_Key (fst (encryptOpenRoomKey S (sye_iv env) ?k code)) (snd (encryptOpenRoomKey S (sye_iv env) ?k code)),
       Patch_Open_Key (fst (encryptOpenRoomKey S (sye_iv2 env) ?k code)) (snd (encryptOpenRoomKey S (sye_iv2 env) ?k code))]"
    using owner owned
    by (auto simp: syncRoomKey_def search publish_missing_def publish_key_def decryptMessagesWithKey_def keep_key_def
        given_def case_prod_unfold)
  have "\<exists>iv. ct = fst (encryptOpenRoomKey S iv ?k code) \<and> nonce = snd (encryptOpenRoomKey S iv ?k code)"
    using published o(2) by auto
  then have "decryptOpenRoomKey S ct nonce code' = Inr ?k"
    using laws view(7) by (auto simp: encryptOpenRoomKey_def decryptOpenRoomKey_def deriveOpenRoomCodeKey_def opens_def)
  with sync_by_code [OF member view(5,6) view(1-4) this fresh] o show ?thesis by auto
qed


section \<open>Messages reach every member\<close>

lemma decrypt_sealed:
  assumes "opens S" "encryptRoomMessage S iv key text aad = Inr (ct, n)"
  shows "decryptRoomMessage S key ct n aad = Inr text"
  using assms by (auto simp: encryptRoomMessage_def decryptRoomMessage_def await_Inr opens_def)

text \<open>A row that carries \<open>text\<close> sealed with \<open>key\<close>, whatever the server says of its sender, number and time.\<close>

definition carries :: "subtle \<Rightarrow> bytes \<Rightarrow> ident \<Rightarrow> string \<Rightarrow> room_wire \<Rightarrow> bool" where
  "carries S key roomId text w \<longleftrightarrow>
     (\<exists>iv. encryptRoomMessage S iv key text (key2 '''' roomId (rmw_clientMessageId w)) = Inr (rmw_ciphertext w, rmw_iv w))"

lemma shown_carries:
  assumes "opens S" "carries S key roomId text w"
  shows "dm_plaintext (shown_wire S (Some key) roomId w) = Some text" "\<not> dm_decryptFailed (shown_wire S (Some key) roomId w)"
    "dm_clientMessageId (shown_wire S (Some key) roomId w) = rmw_clientMessageId w"
    "dm_attachment (shown_wire S (Some key) roomId w) = room_attachment (Some text)"
proof -
  obtain iv where iv: "encryptRoomMessage S iv key text (key2 '''' roomId (rmw_clientMessageId w)) = Inr (rmw_ciphertext w, rmw_iv w)"
    using assms(2) by (auto simp: carries_def)
  have "key2 '''' roomId (rmw_clientMessageId w) \<noteq> ''''" by (simp add: key2_def)
  moreover have "decryptRoomMessage S key (rmw_ciphertext w) (rmw_iv w) (key2 '''' roomId (rmw_clientMessageId w)) = Inr text"
    by (rule decrypt_sealed [OF assms(1) iv])
  ultimately have "decryptRoomMessageWithFallback S key (rmw_ciphertext w, rmw_iv w) roomId (rmw_clientMessageId w)
      (rmw_sequenceNumber w) = Inr text"
    by (simp add: decryptRoomMessageWithFallback_def aad_candidates_def)
  then show "dm_plaintext (shown_wire S (Some key) roomId w) = Some text" "\<not> dm_decryptFailed (shown_wire S (Some key) roomId w)"
    "dm_clientMessageId (shown_wire S (Some key) roomId w) = rmw_clientMessageId w"
    "dm_attachment (shown_wire S (Some key) roomId w) = room_attachment (Some text)"
    by (simp_all add: shown_wire_def Let_def open_message_def with_plaintext_def)
qed

abbreviation shown_ids :: "room_page \<Rightarrow> ident set" where
  "shown_ids pg \<equiv> dm_clientMessageId ` set (rmp_messages pg)"

lemma forget_typing_fields [simp]:
  "rmp_messages (forget_typing f pg) = rmp_messages pg" "rmp_roomKey (forget_typing f pg) = rmp_roomKey pg"
  "rmp_roomId (forget_typing f pg) = rmp_roomId pg" "rmp_bound (forget_typing f pg) = rmp_bound pg"
  by (simp_all add: forget_typing_def)

lemma arrival_shown:
  assumes "opens S" "rmp_roomKey pg = Some key" "carries S key (rmp_roomId pg) text w"
    and pg'_def: "pg' = on_room_message S env (rmp_roomId pg) w pg"
  shows "rmp_messages pg' = rmp_messages pg @
      (if rmw_clientMessageId w \<in> shown_ids pg then [] else [shown_wire S (Some key) (rmp_roomId pg) w])"
    "rmp_roomKey pg' = Some key" "rmp_roomId pg' = rmp_roomId pg"
proof -
  have r: "read_arrival S env w pg = (shown_wire S (Some key) (rmp_roomId pg) w, pg)"
    using shown_carries [OF assms(1,3)] assms(2) by (simp add: read_arrival_def)
  have "(\<exists>x \<in> set (rmp_messages pg). dm_clientMessageId x = rmw_clientMessageId w) \<longleftrightarrow> rmw_clientMessageId w \<in> shown_ids pg"
    by (auto simp: id_in_image)
  then show "rmp_messages pg' = rmp_messages pg @
      (if rmw_clientMessageId w \<in> shown_ids pg then [] else [shown_wire S (Some key) (rmp_roomId pg) w])"
    "rmp_roomKey pg' = Some key" "rmp_roomId pg' = rmp_roomId pg"
    using assms(2) by (simp_all add: pg'_def on_room_message_def for_room_def r Let_def split: option.split)
qed

text \<open>The specification: of the rows that arrive, the first with each new client id.\<close>

fun first_arrivals :: "ident set \<Rightarrow> room_wire list \<Rightarrow> room_wire list" where
  "first_arrivals seen [] = []"
| "first_arrivals seen (w # ws) =
     (if rmw_clientMessageId w \<in> seen then first_arrivals seen ws
      else w # first_arrivals (insert (rmw_clientMessageId w) seen) ws)"

text \<open>
  C13. What is written in a room is what its members read: a page that has the key and
  is handed the posts of the room, in any order and any number of times, shows after
  its earlier messages exactly the posts it had not shown, in order of first arrival,
  each once, with its text, its attachment and no failure; a post of its own is not
  repeated by its echo.
\<close>

theorem room_posts_are_read:
  assumes laws: "opens S" and key: "rmp_roomKey pg = Some key"
    and posts: "\<And>w. w \<in> set ws \<Longrightarrow> carries S key (rmp_roomId pg) (text w) w"
    and after: "pg' = fold (\<lambda>w. on_room_message S (env w) (rmp_roomId pg) w) ws pg"
  shows "\<exists>new. rmp_messages pg' = rmp_messages pg @ new \<and>
    map (\<lambda>m. (dm_clientMessageId m, dm_plaintext m, dm_decryptFailed m, dm_attachment m)) new =
      map (\<lambda>w. (rmw_clientMessageId w, Some (text w), False, room_attachment (Some (text w)))) (first_arrivals (shown_ids pg) ws) \<and>
    rmp_roomKey pg' = Some key"
  using key posts after
proof (induction ws arbitrary: pg)
  case (Cons w ws)
  define pg1 where "pg1 = on_room_message S (env w) (rmp_roomId pg) w pg"
  have w: "carries S key (rmp_roomId pg) (text w) w" using Cons.prems(2) by simp
  note a = arrival_shown [OF laws Cons.prems(1) w pg1_def]
  have "\<exists>new. rmp_messages pg' = rmp_messages pg1 @ new \<and>
    map (\<lambda>m. (dm_clientMessageId m, dm_plaintext m, dm_decryptFailed m, dm_attachment m)) new =
      map (\<lambda>w. (rmw_clientMessageId w, Some (text w), False, room_attachment (Some (text w)))) (first_arrivals (shown_ids pg1) ws) \<and>
    rmp_roomKey pg' = Some key"
    using Cons.prems by (intro Cons.IH) (simp_all add: a pg1_def [symmetric])
  moreover have "shown_ids pg1 = insert (rmw_clientMessageId w) (shown_ids pg)"
    using a(1) shown_carries(3) [OF laws w] by auto
  ultimately show ?case using shown_carries [OF laws w] by (auto simp: a(1) insert_absorb)
qed simp

text \<open>What a page posts carries what it shows.\<close>

lemma sent_post_carries:
  assumes "sendDirectRoomText S rn a t pg = (r, pg')" "rmp_sent pg' \<noteq> rmp_sent pg"
  shows "\<exists>key room p. rn_roomKey rn = Some key \<and> rn_room rn = Some room \<and> rmp_sent pg' = rmp_sent pg @ [Post_Room_Message p] \<and>
    rmp_messages pg' = rmp_messages pg @ [optimistic rn a (js_trim t) ''TEXT'' None] \<and>
    rpo_clientMessageId p = ra_clientMessageId a \<and>
    (\<forall>w. rmw_clientMessageId w = rpo_clientMessageId p \<and> rmw_ciphertext w = rpo_ciphertext p \<and> rmw_iv w = rpo_iv p \<longrightarrow>
       carries S key (rmp_roomId pg) (js_trim t) w)"
  using assms
  by (force simp: sendDirectRoomText_def post_sealed_def carries_def Let_def split: option.splits if_splits sum.splits prod.splits)

section \<open>Invariants of the page\<close>

definition chat_ids :: "display_message list \<Rightarrow> ident list" where
  "chat_ids ms = map dm_clientMessageId (filter (\<lambda>m. \<not> dm_isSystem m) ms)"

definition room_page_ok :: "room_page \<Rightarrow> bool" where
  "room_page_ok pg \<longleftrightarrow> distinct (chat_ids (rmp_messages pg)) \<and> distinct (chat_ids (rn_messages (rmp_bound pg))) \<and>
     distinct (map fst (rmp_typingTimers pg)) \<and> map fst (rmp_typingUsers pg) = map fst (rmp_typingTimers pg)"

text \<open>
  Everything that happens to an open page. The server's history names no client id twice and a
  message that is sent gets a new one.
\<close>

inductive room_page_step :: "subtle \<Rightarrow> room_page \<Rightarrow> room_page \<Rightarrow> bool" for S where
  open_room: "(\<And>ms. ie_messages env = Inr ms \<Longrightarrow> distinct (map rmw_clientMessageId ms)) \<Longrightarrow>
    room_page_step S pg (initRoom S env pg)"
| arrives: "room_page_step S pg (on_room_message S envs r w pg)"
| joined: "room_page_step S pg (on_member_joined r mark now at user n pg)"
| left: "room_page_step S pg (on_member_left r mark now at user n pg)"
| join_request: "room_page_step S pg (on_join_request r q pg)"
| updated: "room_page_step S pg (on_room_updated r name cap policy pg)"
| closed: "room_page_step S pg (on_room_closed r pg)"
| removed: "room_page_step S pg (on_member_removed r pg)"
| typing: "room_page_step S pg (on_room_typing r now from username b pg)"
| typing_ends: "room_page_step S pg (typing_timer now from pg)"
| lock_changed: "room_page_step S pg (on_join_lock_changed r b pg)"
| key_delivered: "room_page_step S pg (on_key_delivered S sync r pg)"
| join_accepted: "room_page_step S pg (on_join_accepted S sync r pg)"
| retry: "room_page_step S pg (retry_key S sync pg)"
| input_changes: "room_page_step S pg (handleInputChange value pg)"
| input_rests: "room_page_step S pg (unthrottle pg)"
| send: "ra_clientMessageId a \<notin> shown_ids pg \<Longrightarrow> room_page_step S pg (handleSendMessage S a pg)"
| sweep: "distinct (map (\<lambda>k. ra_clientMessageId (attempts k)) [0..<n]) \<Longrightarrow>
    (\<And>k. k < n \<Longrightarrow> ra_clientMessageId (attempts k) \<notin> shown_ids pg) \<Longrightarrow>
    (\<And>u. length (getDueScheduledMessages now u (Some (rmp_roomId pg)) (rmp_store pg)) \<le> n) \<Longrightarrow>
    room_page_step S pg (room_sweep S rn attempts now pg)"
| schedule: "room_page_step S pg (snd (room_schedule sid now target pg))"
| send_file: "ra_clientMessageId a \<notin> shown_ids pg \<Longrightarrow> room_page_step S pg (sendRoomFile S a dek iv upload f caption once pg)"
| open_file: "room_page_step S pg (snd (openRoomAttachment S tab download payload pg))"
| join_lock: "room_page_step S pg (handleToggleJoinLock lock_answer pg)"
| add_member: "room_page_step S pg (snd (handleAddMember add_answer candidate b pg))"
| accept: "room_page_step S pg (handleAccept S sync generated iv answer rid public pg)"
| reject: "room_page_step S pg (handleReject answer rid pg)"
| leave: "room_page_step S pg (executeLeaveRoom answer pg)"
| delete: "room_page_step S pg (executeDeleteRoom p q r set_answer answer pg)"
| remove_member: "room_page_step S pg (executeRemoveMember rotated removed_answer pg)"
| save_settings: "room_page_step S pg (handleSaveSettings settings_answer pg)"

text \<open>What the invariant reads.\<close>

definition watched :: "room_page \<Rightarrow> _" where
  "watched pg = (rmp_messages pg, rmp_bound pg, rmp_typingUsers pg, rmp_typingTimers pg)"

lemma ok_watched: "watched pg' = watched pg \<Longrightarrow> room_page_ok pg' = room_page_ok pg"
  by (simp add: watched_def room_page_ok_def)

lemma watched_updates [simp]:
  "watched (log_room q pg) = watched pg" "watched (fetchMembers n pg) = watched pg" "watched (mapRoom f pg) = watched pg"
  "watched (pg\<lparr>rmp_store := c\<rparr>) = watched pg" "watched (pg\<lparr>rmp_room := r\<rparr>) = watched pg" "watched (pg\<lparr>rmp_roomKey := k\<rparr>) = watched pg"
  "watched (pg\<lparr>rmp_actionError := e\<rparr>) = watched pg" "watched (pg\<lparr>rmp_pendingRequests := rs\<rparr>) = watched pg"
  "watched (pg\<lparr>rmp_acceptingStatus := s\<rparr>) = watched pg" "watched (pg\<lparr>rmp_banner := s\<rparr>) = watched pg"
  "watched (pg\<lparr>rmp_joinLocked := b\<rparr>) = watched pg" "watched (pg\<lparr>rmp_hasBurnPassword := b\<rparr>) = watched pg"
  "watched (pg\<lparr>rmp_confirm := cf\<rparr>) = watched pg" "watched (pg\<lparr>rmp_deletePasswordError := e\<rparr>) = watched pg"
  "watched (pg\<lparr>rmp_burnSetupError := e\<rparr>) = watched pg" "watched (pg\<lparr>rmp_recentEvents := ev\<rparr>) = watched pg"
  "watched (pg\<lparr>rmp_input := t\<rparr>) = watched pg" "watched (pg\<lparr>rmp_throttled := b\<rparr>) = watched pg"
  "watched (pg\<lparr>rmp_pushed := s\<rparr>) = watched pg" "watched (pg\<lparr>rmp_loadError := e\<rparr>) = watched pg"
  "watched (pg\<lparr>rmp_keySyncError := e\<rparr>) = watched pg" "watched (fill_edit d pg) = watched pg"
  by (simp_all add: watched_def log_room_def fetchMembers_def mapRoom_def fill_edit_def)

lemma governing_watched:
  "watched (handleToggleJoinLock lock_answer pg) = watched pg" "watched (snd (handleAddMember add_answer candidate b pg)) = watched pg"
  "watched (handleReject answer rid pg) = watched pg" "watched (executeLeaveRoom answer pg) = watched pg"
  "watched (executeDeleteRoom p q r set_answer answer pg) = watched pg"
  "watched (executeRemoveMember rotated removed_answer pg) = watched pg"
  "watched (handleSaveSettings settings_answer pg) = watched pg" "watched (snd (openRoomAttachment S tab download payload pg)) = watched pg"
  "watched (snd (room_schedule sid now target pg)) = watched pg" "watched (handleInputChange value pg) = watched pg"
  "watched (unthrottle pg) = watched pg" "watched (on_join_lock_changed r' b pg) = watched pg" "watched (on_room_closed r' pg) = watched pg"
  "watched (on_member_removed r' pg) = watched pg" "watched (on_room_updated r' name cap policy pg) = watched pg"
  "watched (on_join_request r' jq pg) = watched pg"
  by (simp_all add: handleToggleJoinLock_def handleAddMember_def handleReject_def executeLeaveRoom_def executeDeleteRoom_def
      delete_with_def executeRemoveMember_def handleSaveSettings_def openRoomAttachment_def room_schedule_def handleInputChange_def
      unthrottle_def on_join_lock_changed_def on_room_closed_def on_member_removed_def on_room_updated_def on_join_request_def
      for_room_def Let_def split: sum.split option.split prod.split confirm.split)

lemma chat_ids_simps [simp]:
  "chat_ids [] = []" "chat_ids (ms @ ns) = chat_ids ms @ chat_ids ns" "chat_ids [m] = (if dm_isSystem m then [] else [dm_clientMessageId m])"
  by (simp_all add: chat_ids_def)

lemma chat_ids_subset: "set (chat_ids ms) \<subseteq> dm_clientMessageId ` set ms"
  by (auto simp: chat_ids_def)

lemma redecrypt_ids [simp]:
  "chat_ids (map (redecrypt S key r) ms) = chat_ids ms"
  by (induction ms) (simp_all add: chat_ids_def redecrypt_def with_plaintext_def)

lemma ok_sync:
  assumes "syncRoomKey S env rn ov pg = (k, pg')" "room_page_ok pg" "distinct (chat_ids (rn_messages rn))"
  shows "room_page_ok pg'"
  using assms(2,3) sync_aside(2) [OF assms(1)] aside_fields [OF sync_aside(1) [OF assms(1)]]
  by (cases k) (simp_all add: room_page_ok_def)

lemma ok_synced:
  "room_page_ok pg \<Longrightarrow> distinct (chat_ids (rn_messages rn)) \<Longrightarrow> room_page_ok (snd (syncRoomKey S env rn ov pg))"
  using ok_sync by (metis prod.collapse)

lemma ok_bound: "room_page_ok pg \<Longrightarrow> distinct (chat_ids (rn_messages (rmp_bound pg)))"
  and ok_render: "room_page_ok pg \<Longrightarrow> distinct (chat_ids (rn_messages (render_of pg)))"
  by (simp_all add: room_page_ok_def render_of_def)

lemma ok_append:
  assumes "room_page_ok pg" "dm_isSystem m \<or> dm_clientMessageId m \<notin> shown_ids pg"
  shows "room_page_ok (pg\<lparr>rmp_messages := rmp_messages pg @ [m]\<rparr>)"
  using assms chat_ids_subset [of "rmp_messages pg"] by (auto simp: room_page_ok_def)

lemma ok_same: "room_page_ok pg \<Longrightarrow> watched pg' = watched pg \<Longrightarrow> room_page_ok pg'"
  using ok_watched by blast

lemma ok_log [simp]: "room_page_ok (log_room q pg) = room_page_ok pg" "room_page_ok (fetchMembers n pg) = room_page_ok pg"
  by (simp_all add: ok_watched [of "log_room q pg" pg] ok_watched [of "fetchMembers n pg" pg])

lemma ok_forget: "room_page_ok pg \<Longrightarrow> room_page_ok (forget_typing from pg)"
proof -
  assume ok: "room_page_ok pg"
  have f: "map fst (filter (\<lambda>p. fst p \<noteq> from) xs) = filter (\<lambda>x. x \<noteq> from) (map fst xs)" for xs :: "(ident \<times> 'x) list"
    by (induction xs) simp_all
  show ?thesis using ok by (simp add: room_page_ok_def forget_typing_def f)
qed

lemma map_put_keys: "map fst (map_put k v m) = (if k \<in> fst ` set m then map fst m else map fst m @ [k])"
  by (auto simp: map_put_def)

lemma ok_typing: "room_page_ok pg \<Longrightarrow> room_page_ok (on_room_typing r now from username b pg)"
proof -
  assume ok: "room_page_ok pg"
  then have "fst ` set (rmp_typingUsers pg) = fst ` set (rmp_typingTimers pg)"
    by (metis list.set_map room_page_ok_def)
  with ok have "room_page_ok (pg\<lparr>rmp_typingTimers := map_put from (now + 5000) (rmp_typingTimers pg),
      rmp_typingUsers := map_put from username (rmp_typingUsers pg)\<rparr>)"
    by (simp add: room_page_ok_def map_put_keys)
  with ok_forget [OF ok] ok show ?thesis by (simp add: on_room_typing_def for_room_def)
qed

lemma ok_member_moved:
  assumes ok: "room_page_ok pg"
  shows "room_page_ok (member_moved word kind verb mark now at user n pg)"
proof -
  have m: "rmp_messages (mapRoom f q) = rmp_messages q" "watched (mapRoom f q) = watched q" for f q
    by (simp_all add: mapRoom_def watched_def)
  have a: "room_page_ok (q\<lparr>rmp_messages := rmp_messages q @ [system_line kind mark now at line user]\<rparr>)" if "room_page_ok q" for q line
    by (rule ok_append [OF that]) (simp add: system_line_def)
  have q: "room_page_ok (mapRoom f (pg\<lparr>rmp_recentEvents := ev\<rparr>))" for f ev by (rule ok_same [OF ok]) simp
  show ?thesis using ok a [OF q]
    by (auto simp: member_moved_def Let_def intro: ok_same q)
qed

lemma post_sealed_ok:
  assumes ok: "room_page_ok pg" and fresh: "ra_clientMessageId a \<notin> shown_ids pg"
    and r: "post_sealed S rn a key room text kind att pg = (e, pg')"
  shows "room_page_ok pg' \<and> shown_ids pg' \<subseteq> insert (ra_clientMessageId a) (shown_ids pg)"
proof -
  have "room_page_ok (pg\<lparr>rmp_messages := rmp_messages pg @ [optimistic rn a text kind att]\<rparr>)"
    using fresh by (intro ok_append [OF ok]) (simp add: optimistic_def)
  then show ?thesis using r ok
    by (auto simp: post_sealed_def optimistic_def split: sum.splits prod.splits intro: ok_same)
qed

lemma sendDirect_ok:
  assumes "room_page_ok pg" "ra_clientMessageId a \<notin> shown_ids pg" "sendDirectRoomText S rn a t pg = (e, pg')"
  shows "room_page_ok pg' \<and> shown_ids pg' \<subseteq> insert (ra_clientMessageId a) (shown_ids pg)"
  using assms post_sealed_ok [OF assms(1,2)]
  by (auto simp: sendDirectRoomText_def Let_def split: option.splits if_splits)

lemma sweep_ok:
  assumes "room_page_ok pg" "distinct (map (\<lambda>k. ra_clientMessageId (env k)) [k..<k + length items])"
    "\<And>j. k \<le> j \<Longrightarrow> j < k + length items \<Longrightarrow> ra_clientMessageId (env j) \<notin> shown_ids pg"
  shows "room_page_ok (room_sweep_items S rn u env k items pg)"
  using assms
proof (induction items arbitrary: k pg)
  case (Cons item items)
  define pg1 where "pg1 = pg\<lparr>rmp_store := removeScheduledMessage u (sm_id item) (rmp_store pg)\<rparr>"
  have p1: "room_page_ok pg1" "shown_ids pg1 = shown_ids pg"
    using Cons.prems(1) by (auto simp: pg1_def intro: ok_same)
  have u: "[k..<k + length (item # items)] = k # [Suc k..<Suc k + length items]"
    by (simp add: upt_conv_Cons del: upt_Suc)
  have d: "distinct (map (\<lambda>k. ra_clientMessageId (env k)) [Suc k..<Suc k + length items])"
    "ra_clientMessageId (env k) \<notin> set (map (\<lambda>k. ra_clientMessageId (env k)) [Suc k..<Suc k + length items])"
    using Cons.prems(2) unfolding u by (simp_all del: upt_Suc)
  have e: "ra_clientMessageId (env j) \<noteq> ra_clientMessageId (env k)" if "Suc k \<le> j" "j < Suc k + length items" for j
  proof
    assume "ra_clientMessageId (env j) = ra_clientMessageId (env k)"
    then have "ra_clientMessageId (env k) \<in> set (map (\<lambda>k. ra_clientMessageId (env k)) [Suc k..<Suc k + length items])"
      using that unfolding set_map set_upt by (metis atLeastLessThan_iff image_eqI)
    with d(2) show False by blast
  qed
  show ?case
  proof (cases "sm_text item = ''''")
    case True
    then show ?thesis using Cons.IH [OF p1(1) d(1)] Cons.prems(3) p1(2) by (simp add: pg1_def [symmetric])
  next
    case False
    obtain e pg2 where s: "sendDirectRoomText S rn (env k) (sm_text item) pg1 = (e, pg2)" by fastforce
    have f: "ra_clientMessageId (env k) \<notin> shown_ids pg1" using Cons.prems(3) [of k] p1(2) by simp
    note ok = sendDirect_ok [OF p1(1) f s]
    have "ra_clientMessageId (env j) \<notin> shown_ids pg2" if "Suc k \<le> j" "j < Suc k + length items" for j
    proof -
      have "ra_clientMessageId (env j) \<notin> insert (ra_clientMessageId (env k)) (shown_ids pg1)"
        using Cons.prems(3) [of j] e [OF that] that p1(2) by simp
      with ok show ?thesis by blast
    qed
    then have "room_page_ok (room_sweep_items S rn u env (Suc k) items pg2)"
      using ok by (intro Cons.IH d(1)) simp_all
    then show ?thesis using False s ok by (simp add: pg1_def [symmetric] split: option.split)
  qed
qed simp

lemma arrival_ok:
  assumes ok: "room_page_ok pg"
  shows "room_page_ok (on_room_message S envs r w pg)"
proof (cases "r = rmp_roomId pg")
  case True
  obtain m pg1 where arr: "read_arrival S envs w pg = (m, pg1)" by fastforce
  have sys: "\<not> dm_isSystem (shown_wire S k q w)" "dm_clientMessageId (shown_wire S k q w) = rmw_clientMessageId w" for k q
    by (simp_all add: shown_wire_def with_plaintext_def Let_def)
  have ok1: "room_page_ok pg1 \<and> dm_clientMessageId m = rmw_clientMessageId w"
  proof -
    obtain key pg0 where k: "(case rmp_roomKey pg of Some k \<Rightarrow> (Some k, pg) | None \<Rightarrow> syncRoomKey S (envs 0) (rmp_bound pg) None pg) = (key, pg0)"
      by fastforce
    then have ok0: "room_page_ok pg0" using ok by (auto split: option.splits intro: ok_sync ok_bound)
    obtain k2 pg2 where k2: "syncRoomKey S (envs 1) (rmp_bound pg0) None pg0 = (k2, pg2)" by fastforce
    have "room_page_ok pg2" by (rule ok_sync [OF k2 ok0 ok_bound [OF ok0]])
    then show ?thesis using arr ok0 by (auto simp: read_arrival_def k k2 [simplified] sys Let_def split: if_splits)
  qed
  define pg2 where "pg2 = (if \<exists>x \<in> set (rmp_messages pg1). dm_clientMessageId x = rmw_clientMessageId w then pg1
      else pg1\<lparr>rmp_messages := rmp_messages pg1 @ [m]\<rparr>)"
  have "room_page_ok pg2"
    using ok1 ok_append [of pg1 m] by (auto simp: pg2_def id_in_image)
  moreover have "on_room_message S envs r w pg = (case given (rmw_senderId w) of Some from \<Rightarrow> forget_typing from pg2 | None \<Rightarrow> pg2)"
    using True by (cases "given (rmw_senderId w)") (simp_all add: on_room_message_def for_room_def arr Let_def pg2_def)
  ultimately show ?thesis by (simp add: ok_forget split: option.split)
qed (simp add: on_room_message_def for_room_def ok)

lemma init_ok:
  assumes ok: "room_page_ok pg" and ms: "\<And>ms. ie_messages env = Inr ms \<Longrightarrow> distinct (map rmw_clientMessageId ms)"
  shows "room_page_ok (initRoom S env pg)"
proof (cases "ie_room env")
  case (Inr data)
  define pg1 where "pg1 = fill_edit data (pg\<lparr>rmp_loadError := None, rmp_room := Some data, rmp_joinLocked := rmv_joinLocked data,
     rmp_hasBurnPassword := (case ie_hasBurnPassword env of Inr b \<Rightarrow> b | Inl _ \<Rightarrow> rmp_hasBurnPassword pg)\<rparr>)"
  have ok1: "room_page_ok pg1" by (rule ok_same [OF ok]) (simp add: pg1_def)
  obtain k pg2 where k: "syncRoomKey S (ie_sync env) (rmp_bound pg) (Some data) pg1 = (k, pg2)" by fastforce
  have ok2: "room_page_ok pg2" by (rule ok_sync [OF k ok1 ok_bound [OF ok]])
  have "chat_ids (map (shown_wire S k r) ws) = map rmw_clientMessageId ws" for r ws
    by (induction ws) (simp_all add: chat_ids_def shown_wire_def with_plaintext_def Let_def)
  then have "room_page_ok (show_history S k (case ie_messages env of Inr ms \<Rightarrow> ms | Inl _ \<Rightarrow> []) pg2)"
    using ok2 ms by (simp add: room_page_ok_def show_history_def split: sum.split)
  then show ?thesis using Inr k by (auto simp: initRoom_def Let_def pg1_def [symmetric] intro: ok_same)
qed (auto simp: initRoom_def intro: ok_same [OF ok])

lemma accept_ok:
  assumes ok: "room_page_ok pg"
  shows "room_page_ok (handleAccept S sync generated iv answer rid public pg)"
proof -
  obtain key pg1 where k: "key_for_accept S sync generated pg = (key, pg1)" by fastforce
  obtain k1 q where s: "syncRoomKey S sync (render_of pg) None pg = (k1, q)" by fastforce
  have "room_page_ok q" by (rule ok_sync [OF s ok ok_render [OF ok]])
  then have ok1: "room_page_ok pg1"
    using k ok s by (auto simp: key_for_accept_def split: option.splits intro: ok_same)
  obtain sealed pg2 where w: "wrapped_key S iv key public pg1 = (sealed, pg2)" by fastforce
  then have "watched pg2 = watched pg1" by (auto simp: wrapped_key_def split: option.splits prod.splits)
  then show ?thesis using ok by (auto simp: handleAccept_def k w Let_def split: sum.split intro: ok_same [OF ok1])
qed

text \<open>
  C16. Whatever happens to an open room page, no message is shown twice, and the names
  shown as typing are exactly those a timer will take away.
\<close>

theorem room_page_invariant:
  assumes "(room_page_step S)\<^sup>*\<^sup>* pg pg'" "room_page_ok pg"
  shows "room_page_ok pg'"
  using assms
proof (induction rule: rtranclp_induct)
  case (step pg pg')
  then have ok: "room_page_ok pg" by blast
  from step(2) show ?case
  proof cases
    case (send a)
    obtain e q where s: "sendDirectRoomText S (render_of pg) a (js_trim (rmp_input pg)) (pg\<lparr>rmp_input := ''''\<rparr>) = (e, q)" by fastforce
    have "room_page_ok (pg\<lparr>rmp_input := ''''\<rparr>)" by (rule ok_same [OF ok]) simp
    from sendDirect_ok [OF this _ s] send(2) have "room_page_ok q" by simp
    then show ?thesis using send ok s by (auto simp: handleSendMessage_def Let_def split: option.split intro: ok_same)
  next
    case (sweep attempts n now rn)
    show ?thesis
    proof (cases "given (rn_userId rn)")
      case (Some u)
      have "length (getDueScheduledMessages now u (Some (rmp_roomId pg)) (rmp_store pg)) \<le> n" by (rule sweep(4))
      then have "distinct (map (\<lambda>k. ra_clientMessageId (attempts k))
          [0..<0 + length (getDueScheduledMessages now u (Some (rmp_roomId pg)) (rmp_store pg))])"
        using sweep(2) by (auto simp: distinct_map intro: inj_on_subset)
      moreover have "ra_clientMessageId (attempts j) \<notin> shown_ids pg"
        if "j < 0 + length (getDueScheduledMessages now u (Some (rmp_roomId pg)) (rmp_store pg))" for j
        using that sweep(4) [of u] by (intro sweep(3)) simp
      ultimately show ?thesis using Some ok sweep_ok [OF ok] by (auto simp: sweep(1) room_sweep_def)
    qed (simp add: sweep(1) room_sweep_def ok)
  next
    case (send_file a dek iv upload f caption once)
    show ?thesis using send_file(2) ok
      by (auto simp: send_file(1) sendRoomFile_def Let_def split: option.split sum.split prod.split
          intro: ok_same dest: post_sealed_ok [OF ok send_file(2)])
  qed (auto intro: ok_same [OF ok] init_ok [OF ok] arrival_ok [OF ok] ok_typing [OF ok] accept_ok [OF ok] ok_forget [OF ok]
      ok_member_moved [OF ok] ok_synced [OF ok] ok_bound [OF ok] ok_render [OF ok] simp: governing_watched on_member_joined_def on_member_left_def for_room_def typing_timer_def ok
      on_key_delivered_def on_join_accepted_def retry_key_def)
qed

section \<open>What the owner asks for\<close>

text \<open>
  The settings of a room are sent only when they can be accepted: the owner's form
  reaches the server exactly when the capacity reads as a number from 2 to 2000, with
  the trimmed name; otherwise nothing is sent and the error names the bounds.
\<close>

theorem settings_sent_in_bounds:
  assumes edit: "rmp_edit pg = (name, cap, policy)" and after: "pg' = handleSaveSettings answer pg"
  shows "(case js_parseInt cap of
      Some n \<Rightarrow> if 2 \<le> n \<and> n \<le> 2000
        then rmp_sent pg' = rmp_sent pg @ [Patch_Settings (js_trim name) n policy] \<and>
          (case answer of
             Inl f \<Rightarrow> rmp_room pg' = rmp_room pg \<and> rmp_actionError pg' = Some (error_text f ''Could not update room settings.'')
           | Inr (nm, mx, pol) \<Rightarrow> rmp_actionError pg' = None \<and> rmp_room pg' =
               map_option (\<lambda>r. r\<lparr>rmv_name := nm, rmv_maxMembers := mx, rmv_joinPolicy := pol\<rparr>) (rmp_room pg))
        else rmp_sent pg' = rmp_sent pg \<and> rmp_room pg' = rmp_room pg \<and>
          rmp_actionError pg' = Some ''Maximum members must be between 2 and 2,000.''
    | None \<Rightarrow> rmp_sent pg' = rmp_sent pg \<and> rmp_actionError pg' = Some ''Maximum members must be between 2 and 2,000.'')"
  using edit by (auto simp: after handleSaveSettings_def Let_def mapRoom_def log_room_def split: option.split sum.split)

section \<open>Where the room falls short\<close>

text \<open>
  The handlers of the socket see the messages of the first render, which had none: a key
  that arrives empties the list instead of decrypting it.
\<close>

lemma key_sync_blanks_history:
  assumes "rn_messages (rmp_bound pg) = []" "syncRoomKey S env (rmp_bound pg) None pg = (Some k, pg')"
  shows "rmp_messages (on_key_delivered S env (rmp_roomId pg) pg) = []"
  using sync_aside(2) [OF assms(2)] assms by (simp add: on_key_delivered_def for_room_def)

text \<open>What arrives between the fetching of the history and its decryption is overwritten by it.\<close>

lemma arrival_during_load_is_lost:
  "rmp_messages (show_history S key msgs (on_room_message S env (rmp_roomId pg) w pg)) = rmp_messages (show_history S key msgs pg)"
proof -
  have "rmp_roomId (on_room_message S env (rmp_roomId pg) w pg) = rmp_roomId pg"
  proof -
    obtain m pg1 where r: "read_arrival S env w pg = (m, pg1)" by fastforce
    have s: "rmp_roomId (snd (syncRoomKey S e rn ov q)) = rmp_roomId q" for e rn ov q
      using aside_fields(1) [OF sync_aside(1)] by (metis prod.collapse)
    have "rmp_roomId pg1 = rmp_roomId pg"
      using r s [of "env 0"] s [of "env 1"]
      by (auto simp: read_arrival_def Let_def split: option.splits prod.splits if_splits) (metis snd_conv)+
    then show ?thesis by (simp add: on_room_message_def for_room_def r Let_def split: option.split)
  qed
  then show ?thesis by (simp add: show_history_def)
qed

text \<open>
  Removing a member draws a key for the new epoch that stays on this device: nothing
  but the removal is sent, and a page that looks for the key of the new epoch finds
  the published key of the old one.
\<close>

lemma rotated_key_is_not_shared:
  assumes "rmp_confirm pg = Some (Confirm_Remove target)"
  shows "rmp_roomKey (executeRemoveMember rotated (Inr n) pg) = Some rotated"
    "rmp_sent (executeRemoveMember rotated (Inr n) pg) = rmp_sent pg @ [Delete_Member target, Get_Members (rmp_memberPage pg)]"
  using assms by (simp_all add: executeRemoveMember_def Let_def fetchMembers_def mapRoom_def log_room_def)

lemma old_key_for_new_epoch:
  assumes "rn_userId rn = Some u" "u \<noteq> ''''" "fst (stored_key rn (room\<lparr>rmv_keyEpoch := n\<rparr>) pg) = None"
    and "rmv_code room = Some code" "code \<noteq> ''''" "rmv_openKeyCiphertext room = Some ct" "rmv_openKeyNonce room = Some nonce"
      "ct \<noteq> ''''" "nonce \<noteq> ''''" "decryptOpenRoomKey S ct nonce code = Inr old" "old \<noteq> []"
  shows "\<exists>pg'. syncRoomKey S env rn (Some (room\<lparr>rmv_keyEpoch := n\<rparr>)) pg = (Some old, pg') \<and>
    fst (loadRoomKey (rmp_roomId pg) n (Some u) (rmp_store pg')) = Some old"
  using sync_by_code [OF assms(1-3), of code ct nonce] assms(4-) by fastforce

text \<open>
  Then what is sealed with one key is not read with the other: neither what the owner
  writes next by the members, nor the earlier history by the owner, since a page tries one key on
  all messages whatever their epoch.
\<close>

lemma other_key_fails:
  assumes "carries S key roomId text w" "\<And>iv aad aad' p. aes_open S other iv aad (aes_seal S key iv aad' p) = None"
  shows "dm_decryptFailed (shown_wire S (Some other) roomId w)"
proof -
  obtain iv where iv: "bytesToBase64 (aes_seal S key iv (key2 '''' roomId (rmw_clientMessageId w)) text) = rmw_ciphertext w"
    "bytesToBase64 iv = rmw_iv w"
    using assms(1) by (auto simp: carries_def encryptRoomMessage_def await_Inr aes_key_def split: if_splits)
  have "\<exists>e. decryptRoomMessage S other (rmw_ciphertext w) (rmw_iv w) aad = Inl e" for aad
    using assms(2) by (auto simp: decryptRoomMessage_def iv [symmetric] aes_key_def)
  then have "\<exists>e. first_opening S other (rmw_ciphertext w, rmw_iv w) cs = Inl e" for cs
    by (induction cs) (auto split: sum.split, metis sum.distinct(1))
  then obtain e where "decryptRoomMessageWithFallback S other (rmw_ciphertext w, rmw_iv w) roomId (rmw_clientMessageId w)
      (rmw_sequenceNumber w) = Inl e"
    unfolding decryptRoomMessageWithFallback_def by blast
  then show ?thesis by (simp add: shown_wire_def Let_def open_message_def with_plaintext_def)
qed

text \<open>A message read after a retry shows the raw text of its attachment, key included.\<close>

lemma retry_shows_raw_attachment:
  assumes "dm_decryptFailed m" "\<not> dm_isSystem m" "dm_attachment m = None" "open_message S key r m = Some t"
  shows "dm_plaintext (redecrypt S key r m) = Some t \<and> dm_attachment (redecrypt S key r m) = None"
  using assms by (simp add: redecrypt_def with_plaintext_def)

text \<open>A message the server refuses stays in the list as if it had been sent; one that was scheduled is gone.\<close>

lemma failed_post_stays:
  assumes "sendDirectRoomText S rn a t pg = (Some (Some e), pg')" "ra_answer a = Some (Some e)"
  shows "rmp_messages pg' = rmp_messages pg @ [optimistic rn a (js_trim t) ''TEXT'' None]"
  using assms by (auto simp: sendDirectRoomText_def post_sealed_def Let_def split: option.splits if_splits sum.splits prod.splits)

lemma failed_schedule_is_lost:
  assumes "u \<noteq> ''''" "sm_text item \<noteq> ''''"
    and "sendDirectRoomText S rn (env k) (sm_text item)
      (pg\<lparr>rmp_store := removeScheduledMessage u (sm_id item) (rmp_store pg)\<rparr>) = (Some f, pg')"
  shows "room_sweep_items S rn u env k (item # items) pg = pg'"
    "item \<notin> set (getScheduledMessages u None (rmp_store pg'))"
proof -
  show "room_sweep_items S rn u env k (item # items) pg = pg'" using assms by simp
  have "rmp_store pg' = removeScheduledMessage u (sm_id item) (rmp_store pg)"
    using assms(3)
    by (auto simp: sendDirectRoomText_def post_sealed_def Let_def split: option.splits if_splits sum.splits prod.splits)
  then show "item \<notin> set (getScheduledMessages u None (rmp_store pg'))"
    using assms(1) by (simp add: removeScheduledMessage_def getScheduledMessages_def given_def)
qed

text \<open>The burn password is set as typed and asked for trimmed.\<close>

lemma burn_password_is_trimmed_later:
  assumes "\<not> rmp_hasBurnPassword pg" "4 \<le> length p" "p \<noteq> js_trim p"
  shows "rmp_sent (executeDeleteRoom x p p (Inr ()) answer pg) = rmp_sent pg @ [Set_Burn_Password p, Delete_Room (Some p)]"
    "rmp_hasBurnPassword pg2 \<Longrightarrow>
       rmp_sent (executeDeleteRoom p y z (Inr ()) answer pg2) = rmp_sent pg2 @ [Delete_Room (given (Some (js_trim p)))]"
proof -
  have "p \<noteq> ''''" using assms(2) by auto
  then show "rmp_sent (executeDeleteRoom x p p (Inr ()) answer pg) = rmp_sent pg @ [Set_Burn_Password p, Delete_Room (Some p)]"
    using assms by (simp add: executeDeleteRoom_def delete_with_def Let_def given_def log_room_def split: sum.split)
  show "rmp_hasBurnPassword pg2 \<Longrightarrow>
       rmp_sent (executeDeleteRoom p y z (Inr ()) answer pg2) = rmp_sent pg2 @ [Delete_Room (given (Some (js_trim p)))]"
    by (simp add: executeDeleteRoom_def delete_with_def Let_def log_room_def split: sum.split)
qed

section \<open>Examples\<close>

definition sample_room :: "string \<Rightarrow> room_details" where
  "sample_room role =
     \<lparr>rmv_name = ''r'', rmv_maxMembers = 50, rmv_memberCount = 2, rmv_joinPolicy = ''OPEN'', rmv_keyEpoch = 1, rmv_role = role,
      rmv_code = None, rmv_joinLocked = False, rmv_openKeyCiphertext = None, rmv_openKeyNonce = None\<rparr>"

definition blank_render :: render where
  "blank_render = \<lparr>rn_room = None, rn_userId = Some ''u'', rn_roomKey = None, rn_messages = []\<rparr>"

definition blank_room_page :: "client \<Rightarrow> room_page" where
  "blank_room_page c =
     \<lparr>rmp_store = c, rmp_roomId = ''r1'', rmp_userId = Some ''u'', rmp_room = None, rmp_roomKey = None, rmp_messages = [],
      rmp_bound = blank_render, rmp_loadError = None, rmp_keySyncError = None, rmp_pendingRequests = [], rmp_processing = None,
      rmp_acceptingStatus = None, rmp_actionError = None, rmp_banner = None, rmp_joinLocked = False, rmp_hasBurnPassword = False,
      rmp_confirm = None, rmp_deletePasswordError = None, rmp_burnSetupError = None, rmp_typingUsers = [], rmp_typingTimers = [],
      rmp_recentEvents = (\<lambda>_. None), rmp_infoOpen = False, rmp_memberPage = 1, rmp_input = '''', rmp_throttled = False,
      rmp_sending = False, rmp_edit = (''r'', ''50'', ''OPEN''), rmp_pushed = None, rmp_sent = []\<rparr>"

definition sample_sync :: sync_env where
  "sample_sync = \<lparr>sye_room = Inl None, sye_package = Inr None, sye_fresh = ''k'', sye_iv = ''i'', sye_iv2 = ''j''\<rparr>"

lemma no_stored_key [simp]:
  "stored_key blank_render (sample_room role) (blank_room_page empty_client) = (None, blank_room_page empty_client)"
  "stored_key blank_render (sample_room role\<lparr>rmv_code := c, rmv_openKeyCiphertext := x, rmv_openKeyNonce := y\<rparr>)
     (blank_room_page empty_client) = (None, blank_room_page empty_client)"
  by (simp_all add: stored_key_def loadRoomKey_def read_migrating_def blank_render_def sample_room_def blank_room_page_def
      empty_client_def idbGet_def)

definition with_code :: "string \<Rightarrow> bytes option \<Rightarrow> room_details" where
  "with_code role key =
     sample_room role\<lparr>rmv_code := Some ''c'',
       rmv_openKeyCiphertext := map_option (\<lambda>k. fst (encryptOpenRoomKey plain_subtle ''i'' k ''c'')) key,
       rmv_openKeyNonce := map_option (\<lambda>k. snd (encryptOpenRoomKey plain_subtle ''i'' k ''c'')) key\<rparr>"

lemma open_room_key_agreed_witness:
  "fst (syncRoomKey plain_subtle sample_sync blank_render (Some (with_code ''MEMBER'' (Some ''k''))) (blank_room_page empty_client)) = Some ''k''"
proof -
  let ?pg = "blank_room_page empty_client" and ?e = "encryptOpenRoomKey plain_subtle ''i'' ''k'' ''c''"
  obtain k pg' where o: "syncRoomKey plain_subtle sample_sync blank_render (Some (with_code ''OWNER'' None)) ?pg = (k, pg')"
    by fastforce
  have e: "?pg\<lparr>rmp_keySyncError := None\<rparr> = ?pg" "rmp_sent ?pg = []" by (simp_all add: blank_room_page_def)
  have r: "rmv_role (with_code role key) = role" "rmv_code (with_code role key) = Some ''c''"
    "rmv_openKeyCiphertext (with_code role None) = None" "rmv_openKeyCiphertext (with_code role (Some ''k'')) = Some (fst ?e)"
    "rmv_openKeyNonce (with_code role (Some ''k'')) = Some (snd ?e)" for role key
    by (simp_all add: with_code_def sample_room_def)
  have s: "stored_key blank_render (with_code role key) ?pg = (None, ?pg)" for role key
    by (simp add: with_code_def)
  have y: "sye_package sample_sync = Inr None" "sye_fresh sample_sync = ''k''" "sye_iv sample_sync = ''i''" "rn_userId blank_render = Some ''u''"
    by (simp_all add: sample_sync_def blank_render_def)
  have p: "Patch_Open_Key (fst ?e) (snd ?e) \<in> set (drop (length (rmp_sent ?pg)) (rmp_sent pg'))"
    using o by (auto simp: syncRoomKey_def or_else_def e s r y key_from_code_def key_from_package_def first_key_def publish_missing_def
        publish_key_def decryptMessagesWithKey_def keep_key_def given_def case_prod_unfold Let_def)
  have ne: "fst ?e \<noteq> ''''" "snd ?e \<noteq> ''''" by (simp_all add: encryptOpenRoomKey_def plain_subtle_def deriveOpenRoomCodeKey_def)
  have "k = Some (sye_fresh sample_sync) \<and> length (rmp_sent pg') = length (rmp_sent ?pg) + 2 \<and>
    (\<exists>m'. syncRoomKey plain_subtle sample_sync blank_render (Some (with_code ''MEMBER'' (Some ''k''))) ?pg = (k, m') \<and> rmp_roomKey m' = k \<and>
       fst (loadRoomKey (rmp_roomId ?pg) (rmv_keyEpoch (with_code ''MEMBER'' (Some ''k''))) (Some ''u'') (rmp_store m')) = k)"
    by (rule open_room_key_agreed [OF plain_subtle_laws(3) r(1,2) _ r(3) _ _ _ o _ _ _ p r(4,5) ne r(2) _ refl])
       (simp_all add: s y)
  then show ?thesis by (auto simp: y)
qed

lemma settings_sent_in_bounds_witness:
  "rmp_sent (handleSaveSettings (Inl None) (blank_room_page empty_client)) = [Patch_Settings ''r'' 50 ''OPEN'']"
proof -
  have p: "js_parseInt ''50'' = Some 50" "js_trim ''r'' = ''r''" by code_simp+
  show ?thesis using settings_sent_in_bounds [of "blank_room_page empty_client" "''r''" "''50''" "''OPEN''" _ "Inl None", OF _ refl]
    by (simp add: p blank_room_page_def)
qed

lemma room_page_invariant_witness:
  "room_page_ok (typing_timer 6000 ''v'' (on_room_typing ''r1'' 0 ''v'' ''vera'' True (blank_room_page empty_client)))"
proof -
  have "(room_page_step plain_subtle)\<^sup>*\<^sup>* (blank_room_page empty_client)
      (typing_timer 6000 ''v'' (on_room_typing ''r1'' 0 ''v'' ''vera'' True (blank_room_page empty_client)))"
    by (meson converse_rtranclp_into_rtranclp r_into_rtranclp room_page_step.typing room_page_step.typing_ends)
  then show ?thesis
    by (rule room_page_invariant) (simp add: room_page_ok_def blank_room_page_def blank_render_def)
qed

definition sample_wire :: room_wire where
  "sample_wire =
     \<lparr>rmw_id = ''i'', rmw_senderId = Some ''v'', rmw_senderUsername = Some ''vera'', rmw_sequenceNumber = 1, rmw_clientMessageId = ''c'',
      rmw_ciphertext = bytesToBase64 (zeros 16 @ ''n'' @ key2 '''' ''r1'' ''c'' @ ''hi''), rmw_iv = bytesToBase64 ''n'',
      rmw_messageType = ''TEXT'', rmw_sentAt = ''t''\<rparr>"

lemma room_posts_are_read_witness:
  "map dm_plaintext (rmp_messages (fold (\<lambda>w. on_room_message plain_subtle (\<lambda>_. sample_sync) ''r1'' w) [sample_wire, sample_wire]
     (blank_room_page empty_client\<lparr>rmp_roomKey := Some (zeros 16)\<rparr>))) = [Some ''hi'']"
proof -
  let ?pg = "blank_room_page empty_client\<lparr>rmp_roomKey := Some (zeros 16)\<rparr>" and ?ws = "[sample_wire, sample_wire]"
  have r: "rmp_roomId ?pg = ''r1''" "rmp_messages ?pg = []" "rmp_roomKey ?pg = Some (zeros 16)" by (simp_all add: blank_room_page_def)
  have c: "carries plain_subtle (zeros 16) (rmp_roomId ?pg) ''hi'' sample_wire"
    by (auto simp: carries_def r encryptRoomMessage_def aes_key_def zeros_def sample_wire_def plain_subtle_def
        blank_room_page_def intro!: exI [of _ "''n''"])
  have "\<exists>new. rmp_messages (fold (\<lambda>w. on_room_message plain_subtle (\<lambda>_. sample_sync) (rmp_roomId ?pg) w) ?ws ?pg) = rmp_messages ?pg @ new \<and>
    map (\<lambda>m. (dm_clientMessageId m, dm_plaintext m, dm_decryptFailed m, dm_attachment m)) new =
      map (\<lambda>w. (rmw_clientMessageId w, Some ''hi'', False, room_attachment (Some ''hi''))) (first_arrivals (shown_ids ?pg) ?ws) \<and>
    rmp_roomKey (fold (\<lambda>w. on_room_message plain_subtle (\<lambda>_. sample_sync) (rmp_roomId ?pg) w) ?ws ?pg) = Some (zeros 16)"
    using c by (intro room_posts_are_read [OF plain_subtle_laws(3) r(3) _ refl]) auto
  then show ?thesis unfolding r by auto
qed

definition sample_keys :: "bytes \<Rightarrow> device_identity" where
  "sample_keys x = generateDeviceIdentity plain_subtle x x x [x]"

definition identity_client :: "bytes \<Rightarrow> client" where
  "identity_client x = idbSet (key1 ''crypto:identity:'' ''u'') (V_Identity (sample_keys x)) empty_client"


end
