(* ===== verification/RoomLink.thy ===== *)
theory RoomLink
  imports Rooms RoomClient
begin

text \<open>
  The room page in front of the server: what one member writes goes through
  \<open>RoomsService.sendMessage\<close> and its push, and is read on the page of another.
  \<open>fmt\<close> is how a time is written in JSON.
\<close>

definition message_type_of :: "string \<Rightarrow> message_type" where
  "message_type_of s = (if s = ''IMAGE'' then Image_Msg else if s = ''FILE'' then File_Msg else Text_Msg)"

definition message_type_text :: "message_type \<Rightarrow> string" where
  "message_type_text t =
     (case t of Text_Msg \<Rightarrow> ''TEXT'' | Image_Msg \<Rightarrow> ''IMAGE'' | File_Msg \<Rightarrow> ''FILE'' | _ \<Rightarrow> ''SYSTEM'')"

definition dto_of_post :: "room_post \<Rightarrow> room_send_dto" where
  "dto_of_post p =
     \<lparr>rd_clientMessageId = rpo_clientMessageId p, rd_ciphertext = rpo_ciphertext p, rd_iv = rpo_iv p,
      rd_messageType = Some (message_type_of (rpo_messageType p)), rd_replyToMessageId = None,
      rd_keyEpoch = Some (int (rpo_keyEpoch p))\<rparr>"

definition wire_of_event :: "(instant \<Rightarrow> string) \<Rightarrow> push_event \<Rightarrow> room_wire option" where
  "wire_of_event fmt e =
     (case e of
        Room_Message mid roomId sender n cid ct iv kind epoch reply sentAt \<Rightarrow>
          Some \<lparr>rmw_id = mid, rmw_senderId = map_option fst sender, rmw_senderUsername = map_option (fst \<circ> snd) sender,
                rmw_sequenceNumber = n, rmw_clientMessageId = cid, rmw_ciphertext = ct, rmw_iv = iv,
                rmw_messageType = message_type_text kind, rmw_sentAt = fmt sentAt\<rparr>
      | _ \<Rightarrow> None)"

definition wire_of_view :: "(instant \<Rightarrow> string) \<Rightarrow> room_message_view \<Rightarrow> room_wire" where
  "wire_of_view fmt v =
     \<lparr>rmw_id = rw_id v, rmw_senderId = map_option fst (rw_sender v), rmw_senderUsername = map_option (fst \<circ> snd) (rw_sender v),
      rmw_sequenceNumber = rw_sequenceNumber v, rmw_clientMessageId = rw_clientMessageId v, rmw_ciphertext = rw_ciphertext v,
      rmw_iv = rw_iv v, rmw_messageType = message_type_text (rw_messageType v), rmw_sentAt = fmt (rw_sentAt v)\<rparr>"


text \<open>The form of the owner asks only for capacities the server takes.\<close>

lemma settings_fit_server:
  assumes "Patch_Settings name n policy \<in> set (drop (length (rmp_sent pg)) (rmp_sent (handleSaveSettings answer pg)))"
  shows "validateMaxMembers (Js_Integer n) = Inr n"
  using assms
  by (auto simp: handleSaveSettings_def Let_def mapRoom_def log_room_def validateMaxMembers_def
      split: prod.splits option.splits if_splits sum.splits)

definition room_tab :: room_page where
  "room_tab = blank_room_page empty_client\<lparr>rmp_roomId := ''r'', rmp_roomKey := Some (zeros 16), rmp_room := Some (sample_room ''MEMBER'')\<rparr>"

definition room_try :: room_attempt where
  "room_try = \<lparr>ra_clientMessageId = ''c'', ra_iv = ''n'', ra_sentAt = ''t'', ra_answer = None\<rparr>"


end
