(* ===== verification/ChatActions.thy ===== *)
theory ChatActions
  imports RoomClient
begin

text \<open>
  The dialogs of the conversation page (\<open>app/chat/[conversationId]/page.tsx\<close>): the chat
  lock in front of the conversation, locking, hiding, blocking, burning, the timer of a
  temporary chat, photos to be viewed once; and \<open>lib/chatlock/chatLockState.ts\<close> with
  \<open>lib/pairing/temporaryChat.ts\<close>. The server's answers about feature passwords come from a
  \<open>feature_api\<close> with a state of its own; other answers are arguments. What is
  typed into a dialog is an argument of its handler.
\<close>

section \<open>Feature passwords\<close>

datatype feature_type = Burn_Password | Lock_Password | Hide_Password

record 'w feature_api =
  fa_verify :: "feature_type \<Rightarrow> string \<Rightarrow> 'w \<Rightarrow> (failure + bool) \<times> 'w"
  fa_set :: "feature_type \<Rightarrow> string \<Rightarrow> string option \<Rightarrow> 'w \<Rightarrow> (failure + bool) \<times> 'w"

definition verify_feature :: "'w feature_api \<Rightarrow> feature_type \<Rightarrow> string \<Rightarrow> 'w \<Rightarrow> bool \<times> 'w" where
  "verify_feature A f password w =
     (case fa_verify A f password w of (Inr v, w') \<Rightarrow> (v, w') | (Inl _, w') \<Rightarrow> (False, w'))"

text \<open>\<open>Inl\<close> is the error that comes with a failure, \<open>Inr\<close> success.\<close>

definition set_feature :: "'w feature_api \<Rightarrow> feature_type \<Rightarrow> string \<Rightarrow> string option \<Rightarrow> 'w \<Rightarrow> (string option + unit) \<times> 'w" where
  "set_feature A f newPassword currentPassword w =
     (case fa_set A f newPassword currentPassword w of
        (Inr True, w') \<Rightarrow> (Inr (), w')
      | (Inr False, w') \<Rightarrow> (Inl None, w')
      | (Inl e, w') \<Rightarrow> (Inl (Some (case given e of Some m \<Rightarrow> m | None \<Rightarrow> ''Failed to set password'')), w'))"

text \<open>The checks of every form that sets a password.\<close>

definition new_password_error :: "string \<Rightarrow> string \<Rightarrow> string option" where
  "new_password_error p confirm =
     (if length p < 4 then Some ''Password must be at least 4 characters.''
      else if p \<noteq> confirm then Some ''Passwords do not match.'' else None)"

definition or_text :: "string option \<Rightarrow> string \<Rightarrow> string" where
  "or_text e fallback = (case given e of Some m \<Rightarrow> m | None \<Rightarrow> fallback)"

section \<open>The page with its dialogs\<close>

record contact =
  ct_id :: ident
  ct_username :: string
  ct_displayName :: "string option"
  ct_isOnline :: "bool option"
  ct_lastSeenAt :: "string option"

datatype chat_confirm = Ask_Block | Ask_Burn | Ask_Remove_Lock | Ask_Lock_Setup | Ask_Hide_Setup | Ask_Hide

datatype chat_call =
    Call_Block | Call_Unblock
  | Call_Burn "string option"
  | Call_Disappearing "int option"
  | Call_Extend int
  | Call_Delete_Attachment ident
  | Call_Read ident
  | Emit_View_Once ident

record chat_view =
  cw_page :: page
  cw_isLocked :: bool
  cw_isHidden :: bool
  cw_isSessionUnlocked :: bool
  cw_lockCheckDone :: bool
  cw_hasBurnPassword :: bool
  cw_hasChatLockPassword :: bool
  cw_hasHideChatPassword :: bool
  cw_convoStatus :: string
  cw_expiresAt :: "instant option option"
  cw_isTemporary :: bool
  cw_countdown :: string
  cw_otherUser :: "contact option"
  cw_actionError :: "string option"
  cw_unlockError :: "string option"
  cw_lockSetupError :: "string option"
  cw_removeLockError :: "string option"
  cw_hideSetupError :: "string option"
  cw_hideConfirmError :: "string option"
  cw_burnError :: "string option"
  cw_burnSetupError :: "string option"
  cw_extendError :: "string option"
  cw_confirmAction :: "chat_confirm option"
  cw_showProfile :: bool
  cw_showDisappearing :: bool
  cw_showExtend :: bool
  cw_draft :: string
  cw_activeViewOnce :: "(ident \<times> json \<times> bytes) option"
  cw_pushed :: "string option"
  cw_calls :: "chat_call list"

definition on_store :: "(client \<Rightarrow> client) \<Rightarrow> chat_view \<Rightarrow> chat_view" where
  "on_store f v = v\<lparr>cw_page := (cw_page v)\<lparr>pg_store := f (pg_store (cw_page v))\<rparr>\<rparr>"

abbreviation cw_store :: "chat_view \<Rightarrow> client" where
  "cw_store v \<equiv> pg_store (cw_page v)"

abbreviation cw_id :: "chat_view \<Rightarrow> ident" where
  "cw_id v \<equiv> pg_conversationId (cw_page v)"

abbreviation cw_user :: "chat_view \<Rightarrow> ident option" where
  "cw_user v \<equiv> pg_userId (cw_page v)"

definition call_server :: "chat_call \<Rightarrow> chat_view \<Rightarrow> chat_view" where
  "call_server c v = v\<lparr>cw_calls := cw_calls v @ [c]\<rparr>"

section \<open>The lock in front of the conversation\<close>

text \<open>The event \<open>chat-lock-state-changed\<close>, which every change of the unlocked session sends.\<close>

definition on_lock_state_changed :: "ident \<Rightarrow> bool \<Rightarrow> chat_view \<Rightarrow> chat_view" where
  "on_lock_state_changed cid unlocked v = (if cid = cw_id v then v\<lparr>cw_isSessionUnlocked := unlocked\<rparr> else v)"

definition check_lock :: "(failure + bool \<times> bool \<times> bool) \<Rightarrow> chat_view \<Rightarrow> chat_view" where
  "check_lock settings v =
     (case isChatLocked (cw_id v) (cw_user v) (cw_store v) of
        (locked, c) \<Rightarrow>
          let v1 = on_store (\<lambda>_. c) v;
              v2 = (case settings of
                      Inr (burn, lock, hide) \<Rightarrow>
                        v1\<lparr>cw_hasBurnPassword := burn, cw_hasChatLockPassword := lock, cw_hasHideChatPassword := hide\<rparr>
                    | Inl _ \<Rightarrow> v1)
          in v2\<lparr>cw_isLocked := locked, cw_isHidden := isChatHidden (cw_id v) (cw_user v) c,
                cw_isSessionUnlocked := isChatSessionUnlocked (cw_id v) c, cw_lockCheckDone := True\<rparr>)"

datatype chat_screen = Ask_Password | Set_Password | Conversation

definition chat_screen :: "chat_view \<Rightarrow> chat_screen" where
  "chat_screen v =
     (if cw_lockCheckDone v \<and> (cw_isLocked v \<or> cw_isHidden v) \<and> \<not> cw_isSessionUnlocked v
      then if (if cw_isHidden v \<and> \<not> cw_isLocked v then cw_hasHideChatPassword v else cw_hasChatLockPassword v)
           then Ask_Password else Set_Password
      else Conversation)"

definition guarding_feature :: "bool \<Rightarrow> feature_type" where
  "guarding_feature isLocked = (if isLocked then Lock_Password else Hide_Password)"

definition feature_label :: "bool \<Rightarrow> string" where
  "feature_label isLocked = (if isLocked then ''Chat Lock'' else ''Hide Chat'')"

text \<open>The password of the lock opens a chat, and the one of hidden chats a chat that is hidden as well.\<close>

definition opens_chat :: "'w feature_api \<Rightarrow> bool \<Rightarrow> bool \<Rightarrow> string \<Rightarrow> 'w \<Rightarrow> bool \<times> 'w" where
  "opens_chat A locked hidden password w =
     (case verify_feature A (guarding_feature locked) password w of
        (good, w1) \<Rightarrow>
          if \<not> good \<and> locked \<and> hidden then verify_feature A Hide_Password password w1 else (good, w1))"

definition unlock_session :: "chat_view \<Rightarrow> chat_view" where
  "unlock_session v =
     (on_lock_state_changed (cw_id v) True (on_store (setChatSessionUnlocked (cw_id v) True) v))\<lparr>cw_isSessionUnlocked := True\<rparr>"

definition handleUnlockConversation :: "'w feature_api \<Rightarrow> string \<Rightarrow> chat_view \<times> 'w \<Rightarrow> chat_view \<times> 'w" where
  "handleUnlockConversation A unlockPassword = (\<lambda>(v, w).
     if js_trim unlockPassword = '''' then (v, w)
     else case opens_chat A (cw_isLocked v) (cw_isHidden v) unlockPassword w of
            (good, w1) \<Rightarrow>
              let v1 = v\<lparr>cw_unlockError := None\<rparr>
              in (if good then unlock_session v1
                  else v1\<lparr>cw_unlockError := Some (''Incorrect password. Please enter your '' @ feature_label (cw_isLocked v) @ '' password.'')\<rparr>,
                  w1))"

definition handleSetupChatLockAndUnlock :: "'w feature_api \<Rightarrow> string \<Rightarrow> string \<Rightarrow> chat_view \<times> 'w \<Rightarrow> chat_view \<times> 'w" where
  "handleSetupChatLockAndUnlock A new confirm = (\<lambda>(v, w).
     case new_password_error new confirm of
       Some e \<Rightarrow> (v\<lparr>cw_lockSetupError := Some e\<rparr>, w)
     | None \<Rightarrow>
         let v1 = v\<lparr>cw_lockSetupError := None\<rparr>
         in case set_feature A (guarding_feature (cw_isLocked v)) new None w of
              (Inl e, w1) \<Rightarrow>
                (v1\<lparr>cw_lockSetupError := Some (or_text e (''Failed to save '' @ feature_label (cw_isLocked v) @ '' password.''))\<rparr>, w1)
            | (Inr _, w1) \<Rightarrow>
                (unlock_session (if cw_isLocked v then v1\<lparr>cw_hasChatLockPassword := True\<rparr> else v1\<lparr>cw_hasHideChatPassword := True\<rparr>),
                 w1))"

section \<open>Locking and hiding\<close>

definition lock_here :: "chat_view \<Rightarrow> chat_view" where
  "lock_here v =
     (on_lock_state_changed (cw_id v) False (on_store (lockChat (cw_id v) (cw_user v)) v))\<lparr>cw_isLocked := True\<rparr>"

definition lock_button_clicked :: "chat_view \<Rightarrow> chat_view" where
  "lock_button_clicked v =
     (if cw_isLocked v then v\<lparr>cw_removeLockError := None, cw_confirmAction := Some Ask_Remove_Lock\<rparr>
      else if \<not> cw_hasChatLockPassword v then v\<lparr>cw_lockSetupError := None, cw_confirmAction := Some Ask_Lock_Setup\<rparr>
      else (lock_here v)\<lparr>cw_showProfile := False\<rparr>)"

definition hide_button_clicked :: "chat_view \<Rightarrow> chat_view" where
  "hide_button_clicked v =
     (if cw_isHidden v then (on_store (unhideChat (cw_id v) (cw_user v)) v)\<lparr>cw_isHidden := False\<rparr>
      else if \<not> cw_hasHideChatPassword v then v\<lparr>cw_hideSetupError := None, cw_confirmAction := Some Ask_Hide_Setup\<rparr>
      else v\<lparr>cw_hideConfirmError := None, cw_confirmAction := Some Ask_Hide\<rparr>)"

definition handleConfirmRemoveLock :: "'w feature_api \<Rightarrow> string \<Rightarrow> chat_view \<times> 'w \<Rightarrow> chat_view \<times> 'w" where
  "handleConfirmRemoveLock A password = (\<lambda>(v, w).
     if js_trim password = '''' then (v\<lparr>cw_removeLockError := Some ''Please enter your Chat Lock password.''\<rparr>, w)
     else case verify_feature A Lock_Password password w of
            (False, w1) \<Rightarrow> (v\<lparr>cw_removeLockError := Some ''Incorrect Chat Lock password.''\<rparr>, w1)
          | (True, w1) \<Rightarrow>
              ((on_lock_state_changed (cw_id v) False
                 (on_store (unlockChatPermanently (cw_id v) (cw_user v)) (v\<lparr>cw_removeLockError := None\<rparr>)))
                 \<lparr>cw_isLocked := False, cw_confirmAction := None\<rparr>, w1))"

definition handleConfirmLockSetup :: "'w feature_api \<Rightarrow> string \<Rightarrow> string \<Rightarrow> chat_view \<times> 'w \<Rightarrow> chat_view \<times> 'w" where
  "handleConfirmLockSetup A new confirm = (\<lambda>(v, w).
     case new_password_error new confirm of
       Some e \<Rightarrow> (v\<lparr>cw_lockSetupError := Some e\<rparr>, w)
     | None \<Rightarrow>
         (case set_feature A Lock_Password new None w of
            (Inl e, w1) \<Rightarrow> (v\<lparr>cw_lockSetupError := Some (or_text e ''Failed to set Chat Lock password.'')\<rparr>, w1)
          | (Inr _, w1) \<Rightarrow>
              ((lock_here (v\<lparr>cw_lockSetupError := None, cw_hasChatLockPassword := True\<rparr>))
                 \<lparr>cw_confirmAction := None, cw_showProfile := False\<rparr>, w1)))"

definition hide_here :: "chat_view \<Rightarrow> chat_view" where
  "hide_here v =
     (on_store (hideChat (cw_id v) (cw_user v)) v)
       \<lparr>cw_isHidden := True, cw_confirmAction := None, cw_showProfile := False, cw_pushed := Some ''/chat''\<rparr>"

definition handleConfirmHideSetup :: "'w feature_api \<Rightarrow> string \<Rightarrow> string \<Rightarrow> chat_view \<times> 'w \<Rightarrow> chat_view \<times> 'w" where
  "handleConfirmHideSetup A new confirm = (\<lambda>(v, w).
     case new_password_error new confirm of
       Some e \<Rightarrow> (v\<lparr>cw_hideSetupError := Some e\<rparr>, w)
     | None \<Rightarrow>
         (case set_feature A Hide_Password new None w of
            (Inl e, w1) \<Rightarrow> (v\<lparr>cw_hideSetupError := Some (or_text e ''Failed to set Hide Chat password.'')\<rparr>, w1)
          | (Inr _, w1) \<Rightarrow> (hide_here (v\<lparr>cw_hideSetupError := None, cw_hasHideChatPassword := True\<rparr>), w1)))"

definition handleConfirmHide :: "'w feature_api \<Rightarrow> string \<Rightarrow> chat_view \<times> 'w \<Rightarrow> chat_view \<times> 'w" where
  "handleConfirmHide A password = (\<lambda>(v, w).
     if js_trim password = '''' then (v\<lparr>cw_hideConfirmError := Some ''Please enter your Hide Chat password.''\<rparr>, w)
     else case fa_verify A Hide_Password password w of
            (Inr True, w1) \<Rightarrow> (hide_here (v\<lparr>cw_hideConfirmError := None\<rparr>), w1)
          | (Inr False, w1) \<Rightarrow> (v\<lparr>cw_hideConfirmError := Some ''Incorrect Hide Chat password. Please try again.''\<rparr>, w1)
          | (Inl e, w1) \<Rightarrow> (v\<lparr>cw_hideConfirmError := Some (or_text e ''Verification failed. Please try again.'')\<rparr>, w1))"

section \<open>Blocking, burning, timers\<close>

definition handleUnblock :: "(failure + unit) \<Rightarrow> chat_view \<Rightarrow> chat_view" where
  "handleUnblock answer v =
     (let v1 = call_server Call_Unblock v
      in case answer of
           Inr _ \<Rightarrow> v1\<lparr>cw_convoStatus := ''ACTIVE''\<rparr>
         | Inl e \<Rightarrow> v1\<lparr>cw_actionError := Some (or_text e ''Could not unblock this conversation.'')\<rparr>)"

definition handleBlock :: "(failure + unit) \<Rightarrow> chat_view \<Rightarrow> chat_view" where
  "handleBlock answer v =
     (let v1 = call_server Call_Block (v\<lparr>cw_confirmAction := None, cw_showProfile := False\<rparr>)
      in case answer of
           Inr _ \<Rightarrow> v1\<lparr>cw_pushed := Some ''/chat''\<rparr>
         | Inl _ \<Rightarrow> v1\<lparr>cw_actionError := Some ''Could not block this conversation. Please try again.''\<rparr>)"

text \<open>A value under the fixed key of an earlier version.\<close>

definition forget_hidden :: "ident \<Rightarrow> client \<Rightarrow> client" where
  "forget_hidden cid c =
     (if idbGet as_text ''hiddenChat:conversationId'' c = Some cid then idbDelete ''hiddenChat:conversationId'' c else c)"

definition burn_with :: "string \<Rightarrow> (failure + unit) \<Rightarrow> chat_view \<Rightarrow> chat_view" where
  "burn_with password answer v =
     (let v1 = call_server (Call_Burn (given (Some password))) v
      in case answer of
           Inl e \<Rightarrow> v1\<lparr>cw_burnError :=
             Some (or_text e ''Could not burn this conversation. Invalid password or network error.'')\<rparr>
         | Inr _ \<Rightarrow>
             (on_store (\<lambda>c. forget_hidden (cw_id v) (clearCachedMessages (cw_id v) None (deleteSession (cw_id v) None c))) v1)
               \<lparr>cw_confirmAction := None, cw_showProfile := False, cw_pushed := Some ''/chat''\<rparr>)"

definition handleBurn ::
  "'w feature_api \<Rightarrow> string \<Rightarrow> string \<Rightarrow> string \<Rightarrow> (failure + unit) \<Rightarrow> chat_view \<times> 'w \<Rightarrow> chat_view \<times> 'w" where
  "handleBurn A burnPassword new confirm answer = (\<lambda>(v, w).
     let v0 = v\<lparr>cw_burnError := None, cw_burnSetupError := None\<rparr>
     in if cw_hasBurnPassword v then (burn_with (js_trim burnPassword) answer v0, w)
        else case new_password_error new confirm of
               Some e \<Rightarrow> (v0\<lparr>cw_burnSetupError := Some (if length new < 4 then ''Burn Password must be at least 4 characters.'' else e)\<rparr>, w)
             | None \<Rightarrow>
                 (case set_feature A Burn_Password new None w of
                    (Inl e, w1) \<Rightarrow> (v0\<lparr>cw_burnSetupError := Some (or_text e ''Could not configure Burn Password.'')\<rparr>, w1)
                  | (Inr _, w1) \<Rightarrow> (burn_with new answer (v0\<lparr>cw_hasBurnPassword := True\<rparr>), w1)))"

definition setDisappearing :: "int option \<Rightarrow> (failure + unit) \<Rightarrow> chat_view \<Rightarrow> chat_view" where
  "setDisappearing seconds answer v =
     (let v1 = call_server (Call_Disappearing seconds) v
      in case answer of
           Inr _ \<Rightarrow> v1\<lparr>cw_showDisappearing := False\<rparr>
         | Inl _ \<Rightarrow> v1\<lparr>cw_actionError :=
             Some ''Could not update the disappearing-messages timer. Please try again.''\<rparr>)"

definition set_expired :: "bool \<Rightarrow> chat_view \<Rightarrow> chat_view" where
  "set_expired b v = v\<lparr>cw_page := (cw_page v)\<lparr>pg_expired := b\<rparr>\<rparr>"

definition handleExtendSubmit :: "int \<Rightarrow> (failure + instant option) \<Rightarrow> chat_view \<Rightarrow> chat_view" where
  "handleExtendSubmit duration answer v =
     (let v1 = call_server (Call_Extend duration) (v\<lparr>cw_extendError := None\<rparr>)
      in case answer of
           Inr expiresAt \<Rightarrow> set_expired False (v1\<lparr>cw_expiresAt := Some expiresAt, cw_showExtend := False\<rparr>)
         | Inl e \<Rightarrow> v1\<lparr>cw_extendError := Some (error_text e ''Failed to extend chat lifetime'')\<rparr>)"

definition on_expiry_updated :: "ident \<Rightarrow> instant option \<Rightarrow> chat_view \<Rightarrow> chat_view" where
  "on_expiry_updated cid expiresAt v =
     (if cid \<noteq> cw_id v then v else set_expired False (v\<lparr>cw_expiresAt := Some expiresAt\<rparr>))"

definition pad2 :: "nat \<Rightarrow> string" where
  "pad2 n = replicate (2 - length (decimal n)) (CHR ''0'') @ decimal n"

text \<open>\<open>None\<close> is a time that does not parse.\<close>

definition formatCountdown :: "instant option \<Rightarrow> instant \<Rightarrow> string" where
  "formatCountdown expiresAt now =
     (case expiresAt of
        None \<Rightarrow> ''00:00 remaining''
      | Some t \<Rightarrow>
          if t - now \<le> 0 then ''00:00 remaining''
          else
            let total = nat ((t - now) div 1000);
                days = total div 86400; hours = (total mod 86400) div 3600;
                minutes = (total mod 3600) div 60; seconds = total mod 60
            in if days > 0 then decimal days @ ''d '' @ pad2 hours @ ''h '' @ pad2 minutes @ ''m remaining''
               else if hours > 0 then pad2 hours @ '':'' @ pad2 minutes @ '':'' @ pad2 seconds @ '' remaining''
               else pad2 minutes @ '':'' @ pad2 seconds @ '' remaining'')"

definition update_timer :: "instant \<Rightarrow> chat_view \<Rightarrow> chat_view" where
  "update_timer now v =
     (case cw_expiresAt v of
        None \<Rightarrow> v
      | Some t \<Rightarrow>
          if \<not> cw_isTemporary v \<or> pg_expired (cw_page v) then v
          else if isTemporaryChatExpired (Some t) now then set_expired True (v\<lparr>cw_countdown := ''00:00 remaining''\<rparr>)
          else v\<lparr>cw_countdown := formatCountdown t now\<rparr>)"

text \<open>What the page asks when it becomes visible again.\<close>

record status_reply =
  sy_status :: string
  sy_expiresAt :: "instant option option"
  sy_isExpired :: bool
  sy_otherUser :: "contact option"

definition handleSyncStatus :: "instant \<Rightarrow> bool \<Rightarrow> (failure + status_reply) \<Rightarrow> chat_view \<Rightarrow> chat_view" where
  "handleSyncStatus now visible answer v =
     (case answer of
        Inr s \<Rightarrow>
          if \<not> visible then v
          else
            let v1 = (if sy_status s = '''' then v else v\<lparr>cw_convoStatus := sy_status s\<rparr>);
                v2 = (case sy_otherUser s of
                        None \<Rightarrow> v1
                      | Some o1 \<Rightarrow> v1\<lparr>cw_otherUser := Some (case cw_otherUser v1 of
                            Some p \<Rightarrow> p\<lparr>ct_isOnline := ct_isOnline o1, ct_lastSeenAt := ct_lastSeenAt o1\<rparr> | None \<Rightarrow> o1)\<rparr>)
            in if sy_isExpired s \<or> sy_status s = ''DELETED'' \<or> isTemporaryChatExpired (sy_expiresAt s) now
               then set_expired True v2 else v2
      | Inl _ \<Rightarrow> v)"

definition on_user_online :: "ident \<Rightarrow> chat_view \<Rightarrow> chat_view" where
  "on_user_online u v =
     v\<lparr>cw_otherUser := map_option (\<lambda>p. if ct_id p = u then p\<lparr>ct_isOnline := Some True\<rparr> else p) (cw_otherUser v)\<rparr>"

definition on_user_offline :: "ident \<Rightarrow> string \<Rightarrow> chat_view \<Rightarrow> chat_view" where
  "on_user_offline u lastSeenAt v =
     v\<lparr>cw_otherUser := map_option (\<lambda>p. if ct_id p = u then p\<lparr>ct_isOnline := Some False, ct_lastSeenAt := Some lastSeenAt\<rparr> else p)
         (cw_otherUser v)\<rparr>"

definition notification_body :: "bool \<Rightarrow> string \<Rightarrow> chat_view \<Rightarrow> string" where
  "notification_body contentVisible body v =
     (if cw_isLocked v \<or> cw_isHidden v \<or> \<not> contentVisible then ''New encrypted message'' else body)"

section \<open>Choosing messages\<close>

definition startEdit :: "cached_message \<Rightarrow> chat_view \<Rightarrow> chat_view" where
  "startEdit m v = v\<lparr>cw_page := (cw_page v)\<lparr>pg_editingId := Some (cm_id m), pg_replyTo := None\<rparr>, cw_draft := cm_text m\<rparr>"

definition startReply :: "cached_message \<Rightarrow> chat_view \<Rightarrow> chat_view" where
  "startReply m v = v\<lparr>cw_page := (cw_page v)\<lparr>pg_replyTo := Some m, pg_editingId := None\<rparr>\<rparr>"


section \<open>Attachments and photos to be viewed once\<close>

definition parseAttachmentPayload :: "string \<Rightarrow> json option" where
  "parseAttachmentPayload t =
     (case json_parse t of
        Some v \<Rightarrow> if json_field ''kind'' v = Some (JStr ''attachment'') then Some v else None
      | None \<Rightarrow> None)"

text \<open>
  \<open>JSON.stringify\<close> of a parsed value. Of equal keys the parser keeps the place of the
  first and the value of the last. A number is printed exactly, without the rounding of
  a double.
\<close>

definition own_fields :: "(string \<times> 'a) list \<Rightarrow> (string \<times> 'a) list" where
  "own_fields ms = fold (\<lambda>(k, v). map_put k v) ms []"

fun comma_separated :: "string list \<Rightarrow> string" where
  "comma_separated [] = ''''"
| "comma_separated [t] = t"
| "comma_separated (t # ts) = t @ '','' @ comma_separated ts"

definition number_text :: "int \<Rightarrow> int \<Rightarrow> string" where
  "number_text m e =
     (if e \<ge> 0 then int_text (m * 10 ^ nat e)
      else
        let d = 10 ^ nat (- e); whole = \<bar>m\<bar> div d; part = decimal (nat (\<bar>m\<bar> mod d));
            digits = rev (dropWhile (\<lambda>c. c = CHR ''0'') (rev (replicate (nat (- e) - length part) (CHR ''0'') @ part)))
        in (if m < 0 then ''-'' else '''') @ decimal (nat whole) @ (if digits = '''' then '''' else CHR ''.'' # digits))"

fun json_text :: "json \<Rightarrow> string" where
  "json_text JNull = ''null''"
| "json_text (JBool b) = (if b then ''true'' else ''false'')"
| "json_text (JNum m e) = number_text m e"
| "json_text (JStr s) = json_quote s"
| "json_text (JArr xs) = ''['' @ comma_separated (map json_text xs) @ '']''"
| "json_text (JObj ms) = object_text (own_fields (map (\<lambda>(k, v). (k, json_text v)) ms))"

text \<open>\<open>{ ...p, opened: true }\<close>.\<close>

definition mark_opened :: "json \<Rightarrow> json" where
  "mark_opened p = (case p of JObj ms \<Rightarrow> JObj (map_put ''opened'' (JBool True) (own_fields ms)) | _ \<Rightarrow> JObj [(''opened'', JBool True)])"

definition on_page_of :: "(page \<Rightarrow> page) \<Rightarrow> chat_view \<Rightarrow> chat_view" where
  "on_page_of f v = v\<lparr>cw_page := f (cw_page v)\<rparr>"

definition show_text :: "ident \<Rightarrow> string \<Rightarrow> page \<Rightarrow> page" where
  "show_text mid t pg =
     (let f = (\<lambda>m. m\<lparr>cm_text := t, cm_status := Read\<rparr>)
      in mapMessages mid f (update_cached mid f pg))"

definition on_view_once_opened :: "ident \<Rightarrow> ident \<Rightarrow> page \<Rightarrow> page" where
  "on_view_once_opened cid mid pg =
     (if cid \<noteq> pg_conversationId pg then pg
      else
        case find (\<lambda>m. cm_id m = mid) (pg_messages pg) of
          None \<Rightarrow> pg
        | Some m \<Rightarrow>
            (case json_parse (cm_text m) of
               Some p \<Rightarrow>
                 if truthy (json_field ''viewOnce'' p) then show_text mid (json_text (mark_opened p)) pg
                 else on_read_receipt mid pg
             | None \<Rightarrow> on_read_receipt mid pg))"

text \<open>\<open>Senders cannot open\<close> their own; \<open>connected\<close> is the state of the socket.\<close>

definition openViewOnceMedia ::
  "subtle \<Rightarrow> bool \<Rightarrow> (failure + bytes) \<Rightarrow> ident \<Rightarrow> json \<Rightarrow> chat_view \<Rightarrow> chat_view" where
  "openViewOnceMedia S connected download mid payload v =
     (let failed = v\<lparr>cw_actionError := Some ''This View Once photo could not be decrypted or was already deleted.''\<rparr>
      in if (case find (\<lambda>m. cm_id m = mid) (pg_messages (cw_page v)) of Some m \<Rightarrow> cm_mine m | None \<Rightarrow> False) then v
         else
           case (download, Option.bind (json_string ''dek'' payload) base64ToBytes, json_string ''filename'' payload) of
             (Inr ciphertext, Some dek, Some filename) \<Rightarrow>
               (case decryptFile S ciphertext dek of
                  Inl _ \<Rightarrow> failed
                | Inr blob \<Rightarrow>
                    let attachmentId = (case json_string ''attachmentId'' payload of Some a \<Rightarrow> a | None \<Rightarrow> ''undefined'');
                        v1 = call_server (Call_Read mid) (call_server (Call_Delete_Attachment attachmentId)
                               (v\<lparr>cw_activeViewOnce := Some (mid, payload, blob)\<rparr>));
                        v2 = on_page_of (show_text mid (json_text (mark_opened payload))) v1
                    in if connected then call_server (Emit_View_Once mid) v2 else v2)
           | _ \<Rightarrow> failed)"

definition closeViewOnceModal :: "chat_view \<Rightarrow> chat_view" where
  "closeViewOnceModal v = v\<lparr>cw_activeViewOnce := None\<rparr>"

definition openAttachment :: "subtle \<Rightarrow> bool \<Rightarrow> (failure + bytes) \<Rightarrow> json \<Rightarrow> chat_view \<Rightarrow> opened option \<times> chat_view" where
  "openAttachment S tab download payload v =
     (let failed = (None, v\<lparr>cw_actionError := Some ''Could not open this attachment. It may have expired or been deleted.''\<rparr>)
      in case (download, Option.bind (json_string ''dek'' payload) base64ToBytes, json_string ''filename'' payload) of
           (Inr ciphertext, Some dek, Some filename) \<Rightarrow>
             (case decryptFile S ciphertext dek of
                Inl _ \<Rightarrow> failed
              | Inr blob \<Rightarrow>
                  let mime = mime_of filename
                  in (Some (if (starts_with ''image/'' mime \<or> mime = ''application/pdf'') \<and> tab then New_Tab mime blob
                            else Download (safe_filename filename) blob), v))
         | _ \<Rightarrow> failed)"

text \<open>What a row of the conversation shows, what a click on it does, and the actions its menu offers.\<close>

datatype photo_card = Opened_Photo | Photo_Sent | Tap_To_View | Inline_Image

definition photo_card :: "json \<Rightarrow> bool \<Rightarrow> photo_card" where
  "photo_card payload isMine =
     (if truthy (json_field ''viewOnce'' payload)
      then if truthy (json_field ''opened'' payload) then Opened_Photo
           else if isMine then Photo_Sent else Tap_To_View
      else Inline_Image)"

datatype row = Text_Row | Photo_Row photo_card json | File_Row json

definition row_of :: "cached_message \<Rightarrow> row" where
  "row_of m =
     (case parseAttachmentPayload (cm_text m) of
        None \<Rightarrow> Text_Row
      | Some a \<Rightarrow>
          if json_field ''mimeTypeHint'' a = Some (JStr ''image'') then Photo_Row (photo_card a (cm_mine m)) a
          else File_Row a)"

definition row_clicked ::
  "subtle \<Rightarrow> bool \<Rightarrow> bool \<Rightarrow> (failure + bytes) \<Rightarrow> cached_message \<Rightarrow> chat_view \<Rightarrow> opened option \<times> chat_view" where
  "row_clicked S connected tab download m v =
     (case row_of m of
        Text_Row \<Rightarrow> (None, v)
      | Photo_Row Tap_To_View a \<Rightarrow> (None, openViewOnceMedia S connected download (cm_id m) a v)
      | Photo_Row Inline_Image a \<Rightarrow> openAttachment S tab download a v
      | Photo_Row _ _ \<Rightarrow> (None, v)
      | File_Row a \<Rightarrow> openAttachment S tab download a v)"

datatype message_action = Dismiss | Reply | Copy | Edit | Delete

definition message_actions :: "cached_message \<Rightarrow> message_action list" where
  "message_actions m =
     (if is_undecryptable m then [Dismiss]
      else
        let attachment = parseAttachmentPayload (cm_text m) \<noteq> None
        in [Reply] @ (if attachment then [] else [Copy]) @
           (if cm_mine m then (if attachment then [] else [Edit]) @ [Delete] else []))"

definition formatLastSeen :: "instant option \<Rightarrow> string \<Rightarrow> instant \<Rightarrow> string" where
  "formatLastSeen t dateString now =
     (case t of
        None \<Rightarrow> ''recently''
      | Some s \<Rightarrow>
          let diffMs = now - s
          in if diffMs < 60 * 1000 then ''just now''
             else if diffMs < 60 * 60 * 1000 then int_text (diffMs div 60000) @ ''m ago''
             else if diffMs < 24 * 60 * 60 * 1000 then int_text (diffMs div 3600000) @ ''h ago''
             else dateString)"


section \<open>Attempts at the locked screen\<close>

datatype lock_attempt = Try_Unlock string | Try_Setup string string

fun run_attempt :: "'w feature_api \<Rightarrow> lock_attempt \<Rightarrow> chat_view \<times> 'w \<Rightarrow> chat_view \<times> 'w" where
  "run_attempt A (Try_Unlock p) = handleUnlockConversation A p"
| "run_attempt A (Try_Setup p q) = handleSetupChatLockAndUnlock A p q"

fun typed_password :: "lock_attempt \<Rightarrow> string option" where
  "typed_password (Try_Unlock p) = Some p"
| "typed_password (Try_Setup p q) = None"

abbreviation guard_of :: "chat_view \<Rightarrow> page \<times> bool \<times> bool \<times> bool \<times> bool" where
  "guard_of v \<equiv> (cw_page v, cw_isLocked v, cw_isHidden v, cw_isSessionUnlocked v, cw_lockCheckDone v)"

lemma chat_screen_open: "chat_screen v = Conversation \<longleftrightarrow>
    \<not> (cw_lockCheckDone v \<and> (cw_isLocked v \<or> cw_isHidden v) \<and> \<not> cw_isSessionUnlocked v)"
  by (simp add: chat_screen_def)

lemma unlock_session_opens: "chat_screen (unlock_session v) = Conversation"
  by (simp add: chat_screen_open unlock_session_def)

lemma session_unlocked_written: "isChatSessionUnlocked cid (setChatSessionUnlocked cid True c)"
  by (simp add: isChatSessionUnlocked_def setChatSessionUnlocked_def)

text \<open>What the pages rely on: a check tells whether the password is the right one, an established
  password is not replaced by a call that does not bring it, and the passwords of the other features stay.\<close>

locale password_keeper =
  fixes A :: "'w feature_api" and accepts :: "feature_type \<Rightarrow> string \<Rightarrow> 'w \<Rightarrow> bool"
    and established :: "feature_type \<Rightarrow> 'w \<Rightarrow> bool"
  assumes verify_tells: "fst (fa_verify A f p w) = Inr True \<longleftrightarrow> accepts f p w"
    and verify_keeps: "snd (fa_verify A f p w) = w"
    and replacement_refused: "established f w \<Longrightarrow> fst (fa_set A f p None w) \<noteq> Inr True \<and> snd (fa_set A f p None w) = w"
    and others_kept: "g \<noteq> f \<Longrightarrow>
      accepts g q (snd (fa_set A f p cur w)) = accepts g q w \<and> established g (snd (fa_set A f p cur w)) = established g w"
begin

lemma verify: "verify_feature A f p w = (accepts f p w, w)"
  using verify_tells [of f p w] verify_keeps [of f p w]
  by (auto simp: verify_feature_def split: prod.splits sum.splits)

lemma opens: "opens_chat A locked hidden p w =
    (accepts (guarding_feature locked) p w \<or> locked \<and> hidden \<and> accepts Hide_Password p w, w)"
  by (auto simp: opens_chat_def verify)

lemma set_refused:
  assumes "established f w"
  shows "\<exists>e. set_feature A f p None w = (Inl e, w)"
  using replacement_refused [OF assms, of p]
  by (auto simp: set_feature_def split: prod.splits sum.splits bool.splits)

lemma attempt_refused:
  assumes "established (guarding_feature (cw_isLocked v)) w"
    and "\<And>p. typed_password a = Some p \<Longrightarrow> \<not> fst (opens_chat A (cw_isLocked v) (cw_isHidden v) p w)"
  shows "snd (run_attempt A a (v, w)) = w \<and> guard_of (fst (run_attempt A a (v, w))) = guard_of v"
proof (cases a)
  case (Try_Unlock p)
  then show ?thesis using assms(2) [of p] by (auto simp: handleUnlockConversation_def opens Let_def)
next
  case (Try_Setup p q)
  then show ?thesis using set_refused [OF assms(1), of p]
    by (auto simp: handleSetupChatLockAndUnlock_def Let_def split: option.splits)
qed

lemma attempts_refused:
  assumes "established (guarding_feature (cw_isLocked v)) w"
    and "\<forall>a \<in> set as. \<forall>p. typed_password a = Some p \<longrightarrow> \<not> fst (opens_chat A (cw_isLocked v) (cw_isHidden v) p w)"
  shows "snd (fold (run_attempt A) as (v, w)) = w \<and> guard_of (fst (fold (run_attempt A) as (v, w))) = guard_of v"
  using assms
proof (induction as arbitrary: v)
  case (Cons a as)
  obtain v' where r: "run_attempt A a (v, w) = (v', w)" "guard_of v' = guard_of v"
    using attempt_refused [of v w a] Cons.prems by (cases "run_attempt A a (v, w)") auto
  then show ?case using Cons.IH [of v'] Cons.prems by (simp only: fold.simps o_apply prod.inject) simp
qed simp

lemma right_password_opens:
  assumes "js_trim p \<noteq> ''''" "fst (opens_chat A (cw_isLocked v) (cw_isHidden v) p w)"
  shows "chat_screen (fst (run_attempt A (Try_Unlock p) (v, w))) = Conversation \<and>
    isChatSessionUnlocked (cw_id v) (cw_store (fst (run_attempt A (Try_Unlock p) (v, w))))"
proof -
  have "fst (run_attempt A (Try_Unlock p) (v, w)) = unlock_session (v\<lparr>cw_unlockError := None\<rparr>)"
    using assms by (simp add: handleUnlockConversation_def opens)
  then show ?thesis
    by (simp only: unlock_session_opens) (simp add: unlock_session_def on_store_def on_lock_state_changed_def session_unlocked_written)
qed

end

section \<open>Photos to be viewed once\<close>

lemma show_text_messages:
  "pg_messages (show_text mid t pg) =
     map (\<lambda>m. if cm_id m = mid then m\<lparr>cm_text := t, cm_status := Read\<rparr> else m) (pg_messages pg)"
  by (simp add: show_text_def mapMessages_def update_cached_def)

lemma show_text_shows:
  assumes "m \<in> set (pg_messages (show_text mid t pg))" "cm_id m = mid"
  shows "cm_text m = t \<and> cm_status m = Read"
proof -
  obtain m0 where "m = (if cm_id m0 = mid then m0\<lparr>cm_text := t, cm_status := Read\<rparr> else m0)"
    using assms(1) by (simp only: show_text_messages set_map) (elim imageE)
  then show ?thesis using assms(2) by (cases "cm_id m0 = mid") simp_all
qed

definition payload_fields :: "ident \<Rightarrow> string \<Rightarrow> string \<Rightarrow> string option \<Rightarrow> (string \<times> string) list" where
  "payload_fields attachmentId dek filename caption =
     [(''kind'', ''attachment''), (''attachmentId'', attachmentId), (''dek'', dek), (''mimeTypeHint'', ''image''),
      (''filename'', filename)] @ (case given caption of None \<Rightarrow> [] | Some c \<Rightarrow> [(''caption'', c)])"

definition once_payload :: "ident \<Rightarrow> string \<Rightarrow> string \<Rightarrow> string option \<Rightarrow> bool \<Rightarrow> json" where
  "once_payload attachmentId dek filename caption seen =
     JObj (map (\<lambda>(k, s). (k, JStr s)) (payload_fields attachmentId dek filename caption) @ [(''viewOnce'', JBool True)] @
       (if seen then [(''opened'', JBool True)] else []))"

lemma reads_as_true: "reads_as ''true'' (JBool True)"
  unfolding reads_as_def
proof (intro allI impI)
  fix n :: nat and rest :: string
  assume "n > 0 \<and> rest \<noteq> [] \<and> hd rest \<in> {CHR '','', CHR ''}''}"
  then show "json_value n (''true'' @ rest) = Some (JBool True, rest)"
    by (cases n) (simp_all add: json_value.simps json_space_def quote_char_def starts_with_def)
qed

lemma parse_once_payload:
  "json_parse (object_text (map (\<lambda>(k, s). (k, json_quote s)) (payload_fields a d f c) @ [(''viewOnce'', ''true'')] @
       (if seen then [(''opened'', ''true'')] else []))) = Some (once_payload a d f c seen)"
proof -
  let ?ms = "map (\<lambda>(k, s). (k, json_quote s, JStr s)) (payload_fields a d f c) @ [(''viewOnce'', ''true'', JBool True)] @
    (if seen then [(''opened'', ''true'', JBool True)] else [])"
  have len: "length xs \<le> length (members_text xs)" for xs
    by (induction xs rule: members_text.induct) (auto simp: json_quote_def)
  have "length ?ms \<le> length (object_text (map (\<lambda>(k, t, v). (k, t)) ?ms))"
    using len [of "map (\<lambda>(k, t, v). (k, t)) ?ms"] by (simp add: object_text_def del: map_append)
  moreover have "reads_as t v" if "(k, t, v) \<in> set ?ms" for k t v
    using that reads_as_true reads_as_quote by (auto split: if_splits)
  ultimately have "json_parse (object_text (map (\<lambda>(k, t, v). (k, t)) ?ms)) = Some (JObj (map (\<lambda>(k, t, v). (k, v)) ?ms))"
    by (intro json_parse_object) auto
  moreover have "map (\<lambda>(k, t, v). (k, t)) ?ms = map (\<lambda>(k, s). (k, json_quote s)) (payload_fields a d f c) @
      [(''viewOnce'', ''true'')] @ (if seen then [(''opened'', ''true'')] else [])"
    by (simp add: case_prod_unfold o_def)
  moreover have "map (\<lambda>(k, t, v). (k, v)) ?ms = map (\<lambda>(k, s). (k, JStr s)) (payload_fields a d f c) @
      [(''viewOnce'', JBool True)] @ (if seen then [(''opened'', JBool True)] else [])"
    by (simp add: case_prod_unfold o_def)
  ultimately show ?thesis by (simp only: once_payload_def)
qed

lemma attachment_payload_once:
  "attachment_payload a d ''image'' f c True =
     object_text (map (\<lambda>(k, s). (k, json_quote s)) (payload_fields a d f c) @ [(''viewOnce'', ''true'')] @
       (if False then [(''opened'', ''true'')] else []))"
  by (simp add: attachment_payload_def payload_fields_def split: option.splits)

lemma mark_once_payload: "mark_opened (once_payload a d f c False) = once_payload a d f c True"
  by (simp add: mark_opened_def once_payload_def payload_fields_def own_fields_def map_put_def split: option.splits)

lemma once_payload_text:
  "json_text (once_payload a d f c True) =
     object_text (map (\<lambda>(k, s). (k, json_quote s)) (payload_fields a d f c) @ [(''viewOnce'', ''true'')] @
       (if True then [(''opened'', ''true'')] else []))"
  by (simp add: once_payload_def payload_fields_def own_fields_def map_put_def split: option.splits)

lemma once_payload_field [simp]:
  "json_field ''kind'' (once_payload a d f c seen) = Some (JStr ''attachment'')"
  "json_field ''mimeTypeHint'' (once_payload a d f c seen) = Some (JStr ''image'')"
  "json_string ''attachmentId'' (once_payload a d f c seen) = Some a"
  "json_string ''dek'' (once_payload a d f c seen) = Some d"
  "json_string ''filename'' (once_payload a d f c seen) = Some f"
  "json_field ''viewOnce'' (once_payload a d f c seen) = Some (JBool True)"
  "json_field ''opened'' (once_payload a d f c seen) = (if seen then Some (JBool True) else None)"
  by (cases seen; simp add: json_string_def json_field_def once_payload_def payload_fields_def split: option.splits)+

lemma once_row_sent:
  "cm_text m = attachment_payload a d ''image'' f c True \<Longrightarrow>
     row_of m = Photo_Row (if cm_mine m then Photo_Sent else Tap_To_View) (once_payload a d f c False)"
  using parse_once_payload [of a d f c False]
  by (simp add: row_of_def parseAttachmentPayload_def attachment_payload_once photo_card_def truthy_def del: if_False)

lemma once_row_opened:
  "cm_text m = json_text (once_payload a d f c True) \<Longrightarrow> row_of m = Photo_Row Opened_Photo (once_payload a d f c True)"
  using parse_once_payload [of a d f c True]
  by (simp add: row_of_def parseAttachmentPayload_def once_payload_text photo_card_def truthy_def del: if_True)

end
