(* ===== verification/Sidebar.thy ===== *)
theory Sidebar
  imports ChatActions
begin

text \<open>
  The list of conversations and rooms (\<open>components/chat/ConversationSidebar.tsx\<close>) and the
  search through the cached messages (\<open>searchLocalMessages\<close> of \<open>lib/crypto/messageCache.ts\<close>).
  The record \<open>sidebar\<close> holds the component's state, the device's store and what it
  opens; \<open>run_sidebar\<close> is what a user can do with the controls that are on the screen.
  Answers of the server are part of the events; feature passwords go to a \<open>feature_api\<close>.
\<close>

section \<open>State\<close>

record summary =
  su_id :: ident
  su_status :: string
  su_unreadCount :: "int option"
  su_otherUser :: "contact option"

record room_entry =
  ru_id :: ident
  ru_name :: string
  ru_ownerUsername :: string

record search_hit =
  sr_message :: cached_message
  sr_snippet :: string

datatype modal = Sheet | Unlock | Unlock_Hidden | Remove_Lock | Confirm_Hide | Block_Modal | Burn_Modal | Setup_Password

datatype pending_action = Hide_It ident | Lock_It ident | Show_Hidden | Open_It ident

datatype sidebar_call = Load_All | Post_Block ident | Post_Unblock ident | Post_Burn ident string

datatype place = Open_Conversation ident | Open_Room ident | Chat_Home

record sidebar =
  sb_store :: client
  sb_userId :: "ident option"
  sb_active :: "ident option"
  sb_conversations :: "summary list"
  sb_rooms :: "room_entry list"
  sb_loadError :: bool
  sb_query :: string
  sb_results :: "search_hit list"
  sb_hidden :: "ident list"
  sb_locked :: "ident list"
  sb_showHidden :: bool
  sb_hiddenUnlocked :: bool
  sb_actionConv :: "summary option"
  sb_modal :: "modal option"
  sb_unlockError :: "string option"
  sb_removeLockError :: "string option"
  sb_burnError :: "string option"
  sb_actionError :: "string option"
  sb_hasBurn :: bool
  sb_hasLock :: bool
  sb_hasHide :: bool
  sb_setupFeature :: "feature_type option"
  sb_setupError :: "string option"
  sb_pending :: "pending_action option"
  sb_announced :: "int option"
  sb_calls :: "sidebar_call list"
  sb_went :: "place list"

definition ask :: "sidebar_call \<Rightarrow> sidebar \<Rightarrow> sidebar" where
  "ask c sb = sb\<lparr>sb_calls := sb_calls sb @ [c]\<rparr>"

text \<open>\<open>onSelect\<close> or \<open>router.push\<close>.\<close>

definition go :: "place \<Rightarrow> sidebar \<Rightarrow> sidebar" where
  "go p sb = sb\<lparr>sb_went := sb_went sb @ [p]\<rparr>"

definition with_store :: "(client \<Rightarrow> client) \<Rightarrow> sidebar \<Rightarrow> sidebar" where
  "with_store f sb = sb\<lparr>sb_store := f (sb_store sb)\<rparr>"

definition closeAllModals :: "sidebar \<Rightarrow> sidebar" where
  "closeAllModals sb =
     sb\<lparr>sb_modal := None, sb_actionConv := None, sb_unlockError := None, sb_removeLockError := None,
        sb_burnError := None, sb_setupFeature := None, sb_setupError := None, sb_pending := None, sb_actionError := None\<rparr>"

section \<open>Loading and live updates\<close>

definition unread :: "summary \<Rightarrow> int" where
  "unread c = (case su_unreadCount c of Some n \<Rightarrow> n | None \<Rightarrow> 0)"

definition total_unread :: "summary list \<Rightarrow> int" where
  "total_unread cs = sum_list (map unread cs)"

definition announce :: "sidebar \<Rightarrow> sidebar" where
  "announce sb = sb\<lparr>sb_announced := Some (total_unread (sb_conversations sb))\<rparr>"

definition loadAll :: "sidebar \<Rightarrow> sidebar" where
  "loadAll sb = ask Load_All (sb\<lparr>sb_loadError := False\<rparr>)"

definition or_nothing :: "(failure + 'a list) \<Rightarrow> 'a list" where
  "or_nothing a = (case a of Inr xs \<Rightarrow> xs | Inl _ \<Rightarrow> [])"

text \<open>Every one of the five calls catches its own failure.\<close>

definition loaded ::
  "(failure + summary list) \<Rightarrow> (failure + room_entry list) \<Rightarrow> (failure + bool \<times> bool \<times> bool) \<Rightarrow> sidebar \<Rightarrow> sidebar" where
  "loaded convs rms settings sb =
     (case getLockedChatIds (sb_userId sb) (sb_store sb) of (locked, c) \<Rightarrow>
       case (case settings of Inr h \<Rightarrow> h | Inl _ \<Rightarrow> (False, False, False)) of (burn, lock, hide) \<Rightarrow>
       (announce (sb\<lparr>sb_conversations := or_nothing convs\<rparr>))
         \<lparr>sb_rooms := or_nothing rms, sb_hidden := getHiddenChatIds (sb_userId sb) (sb_store sb), sb_locked := locked,
          sb_store := c, sb_hasBurn := burn, sb_hasLock := lock, sb_hasHide := hide\<rparr>)"

definition on_active :: "ident option \<Rightarrow> sidebar \<Rightarrow> sidebar" where
  "on_active active sb =
     (let sb1 = sb\<lparr>sb_active := active\<rparr>
      in case given active of
           None \<Rightarrow> sb1
         | Some a \<Rightarrow>
             if \<exists>c \<in> set (sb_conversations sb). su_id c = a \<and> unread c > 0
             then announce (sb1\<lparr>sb_conversations :=
                    map (\<lambda>c. if su_id c = a \<and> unread c > 0 then c\<lparr>su_unreadCount := Some 0\<rparr> else c) (sb_conversations sb)\<rparr>)
             else sb1)"

definition map_contact :: "ident \<Rightarrow> (contact \<Rightarrow> contact) \<Rightarrow> summary \<Rightarrow> summary" where
  "map_contact u f c =
     (case su_otherUser c of
        Some p \<Rightarrow> if ct_id p = u then c\<lparr>su_otherUser := Some (f p)\<rparr> else c
      | None \<Rightarrow> c)"

definition onUserOnline :: "ident \<Rightarrow> sidebar \<Rightarrow> sidebar" where
  "onUserOnline u sb =
     sb\<lparr>sb_conversations := map (map_contact u (\<lambda>p. p\<lparr>ct_isOnline := Some True\<rparr>)) (sb_conversations sb)\<rparr>"

definition onUserOffline :: "ident \<Rightarrow> string option \<Rightarrow> string \<Rightarrow> sidebar \<Rightarrow> sidebar" where
  "onUserOffline u lastSeenAt now sb =
     sb\<lparr>sb_conversations :=
       map (map_contact u (\<lambda>p. p\<lparr>ct_isOnline := Some False, ct_lastSeenAt := Some (or_text lastSeenAt now)\<rparr>))
         (sb_conversations sb)\<rparr>"

definition onIncomingMessage :: "ident \<Rightarrow> sidebar \<Rightarrow> sidebar" where
  "onIncomingMessage cid sb =
     (if cid = '''' \<or> sb_active sb = Some cid then sb
      else announce (sb\<lparr>sb_conversations :=
             map (\<lambda>c. if su_id c = cid then c\<lparr>su_unreadCount := Some (unread c + 1)\<rparr> else c) (sb_conversations sb)\<rparr>))"

definition onLockStateChanged :: "sidebar \<Rightarrow> sidebar" where
  "onLockStateChanged sb =
     (case getLockedChatIds (sb_userId sb) (sb_store sb) of (locked, c) \<Rightarrow> sb\<lparr>sb_locked := locked, sb_store := c\<rparr>)"

section \<open>Searching\<close>

fun find_text :: "string \<Rightarrow> string \<Rightarrow> nat option" where
  "find_text q [] = (if q = [] then Some 0 else None)"
| "find_text q (c # s) = (if starts_with q (c # s) then Some 0 else map_option Suc (find_text q s))"

definition has_text :: "string \<Rightarrow> string \<Rightarrow> bool" where
  "has_text q s \<longleftrightarrow> find_text q s \<noteq> None"

fun text_less :: "string \<Rightarrow> string \<Rightarrow> bool" where
  "text_less s [] = False"
| "text_less [] (d # t) = True"
| "text_less (c # s) (d # t) = ((of_char c :: nat) < of_char d \<or> c = d \<and> text_less s t)"

text \<open>
  The ellipsis is three dots here. The comparison of \<open>sort\<close> never answers
  \<open>equal\<close>: a result goes before those of the same time.
\<close>

definition snippet_of :: "string \<Rightarrow> nat \<Rightarrow> string \<Rightarrow> string" where
  "snippet_of q idx t =
     (let start = idx - 20
      in (if start > 0 then ''...'' else '''') @ take (idx + length q + 20 - start) (drop start t))"

fun insert_result :: "search_hit \<Rightarrow> search_hit list \<Rightarrow> search_hit list" where
  "insert_result r [] = [r]"
| "insert_result r (x # xs) =
     (if text_less (cm_sentAt (sr_message r)) (cm_sentAt (sr_message x)) then x # insert_result r xs else r # x # xs)"

definition results_in :: "string \<Rightarrow> cached_message list \<Rightarrow> search_hit list" where
  "results_in q ms =
     List.map_filter (\<lambda>m. map_option (\<lambda>idx. \<lparr>sr_message = m, sr_snippet = snippet_of q idx (cm_text m)\<rparr>)
       (find_text q (to_lower (cm_text m)))) ms"

fun search_all :: "ident \<Rightarrow> string \<Rightarrow> ident list \<Rightarrow> client \<Rightarrow> search_hit list \<times> client" where
  "search_all u q [] c = ([], c)"
| "search_all u q (cid # cids) c =
     (case getCachedMessages cid (Some u) c of (ms, c1) \<Rightarrow>
       case search_all u q cids c1 of (rs, c2) \<Rightarrow> (results_in q ms @ rs, c2))"

definition searchLocalMessages :: "ident list \<Rightarrow> string \<Rightarrow> client \<Rightarrow> search_hit list \<times> client" where
  "searchLocalMessages conversationIds query c =
     (let q = to_lower (js_trim query)
      in if length q < 2 then ([], c)
         else
           case resolveCryptoUserId None c of
             (None, c1) \<Rightarrow> ([], c1)
           | (Some u, c1) \<Rightarrow>
               (case search_all u q conversationIds c1 of (rs, c2) \<Rightarrow> (fold insert_result rs [], c2)))"

definition searchable :: "sidebar \<Rightarrow> ident list" where
  "searchable sb = map su_id (filter (\<lambda>c. su_id c \<notin> set (sb_hidden sb) \<union> set (sb_locked sb)) (sb_conversations sb))"

definition onSearchChange :: "string \<Rightarrow> sidebar \<Rightarrow> sidebar" where
  "onSearchChange t sb =
     (let sb1 = sb\<lparr>sb_query := t\<rparr>
      in if t = '''' \<or> searchable sb = [] then sb1\<lparr>sb_results := []\<rparr>
         else case searchLocalMessages (searchable sb) t (sb_store sb) of (rs, c) \<Rightarrow> sb1\<lparr>sb_results := rs, sb_store := c\<rparr>)"

section \<open>What is listed\<close>

definition name_matches :: "string \<Rightarrow> summary \<Rightarrow> bool" where
  "name_matches q c \<longleftrightarrow>
     q = '''' \<or>
     (case su_otherUser c of
        None \<Rightarrow> False
      | Some p \<Rightarrow> has_text q (to_lower (ct_username p)) \<or>
          (case ct_displayName p of None \<Rightarrow> False | Some n \<Rightarrow> has_text q (to_lower n)))"

abbreviation normalized :: "sidebar \<Rightarrow> string" where
  "normalized sb \<equiv> to_lower (js_trim (sb_query sb))"

definition visibleConversations :: "sidebar \<Rightarrow> summary list" where
  "visibleConversations sb =
     filter (\<lambda>c. su_status c \<noteq> ''DELETED'' \<and> su_id c \<notin> set (sb_hidden sb) \<and> name_matches (normalized sb) c) (sb_conversations sb)"

definition hiddenConversations :: "sidebar \<Rightarrow> summary list" where
  "hiddenConversations sb =
     filter (\<lambda>c. su_status c \<noteq> ''DELETED'' \<and> su_id c \<in> set (sb_hidden sb) \<and> name_matches (normalized sb) c) (sb_conversations sb)"

definition visibleRooms :: "sidebar \<Rightarrow> room_entry list" where
  "visibleRooms sb =
     filter (\<lambda>r. normalized sb = '''' \<or> has_text (normalized sb) (to_lower (ru_name r)) \<or>
                 has_text (normalized sb) (to_lower (ru_ownerUsername r))) (sb_rooms sb)"

text \<open>The rows on the screen.\<close>

definition rows :: "sidebar \<Rightarrow> summary list" where
  "rows sb = visibleConversations sb @ (if sb_showHidden sb \<and> sb_hiddenUnlocked sb then hiddenConversations sb else [])"

section \<open>Opening\<close>

definition has_feature :: "feature_type \<Rightarrow> sidebar \<Rightarrow> bool" where
  "has_feature f sb = (case f of Burn_Password \<Rightarrow> sb_hasBurn sb | Lock_Password \<Rightarrow> sb_hasLock sb | Hide_Password \<Rightarrow> sb_hasHide sb)"

definition note_feature :: "feature_type \<Rightarrow> sidebar \<Rightarrow> sidebar" where
  "note_feature f sb =
     (case f of Burn_Password \<Rightarrow> sb\<lparr>sb_hasBurn := True\<rparr> | Lock_Password \<Rightarrow> sb\<lparr>sb_hasLock := True\<rparr>
        | Hide_Password \<Rightarrow> sb\<lparr>sb_hasHide := True\<rparr>)"

definition ask_setup :: "feature_type \<Rightarrow> pending_action option \<Rightarrow> sidebar \<Rightarrow> sidebar" where
  "ask_setup f p sb =
     sb\<lparr>sb_setupFeature := Some f, sb_setupError := None, sb_pending := p, sb_modal := Some Setup_Password\<rparr>"

definition isLockedConv :: "ident \<Rightarrow> sidebar \<Rightarrow> bool" where
  "isLockedConv i sb \<longleftrightarrow> i \<in> set (sb_locked sb)"

definition isHiddenConv :: "ident \<Rightarrow> sidebar \<Rightarrow> bool" where
  "isHiddenConv i sb \<longleftrightarrow> i \<in> set (sb_hidden sb)"

definition handleSelectConv :: "ident \<Rightarrow> sidebar \<Rightarrow> sidebar" where
  "handleSelectConv i sb =
     (if (isLockedConv i sb \<or> isHiddenConv i sb) \<and> \<not> isChatSessionUnlocked i (sb_store sb)
      then (case find (\<lambda>c. su_id c = i) (sb_conversations sb) of
              None \<Rightarrow> go (Open_Conversation i) sb
            | Some conv \<Rightarrow>
                let f = guarding_feature (isLockedConv i sb); sb1 = sb\<lparr>sb_actionConv := Some conv\<rparr>
                in if \<not> has_feature f sb then ask_setup f (Some (Open_It i)) sb1 else sb1\<lparr>sb_modal := Some Unlock\<rparr>)
      else go (Open_Conversation i) sb)"

definition handleSelectRoom :: "ident \<Rightarrow> sidebar \<Rightarrow> sidebar" where
  "handleSelectRoom i sb = go (Open_Room i) sb"

definition handleOpenActionMenu :: "summary \<Rightarrow> sidebar \<Rightarrow> sidebar" where
  "handleOpenActionMenu conv sb = sb\<lparr>sb_actionConv := Some conv, sb_modal := Some Sheet\<rparr>"

definition open_from_sheet :: "sidebar \<Rightarrow> sidebar" where
  "open_from_sheet sb =
     (case sb_actionConv sb of None \<Rightarrow> sb | Some conv \<Rightarrow> handleSelectConv (su_id conv) (closeAllModals sb))"

section \<open>Hiding and locking\<close>

definition add_id :: "ident \<Rightarrow> ident list \<Rightarrow> ident list" where
  "add_id i xs = (if i \<in> set xs then xs else xs @ [i])"

definition hide_now :: "ident \<Rightarrow> sidebar \<Rightarrow> sidebar" where
  "hide_now i sb = closeAllModals (with_store (hideChat i (sb_userId sb)) (sb\<lparr>sb_hidden := add_id i (sb_hidden sb)\<rparr>))"

definition lock_now :: "ident \<Rightarrow> sidebar \<Rightarrow> sidebar" where
  "lock_now i sb = closeAllModals (with_store (lockChat i (sb_userId sb)) (sb\<lparr>sb_locked := add_id i (sb_locked sb)\<rparr>))"

definition run_pending :: "pending_action \<Rightarrow> sidebar \<Rightarrow> sidebar" where
  "run_pending p sb =
     (case p of
        Hide_It i \<Rightarrow> hide_now i sb
      | Lock_It i \<Rightarrow> lock_now i sb
      | Show_Hidden \<Rightarrow> sb\<lparr>sb_hiddenUnlocked := True, sb_showHidden := True\<rparr>
      | Open_It i \<Rightarrow> go (Open_Conversation i) (with_store (setChatSessionUnlocked i True) sb))"

definition handleToggleHide :: "sidebar \<Rightarrow> sidebar" where
  "handleToggleHide sb =
     (case sb_actionConv sb of
        None \<Rightarrow> sb
      | Some conv \<Rightarrow>
          let i = su_id conv
          in if isHiddenConv i sb
             then closeAllModals (with_store (unhideChat i (sb_userId sb))
                    (sb\<lparr>sb_hidden := filter (\<lambda>j. j \<noteq> i) (sb_hidden sb)\<rparr>))
             else if \<not> sb_hasHide sb then ask_setup Hide_Password (Some (Hide_It i)) sb
             else sb\<lparr>sb_unlockError := None, sb_pending := Some (Hide_It i), sb_modal := Some Confirm_Hide\<rparr>)"

definition handleConfirmHideChat :: "'w feature_api \<Rightarrow> string \<Rightarrow> sidebar \<times> 'w \<Rightarrow> sidebar \<times> 'w" where
  "handleConfirmHideChat A password = (\<lambda>(sb, w).
     case sb_actionConv sb of
       None \<Rightarrow> (sb, w)
     | Some conv \<Rightarrow>
         if js_trim password = '''' then (sb, w)
         else case fa_verify A Hide_Password password w of
                (Inr True, w1) \<Rightarrow>
                  let sb1 = sb\<lparr>sb_unlockError := None\<rparr>
                  in (case sb_pending sb of Some p \<Rightarrow> run_pending p sb1 | None \<Rightarrow> hide_now (su_id conv) sb1, w1)
              | (Inr False, w1) \<Rightarrow> (sb\<lparr>sb_unlockError := Some ''Incorrect Hide Chat password. Please try again.''\<rparr>, w1)
              | (Inl e, w1) \<Rightarrow> (sb\<lparr>sb_unlockError := Some (or_text e ''Verification failed. Please try again.'')\<rparr>, w1))"

definition handleToggleLock :: "sidebar \<Rightarrow> sidebar" where
  "handleToggleLock sb =
     (case sb_actionConv sb of
        None \<Rightarrow> sb
      | Some conv \<Rightarrow>
          if isLockedConv (su_id conv) sb then sb\<lparr>sb_modal := Some Remove_Lock\<rparr>
          else if \<not> sb_hasLock sb then ask_setup Lock_Password (Some (Lock_It (su_id conv))) sb
          else lock_now (su_id conv) sb)"

definition handleConfirmUnlockSession :: "'w feature_api \<Rightarrow> string \<Rightarrow> sidebar \<times> 'w \<Rightarrow> sidebar \<times> 'w" where
  "handleConfirmUnlockSession A password = (\<lambda>(sb, w).
     case sb_actionConv sb of
       None \<Rightarrow> (sb, w)
     | Some conv \<Rightarrow>
         if js_trim password = '''' then (sb\<lparr>sb_unlockError := Some ''Password is required.''\<rparr>, w)
         else
           let i = su_id conv; locked = isLockedConv i sb
           in case opens_chat A locked (isHiddenConv i sb) password w of
                (valid, w1) \<Rightarrow>
                  (if valid then go (Open_Conversation i) (closeAllModals (with_store (setChatSessionUnlocked i True) sb))
                   else sb\<lparr>sb_unlockError :=
                     Some (''Incorrect password. Please enter your '' @ feature_label locked @ '' password.'')\<rparr>, w1))"

definition handleToggleHiddenSection :: "sidebar \<Rightarrow> sidebar" where
  "handleToggleHiddenSection sb =
     (if sb_hiddenUnlocked sb then sb\<lparr>sb_showHidden := \<not> sb_showHidden sb\<rparr>
      else if \<not> sb_hasHide sb then ask_setup Hide_Password (Some Show_Hidden) sb
      else sb\<lparr>sb_modal := Some Unlock_Hidden, sb_unlockError := None\<rparr>)"

definition handleConfirmUnlockHiddenSection :: "'w feature_api \<Rightarrow> string \<Rightarrow> sidebar \<times> 'w \<Rightarrow> sidebar \<times> 'w" where
  "handleConfirmUnlockHiddenSection A password = (\<lambda>(sb, w).
     if js_trim password = '''' then (sb\<lparr>sb_unlockError := Some ''Password is required.''\<rparr>, w)
     else case verify_feature A Hide_Password password w of
            (True, w1) \<Rightarrow> (closeAllModals (sb\<lparr>sb_hiddenUnlocked := True, sb_showHidden := True\<rparr>), w1)
          | (False, w1) \<Rightarrow>
              (sb\<lparr>sb_unlockError := Some ''Incorrect password. Please enter your Hide Chat password.''\<rparr>, w1))"

definition sidebar_remove_lock :: "'w feature_api \<Rightarrow> string \<Rightarrow> sidebar \<times> 'w \<Rightarrow> sidebar \<times> 'w" where
  "sidebar_remove_lock A password = (\<lambda>(sb, w).
     case sb_actionConv sb of
       None \<Rightarrow> (sb, w)
     | Some conv \<Rightarrow>
         if js_trim password = '''' then (sb\<lparr>sb_removeLockError := Some ''Password is required.''\<rparr>, w)
         else case verify_feature A Lock_Password password w of
                (True, w1) \<Rightarrow>
                  (closeAllModals (with_store (unlockChatPermanently (su_id conv) (sb_userId sb))
                     (sb\<lparr>sb_locked := filter (\<lambda>j. j \<noteq> su_id conv) (sb_locked sb)\<rparr>)), w1)
              | (False, w1) \<Rightarrow>
                  (sb\<lparr>sb_removeLockError := Some ''Incorrect password. Please enter your Chat Lock password.''\<rparr>, w1))"

section \<open>Blocking and burning\<close>

definition handleConfirmBlock :: "(failure + unit) \<Rightarrow> sidebar \<Rightarrow> sidebar" where
  "handleConfirmBlock answer sb =
     (case sb_actionConv sb of
        None \<Rightarrow> sb
      | Some conv \<Rightarrow>
          let sb1 = ask (if starts_with ''BLOCKED'' (su_status conv) then Post_Unblock (su_id conv) else Post_Block (su_id conv))
                      (sb\<lparr>sb_actionError := None\<rparr>)
          in case answer of
               Inr _ \<Rightarrow> closeAllModals (loadAll sb1)
             | Inl e \<Rightarrow> sb1\<lparr>sb_actionError := Some (or_text e ''Action failed.'')\<rparr>)"

definition handleTriggerBurn :: "sidebar \<Rightarrow> sidebar" where
  "handleTriggerBurn sb =
     (if sb_actionConv sb = None then sb
      else if \<not> sb_hasBurn sb then ask_setup Burn_Password (sb_pending sb) sb
      else sb\<lparr>sb_modal := Some Burn_Modal\<rparr>)"

text \<open>\<open>Inl\<close> is the error thrown by the request.\<close>

definition burn_conv :: "summary \<Rightarrow> string \<Rightarrow> (failure + unit) \<Rightarrow> sidebar \<Rightarrow> failure option \<times> sidebar" where
  "burn_conv conv password answer sb =
     (let sb1 = ask (Post_Burn (su_id conv) password) sb
      in case answer of
           Inl e \<Rightarrow> (Some e, sb1)
         | Inr _ \<Rightarrow>
             let sb2 = loadAll (closeAllModals
                         (with_store (\<lambda>c. clearCachedMessages (su_id conv) None (deleteSession (su_id conv) None c)) sb1))
             in (None, if sb_active sb = Some (su_id conv) then go Chat_Home sb2 else sb2))"

definition handleConfirmBurn :: "string \<Rightarrow> (failure + unit) \<Rightarrow> sidebar \<Rightarrow> sidebar" where
  "handleConfirmBurn password answer sb =
     (case sb_actionConv sb of
        None \<Rightarrow> sb
      | Some conv \<Rightarrow>
          if password = '''' then sb\<lparr>sb_burnError := Some ''Burn password is required.''\<rparr>
          else case burn_conv conv password answer (sb\<lparr>sb_burnError := None\<rparr>) of
                 (None, sb1) \<Rightarrow> sb1
               | (Some e, sb1) \<Rightarrow> sb1\<lparr>sb_burnError :=
                   Some (or_text e ''Failed to burn conversation. Please verify your Burn Password.'')\<rparr>)"

definition handleSetupFeaturePasswordSubmit ::
  "'w feature_api \<Rightarrow> string \<Rightarrow> string \<Rightarrow> (failure + unit) \<Rightarrow> sidebar \<times> 'w \<Rightarrow> sidebar \<times> 'w" where
  "handleSetupFeaturePasswordSubmit A new confirm answer = (\<lambda>(sb, w).
     case sb_setupFeature sb of
       None \<Rightarrow> (sb, w)
     | Some f \<Rightarrow>
         (case new_password_error new confirm of
            Some e \<Rightarrow> (sb\<lparr>sb_setupError := Some e\<rparr>, w)
          | None \<Rightarrow>
              let sb0 = sb\<lparr>sb_setupError := None\<rparr>
              in case set_feature A f new None w of
                   (Inl e, w1) \<Rightarrow> (sb0\<lparr>sb_setupError := Some (or_text e ''Failed to save password.'')\<rparr>, w1)
                 | (Inr _, w1) \<Rightarrow>
                     let sb1 = note_feature f sb0
                     in (case (f, sb_actionConv sb) of
                           (Burn_Password, Some conv) \<Rightarrow>
                             (case burn_conv conv new answer sb1 of
                                (None, sb2) \<Rightarrow> sb2
                              | (Some e, sb2) \<Rightarrow> sb2\<lparr>sb_setupError := Some (or_text e ''Setup failed. Please try again.'')\<rparr>)
                         | _ \<Rightarrow>
                             (case sb_pending sb of
                                Some p \<Rightarrow> run_pending p (sb1\<lparr>sb_pending := None\<rparr>)
                              | None \<Rightarrow> closeAllModals sb1), w1)))"

section \<open>What a user can do\<close>

datatype sidebar_event =
    Loaded "failure + summary list" "failure + room_entry list" "failure + bool \<times> bool \<times> bool"
  | Refresh
  | Active "ident option"
  | Online ident | Offline ident "string option" string | Incoming ident | Lock_Changed
  | Search string
  | Select_Row summary | Select_Result search_hit | Select_Room room_entry | Menu summary
  | Close
  | Sheet_Open | Toggle_Hide | Toggle_Lock | Sheet_Block | Trigger_Burn
  | Toggle_Section
  | Confirm_Unlock string | Confirm_Hide_Chat string | Confirm_Section string | Confirm_Remove string
  | Confirm_Block "failure + unit" | Confirm_Burn string "failure + unit"
  | Confirm_Setup string string "failure + unit"

text \<open>The control of an event is on the screen.\<close>

fun offered :: "sidebar_event \<Rightarrow> sidebar \<Rightarrow> bool" where
  "offered (Select_Row c) sb \<longleftrightarrow> c \<in> set (rows sb)"
| "offered (Menu c) sb \<longleftrightarrow> c \<in> set (rows sb)"
| "offered (Select_Result r) sb \<longleftrightarrow> sb_query sb \<noteq> '''' \<and> r \<in> set (sb_results sb)"
| "offered (Select_Room r) sb \<longleftrightarrow> r \<in> set (visibleRooms sb)"
| "offered Sheet_Open sb \<longleftrightarrow> sb_modal sb = Some Sheet"
| "offered Toggle_Hide sb \<longleftrightarrow> sb_modal sb = Some Sheet"
| "offered Toggle_Lock sb \<longleftrightarrow> sb_modal sb = Some Sheet"
| "offered Sheet_Block sb \<longleftrightarrow> sb_modal sb = Some Sheet"
| "offered Trigger_Burn sb \<longleftrightarrow> sb_modal sb = Some Sheet"
| "offered Toggle_Section sb \<longleftrightarrow> hiddenConversations sb \<noteq> []"
| "offered (Confirm_Unlock p) sb \<longleftrightarrow> sb_modal sb = Some Unlock"
| "offered (Confirm_Hide_Chat p) sb \<longleftrightarrow> sb_modal sb = Some Confirm_Hide"
| "offered (Confirm_Section p) sb \<longleftrightarrow> sb_modal sb = Some Unlock_Hidden"
| "offered (Confirm_Remove p) sb \<longleftrightarrow> sb_modal sb = Some Remove_Lock"
| "offered (Confirm_Block a) sb \<longleftrightarrow> sb_modal sb = Some Block_Modal"
| "offered (Confirm_Burn p a) sb \<longleftrightarrow> sb_modal sb = Some Burn_Modal"
| "offered (Confirm_Setup p q a) sb \<longleftrightarrow> sb_modal sb = Some Setup_Password"
| "offered _ sb \<longleftrightarrow> True"

fun sidebar_react :: "'w feature_api \<Rightarrow> sidebar_event \<Rightarrow> sidebar \<times> 'w \<Rightarrow> sidebar \<times> 'w" where
  "sidebar_react A (Loaded cs rs st) (sb, w) = (loaded cs rs st sb, w)"
| "sidebar_react A Refresh (sb, w) = (loadAll sb, w)"
| "sidebar_react A (Active a) (sb, w) = (on_active a sb, w)"
| "sidebar_react A (Online u) (sb, w) = (onUserOnline u sb, w)"
| "sidebar_react A (Offline u t now) (sb, w) = (onUserOffline u t now sb, w)"
| "sidebar_react A (Incoming i) (sb, w) = (onIncomingMessage i sb, w)"
| "sidebar_react A Lock_Changed (sb, w) = (onLockStateChanged sb, w)"
| "sidebar_react A (Search t) (sb, w) = (onSearchChange t sb, w)"
| "sidebar_react A (Select_Row c) (sb, w) = (handleSelectConv (su_id c) sb, w)"
| "sidebar_react A (Select_Result r) (sb, w) = (handleSelectConv (cm_conversationId (sr_message r)) sb, w)"
| "sidebar_react A (Select_Room r) (sb, w) = (handleSelectRoom (ru_id r) sb, w)"
| "sidebar_react A (Menu c) (sb, w) = (handleOpenActionMenu c sb, w)"
| "sidebar_react A Close (sb, w) = (closeAllModals sb, w)"
| "sidebar_react A Sheet_Open (sb, w) = (open_from_sheet sb, w)"
| "sidebar_react A Toggle_Hide (sb, w) = (handleToggleHide sb, w)"
| "sidebar_react A Toggle_Lock (sb, w) = (handleToggleLock sb, w)"
| "sidebar_react A Sheet_Block (sb, w) = (sb\<lparr>sb_modal := Some Block_Modal\<rparr>, w)"
| "sidebar_react A Trigger_Burn (sb, w) = (handleTriggerBurn sb, w)"
| "sidebar_react A Toggle_Section (sb, w) = (handleToggleHiddenSection sb, w)"
| "sidebar_react A (Confirm_Unlock p) s = handleConfirmUnlockSession A p s"
| "sidebar_react A (Confirm_Hide_Chat p) s = handleConfirmHideChat A p s"
| "sidebar_react A (Confirm_Section p) s = handleConfirmUnlockHiddenSection A p s"
| "sidebar_react A (Confirm_Remove p) s = sidebar_remove_lock A p s"
| "sidebar_react A (Confirm_Block a) (sb, w) = (handleConfirmBlock a sb, w)"
| "sidebar_react A (Confirm_Burn p a) (sb, w) = (handleConfirmBurn p a sb, w)"
| "sidebar_react A (Confirm_Setup p q a) s = handleSetupFeaturePasswordSubmit A p q a s"

definition sidebar_step :: "'w feature_api \<Rightarrow> sidebar_event \<Rightarrow> sidebar \<times> 'w \<Rightarrow> sidebar \<times> 'w" where
  "sidebar_step A e s = (if offered e (fst s) then sidebar_react A e s else s)"

section \<open>The lists of hidden and locked chats in the store\<close>

abbreviation hid :: "ident option \<Rightarrow> client \<Rightarrow> ident set" where
  "hid u c \<equiv> set (getHiddenChatIds u c)"

abbreviation lkd :: "ident option \<Rightarrow> client \<Rightarrow> ident set" where
  "lkd u c \<equiv> set (fst (getLockedChatIds u c))"

definition guard_key :: "string \<Rightarrow> bool" where
  "guard_key k \<longleftrightarrow> starts_with ''hiddenChats:'' k \<or> starts_with ''chatLock:'' k"

definition same_guards :: "ident option \<Rightarrow> client \<Rightarrow> client \<Rightarrow> bool" where
  "same_guards u c c' \<longleftrightarrow>
     hid u c' = hid u c \<and> lkd u c' = lkd u c \<and> (\<forall>i. isChatSessionUnlocked i c' = isChatSessionUnlocked i c)"

lemma same_guards_refl [simp]: "same_guards u c c"
  by (simp add: same_guards_def)

lemma same_guards_trans: "same_guards u a b \<Longrightarrow> same_guards u b c \<Longrightarrow> same_guards u a c"
  by (simp add: same_guards_def)

lemma guard_keys: "guard_key (hidden_key u)" "guard_key (locked_key u)" "guard_key ''chatLock:default:lockedList''"
  by (simp_all add: guard_key_def hidden_key_def locked_key_def key1_def key2_def starts_with_def split: option.splits)

lemma get_other: "k \<noteq> k' \<Longrightarrow> idbGet as k (idbSet k' v c) = idbGet as k c"
  "k \<noteq> k' \<Longrightarrow> idbGet as k (idbDelete k' c) = idbGet as k c"
  by (simp_all add: idbGet_def idbSet_def idbDelete_def)

lemma lkd_eq: "lkd u c = set (or_empty (idbGet as_ids (locked_key u) c)) \<union>
    (if given u = None then {} else set (or_empty (idbGet as_ids ''chatLock:default:lockedList'' c)))"
  by (auto simp: getLockedChatIds_def Let_def split: option.splits list.splits)

lemma unlocked_kv [simp]: "isChatSessionUnlocked i (idbSet k v c) = isChatSessionUnlocked i c"
  "isChatSessionUnlocked i (idbDelete k c) = isChatSessionUnlocked i c"
  "isChatSessionUnlocked i (c\<lparr>cl_activeCrypto := a\<rparr>) = isChatSessionUnlocked i c"
  by (simp_all add: isChatSessionUnlocked_def idbSet_def idbDelete_def)

lemma same_guards_write:
  assumes "\<not> guard_key k"
  shows "same_guards u c (idbSet k v c') \<longleftrightarrow> same_guards u c c'" "same_guards u c (idbDelete k c') \<longleftrightarrow> same_guards u c c'"
proof -
  have ne: "hidden_key u \<noteq> k" "locked_key u \<noteq> k" "''chatLock:default:lockedList'' \<noteq> k"
    using assms guard_keys by metis+
  show "same_guards u c (idbSet k v c') \<longleftrightarrow> same_guards u c c'" "same_guards u c (idbDelete k c') \<longleftrightarrow> same_guards u c c'"
    by (simp_all add: same_guards_def lkd_eq getHiddenChatIds_def get_other ne)
qed

lemma same_guards_active [simp]: "same_guards u c (c'\<lparr>cl_activeCrypto := a\<rparr>) \<longleftrightarrow> same_guards u c c'"
  by (simp add: same_guards_def lkd_eq getHiddenChatIds_def idbGet_def)

lemma other_keys [simp]:
  "\<not> guard_key (session_key a x)" "\<not> guard_key (messages_key a x)" "\<not> guard_key (key2 ''session:'' a x)"
  "\<not> guard_key (key1 ''session:'' x)" "\<not> guard_key (key2 ''messageCache:'' a x)" "\<not> guard_key (key1 ''messageCache:'' x)"
  by (simp_all add: guard_key_def session_key_def messages_key_def key1_def key2_def starts_with_def)

lemma same_guards_resolve: "same_guards u c c' \<Longrightarrow> same_guards u c (snd (resolveCryptoUserId e c'))"
  by (auto simp: resolveCryptoUserId_def split: option.splits)

lemma same_guards_as_user:
  assumes "\<And>x d. same_guards u c d \<Longrightarrow> same_guards u c (snd (k x d))" "same_guards u c c'"
  shows "same_guards u c (snd (as_user e r k c'))"
  using assms same_guards_resolve [of u c c' e] by (auto simp: as_user_def split: prod.splits option.splits)

lemma same_guards_drop: "same_guards u c (clearCachedMessages i None (deleteSession i None c))"
proof -
  have d: "same_guards u c (deleteSession i None c)"
    unfolding deleteSession_def same_guards_write(2) [OF other_keys(4)]
    by (rule same_guards_as_user) (simp_all add: same_guards_write)
  show ?thesis
    unfolding clearCachedMessages_def same_guards_write(2) [OF other_keys(6)]
    by (rule same_guards_as_user [OF _ d]) (simp add: same_guards_write)
qed

lemma same_guards_cached: "same_guards u c (snd (getCachedMessages i (Some a) c))"
  unfolding getCachedMessages_def
  by (rule same_guards_as_user)
    (auto simp: read_migrating_def case_prod_unfold same_guards_write split: option.splits)

lemma same_guards_search: "same_guards u c (snd (searchLocalMessages is q c))"
proof -
  have s: "same_guards u c (snd (search_all a t js c'))" if "same_guards u c c'" for a t js c'
    using that
  proof (induction js arbitrary: c')
    case (Cons j js)
    from Cons.IH [OF same_guards_trans [OF Cons.prems same_guards_cached [where i = j and a = a]]]
    show ?case by (simp add: case_prod_unfold)
  qed simp
  show ?thesis
    using same_guards_resolve [OF same_guards_refl, of u c None] s
    by (auto simp: searchLocalMessages_def Let_def case_prod_unfold split: option.splits)
qed

lemma same_guards_locked_read: "same_guards u c (snd (getLockedChatIds u c))"
proof (cases "given u = None \<or> or_empty (idbGet as_ids ''chatLock:default:lockedList'' c) = []")
  case False
  let ?D = "or_empty (idbGet as_ids ''chatLock:default:lockedList'' c)"
  let ?m = "js_set (or_empty (idbGet as_ids (locked_key u) c) @ ?D)"
  have c': "snd (getLockedChatIds u c) = idbSet (locked_key u) (V_Ids ?m) c"
    using False by (auto simp: getLockedChatIds_def Let_def split: option.splits list.splits)
  have "hidden_key u \<noteq> locked_key u"
    by (auto simp: hidden_key_def locked_key_def key1_def key2_def split: option.splits)
  then have "hid u (idbSet (locked_key u) (V_Ids ?m) c) = hid u c" by (simp add: getHiddenChatIds_def get_other)
  moreover have "lkd u (idbSet (locked_key u) (V_Ids ?m) c) = lkd u c"
    unfolding lkd_eq using False
    by (cases "locked_key u = ''chatLock:default:lockedList''")
      (auto simp: idbGet_def idbSet_def or_empty_def split: option.splits)
  ultimately show ?thesis unfolding c' by (simp add: same_guards_def)
qed (auto simp: getLockedChatIds_def Let_def split: option.splits list.splits)

lemma hidden_ne_locked: "hidden_key u \<noteq> locked_key u" "hidden_key u \<noteq> ''chatLock:default:lockedList''"
  by (auto simp: hidden_key_def locked_key_def key1_def key2_def split: option.splits)

lemma hid_write: "hid u (idbSet (hidden_key u) (V_Ids xs) c) = set xs"
  by (simp add: getHiddenChatIds_def idbGet_def idbSet_def or_empty_def)

lemma lkd_hidden_write: "lkd u (idbSet (hidden_key u) v c) = lkd u c"
  using hidden_ne_locked [of u] by (simp add: lkd_eq get_other)

lemma hideChat_guards:
  "hid u (hideChat j u c) = insert j (hid u c)" "lkd u (hideChat j u c) = lkd u c"
  "isChatSessionUnlocked i (hideChat j u c) = isChatSessionUnlocked i c"
  using hid_write [of u] lkd_hidden_write [of u] by (auto simp: hideChat_def Let_def)

lemma unhideChat_guards:
  "hid u (unhideChat j u c) = hid u c - {j}" "lkd u (unhideChat j u c) = lkd u c"
  "isChatSessionUnlocked i (unhideChat j u c) = isChatSessionUnlocked i c"
  using hid_write [of u] lkd_hidden_write [of u] by (auto simp: unhideChat_def)

lemma lkd_locked_write:
  assumes "set (or_empty (idbGet as_ids ''chatLock:default:lockedList'' c)) \<subseteq> set xs \<or> given u = None"
  shows "lkd u (idbSet (locked_key u) (V_Ids xs) c) = set xs"
  using assms unfolding lkd_eq
  by (cases "locked_key u = ''chatLock:default:lockedList''") (auto simp: idbGet_def idbSet_def or_empty_def)

lemma default_locked_read:
  "set (or_empty (idbGet as_ids ''chatLock:default:lockedList'' (snd (getLockedChatIds u c)))) \<subseteq> lkd u c \<or> given u = None"
  using same_guards_locked_read [of u c] lkd_eq [of u "snd (getLockedChatIds u c)"] by (auto simp: same_guards_def)

lemma unlocked_off: "isChatSessionUnlocked i (setChatSessionUnlocked j False c) \<longleftrightarrow> i \<noteq> j \<and> isChatSessionUnlocked i c"
  by (auto simp: isChatSessionUnlocked_def setChatSessionUnlocked_def unlocked_name_def key1_def)

lemma guards_off [simp]: "hid u (setChatSessionUnlocked j b c) = hid u c" "lkd u (setChatSessionUnlocked j b c) = lkd u c"
  by (simp_all add: setChatSessionUnlocked_def lkd_eq getHiddenChatIds_def idbGet_def)

lemma lockChat_guards:
  "hid u (lockChat j u c) = hid u c" "lkd u (lockChat j u c) = insert j (lkd u c)"
  "isChatSessionUnlocked i (lockChat j u c) \<longleftrightarrow> i \<noteq> j \<and> isChatSessionUnlocked i c"
proof -
  let ?cur = "fst (getLockedChatIds u c)" and ?c = "snd (getLockedChatIds u c)"
  have s: "same_guards u c ?c" by (rule same_guards_locked_read)
  have w: "lkd u (idbSet (locked_key u) (V_Ids (?cur @ [j])) ?c) = set (?cur @ [j])"
    using default_locked_read [of u c] by (intro lkd_locked_write) auto
  have h: "hid u (idbSet (locked_key u) v ?c) = hid u c" for v
    using hidden_ne_locked [of u] s by (simp add: getHiddenChatIds_def get_other same_guards_def)
  show "hid u (lockChat j u c) = hid u c" using s h by (simp add: lockChat_def case_prod_unfold same_guards_def)
  show "lkd u (lockChat j u c) = insert j (lkd u c)"
    using s w by (auto simp: lockChat_def case_prod_unfold same_guards_def)
  show "isChatSessionUnlocked i (lockChat j u c) \<longleftrightarrow> i \<noteq> j \<and> isChatSessionUnlocked i c"
    using s by (auto simp: lockChat_def case_prod_unfold unlocked_off same_guards_def)
qed

section \<open>Guarded chats stay shut\<close>

text \<open>A chat \<open>i\<close> that is hidden, or with \<open>h = False\<close> hidden or locked, is not unlocked
  and has not been opened, on a sidebar whose lists are those of the store.\<close>

definition shut :: "bool \<Rightarrow> ident \<Rightarrow> sidebar \<Rightarrow> bool" where
  "shut h i sb \<longleftrightarrow>
     (i \<in> hid (sb_userId sb) (sb_store sb) \<or> \<not> h \<and> i \<in> lkd (sb_userId sb) (sb_store sb)) \<and>
     \<not> isChatSessionUnlocked i (sb_store sb) \<and> \<not> sb_hiddenUnlocked sb \<and> Open_Conversation i \<notin> set (sb_went sb)"

definition in_step :: "ident \<Rightarrow> sidebar \<Rightarrow> bool" where
  "in_step i sb \<longleftrightarrow>
     (if sb_conversations sb = [] then sb_actionConv sb = None \<and> sb_results sb = []
      else i \<in> su_id ` set (sb_conversations sb) \<and> set (sb_hidden sb) = hid (sb_userId sb) (sb_store sb) \<and>
        set (sb_locked sb) = lkd (sb_userId sb) (sb_store sb)) \<and>
     (sb_modal sb = Some Sheet \<longrightarrow>
        (\<forall>c. sb_actionConv sb = Some c \<longrightarrow> su_id c \<notin> hid (sb_userId sb) (sb_store sb))) \<and>
     (sb_setupFeature sb = Some Burn_Password \<longrightarrow> sb_actionConv sb \<noteq> None)"

fun typed_at_sidebar :: "sidebar_event \<Rightarrow> string option" where
  "typed_at_sidebar (Confirm_Unlock p) = Some p"
| "typed_at_sidebar (Confirm_Hide_Chat p) = Some p"
| "typed_at_sidebar (Confirm_Section p) = Some p"
| "typed_at_sidebar (Confirm_Remove p) = Some p"
| "typed_at_sidebar _ = None"

fun keeps_listing :: "ident \<Rightarrow> sidebar_event \<Rightarrow> bool" where
  "keeps_listing i (Loaded cs rs st) \<longleftrightarrow> (\<exists>xs. cs = Inr xs \<and> i \<in> su_id ` set xs)"
| "keeps_listing i _ \<longleftrightarrow> True"

lemma shut_select:
  assumes "shut h i sb" "in_step i sb" "sb_conversations sb \<noteq> []"
  shows "shut h i (handleSelectConv j sb) \<and> in_step i (handleSelectConv j sb)"
proof (cases "j = i")
  case True
  then obtain conv where "find (\<lambda>c. su_id c = j) (sb_conversations sb) = Some conv"
    using assms(2,3) by (cases "find (\<lambda>c. su_id c = j) (sb_conversations sb)") (auto simp: in_step_def find_None_iff)
  then show ?thesis using assms True
    by (auto simp: shut_def in_step_def handleSelectConv_def isLockedConv_def isHiddenConv_def Let_def ask_setup_def
        guarding_feature_def)
next
  case False
  then show ?thesis using assms
    by (auto simp: shut_def in_step_def handleSelectConv_def go_def Let_def ask_setup_def guarding_feature_def
        split: option.splits)
qed

lemmas shut_defs = shut_def in_step_def

lemma shut_close: "shut h i sb \<Longrightarrow> shut h i (closeAllModals sb)" "in_step i sb \<Longrightarrow> in_step i (closeAllModals sb)"
  by (auto simp: shut_defs closeAllModals_def)

lemma shut_hide_now: "shut h i sb \<and> in_step i sb \<Longrightarrow> sb_conversations sb \<noteq> [] \<Longrightarrow>
    shut h i (hide_now j sb) \<and> in_step i (hide_now j sb)"
  by (auto simp: shut_defs hide_now_def closeAllModals_def with_store_def add_id_def hideChat_guards)

lemma shut_lock_now: "shut h i sb \<and> in_step i sb \<Longrightarrow> sb_conversations sb \<noteq> [] \<Longrightarrow>
    shut h i (lock_now j sb) \<and> in_step i (lock_now j sb)"
  by (auto simp: shut_defs lock_now_def closeAllModals_def with_store_def add_id_def lockChat_guards)

lemma in_step_action: "in_step i sb \<Longrightarrow> sb_actionConv sb = Some c \<Longrightarrow> sb_conversations sb \<noteq> []"
  by (auto simp: in_step_def)

lemma shut_loaded:
  assumes "shut h i sb" "in_step i sb" "keeps_listing i (Loaded cs rs st)"
  shows "shut h i (loaded cs rs st sb) \<and> in_step i (loaded cs rs st sb)"
proof -
  obtain xs where xs: "cs = Inr xs" "i \<in> su_id ` set xs" using assms(3) by auto
  have s: "same_guards (sb_userId sb) (sb_store sb) (snd (getLockedChatIds (sb_userId sb) (sb_store sb)))"
    by (rule same_guards_locked_read)
  show ?thesis using assms(1,2) s xs
    by (auto simp: shut_defs loaded_def case_prod_unfold announce_def or_nothing_def same_guards_def)
qed

lemma shut_lock_changed:
  assumes "shut h i sb" "in_step i sb"
  shows "shut h i (onLockStateChanged sb) \<and> in_step i (onLockStateChanged sb)"
  using assms same_guards_locked_read [of "sb_userId sb" "sb_store sb"]
  by (auto simp: shut_defs onLockStateChanged_def case_prod_unfold same_guards_def)

lemma shut_search:
  assumes "shut h i sb" "in_step i sb"
  shows "shut h i (onSearchChange t sb) \<and> in_step i (onSearchChange t sb)"
proof (cases "t = '''' \<or> searchable sb = []")
  case True
  then show ?thesis using assms by (auto simp: shut_defs onSearchChange_def)
next
  case False
  then have ne: "sb_conversations sb \<noteq> []" by (auto simp: searchable_def)
  obtain rs c where r: "searchLocalMessages (searchable sb) t (sb_store sb) = (rs, c)" by (rule prod.exhaust)
  have "same_guards (sb_userId sb) (sb_store sb) c"
    using same_guards_search [of "sb_userId sb" "sb_store sb" "searchable sb" t] by (simp add: r)
  then show ?thesis using assms False ne by (simp add: shut_defs onSearchChange_def r same_guards_def)
qed

lemma shut_lists:
  assumes "shut h i sb" "in_step i sb"
  shows "shut h i (on_active a sb) \<and> in_step i (on_active a sb)"
    "shut h i (onUserOnline u sb) \<and> in_step i (onUserOnline u sb)"
    "shut h i (onUserOffline u t now sb) \<and> in_step i (onUserOffline u t now sb)"
    "shut h i (onIncomingMessage j sb) \<and> in_step i (onIncomingMessage j sb)"
proof -
  have m: "su_id (map_contact u f c) = su_id c" for f c by (simp add: map_contact_def split: option.splits)
  have k: "su_id ` set (map f xs) = su_id ` set xs" if "\<And>c. su_id (f c) = su_id c" for f :: "summary \<Rightarrow> summary" and xs
    using that by (auto simp: image_iff) 
  have upd: "shut h i (sb\<lparr>sb_conversations := map f (sb_conversations sb)\<rparr>) \<and>
      in_step i (sb\<lparr>sb_conversations := map f (sb_conversations sb)\<rparr>)" if "\<And>c. su_id (f c) = su_id c" for f
    using assms k [OF that] by (auto simp: shut_defs)
  have ann: "shut h i (announce x) = shut h i x" "in_step i (announce x) = in_step i x" for x
    by (simp_all add: shut_defs announce_def)
  have act: "shut h i (x\<lparr>sb_active := b\<rparr>) = shut h i x" "in_step i (x\<lparr>sb_active := b\<rparr>) = in_step i x" for x b
    by (simp_all add: shut_defs)
  have swap: "x\<lparr>sb_active := b, sb_conversations := xs\<rparr> = x\<lparr>sb_conversations := xs\<rparr>\<lparr>sb_active := b\<rparr>" for x b xs
    by simp
  show "shut h i (onUserOnline u sb) \<and> in_step i (onUserOnline u sb)"
    "shut h i (onUserOffline u t now sb) \<and> in_step i (onUserOffline u t now sb)"
    unfolding onUserOnline_def onUserOffline_def by (rule upd, simp add: m)+
  show "shut h i (onIncomingMessage j sb) \<and> in_step i (onIncomingMessage j sb)"
    using assms upd [of "\<lambda>c. if su_id c = j then c\<lparr>su_unreadCount := Some (unread c + 1)\<rparr> else c"]
    by (simp add: onIncomingMessage_def ann)
  show "shut h i (on_active a sb) \<and> in_step i (on_active a sb)"
    unfolding on_active_def Let_def swap
    using assms upd by (auto simp: ann act split: option.splits)
qed

lemma shut_menu:
  assumes "shut h i sb" "in_step i sb"
  shows "c \<in> set (rows sb) \<Longrightarrow> shut h i (handleOpenActionMenu c sb) \<and> in_step i (handleOpenActionMenu c sb)"
    "sb_modal sb = Some Sheet \<Longrightarrow> shut h i (handleToggleHide sb) \<and> in_step i (handleToggleHide sb)"
    "shut h i (handleToggleLock sb) \<and> in_step i (handleToggleLock sb)"
    "shut h i (handleTriggerBurn sb) \<and> in_step i (handleTriggerBurn sb)"
    "shut h i (handleToggleHiddenSection sb) \<and> in_step i (handleToggleHiddenSection sb)"
    "shut h i (open_from_sheet sb) \<and> in_step i (open_from_sheet sb)"
proof -
  note a = assms
  show "c \<in> set (rows sb) \<Longrightarrow> shut h i (handleOpenActionMenu c sb) \<and> in_step i (handleOpenActionMenu c sb)"
    using a by (auto simp: shut_defs handleOpenActionMenu_def rows_def visibleConversations_def split: if_splits)
  show "shut h i (handleToggleLock sb) \<and> in_step i (handleToggleLock sb)"
    using a in_step_action [OF a(2)] shut_lock_now [where i = i and sb = sb]
    by (auto simp: handleToggleLock_def split: option.splits) (auto simp: shut_defs ask_setup_def)
  show "shut h i (handleTriggerBurn sb) \<and> in_step i (handleTriggerBurn sb)"
    "shut h i (handleToggleHiddenSection sb) \<and> in_step i (handleToggleHiddenSection sb)"
    using a by (auto simp: shut_defs handleTriggerBurn_def handleToggleHiddenSection_def ask_setup_def)
  show "shut h i (open_from_sheet sb) \<and> in_step i (open_from_sheet sb)"
  proof (cases "sb_actionConv sb")
    case (Some conv)
    have ne: "sb_conversations (closeAllModals sb) \<noteq> []"
      using in_step_action [OF a(2) Some] by (simp add: closeAllModals_def)
    show ?thesis
      using shut_select [OF shut_close(1) [OF a(1)] shut_close(2) [OF a(2)] ne] by (simp add: open_from_sheet_def Some)
  qed (use a in \<open>simp add: open_from_sheet_def\<close>)
  show "shut h i (handleToggleHide sb) \<and> in_step i (handleToggleHide sb)" if "sb_modal sb = Some Sheet"
  proof (cases "sb_actionConv sb")
    case (Some conv)
    have ne: "sb_conversations sb \<noteq> []" using in_step_action [OF a(2) Some] .
    then have "\<not> isHiddenConv (su_id conv) sb" using a(2) Some that by (auto simp: in_step_def isHiddenConv_def)
    then show ?thesis using a ne Some by (auto simp: handleToggleHide_def Let_def) (auto simp: shut_defs ask_setup_def)
  qed (use a in \<open>simp add: handleToggleHide_def\<close>)
qed

lemma shut_burn_conv:
  assumes "shut h i sb" "in_step i sb"
  shows "shut h i (snd (burn_conv conv p a sb)) \<and> in_step i (snd (burn_conv conv p a sb))"
  using assms same_guards_drop [of "sb_userId sb" "sb_store sb" "su_id conv"]
  by (auto simp: shut_defs burn_conv_def Let_def ask_def loadAll_def closeAllModals_def with_store_def go_def same_guards_def
      split: sum.splits)

lemma shut_block_burn:
  assumes "shut h i sb" "in_step i sb"
  shows "shut h i (handleConfirmBlock a sb) \<and> in_step i (handleConfirmBlock a sb)"
    "shut h i (handleConfirmBurn p a sb) \<and> in_step i (handleConfirmBurn p a sb)"
proof -
  show "shut h i (handleConfirmBlock a sb) \<and> in_step i (handleConfirmBlock a sb)"
    using assms by (auto simp: shut_defs handleConfirmBlock_def Let_def ask_def loadAll_def closeAllModals_def
        split: option.splits sum.splits)
  show "shut h i (handleConfirmBurn p a sb) \<and> in_step i (handleConfirmBurn p a sb)"
  proof (cases "sb_actionConv sb")
    case (Some conv)
    have e: "shut h i (x\<lparr>sb_burnError := z\<rparr>) = shut h i x" "in_step i (x\<lparr>sb_burnError := z\<rparr>) = in_step i x" for x z
      by (simp_all add: shut_defs)
    have b: "shut h i (snd (burn_conv conv p a (sb\<lparr>sb_burnError := None\<rparr>))) \<and>
        in_step i (snd (burn_conv conv p a (sb\<lparr>sb_burnError := None\<rparr>)))"
      using assms by (intro shut_burn_conv) (simp_all add: e)
    show ?thesis using assms b
      by (cases "burn_conv conv p a (sb\<lparr>sb_burnError := None\<rparr>)")
        (auto simp: handleConfirmBurn_def Some e split: option.splits)
  qed (use assms in \<open>simp add: handleConfirmBurn_def\<close>)
qed

context password_keeper
begin

definition same_passwords :: "'w \<Rightarrow> 'w \<Rightarrow> bool" where
  "same_passwords w w' \<longleftrightarrow>
     (\<forall>f. f \<noteq> Burn_Password \<longrightarrow> established f w' = established f w \<and> (\<forall>p. accepts f p w' = accepts f p w))"

lemma same_passwords_refl: "same_passwords w w"
  by (simp add: same_passwords_def)

lemma shut_setup:
  assumes "shut h i sb" "in_step i sb" "established Lock_Password w" "established Hide_Password w"
  shows "case handleSetupFeaturePasswordSubmit A p q a (sb, w) of (sb', w') \<Rightarrow>
    shut h i sb' \<and> in_step i sb' \<and> same_passwords w w'"
proof -
  have e: "shut h i (x\<lparr>sb_setupError := z\<rparr>) = shut h i x" "in_step i (x\<lparr>sb_setupError := z\<rparr>) = in_step i x" for x z
    by (simp_all add: shut_defs)
  have b: "shut h i (x\<lparr>sb_hasBurn := z\<rparr>) = shut h i x" "in_step i (x\<lparr>sb_hasBurn := z\<rparr>) = in_step i x" for x z
    by (simp_all add: shut_defs)
  show ?thesis
  proof (cases "sb_setupFeature sb")
    case None
    then show ?thesis using assms by (simp add: handleSetupFeaturePasswordSubmit_def same_passwords_refl)
  next
    case (Some f)
    show ?thesis
    proof (cases "new_password_error p q")
      case None
      show ?thesis
      proof (cases "f = Burn_Password")
        case True
        then obtain conv where conv: "sb_actionConv sb = Some conv" using assms(2) Some by (auto simp: in_step_def)
        obtain r w1 where r: "set_feature A Burn_Password p None w = (r, w1)" by (rule prod.exhaust)
        have w1: "w1 = snd (fa_set A Burn_Password p None w)"
          using r by (auto simp: set_feature_def split: prod.splits sum.splits bool.splits)
        have k: "same_passwords w w1" using others_kept by (simp add: same_passwords_def w1)
        let ?sb = "note_feature Burn_Password (sb\<lparr>sb_setupError := None\<rparr>)"
        have "shut h i (snd (burn_conv conv p a ?sb)) \<and> in_step i (snd (burn_conv conv p a ?sb))"
          using assms(1,2) by (intro shut_burn_conv) (simp_all add: note_feature_def e b)
        then show ?thesis
          using assms(1,2) k r True Some None conv
          by (cases r; cases "burn_conv conv p a ?sb")
            (auto simp: handleSetupFeaturePasswordSubmit_def Let_def e note_feature_def split: option.splits)
      next
        case False
        then have "established f w" using assms(3,4) by (cases f) auto
        then obtain x where "set_feature A f p None w = (Inl x, w)" using set_refused [of f w p] by blast
        then show ?thesis using assms(1,2) Some None
          by (simp add: handleSetupFeaturePasswordSubmit_def Let_def e same_passwords_refl)
      qed
    qed (use assms Some in \<open>simp add: handleSetupFeaturePasswordSubmit_def e same_passwords_refl\<close>)
  qed
qed

lemma shut_refused:
  assumes "shut h i sb" "in_step i sb" "\<not> accepts Lock_Password p w" "\<not> accepts Hide_Password p w"
  shows "\<exists>x. handleConfirmUnlockSession A p (sb, w) = (sb\<lparr>sb_unlockError := x\<rparr>, w)"
    "\<exists>x. handleConfirmUnlockHiddenSection A p (sb, w) = (sb\<lparr>sb_unlockError := x\<rparr>, w)"
    "\<exists>x. sidebar_remove_lock A p (sb, w) = (sb\<lparr>sb_removeLockError := x\<rparr>, w)"
    "\<exists>x. handleConfirmHideChat A p (sb, w) = (sb\<lparr>sb_unlockError := x\<rparr>, w)"
proof -
  have id: "\<exists>x. sb = sb\<lparr>sb_unlockError := x\<rparr>" "\<exists>x. sb = sb\<lparr>sb_removeLockError := x\<rparr>"
    by (rule exI [of _ "sb_unlockError sb"], simp) (rule exI [of _ "sb_removeLockError sb"], simp)
  have no: "\<not> accepts (guarding_feature b) p w" for b using assms(3,4) by (simp add: guarding_feature_def)
  show "\<exists>x. handleConfirmUnlockSession A p (sb, w) = (sb\<lparr>sb_unlockError := x\<rparr>, w)"
    using no assms(4) by (auto simp: id handleConfirmUnlockSession_def opens Let_def split: option.splits)
  show "\<exists>x. handleConfirmUnlockHiddenSection A p (sb, w) = (sb\<lparr>sb_unlockError := x\<rparr>, w)"
    using assms(4) by (auto simp: handleConfirmUnlockHiddenSection_def verify)
  show "\<exists>x. sidebar_remove_lock A p (sb, w) = (sb\<lparr>sb_removeLockError := x\<rparr>, w)"
    using assms(3) by (auto simp: id sidebar_remove_lock_def verify split: option.splits)
  have v: "fst (fa_verify A Hide_Password p w) \<noteq> Inr True" "snd (fa_verify A Hide_Password p w) = w"
    using verify_tells [of Hide_Password p w] verify_keeps [of Hide_Password p w] assms(4) by auto
  show "\<exists>x. handleConfirmHideChat A p (sb, w) = (sb\<lparr>sb_unlockError := x\<rparr>, w)"
    using v by (cases "fa_verify A Hide_Password p w")
      (auto simp: id handleConfirmHideChat_def split: option.splits sum.splits bool.splits)
qed

lemma shut_errors [simp]:
  "shut h i (x\<lparr>sb_unlockError := z\<rparr>) = shut h i x" "in_step i (x\<lparr>sb_unlockError := z\<rparr>) = in_step i x"
  "shut h i (x\<lparr>sb_removeLockError := z\<rparr>) = shut h i x" "in_step i (x\<lparr>sb_removeLockError := z\<rparr>) = in_step i x"
  by (simp_all add: shut_defs)

lemma shut_refusals:
  assumes start: "shut h i sb" "in_step i sb" and wrong: "\<not> accepts Lock_Password p w \<and> \<not> accepts Hide_Password p w"
  shows "case handleConfirmUnlockSession A p (sb, w) of (sb', w') \<Rightarrow> shut h i sb' \<and> in_step i sb' \<and> same_passwords w w'"
    "case handleConfirmUnlockHiddenSection A p (sb, w) of (sb', w') \<Rightarrow> shut h i sb' \<and> in_step i sb' \<and> same_passwords w w'"
    "case sidebar_remove_lock A p (sb, w) of (sb', w') \<Rightarrow> shut h i sb' \<and> in_step i sb' \<and> same_passwords w w'"
    "case handleConfirmHideChat A p (sb, w) of (sb', w') \<Rightarrow> shut h i sb' \<and> in_step i sb' \<and> same_passwords w w'"
proof -
  have w: "\<not> accepts Lock_Password p w" "\<not> accepts Hide_Password p w" using wrong by simp_all
  have k: "shut h i (sb\<lparr>sb_unlockError := x\<rparr>) \<and> in_step i (sb\<lparr>sb_unlockError := x\<rparr>) \<and> same_passwords w w"
    "shut h i (sb\<lparr>sb_removeLockError := x\<rparr>) \<and> in_step i (sb\<lparr>sb_removeLockError := x\<rparr>) \<and> same_passwords w w" for x
    using start same_passwords_refl [of w] by simp_all
  note r = shut_refused [OF start w]
  show "case handleConfirmUnlockSession A p (sb, w) of (sb', w') \<Rightarrow> shut h i sb' \<and> in_step i sb' \<and> same_passwords w w'"
    using r(1) by (elim exE) (simp only: prod.case k)
  show "case handleConfirmUnlockHiddenSection A p (sb, w) of (sb', w') \<Rightarrow> shut h i sb' \<and> in_step i sb' \<and> same_passwords w w'"
    using r(2) by (elim exE) (simp only: prod.case k)
  show "case sidebar_remove_lock A p (sb, w) of (sb', w') \<Rightarrow> shut h i sb' \<and> in_step i sb' \<and> same_passwords w w'"
    using r(3) by (elim exE) (simp only: prod.case k)
  show "case handleConfirmHideChat A p (sb, w) of (sb', w') \<Rightarrow> shut h i sb' \<and> in_step i sb' \<and> same_passwords w w'"
    using r(4) by (elim exE) (simp only: prod.case k)
qed

lemma sidebar_step_shut:
  assumes start: "shut h i sb" "in_step i sb" "established Lock_Password w" "established Hide_Password w"
    and wrong: "\<And>p. typed_at_sidebar e = Some p \<Longrightarrow> \<not> accepts Lock_Password p w \<and> \<not> accepts Hide_Password p w"
    and listed: "keeps_listing i e"
  shows "case sidebar_step A e (sb, w) of (sb', w') \<Rightarrow> shut h i sb' \<and> in_step i sb' \<and> same_passwords w w'"
proof (cases "offered e sb")
  case False
  then show ?thesis using start by (simp add: sidebar_step_def same_passwords_refl)
next
  case True
  have quiet: "shut h i (loadAll sb) \<and> in_step i (loadAll sb)"
    "shut h i (handleSelectRoom r sb) \<and> in_step i (handleSelectRoom r sb)"
    "shut h i (sb\<lparr>sb_modal := Some Block_Modal\<rparr>) \<and> in_step i (sb\<lparr>sb_modal := Some Block_Modal\<rparr>)" for r
    using start(1,2) by (simp_all add: shut_defs loadAll_def ask_def handleSelectRoom_def go_def)
  have row: "shut h i (handleSelectConv (su_id c) sb) \<and> in_step i (handleSelectConv (su_id c) sb)" if "c \<in> set (rows sb)" for c
    using that by (intro shut_select start)
      (auto simp: rows_def visibleConversations_def hiddenConversations_def split: if_splits)
  have hit: "shut h i (handleSelectConv (cm_conversationId (sr_message r)) sb) \<and>
      in_step i (handleSelectConv (cm_conversationId (sr_message r)) sb)" if "r \<in> set (sb_results sb)" for r
    using that start(2) by (intro shut_select start) (auto simp: in_step_def)
  show ?thesis using True wrong listed start
    by (cases e)
      (simp_all add: sidebar_step_def same_passwords_refl shut_loaded shut_lock_changed shut_search shut_lists shut_menu
        shut_block_burn shut_close quiet row hit case_prod_unfold
        shut_refusals [unfolded case_prod_unfold] shut_setup [unfolded case_prod_unfold])
qed

lemma sidebar_run_shut:
  assumes "shut h i sb" "in_step i sb" "established Lock_Password w" "established Hide_Password w"
    and "\<forall>e \<in> set es. \<forall>p. typed_at_sidebar e = Some p \<longrightarrow> \<not> accepts Lock_Password p w \<and> \<not> accepts Hide_Password p w"
    and "\<forall>e \<in> set es. keeps_listing i e"
  shows "shut h i (fst (fold (sidebar_step A) es (sb, w))) \<and> in_step i (fst (fold (sidebar_step A) es (sb, w)))"
  using assms
proof (induction es arbitrary: sb w)
  case (Cons e es)
  obtain sb1 w1 where s: "sidebar_step A e (sb, w) = (sb1, w1)" by (rule prod.exhaust)
  have "shut h i sb1 \<and> in_step i sb1 \<and> same_passwords w w1"
    using sidebar_step_shut [OF Cons.prems(1-4), of e] Cons.prems(5,6) s by simp
  then show ?case using Cons.IH [of sb1 w1] Cons.prems(3-6) s by (simp add: same_passwords_def)
qed simp

end

lemma shut_not_shown:
  assumes "shut True i sb" "in_step i sb"
  shows "i \<notin> su_id ` set (rows sb)"
  using assms by (auto simp: shut_defs rows_def visibleConversations_def split: if_splits)

section \<open>Rows\<close>

definition conversation_title :: "summary \<Rightarrow> string" where
  "conversation_title c =
     (if starts_with ''BLOCKED'' (su_status c) then ''Blocked conversation''
      else case Option.bind (su_otherUser c) (\<lambda>p. given (Some (ct_username p))) of
             Some n \<Rightarrow> CHR ''@'' # n | None \<Rightarrow> ''Encrypted Chat'')"

definition conversation_subtitle :: "bool \<Rightarrow> bool \<Rightarrow> summary \<Rightarrow> string" where
  "conversation_subtitle isLocked isActive c =
     (if isLocked then ''Locked conversation''
      else if Option.bind (su_otherUser c) ct_isOnline = Some True then ''Online''
      else case Option.bind (su_otherUser c) (\<lambda>p. given (ct_displayName p)) of
             Some n \<Rightarrow> n
           | None \<Rightarrow>
               if isActive then ''Active in view''
               else if su_status c = ''ACTIVE'' then ''Connected & encrypted'' else ''Conversation closed'')"

definition unread_badge :: "bool \<Rightarrow> summary \<Rightarrow> string option" where
  "unread_badge isActive c =
     (case su_unreadCount c of
        Some n \<Rightarrow> if n > 0 \<and> \<not> isActive then Some (if n > 9 then ''9+'' else int_text n) else None
      | None \<Rightarrow> None)"

text \<open>
  A press of a row that lasts half a second opens its menu; the click that ends it
  does not open the conversation as well. A press that moves by more than 15 pixels is not a long one.
\<close>

record gesture =
  ge_timer :: bool
  ge_start :: "(int \<times> int) option"
  ge_long :: bool

datatype press = Press_Start int int | Press_Move int int | Press_Half_Second | Press_End | Press_Click | Press_Context

datatype row_effect = Row_Open | Row_Menu | Row_Nothing

fun press_row :: "press \<Rightarrow> gesture \<Rightarrow> row_effect \<times> gesture" where
  "press_row (Press_Start x y) g = (Row_Nothing, \<lparr>ge_timer = True, ge_start = Some (x, y), ge_long = False\<rparr>)"
| "press_row (Press_Move x y) g =
     (Row_Nothing,
      case ge_start g of
        None \<Rightarrow> g
      | Some (a, b) \<Rightarrow> if \<bar>x - a\<bar> > 15 \<or> \<bar>y - b\<bar> > 15 then g\<lparr>ge_timer := False\<rparr> else g)"
| "press_row Press_Half_Second g = (if ge_timer g then (Row_Menu, g\<lparr>ge_long := True\<rparr>) else (Row_Nothing, g))"
| "press_row Press_End g = (Row_Nothing, g\<lparr>ge_timer := False\<rparr>)"
| "press_row Press_Click g = (if ge_long g then (Row_Nothing, g\<lparr>ge_long := False\<rparr>) else (Row_Open, g))"
| "press_row Press_Context g = (Row_Menu, g\<lparr>ge_timer := False\<rparr>)"

lemma long_press_opens_menu_only:
  "fst (press_row Press_Click (snd (press_row Press_End (snd (press_row Press_Half_Second
     (snd (press_row (Press_Start x y) g))))))) = Row_Nothing"
  by simp

section \<open>The announced number of unread messages\<close>

definition announced_right :: "sidebar \<Rightarrow> bool" where
  "announced_right sb \<longleftrightarrow> sb_announced sb = Some (total_unread (sb_conversations sb))"

lemma announced_frame: "announced_right (sb\<lparr>sb_conversations := xs, sb_announced := Some (total_unread xs)\<rparr>)"
  by (simp add: announced_right_def)

lemma unread_contact [simp]: "unread (map_contact u f c) = unread c"
  by (simp add: map_contact_def unread_def split: option.splits)

lemma unread_after:
  "announced_right (loaded cs rs st sb)"
  "announced_right sb \<Longrightarrow> announced_right (on_active a sb)"
  "announced_right sb \<Longrightarrow> announced_right (onUserOnline u sb)"
  "announced_right sb \<Longrightarrow> announced_right (onUserOffline u t now sb)"
  "announced_right sb \<Longrightarrow> announced_right (onIncomingMessage j sb)"
  by (auto simp: announced_right_def loaded_def announce_def case_prod_unfold on_active_def Let_def onUserOnline_def
      onUserOffline_def onIncomingMessage_def total_unread_def o_def split: option.splits)

lemma total_unread_incoming:
  "distinct (map su_id cs) \<Longrightarrow>
   total_unread (map (\<lambda>c. if su_id c = i then c\<lparr>su_unreadCount := Some (unread c + 1)\<rparr> else c) cs) =
     total_unread cs + (if i \<in> su_id ` set cs then 1 else 0)"
  by (induction cs) (auto simp: total_unread_def unread_def)

section \<open>Visible and hidden conversations\<close>

lemma rows_partition:
  "set (visibleConversations sb) \<inter> set (hiddenConversations sb) = {}"
  "set (visibleConversations sb) \<union> set (hiddenConversations sb) =
     {c \<in> set (sb_conversations sb). su_status c \<noteq> ''DELETED'' \<and> name_matches (normalized sb) c}"
  by (auto simp: visibleConversations_def hiddenConversations_def)

lemma searchable_unguarded: "i \<in> set (searchable sb) \<Longrightarrow> i \<notin> set (sb_hidden sb) \<and> i \<notin> set (sb_locked sb)"
  by (auto simp: searchable_def)

definition blank_sidebar :: "ident option \<Rightarrow> client \<Rightarrow> sidebar" where
  "blank_sidebar u c =
     \<lparr>sb_store = c, sb_userId = u, sb_active = None, sb_conversations = [], sb_rooms = [], sb_loadError = False,
      sb_query = '''', sb_results = [], sb_hidden = [], sb_locked = [], sb_showHidden = False, sb_hiddenUnlocked = False,
      sb_actionConv = None, sb_modal = None, sb_unlockError = None, sb_removeLockError = None, sb_burnError = None,
      sb_actionError = None, sb_hasBurn = False, sb_hasLock = False, sb_hasHide = False, sb_setupFeature = None,
      sb_setupError = None, sb_pending = None, sb_announced = None, sb_calls = [], sb_went = []\<rparr>"

lemma shut_blank:
  assumes "i \<in> hid u c \<or> \<not> h \<and> i \<in> lkd u c" "\<not> isChatSessionUnlocked i c"
  shows "shut h i (blank_sidebar u c) \<and> in_step i (blank_sidebar u c)"
  using assms by (simp add: shut_defs blank_sidebar_def)

end
