(* ===== verification/ChatLink.thy ===== *)
theory ChatLink
  imports Sidebar Settings
begin

text \<open>
  The dialogs of the conversation page against the services they call: the feature
  passwords of \<open>settings.service.ts\<close> behind the lock screen, and \<open>attachments.service.ts\<close>
  behind a photo to be viewed once.
\<close>

section \<open>The lock screen and the settings service\<close>

definition feature_of :: "feature_type \<Rightarrow> feature" where
  "feature_of f = (case f of Burn_Password \<Rightarrow> Burn_Feature | Lock_Password \<Rightarrow> Lock_Feature | Hide_Password \<Rightarrow> Hide_Feature)"

text \<open>What the client sees of a refusal is its message.\<close>

definition refusal :: "http_error \<Rightarrow> failure" where
  "refusal e = (case e of Bad_Request m \<Rightarrow> Some m | Unauthorized m \<Rightarrow> Some m | _ \<Rightarrow> None)"

definition settings_api :: "crypto \<Rightarrow> bytes \<Rightarrow> ident \<Rightarrow> world feature_api" where
  "settings_api C salt u =
     \<lparr>fa_verify = (\<lambda>f p w. (case verifyFeaturePassword C u (feature_of f) p w of Inl e \<Rightarrow> Inl (refusal e) | Inr _ \<Rightarrow> Inr True, w)),
      fa_set = (\<lambda>f p cur w.
        case setFeaturePassword C salt u (feature_of f) p cur w of
          (Inl e, w1) \<Rightarrow> (Inl (refusal e), w1) | (Inr _, w1) \<Rightarrow> (Inr True, w1))\<rparr>"

abbreviation right_password :: "crypto \<Rightarrow> ident \<Rightarrow> feature_type \<Rightarrow> string \<Rightarrow> world \<Rightarrow> bool" where
  "right_password C u f p w \<equiv> verifyFeaturePassword C u (feature_of f) p w = Inr ()"

lemma setFeaturePassword_needs_current:
  "configured f u w \<noteq> None \<Longrightarrow> \<exists>e. setFeaturePassword C salt u f p None w = fail e w"
  by (auto simp: setFeaturePassword_def given_def Let_def)

lemma setFeaturePassword_others:
  assumes "g \<noteq> f"
  shows "configured g u (snd (setFeaturePassword C salt u f p cur w)) = configured g u w"
proof (cases "setFeaturePassword C salt u f p cur w")
  case (Pair r w1)
  then show ?thesis
  proof (cases r)
    case (Inl e)
    then show ?thesis using Pair by (auto simp: setFeaturePassword_def Let_def split: if_splits option.splits sum.splits)
  next
    case (Inr x)
    then show ?thesis using Pair setFeaturePassword_ok [of C salt u f p cur w x w1] assms by auto
  qed
qed

lemma feature_of_inject: "feature_of g = feature_of f \<longleftrightarrow> g = f"
  by (cases g; cases f) (simp_all add: feature_of_def)

interpretation settings_keeper: password_keeper "settings_api C salt u" "right_password C u"
    "\<lambda>f w. configured (feature_of f) u w \<noteq> None"
proof
  fix f p and w :: world
  show "fst (fa_verify (settings_api C salt u) f p w) = Inr True \<longleftrightarrow> right_password C u f p w"
    by (simp add: settings_api_def split: sum.splits)
  show "snd (fa_verify (settings_api C salt u) f p w) = w" by (simp add: settings_api_def)
  show "right_password C u g q (snd (fa_set (settings_api C salt u) f p cur w)) = right_password C u g q w \<and>
      (configured (feature_of g) u (snd (fa_set (settings_api C salt u) f p cur w)) \<noteq> None) =
      (configured (feature_of g) u w \<noteq> None)" if "g \<noteq> f" for g q cur
  proof -
    have w1: "snd (fa_set (settings_api C salt u) f p cur w) = snd (setFeaturePassword C salt u (feature_of f) p cur w)"
      by (simp add: settings_api_def split: prod.splits sum.splits)
    have "configured (feature_of g) u (snd (setFeaturePassword C salt u (feature_of f) p cur w)) = configured (feature_of g) u w"
      by (rule setFeaturePassword_others) (simp add: feature_of_inject that)
    then show ?thesis by (simp only: w1 verifyFeaturePassword_def simp_thms)
  qed
  assume "configured (feature_of f) u w \<noteq> None"
  from setFeaturePassword_needs_current [OF this, of C salt p]
  show "fst (fa_set (settings_api C salt u) f p None w) \<noteq> Inr True \<and> snd (fa_set (settings_api C salt u) f p None w) = w"
    by (auto simp: settings_api_def)
qed

text \<open>The passwords that open a chat that is locked or hidden.\<close>

definition opens_with :: "crypto \<Rightarrow> ident \<Rightarrow> chat_view \<Rightarrow> string \<Rightarrow> world \<Rightarrow> bool" where
  "opens_with C u v p w \<longleftrightarrow>
     right_password C u (guarding_feature (cw_isLocked v)) p w \<or>
     cw_isLocked v \<and> cw_isHidden v \<and> right_password C u Hide_Password p w"

lemma opens_with_page: "fst (opens_chat (settings_api C salt u) (cw_isLocked v) (cw_isHidden v) p w) = opens_with C u v p w"
  by (simp add: settings_keeper.opens opens_with_def)

text \<open>C17. The screen of a locked or hidden chat does not give way: with the password of its lock
  configured at the server, no sequence of attempts with other passwords, and no attempt to set a new
  password through the form that is shown when the page could not read the settings, opens the
  conversation or changes the device or the server; after all of them the right password opens it
  and unlocks the session of the chat.\<close>

theorem locked_chat_needs_password:
  assumes shut: "chat_screen v \<noteq> Conversation"
    and known: "configured (feature_of (guarding_feature (cw_isLocked v))) u w \<noteq> None"
    and wrong: "\<forall>a \<in> set as. \<forall>p. typed_password a = Some p \<longrightarrow> \<not> opens_with C u v p w"
    and run: "fold (run_attempt (settings_api C salt u)) as (v, w) = (v1, w1)"
    and right: "opens_with C u v p w" "js_trim p \<noteq> ''''"
  shows "chat_screen v1 \<noteq> Conversation \<and> cw_store v1 = cw_store v \<and> w1 = w \<and>
    (let v2 = fst (handleUnlockConversation (settings_api C salt u) p (v1, w1))
     in chat_screen v2 = Conversation \<and> isChatSessionUnlocked (cw_id v) (cw_store v2))"
proof -
  have same: "guard_of v1 = guard_of v" "w1 = w"
    using settings_keeper.attempts_refused [where u = u and w = w and v = v and C = C and salt = salt and as = as, OF known] wrong
    by (auto simp: run opens_with_page)
  then have o: "opens_with C u v1 p w" using right(1) by (simp add: opens_with_def)
  have stays: "chat_screen v1 \<noteq> Conversation" using shut same by (simp add: chat_screen_open)
  have "fst (opens_chat (settings_api C salt u) (cw_isLocked v1) (cw_isHidden v1) p w)"
    unfolding opens_with_page by (rule o)
  from settings_keeper.right_password_opens [OF right(2) this] show ?thesis
    using same stays by (simp add: Let_def)
qed

text \<open>C18. In the list of conversations the same holds. With the passwords of the lock and of hidden chats
  configured at the server, whatever a user does with the controls on the screen without typing
  one of the two: a chat that is hidden or locked on the device, not unlocked, and still listed by the
  server is not opened from the list, stays hidden or locked and is not unlocked; a hidden one does not
  even appear among the rows.\<close>

theorem sidebar_keeps_chats_shut:
  assumes guarded: "i \<in> hid u c \<or> i \<in> lkd u c" "\<not> isChatSessionUnlocked i c"
    and known: "configured Lock_Feature account w \<noteq> None" "configured Hide_Feature account w \<noteq> None"
    and wrong: "\<forall>e \<in> set es. \<forall>p. typed_at_sidebar e = Some p \<longrightarrow>
      \<not> right_password C account Lock_Password p w \<and> \<not> right_password C account Hide_Password p w"
    and listed: "\<forall>e \<in> set es. keeps_listing i e"
    and run: "fold (sidebar_step (settings_api C salt account)) es (blank_sidebar u c, w) = (sb, w1)"
  shows "Open_Conversation i \<notin> set (sb_went sb) \<and>
    (i \<in> hid (sb_userId sb) (sb_store sb) \<or> i \<in> lkd (sb_userId sb) (sb_store sb)) \<and>
    \<not> isChatSessionUnlocked i (sb_store sb) \<and>
    (i \<in> hid u c \<longrightarrow> i \<notin> su_id ` set (rows sb))"
proof -
  have est: "configured (feature_of Lock_Password) account w \<noteq> None" "configured (feature_of Hide_Password) account w \<noteq> None"
    using known by (simp_all add: feature_of_def)
  have inv: "shut h i sb \<and> in_step i sb" if "i \<in> hid u c \<or> \<not> h \<and> i \<in> lkd u c" for h
    using settings_keeper.sidebar_run_shut [where C = C and salt = salt and u = account and es = es and w = w and
        sb = "blank_sidebar u c" and h = h and i = i, OF _ _ est wrong listed] shut_blank [OF that guarded(2)]
    by (simp add: run)
  from inv [of False] guarded(1) have "shut False i sb" by blast
  moreover have "i \<notin> su_id ` set (rows sb)" if "i \<in> hid u c" using inv [of True] that shut_not_shown by blast
  ultimately show ?thesis by (auto simp: shut_def)
qed

section \<open>Photos to be viewed once\<close>

lemma delete_attachment_gone:
  assumes "find_attachment a w = Some r" "attachment_conv r w = Some c" "participant u c"
  shows "find_attachment a (snd (delete_attachment u a w)) = None"
  using assms by (simp add: delete_attachment_def Let_def find_attachment_def) (auto simp: delete_where_def find_None_iff)

lemma decrypts_own_file:
  assumes "opens S" "length dek = 32" "length iv = 12" "16 \<le> length (aes_seal S dek iv [] contents)"
  shows "decryptFile S (ef_ciphertext (encryptFile S dek iv ty sz contents)) dek = Inr contents"
  using assms by (simp add: encryptFile_def decryptFile_def opens_def)

lemma find_by_id: "distinct (map f xs) \<Longrightarrow> x \<in> set xs \<Longrightarrow> find (\<lambda>y. f y = f x) xs = Some x"
  by (induction xs) (auto simp: rev_image_eqI)


section \<open>Concrete instances\<close>

definition sample_view :: "page \<Rightarrow> bool \<Rightarrow> chat_view" where
  "sample_view pg locked =
     \<lparr>cw_page = pg, cw_isLocked = locked, cw_isHidden = False, cw_isSessionUnlocked = False, cw_lockCheckDone = True,
      cw_hasBurnPassword = False, cw_hasChatLockPassword = False, cw_hasHideChatPassword = False,
      cw_convoStatus = ''ACTIVE'', cw_expiresAt = None, cw_isTemporary = False, cw_countdown = '''',
      cw_otherUser = None, cw_actionError = None, cw_unlockError = None, cw_lockSetupError = None,
      cw_removeLockError = None, cw_hideSetupError = None, cw_hideConfirmError = None, cw_burnError = None,
      cw_burnSetupError = None, cw_extendError = None, cw_confirmAction = None, cw_showProfile = False,
      cw_showDisappearing = False, cw_showExtend = False, cw_draft = '''', cw_activeViewOnce = None,
      cw_pushed = None, cw_calls = []\<rparr>"

definition locked_world :: world where
  "locked_world = empty_world\<lparr>user_settings :=
     [(default_settings ''bob'')\<lparr>st_chatLockPasswordHash := Some (plain_hash ''salt'' ''sesame'')\<rparr>]\<rparr>"

lemma locked_world_password:
  "configured (feature_of (guarding_feature True)) ''bob'' locked_world \<noteq> None"
  "opens_with plain_crypto ''bob'' (sample_view pg True) p locked_world \<longleftrightarrow> p = ''sesame''"
proof -
  have c: "configured (feature_of Lock_Password) ''bob'' locked_world = Some (plain_hash ''salt'' ''sesame'')"
    by (simp add: configured_def find_settings_def locked_world_def default_settings_def feature_of_def given_def plain_hash_def)
  then show "configured (feature_of (guarding_feature True)) ''bob'' locked_world \<noteq> None"
    by (simp add: guarding_feature_def)
  show "opens_with plain_crypto ''bob'' (sample_view pg True) p locked_world \<longleftrightarrow> p = ''sesame''"
    using c by (auto simp: opens_with_def sample_view_def guarding_feature_def verifyFeaturePassword_def)
qed

lemma locked_chat_needs_password_witness:
  "\<exists>v1. fold (run_attempt (settings_api plain_crypto ''salt'' ''bob'')) [Try_Unlock ''guess'', Try_Setup ''mine'' ''mine'']
      (sample_view (fresh_page ''bob'' some_session) True, locked_world) = (v1, locked_world) \<and>
    chat_screen v1 \<noteq> Conversation \<and>
    chat_screen (fst (handleUnlockConversation (settings_api plain_crypto ''salt'' ''bob'') ''sesame'' (v1, locked_world))) =
      Conversation"
proof -
  let ?v = "sample_view (fresh_page ''bob'' some_session) True"
  let ?as = "[Try_Unlock ''guess'', Try_Setup ''mine'' ''mine'']"
  obtain v1 w1 where run: "fold (run_attempt (settings_api plain_crypto ''salt'' ''bob'')) ?as (?v, locked_world) = (v1, w1)"
    by (rule prod.exhaust)
  have s: "chat_screen ?v \<noteq> Conversation" "cw_isLocked ?v = True" by (simp_all add: chat_screen_def sample_view_def)
  have wrong: "\<forall>a \<in> set ?as. \<forall>p. typed_password a = Some p \<longrightarrow> \<not> opens_with plain_crypto ''bob'' ?v p locked_world"
    by (simp add: locked_world_password(2))
  have known: "configured (feature_of (guarding_feature (cw_isLocked ?v))) ''bob'' locked_world \<noteq> None"
    unfolding s(2) by (rule locked_world_password(1))
  have right: "opens_with plain_crypto ''bob'' ?v ''sesame'' locked_world" "js_trim ''sesame'' \<noteq> ''''"
    by (simp_all add: locked_world_password(2) js_trim_def js_space_def)
  from locked_chat_needs_password [OF s(1) known wrong run right]
  have "chat_screen v1 \<noteq> Conversation \<and> w1 = locked_world \<and>
      chat_screen (fst (handleUnlockConversation (settings_api plain_crypto ''salt'' ''bob'') ''sesame'' (v1, w1))) = Conversation"
    by (simp only: Let_def) blast
  then show ?thesis using run by blast
qed

definition photo_message :: "ident \<Rightarrow> bool \<Rightarrow> cached_message" where
  "photo_message sender mine =
     \<lparr>cm_id = ''m'', cm_conversationId = ''k'', cm_senderId = sender,
      cm_text = attachment_payload ''a'' (bytesToBase64 (replicate 32 (CHR ''d''))) ''image'' ''p.jpg'' None True,
      cm_sentAt = ''t'', cm_status = Delivered, cm_mine = mine, cm_replyToMessageId = None, cm_replyTo = None\<rparr>"

definition photo_world :: world where
  "photo_world = demo_world\<lparr>attachments := [\<lparr>at_id = ''a'', at_messageId = Some ''m'', at_uploaderId = ''alice'',
     at_conversationId = ''c'', at_driveFileId = ''f'', at_encryptedDek = None, at_mimeTypeHint = ''image'',
     at_storageProvider = Managed, at_originalSize = 5, at_encryptedSize = 9, at_uploadedAt = 0\<rparr>]\<rparr>"


definition guarded_world :: world where
  "guarded_world = empty_world\<lparr>user_settings :=
     [(default_settings ''bob'')\<lparr>st_chatLockPasswordHash := Some (plain_hash ''salt'' ''sesame''),
        st_hideChatPasswordHash := Some (plain_hash ''salt'' ''hidden'')\<rparr>]\<rparr>"

definition hiding_store :: client where
  "hiding_store = hideChat ''k'' (Some ''bob'') empty_client"

definition listed :: "ident \<Rightarrow> summary" where
  "listed i = \<lparr>su_id = i, su_status = ''ACTIVE'', su_unreadCount = None, su_otherUser = None\<rparr>"

definition curious_events :: "sidebar_event list" where
  "curious_events =
     [Loaded (Inr [listed ''j'', listed ''k'']) (Inr []) (Inl None), Toggle_Section, Confirm_Setup ''mine'' ''mine'' (Inr ()),
      Loaded (Inr [listed ''j'', listed ''k'']) (Inr []) (Inr (True, True, True)), Toggle_Section,
      Confirm_Section ''guess'', Select_Row (listed ''k''), Select_Row (listed ''j''), Confirm_Unlock ''guess'']"

lemma sidebar_keeps_chats_shut_witness:
  "\<exists>sb w1. fold (sidebar_step (settings_api plain_crypto ''salt'' ''bob'')) curious_events
      (blank_sidebar (Some ''bob'') hiding_store, guarded_world) = (sb, w1) \<and>
    Open_Conversation ''k'' \<notin> set (sb_went sb) \<and> ''k'' \<notin> su_id ` set (rows sb)"
proof -
  obtain sb w1 where run: "fold (sidebar_step (settings_api plain_crypto ''salt'' ''bob'')) curious_events
      (blank_sidebar (Some ''bob'') hiding_store, guarded_world) = (sb, w1)"
    by (rule prod.exhaust)
  have h: "''k'' \<in> hid (Some ''bob'') hiding_store" by (simp add: hiding_store_def hideChat_guards)
  have l: "\<not> isChatSessionUnlocked ''k'' hiding_store"
    unfolding hiding_store_def hideChat_guards by (simp add: isChatSessionUnlocked_def empty_client_def)
  have c: "configured Lock_Feature ''bob'' guarded_world = Some (plain_hash ''salt'' ''sesame'')"
    "configured Hide_Feature ''bob'' guarded_world = Some (plain_hash ''salt'' ''hidden'')"
    by (simp_all add: configured_def find_settings_def guarded_world_def default_settings_def given_def plain_hash_def)
  have wrong: "\<forall>e \<in> set curious_events. \<forall>p. typed_at_sidebar e = Some p \<longrightarrow>
      \<not> right_password plain_crypto ''bob'' Lock_Password p guarded_world \<and>
      \<not> right_password plain_crypto ''bob'' Hide_Password p guarded_world"
    by (simp add: curious_events_def feature_of_def verifyFeaturePassword_def c)
  have listed: "\<forall>e \<in> set curious_events. keeps_listing ''k'' e" by (simp add: curious_events_def listed_def)
  have "Open_Conversation ''k'' \<notin> set (sb_went sb) \<and> ''k'' \<notin> su_id ` set (rows sb)"
    using sidebar_keeps_chats_shut [OF disjI1 [OF h] l _ _ wrong listed run] c h by simp
  then show ?thesis using run by blast
qed

end
